(* ===== verification/Drm_Prelude.thy ===== *)
theory Drm_Prelude
  imports Main "HOL-Library.Word" "HOL-Library.Sublist"
begin

text \<open>
  Shared vocabulary of the development: the widths the C code uses, the error values its
  functions return, the outcome type (a value, a negative errno, or a violated
  \<^verbatim>\<open>BUG_ON\<close>), and the ring of a Linux \<^verbatim>\<open>struct list_head\<close> as a HOL list.  A ring
  with head \<open>h\<close> is the list of the elements that follow the head, head left out; the
  macros \<open>list_add\<close>, \<open>list_del\<close>, \<open>list_entry(x.next)\<close> and \<open>list_entry(x.prev)\<close> are the
  functions of the last section, with the laws the components use.
\<close>

unbundle bit_operations_syntax

type_synonym u8 = "8 word"
type_synonym u16 = "16 word"
type_synonym u32 = "32 word"
type_synonym u64 = "64 word"

section \<open>Outcomes\<close>

datatype errno = EPERM | ENOENT | EINTR | EIO | EAGAIN | ENOMEM | EACCES | EFAULT | EBUSY
  | EEXIST | ENODEV | EINVAL | ENOSPC | ERESTART | ERESTARTSYS | ENOTTY | ETIMEDOUT | EREMOTEIO
  | EDEADLK | E2BIG | ERANGE | EPROTO | ENXIO | EOVERFLOW

text \<open>\<open>Ok v\<close> is a normal return, \<open>Err e\<close> the return of \<open>-e\<close>, and \<open>Bug\<close> a kernel panic
  through \<^verbatim>\<open>BUG_ON\<close>.\<close>

datatype 'a outcome = Ok 'a | Err errno | Bug

fun bind_outcome :: "'a outcome \<Rightarrow> ('a \<Rightarrow> 'b outcome) \<Rightarrow> 'b outcome" where
  "bind_outcome (Ok v) f = f v"
| "bind_outcome (Err e) f = Err e"
| "bind_outcome Bug f = Bug"

lemma bind_outcome_eq_Ok [simp]:
  "bind_outcome r f = Ok w \<longleftrightarrow> (\<exists>v. r = Ok v \<and> f v = Ok w)"
  by (cases r) auto

section \<open>Machine arithmetic\<close>

text \<open>The round-up every allocator of the tree uses:
  \<^verbatim>\<open>unsigned tmp = start % alignment; if (tmp) start += alignment - tmp;\<close> with a 64-bit
  start and a 32-bit alignment, skipped for alignment 0.\<close>

definition align_start :: "u64 \<Rightarrow> u32 \<Rightarrow> u64" where
  "align_start s al =
     (if al = 0 then s
      else let tmp = (ucast (s mod ucast al) :: u32)
           in if tmp = 0 then s else s + ucast (al - tmp))"

lemma unat_ucast_u32_u64 [simp]: "unat (ucast (x::u32) :: u64) = unat x"
  by (simp add: unsigned_ucast_eq take_bit_nat_eq_self_iff less_trans [OF unsigned_less])

lemma unat_lt_2p32: "unat (x::u32) < 2 ^ 32"
  using unsigned_less [of x] by simp

lemma unat_lt_2p64: "unat (x::u64) < 2 ^ 64"
  using unsigned_less [of x] by simp

lemma unat_add_u64:
  "unat (a::u64) + unat b < 2 ^ 64 \<Longrightarrow> unat (a + b) = unat a + unat b"
  by (simp add: unat_word_ariths)

lemma unat_diff_u64: "unat (b::u64) \<le> unat a \<Longrightarrow> unat (a - b) = unat a - unat b"
  by (simp add: unat_sub word_le_nat_alt)

lemma unat_diff_wrap_u64:
  "unat a < unat (b::u64) \<Longrightarrow> unat (a - b) = 2 ^ 64 + unat a - unat b"
  by (simp add: unat_sub_if_size word_size)

lemma unat_max_u64: "unat (- 1 :: u64) = 2 ^ 64 - 1"
  by (simp add: unsigned_minus_1_eq_mask mask_eq_exp_minus_1)

lemma unat_add_no_wrap:
  "unat (a::u64) < unat (a + b) \<Longrightarrow> unat (a + b) = unat a + unat b"
  using unat_lt_2p64 [of b] by (auto simp: unat_plus_if_size word_size split: if_splits)

lemma unat_mod_u64_u32:
  assumes "al \<noteq> (0::u32)"
  shows "unat (ucast ((s::u64) mod ucast al) :: u32) = unat s mod unat al"
proof -
  have "unat s mod unat al < unat al"
    using assms by (simp add: unat_eq_zero unat_gt_0)
  also have "\<dots> < 2 ^ 32" by (rule unat_lt_2p32)
  finally have "unat s mod unat al < 2 ^ 32" .
  then show ?thesis
    by (simp add: unsigned_ucast_eq take_bit_eq_mod unat_mod_distrib)
qed

text \<open>The specification of the round-up: the least multiple of the alignment that is not
  below the start, as long as the addition does not wrap.\<close>

lemma align_start_spec:
  assumes "unat s + 2 ^ 32 \<le> 2 ^ 64"
  shows "unat (align_start s al) = (if al = 0 then unat s else
           unat s + (unat al - unat s mod unat al) mod unat al)"
proof (cases "al = 0 \<or> unat s mod unat al = 0")
  case True
  then show ?thesis
    by (auto simp: align_start_def Let_def unat_eq_zero [symmetric] unat_mod_u64_u32)
next
  case False
  then have al: "al \<noteq> 0" and pos: "0 < unat al" and m: "unat s mod unat al \<noteq> 0"
    by (auto simp: unat_gt_0)
  define tmp where "tmp = (ucast (s mod ucast al) :: u32)"
  have tmp: "unat tmp = unat s mod unat al" using al by (simp add: tmp_def unat_mod_u64_u32)
  then have "unat tmp < unat al" using pos by simp
  then have d: "unat (al - tmp) = unat al - unat s mod unat al"
    by (simp add: unat_sub word_le_nat_alt tmp)
  have "unat al < 2 ^ 32" by (rule unat_lt_2p32)
  then have "unat s + unat (ucast (al - tmp) :: u64) < 2 ^ 64"
    using assms d m by simp
  then have "unat (s + ucast (al - tmp)) = unat s + (unat al - unat s mod unat al)"
    by (simp add: unat_add_u64 d)
  moreover have "tmp \<noteq> 0" using m tmp by auto
  ultimately show ?thesis
    using al m pos by (simp add: align_start_def tmp_def [symmetric] Let_def)
qed

lemma align_start_ge:
  "unat s + 2 ^ 32 \<le> 2 ^ 64 \<Longrightarrow> unat s \<le> unat (align_start s al)"
  by (simp add: align_start_spec)

lemma align_start_lt:
  "unat s + 2 ^ 32 \<le> 2 ^ 64 \<Longrightarrow> unat (align_start s al) < unat s + 2 ^ 32"
proof -
  assume a: "unat s + 2 ^ 32 \<le> 2 ^ 64"
  have "(unat al - unat s mod unat al) mod unat al < 2 ^ 32" if "al \<noteq> 0"
  proof -
    have "(unat al - unat s mod unat al) mod unat al < unat al"
      using that by (simp add: unat_gt_0)
    also have "\<dots> < 2 ^ 32" by (rule unat_lt_2p32)
    finally show ?thesis .
  qed
  with a show ?thesis by (simp add: align_start_spec)
qed

lemma align_start_dvd:
  assumes "unat s + 2 ^ 32 \<le> 2 ^ 64" and "al \<noteq> 0"
  shows "unat al dvd unat (align_start s al)"
proof -
  have pos: "0 < unat al" using assms(2) by (simp add: unat_gt_0)
  have "unat s mod unat al < unat al" using pos by simp
  then have "unat s + (unat al - unat s mod unat al) = (unat s - unat s mod unat al) + unat al"
    by (simp add: mod_less_eq_dividend)
  moreover have "unat al dvd (unat s - unat s mod unat al) + unat al"
    by (rule dvd_add [OF dvd_minus_mod dvd_refl])
  ultimately have "(unat s + (unat al - unat s mod unat al)) mod unat al = 0"
    by simp
  then have "(unat s + (unat al - unat s mod unat al) mod unat al) mod unat al = 0"
    by (simp only: mod_add_right_eq)
  moreover have "unat (align_start s al) = unat s + (unat al - unat s mod unat al) mod unat al"
    by (simp only: align_start_spec [OF assms(1)] assms(2) if_False)
  ultimately show ?thesis by (simp only: dvd_eq_mod_eq_0)
qed

section \<open>Rings of list heads\<close>

text \<open>\<open>next_of h xs x\<close> is the element after \<open>x\<close> in the ring of head \<open>h\<close>, \<open>prev_of\<close> the one
  before it; the ring closes at the head.\<close>

fun succ_in :: "'a \<Rightarrow> 'a list \<Rightarrow> 'a \<Rightarrow> 'a" where
  "succ_in h [] x = h"
| "succ_in h (y # ys) x = (if y = x then (case ys of [] \<Rightarrow> h | z # _ \<Rightarrow> z) else succ_in h ys x)"

definition next_of :: "'a \<Rightarrow> 'a list \<Rightarrow> 'a \<Rightarrow> 'a" where
  "next_of h xs x = succ_in h (h # xs) x"

definition prev_of :: "'a \<Rightarrow> 'a list \<Rightarrow> 'a \<Rightarrow> 'a" where
  "prev_of h xs x = succ_in h (h # rev xs) x"

text \<open>\<open>list_add(new, pos)\<close> puts \<open>new\<close> right after \<open>pos\<close>, which may be the head.\<close>

fun insert_after :: "'a list \<Rightarrow> 'a \<Rightarrow> 'a \<Rightarrow> 'a list" where
  "insert_after [] p n = []"
| "insert_after (x # xs) p n = (if x = p then x # n # xs else x # insert_after xs p n)"

definition list_add :: "'a \<Rightarrow> 'a list \<Rightarrow> 'a \<Rightarrow> 'a \<Rightarrow> 'a list" where
  "list_add h xs p n = (if p = h then n # xs else insert_after xs p n)"

lemma succ_in_append: "x \<notin> set xs \<Longrightarrow> succ_in h (xs @ ys) x = succ_in h ys x"
  by (induction xs) auto

lemma next_of_head [simp]: "next_of h xs h = (case xs of [] \<Rightarrow> h | x # _ \<Rightarrow> x)"
  by (simp add: next_of_def)

lemma next_of_split:
  "x \<noteq> h \<Longrightarrow> x \<notin> set xs \<Longrightarrow>
   next_of h (xs @ x # ys) x = (case ys of [] \<Rightarrow> h | y # _ \<Rightarrow> y)"
  by (simp add: next_of_def succ_in_append)

lemma prev_of_split:
  "x \<noteq> h \<Longrightarrow> x \<notin> set ys \<Longrightarrow>
   prev_of h (xs @ x # ys) x = (if xs = [] then h else last xs)"
  by (cases xs rule: rev_cases) (auto simp: prev_of_def succ_in_append)

lemma insert_after_split:
  "p \<notin> set xs \<Longrightarrow> insert_after (xs @ p # ys) p n = xs @ p # n # ys"
  by (induction xs) auto

lemma set_insert_after: "p \<in> set xs \<Longrightarrow> set (insert_after xs p n) = insert n (set xs)"
  by (induction xs) auto

lemma list_add_split:
  "p \<noteq> h \<Longrightarrow> p \<notin> set xs \<Longrightarrow> list_add h (xs @ p # ys) p n = xs @ p # n # ys"
  by (simp add: list_add_def insert_after_split)

lemma list_add_head [simp]: "list_add h xs h n = n # xs"
  by (simp add: list_add_def)

lemma set_list_add:
  "p \<in> set (h # xs) \<Longrightarrow> set (list_add h xs p n) = insert n (set xs)"
  by (auto simp: list_add_def set_insert_after)

lemma remove1_split: "x \<notin> set xs \<Longrightarrow> remove1 x (xs @ x # ys) = xs @ ys"
  by (simp add: remove1_append)

end
