(* ===== verification/Drm_Mm.thy ===== *)
theory Drm_Mm
  imports Drm_Prelude
begin

text \<open>
  The range allocator of \<^verbatim>\<open>drm/drm_mm.c\<close>.  A \<^verbatim>\<open>struct drm_mm\<close> keeps the allocated
  nodes on an address-ordered ring whose head is \<^verbatim>\<open>head_node\<close>, and the nodes that a hole
  follows on a second list, the hole stack.  Nodes are named by references (\<open>Head\<close> for
  \<^verbatim>\<open>&mm->head_node\<close>, \<open>Node i\<close> for the others) and stored in a map; the two lists are lists
  of references.  Addresses are 64-bit words, as \<^verbatim>\<open>unsigned long\<close> on the amd64 kernels.
\<close>

section \<open>State\<close>

datatype nref = Head | Node nat

record drm_mm_node =
  nd_hole_follows :: bool
  nd_scanned_block :: bool
  nd_scanned_prev_free :: bool
  nd_scanned_next_free :: bool
  nd_scanned_preceeds_hole :: bool
  nd_allocated :: bool
  nd_color :: u64
  nd_start :: u64
  nd_size :: u64
  nd_scan_prev :: nref
  nd_scan_next :: "nref option"

text \<open>
  \<open>nd_scan_prev\<close> and \<open>nd_scan_next\<close> are the two pointers of \<^verbatim>\<open>node_list\<close> of a node that the
  scan has taken off the ring.  The colour callback reads the node before the hole and the
  node after it (the node itself when the ring is empty, which the first argument tells).
\<close>

type_synonym color_fn = "bool \<Rightarrow> drm_mm_node \<Rightarrow> drm_mm_node \<Rightarrow> u64 \<Rightarrow> u64 \<times> u64 \<Rightarrow> u64 \<times> u64"

record drm_mm =
  mm_hole_stack :: "nref list"
  mm_node_list :: "nref list"
  mm_nodes :: "nref \<Rightarrow> drm_mm_node"
  mm_unused_nodes :: "nref list"
  mm_num_unused :: int
  mm_scan_check_range :: bool
  mm_scan_alignment :: u32
  mm_scan_color :: u64
  mm_scan_size :: u64
  mm_scan_hit_start :: u64
  mm_scan_hit_end :: u64
  mm_scanned_blocks :: u32
  mm_scan_start :: u64
  mm_scan_end :: u64
  mm_prev_scanned_node :: "nref option"
  mm_color_adjust :: "color_fn option"

definition upd_node :: "nref \<Rightarrow> (drm_mm_node \<Rightarrow> drm_mm_node) \<Rightarrow> drm_mm \<Rightarrow> drm_mm" where
  "upd_node r f mm = mm\<lparr>mm_nodes := (mm_nodes mm)(r := f (mm_nodes mm r))\<rparr>"

definition zero_node :: drm_mm_node where
  "zero_node = \<lparr>nd_hole_follows = False, nd_scanned_block = False, nd_scanned_prev_free = False,
     nd_scanned_next_free = False, nd_scanned_preceeds_hole = False, nd_allocated = False,
     nd_color = 0, nd_start = 0, nd_size = 0, nd_scan_prev = Head, nd_scan_next = None\<rparr>"

definition drm_mm_node_allocated :: "drm_mm \<Rightarrow> nref \<Rightarrow> bool" where
  "drm_mm_node_allocated mm r = nd_allocated (mm_nodes mm r)"

section \<open>The pool of preallocated nodes\<close>

definition MM_UNUSED_TARGET :: int where
  "MM_UNUSED_TARGET = 4"

text \<open>The result of \<^verbatim>\<open>kzalloc\<close> is an argument: a fresh node, which is cleared, or \<open>None\<close>.\<close>

definition drm_mm_kmalloc :: "drm_mm \<Rightarrow> nref option \<Rightarrow> nref option \<times> drm_mm" where
  "drm_mm_kmalloc mm kz =
     (case kz of
        Some n \<Rightarrow> (Some n, upd_node n (\<lambda>_. zero_node) mm)
      | None \<Rightarrow>
          (case mm_unused_nodes mm of
             [] \<Rightarrow> (None, mm)
           | n # ns \<Rightarrow> (Some n, mm\<lparr>mm_unused_nodes := ns, mm_num_unused := mm_num_unused mm - 1\<rparr>)))"

text \<open>\<open>kz i\<close> is the result of the allocation made when the pool holds \<open>i\<close> nodes.\<close>

function drm_mm_pre_get :: "(int \<Rightarrow> nref option) \<Rightarrow> drm_mm \<Rightarrow> errno option \<times> drm_mm" where
  "drm_mm_pre_get kz mm =
     (if mm_num_unused mm < MM_UNUSED_TARGET then
        (case kz (mm_num_unused mm) of
           None \<Rightarrow> (if mm_num_unused mm < 2 then Some ENOMEM else None, mm)
         | Some n \<Rightarrow> drm_mm_pre_get kz
             ((upd_node n (\<lambda>_. zero_node) mm)
                \<lparr>mm_num_unused := mm_num_unused mm + 1,
                 mm_unused_nodes := mm_unused_nodes mm @ [n]\<rparr>))
      else (None, mm))"
  by pat_completeness auto
termination
  by (relation "measure (\<lambda>(kz, mm). nat (MM_UNUSED_TARGET - mm_num_unused mm))")
     (auto simp: MM_UNUSED_TARGET_def)

declare drm_mm_pre_get.simps [simp del]

section \<open>Holes\<close>

definition drm_mm_hole_node_start :: "drm_mm \<Rightarrow> nref \<Rightarrow> u64" where
  "drm_mm_hole_node_start mm r = nd_start (mm_nodes mm r) + nd_size (mm_nodes mm r)"

definition drm_mm_hole_node_end :: "drm_mm \<Rightarrow> nref \<Rightarrow> u64" where
  "drm_mm_hole_node_end mm r = nd_start (mm_nodes mm (next_of Head (mm_node_list mm) r))"

definition color_adjust :: "drm_mm \<Rightarrow> nref \<Rightarrow> u64 \<Rightarrow> u64 \<times> u64 \<Rightarrow> u64 \<times> u64" where
  "color_adjust mm r c se =
     (case mm_color_adjust mm of
        None \<Rightarrow> se
      | Some f \<Rightarrow> f (mm_node_list mm = []) (mm_nodes mm r)
                   (mm_nodes mm (next_of Head (mm_node_list mm) r)) c se)"

definition check_free_hole :: "u64 \<Rightarrow> u64 \<Rightarrow> u64 \<Rightarrow> u32 \<Rightarrow> bool" where
  "check_free_hole s e sz alignment =
     (if e - s < sz then False else align_start s alignment + sz \<le> e)"

section \<open>Insertion\<close>

definition drm_mm_insert_helper ::
    "drm_mm \<Rightarrow> nref \<Rightarrow> nref \<Rightarrow> u64 \<Rightarrow> u32 \<Rightarrow> u64 \<Rightarrow> drm_mm outcome" where
  "drm_mm_insert_helper mm hole n sz alignment col =
    (let hole_start = drm_mm_hole_node_start mm hole;
         hole_end = drm_mm_hole_node_end mm hole
     in if \<not> nd_hole_follows (mm_nodes mm hole) \<or> nd_allocated (mm_nodes mm n) then Bug
     else let
       (adj_start, adj_end) = color_adjust mm hole col (hole_start, hole_end);
       adj_start = align_start adj_start alignment;
       mm = (if adj_start = hole_start
             then (upd_node hole (\<lambda>x. x\<lparr>nd_hole_follows := False\<rparr>) mm)
                    \<lparr>mm_hole_stack := remove1 hole (mm_hole_stack mm)\<rparr>
             else mm);
       mm = upd_node n (\<lambda>x. x\<lparr>nd_start := adj_start, nd_size := sz, nd_color := col,
                              nd_allocated := True\<rparr>) mm;
       mm = mm\<lparr>mm_node_list := list_add Head (mm_node_list mm) hole n\<rparr>
     in if adj_end < adj_start + sz then Bug
     else let mm = upd_node n (\<lambda>x. x\<lparr>nd_hole_follows := False\<rparr>) mm
     in if adj_start + sz < hole_end
        then Ok ((upd_node n (\<lambda>x. x\<lparr>nd_hole_follows := True\<rparr>) mm)
                   \<lparr>mm_hole_stack := n # mm_hole_stack mm\<rparr>)
        else Ok mm)"

definition drm_mm_insert_helper_range ::
    "drm_mm \<Rightarrow> nref \<Rightarrow> nref \<Rightarrow> u64 \<Rightarrow> u32 \<Rightarrow> u64 \<Rightarrow> u64 \<Rightarrow> u64 \<Rightarrow> drm_mm outcome" where
  "drm_mm_insert_helper_range mm hole n sz alignment col rstart rend =
    (let hole_start = drm_mm_hole_node_start mm hole;
         hole_end = drm_mm_hole_node_end mm hole
     in if \<not> nd_hole_follows (mm_nodes mm hole) \<or> nd_allocated (mm_nodes mm n) then Bug
     else let
       adj_start = (if hole_start < rstart then rstart else hole_start);
       adj_end = (if rend < hole_end then rend else hole_end);
       (adj_start, adj_end) = color_adjust mm hole col (adj_start, adj_end);
       adj_start = align_start adj_start alignment;
       mm = (if adj_start = hole_start
             then (upd_node hole (\<lambda>x. x\<lparr>nd_hole_follows := False\<rparr>) mm)
                    \<lparr>mm_hole_stack := remove1 hole (mm_hole_stack mm)\<rparr>
             else mm);
       mm = upd_node n (\<lambda>x. x\<lparr>nd_start := adj_start, nd_size := sz, nd_color := col,
                              nd_allocated := True\<rparr>) mm;
       mm = mm\<lparr>mm_node_list := list_add Head (mm_node_list mm) hole n\<rparr>
     in if adj_end < adj_start + sz then Bug
     else if rend < adj_start + sz then Bug
     else let mm = upd_node n (\<lambda>x. x\<lparr>nd_hole_follows := False\<rparr>) mm
     in if adj_start + sz < hole_end
        then Ok ((upd_node n (\<lambda>x. x\<lparr>nd_hole_follows := True\<rparr>) mm)
                   \<lparr>mm_hole_stack := n # mm_hole_stack mm\<rparr>)
        else Ok mm)"

section \<open>Search\<close>

text \<open>The loop over the hole stack; \<open>best\<close> and \<open>best_size\<close> are the loop's variables.\<close>

fun search_holes :: "drm_mm \<Rightarrow> u64 \<Rightarrow> u32 \<Rightarrow> u64 \<Rightarrow> bool \<Rightarrow> nref list \<Rightarrow> nref option \<Rightarrow> u64 \<Rightarrow>
    nref option outcome" where
  "search_holes mm sz alignment col best_match [] best best_size = Ok best"
| "search_holes mm sz alignment col best_match (r # rs) best best_size =
    (let (adj_start, adj_end) =
           color_adjust mm r col (drm_mm_hole_node_start mm r, drm_mm_hole_node_end mm r)
     in if mm_color_adjust mm \<noteq> None \<and> adj_end \<le> adj_start
        then search_holes mm sz alignment col best_match rs best best_size
        else if \<not> nd_hole_follows (mm_nodes mm r) then Bug
        else if \<not> check_free_hole adj_start adj_end sz alignment
        then search_holes mm sz alignment col best_match rs best best_size
        else if \<not> best_match then Ok (Some r)
        else if nd_size (mm_nodes mm r) < best_size
        then search_holes mm sz alignment col best_match rs (Some r) (nd_size (mm_nodes mm r))
        else search_holes mm sz alignment col best_match rs best best_size)"

definition drm_mm_search_free_generic ::
    "drm_mm \<Rightarrow> u64 \<Rightarrow> u32 \<Rightarrow> u64 \<Rightarrow> bool \<Rightarrow> nref option outcome" where
  "drm_mm_search_free_generic mm sz alignment col best_match =
     (if mm_scanned_blocks mm \<noteq> 0 then Bug
      else search_holes mm sz alignment col best_match (mm_hole_stack mm) None (- 1))"

fun search_holes_range :: "drm_mm \<Rightarrow> u64 \<Rightarrow> u32 \<Rightarrow> u64 \<Rightarrow> u64 \<Rightarrow> u64 \<Rightarrow> bool \<Rightarrow> nref list \<Rightarrow>
    nref option \<Rightarrow> u64 \<Rightarrow> nref option outcome" where
  "search_holes_range mm sz alignment col rstart rend best_match [] best best_size = Ok best"
| "search_holes_range mm sz alignment col rstart rend best_match (r # rs) best best_size =
    (let adj_start = (if drm_mm_hole_node_start mm r < rstart then rstart
                      else drm_mm_hole_node_start mm r);
         adj_end = (if rend < drm_mm_hole_node_end mm r then rend
                    else drm_mm_hole_node_end mm r)
     in if \<not> nd_hole_follows (mm_nodes mm r) then Bug
     else let (adj_start, adj_end) = color_adjust mm r col (adj_start, adj_end)
     in if mm_color_adjust mm \<noteq> None \<and> adj_end \<le> adj_start
        then search_holes_range mm sz alignment col rstart rend best_match rs best best_size
        else if \<not> check_free_hole adj_start adj_end sz alignment
        then search_holes_range mm sz alignment col rstart rend best_match rs best best_size
        else if \<not> best_match then Ok (Some r)
        else if nd_size (mm_nodes mm r) < best_size
        then search_holes_range mm sz alignment col rstart rend best_match rs (Some r)
               (nd_size (mm_nodes mm r))
        else search_holes_range mm sz alignment col rstart rend best_match rs best best_size)"

definition drm_mm_search_free_in_range_generic ::
    "drm_mm \<Rightarrow> u64 \<Rightarrow> u32 \<Rightarrow> u64 \<Rightarrow> u64 \<Rightarrow> u64 \<Rightarrow> bool \<Rightarrow> nref option outcome" where
  "drm_mm_search_free_in_range_generic mm sz alignment col rstart rend best_match =
     (if mm_scanned_blocks mm \<noteq> 0 then Bug
      else search_holes_range mm sz alignment col rstart rend best_match
             (mm_hole_stack mm) None (- 1))"

section \<open>Insertion through the search\<close>

definition drm_mm_insert_node_generic ::
    "drm_mm \<Rightarrow> nref \<Rightarrow> u64 \<Rightarrow> u32 \<Rightarrow> u64 \<Rightarrow> drm_mm outcome" where
  "drm_mm_insert_node_generic mm n sz alignment col =
     bind_outcome (drm_mm_search_free_generic mm sz alignment col False)
       (\<lambda>hole. case hole of None \<Rightarrow> Err ENOSPC
               | Some r \<Rightarrow> drm_mm_insert_helper mm r n sz alignment col)"

definition drm_mm_insert_node :: "drm_mm \<Rightarrow> nref \<Rightarrow> u64 \<Rightarrow> u32 \<Rightarrow> drm_mm outcome" where
  "drm_mm_insert_node mm n sz alignment = drm_mm_insert_node_generic mm n sz alignment 0"

definition drm_mm_insert_node_in_range_generic ::
    "drm_mm \<Rightarrow> nref \<Rightarrow> u64 \<Rightarrow> u32 \<Rightarrow> u64 \<Rightarrow> u64 \<Rightarrow> u64 \<Rightarrow> drm_mm outcome" where
  "drm_mm_insert_node_in_range_generic mm n sz alignment col rstart rend =
     bind_outcome (drm_mm_search_free_in_range_generic mm sz alignment col rstart rend False)
       (\<lambda>hole. case hole of None \<Rightarrow> Err ENOSPC
               | Some r \<Rightarrow> drm_mm_insert_helper_range mm r n sz alignment col rstart rend)"

definition drm_mm_insert_node_in_range ::
    "drm_mm \<Rightarrow> nref \<Rightarrow> u64 \<Rightarrow> u32 \<Rightarrow> u64 \<Rightarrow> u64 \<Rightarrow> drm_mm outcome" where
  "drm_mm_insert_node_in_range mm n sz alignment rstart rend =
     drm_mm_insert_node_in_range_generic mm n sz alignment 0 rstart rend"

text \<open>The block functions allocate the node themselves; \<open>None\<close> is the NULL they return.\<close>

definition drm_mm_get_block_generic ::
    "drm_mm \<Rightarrow> nref \<Rightarrow> u64 \<Rightarrow> u32 \<Rightarrow> u64 \<Rightarrow> nref option \<Rightarrow> (nref option \<times> drm_mm) outcome" where
  "drm_mm_get_block_generic mm hole sz alignment col kz =
     (case drm_mm_kmalloc mm kz of
        (None, mm) \<Rightarrow> Ok (None, mm)
      | (Some n, mm) \<Rightarrow>
          bind_outcome (drm_mm_insert_helper mm hole n sz alignment col)
            (\<lambda>mm. Ok (Some n, mm)))"

definition drm_mm_get_block_range_generic ::
    "drm_mm \<Rightarrow> nref \<Rightarrow> u64 \<Rightarrow> u32 \<Rightarrow> u64 \<Rightarrow> u64 \<Rightarrow> u64 \<Rightarrow> nref option \<Rightarrow>
     (nref option \<times> drm_mm) outcome" where
  "drm_mm_get_block_range_generic mm hole sz alignment col rstart rend kz =
     (case drm_mm_kmalloc mm kz of
        (None, mm) \<Rightarrow> Ok (None, mm)
      | (Some n, mm) \<Rightarrow>
          bind_outcome (drm_mm_insert_helper_range mm hole n sz alignment col rstart rend)
            (\<lambda>mm. Ok (Some n, mm)))"

section \<open>Removal and replacement\<close>

definition drm_mm_remove_node :: "drm_mm \<Rightarrow> nref \<Rightarrow> drm_mm outcome" where
  "drm_mm_remove_node mm n =
    (let nd = mm_nodes mm n; prev = prev_of Head (mm_node_list mm) n
     in if nd_scanned_block nd \<or> nd_scanned_prev_free nd \<or> nd_scanned_next_free nd then Bug
     else if nd_hole_follows nd \<and> drm_mm_hole_node_start mm n = drm_mm_hole_node_end mm n then Bug
     else if \<not> nd_hole_follows nd \<and> drm_mm_hole_node_start mm n \<noteq> drm_mm_hole_node_end mm n then Bug
     else let
       mm = (if nd_hole_follows nd then mm\<lparr>mm_hole_stack := remove1 n (mm_hole_stack mm)\<rparr> else mm);
       mm = (if \<not> nd_hole_follows (mm_nodes mm prev)
             then (upd_node prev (\<lambda>x. x\<lparr>nd_hole_follows := True\<rparr>) mm)
                    \<lparr>mm_hole_stack := prev # mm_hole_stack mm\<rparr>
             else mm\<lparr>mm_hole_stack := prev # remove1 prev (mm_hole_stack mm)\<rparr>);
       mm = mm\<lparr>mm_node_list := remove1 n (mm_node_list mm)\<rparr>
     in Ok (upd_node n (\<lambda>x. x\<lparr>nd_allocated := False\<rparr>) mm))"

definition drm_mm_put_block :: "drm_mm \<Rightarrow> nref \<Rightarrow> drm_mm outcome" where
  "drm_mm_put_block mm n =
     bind_outcome (drm_mm_remove_node mm n)
       (\<lambda>mm. if mm_num_unused mm < MM_UNUSED_TARGET
             then Ok (mm\<lparr>mm_unused_nodes := n # mm_unused_nodes mm,
                         mm_num_unused := mm_num_unused mm + 1\<rparr>)
             else Ok mm)"

definition replace_in :: "'a \<Rightarrow> 'a \<Rightarrow> 'a list \<Rightarrow> 'a list" where
  "replace_in old new xs = map (\<lambda>x. if x = old then new else x) xs"

definition drm_mm_replace_node :: "drm_mm \<Rightarrow> nref \<Rightarrow> nref \<Rightarrow> drm_mm" where
  "drm_mm_replace_node mm old new =
    (let nd = mm_nodes mm old;
         mm = mm\<lparr>mm_node_list := replace_in old new (mm_node_list mm),
                 mm_hole_stack := replace_in old new (mm_hole_stack mm)\<rparr>;
         mm = upd_node new (\<lambda>x. x\<lparr>nd_hole_follows := nd_hole_follows nd, nd_start := nd_start nd,
                                  nd_size := nd_size nd, nd_color := nd_color nd\<rparr>) mm;
         mm = upd_node old (\<lambda>x. x\<lparr>nd_allocated := False\<rparr>) mm
     in upd_node new (\<lambda>x. x\<lparr>nd_allocated := True\<rparr>) mm)"

section \<open>The eviction scan\<close>

definition drm_mm_init_scan :: "drm_mm \<Rightarrow> u64 \<Rightarrow> u32 \<Rightarrow> u64 \<Rightarrow> drm_mm" where
  "drm_mm_init_scan mm sz alignment col =
     mm\<lparr>mm_scan_color := col, mm_scan_alignment := alignment, mm_scan_size := sz,
        mm_scanned_blocks := 0, mm_scan_hit_start := 0, mm_scan_hit_end := 0,
        mm_scan_check_range := False, mm_prev_scanned_node := None\<rparr>"

definition drm_mm_init_scan_with_range ::
    "drm_mm \<Rightarrow> u64 \<Rightarrow> u32 \<Rightarrow> u64 \<Rightarrow> u64 \<Rightarrow> u64 \<Rightarrow> drm_mm" where
  "drm_mm_init_scan_with_range mm sz alignment col rstart rend =
     mm\<lparr>mm_scan_color := col, mm_scan_alignment := alignment, mm_scan_size := sz,
        mm_scanned_blocks := 0, mm_scan_hit_start := 0, mm_scan_hit_end := 0,
        mm_scan_start := rstart, mm_scan_end := rend,
        mm_scan_check_range := True, mm_prev_scanned_node := None\<rparr>"

text \<open>The first half of an addition: the node leaves the ring, remembers its predecessor and
  whether a hole followed that, and is pushed on the list of scanned nodes.\<close>

definition scan_detach :: "drm_mm \<Rightarrow> nref \<Rightarrow> nref \<Rightarrow> drm_mm" where
  "scan_detach mm n prev =
    (let preceeds = nd_hole_follows (mm_nodes mm prev);
         mm = mm\<lparr>mm_scanned_blocks := mm_scanned_blocks mm + 1\<rparr>;
         mm = upd_node prev (\<lambda>x. x\<lparr>nd_hole_follows := True\<rparr>) mm;
         mm = upd_node n (\<lambda>x. x\<lparr>nd_scanned_block := True, nd_scanned_preceeds_hole := preceeds,
                nd_scan_prev := prev, nd_scan_next := mm_prev_scanned_node mm\<rparr>) mm
     in mm\<lparr>mm_node_list := remove1 n (mm_node_list mm), mm_prev_scanned_node := Some n\<rparr>)"

definition scan_clip :: "drm_mm \<Rightarrow> u64 \<times> u64 \<Rightarrow> u64 \<times> u64" where
  "scan_clip mm se =
     (case se of (adj_start, adj_end) \<Rightarrow>
        if mm_scan_check_range mm
        then (if adj_start < mm_scan_start mm then mm_scan_start mm else adj_start,
              if mm_scan_end mm < adj_end then mm_scan_end mm else adj_end)
        else (adj_start, adj_end))"

definition drm_mm_scan_add_block :: "drm_mm \<Rightarrow> nref \<Rightarrow> (bool \<times> drm_mm) outcome" where
  "drm_mm_scan_add_block mm n =
    (if nd_scanned_block (mm_nodes mm n) then Bug
     else let
       prev = prev_of Head (mm_node_list mm) n;
       mm = scan_detach mm n prev;
       hole_start = drm_mm_hole_node_start mm prev;
       hole_end = drm_mm_hole_node_end mm prev;
       (adj_start, adj_end) =
         color_adjust mm prev (mm_scan_color mm) (scan_clip mm (hole_start, hole_end))
     in if check_free_hole adj_start adj_end (mm_scan_size mm) (mm_scan_alignment mm)
        then Ok (True, mm\<lparr>mm_scan_hit_start := hole_start, mm_scan_hit_end := hole_end\<rparr>)
        else Ok (False, mm))"

definition drm_mm_scan_remove_block :: "drm_mm \<Rightarrow> nref \<Rightarrow> (bool \<times> drm_mm) outcome" where
  "drm_mm_scan_remove_block mm n =
    (let mm = mm\<lparr>mm_scanned_blocks := mm_scanned_blocks mm - 1\<rparr>
     in if \<not> nd_scanned_block (mm_nodes mm n) then Bug
     else let
       mm = upd_node n (\<lambda>x. x\<lparr>nd_scanned_block := False\<rparr>) mm;
       prev = nd_scan_prev (mm_nodes mm n);
       mm = upd_node prev (\<lambda>x. x\<lparr>nd_hole_follows :=
              nd_scanned_preceeds_hole (mm_nodes mm n)\<rparr>) mm;
       mm = mm\<lparr>mm_node_list := list_add Head (mm_node_list mm) prev n\<rparr>
     in Ok (mm_scan_hit_start mm < drm_mm_hole_node_end mm n
              \<and> nd_start (mm_nodes mm n) < mm_scan_hit_end mm, mm))"

section \<open>Initialisation, tear-down and statistics\<close>

definition drm_mm_init :: "drm_mm \<Rightarrow> u64 \<Rightarrow> u64 \<Rightarrow> drm_mm" where
  "drm_mm_init mm start sz =
     (upd_node Head (\<lambda>x. x\<lparr>nd_hole_follows := True, nd_scanned_block := False,
          nd_scanned_prev_free := False, nd_scanned_next_free := False,
          nd_start := start + sz, nd_size := start - (start + sz)\<rparr>) mm)
       \<lparr>mm_hole_stack := [Head], mm_unused_nodes := [], mm_num_unused := 0,
        mm_scanned_blocks := 0, mm_node_list := [], mm_color_adjust := None\<rparr>"

definition drm_mm_clean :: "drm_mm \<Rightarrow> bool" where
  "drm_mm_clean mm = (next_of Head (mm_node_list mm) (next_of Head (mm_node_list mm) Head) = Head)"

definition drm_mm_takedown :: "drm_mm \<Rightarrow> drm_mm outcome" where
  "drm_mm_takedown mm =
     (if mm_node_list mm \<noteq> [] then Ok mm
      else let mm = mm\<lparr>mm_num_unused := mm_num_unused mm - int (length (mm_unused_nodes mm)),
                       mm_unused_nodes := []\<rparr>
      in if mm_num_unused mm \<noteq> 0 then Bug else Ok mm)"

text \<open>The totals that the debug table prints: used and free bytes over the ring.\<close>

fun debug_nodes :: "drm_mm \<Rightarrow> nref list \<Rightarrow> u64 \<times> u64 \<Rightarrow> u64 \<times> u64" where
  "debug_nodes mm [] (used, free) = (used, free)"
| "debug_nodes mm (r # rs) (used, free) =
     (let used = used + nd_size (mm_nodes mm r);
          free = (if nd_hole_follows (mm_nodes mm r)
                  then free + (drm_mm_hole_node_end mm r - drm_mm_hole_node_start mm r)
                  else free)
      in debug_nodes mm rs (used, free))"

text \<open>The result is (total, used, free), the last line of the table.\<close>

definition drm_mm_debug_table :: "drm_mm \<Rightarrow> u64 \<times> u64 \<times> u64" where
  "drm_mm_debug_table mm =
     (let hole_size = drm_mm_hole_node_end mm Head - drm_mm_hole_node_start mm Head;
          (total_used, total_free) = debug_nodes mm (mm_node_list mm) (0, hole_size)
      in (total_free + total_used, total_used, total_free))"

end
