(* ===== verification/Drm_Mm_Invariant.thy ===== *)
theory Drm_Mm_Invariant
  imports Drm_Mm
begin

text \<open>
  The invariant of the range allocator and its preservation by every operation that changes
  the ring.  The ring, head first, is read as a chain of extents: each node ends where the
  next begins or before, its hole flag is set exactly when there is a gap, and the gap after
  the last node ends at the start of the head, the end of the managed range.
\<close>

section \<open>Extents and the invariant\<close>

definition lo :: "(nref \<Rightarrow> drm_mm_node) \<Rightarrow> nref \<Rightarrow> nat" where
  "lo f r = unat (nd_start (f r))"

definition hi :: "(nref \<Rightarrow> drm_mm_node) \<Rightarrow> nref \<Rightarrow> nat" where
  "hi f r = unat (nd_start (f r) + nd_size (f r))"

definition link_ok :: "(nref \<Rightarrow> drm_mm_node) \<Rightarrow> nref \<Rightarrow> nat \<Rightarrow> bool" where
  "link_ok f r e \<longleftrightarrow> hi f r \<le> e \<and> (nd_hole_follows (f r) \<longleftrightarrow> hi f r < e)"

fun ring_ok :: "(nref \<Rightarrow> drm_mm_node) \<Rightarrow> nat \<Rightarrow> nref list \<Rightarrow> bool" where
  "ring_ok f e [] = True"
| "ring_ok f e [r] = link_ok f r e"
| "ring_ok f e (r # s # rs) = (link_ok f r (lo f s) \<and> lo f s < hi f s \<and> ring_ok f e (s # rs))"

definition not_scanned :: "drm_mm_node \<Rightarrow> bool" where
  "not_scanned x \<longleftrightarrow> \<not> nd_scanned_block x \<and> \<not> nd_scanned_prev_free x \<and> \<not> nd_scanned_next_free x"

definition mm_limit :: "drm_mm \<Rightarrow> nat" where
  "mm_limit mm = lo (mm_nodes mm) Head"

definition mm_base :: "drm_mm \<Rightarrow> nat" where
  "mm_base mm = hi (mm_nodes mm) Head"

definition mm_wf :: "drm_mm \<Rightarrow> bool" where
  "mm_wf mm \<longleftrightarrow>
     distinct (Head # mm_node_list mm)
   \<and> ring_ok (mm_nodes mm) (mm_limit mm) (Head # mm_node_list mm)
   \<and> mm_limit mm + 2 ^ 32 \<le> 2 ^ 64
   \<and> distinct (mm_hole_stack mm)
   \<and> set (mm_hole_stack mm) = {r \<in> set (Head # mm_node_list mm). nd_hole_follows (mm_nodes mm r)}
   \<and> (\<forall>r \<in> set (mm_node_list mm). nd_allocated (mm_nodes mm r) \<and> not_scanned (mm_nodes mm r))
   \<and> mm_scanned_blocks mm = 0"

lemma mm_wfI:
  assumes "distinct (Head # mm_node_list mm)"
    and "ring_ok (mm_nodes mm) (mm_limit mm) (Head # mm_node_list mm)"
    and "mm_limit mm + 2 ^ 32 \<le> 2 ^ 64"
    and "distinct (mm_hole_stack mm)"
    and "set (mm_hole_stack mm) = {r \<in> set (Head # mm_node_list mm). nd_hole_follows (mm_nodes mm r)}"
    and "\<And>r. r \<in> set (mm_node_list mm) \<Longrightarrow> nd_allocated (mm_nodes mm r) \<and> not_scanned (mm_nodes mm r)"
    and "mm_scanned_blocks mm = 0"
  shows "mm_wf mm"
  using assms by (simp only: mm_wf_def) blast

lemma mm_wfD:
  assumes "mm_wf mm"
  shows "distinct (Head # mm_node_list mm)"
    and "ring_ok (mm_nodes mm) (mm_limit mm) (Head # mm_node_list mm)"
    and "mm_limit mm + 2 ^ 32 \<le> 2 ^ 64"
    and "distinct (mm_hole_stack mm)"
    and "set (mm_hole_stack mm) = {r \<in> set (Head # mm_node_list mm). nd_hole_follows (mm_nodes mm r)}"
    and "r \<in> set (mm_node_list mm) \<Longrightarrow> nd_allocated (mm_nodes mm r) \<and> not_scanned (mm_nodes mm r)"
    and "mm_scanned_blocks mm = 0"
  using assms by (simp_all only: mm_wf_def)

lemma upd_node_simps [simp]:
  "mm_nodes (upd_node r f mm) = (mm_nodes mm)(r := f (mm_nodes mm r))"
  "mm_node_list (upd_node r f mm) = mm_node_list mm"
  "mm_hole_stack (upd_node r f mm) = mm_hole_stack mm"
  "mm_unused_nodes (upd_node r f mm) = mm_unused_nodes mm"
  "mm_num_unused (upd_node r f mm) = mm_num_unused mm"
  "mm_scanned_blocks (upd_node r f mm) = mm_scanned_blocks mm"
  "mm_color_adjust (upd_node r f mm) = mm_color_adjust mm"
  "mm_scan_check_range (upd_node r f mm) = mm_scan_check_range mm"
  "mm_scan_alignment (upd_node r f mm) = mm_scan_alignment mm"
  "mm_scan_color (upd_node r f mm) = mm_scan_color mm"
  "mm_scan_size (upd_node r f mm) = mm_scan_size mm"
  "mm_scan_hit_start (upd_node r f mm) = mm_scan_hit_start mm"
  "mm_scan_hit_end (upd_node r f mm) = mm_scan_hit_end mm"
  "mm_scan_start (upd_node r f mm) = mm_scan_start mm"
  "mm_scan_end (upd_node r f mm) = mm_scan_end mm"
  "mm_prev_scanned_node (upd_node r f mm) = mm_prev_scanned_node mm"
  by (simp_all add: upd_node_def)

section \<open>Cutting the ring at a node\<close>

lemma ring_cut:
  assumes "r \<in> set (Head # nl)"
  obtains pre post where "Head # nl = pre @ r # post"
  using assms split_list by metis

lemma succ_in_ring:
  "distinct (pre @ r # post) \<Longrightarrow>
   succ_in h (pre @ r # post) r = (case post of [] \<Rightarrow> h | s # _ \<Rightarrow> s)"
  by (simp add: succ_in_append)

lemma next_of_ring:
  assumes "h # nl = pre @ r # post" and "distinct (h # nl)"
  shows "next_of h nl r = (case post of [] \<Rightarrow> h | s # _ \<Rightarrow> s)"
  using assms by (simp only: next_of_def succ_in_ring)

lemma prev_of_ring:
  assumes "h # nl = pre @ r # n # post" and "distinct (h # nl)"
  shows "prev_of h nl n = r"
proof (cases pre)
  case Nil
  then have "h # rev nl = (h # rev post) @ [n]" and "r = h" using assms(1) by auto
  moreover have "n \<notin> set (h # rev post)" using assms Nil by auto
  ultimately show ?thesis
    using succ_in_append [of n "h # rev post" h "[n]"] by (simp add: prev_of_def)
next
  case (Cons x pre')
  then have "h # rev nl = (h # rev post) @ n # r # rev pre'" using assms(1) by auto
  moreover have "n \<notin> set (h # rev post)" using assms Cons by auto
  ultimately show ?thesis
    using succ_in_append [of n "h # rev post" h "n # r # rev pre'"] by (simp add: prev_of_def)
qed

lemma list_add_ring:
  assumes "h # nl = pre @ r # post" and "distinct (h # nl)"
  shows "h # list_add h nl r n = pre @ r # n # post"
proof (cases pre)
  case Nil
  with assms show ?thesis by simp
next
  case (Cons x pre')
  with assms have "nl = pre' @ r # post" "r \<noteq> h" "r \<notin> set pre'" "x = h" by auto
  with Cons show ?thesis by (simp add: list_add_split)
qed

lemma remove_ring:
  assumes "h # nl = pre @ r # n # post" and "distinct (h # nl)"
  shows "h # remove1 n nl = pre @ r # post"
proof (cases pre)
  case Nil
  with assms show ?thesis by simp
next
  case (Cons x pre')
  with assms have "nl = (pre' @ [r]) @ n # post" "n \<notin> set (pre' @ [r])" "x = h" by auto
  with Cons show ?thesis using remove1_split [of n "pre' @ [r]" post] by simp
qed

section \<open>Laws of the chain\<close>

definition tail_ok :: "(nref \<Rightarrow> drm_mm_node) \<Rightarrow> nat \<Rightarrow> nref list \<Rightarrow> bool" where
  "tail_ok f e rs \<longleftrightarrow> (case rs of [] \<Rightarrow> True | s # _ \<Rightarrow> lo f s < hi f s \<and> ring_ok f e rs)"

definition next_lo :: "(nref \<Rightarrow> drm_mm_node) \<Rightarrow> nat \<Rightarrow> nref list \<Rightarrow> nat" where
  "next_lo f e rs = (case rs of [] \<Rightarrow> e | s # _ \<Rightarrow> lo f s)"

lemma ring_ok_Cons:
  "ring_ok f e (r # rs) \<longleftrightarrow> link_ok f r (next_lo f e rs) \<and> tail_ok f e rs"
  by (cases rs) (auto simp: tail_ok_def next_lo_def)

lemma ring_ok_append:
  "ring_ok f e (pre @ r # post) \<longleftrightarrow>
     ring_ok f (lo f r) pre \<and> (pre \<noteq> [] \<longrightarrow> lo f r < hi f r) \<and> ring_ok f e (r # post)"
proof (induction pre)
  case Nil
  show ?case by simp
next
  case (Cons x pre)
  then show ?case by (cases pre) auto
qed

lemma ring_ok_cong:
  assumes "\<And>x. x \<in> set rs \<Longrightarrow> nd_start (g x) = nd_start (f x) \<and> nd_size (g x) = nd_size (f x)
             \<and> nd_hole_follows (g x) = nd_hole_follows (f x)"
  shows "ring_ok g e rs = ring_ok f e rs"
  using assms
proof (induction rs)
  case Nil
  show ?case by simp
next
  case (Cons r rs)
  then show ?case by (cases rs) (auto simp: link_ok_def lo_def hi_def)
qed

lemma ring_ok_bounds:
  "ring_ok f e (r # rs) \<Longrightarrow> hi f r \<le> e \<and> (\<forall>x \<in> set rs. hi f r \<le> lo f x \<and> lo f x < hi f x \<and> hi f x \<le> e)"
proof (induction rs arbitrary: r)
  case Nil
  then show ?case by (simp add: link_ok_def)
next
  case (Cons s rs)
  then have "ring_ok f e (s # rs)" and l: "link_ok f r (lo f s)" and s: "lo f s < hi f s" by auto
  with Cons.IH [of s] show ?case by (fastforce simp: link_ok_def)
qed

lemma ring_ok_disjoint:
  "ring_ok f e rs \<Longrightarrow> x \<in> set (tl rs) \<Longrightarrow> y \<in> set (tl rs) \<Longrightarrow> x \<noteq> y \<Longrightarrow>
   hi f x \<le> lo f y \<or> hi f y \<le> lo f x"
proof (induction rs)
  case Nil
  then show ?case by simp
next
  case (Cons r rs)
  then obtain s ss where rs: "rs = s # ss" by (cases rs) auto
  with Cons.prems(1) have ok: "ring_ok f e (s # ss)" by auto
  show ?case
  proof (cases "x = s \<or> y = s")
    case True
    with ring_ok_bounds [OF ok] Cons.prems rs show ?thesis by auto
  next
    case False
    with Cons rs ok show ?thesis by auto
  qed
qed

lemma tail_ok_cong:
  assumes "\<And>x. x \<in> set rs \<Longrightarrow> g x = f x"
  shows "tail_ok g e rs = tail_ok f e rs" and "next_lo g e rs = next_lo f e rs"
  using assms ring_ok_cong [of rs g f e]
  by (cases rs; simp add: tail_ok_def next_lo_def lo_def hi_def)+

text \<open>Inserting a node after \<open>r\<close>, whose hole flag may change, and removing one.\<close>

lemma ring_ok_insert:
  assumes ok: "ring_ok f e (pre @ r # post)"
    and same: "\<And>x. x \<in> set pre \<union> set post \<Longrightarrow> g x = f x"
    and r: "nd_start (g r) = nd_start (f r)" "nd_size (g r) = nd_size (f r)"
    and lr: "link_ok g r (lo g n)" and n: "lo g n < hi g n"
    and ln: "link_ok g n (next_lo f e post)"
  shows "ring_ok g e (pre @ r # n # post)"
proof -
  have "ring_ok g (lo f r) pre"
    using ok ring_ok_cong [of pre g f] same by (auto simp: ring_ok_append)
  moreover have "tail_ok g e post" "next_lo g e post = next_lo f e post"
    using ok tail_ok_cong [of post g f] same by (auto simp: ring_ok_append ring_ok_Cons)
  moreover have "pre \<noteq> [] \<longrightarrow> lo g r < hi g r"
    using ok r by (auto simp: ring_ok_append lo_def hi_def)
  moreover have "lo g r = lo f r" using r by (simp add: lo_def)
  ultimately show ?thesis
    using lr n ln by (simp add: ring_ok_append ring_ok_Cons [of g e n post])
qed

lemma ring_ok_remove:
  assumes ok: "ring_ok f e (pre @ r # n # post)"
    and same: "\<And>x. x \<in> set pre \<union> set post \<Longrightarrow> g x = f x"
    and r: "nd_start (g r) = nd_start (f r)" "nd_size (g r) = nd_size (f r)" "nd_hole_follows (g r)"
  shows "ring_ok g e (pre @ r # post)"
proof -
  have rn: "link_ok f r (lo f n)" "lo f n < hi f n" "ring_ok f e (n # post)"
    using ok by (auto simp: ring_ok_append)
  have "ring_ok g (lo f r) pre"
    using ok ring_ok_cong [of pre g f] same by (auto simp: ring_ok_append)
  moreover have post: "tail_ok g e post" "next_lo g e post = next_lo f e post"
    using rn(3) tail_ok_cong [of post g f] same by (auto simp: ring_ok_Cons)
  moreover have "link_ok g r (next_lo g e post)"
    using rn r post(2) by (auto simp: link_ok_def hi_def ring_ok_Cons)
  moreover have "pre \<noteq> [] \<longrightarrow> lo g r < hi g r"
    using ok r by (auto simp: ring_ok_append lo_def hi_def)
  moreover have "lo g r = lo f r" using r by (simp add: lo_def)
  ultimately show ?thesis
    by (simp add: ring_ok_append ring_ok_Cons [of g e r post])
qed


section \<open>The state after an insertion\<close>

text \<open>What both insertion helpers return when they do not panic: the node takes
  \<open>[s, s + sz)\<close> after \<open>hole\<close>; the hole before it stays if it does not start at the hole, the
  hole after it stays if it does not reach the hole's end.\<close>

definition place :: "drm_mm \<Rightarrow> nref \<Rightarrow> nref \<Rightarrow> u64 \<Rightarrow> u64 \<Rightarrow> u64 \<Rightarrow> drm_mm" where
  "place mm hole n s sz col =
     (let before = (s \<noteq> drm_mm_hole_node_start mm hole);
          after = (s + sz < drm_mm_hole_node_end mm hole)
      in mm\<lparr>mm_nodes := (mm_nodes mm)
               (hole := mm_nodes mm hole\<lparr>nd_hole_follows := before\<rparr>,
                n := mm_nodes mm n\<lparr>nd_start := s, nd_size := sz, nd_color := col,
                      nd_allocated := True, nd_hole_follows := after\<rparr>),
            mm_node_list := list_add Head (mm_node_list mm) hole n,
            mm_hole_stack := (if after then [n] else [])
              @ (if before then mm_hole_stack mm else remove1 hole (mm_hole_stack mm))\<rparr>)"

lemma place_sel [simp]:
  "mm_node_list (place mm hole n s sz col) = list_add Head (mm_node_list mm) hole n"
  "mm_scanned_blocks (place mm hole n s sz col) = mm_scanned_blocks mm"
  "mm_color_adjust (place mm hole n s sz col) = mm_color_adjust mm"
  "mm_unused_nodes (place mm hole n s sz col) = mm_unused_nodes mm"
  "mm_num_unused (place mm hole n s sz col) = mm_num_unused mm"
  by (simp_all add: place_def Let_def)

lemma hole_in_nat:
  assumes "mm_wf mm" and "Head # mm_node_list mm = pre @ r # post"
  shows "unat (drm_mm_hole_node_end mm r) = next_lo (mm_nodes mm) (mm_limit mm) post"
    and "unat (drm_mm_hole_node_start mm r) = hi (mm_nodes mm) r"
  using next_of_ring [OF assms(2)] assms(1)
  by (auto simp: drm_mm_hole_node_end_def drm_mm_hole_node_start_def mm_wf_def mm_limit_def
      next_lo_def lo_def hi_def split: list.splits)

lemma mm_wf_ring:
  assumes "mm_wf mm" and "Head # mm_node_list mm = pre @ r # post"
  shows "link_ok (mm_nodes mm) r (next_lo (mm_nodes mm) (mm_limit mm) post)"
    and "next_lo (mm_nodes mm) (mm_limit mm) post \<le> mm_limit mm"
    and "hi (mm_nodes mm) r \<le> mm_limit mm" and "mm_base mm \<le> hi (mm_nodes mm) r"
proof -
  let ?f = "mm_nodes mm" and ?e = "mm_limit mm"
  have ring: "ring_ok ?f ?e (pre @ r # post)" using assms by (simp add: mm_wf_def)
  then have r: "ring_ok ?f ?e (r # post)" by (simp add: ring_ok_append)
  then show "link_ok ?f r (next_lo ?f ?e post)" by (simp add: ring_ok_Cons)
  show "next_lo ?f ?e post \<le> ?e"
    using ring_ok_bounds [OF r] by (cases post) (auto simp: next_lo_def)
  show "hi ?f r \<le> ?e" using ring_ok_bounds [OF r] by simp
  show "mm_base mm \<le> hi ?f r"
  proof (cases pre)
    case Nil
    then show ?thesis using assms(2) by (simp add: mm_base_def)
  next
    case (Cons x pre')
    then have "x = Head" "ring_ok ?f ?e (Head # (pre' @ r # post))" using assms(2) ring by auto
    from ring_ok_bounds [OF this(2)] show ?thesis by (auto simp: mm_base_def)
  qed
qed

lemma place_wf:
  assumes wf: "mm_wf mm" and hole: "hole \<in> set (mm_hole_stack mm)"
    and n: "n \<notin> set (Head # mm_node_list mm)" "not_scanned (mm_nodes mm n)"
    and s: "hi (mm_nodes mm) hole \<le> unat s" and sz: "0 < unat sz"
    and e: "unat s + unat sz \<le> unat (drm_mm_hole_node_end mm hole)"
  shows "mm_wf (place mm hole n s sz col)"
proof -
  let ?nl = "mm_node_list mm" and ?f = "mm_nodes mm" and ?m = "place mm hole n s sz col"
  have hr: "hole \<in> set (Head # ?nl)" and flag: "nd_hole_follows (?f hole)"
    using wf hole by (auto simp: mm_wf_def)
  from hr obtain pre post where cut: "Head # ?nl = pre @ hole # post" by (rule ring_cut)
  have dist: "distinct (Head # ?nl)" using wf by (simp add: mm_wf_def)
  note ends = hole_in_nat [OF wf cut]
  have dcut: "distinct (pre @ hole # post)" using dist cut by simp
  have scut: "set (Head # ?nl) = insert hole (set pre \<union> set post)" by (simp only: cut) auto
  have nout: "n \<notin> set pre" "n \<notin> set post" using n(1) scut by blast+
  have hout: "hole \<notin> set pre" "hole \<notin> set post" using dcut by auto
  have nh: "n \<noteq> hole" "n \<noteq> Head" using n hr by auto
  have ring': "Head # mm_node_list ?m = pre @ hole # n # post"
    using list_add_ring [OF cut dist] by simp
  have lim: "mm_limit ?m = mm_limit mm"
    using nh by (auto simp: mm_limit_def lo_def place_def Let_def)
  have "unat s + unat sz < 2 ^ 64" using e unat_lt_2p64 le_less_trans by blast
  then have ssz: "unat (s + sz) = unat s + unat sz" by (rule unat_add_u64)
  have before: "s \<noteq> drm_mm_hole_node_start mm hole \<longleftrightarrow> hi ?f hole < unat s"
    using ends(2) s by (auto simp: word_unat_eq_iff)
  have after: "s + sz < drm_mm_hole_node_end mm hole \<longleftrightarrow>
      unat s + unat sz < next_lo ?f (mm_limit mm) post"
    by (simp add: word_less_nat_alt ssz ends(1))
  have ring: "ring_ok (mm_nodes ?m) (mm_limit mm) (pre @ hole # n # post)"
  proof (rule ring_ok_insert [where f = ?f])
    show "ring_ok ?f (mm_limit mm) (pre @ hole # post)" using wf cut by (simp add: mm_wf_def)
    show "mm_nodes ?m x = ?f x" if "x \<in> set pre \<union> set post" for x
      using that nout hout by (auto simp: place_def Let_def)
    show "link_ok (mm_nodes ?m) hole (lo (mm_nodes ?m) n)"
      using nh s before by (auto simp: link_ok_def place_def Let_def lo_def hi_def)
    show "link_ok (mm_nodes ?m) n (next_lo ?f (mm_limit mm) post)"
      using nh e after by (auto simp: link_ok_def place_def Let_def hi_def ssz ends(1))
  qed (use nh sz ssz in \<open>auto simp: place_def Let_def lo_def hi_def\<close>)
  have stack: "set (mm_hole_stack ?m) =
      {r \<in> set (pre @ hole # n # post). nd_hole_follows (mm_nodes ?m r)}"
  proof -
    have old: "set (mm_hole_stack mm) = {r \<in> set (pre @ hole # post). nd_hole_follows (?f r)}"
      and d: "distinct (mm_hole_stack mm)" using wf cut by (simp_all add: mm_wf_def)
    show ?thesis
      using old d nh nout hout flag by (auto simp: place_def Let_def)
  qed
  have dstack: "distinct (mm_hole_stack ?m)"
    using wf n(1) by (auto simp: place_def Let_def mm_wf_def)
  have nlset: "set (mm_node_list ?m) = insert n (set ?nl)"
    using hr by (simp add: set_list_add)
  show ?thesis
  proof (rule mm_wfI)
    show "distinct (Head # mm_node_list ?m)" unfolding ring' using dcut nout nh by simp
    show "ring_ok (mm_nodes ?m) (mm_limit ?m) (Head # mm_node_list ?m)"
      unfolding ring' lim by (rule ring)
    show "mm_limit ?m + 2 ^ 32 \<le> 2 ^ 64" unfolding lim by (rule mm_wfD(3) [OF wf])
    show "set (mm_hole_stack ?m) = {r \<in> set (Head # mm_node_list ?m). nd_hole_follows (mm_nodes ?m r)}"
      unfolding ring' by (rule stack)
    show "mm_scanned_blocks ?m = 0" using mm_wfD(7) [OF wf] by simp
    fix r assume "r \<in> set (mm_node_list ?m)"
    then have "r = n \<or> r \<in> set ?nl" using nlset by simp
    then show "nd_allocated (mm_nodes ?m r) \<and> not_scanned (mm_nodes ?m r)"
      using mm_wfD(6) [OF wf] n nh by (auto simp: place_def Let_def not_scanned_def)
  qed (rule dstack)
qed

end
