(* ===== verification/Drm_Mm_Insert.thy ===== *)
theory Drm_Mm_Insert
  imports Drm_Mm_Invariant
begin

text \<open>
  Search and insertion: what the two loops over the hole stack return, and that an insertion
  either reports ENOSPC, exactly when no hole of the stack fits, or returns a well-formed
  allocator in which the node is aligned, in range and disjoint from every other node.
\<close>

section \<open>Holes that fit\<close>

definition clip :: "drm_mm \<Rightarrow> u64 \<Rightarrow> u64 \<Rightarrow> nref \<Rightarrow> u64 \<times> u64" where
  "clip mm rs re r =
     (if drm_mm_hole_node_start mm r < rs then rs else drm_mm_hole_node_start mm r,
      if re < drm_mm_hole_node_end mm r then re else drm_mm_hole_node_end mm r)"

definition hole_fits :: "drm_mm \<Rightarrow> u64 \<Rightarrow> u32 \<Rightarrow> u64 \<Rightarrow> u64 \<Rightarrow> u64 \<Rightarrow> nref \<Rightarrow> bool" where
  "hole_fits mm sz al col rs re r =
     (let (s, e) = color_adjust mm r col (clip mm rs re r)
      in \<not> (mm_color_adjust mm \<noteq> None \<and> e \<le> s) \<and> check_free_hole s e sz al)"

text \<open>The best-match choice: the loop keeps the candidate of the smallest \<open>nd_size\<close>.\<close>

fun best_of :: "(nref \<Rightarrow> u64) \<Rightarrow> nref list \<Rightarrow> nref option \<Rightarrow> u64 \<Rightarrow> nref option" where
  "best_of m [] b bs = b"
| "best_of m (r # rs) b bs = (if m r < bs then best_of m rs (Some r) (m r) else best_of m rs b bs)"

lemma search_holes_range_eq:
  "\<forall>r \<in> set hs. nd_hole_follows (mm_nodes mm r) \<Longrightarrow>
   search_holes_range mm sz al col rs re bm hs b bs =
     Ok (if bm then best_of (\<lambda>r. nd_size (mm_nodes mm r)) (filter (hole_fits mm sz al col rs re) hs) b bs
         else (case find (hole_fits mm sz al col rs re) hs of None \<Rightarrow> b | Some r \<Rightarrow> Some r))"
proof (induction hs arbitrary: b bs)
  case Nil
  show ?case by simp
next
  case (Cons r hs)
  obtain s e where se: "color_adjust mm r col (clip mm rs re r) = (s, e)"
    by (cases "color_adjust mm r col (clip mm rs re r)")
  have step: "search_holes_range mm sz al col rs re bm (r # hs) b bs =
     (if \<not> hole_fits mm sz al col rs re r then search_holes_range mm sz al col rs re bm hs b bs
      else if \<not> bm then Ok (Some r)
      else if nd_size (mm_nodes mm r) < bs
      then search_holes_range mm sz al col rs re bm hs (Some r) (nd_size (mm_nodes mm r))
      else search_holes_range mm sz al col rs re bm hs b bs)"
    using Cons.prems se by (simp add: clip_def hole_fits_def Let_def del: if_split)
  from Cons show ?case unfolding step by (cases bm) simp_all
qed

lemma clip_all: "clip mm 0 (- 1) r = (drm_mm_hole_node_start mm r, drm_mm_hole_node_end mm r)"
  by (simp add: clip_def not_less)

lemma search_holes_eq:
  "\<forall>r \<in> set hs. nd_hole_follows (mm_nodes mm r) \<Longrightarrow>
   search_holes mm sz al col bm hs b bs = search_holes_range mm sz al col 0 (- 1) bm hs b bs"
proof (induction hs arbitrary: b bs)
  case Nil
  show ?case by simp
next
  case (Cons r hs)
  obtain s e where se:
    "color_adjust mm r col (drm_mm_hole_node_start mm r, drm_mm_hole_node_end mm r) = (s, e)"
    by (cases "color_adjust mm r col (drm_mm_hole_node_start mm r, drm_mm_hole_node_end mm r)")
  from Cons show ?case by (cases bm) (simp_all add: se)
qed

lemma find_Some_iff_mem: "find P xs = Some x \<Longrightarrow> x \<in> set xs \<and> P x"
  by (auto simp: find_Some_iff)

lemma best_of_mem: "best_of m xs b bs = Some x \<Longrightarrow> x \<in> set xs \<or> b = Some x"
  by (induction xs arbitrary: b bs) (auto split: if_splits)

lemma best_of_min:
  "best_of m xs b bs = Some x \<Longrightarrow> (\<forall>y. b = Some y \<longrightarrow> m y = bs) \<Longrightarrow>
   m x \<le> bs \<and> (\<forall>y \<in> set xs. m x \<le> m y)"
proof (induction xs arbitrary: b bs)
  case Nil
  then show ?case by auto
next
  case (Cons z zs)
  show ?case
  proof (cases "m z < bs")
    case True
    with Cons.prems have "m x \<le> m z \<and> (\<forall>y \<in> set zs. m x \<le> m y)"
      by (intro Cons.IH [of "Some z"]) auto
    with True show ?thesis by auto
  next
    case False
    with Cons.prems have "m x \<le> bs \<and> (\<forall>y \<in> set zs. m x \<le> m y)"
      by (intro Cons.IH [of b]) auto
    with False show ?thesis by auto
  qed
qed

lemma best_of_None:
  "best_of m xs None bs = None \<Longrightarrow> x \<in> set xs \<Longrightarrow> bs \<le> m x"
proof (induction xs)
  case (Cons z zs)
  have keep: "best_of m ys (Some y) c \<noteq> None" for ys y c
    by (induction ys arbitrary: y c) auto
  from Cons show ?case by (auto split: if_splits simp: keep)
qed simp

lemma wf_hole_flags: "mm_wf mm \<Longrightarrow> \<forall>r \<in> set (mm_hole_stack mm). nd_hole_follows (mm_nodes mm r)"
  by (simp add: mm_wfD(5))

lemma search_range_wf:
  assumes "mm_wf mm"
  shows "drm_mm_search_free_in_range_generic mm sz al col rs re bm =
     Ok (if bm then best_of (\<lambda>r. nd_size (mm_nodes mm r))
                     (filter (hole_fits mm sz al col rs re) (mm_hole_stack mm)) None (- 1)
         else find (hole_fits mm sz al col rs re) (mm_hole_stack mm))"
  using search_holes_range_eq [OF wf_hole_flags [OF assms]] mm_wfD(7) [OF assms]
  by (simp add: drm_mm_search_free_in_range_generic_def split: option.splits)

lemma search_wf:
  assumes "mm_wf mm"
  shows "drm_mm_search_free_generic mm sz al col bm =
     drm_mm_search_free_in_range_generic mm sz al col 0 (- 1) bm"
  using search_holes_eq [OF wf_hole_flags [OF assms]] mm_wfD(7) [OF assms]
  by (simp add: drm_mm_search_free_in_range_generic_def drm_mm_search_free_generic_def)

lemma search_range_Some:
  assumes "mm_wf mm" and "drm_mm_search_free_in_range_generic mm sz al col rs re bm = Ok (Some r)"
  shows "r \<in> set (mm_hole_stack mm)" and "hole_fits mm sz al col rs re r"
proof -
  let ?P = "hole_fits mm sz al col rs re" and ?m = "\<lambda>r. nd_size (mm_nodes mm r)"
  have "(if bm then best_of ?m (filter ?P (mm_hole_stack mm)) None (- 1)
         else find ?P (mm_hole_stack mm)) = Some r"
    using assms(2) unfolding search_range_wf [OF assms(1)] by (simp only: outcome.inject)
  then have "r \<in> set (mm_hole_stack mm) \<and> ?P r"
    by (cases bm) (auto dest: best_of_mem find_Some_iff_mem)
  then show "r \<in> set (mm_hole_stack mm)" "?P r" by auto
qed

section \<open>The free-hole test\<close>

lemma check_free_hole_sound:
  assumes "check_free_hole s e sz al" and "unat s + 2 ^ 32 \<le> 2 ^ 64" and "unat e + 2 ^ 32 \<le> 2 ^ 64"
    and "s \<le> e \<or> unat s + unat sz + 2 ^ 32 \<le> 2 ^ 64"
  shows "unat (align_start s al) + unat sz \<le> unat e" and "align_start s al + sz \<le> e"
proof -
  have le: "align_start s al + sz \<le> e" and sz: "\<not> e - s < sz"
    using assms(1) by (auto simp: check_free_hole_def split: if_splits)
  have a: "unat (align_start s al) < unat s + 2 ^ 32" by (rule align_start_lt [OF assms(2)])
  have "unat (align_start s al) + unat sz < 2 ^ 64"
  proof (cases "s \<le> e")
    case True
    then have "unat (e - s) = unat e - unat s" by (simp add: unat_diff_u64 word_le_nat_alt)
    then have "unat sz \<le> unat e - unat s" using sz by (simp add: word_less_nat_alt)
    then show ?thesis using a assms(3) True by (simp add: word_le_nat_alt)
  next
    case False
    then show ?thesis using a assms(4) by linarith
  qed
  then have "unat (align_start s al + sz) = unat (align_start s al) + unat sz"
    by (rule unat_add_u64)
  with le show "unat (align_start s al) + unat sz \<le> unat e" by (simp add: word_le_nat_alt)
  show "align_start s al + sz \<le> e" by (rule le)
qed

lemma check_free_hole_complete:
  assumes "unat s \<le> unat t" and "unat t + unat sz \<le> unat e"
    and "al \<noteq> 0 \<longrightarrow> unat al dvd unat t" and "unat e + 2 ^ 32 \<le> 2 ^ 64"
  shows "check_free_hole s e sz al"
proof -
  have s32: "unat s + 2 ^ 32 \<le> 2 ^ 64" using assms by linarith
  have "unat (align_start s al) \<le> unat t"
  proof (cases "al = 0 \<or> unat s mod unat al = 0")
    case True
    then show ?thesis using assms(1) by (auto simp: align_start_spec [OF s32])
  next
    case False
    then have pos: "0 < unat al" and d: "unat al dvd unat t" using assms(3) by (auto simp: unat_gt_0)
    have "unat (align_start s al) = unat s + (unat al - unat s mod unat al)"
      using False pos by (auto simp: align_start_spec [OF s32])
    also have "\<dots> = unat al * (unat s div unat al + 1)"
    proof -
      have "unat s mod unat al < unat al" using pos by simp
      then have "unat s + (unat al - unat s mod unat al) = (unat s - unat s mod unat al) + unat al"
        by (simp add: mod_less_eq_dividend)
      then show ?thesis by (simp add: minus_mod_eq_mult_div)
    qed
    also have "\<dots> \<le> unat t"
    proof -
      obtain k where k: "unat t = unat al * k" using d by blast
      have "unat s \<noteq> unat t" using False d by auto
      then have "unat s < k * unat al" using assms(1) k by (simp add: mult.commute)
      then have "unat s div unat al + 1 \<le> k" using pos by (simp add: div_less_iff_less_mult Suc_leI)
      then show ?thesis unfolding k by (rule mult_le_mono2)
    qed
    finally show ?thesis .
  qed
  moreover have "unat (e - s) = unat e - unat s" using assms by (simp add: unat_diff_u64)
  ultimately show ?thesis
    using assms by (auto simp: check_free_hole_def word_less_nat_alt word_le_nat_alt unat_add_u64)
qed

section \<open>The insertion helpers\<close>

lemma insert_helper_as_range:
  "drm_mm_insert_helper mm hole n sz al col = drm_mm_insert_helper_range mm hole n sz al col 0 (- 1)"
  by (simp add: drm_mm_insert_helper_def drm_mm_insert_helper_range_def Let_def not_less
      split: prod.splits)

lemma insert_helper_range_place:
  assumes "nd_hole_follows (mm_nodes mm hole)" and "\<not> nd_allocated (mm_nodes mm n)"
    and "color_adjust mm hole col (clip mm rs re hole) = (s, e)"
    and "align_start s al + sz \<le> e" and "align_start s al + sz \<le> re" and "hole \<noteq> n"
  shows "drm_mm_insert_helper_range mm hole n sz al col rs re =
           Ok (place mm hole n (align_start s al) sz col)"
  using assms
  by (auto simp: drm_mm_insert_helper_range_def place_def Let_def clip_def upd_node_def not_less
      intro!: drm_mm.equality)

section \<open>Correctness of the insertion\<close>

text \<open>The callers' side of the contract: a cleared node outside the ring, a positive size, and
  addresses far enough from \<open>2 ^ 64\<close> that the sums of the search do not wrap.\<close>

definition insert_domain :: "drm_mm \<Rightarrow> nref \<Rightarrow> u64 \<Rightarrow> u64 \<Rightarrow> bool" where
  "insert_domain mm n sz rs \<longleftrightarrow>
     n \<notin> set (Head # mm_node_list mm) \<and> \<not> nd_allocated (mm_nodes mm n) \<and> not_scanned (mm_nodes mm n)
   \<and> 0 < sz \<and> mm_limit mm + unat sz + 2 ^ 32 \<le> 2 ^ 64 \<and> unat rs + unat sz + 2 ^ 32 \<le> 2 ^ 64"

text \<open>The colour callback may only shrink the holes it is shown.\<close>

definition color_shrinks :: "drm_mm \<Rightarrow> u64 \<Rightarrow> u64 \<Rightarrow> u64 \<Rightarrow> bool" where
  "color_shrinks mm col rs re \<longleftrightarrow>
     (\<forall>r \<in> set (mm_hole_stack mm).
        fst (clip mm rs re r) \<le> fst (color_adjust mm r col (clip mm rs re r))
      \<and> snd (color_adjust mm r col (clip mm rs re r)) \<le> snd (clip mm rs re r))"

lemma color_shrinks_None: "mm_color_adjust mm = None \<Longrightarrow> color_shrinks mm col rs re"
  by (simp add: color_shrinks_def color_adjust_def)

lemma clip_bounds:
  "drm_mm_hole_node_start mm r \<le> fst (clip mm rs re r)" "rs \<le> fst (clip mm rs re r)"
  "snd (clip mm rs re r) \<le> drm_mm_hole_node_end mm r" "snd (clip mm rs re r) \<le> re"
  by (auto simp: clip_def)

lemma fitting_hole_bounds:
  assumes wf: "mm_wf mm" and dom: "insert_domain mm n sz rs" and sh: "color_shrinks mm col rs re"
    and r: "r \<in> set (mm_hole_stack mm)" and fits: "hole_fits mm sz al col rs re r"
    and se: "color_adjust mm r col (clip mm rs re r) = (s, e)"
  defines "a \<equiv> align_start s al"
  shows "hi (mm_nodes mm) r \<le> unat a" and "unat rs \<le> unat a"
    and "unat a + unat sz \<le> unat (drm_mm_hole_node_end mm r)" and "unat a + unat sz \<le> unat re"
    and "al \<noteq> 0 \<Longrightarrow> unat al dvd unat a" and "a + sz \<le> e" and "a + sz \<le> re"
    and "unat (a + sz) = unat a + unat sz"
proof -
  have "r \<in> set (Head # mm_node_list mm)" using mm_wfD(5) [OF wf] r by simp
  then obtain pre post where cut: "Head # mm_node_list mm = pre @ r # post" by (rule ring_cut)
  note ends = hole_in_nat [OF wf cut] and ring = mm_wf_ring [OF wf cut]
  have lim: "mm_limit mm + unat sz + 2 ^ 32 \<le> 2 ^ 64" "unat rs + unat sz + 2 ^ 32 \<le> 2 ^ 64"
    using dom by (auto simp: insert_domain_def)
  have cs: "fst (clip mm rs re r) \<le> s" "e \<le> snd (clip mm rs re r)"
    using sh r se by (auto simp: color_shrinks_def)
  have ck: "check_free_hole s e sz al" and nc: "\<not> (mm_color_adjust mm \<noteq> None \<and> e \<le> s)"
    using fits se by (auto simp: hole_fits_def)
  have e: "unat e \<le> unat (drm_mm_hole_node_end mm r)" "unat e \<le> unat re" "unat e \<le> mm_limit mm"
    using cs(2) clip_bounds(3,4) [where mm = mm and r = r and rs = rs and re = re] ends(1) ring(2)
    by (auto simp: word_le_nat_alt)
  have s: "hi (mm_nodes mm) r \<le> unat s" "unat rs \<le> unat s"
    using cs(1) clip_bounds(1,2) [where mm = mm and r = r and rs = rs and re = re] ends(2) by (auto simp: word_le_nat_alt)
  have sb: "s \<le> e \<or> unat s + unat sz + 2 ^ 32 \<le> 2 ^ 64"
  proof (cases "mm_color_adjust mm")
    case None
    then have "s = fst (clip mm rs re r)" using se by (simp add: color_adjust_def)
    then have "unat s = unat rs \<or> unat s = hi (mm_nodes mm) r" using ends(2) by (auto simp: clip_def)
    then show ?thesis using lim ring(3) by auto
  next
    case (Some f)
    with nc show ?thesis by auto
  qed
  have e32: "unat e + 2 ^ 32 \<le> 2 ^ 64" and s32: "unat s + 2 ^ 32 \<le> 2 ^ 64"
    using e(3) lim sb by (auto simp: word_le_nat_alt)
  note ok = check_free_hole_sound [OF ck s32 e32 sb, folded a_def]
  show ga: "hi (mm_nodes mm) r \<le> unat a" and "unat rs \<le> unat a"
    using s align_start_ge [OF s32, of al] by (auto simp: a_def)
  show "unat a + unat sz \<le> unat (drm_mm_hole_node_end mm r)" and re: "unat a + unat sz \<le> unat re"
    using ok(1) e by auto
  show sum: "unat (a + sz) = unat a + unat sz"
    by (rule unat_add_u64) (use re unat_lt_2p64 [of re] in linarith)
  show "al \<noteq> 0 \<Longrightarrow> unat al dvd unat a" by (simp add: a_def align_start_dvd [OF s32])
  show "a + sz \<le> e" by (rule ok(2))
  show "a + sz \<le> re" using re sum by (simp add: word_le_nat_alt)
qed

text \<open>The node \<open>n\<close> has been given \<open>sz\<close> bytes in \<open>[rs, re)\<close>; no other extent has changed.\<close>

definition inserted :: "drm_mm \<Rightarrow> drm_mm \<Rightarrow> nref \<Rightarrow> u64 \<Rightarrow> u32 \<Rightarrow> u64 \<Rightarrow> u64 \<Rightarrow> u64 \<Rightarrow> bool" where
  "inserted mm mm' n sz al col rs re \<longleftrightarrow>
     set (mm_node_list mm') = insert n (set (mm_node_list mm))
   \<and> nd_allocated (mm_nodes mm' n) \<and> nd_size (mm_nodes mm' n) = sz \<and> nd_color (mm_nodes mm' n) = col
   \<and> unat rs \<le> lo (mm_nodes mm') n \<and> hi (mm_nodes mm') n \<le> unat re
   \<and> hi (mm_nodes mm') n = lo (mm_nodes mm') n + unat sz
   \<and> (al \<noteq> 0 \<longrightarrow> unat al dvd lo (mm_nodes mm') n)
   \<and> (\<forall>x. x \<noteq> n \<longrightarrow> nd_start (mm_nodes mm' x) = nd_start (mm_nodes mm x)
          \<and> nd_size (mm_nodes mm' x) = nd_size (mm_nodes mm x))"

lemma insert_helper_range_ok:
  assumes wf: "mm_wf mm" and dom: "insert_domain mm n sz rs" and sh: "color_shrinks mm col rs re"
    and r: "r \<in> set (mm_hole_stack mm)" and fits: "hole_fits mm sz al col rs re r"
  obtains mm' where "drm_mm_insert_helper_range mm r n sz al col rs re = Ok mm'"
    and "mm_wf mm'" and "inserted mm mm' n sz al col rs re"
proof -
  obtain s e where se: "color_adjust mm r col (clip mm rs re r) = (s, e)"
    by (cases "color_adjust mm r col (clip mm rs re r)")
  note b = fitting_hole_bounds [OF wf dom sh r fits se]
  let ?m = "place mm r n (align_start s al) sz col"
  have n: "n \<notin> set (Head # mm_node_list mm)" "not_scanned (mm_nodes mm n)" "0 < unat sz"
    "\<not> nd_allocated (mm_nodes mm n)"
    using dom by (auto simp: insert_domain_def unat_gt_0 word_gt_0)
  have rr: "r \<in> set (Head # mm_node_list mm)" "nd_hole_follows (mm_nodes mm r)"
    using mm_wfD(5) [OF wf] r by auto
  then have nr: "r \<noteq> n" using n(1) by blast
  show ?thesis
  proof (rule that)
    show "drm_mm_insert_helper_range mm r n sz al col rs re = Ok ?m"
      by (rule insert_helper_range_place [OF rr(2) n(4) se b(6) b(7) nr])
    show "mm_wf ?m" by (rule place_wf [OF wf r n(1,2) b(1) n(3) b(3)])
    show "inserted mm ?m n sz al col rs re"
      using b(2,4,5,8) rr(1) nr
      by (auto simp: inserted_def set_list_add place_def Let_def lo_def hi_def)
  qed
qed

lemma insert_in_range_cases:
  assumes wf: "mm_wf mm" and dom: "insert_domain mm n sz rs" and sh: "color_shrinks mm col rs re"
  obtains (nospc) "drm_mm_insert_node_in_range_generic mm n sz al col rs re = Err ENOSPC"
      and "\<forall>r \<in> set (mm_hole_stack mm). \<not> hole_fits mm sz al col rs re r"
  | (ok) mm' where "drm_mm_insert_node_in_range_generic mm n sz al col rs re = Ok mm'"
      and "mm_wf mm'" and "inserted mm mm' n sz al col rs re"
proof (cases "find (hole_fits mm sz al col rs re) (mm_hole_stack mm)")
  case None
  then have "drm_mm_insert_node_in_range_generic mm n sz al col rs re = Err ENOSPC"
    by (simp add: drm_mm_insert_node_in_range_generic_def search_range_wf [OF wf])
  with None nospc show ?thesis by (simp add: find_None_iff)
next
  case (Some r)
  then have "r \<in> set (mm_hole_stack mm)" "hole_fits mm sz al col rs re r"
    by (auto dest: find_Some_iff_mem)
  then obtain mm' where "drm_mm_insert_helper_range mm r n sz al col rs re = Ok mm'"
    "mm_wf mm'" "inserted mm mm' n sz al col rs re"
    by (rule insert_helper_range_ok [OF wf dom sh])
  with Some ok show ?thesis
    by (simp add: drm_mm_insert_node_in_range_generic_def search_range_wf [OF wf])
qed

lemma insert_generic_as_range:
  "mm_wf mm \<Longrightarrow> drm_mm_insert_node_generic mm n sz al col =
     drm_mm_insert_node_in_range_generic mm n sz al col 0 (- 1)"
  by (simp add: drm_mm_insert_node_generic_def drm_mm_insert_node_in_range_generic_def
      search_wf insert_helper_as_range cong: option.case_cong)

section \<open>Completeness: a failed insertion means there is no room\<close>

lemma gap_cover:
  "ring_ok f e (r # rs) \<Longrightarrow> hi f r \<le> t \<Longrightarrow> t + k \<le> e \<Longrightarrow> 0 < k \<Longrightarrow>
   \<forall>x \<in> set rs. t + k \<le> lo f x \<or> hi f x \<le> t \<Longrightarrow>
   \<exists>pre q post. r # rs = pre @ q # post \<and> hi f q \<le> t \<and> t + k \<le> next_lo f e post"
proof (induction rs arbitrary: r)
  case Nil
  have "[r] = [] @ r # [] \<and> hi f r \<le> t \<and> t + k \<le> next_lo f e []"
    using Nil.prems by (simp add: next_lo_def)
  then show ?case by blast
next
  case (Cons s rs)
  show ?case
  proof (cases "t + k \<le> lo f s")
    case True
    then have "r # s # rs = [] @ r # (s # rs) \<and> hi f r \<le> t \<and> t + k \<le> next_lo f e (s # rs)"
      using Cons.prems by (simp add: next_lo_def)
    then show ?thesis by blast
  next
    case False
    with Cons.prems have "hi f s \<le> t" by auto
    with Cons.prems obtain pre q post where
      "s # rs = pre @ q # post" "hi f q \<le> t" "t + k \<le> next_lo f e post"
      using Cons.IH [of s] by auto
    then have "r # s # rs = (r # pre) @ q # post \<and> hi f q \<le> t \<and> t + k \<le> next_lo f e post" by simp
    then show ?thesis by blast
  qed
qed

text \<open>\<open>room_at\<close>: the bytes \<open>[t, t + sz)\<close> lie in the managed range and in the requested one,
  are aligned, and touch no node.\<close>

definition room_at :: "drm_mm \<Rightarrow> u64 \<Rightarrow> u32 \<Rightarrow> u64 \<Rightarrow> u64 \<Rightarrow> nat \<Rightarrow> bool" where
  "room_at mm sz al rs re t \<longleftrightarrow>
     mm_base mm \<le> t \<and> t + unat sz \<le> mm_limit mm \<and> unat rs \<le> t \<and> t + unat sz \<le> unat re
   \<and> (al \<noteq> 0 \<longrightarrow> unat al dvd t)
   \<and> (\<forall>x \<in> set (mm_node_list mm). t + unat sz \<le> lo (mm_nodes mm) x \<or> hi (mm_nodes mm) x \<le> t)"

lemma room_fits:
  assumes wf: "mm_wf mm" and nc: "mm_color_adjust mm = None" and sz: "0 < sz"
    and room: "room_at mm sz al rs re t"
  shows "\<exists>r \<in> set (mm_hole_stack mm). hole_fits mm sz al col rs re r"
proof -
  let ?f = "mm_nodes mm" and ?e = "mm_limit mm"
  have k: "0 < unat sz" using sz by (simp add: word_gt_0 unat_gt_0)
  have "\<exists>pre q post. Head # mm_node_list mm = pre @ q # post \<and> hi ?f q \<le> t \<and> t + unat sz \<le> next_lo ?f ?e post"
    by (rule gap_cover [OF mm_wfD(2) [OF wf]]) (use room k in \<open>auto simp: room_at_def mm_base_def\<close>)
  then obtain pre q post where cut: "Head # mm_node_list mm = pre @ q # post"
    and q: "hi ?f q \<le> t" "t + unat sz \<le> next_lo ?f ?e post" by blast
  note ends = hole_in_nat [OF wf cut] and ring = mm_wf_ring [OF wf cut]
  have "nd_hole_follows (?f q)" using ring(1) q k by (simp add: link_ok_def)
  moreover have "q \<in> set (Head # mm_node_list mm)" by (simp only: cut) simp
  ultimately have mem: "q \<in> set (mm_hole_stack mm)" using mm_wfD(5) [OF wf] by simp
  obtain s e where se: "clip mm rs re q = (s, e)" by (cases "clip mm rs re q")
  have s: "unat s \<le> t" and e: "t + unat sz \<le> unat e" and el: "unat e \<le> ?e"
    using se q room ends ring(2) by (auto simp: clip_def room_at_def word_less_nat_alt split: if_splits)
  have tt: "t < 2 ^ 64" using e unat_lt_2p64 [of e] by linarith
  define w where "w = (of_nat t :: u64)"
  have w: "unat w = t" using tt by (simp add: w_def unsigned_of_nat take_bit_nat_eq_self)
  have "check_free_hole s e sz al"
    by (rule check_free_hole_complete [where t = w])
       (use s e el w room mm_wfD(3) [OF wf] in \<open>auto simp: room_at_def\<close>)
  then have "hole_fits mm sz al col rs re q"
    by (simp add: hole_fits_def color_adjust_def nc se)
  with mem show ?thesis by blast
qed

end
