(* ===== verification/Drm_Mm_Remove.thy ===== *)
theory Drm_Mm_Remove
  imports Drm_Mm_Insert
begin

text \<open>
  Removal and replacement: both keep the invariant, removal turns the node's bytes into free
  space that the search finds again, and inserting a node and removing it restores the ring.
\<close>

section \<open>Removal\<close>

lemma ring_pred:
  assumes "n \<in> set nl"
  obtains pre r post where "h # nl = pre @ r # n # post"
proof -
  obtain xs ys where nl: "nl = xs @ n # ys" using assms split_list by metis
  show ?thesis
  proof (cases xs rule: rev_cases)
    case Nil
    with nl have "h # nl = [] @ h # n # ys" by simp
    then show ?thesis by (rule that)
  next
    case (snoc zs z)
    with nl have "h # nl = (h # zs) @ z # n # ys" by simp
    then show ?thesis by (rule that)
  qed
qed

text \<open>The state that the removal of \<open>n\<close>, whose predecessor is \<open>r\<close>, leaves.\<close>

definition unplace :: "drm_mm \<Rightarrow> nref \<Rightarrow> nref \<Rightarrow> drm_mm" where
  "unplace mm r n =
     mm\<lparr>mm_nodes := (mm_nodes mm)(r := mm_nodes mm r\<lparr>nd_hole_follows := True\<rparr>,
                                  n := mm_nodes mm n\<lparr>nd_allocated := False\<rparr>),
        mm_node_list := remove1 n (mm_node_list mm),
        mm_hole_stack := r # remove1 r (remove1 n (mm_hole_stack mm))\<rparr>"

lemma unplace_sel [simp]:
  "mm_node_list (unplace mm r n) = remove1 n (mm_node_list mm)"
  "mm_hole_stack (unplace mm r n) = r # remove1 r (remove1 n (mm_hole_stack mm))"
  "mm_scanned_blocks (unplace mm r n) = mm_scanned_blocks mm"
  "mm_color_adjust (unplace mm r n) = mm_color_adjust mm"
  by (simp_all add: unplace_def)

lemma remove_node_unplace:
  assumes wf: "mm_wf mm" and cut: "Head # mm_node_list mm = pre @ r # n # post"
  shows "drm_mm_remove_node mm n = Ok (unplace mm r n)"
proof -
  have dist: "distinct (Head # mm_node_list mm)" by (rule mm_wfD(1) [OF wf])
  have prev: "prev_of Head (mm_node_list mm) n = r" by (rule prev_of_ring [OF cut dist])
  have cut': "Head # mm_node_list mm = (pre @ [r]) @ n # post" using cut by simp
  note ends = hole_in_nat [OF wf cut'] and ring = mm_wf_ring [OF wf cut']
  have flag: "nd_hole_follows (mm_nodes mm n) \<longleftrightarrow> drm_mm_hole_node_start mm n \<noteq> drm_mm_hole_node_end mm n"
    using ring(1) ends by (auto simp: link_ok_def word_unat_eq_iff)
  have "n \<noteq> Head" "r \<noteq> n" using dist cut by (cases pre; auto)+
  moreover have "n \<in> set (mm_node_list mm)" using cut by (cases pre) auto
  ultimately have n: "not_scanned (mm_nodes mm n)" "r \<noteq> n" using mm_wfD(6) [OF wf] by auto
  have "r \<in> set (Head # mm_node_list mm)" "n \<in> set (Head # mm_node_list mm)" by (simp_all only: cut) auto
  then have mem: "r \<in> set (mm_hole_stack mm) \<longleftrightarrow> nd_hole_follows (mm_nodes mm r)"
      "n \<in> set (mm_hole_stack mm) \<longleftrightarrow> nd_hole_follows (mm_nodes mm n)"
    using mm_wfD(5) [OF wf] by simp_all
  show ?thesis
    using n flag mem prev
    by (auto simp: drm_mm_remove_node_def unplace_def Let_def upd_node_def not_scanned_def
        remove1_idem intro!: drm_mm.equality)
qed

lemma unplace_wf:
  assumes wf: "mm_wf mm" and cut: "Head # mm_node_list mm = pre @ r # n # post"
  shows "mm_wf (unplace mm r n)"
proof -
  let ?m = "unplace mm r n" and ?f = "mm_nodes mm"
  have dist: "distinct (pre @ r # n # post)" using mm_wfD(1) [OF wf] cut by simp
  have nh: "r \<noteq> n" "n \<noteq> Head" using dist cut by (cases pre; auto)+
  have ring': "Head # mm_node_list ?m = pre @ r # post"
    using remove_ring [OF cut mm_wfD(1) [OF wf]] by simp
  have lim: "mm_limit ?m = mm_limit mm"
    using nh by (auto simp: mm_limit_def lo_def unplace_def)
  show ?thesis
  proof (rule mm_wfI)
    show "distinct (Head # mm_node_list ?m)" unfolding ring' using dist by auto
    have ring: "ring_ok ?f (mm_limit mm) (pre @ r # n # post)" using mm_wfD(2) [OF wf] cut by simp
    show "ring_ok (mm_nodes ?m) (mm_limit ?m) (Head # mm_node_list ?m)"
      unfolding ring' lim
      by (rule ring_ok_remove [OF ring]) (use dist nh in \<open>auto simp: unplace_def\<close>)
    show "mm_limit ?m + 2 ^ 32 \<le> 2 ^ 64" unfolding lim by (rule mm_wfD(3) [OF wf])
    show "distinct (mm_hole_stack ?m)" using mm_wfD(4) [OF wf] by simp
    have "set (mm_hole_stack mm) = {x \<in> set (pre @ r # n # post). nd_hole_follows (?f x)}"
      using mm_wfD(5) [OF wf] cut by simp
    then show "set (mm_hole_stack ?m) = {x \<in> set (Head # mm_node_list ?m). nd_hole_follows (mm_nodes ?m x)}"
      unfolding ring' using dist nh mm_wfD(4) [OF wf] by (auto simp: unplace_def)
    show "mm_scanned_blocks ?m = 0" using mm_wfD(7) [OF wf] by simp
    fix x assume "x \<in> set (mm_node_list ?m)"
    then have "x \<in> set (mm_node_list mm)" "x \<noteq> n" using mm_wfD(1) [OF wf] by auto
    then show "nd_allocated (mm_nodes ?m x) \<and> not_scanned (mm_nodes ?m x)"
      using mm_wfD(6) [OF wf] by (auto simp: unplace_def not_scanned_def)
  qed
qed

lemma remove_node_ok:
  assumes "mm_wf mm" and "n \<in> set (mm_node_list mm)"
  obtains r mm' where "drm_mm_remove_node mm n = Ok mm'" and "mm' = unplace mm r n" and "mm_wf mm'"
    and "r = prev_of Head (mm_node_list mm) n" and "r \<noteq> n" and "n \<noteq> Head"
    and "\<And>x. nd_start (mm_nodes mm' x) = nd_start (mm_nodes mm x)
              \<and> nd_size (mm_nodes mm' x) = nd_size (mm_nodes mm x)"
proof -
  from assms(2) obtain pre r post where cut: "Head # mm_node_list mm = pre @ r # n # post"
    by (rule ring_pred)
  have "distinct (pre @ r # n # post)" using mm_wfD(1) [OF assms(1)] cut by simp
  then have "r \<noteq> n" by simp
  moreover have "n \<noteq> Head" using assms(2) mm_wfD(1) [OF assms(1)] by auto
  ultimately show ?thesis
    using that [OF remove_node_unplace [OF assms(1) cut] refl unplace_wf [OF assms(1) cut]]
      prev_of_ring [OF cut mm_wfD(1) [OF assms(1)]]
    by (auto simp: unplace_def)
qed

text \<open>The bytes of the removed node are free, and still in range.\<close>

lemma remove_node_room:
  assumes wf: "mm_wf mm" and n: "n \<in> set (mm_node_list mm)" and rm: "drm_mm_remove_node mm n = Ok mm'"
  shows "room_at mm' (nd_size (mm_nodes mm n)) 0 0 (- 1) (lo (mm_nodes mm) n)"
proof -
  obtain r where mm': "mm' = unplace mm r n" and ne: "n \<noteq> Head" and wf': "mm_wf mm'"
    and ext: "\<And>x. nd_start (mm_nodes mm' x) = nd_start (mm_nodes mm x)
              \<and> nd_size (mm_nodes mm' x) = nd_size (mm_nodes mm x)"
    using remove_node_ok [OF wf n] rm by (metis outcome.inject)
  let ?f = "mm_nodes mm" and ?e = "mm_limit mm"
  have same: "lo (mm_nodes mm') x = lo ?f x" "hi (mm_nodes mm') x = hi ?f x" for x
    using ext by (simp_all add: lo_def hi_def)
  note ring = mm_wfD(2) [OF wf]
  have b: "mm_base mm \<le> lo ?f n" "lo ?f n < hi ?f n" "hi ?f n \<le> ?e"
    using ring_ok_bounds [OF ring] n by (auto simp: mm_base_def)
  have sum: "lo ?f n + unat (nd_size (?f n)) = hi ?f n"
    using b(2) unat_add_no_wrap by (simp add: lo_def hi_def)
  have dis: "hi ?f n \<le> lo ?f x \<or> hi ?f x \<le> lo ?f n" if "x \<in> set (mm_node_list mm')" for x
  proof -
    have "x \<in> set (mm_node_list mm)" "x \<noteq> n"
      using that mm' mm_wfD(1) [OF wf] by auto
    then show ?thesis using ring_ok_disjoint [OF ring, of n x] n by auto
  qed
  have "?e < 2 ^ 64" using mm_wfD(3) [OF wf] by simp
  then show ?thesis
    using b sum dis same unat_max_u64 by (auto simp: room_at_def mm_base_def mm_limit_def)
qed

section \<open>Insertion and removal are inverse\<close>

lemma set_filter_wf_stack:
  assumes "mm_wf mm" and "mm_wf mm'" and "mm_node_list mm' = mm_node_list mm"
    and "\<And>x. x \<in> set (Head # mm_node_list mm) \<Longrightarrow> nd_start (mm_nodes mm' x) = nd_start (mm_nodes mm x)
              \<and> nd_size (mm_nodes mm' x) = nd_size (mm_nodes mm x)"
  shows "set (mm_hole_stack mm') = set (mm_hole_stack mm)"
proof -
  have "nd_hole_follows (mm_nodes mm' r) = nd_hole_follows (mm_nodes mm r)"
    if "r \<in> set (Head # mm_node_list mm)" for r
  proof -
    from that obtain pre post where cut: "Head # mm_node_list mm = pre @ r # post" by (rule ring_cut)
    then have cut': "Head # mm_node_list mm' = pre @ r # post" using assms(3) by simp
    have lim: "mm_limit mm' = mm_limit mm" using assms(4) by (simp add: mm_limit_def lo_def)
    have "hi (mm_nodes mm') r = hi (mm_nodes mm) r" using assms(4) [OF that] by (simp add: hi_def)
    moreover have "next_lo (mm_nodes mm') (mm_limit mm) post = next_lo (mm_nodes mm) (mm_limit mm) post"
    proof (cases post)
      case (Cons s ss)
      then have "s \<in> set (Head # mm_node_list mm)" by (simp only: cut) simp
      with Cons show ?thesis using assms(4) by (simp add: next_lo_def lo_def)
    qed (simp add: next_lo_def)
    ultimately show ?thesis
      using mm_wf_ring(1) [OF assms(1) cut] mm_wf_ring(1) [OF assms(2) cut'] lim
      by (simp add: link_ok_def)
  qed
  then show ?thesis using mm_wfD(5) [OF assms(1)] mm_wfD(5) [OF assms(2)] assms(3) by auto
qed

section \<open>Replacement\<close>

lemma replace_in_fresh: "new \<notin> set xs \<Longrightarrow> distinct xs \<Longrightarrow> distinct (replace_in old new xs)"
  by (induction xs) (auto simp: replace_in_def)

lemma replace_in_split:
  "old \<notin> set xs \<Longrightarrow> old \<notin> set ys \<Longrightarrow> replace_in old new (xs @ old # ys) = xs @ new # ys"
  by (auto simp: replace_in_def intro!: map_idI)

lemma ring_ok_replace:
  assumes "ring_ok f e (pre @ a # post)" and "\<And>x. x \<in> set pre \<union> set post \<Longrightarrow> g x = f x"
    and "nd_start (g b) = nd_start (f a)" "nd_size (g b) = nd_size (f a)"
      "nd_hole_follows (g b) = nd_hole_follows (f a)"
  shows "ring_ok g e (pre @ b # post)"
proof -
  have "ring_ok g (lo f a) pre"
    using assms(1,2) ring_ok_cong [of pre g f] by (auto simp: ring_ok_append)
  moreover have "tail_ok g e post" "next_lo g e post = next_lo f e post"
    using assms(1,2) tail_ok_cong [of post g f] by (auto simp: ring_ok_append ring_ok_Cons)
  moreover have "lo g b = lo f a" "hi g b = hi f a" using assms(3,4) by (simp_all add: lo_def hi_def)
  ultimately show ?thesis
    using assms(1,5) by (auto simp: ring_ok_append ring_ok_Cons link_ok_def)
qed

lemma replace_node_wf:
  assumes wf: "mm_wf mm" and old: "old \<in> set (mm_node_list mm)"
    and new: "new \<notin> set (Head # mm_node_list mm)" "not_scanned (mm_nodes mm new)"
  shows "mm_wf (drm_mm_replace_node mm old new)"
proof -
  let ?m = "drm_mm_replace_node mm old new" and ?f = "mm_nodes mm"
  obtain pre r post where cut: "Head # mm_node_list mm = pre @ r # old # post"
    using ring_pred [OF old] .
  have dist: "distinct (pre @ r # old # post)" using mm_wfD(1) [OF wf] cut by simp
  have oldH: "old \<noteq> Head" "old \<noteq> new" using old new mm_wfD(1) [OF wf] by auto
  have newout: "new \<notin> set (pre @ r # old # post)" using new(1) unfolding cut .
  have "Head # mm_node_list ?m = replace_in old new (Head # mm_node_list mm)"
    using oldH by (simp add: drm_mm_replace_node_def Let_def replace_in_def)
  also have "\<dots> = (pre @ [r]) @ new # post"
    using replace_in_split [of old "pre @ [r]" post new] dist cut by auto
  finally have ring': "Head # mm_node_list ?m = (pre @ [r]) @ new # post" .
  have nodes: "mm_nodes ?m = ?f(old := ?f old\<lparr>nd_allocated := False\<rparr>,
      new := ?f new\<lparr>nd_hole_follows := nd_hole_follows (?f old), nd_start := nd_start (?f old),
        nd_size := nd_size (?f old), nd_color := nd_color (?f old), nd_allocated := True\<rparr>)"
    using oldH by (auto simp: drm_mm_replace_node_def Let_def)
  have lim: "mm_limit ?m = mm_limit mm"
    using oldH new(1) by (auto simp: mm_limit_def lo_def nodes)
  show ?thesis
  proof (rule mm_wfI)
    show "distinct (Head # mm_node_list ?m)" unfolding ring' using dist newout by auto
    have ring: "ring_ok ?f (mm_limit mm) ((pre @ [r]) @ old # post)"
      using mm_wfD(2) [OF wf] cut by simp
    show "ring_ok (mm_nodes ?m) (mm_limit ?m) (Head # mm_node_list ?m)"
      unfolding ring' lim
      by (rule ring_ok_replace [OF ring]) (use dist newout in \<open>auto simp: nodes\<close>)
    show "mm_limit ?m + 2 ^ 32 \<le> 2 ^ 64" unfolding lim by (rule mm_wfD(3) [OF wf])
    have st: "mm_hole_stack ?m = replace_in old new (mm_hole_stack mm)"
      by (simp add: drm_mm_replace_node_def Let_def)
    have "new \<notin> set (mm_hole_stack mm)" using mm_wfD(5) [OF wf] new(1) by auto
    then show "distinct (mm_hole_stack ?m)"
      unfolding st by (rule replace_in_fresh) (rule mm_wfD(4) [OF wf])
    have "set (mm_hole_stack mm) = {x \<in> set (pre @ r # old # post). nd_hole_follows (?f x)}"
      using mm_wfD(5) [OF wf] cut by simp
    then show "set (mm_hole_stack ?m) = {x \<in> set (Head # mm_node_list ?m). nd_hole_follows (mm_nodes ?m x)}"
      unfolding ring' st using dist newout by (auto simp: replace_in_def nodes)
    show "mm_scanned_blocks ?m = 0"
      using mm_wfD(7) [OF wf] by (simp add: drm_mm_replace_node_def Let_def)
    fix x assume "x \<in> set (mm_node_list ?m)"
    then have "x = new \<or> x \<in> set (mm_node_list mm) \<and> x \<noteq> old"
      by (auto simp: drm_mm_replace_node_def Let_def replace_in_def split: if_splits)
    then show "nd_allocated (mm_nodes ?m x) \<and> not_scanned (mm_nodes ?m x)"
      using mm_wfD(6) [OF wf] new by (auto simp: nodes not_scanned_def)
  qed
qed

end
