(* ===== verification/Range_Manager.thy ===== *)
theory Range_Manager
  imports Drm_Mm_Remove
begin

text \<open>
  The contract that the users of a range allocator rely on, as a locale, and its
  interpretation by \<^verbatim>\<open>drm/drm_mm.c\<close>.  A manager hands out disjoint intervals of an area:
  an allocation returns an interval that satisfies the request and is disjoint from those
  held, or ENOSPC when there is none; a release gives exactly one interval back.
\<close>

section \<open>The contract\<close>

locale range_manager =
  fixes alloc :: "'m \<Rightarrow> 'n \<Rightarrow> u64 \<Rightarrow> u32 \<Rightarrow> u64 \<Rightarrow> u64 \<Rightarrow> 'm outcome"
    and release :: "'m \<Rightarrow> 'n \<Rightarrow> 'm outcome"
    and ok :: "'m \<Rightarrow> bool"
    and request_ok :: "'m \<Rightarrow> 'n \<Rightarrow> u64 \<Rightarrow> u64 \<Rightarrow> bool"
    and held :: "'m \<Rightarrow> 'n set"
    and span :: "'m \<Rightarrow> 'n \<Rightarrow> nat set"
    and area :: "'m \<Rightarrow> nat set"
  assumes alloc_result: "ok m \<Longrightarrow> request_ok m n sz rs \<Longrightarrow>
      alloc m n sz al rs re = Err ENOSPC \<or> (\<exists>m'. alloc m n sz al rs re = Ok m')"
    and alloc_grants: "ok m \<Longrightarrow> request_ok m n sz rs \<Longrightarrow> alloc m n sz al rs re = Ok m' \<Longrightarrow>
      ok m' \<and> n \<notin> held m \<and> held m' = insert n (held m) \<and> area m' = area m
    \<and> (\<forall>x \<in> held m. span m' x = span m x)
    \<and> (\<exists>t. span m' n = {t ..< t + unat sz} \<and> unat rs \<le> t \<and> t + unat sz \<le> unat re
           \<and> (al \<noteq> 0 \<longrightarrow> unat al dvd t))"
    and alloc_refuses: "ok m \<Longrightarrow> request_ok m n sz rs \<Longrightarrow> alloc m n sz al rs re = Err ENOSPC \<Longrightarrow>
      {t ..< t + unat sz} \<subseteq> area m \<Longrightarrow> unat rs \<le> t \<Longrightarrow> t + unat sz \<le> unat re \<Longrightarrow>
      (al \<noteq> 0 \<longrightarrow> unat al dvd t) \<Longrightarrow> \<exists>x \<in> held m. {t ..< t + unat sz} \<inter> span m x \<noteq> {}"
    and release_ok: "ok m \<Longrightarrow> n \<in> held m \<Longrightarrow>
      \<exists>m'. release m n = Ok m' \<and> ok m' \<and> held m' = held m - {n} \<and> area m' = area m
         \<and> (\<forall>x \<in> held m'. span m' x = span m x)"
    and held_finite: "ok m \<Longrightarrow> finite (held m)"
    and held_inside: "ok m \<Longrightarrow> n \<in> held m \<Longrightarrow> span m n \<subseteq> area m"
    and held_disjoint: "ok m \<Longrightarrow> x \<in> held m \<Longrightarrow> y \<in> held m \<Longrightarrow> x \<noteq> y \<Longrightarrow> span m x \<inter> span m y = {}"
    and area_finite: "finite (area m)"
begin

text \<open>What the users derive: the bytes held are never more than the area, and a grant
  consumes exactly the size asked for.\<close>

definition used :: "'m \<Rightarrow> nat" where
  "used m = (\<Sum>x \<in> held m. card (span m x))"

lemma used_card: "ok m \<Longrightarrow> used m = card (\<Union>x \<in> held m. span m x)"
  unfolding used_def
  by (subst card_UN_disjoint)
     (auto simp: held_finite held_disjoint intro: finite_subset [OF held_inside area_finite])

lemma used_le_area: "ok m \<Longrightarrow> used m \<le> card (area m)"
  by (auto simp: used_card held_inside [THEN subsetD] intro!: card_mono area_finite)

lemma alloc_used:
  assumes "ok m" and "request_ok m n sz rs" and "alloc m n sz al rs re = Ok m'"
  shows "used m' = used m + unat sz"
proof -
  note g = alloc_grants [OF assms]
  then have "used m' = card (span m' n) + (\<Sum>x \<in> held m. card (span m' x))"
    by (simp add: used_def held_finite assms(1))
  moreover have "(\<Sum>x \<in> held m. card (span m' x)) = used m"
    using g by (auto simp: used_def intro: sum.cong)
  moreover have "card (span m' n) = unat sz" using g by auto
  ultimately show ?thesis by simp
qed

lemma alloc_disjoint:
  assumes "ok m" and "request_ok m n sz rs" and "alloc m n sz al rs re = Ok m'" and "x \<in> held m"
  shows "span m' n \<inter> span m x = {}"
  using alloc_grants [OF assms(1-3)] held_disjoint [of m' n x] assms(4) by auto

text \<open>A request larger than what is left is refused.\<close>

lemma alloc_too_big:
  assumes "ok m" and "request_ok m n sz rs" and "card (area m) < used m + unat sz"
  shows "alloc m n sz al rs re = Err ENOSPC"
proof (rule ccontr)
  assume "alloc m n sz al rs re \<noteq> Err ENOSPC"
  then obtain m' where "alloc m n sz al rs re = Ok m'" using alloc_result [OF assms(1,2)] by blast
  then have "used m' = used m + unat sz" "ok m'" "area m' = area m"
    using alloc_used alloc_grants assms(1,2) by blast+
  then show False using used_le_area [of m'] assms(3) by simp
qed

lemma release_used:
  assumes "ok m" and "n \<in> held m" and "release m n = Ok m'"
  shows "used m = used m' + card (span m n)"
proof -
  have m': "held m' = held m - {n}" "\<forall>x \<in> held m'. span m' x = span m x"
    using release_ok [OF assms(1,2)] assms(3) by auto
  then have "used m' = (\<Sum>x \<in> held m - {n}. card (span m x))" by (auto simp: used_def)
  then show ?thesis using assms(1,2) by (simp add: used_def held_finite sum.remove)
qed

lemma alloc_release:
  assumes "ok m" and "request_ok m n sz rs" and "alloc m n sz al rs re = Ok m'"
  obtains m'' where "release m' n = Ok m''" and "ok m''" and "held m'' = held m"
    and "area m'' = area m" and "\<forall>x \<in> held m. span m'' x = span m x" and "used m'' = used m"
proof -
  note g = alloc_grants [OF assms]
  then obtain m'' where r: "release m' n = Ok m''" "ok m''" "held m'' = held m' - {n}"
      "area m'' = area m'" "\<forall>x \<in> held m''. span m'' x = span m' x"
    using release_ok [of m' n] by auto
  with g have h: "held m'' = held m" by auto
  moreover have "\<forall>x \<in> held m. span m'' x = span m x" using r g h by auto
  moreover have "used m'' = used m" using h calculation(2) by (auto simp: used_def)
  ultimately show ?thesis using that r g by simp
qed

end

section \<open>The allocator of drm\_mm.c keeps the contract\<close>

definition mm_ok :: "drm_mm \<Rightarrow> bool" where
  "mm_ok mm \<longleftrightarrow> mm_wf mm \<and> mm_color_adjust mm = None"

definition mm_span :: "drm_mm \<Rightarrow> nref \<Rightarrow> nat set" where
  "mm_span mm r = {lo (mm_nodes mm) r ..< hi (mm_nodes mm) r}"

definition mm_area :: "drm_mm \<Rightarrow> nat set" where
  "mm_area mm = {mm_base mm ..< mm_limit mm}"

definition mm_held :: "drm_mm \<Rightarrow> nref set" where
  "mm_held mm = set (mm_node_list mm)"

lemma remove_colour:
  "drm_mm_remove_node mm n = Ok mm' \<Longrightarrow> mm_color_adjust mm' = mm_color_adjust mm"
  by (auto simp: drm_mm_remove_node_def Let_def split: if_splits)

lemma insert_helper_range_colour:
  "drm_mm_insert_helper_range mm r n sz al col rs re = Ok mm' \<Longrightarrow> mm_color_adjust mm' = mm_color_adjust mm"
  by (auto simp: drm_mm_insert_helper_range_def Let_def split: if_splits prod.splits)

lemma insert_range_colour:
  "drm_mm_insert_node_in_range_generic mm n sz al col rs re = Ok mm' \<Longrightarrow>
   mm_color_adjust mm' = mm_color_adjust mm"
  by (auto simp: drm_mm_insert_node_in_range_generic_def insert_helper_range_colour split: option.splits)

lemma insert_range_result:
  assumes "mm_wf mm" and "insert_domain mm n sz rs" and "color_shrinks mm col rs re"
  shows "(drm_mm_insert_node_in_range_generic mm n sz al col rs re = Err ENOSPC
        \<and> (\<forall>r \<in> set (mm_hole_stack mm). \<not> hole_fits mm sz al col rs re r))
      \<or> (\<exists>mm'. drm_mm_insert_node_in_range_generic mm n sz al col rs re = Ok mm' \<and> mm_wf mm'
             \<and> inserted mm mm' n sz al col rs re)"
  by (rule insert_in_range_cases [OF assms, of al]) blast+

lemma interval_inside:
  "(0::nat) < k \<Longrightarrow> {t ..< t + k} \<subseteq> {a ..< b} \<longleftrightarrow> a \<le> t \<and> t + k \<le> b"
  by (auto simp: atLeastLessThan_subset_iff)

lemma interval_apart:
  "(0::nat) < k \<Longrightarrow> l < h \<Longrightarrow> {t ..< t + k} \<inter> {l ..< h} = {} \<longleftrightarrow> t + k \<le> l \<or> h \<le> t"
  by (auto simp: max_def min_def split: if_splits)

lemma wf_extent:
  assumes "mm_wf mm" and "x \<in> set (mm_node_list mm)"
  shows "mm_base mm \<le> lo (mm_nodes mm) x" "lo (mm_nodes mm) x < hi (mm_nodes mm) x"
    "hi (mm_nodes mm) x \<le> mm_limit mm"
  using ring_ok_bounds [OF mm_wfD(2) [OF assms(1)]] assms(2) by (auto simp: mm_base_def)

lemma wf_disjoint:
  assumes "mm_wf mm" and "x \<in> set (mm_node_list mm)" "y \<in> set (mm_node_list mm)" and "x \<noteq> y"
  shows "hi (mm_nodes mm) x \<le> lo (mm_nodes mm) y \<or> hi (mm_nodes mm) y \<le> lo (mm_nodes mm) x"
  using ring_ok_disjoint [OF mm_wfD(2) [OF assms(1)], of x y] assms by simp

lemma inserted_span:
  assumes "inserted mm mm' n sz al col rs re" and "x \<noteq> n"
  shows "mm_span mm' x = mm_span mm x"
  using assms by (simp add: inserted_def mm_span_def lo_def hi_def)

lemma inserted_area:
  assumes "inserted mm mm' n sz al col rs re" and "n \<noteq> Head"
  shows "mm_area mm' = mm_area mm"
  using assms by (simp add: inserted_def mm_area_def mm_base_def mm_limit_def lo_def hi_def)

lemma remove_ok_spec:
  assumes "mm_ok m" and "n \<in> mm_held m"
  shows "\<exists>m'. drm_mm_remove_node m n = Ok m' \<and> mm_ok m' \<and> mm_held m' = mm_held m - {n}
       \<and> mm_area m' = mm_area m \<and> (\<forall>x. mm_span m' x = mm_span m x)"
proof -
  have wf: "mm_wf m" and n: "n \<in> set (mm_node_list m)" using assms by (auto simp: mm_ok_def mm_held_def)
  show ?thesis
  proof (rule remove_node_ok [OF wf n])
    fix r m'
    assume r: "drm_mm_remove_node m n = Ok m'" "m' = unplace m r n" "mm_wf m'"
      and e: "\<And>x. nd_start (mm_nodes m' x) = nd_start (mm_nodes m x) \<and> nd_size (mm_nodes m' x) = nd_size (mm_nodes m x)"
    show ?thesis
      using r e assms(1) remove_colour [OF r(1)] mm_wfD(1) [OF wf]
      by (intro exI [of _ m'])
         (auto simp: mm_ok_def mm_held_def mm_area_def mm_base_def mm_limit_def mm_span_def lo_def hi_def)
  qed
qed

interpretation mm: range_manager
  "\<lambda>m n sz al rs re. drm_mm_insert_node_in_range m n sz al rs re" drm_mm_remove_node mm_ok insert_domain
  mm_held mm_span mm_area
proof
  fix m n sz rs al re
  assume ok: "mm_ok m" and dom: "insert_domain m n sz rs"
  have wf: "mm_wf m" and nc: "mm_color_adjust m = None" using ok by (auto simp: mm_ok_def)
  note sh = color_shrinks_None [OF nc, of 0 rs re]
  have sz: "0 < sz" using dom by (simp add: insert_domain_def)
  have nd: "n \<noteq> Head" "n \<notin> set (mm_node_list m)" using dom by (auto simp: insert_domain_def)
  show "drm_mm_insert_node_in_range m n sz al rs re = Err ENOSPC
      \<or> (\<exists>m'. drm_mm_insert_node_in_range m n sz al rs re = Ok m')"
    unfolding drm_mm_insert_node_in_range_def
    using insert_range_result [OF wf dom sh, of al] by blast
  show "mm_ok m' \<and> n \<notin> mm_held m \<and> mm_held m' = insert n (mm_held m) \<and> mm_area m' = mm_area m
    \<and> (\<forall>x \<in> mm_held m. mm_span m' x = mm_span m x)
    \<and> (\<exists>t. mm_span m' n = {t ..< t + unat sz} \<and> unat rs \<le> t \<and> t + unat sz \<le> unat re
           \<and> (al \<noteq> 0 \<longrightarrow> unat al dvd t))"
    if "drm_mm_insert_node_in_range m n sz al rs re = Ok m'" for m'
  proof -
    have eq: "drm_mm_insert_node_in_range_generic m n sz al 0 rs re = Ok m'"
      using that by (simp add: drm_mm_insert_node_in_range_def)
    have w': "mm_wf m'" and ins: "inserted m m' n sz al 0 rs re"
      using insert_range_result [OF wf dom sh, of al] eq by simp_all
    have "mm_ok m'" using w' insert_range_colour [OF eq] nc by (simp add: mm_ok_def)
    moreover have "\<forall>x \<in> mm_held m. mm_span m' x = mm_span m x"
      using inserted_span [OF ins] nd(2) unfolding mm_held_def by metis
    ultimately show ?thesis
      using inserted_area [OF ins nd(1)] ins nd(2)
      by (auto simp: inserted_def mm_held_def mm_span_def)
  qed
  show "\<exists>x \<in> mm_held m. {t ..< t + unat sz} \<inter> mm_span m x \<noteq> {}"
    if no: "drm_mm_insert_node_in_range m n sz al rs re = Err ENOSPC"
      and t: "{t ..< t + unat sz} \<subseteq> mm_area m" "unat rs \<le> t" "t + unat sz \<le> unat re"
        "al \<noteq> 0 \<longrightarrow> unat al dvd t" for t
  proof (rule ccontr)
    assume none: "\<not> ?thesis"
    have k: "0 < unat sz" using sz by (simp add: word_gt_0 unat_gt_0)
    have apart: "t + unat sz \<le> lo (mm_nodes m) x \<or> hi (mm_nodes m) x \<le> t"
      if x: "x \<in> set (mm_node_list m)" for x
    proof -
      have "{t ..< t + unat sz} \<inter> {lo (mm_nodes m) x ..< hi (mm_nodes m) x} = {}"
        using none x unfolding mm_held_def mm_span_def by blast
      then show ?thesis by (simp only: interval_apart [OF k wf_extent(2) [OF wf x]])
    qed
    have "mm_base m \<le> t \<and> t + unat sz \<le> mm_limit m"
      using t(1) unfolding mm_area_def by (simp only: interval_inside [OF k])
    then have "room_at m sz al rs re t" using t(2-4) apart unfolding room_at_def by blast
    then have "\<exists>r \<in> set (mm_hole_stack m). hole_fits m sz al 0 rs re r" by (rule room_fits [OF wf nc sz])
    moreover have "drm_mm_insert_node_in_range_generic m n sz al 0 rs re = Err ENOSPC"
      using no by (simp add: drm_mm_insert_node_in_range_def)
    ultimately show False using insert_range_result [OF wf dom sh, of al] by simp
  qed
next
  fix m n assume ok: "mm_ok m" and n: "n \<in> mm_held m"
  show "\<exists>m'. drm_mm_remove_node m n = Ok m' \<and> mm_ok m' \<and> mm_held m' = mm_held m - {n}
      \<and> mm_area m' = mm_area m \<and> (\<forall>x \<in> mm_held m'. mm_span m' x = mm_span m x)"
    using remove_ok_spec [OF ok n] by metis
  have "mm_wf m" "n \<in> set (mm_node_list m)" using ok n by (simp_all add: mm_ok_def mm_held_def)
  from wf_extent [OF this] show "mm_span m n \<subseteq> mm_area m"
    by (simp add: mm_span_def mm_area_def)
next
  fix m x y assume "mm_ok m" "x \<in> mm_held m" "y \<in> mm_held m" "x \<noteq> y"
  then have "hi (mm_nodes m) x \<le> lo (mm_nodes m) y \<or> hi (mm_nodes m) y \<le> lo (mm_nodes m) x"
    by (intro wf_disjoint) (simp_all add: mm_ok_def mm_held_def)
  then show "mm_span m x \<inter> mm_span m y = {}" by (auto simp: mm_span_def)
qed (simp_all add: mm_held_def mm_area_def)

end
