(* ===== verification/Drm_Mm_Scan.thy ===== *)
theory Drm_Mm_Scan
  imports Drm_Mm_Remove
begin

text \<open>
  The eviction scan.  Adding blocks takes nodes off the ring, removing them in the reverse
  order puts the ring back, and when an addition has reported a hit, the nodes whose removal
  returns one are enough: without them the requested hole exists.
\<close>

section \<open>Runs of additions and removals\<close>

text \<open>Additions until the first hit, as the eviction loop makes them: the result is the
  nodes added, last one first, and whether a hole was found.\<close>

fun scan_add_until :: "drm_mm \<Rightarrow> nref list \<Rightarrow> nref list \<Rightarrow> (bool \<times> nref list \<times> drm_mm) outcome" where
  "scan_add_until mm [] unwind = Ok (False, unwind, mm)"
| "scan_add_until mm (n # ns) unwind =
     bind_outcome (drm_mm_scan_add_block mm n)
       (\<lambda>(hit, mm). if hit then Ok (True, n # unwind, mm) else scan_add_until mm ns (n # unwind))"

text \<open>Removals in the order of the list; the result holds the nodes to evict, last first.\<close>

fun scan_remove_all :: "drm_mm \<Rightarrow> nref list \<Rightarrow> nref list \<Rightarrow> (nref list \<times> drm_mm) outcome" where
  "scan_remove_all mm [] evict = Ok (evict, mm)"
| "scan_remove_all mm (n # ns) evict =
     bind_outcome (drm_mm_scan_remove_block mm n)
       (\<lambda>(ev, mm). scan_remove_all mm ns (if ev then n # evict else evict))"

section \<open>States that agree on the ring\<close>

definition node_agrees :: "drm_mm_node \<Rightarrow> drm_mm_node \<Rightarrow> bool" where
  "node_agrees x y \<longleftrightarrow>
     nd_hole_follows x = nd_hole_follows y \<and> nd_scanned_block x = nd_scanned_block y
   \<and> nd_scanned_prev_free x = nd_scanned_prev_free y \<and> nd_scanned_next_free x = nd_scanned_next_free y
   \<and> nd_allocated x = nd_allocated y \<and> nd_color x = nd_color y
   \<and> nd_start x = nd_start y \<and> nd_size x = nd_size y
   \<and> (nd_scanned_block x \<longrightarrow> nd_scan_prev x = nd_scan_prev y
        \<and> nd_scanned_preceeds_hole x = nd_scanned_preceeds_hole y)"

definition ring_agrees :: "drm_mm \<Rightarrow> drm_mm \<Rightarrow> bool" where
  "ring_agrees a b \<longleftrightarrow>
     mm_node_list a = mm_node_list b \<and> mm_hole_stack a = mm_hole_stack b
   \<and> mm_scanned_blocks a = mm_scanned_blocks b \<and> mm_color_adjust a = mm_color_adjust b
   \<and> (\<forall>r. node_agrees (mm_nodes a r) (mm_nodes b r))"

lemma ring_agrees_refl [simp]: "ring_agrees a a"
  by (simp add: ring_agrees_def node_agrees_def)

lemma ring_agrees_wf:
  assumes "ring_agrees a b" and "mm_wf a"
  shows "mm_wf b"
proof -
  have n: "\<And>r. node_agrees (mm_nodes a r) (mm_nodes b r)" and
    s: "mm_node_list b = mm_node_list a" "mm_hole_stack b = mm_hole_stack a"
       "mm_scanned_blocks b = mm_scanned_blocks a"
    using assms(1) by (auto simp: ring_agrees_def)
  have lim: "mm_limit b = mm_limit a" using n by (simp add: mm_limit_def lo_def node_agrees_def)
  show ?thesis
  proof (rule mm_wfI)
    show "ring_ok (mm_nodes b) (mm_limit b) (Head # mm_node_list b)"
      unfolding lim s using mm_wfD(2) [OF assms(2)] n
      by (subst ring_ok_cong [where f = "mm_nodes a"]) (auto simp: node_agrees_def)
    show "set (mm_hole_stack b) = {r \<in> set (Head # mm_node_list b). nd_hole_follows (mm_nodes b r)}"
      unfolding s using mm_wfD(5) [OF assms(2)] n by (simp add: node_agrees_def)
    fix r assume "r \<in> set (mm_node_list b)"
    then show "nd_allocated (mm_nodes b r) \<and> not_scanned (mm_nodes b r)"
      using mm_wfD(6) [OF assms(2)] n s by (simp add: node_agrees_def not_scanned_def)
  qed (use mm_wfD [OF assms(2)] s lim in simp_all)
qed

section \<open>One addition\<close>

text \<open>What an addition does to the ring, and the hole it then looks at.\<close>

lemma scan_detach_sel:
  "mm_node_list (scan_detach mm n p) = remove1 n (mm_node_list mm)"
  "mm_hole_stack (scan_detach mm n p) = mm_hole_stack mm"
  "mm_color_adjust (scan_detach mm n p) = mm_color_adjust mm"
  "mm_scanned_blocks (scan_detach mm n p) = mm_scanned_blocks mm + 1"
  "mm_scan_size (scan_detach mm n p) = mm_scan_size mm"
  "mm_scan_alignment (scan_detach mm n p) = mm_scan_alignment mm"
  "mm_scan_color (scan_detach mm n p) = mm_scan_color mm"
  "mm_scan_check_range (scan_detach mm n p) = mm_scan_check_range mm"
  "mm_scan_start (scan_detach mm n p) = mm_scan_start mm"
  "mm_scan_end (scan_detach mm n p) = mm_scan_end mm"
  "mm_scan_hit_start (scan_detach mm n p) = mm_scan_hit_start mm"
  "mm_scan_hit_end (scan_detach mm n p) = mm_scan_hit_end mm"
  by (simp_all add: scan_detach_def Let_def)

lemma scan_detach_nodes:
  "p \<noteq> n \<Longrightarrow> mm_nodes (scan_detach mm n p) = (mm_nodes mm)
      (p := mm_nodes mm p\<lparr>nd_hole_follows := True\<rparr>,
       n := mm_nodes mm n\<lparr>nd_scanned_block := True,
              nd_scanned_preceeds_hole := nd_hole_follows (mm_nodes mm p),
              nd_scan_prev := p, nd_scan_next := mm_prev_scanned_node mm\<rparr>)"
  by (simp add: scan_detach_def Let_def)

definition scan_lo :: "drm_mm \<Rightarrow> u64" where
  "scan_lo mm = (if mm_scan_check_range mm then mm_scan_start mm else 0)"

definition scan_hi :: "drm_mm \<Rightarrow> u64" where
  "scan_hi mm = (if mm_scan_check_range mm then mm_scan_end mm else - 1)"

lemma scan_clip_clip:
  "scan_clip mm (drm_mm_hole_node_start m p, drm_mm_hole_node_end m p) = clip m (scan_lo mm) (scan_hi mm) p"
  by (cases "mm_scan_check_range mm")
     (simp_all add: scan_clip_def scan_lo_def scan_hi_def clip_all, simp add: clip_def)

lemma scan_add_eq:
  assumes cut: "Head # mm_node_list mm = pre @ p # n # post" and dist: "distinct (Head # mm_node_list mm)"
    and fresh: "\<not> nd_scanned_block (mm_nodes mm n)"
  defines "m \<equiv> scan_detach mm n p"
  shows "drm_mm_scan_add_block mm n =
    (let (s, e) = color_adjust m p (mm_scan_color m) (clip m (scan_lo m) (scan_hi m) p)
     in if check_free_hole s e (mm_scan_size m) (mm_scan_alignment m)
        then Ok (True, m\<lparr>mm_scan_hit_start := drm_mm_hole_node_start m p,
                          mm_scan_hit_end := drm_mm_hole_node_end m p\<rparr>)
        else Ok (False, m))"
  using fresh unfolding m_def
  by (simp add: drm_mm_scan_add_block_def prev_of_ring [OF cut dist] Let_def scan_clip_clip)

text \<open>Whatever the check finds, the new state agrees on the ring with the detached one.\<close>

lemma scan_add_cases:
  assumes cut: "Head # mm_node_list mm = pre @ p # n # post" and dist: "distinct (Head # mm_node_list mm)"
    and fresh: "\<not> nd_scanned_block (mm_nodes mm n)"
  obtains (hit) s e where
      "color_adjust (scan_detach mm n p) p (mm_scan_color mm)
         (clip (scan_detach mm n p) (scan_lo mm) (scan_hi mm) p) = (s, e)"
      and "check_free_hole s e (mm_scan_size mm) (mm_scan_alignment mm)"
      and "drm_mm_scan_add_block mm n = Ok (True, (scan_detach mm n p)
         \<lparr>mm_scan_hit_start := drm_mm_hole_node_start (scan_detach mm n p) p,
          mm_scan_hit_end := drm_mm_hole_node_end (scan_detach mm n p) p\<rparr>)"
  | (miss) "drm_mm_scan_add_block mm n = Ok (False, scan_detach mm n p)"
proof -
  let ?m = "scan_detach mm n p"
  obtain s e where se: "color_adjust ?m p (mm_scan_color mm) (clip ?m (scan_lo mm) (scan_hi mm) p) = (s, e)"
    by (cases "color_adjust ?m p (mm_scan_color mm) (clip ?m (scan_lo mm) (scan_hi mm) p)")
  have "scan_lo ?m = scan_lo mm" "scan_hi ?m = scan_hi mm"
    by (simp_all add: scan_lo_def scan_hi_def scan_detach_sel)
  then have "drm_mm_scan_add_block mm n =
     (if check_free_hole s e (mm_scan_size mm) (mm_scan_alignment mm)
      then Ok (True, ?m\<lparr>mm_scan_hit_start := drm_mm_hole_node_start ?m p,
                        mm_scan_hit_end := drm_mm_hole_node_end ?m p\<rparr>)
      else Ok (False, ?m))"
    unfolding scan_add_eq [OF cut dist fresh] by (simp add: scan_detach_sel se)
  then show ?thesis using se hit miss by (cases "check_free_hole s e (mm_scan_size mm) (mm_scan_alignment mm)") auto
qed

section \<open>Removal undoes addition\<close>

lemma scan_remove_undoes:
  assumes cut: "Head # mm_node_list mm = pre @ p # n # post" and dist: "distinct (Head # mm_node_list mm)"
    and fresh: "\<not> nd_scanned_block (mm_nodes mm n)"
    and agree: "ring_agrees (scan_detach mm n p) m2"
  shows "\<exists>m3. drm_mm_scan_remove_block m2 n =
       Ok (mm_scan_hit_start m2 < drm_mm_hole_node_end mm n
             \<and> nd_start (mm_nodes mm n) < mm_scan_hit_end m2, m3)
     \<and> ring_agrees mm m3 \<and> mm_scan_hit_start m3 = mm_scan_hit_start m2
     \<and> mm_scan_hit_end m3 = mm_scan_hit_end m2"
proof -
  have pn: "p \<noteq> n" using cut dist by auto
  have ag: "\<And>r. node_agrees (mm_nodes (scan_detach mm n p) r) (mm_nodes m2 r)"
    and l2: "mm_node_list m2 = remove1 n (mm_node_list mm)" "mm_hole_stack m2 = mm_hole_stack mm"
      "mm_scanned_blocks m2 = mm_scanned_blocks mm + 1" "mm_color_adjust m2 = mm_color_adjust mm"
    using agree by (auto simp: ring_agrees_def scan_detach_sel)
  have agn: "nd_scanned_block (mm_nodes m2 n)" "nd_scan_prev (mm_nodes m2 n) = p"
    "nd_scanned_preceeds_hole (mm_nodes m2 n) = nd_hole_follows (mm_nodes mm p)"
    using ag [of n] by (auto simp: scan_detach_nodes [OF pn] node_agrees_def)
  have r1: "Head # mm_node_list m2 = pre @ p # post"
    using remove_ring [OF cut dist] l2(1) by simp
  have "distinct (Head # mm_node_list m2)" using dist cut unfolding r1 by auto
  then have "Head # list_add Head (mm_node_list m2) p n = pre @ p # n # post"
    by (rule list_add_ring [OF r1])
  then have restored: "list_add Head (mm_node_list m2) p n = mm_node_list mm" using cut by (metis list.inject)
  define m3 where "m3 = (upd_node p (\<lambda>x. x\<lparr>nd_hole_follows := nd_hole_follows (mm_nodes mm p)\<rparr>)
     (upd_node n (\<lambda>x. x\<lparr>nd_scanned_block := False\<rparr>)
       (m2\<lparr>mm_scanned_blocks := mm_scanned_blocks m2 - 1\<rparr>)))\<lparr>mm_node_list := mm_node_list mm\<rparr>"
  have start: "nd_start (mm_nodes m3 r) = nd_start (mm_nodes mm r)" for r
    using ag [of r] pn by (auto simp: m3_def scan_detach_nodes [OF pn] node_agrees_def)
  have "drm_mm_scan_remove_block m2 n = Ok (mm_scan_hit_start m2 < drm_mm_hole_node_end m3 n
             \<and> nd_start (mm_nodes m3 n) < mm_scan_hit_end m2, m3)"
    using agn pn restored by (simp add: drm_mm_scan_remove_block_def Let_def m3_def)
  moreover have "drm_mm_hole_node_end m3 n = drm_mm_hole_node_end mm n"
    using start by (simp add: drm_mm_hole_node_end_def) (simp add: m3_def)
  moreover have "node_agrees (mm_nodes mm r) (mm_nodes m3 r)" for r
    using ag [of r] pn fresh
    by (auto simp: m3_def scan_detach_nodes [OF pn] node_agrees_def split: if_splits)
  then have "ring_agrees mm m3"
    using l2 by (simp add: ring_agrees_def) (simp add: m3_def)
  moreover have "mm_scan_hit_start m3 = mm_scan_hit_start m2" "mm_scan_hit_end m3 = mm_scan_hit_end m2"
    by (simp_all add: m3_def)
  ultimately show ?thesis using start by auto
qed

lemma node_agrees_trans: "node_agrees x y \<Longrightarrow> node_agrees y z \<Longrightarrow> node_agrees x z"
  by (auto simp: node_agrees_def)

lemma ring_agrees_trans: "ring_agrees a b \<Longrightarrow> ring_agrees b c \<Longrightarrow> ring_agrees a c"
  unfolding ring_agrees_def using node_agrees_trans by metis

section \<open>Order of the extents on a ring with gaps\<close>

text \<open>While nodes are off the ring the hole flags no longer say where the gaps are, but the
  extents are still ordered.\<close>

definition ring_ordered :: "drm_mm \<Rightarrow> bool" where
  "ring_ordered mm \<longleftrightarrow>
     distinct (Head # mm_node_list mm)
   \<and> sorted_wrt (\<lambda>x y. hi (mm_nodes mm) x \<le> lo (mm_nodes mm) y) (Head # mm_node_list mm)
   \<and> (\<forall>x \<in> set (mm_node_list mm). lo (mm_nodes mm) x < hi (mm_nodes mm) x
          \<and> hi (mm_nodes mm) x \<le> mm_limit mm)
   \<and> mm_base mm \<le> mm_limit mm"

lemma ring_ok_sorted:
  "ring_ok f e rs \<Longrightarrow> sorted_wrt (\<lambda>x y. hi f x \<le> lo f y) rs"
proof (induction rs)
  case (Cons r rs)
  then have "ring_ok f e rs" by (cases rs) auto
  with Cons ring_ok_bounds [OF Cons.prems] show ?case by auto
qed simp

lemma wf_ring_ordered: "mm_wf mm \<Longrightarrow> ring_ordered mm"
  using ring_ok_sorted [OF mm_wfD(2)] ring_ok_bounds [OF mm_wfD(2)] mm_wfD(1)
  by (simp only: ring_ordered_def mm_base_def) blast

lemma detach_extents:
  "nd_start (mm_nodes (scan_detach mm n p) r) = nd_start (mm_nodes mm r)"
  "nd_size (mm_nodes (scan_detach mm n p) r) = nd_size (mm_nodes mm r)"
  by (auto simp: scan_detach_def Let_def)

lemma detach_lo_hi:
  "lo (mm_nodes (scan_detach mm n p)) r = lo (mm_nodes mm) r"
  "hi (mm_nodes (scan_detach mm n p)) r = hi (mm_nodes mm) r"
  "mm_limit (scan_detach mm n p) = mm_limit mm" "mm_base (scan_detach mm n p) = mm_base mm"
  by (simp_all add: lo_def hi_def mm_limit_def mm_base_def detach_extents)

lemma sorted_wrt_remove1: "sorted_wrt P xs \<Longrightarrow> sorted_wrt P (remove1 x xs)"
proof (induction xs)
  case (Cons y ys)
  have "set (remove1 x ys) \<subseteq> set ys" by (rule set_remove1_subset)
  with Cons show ?case by auto
qed simp

lemma detach_ordered:
  assumes "ring_ordered mm"
  shows "ring_ordered (scan_detach mm n p)"
proof -
  have sub: "set (remove1 n (mm_node_list mm)) \<subseteq> set (mm_node_list mm)" by (rule set_remove1_subset)
  with assms sorted_wrt_remove1 show ?thesis
    by (auto simp: ring_ordered_def detach_lo_hi scan_detach_sel)
qed

text \<open>Positions in an ordered ring.\<close>

lemma ordered_cut:
  assumes "ring_ordered mm" and cut: "Head # mm_node_list mm = pre @ p # post"
  shows "unat (drm_mm_hole_node_start mm p) = hi (mm_nodes mm) p"
    and "unat (drm_mm_hole_node_end mm p) = next_lo (mm_nodes mm) (mm_limit mm) post"
    and "mm_base mm \<le> hi (mm_nodes mm) p"
    and "hi (mm_nodes mm) p \<le> next_lo (mm_nodes mm) (mm_limit mm) post"
    and "next_lo (mm_nodes mm) (mm_limit mm) post \<le> mm_limit mm"
    and "x \<in> set (mm_node_list mm) \<Longrightarrow> hi (mm_nodes mm) x \<le> hi (mm_nodes mm) p
           \<or> next_lo (mm_nodes mm) (mm_limit mm) post \<le> lo (mm_nodes mm) x"
proof -
  let ?f = "mm_nodes mm" and ?e = "mm_limit mm"
  have dist: "distinct (Head # mm_node_list mm)" and
    bounds: "\<And>x. x \<in> set (mm_node_list mm) \<Longrightarrow> lo ?f x < hi ?f x \<and> hi ?f x \<le> ?e" and
    base: "mm_base mm \<le> ?e"
    using assms(1) by (auto simp: ring_ordered_def)
  have sorted: "sorted_wrt (\<lambda>x y. hi ?f x \<le> lo ?f y) (pre @ p # post)"
    using assms by (simp add: ring_ordered_def)
  have elem: "x = Head \<or> x \<in> set (mm_node_list mm)" if "x \<in> set (pre @ p # post)" for x
    using that unfolding cut [symmetric] by auto
  have inpost: "x \<in> set (mm_node_list mm)" if "x \<in> set post" for x
    using that cut by (cases pre) auto
  show "unat (drm_mm_hole_node_start mm p) = hi ?f p"
    by (simp add: drm_mm_hole_node_start_def hi_def)
  show "unat (drm_mm_hole_node_end mm p) = next_lo ?f ?e post"
    by (simp add: drm_mm_hole_node_end_def next_of_ring [OF cut dist] next_lo_def lo_def mm_limit_def
        split: list.splits)
  show b: "mm_base mm \<le> hi ?f p"
  proof (cases pre)
    case Nil
    with cut show ?thesis by (simp add: mm_base_def)
  next
    case (Cons y ys)
    then have "y = Head" "p \<in> set (mm_node_list mm)" using cut by auto
    then have "hi ?f Head \<le> lo ?f p" "lo ?f p < hi ?f p" using sorted Cons bounds by auto
    then show ?thesis by (simp add: mm_base_def)
  qed
  show "hi ?f p \<le> next_lo ?f ?e post"
    using sorted elem [of p] bounds base
    by (cases post) (auto simp: next_lo_def sorted_wrt_append mm_base_def)
  show "next_lo ?f ?e post \<le> ?e"
    using bounds inpost by (cases post) (fastforce simp: next_lo_def)+
  show "hi ?f x \<le> hi ?f p \<or> next_lo ?f ?e post \<le> lo ?f x" if x: "x \<in> set (mm_node_list mm)"
  proof -
    have "x \<in> set (pre @ p # post)" using x unfolding cut [symmetric] by simp
    then consider "x \<in> set pre" | "x = p" | "x \<in> set post" by auto
    then show ?thesis
    proof cases
      case 1
      then have "hi ?f x \<le> lo ?f p" using sorted by (auto simp: sorted_wrt_append)
      moreover have "p \<noteq> Head" using 1 cut dist by (cases pre) auto
      then have "lo ?f p < hi ?f p" using elem [of p] bounds by auto
      ultimately show ?thesis by simp
    next
      case 2
      then show ?thesis by simp
    next
      case 3
      then obtain s ss where post: "post = s # ss" by (cases post) auto
      have "lo ?f s \<le> lo ?f x"
      proof (cases "x = s")
        case False
        then have "hi ?f s \<le> lo ?f x" using 3 post sorted by (auto simp: sorted_wrt_append)
        moreover have "lo ?f s < hi ?f s" using bounds inpost post by auto
        ultimately show ?thesis by simp
      qed simp
      then show ?thesis by (simp add: post next_lo_def)
    qed
  qed
qed

section \<open>The whole scan\<close>

text \<open>What a hit means: the reported range lies between two neighbours of the ring, so no
  node still on the ring meets it, and the clipped range passed the free-hole test.\<close>

definition hit_free :: "drm_mm \<Rightarrow> bool" where
  "hit_free mm \<longleftrightarrow>
     mm_base mm \<le> unat (mm_scan_hit_start mm) \<and> mm_scan_hit_start mm \<le> mm_scan_hit_end mm
   \<and> unat (mm_scan_hit_end mm) \<le> mm_limit mm
   \<and> (\<forall>x \<in> set (mm_node_list mm). hi (mm_nodes mm) x \<le> unat (mm_scan_hit_start mm)
          \<or> unat (mm_scan_hit_end mm) \<le> lo (mm_nodes mm) x)
   \<and> (let (s, e) = scan_clip mm (mm_scan_hit_start mm, mm_scan_hit_end mm)
      in check_free_hole s e (mm_scan_size mm) (mm_scan_alignment mm))"

definition same_scan :: "drm_mm \<Rightarrow> drm_mm \<Rightarrow> bool" where
  "same_scan a b \<longleftrightarrow>
     mm_scan_size b = mm_scan_size a \<and> mm_scan_alignment b = mm_scan_alignment a
   \<and> mm_scan_check_range b = mm_scan_check_range a \<and> mm_scan_start b = mm_scan_start a
   \<and> mm_scan_end b = mm_scan_end a \<and> mm_color_adjust b = mm_color_adjust a
   \<and> (\<forall>r. lo (mm_nodes b) r = lo (mm_nodes a) r \<and> hi (mm_nodes b) r = hi (mm_nodes a) r)"

lemma same_scan_trans: "same_scan a b \<Longrightarrow> same_scan b c \<Longrightarrow> same_scan a c"
  by (simp add: same_scan_def)

lemma same_scan_limit: "same_scan a b \<Longrightarrow> mm_limit b = mm_limit a \<and> mm_base b = mm_base a"
  by (simp add: same_scan_def mm_limit_def mm_base_def)

lemma detach_same_scan: "same_scan mm (scan_detach mm n p)"
  by (simp add: same_scan_def scan_detach_sel detach_lo_hi)

text \<open>Undoing a run of additions from any state that agrees with its end: the removals
  succeed, restore the ring, and flag every added node that meets the hit range.\<close>

definition undoes :: "drm_mm \<Rightarrow> drm_mm \<Rightarrow> nref list \<Rightarrow> bool" where
  "undoes mm mm' added \<longleftrightarrow>
     (\<forall>m2 ev. ring_agrees mm' m2 \<longrightarrow>
        (\<exists>ev' m3. scan_remove_all m2 added ev = Ok (ev', m3) \<and> ring_agrees mm m3
           \<and> set ev \<subseteq> set ev' \<and> set ev' \<subseteq> set ev \<union> set added
           \<and> mm_scan_hit_start m3 = mm_scan_hit_start m2 \<and> mm_scan_hit_end m3 = mm_scan_hit_end m2
           \<and> (mm_scan_hit_end m2 = 0 \<longrightarrow> ev' = ev)
           \<and> (\<forall>x \<in> set added. unat (mm_scan_hit_start m2) < hi (mm_nodes mm) x
                 \<and> lo (mm_nodes mm) x < unat (mm_scan_hit_end m2) \<longrightarrow> x \<in> set ev')))"

lemma scan_remove_all_append:
  "scan_remove_all m (xs @ ys) ev =
     bind_outcome (scan_remove_all m xs ev) (\<lambda>(ev, m). scan_remove_all m ys ev)"
proof (induction xs arbitrary: m ev)
  case (Cons x xs)
  then show ?case by (cases "drm_mm_scan_remove_block m x") auto
qed simp

lemma undoes_step:
  assumes ord: "ring_ordered mm" and cut: "Head # mm_node_list mm = pre @ p # n # post"
    and fresh: "\<not> nd_scanned_block (mm_nodes mm n)"
    and ag: "ring_agrees (scan_detach mm n p) m1" and un: "undoes m1 m' added"
  shows "undoes mm m' (added @ [n])"
proof -
  let ?d = "scan_detach mm n p"
  have dist: "distinct (Head # mm_node_list mm)" using ord by (simp add: ring_ordered_def)
  have cut': "Head # mm_node_list mm = (pre @ [p]) @ n # post" using cut by simp
  have nend: "hi (mm_nodes mm) n \<le> unat (drm_mm_hole_node_end mm n)"
    using ordered_cut(2,4) [OF ord cut'] by simp
  have ext: "lo (mm_nodes m1) x = lo (mm_nodes mm) x" "hi (mm_nodes m1) x = hi (mm_nodes mm) x" for x
    using ag detach_extents [of mm n p x]
    by (simp_all add: ring_agrees_def node_agrees_def lo_def hi_def)
  show ?thesis
    unfolding undoes_def
  proof (intro allI impI)
    fix m2 ev assume "ring_agrees m' m2"
    with un obtain ev1 m3 where r1: "scan_remove_all m2 added ev = Ok (ev1, m3)" "ring_agrees m1 m3"
        "set ev \<subseteq> set ev1" "set ev1 \<subseteq> set ev \<union> set added"
        "mm_scan_hit_start m3 = mm_scan_hit_start m2" "mm_scan_hit_end m3 = mm_scan_hit_end m2"
        "mm_scan_hit_end m2 = 0 \<longrightarrow> ev1 = ev"
      and fl: "\<forall>x \<in> set added. unat (mm_scan_hit_start m2) < hi (mm_nodes m1) x
                 \<and> lo (mm_nodes m1) x < unat (mm_scan_hit_end m2) \<longrightarrow> x \<in> set ev1"
      unfolding undoes_def by blast
    define b where "b = (mm_scan_hit_start m3 < drm_mm_hole_node_end mm n
             \<and> nd_start (mm_nodes mm n) < mm_scan_hit_end m3)"
    from scan_remove_undoes [OF cut dist fresh ring_agrees_trans [OF ag r1(2)]]
    obtain m4 where r2: "drm_mm_scan_remove_block m3 n = Ok (b, m4)" "ring_agrees mm m4"
        "mm_scan_hit_start m4 = mm_scan_hit_start m3" "mm_scan_hit_end m4 = mm_scan_hit_end m3"
      unfolding b_def by blast
    have "b" if "unat (mm_scan_hit_start m2) < hi (mm_nodes mm) n"
        "lo (mm_nodes mm) n < unat (mm_scan_hit_end m2)"
      using that nend r1(5,6) by (simp add: b_def word_less_nat_alt lo_def)
    moreover have "\<not> b" if "mm_scan_hit_end m2 = 0" using that r1(6) by (simp add: b_def)
    ultimately show "\<exists>ev' m3. scan_remove_all m2 (added @ [n]) ev = Ok (ev', m3) \<and> ring_agrees mm m3
           \<and> set ev \<subseteq> set ev' \<and> set ev' \<subseteq> set ev \<union> set (added @ [n])
           \<and> mm_scan_hit_start m3 = mm_scan_hit_start m2 \<and> mm_scan_hit_end m3 = mm_scan_hit_end m2
           \<and> (mm_scan_hit_end m2 = 0 \<longrightarrow> ev' = ev)
           \<and> (\<forall>x \<in> set (added @ [n]). unat (mm_scan_hit_start m2) < hi (mm_nodes mm) x
                 \<and> lo (mm_nodes mm) x < unat (mm_scan_hit_end m2) \<longrightarrow> x \<in> set ev')"
      using r1 r2 fl ext
      by (intro exI [of _ "if b then n # ev1 else ev1"] exI [of _ m4])
         (auto simp: scan_remove_all_append)
  qed
qed

lemma undoes_refl: "undoes mm mm []"
  by (simp add: undoes_def)

lemma undoes_agree: "ring_agrees m' m'' \<Longrightarrow> undoes mm m' xs \<Longrightarrow> undoes mm m'' xs"
  unfolding undoes_def using ring_agrees_trans by blast

lemma scan_add_until_ok:
  assumes "ring_ordered mm" and "mm_color_adjust mm = None" and "distinct ns"
    and "set ns \<subseteq> set (mm_node_list mm)" and "\<forall>n \<in> set ns. \<not> nd_scanned_block (mm_nodes mm n)"
  shows "\<exists>hit added mm'. scan_add_until mm ns unwind = Ok (hit, added @ unwind, mm')
     \<and> set added \<subseteq> set ns \<and> same_scan mm mm' \<and> undoes mm mm' added
     \<and> set (mm_node_list mm') = set (mm_node_list mm) - set added
     \<and> (if hit then hit_free mm' else mm_scan_hit_start mm' = mm_scan_hit_start mm
            \<and> mm_scan_hit_end mm' = mm_scan_hit_end mm)"
  using assms
proof (induction ns arbitrary: mm unwind)
  case Nil
  then show ?case by (intro exI [of _ False] exI [of _ "[]"] exI [of _ mm])
      (simp add: same_scan_def undoes_refl)
next
  case (Cons n ns)
  then have "n \<in> set (mm_node_list mm)" and fresh: "\<not> nd_scanned_block (mm_nodes mm n)" by auto
  then obtain pre p post where cut: "Head # mm_node_list mm = pre @ p # n # post" by (elim ring_pred)
  have dist: "distinct (Head # mm_node_list mm)" using Cons.prems(1) by (simp add: ring_ordered_def)
  let ?d = "scan_detach mm n p"
  have nl: "set (mm_node_list ?d) = set (mm_node_list mm) - {n}"
    using dist by (simp add: scan_detach_sel)
  have step: "undoes mm m' (added @ [n])" if "undoes m1 m' added" "ring_agrees ?d m1" for m1 m' added
    by (rule undoes_step [OF Cons.prems(1) cut fresh that(2,1)])
  from cut dist fresh show ?case
  proof (cases rule: scan_add_cases)
    case (hit s e)
    let ?h = "?d\<lparr>mm_scan_hit_start := drm_mm_hole_node_start ?d p,
                 mm_scan_hit_end := drm_mm_hole_node_end ?d p\<rparr>"
    have ordd: "ring_ordered ?d" by (rule detach_ordered [OF Cons.prems(1)])
    have cutd: "Head # mm_node_list ?d = pre @ p # post"
      using remove_ring [OF cut dist] by (simp add: scan_detach_sel)
    have "scan_clip ?h (drm_mm_hole_node_start ?d p, drm_mm_hole_node_end ?d p) =
        clip ?d (scan_lo mm) (scan_hi mm) p"
      by (subst scan_clip_clip) (simp add: scan_lo_def scan_hi_def scan_detach_sel)
    moreover have "clip ?d (scan_lo mm) (scan_hi mm) p = (s, e)"
      using hit(1) Cons.prems(2) by (simp add: color_adjust_def scan_detach_sel)
    ultimately have "hit_free ?h"
      using ordered_cut [OF ordd cutd] hit(2)
      by (auto simp: hit_free_def word_le_nat_alt scan_detach_sel mm_limit_def mm_base_def)
    moreover have "ring_agrees ?d ?h" by (simp add: ring_agrees_def node_agrees_def)
    then have "undoes mm ?h ([] @ [n])"
      using undoes_agree step [OF undoes_refl ring_agrees_refl] by blast
    moreover have "same_scan mm ?h" using detach_same_scan [of mm n p] by (simp add: same_scan_def)
    ultimately show ?thesis
      using hit(3) nl
      by (intro exI [of _ True] exI [of _ "[n]"] exI [of _ ?h]) simp
  next
    case miss
    have fresh': "\<forall>x \<in> set ns. \<not> nd_scanned_block (mm_nodes ?d x)"
      using Cons.prems(3,5) by (auto simp: scan_detach_def Let_def)
    obtain hit added mm' where IH: "scan_add_until ?d ns (n # unwind) = Ok (hit, added @ n # unwind, mm')"
        "set added \<subseteq> set ns" "same_scan ?d mm'" "undoes ?d mm' added"
        "set (mm_node_list mm') = set (mm_node_list ?d) - set added"
        "if hit then hit_free mm' else mm_scan_hit_start mm' = mm_scan_hit_start ?d
            \<and> mm_scan_hit_end mm' = mm_scan_hit_end ?d"
    proof -
      have "set ns \<subseteq> set (mm_node_list ?d)" "distinct ns" "mm_color_adjust ?d = None"
        using Cons.prems(2-4) nl by (auto simp: scan_detach_sel)
      from Cons.IH [OF detach_ordered [OF Cons.prems(1)] this(3,2,1) fresh', of "n # unwind"]
      show ?thesis using that by blast
    qed
    show ?thesis
      using miss IH step [OF IH(4) ring_agrees_refl] nl same_scan_trans [OF detach_same_scan IH(3)]
      by (intro exI [of _ hit] exI [of _ "added @ [n]"] exI [of _ mm'])
         (auto simp: scan_detach_sel)
  qed
qed

text \<open>Bookkeeping on the lists: nothing is added or flagged twice.\<close>

lemma scan_add_until_distinct:
  "scan_add_until mm ns us = Ok (hit, ws, mm') \<Longrightarrow> distinct ns \<Longrightarrow> distinct us \<Longrightarrow>
   set ns \<inter> set us = {} \<Longrightarrow> distinct ws"
proof (induction ns arbitrary: mm us)
  case (Cons n ns)
  then show ?case by (fastforce split: if_splits)
qed simp

lemma scan_remove_all_distinct:
  "scan_remove_all m ns ev = Ok (ev', m') \<Longrightarrow> distinct ns \<Longrightarrow> distinct ev \<Longrightarrow>
   set ns \<inter> set ev = {} \<Longrightarrow> distinct ev'"
proof (induction ns arbitrary: m ev)
  case (Cons n ns)
  then obtain b m1 where rem: "drm_mm_scan_remove_block m n = Ok (b, m1)"
    and rest: "scan_remove_all m1 ns (if b then n # ev else ev) = Ok (ev', m')" by auto
  show ?case by (rule Cons.IH [OF rest]) (use Cons.prems in auto)
qed simp

section \<open>A hit makes room\<close>

text \<open>\<open>room_without mm ev\<close> is \<open>room_at\<close> with the nodes of \<open>ev\<close> not counted.\<close>

definition room_without ::
    "drm_mm \<Rightarrow> nref list \<Rightarrow> u64 \<Rightarrow> u32 \<Rightarrow> u64 \<Rightarrow> u64 \<Rightarrow> nat \<Rightarrow> bool" where
  "room_without mm ev sz al rs re t \<longleftrightarrow>
     mm_base mm \<le> t \<and> t + unat sz \<le> mm_limit mm \<and> unat rs \<le> t \<and> t + unat sz \<le> unat re
   \<and> (al \<noteq> 0 \<longrightarrow> unat al dvd t)
   \<and> (\<forall>x \<in> set (mm_node_list mm) - set ev.
        t + unat sz \<le> lo (mm_nodes mm) x \<or> hi (mm_nodes mm) x \<le> t)"

definition scan_domain :: "drm_mm \<Rightarrow> bool" where
  "scan_domain mm \<longleftrightarrow>
     mm_limit mm + unat (mm_scan_size mm) + 2 ^ 32 \<le> 2 ^ 64
   \<and> unat (scan_lo mm) + unat (mm_scan_size mm) + 2 ^ 32 \<le> 2 ^ 64"

lemma same_scan_range:
  "same_scan a b \<Longrightarrow> scan_lo b = scan_lo a \<and> scan_hi b = scan_hi a \<and> scan_clip b = scan_clip a"
  by (simp add: same_scan_def scan_lo_def scan_hi_def scan_clip_def fun_eq_iff)

lemma scan_clip_cases:
  assumes "scan_clip mm (a, b) = (s, e)"
  shows "unat s = max (unat a) (unat (scan_lo mm))" and "unat e = min (unat b) (unat (scan_hi mm))"
  using assms unat_max_u64 unat_lt_2p64 [of b]
  by (auto simp: scan_clip_def scan_lo_def scan_hi_def word_less_nat_alt max_def min_def split: if_splits)

lemma hit_free_room:
  assumes hit: "hit_free mm'" and same: "same_scan mm mm'" and dom: "scan_domain mm"
    and lim: "mm_limit mm + 2 ^ 32 \<le> 2 ^ 64"
  obtains t where "unat (mm_scan_hit_start mm') \<le> t"
    and "t + unat (mm_scan_size mm) \<le> unat (mm_scan_hit_end mm')"
    and "mm_base mm \<le> t" and "t + unat (mm_scan_size mm) \<le> mm_limit mm"
    and "unat (scan_lo mm) \<le> t" and "t + unat (mm_scan_size mm) \<le> unat (scan_hi mm)"
    and "mm_scan_alignment mm \<noteq> 0 \<Longrightarrow> unat (mm_scan_alignment mm) dvd t"
proof -
  let ?hs = "mm_scan_hit_start mm'" and ?he = "mm_scan_hit_end mm'" and ?sz = "mm_scan_size mm"
  obtain s e where se: "scan_clip mm (?hs, ?he) = (s, e)" by (cases "scan_clip mm (?hs, ?he)")
  have ck: "check_free_hole s e ?sz (mm_scan_alignment mm)" and b: "mm_base mm \<le> unat ?hs"
      "unat ?hs \<le> unat ?he" "unat ?he \<le> mm_limit mm"
    using hit same se same_scan_limit [OF same] same_scan_range [OF same]
    by (auto simp: hit_free_def same_scan_def word_le_nat_alt)
  note cl = scan_clip_cases [OF se]
  have d: "mm_limit mm + unat ?sz + 2 ^ 32 \<le> 2 ^ 64" "unat (scan_lo mm) + unat ?sz + 2 ^ 32 \<le> 2 ^ 64"
    using dom by (auto simp: scan_domain_def)
  have s32: "unat s + 2 ^ 32 \<le> 2 ^ 64" and sz32: "unat s + unat ?sz + 2 ^ 32 \<le> 2 ^ 64"
    using cl(1) b d by (auto simp: max_def split: if_splits)
  have e32: "unat e + 2 ^ 32 \<le> 2 ^ 64" using cl(2) b lim by (auto simp: min_def split: if_splits)
  let ?t = "unat (align_start s (mm_scan_alignment mm))"
  have up: "?t + unat ?sz \<le> unat e" by (rule check_free_hole_sound(1) [OF ck s32 e32]) (use sz32 in blast)
  have dn: "unat s \<le> ?t" by (rule align_start_ge [OF s32])
  show ?thesis
    by (rule that [of ?t])
       (use up dn cl b align_start_dvd [OF s32] in \<open>auto simp: max_def min_def split: if_splits\<close>)
qed

theorem scan_hit_makes_room:
  assumes wf: "mm_wf mm" and nc: "mm_color_adjust mm = None" and dom: "scan_domain mm"
    and sz: "0 < mm_scan_size mm"
    and ns: "distinct ns" "set ns \<subseteq> set (mm_node_list mm)"
    and run: "scan_add_until mm ns [] = Ok (True, added, mm1)"
  shows "\<exists>ev mm2 t. scan_remove_all mm1 added [] = Ok (ev, mm2) \<and> ring_agrees mm mm2
     \<and> set ev \<subseteq> set ns
     \<and> room_without mm ev (mm_scan_size mm) (mm_scan_alignment mm) (scan_lo mm) (scan_hi mm) t"
proof -
  have fresh: "\<forall>n \<in> set ns. \<not> nd_scanned_block (mm_nodes mm n)"
    using ns(2) mm_wfD(6) [OF wf] by (auto simp: not_scanned_def)
  from scan_add_until_ok [OF wf_ring_ordered [OF wf] nc ns fresh, of "[]"] run
  have sub: "set added \<subseteq> set ns" and same: "same_scan mm mm1" and un: "undoes mm mm1 added"
    and nl: "set (mm_node_list mm1) = set (mm_node_list mm) - set added" and hit: "hit_free mm1"
    by auto
  obtain ev mm2 where rem: "scan_remove_all mm1 added [] = Ok (ev, mm2)" "ring_agrees mm mm2"
      "set ev \<subseteq> set added"
      and fl: "\<forall>x \<in> set added. unat (mm_scan_hit_start mm1) < hi (mm_nodes mm) x
                 \<and> lo (mm_nodes mm) x < unat (mm_scan_hit_end mm1) \<longrightarrow> x \<in> set ev"
    using un ring_agrees_refl [of mm1] unfolding undoes_def
    by (metis (no_types, lifting) list.set(1) Un_empty_left)
  obtain t where t: "unat (mm_scan_hit_start mm1) \<le> t"
      "t + unat (mm_scan_size mm) \<le> unat (mm_scan_hit_end mm1)"
      "mm_base mm \<le> t" "t + unat (mm_scan_size mm) \<le> mm_limit mm"
      "unat (scan_lo mm) \<le> t" "t + unat (mm_scan_size mm) \<le> unat (scan_hi mm)"
      "mm_scan_alignment mm \<noteq> 0 \<Longrightarrow> unat (mm_scan_alignment mm) dvd t"
    using hit_free_room [OF hit same dom mm_wfD(3) [OF wf]] by metis
  have "t + unat (mm_scan_size mm) \<le> lo (mm_nodes mm) x \<or> hi (mm_nodes mm) x \<le> t"
    if x: "x \<in> set (mm_node_list mm)" "x \<notin> set ev" for x
  proof (cases "x \<in> set added")
    case True
    then have "hi (mm_nodes mm) x \<le> unat (mm_scan_hit_start mm1)
        \<or> unat (mm_scan_hit_end mm1) \<le> lo (mm_nodes mm) x"
      using fl x(2) by force
    with t show ?thesis by auto
  next
    case False
    then have "x \<in> set (mm_node_list mm1)" using nl x(1) by blast
    then have "hi (mm_nodes mm) x \<le> unat (mm_scan_hit_start mm1)
        \<or> unat (mm_scan_hit_end mm1) \<le> lo (mm_nodes mm) x"
      using hit same by (auto simp: hit_free_def same_scan_def)
    with t show ?thesis by auto
  qed
  then have "room_without mm ev (mm_scan_size mm) (mm_scan_alignment mm) (scan_lo mm) (scan_hi mm) t"
    using t by (auto simp: room_without_def)
  with rem sub show ?thesis by blast
qed

text \<open>A scan without a hit is undone without a trace.\<close>

lemma scan_miss_restores:
  assumes wf: "mm_wf mm" and nc: "mm_color_adjust mm = None"
    and ns: "distinct ns" "set ns \<subseteq> set (mm_node_list mm)"
    and run: "scan_add_until mm ns [] = Ok (False, added, mm1)" and clear: "mm_scan_hit_end mm = 0"
  shows "\<exists>mm2. scan_remove_all mm1 added [] = Ok ([], mm2) \<and> ring_agrees mm mm2"
proof -
  have fresh: "\<forall>n \<in> set ns. \<not> nd_scanned_block (mm_nodes mm n)"
    using ns(2) mm_wfD(6) [OF wf] by (auto simp: not_scanned_def)
  from scan_add_until_ok [OF wf_ring_ordered [OF wf] nc ns fresh, of "[]"] run
  have "undoes mm mm1 added" "mm_scan_hit_end mm1 = 0" using clear by auto
  then show ?thesis using ring_agrees_refl [of mm1] unfolding undoes_def by blast
qed

end
