(* ===== verification/Drm_Mm_Claims.thy ===== *)
theory Drm_Mm_Claims
  imports Range_Manager Drm_Mm_Scan
begin

text \<open>
  The properties of \<^verbatim>\<open>drm/drm_mm.c\<close>, each with an instance on a concrete allocator of 64 KiB
  at address 4096: what initialisation, insertion, removal, replacement, the eviction scan and
  the debug table promise, and that every allocator reached by them is well-formed.
\<close>

section \<open>Initialisation\<close>

lemma init_sel [simp]:
  "mm_node_list (drm_mm_init mm start sz) = []"
  "mm_hole_stack (drm_mm_init mm start sz) = [Head]"
  "mm_scanned_blocks (drm_mm_init mm start sz) = 0"
  "mm_color_adjust (drm_mm_init mm start sz) = None"
  "nd_start (mm_nodes (drm_mm_init mm start sz) Head) = start + sz"
  "nd_size (mm_nodes (drm_mm_init mm start sz) Head) = start - (start + sz)"
  "nd_hole_follows (mm_nodes (drm_mm_init mm start sz) Head)"
  "r \<noteq> Head \<Longrightarrow> mm_nodes (drm_mm_init mm start sz) r = mm_nodes mm r"
  by (simp_all add: drm_mm_init_def)

lemma init_ok:
  assumes "0 < sz" and "unat start + unat sz + 2 ^ 32 \<le> 2 ^ 64"
  shows "mm_ok (drm_mm_init mm start sz)"
    and "mm_area (drm_mm_init mm start sz) = {unat start ..< unat start + unat sz}"
    and "mm_held (drm_mm_init mm start sz) = {}"
proof -
  have sum: "unat (start + sz) = unat start + unat sz" using assms(2) by (simp add: unat_add_u64)
  have pos: "0 < unat sz" using assms(1) by (simp add: word_gt_0 unat_gt_0)
  have lim: "mm_limit (drm_mm_init mm start sz) = unat start + unat sz"
    and base: "hi (mm_nodes (drm_mm_init mm start sz)) Head = unat start"
    by (simp_all add: mm_limit_def lo_def hi_def sum)
  then show "mm_area (drm_mm_init mm start sz) = {unat start ..< unat start + unat sz}"
    by (simp add: mm_area_def mm_base_def)
  show "mm_ok (drm_mm_init mm start sz)"
    using assms(2) pos by (auto simp: mm_ok_def mm_wf_def lim base link_ok_def)
  show "mm_held (drm_mm_init mm start sz) = {}" by (simp add: mm_held_def)
qed

section \<open>Allocators that a client can reach\<close>


lemma replace_held:
  assumes "mm_ok mm" and "old \<in> mm_held mm" and "new \<notin> insert Head (mm_held mm)"
  shows "mm_held (drm_mm_replace_node mm old new) = insert new (mm_held mm - {old})"
    and "mm_area (drm_mm_replace_node mm old new) = mm_area mm"
    and "mm_span (drm_mm_replace_node mm old new) new = mm_span mm old"
    and "x \<noteq> new \<Longrightarrow> mm_span (drm_mm_replace_node mm old new) x = mm_span mm x"
  using assms
  by (auto simp: mm_held_def mm_area_def mm_base_def mm_limit_def mm_span_def lo_def hi_def
      drm_mm_replace_node_def Let_def replace_in_def)

lemma replace_mm_ok:
  assumes "mm_ok mm" and "old \<in> mm_held mm" and "new \<notin> insert Head (mm_held mm)"
    and "not_scanned (mm_nodes mm new)"
  shows "mm_ok (drm_mm_replace_node mm old new)"
proof -
  have "mm_wf (drm_mm_replace_node mm old new)"
    using assms by (intro replace_node_wf) (auto simp: mm_ok_def mm_held_def)
  moreover have "mm_color_adjust (drm_mm_replace_node mm old new) = mm_color_adjust mm"
    by (simp add: drm_mm_replace_node_def Let_def)
  ultimately show ?thesis using assms(1) by (simp add: mm_ok_def)
qed


section \<open>The example allocator\<close>

definition blank_mm :: drm_mm where
  "blank_mm = \<lparr>mm_hole_stack = [], mm_node_list = [], mm_nodes = (\<lambda>_. zero_node),
     mm_unused_nodes = [], mm_num_unused = 0, mm_scan_check_range = False, mm_scan_alignment = 0,
     mm_scan_color = 0, mm_scan_size = 0, mm_scan_hit_start = 0, mm_scan_hit_end = 0,
     mm_scanned_blocks = 0, mm_scan_start = 0, mm_scan_end = 0, mm_prev_scanned_node = None,
     mm_color_adjust = None\<rparr>"

definition mm64k :: drm_mm where
  "mm64k = drm_mm_init blank_mm 4096 65536"

lemma mm64k_ok: "mm_ok mm64k" "mm_area mm64k = {4096 ..< 69632}" "mm_held mm64k = {}"
  unfolding mm64k_def using init_ok [of 65536 4096 blank_mm] by simp_all

lemma mm64k_sel [simp]:
  "mm_node_list mm64k = []" "mm_hole_stack mm64k = [Head]" "mm_color_adjust mm64k = None"
  "mm_scanned_blocks mm64k = 0" "mm_limit mm64k = 69632"
  "nd_start (mm_nodes mm64k Head) = 69632" "nd_size (mm_nodes mm64k Head) = - 65536"
  "nd_hole_follows (mm_nodes mm64k Head)" "mm_nodes mm64k (Node i) = zero_node"
  by (simp_all add: mm64k_def blank_mm_def mm_limit_def lo_def)

lemma mm64k_domain:
  "insert_domain mm64k (Node i) 8192 0"
  by (simp add: insert_domain_def not_scanned_def zero_node_def)

text \<open>One node of 8 KiB, aligned to 4096, is placed at the start.\<close>

lemma mm64k_insert:
  "\<exists>mm. drm_mm_insert_node_in_range mm64k (Node i) 8192 4096 0 (- 1) = Ok mm \<and> mm_ok mm
     \<and> mm_held mm = {Node i} \<and> nd_size (mm_nodes mm (Node i)) = 8192
     \<and> (\<forall>j. j \<noteq> i \<longrightarrow> mm_nodes mm (Node j) = zero_node) \<and> mm_limit mm = 69632"
proof -
  have "\<exists>mm. drm_mm_insert_node_in_range mm64k (Node i) 8192 4096 0 (- 1) = Ok mm
     \<and> nd_size (mm_nodes mm (Node i)) = 8192
     \<and> (\<forall>j. j \<noteq> i \<longrightarrow> mm_nodes mm (Node j) = zero_node) \<and> mm_limit mm = 69632"
    by (simp add: drm_mm_insert_node_in_range_def drm_mm_insert_node_in_range_generic_def
        drm_mm_search_free_in_range_generic_def color_adjust_def drm_mm_hole_node_start_def
        drm_mm_hole_node_end_def check_free_hole_def align_start_def Let_def
        drm_mm_insert_helper_range_def zero_node_def mm_limit_def lo_def)
  then obtain mm where m: "drm_mm_insert_node_in_range mm64k (Node i) 8192 4096 0 (- 1) = Ok mm"
     "nd_size (mm_nodes mm (Node i)) = 8192" "\<forall>j. j \<noteq> i \<longrightarrow> mm_nodes mm (Node j) = zero_node"
     "mm_limit mm = 69632" by blast
  then show ?thesis
    using mm.alloc_grants [OF mm64k_ok(1) mm64k_domain m(1)] mm64k_ok(3) by auto
qed

text \<open>The same allocator filled by one node, for the scans.\<close>

definition mm_full :: drm_mm where
  "mm_full = place mm64k Head (Node 1) 4096 65536 0"

lemma mm_full_insert: "drm_mm_insert_node_in_range mm64k (Node 1) 65536 0 0 (- 1) = Ok mm_full"
  by (simp add: drm_mm_insert_node_in_range_def drm_mm_insert_node_in_range_generic_def
      drm_mm_search_free_in_range_generic_def color_adjust_def drm_mm_hole_node_start_def
      drm_mm_hole_node_end_def check_free_hole_def align_start_def Let_def upd_node_def
      drm_mm_insert_helper_range_def zero_node_def mm_full_def place_def)

lemma mm_full_ok: "mm_ok mm_full" "mm_held mm_full = {Node 1}"
proof -
  have d: "insert_domain mm64k (Node 1) 65536 0"
    by (simp add: insert_domain_def not_scanned_def zero_node_def)
  show "mm_ok mm_full" "mm_held mm_full = {Node 1}"
    using mm.alloc_grants [OF mm64k_ok(1) d mm_full_insert] mm64k_ok(3) by auto
qed

lemma mm_full_sel:
  "mm_node_list mm_full = [Node 1]" "mm_hole_stack mm_full = []" "mm_limit mm_full = 69632"
  "mm_color_adjust mm_full = None" "mm_scanned_blocks mm_full = 0"
  "nd_start (mm_nodes mm_full Head) = 69632" "nd_size (mm_nodes mm_full Head) = - 65536"
  "nd_start (mm_nodes mm_full (Node 1)) = 4096" "nd_size (mm_nodes mm_full (Node 1)) = 65536"
  "\<not> nd_scanned_block (mm_nodes mm_full (Node 1))"
  by (simp_all add: mm_full_def place_def drm_mm_hole_node_start_def drm_mm_hole_node_end_def
      mm_limit_def lo_def zero_node_def)

lemma mm_full_add:
  "\<exists>mm1. drm_mm_scan_add_block (drm_mm_init_scan_with_range mm_full 8192 4096 0 0 65536) (Node 1) = Ok (True, mm1)"
  "\<exists>mm1. drm_mm_scan_add_block (drm_mm_init_scan_with_range mm_full 8192 4096 0 0 8192) (Node 1) = Ok (False, mm1)"
  by (simp_all add: drm_mm_scan_add_block_def drm_mm_init_scan_with_range_def scan_detach_def Let_def
      scan_clip_def color_adjust_def check_free_hole_def align_start_def drm_mm_hole_node_start_def
      drm_mm_hole_node_end_def mm_full_sel prev_of_def upd_node_def
      del: One_nat_def)

lemma mm_full_scan:
  "\<exists>mm1. scan_add_until (drm_mm_init_scan_with_range mm_full 8192 4096 0 0 65536) [Node 1] [] =
     Ok (True, [Node 1], mm1)"
  "\<exists>mm1. scan_add_until (drm_mm_init_scan_with_range mm_full 8192 4096 0 0 8192) [Node 1] [] =
     Ok (False, [Node 1], mm1)"
  using mm_full_add by auto

section \<open>Lemmas for the properties\<close>

lemma insert_as_generic:
  "drm_mm_insert_node_in_range mm n sz al rs re = drm_mm_insert_node_in_range_generic mm n sz al 0 rs re"
  by (simp add: drm_mm_insert_node_in_range_def)

text \<open>The bytes a removed node occupied can be taken again, exactly.\<close>

lemma remove_room_at:
  assumes ok: "mm_ok mm" and n: "n \<in> mm_held mm" and rm: "drm_mm_remove_node mm n = Ok mm'"
  defines "s \<equiv> nd_start (mm_nodes mm n)" and "k \<equiv> nd_size (mm_nodes mm n)"
  shows "room_at mm' k 0 s (s + k) (unat s)" and "0 < k" and "unat (s + k) = unat s + unat k"
proof -
  have wf: "mm_wf mm" "n \<in> set (mm_node_list mm)" using ok n by (auto simp: mm_ok_def mm_held_def)
  have r: "room_at mm' k 0 0 (- 1) (unat s)"
    using remove_node_room [OF wf rm] by (simp add: s_def k_def lo_def)
  have b: "unat s < unat (s + k)" using wf_extent(2) [OF wf] by (simp add: lo_def hi_def s_def k_def)
  then show sum: "unat (s + k) = unat s + unat k" by (rule unat_add_no_wrap)
  then show "0 < k" using b by (auto simp: word_gt_0)
  show "room_at mm' k 0 s (s + k) (unat s)" using r sum by (auto simp: room_at_def)
qed

text \<open>The ring after an insertion, and without the inserted node again.\<close>

lemma insert_helper_node_list:
  "drm_mm_insert_helper_range mm r n sz al col rs re = Ok mm' \<Longrightarrow>
   mm_node_list mm' = list_add Head (mm_node_list mm) r n"
  by (auto simp: drm_mm_insert_helper_range_def Let_def split: if_splits prod.splits)

lemma insert_node_list:
  assumes "drm_mm_insert_node_in_range_generic mm n sz al col rs re = Ok mm'"
  shows "\<exists>hole. mm_node_list mm' = list_add Head (mm_node_list mm) hole n"
proof -
  obtain r where "drm_mm_insert_helper_range mm r n sz al col rs re = Ok mm'"
    using assms by (auto simp: drm_mm_insert_node_in_range_generic_def split: option.splits)
  then show ?thesis using insert_helper_node_list by blast
qed

lemma remove_insert_after: "n \<notin> set xs \<Longrightarrow> remove1 n (insert_after xs p n) = xs"
  by (induction xs) (auto simp: remove1_idem)

lemma remove_list_add: "n \<notin> set xs \<Longrightarrow> remove1 n (list_add h xs p n) = xs"
  by (simp add: list_add_def remove_insert_after)

text \<open>The totals of the debug table telescope around the ring.\<close>

lemma debug_nodes_total:
  assumes "mm_wf mm" and "Head # mm_node_list mm = pre @ r # rs"
  shows "fst (debug_nodes mm rs (u, f)) + snd (debug_nodes mm rs (u, f)) =
     u + f + (nd_start (mm_nodes mm Head) - drm_mm_hole_node_end mm r)"
  using assms(2)
proof (induction rs arbitrary: pre r u f)
  case Nil
  then show ?case
    using next_of_ring [OF Nil.prems] mm_wfD(1) [OF assms(1)] by (simp add: drm_mm_hole_node_end_def)
next
  case (Cons s rs)
  have cut: "Head # mm_node_list mm = (pre @ [r]) @ s # rs" using Cons.prems by simp
  have e: "drm_mm_hole_node_end mm r = nd_start (mm_nodes mm s)"
    using next_of_ring [OF Cons.prems mm_wfD(1) [OF assms(1)]] by (simp add: drm_mm_hole_node_end_def)
  have flag: "nd_hole_follows (mm_nodes mm s) \<or> drm_mm_hole_node_end mm s = drm_mm_hole_node_start mm s"
    using mm_wf_ring(1) [OF assms(1) cut] hole_in_nat [OF assms(1) cut]
    by (auto simp: link_ok_def word_unat_eq_iff)
  let ?u = "u + nd_size (mm_nodes mm s)"
  let ?f = "if nd_hole_follows (mm_nodes mm s)
            then f + (drm_mm_hole_node_end mm s - drm_mm_hole_node_start mm s) else f"
  have "fst (debug_nodes mm (s # rs) (u, f)) + snd (debug_nodes mm (s # rs) (u, f)) =
      ?u + ?f + (nd_start (mm_nodes mm Head) - drm_mm_hole_node_end mm s)"
    using Cons.IH [OF cut] by simp
  also have "?u + ?f = u + f + (drm_mm_hole_node_end mm s - nd_start (mm_nodes mm s))"
    using flag by (auto simp: drm_mm_hole_node_start_def algebra_simps)
  finally show ?case using e by (simp add: algebra_simps)
qed

lemma clean_list: "distinct (Head # mm_node_list mm) \<Longrightarrow> drm_mm_clean mm \<longleftrightarrow> length (mm_node_list mm) \<le> 1"
  by (cases "mm_node_list mm" rule: remdups_adj.cases)
     (auto simp: drm_mm_clean_def next_of_def)

section \<open>The pool\<close>

definition pool_ok :: "drm_mm \<Rightarrow> bool" where
  "pool_ok mm \<longleftrightarrow> mm_num_unused mm = int (length (mm_unused_nodes mm))"

lemma pre_get_pool:
  "pool_ok mm \<Longrightarrow> drm_mm_pre_get kz mm = (r, mm') \<Longrightarrow>
   pool_ok mm' \<and> (r = None \<longleftrightarrow> 2 \<le> mm_num_unused mm') \<and> (r \<noteq> None \<longrightarrow> r = Some ENOMEM)
   \<and> mm_num_unused mm \<le> mm_num_unused mm' \<and> mm_num_unused mm' \<le> max (mm_num_unused mm) MM_UNUSED_TARGET
   \<and> mm_node_list mm' = mm_node_list mm \<and> mm_hole_stack mm' = mm_hole_stack mm"
proof (induction kz mm rule: drm_mm_pre_get.induct)
  case (1 kz mm)
  show ?case
  proof (cases "mm_num_unused mm < MM_UNUSED_TARGET")
    case False
    then show ?thesis using "1.prems" by (auto simp: drm_mm_pre_get.simps [of kz mm] MM_UNUSED_TARGET_def)
  next
    case True
    show ?thesis
    proof (cases "kz (mm_num_unused mm)")
      case None
      then show ?thesis using "1.prems" True
        by (auto simp: drm_mm_pre_get.simps [of kz mm] MM_UNUSED_TARGET_def split: if_splits)
    next
      case (Some n)
      let ?m = "(upd_node n (\<lambda>_. zero_node) mm)\<lparr>mm_num_unused := mm_num_unused mm + 1,
                 mm_unused_nodes := mm_unused_nodes mm @ [n]\<rparr>"
      have "pool_ok ?m" using "1.prems"(1) by (simp add: pool_ok_def)
      moreover have "drm_mm_pre_get kz ?m = (r, mm')"
        using "1.prems"(2) True Some by (simp add: drm_mm_pre_get.simps [of kz mm])
      ultimately show ?thesis using "1.IH" [OF True Some] True by (auto simp: MM_UNUSED_TARGET_def)
    qed
  qed
qed

lemma kmalloc_pool:
  assumes "pool_ok mm" and "0 < mm_num_unused mm"
  shows "\<exists>n mm'. drm_mm_kmalloc mm kz = (Some n, mm') \<and> pool_ok mm'
     \<and> mm_num_unused mm - 1 \<le> mm_num_unused mm'"
proof (cases kz)
  case None
  obtain n ns where "mm_unused_nodes mm = n # ns" using assms by (cases "mm_unused_nodes mm") (auto simp: pool_ok_def)
  with None assms show ?thesis by (simp add: drm_mm_kmalloc_def pool_ok_def)
next
  case (Some n)
  with assms show ?thesis by (simp add: drm_mm_kmalloc_def pool_ok_def)
qed

lemma drm_mm_insert_at_room:
  assumes "mm_ok mm" and "insert_domain mm n sz rs" and "room_at mm sz al rs re t"
  shows "\<exists>mm'. drm_mm_insert_node_in_range_generic mm n sz al col rs re = Ok mm'
      \<and> mm_wf mm' \<and> inserted mm mm' n sz al col rs re"
proof -
  have mm: "mm_wf mm" "mm_color_adjust mm = None" using assms(1) by (auto simp: mm_ok_def)
  have "0 < sz" using assms(2) by (simp add: insert_domain_def)
  then have "\<exists>r \<in> set (mm_hole_stack mm). hole_fits mm sz al col rs re r"
    by (rule room_fits [OF mm _ assms(3)])
  then show ?thesis
    using insert_range_result [OF mm(1) assms(2) color_shrinks_None [OF mm(2)], of al col re] by blast
qed

section \<open>The properties\<close>



text \<open>C2: an insertion in a range either returns ENOSPC or places the node in the requested
  range, aligned, with the size and colour asked for, on bytes no other node has, keeping
  every other extent and the invariant; it never panics, for any colour callback that only
  shrinks holes.\<close>

theorem drm_mm_insert_in_range_correct:
  assumes "mm_wf mm" and "insert_domain mm n sz rs" and "color_shrinks mm col rs re"
  shows "drm_mm_insert_node_in_range_generic mm n sz al col rs re = Err ENOSPC
    \<or> (\<exists>mm'. drm_mm_insert_node_in_range_generic mm n sz al col rs re = Ok mm' \<and> mm_wf mm'
         \<and> inserted mm mm' n sz al col rs re
         \<and> (\<forall>x \<in> mm_held mm. mm_span mm' n \<inter> mm_span mm x = {}))"
proof -
  have "mm_span mm' n \<inter> mm_span mm x = {}"
    if "mm_wf mm'" and "inserted mm mm' n sz al col rs re" and "x \<in> mm_held mm" for mm' x
  proof -
    have "x \<noteq> n" "x \<in> set (mm_node_list mm')" "n \<in> set (mm_node_list mm')"
      using that(2,3) assms(2) by (auto simp: inserted_def mm_held_def insert_domain_def)
    then have "hi (mm_nodes mm') x \<le> lo (mm_nodes mm') n \<or> hi (mm_nodes mm') n \<le> lo (mm_nodes mm') x"
      using wf_disjoint that(1) by blast
    then have "mm_span mm' n \<inter> mm_span mm' x = {}" by (auto simp: mm_span_def)
    with inserted_span [OF that(2) \<open>x \<noteq> n\<close>] show ?thesis by simp
  qed
  then show ?thesis using insert_range_result [OF assms, of al] by blast
qed

lemma drm_mm_insert_in_range_correct_witness:
  "\<exists>mm'. drm_mm_insert_node_in_range_generic mm64k (Node 1) 8192 4096 0 0 (- 1) = Ok mm' \<and> mm_wf mm'"
  using drm_mm_insert_in_range_correct [OF _ mm64k_domain [of 1] color_shrinks_None, of 0 "- 1" 4096]
    mm64k_ok(1) mm64k_insert [of 1]
  by (auto simp: mm_ok_def insert_as_generic)

text \<open>C3: the search is complete: while some aligned interval of the requested range touches no
  node, an insertion without a colour callback succeeds.\<close>

theorem drm_mm_insert_complete:
  assumes "mm_ok mm" and "insert_domain mm n sz rs" and "room_at mm sz al rs re t"
  shows "\<exists>mm'. drm_mm_insert_node_in_range_generic mm n sz al col rs re = Ok mm'
      \<and> mm_wf mm' \<and> inserted mm mm' n sz al col rs re"
  by (rule drm_mm_insert_at_room [OF assms])

lemma drm_mm_insert_complete_witness:
  "\<exists>mm'. drm_mm_insert_node_in_range_generic mm64k (Node 1) 8192 4096 0 0 20480 = Ok mm'
     \<and> inserted mm64k mm' (Node 1) 8192 4096 0 0 20480"
proof -
  have "room_at mm64k 8192 4096 0 20480 8192"
    using mm64k_ok(2) by (simp add: room_at_def mm_base_def hi_def)
  then show ?thesis
    using drm_mm_insert_complete [OF mm64k_ok(1) mm64k_domain [of 1]] by blast
qed

text \<open>C4: removing a node keeps the invariant and the other extents, and frees exactly its
  bytes: a fresh node of the same size can be inserted at the same address at once.\<close>

theorem drm_mm_remove_frees:
  assumes "mm_ok mm" and "n \<in> mm_held mm" and "new \<notin> insert Head (mm_held mm)"
    and "\<not> nd_allocated (mm_nodes mm new)" and "not_scanned (mm_nodes mm new)"
    and "mm_limit mm + unat (nd_size (mm_nodes mm n)) + 2 ^ 32 \<le> 2 ^ 64"
  shows "\<exists>mm' mm''. drm_mm_remove_node mm n = Ok mm' \<and> mm_wf mm' \<and> mm_held mm' = mm_held mm - {n}
     \<and> (\<forall>x \<in> mm_held mm'. mm_span mm' x = mm_span mm x)
     \<and> drm_mm_insert_node_in_range mm' new (nd_size (mm_nodes mm n)) 0 (nd_start (mm_nodes mm n))
          (nd_start (mm_nodes mm n) + nd_size (mm_nodes mm n)) = Ok mm''
     \<and> mm_span mm'' new = mm_span mm n"
proof -
  let ?s = "nd_start (mm_nodes mm n)" and ?k = "nd_size (mm_nodes mm n)"
  have wf: "mm_wf mm" "n \<in> set (mm_node_list mm)" using assms(1,2) by (auto simp: mm_ok_def mm_held_def)
  obtain r mm' where rm: "drm_mm_remove_node mm n = Ok mm'" and mm': "mm' = unplace mm r n"
    using remove_node_ok [OF wf] by metis
  have p: "mm_ok mm'" "mm_held mm' = mm_held mm - {n}" "mm_area mm' = mm_area mm"
      "\<forall>x \<in> mm_held mm'. mm_span mm' x = mm_span mm x"
    using mm.release_ok [OF assms(1,2)] rm by auto
  note room = remove_room_at [OF assms(1,2) rm]
  have lim: "mm_limit mm' = mm_limit mm" using mm' by (auto simp: mm_limit_def lo_def unplace_def)
  have "lo (mm_nodes mm) n \<le> mm_limit mm" using wf_extent(2,3) [OF wf] by simp
  then have "insert_domain mm' new ?k ?s"
    using assms(2-6) p(2) lim room(2) mm'
    by (auto simp: insert_domain_def mm_held_def unplace_def lo_def not_scanned_def)
  then obtain mm'' where i: "drm_mm_insert_node_in_range_generic mm' new ?k 0 0 ?s (?s + ?k) = Ok mm''"
      "inserted mm' mm'' new ?k 0 0 ?s (?s + ?k)"
    using drm_mm_insert_at_room [OF p(1) _ room(1)] by blast
  have "mm_span mm'' new = mm_span mm n"
    using i(2) room(3) by (auto simp: inserted_def mm_span_def lo_def hi_def)
  with rm p i(1) show ?thesis unfolding mm_ok_def insert_as_generic by blast
qed

lemma drm_mm_remove_frees_witness:
  "\<exists>mm mm' mm''. mm_held mm = {Node 1} \<and> drm_mm_remove_node mm (Node 1) = Ok mm'
     \<and> drm_mm_insert_node_in_range mm' (Node 2) 8192 0 (nd_start (mm_nodes mm (Node 1)))
          (nd_start (mm_nodes mm (Node 1)) + 8192) = Ok mm''
     \<and> mm_span mm'' (Node 2) = mm_span mm (Node 1)"
proof -
  obtain mm where m: "mm_ok mm" "mm_held mm = {Node 1}" "nd_size (mm_nodes mm (Node 1)) = 8192"
      "mm_nodes mm (Node 2) = zero_node" "mm_limit mm = 69632"
    using mm64k_insert [of 1] by auto
  then show ?thesis
    using drm_mm_remove_frees [of mm "Node 1" "Node 2"]
    by (auto simp: zero_node_def not_scanned_def)
qed

text \<open>inserting a node and removing it again gives back the ring: the same nodes at the same
  extents, and the same set of holes.\<close>

theorem drm_mm_insert_remove_roundtrip:
  assumes "mm_ok mm" and "insert_domain mm n sz rs"
    and "drm_mm_insert_node_in_range mm n sz al rs re = Ok mm'"
  shows "\<exists>mm''. drm_mm_remove_node mm' n = Ok mm'' \<and> mm_wf mm'' \<and> mm_node_list mm'' = mm_node_list mm
     \<and> (\<forall>x \<in> mm_held mm. mm_span mm'' x = mm_span mm x)
     \<and> set (mm_hole_stack mm'') = set (mm_hole_stack mm)"
proof -
  have wf: "mm_wf mm" "mm_color_adjust mm = None" using assms(1) by (auto simp: mm_ok_def)
  have i: "drm_mm_insert_node_in_range_generic mm n sz al 0 rs re = Ok mm'"
    using assms(3) by (simp only: insert_as_generic)
  have w': "mm_wf mm'" and ins: "inserted mm mm' n sz al 0 rs re"
    using insert_range_result [OF wf(1) assms(2) color_shrinks_None [OF wf(2)], of al 0 re] i by simp_all
  have n: "n \<in> set (mm_node_list mm')" "n \<notin> set (Head # mm_node_list mm)"
    using ins assms(2) by (auto simp: inserted_def insert_domain_def)
  obtain r mm'' where rm: "drm_mm_remove_node mm' n = Ok mm''" "mm_wf mm''" "mm'' = unplace mm' r n"
    and e: "\<And>x. nd_start (mm_nodes mm'' x) = nd_start (mm_nodes mm' x)
              \<and> nd_size (mm_nodes mm'' x) = nd_size (mm_nodes mm' x)"
    using remove_node_ok [OF w' n(1)] by metis
  have nl: "mm_node_list mm'' = mm_node_list mm"
    using insert_node_list [OF i] n(2) rm(3) remove_list_add [of n] by auto
  have same: "nd_start (mm_nodes mm'' x) = nd_start (mm_nodes mm x)
      \<and> nd_size (mm_nodes mm'' x) = nd_size (mm_nodes mm x)" if "x \<in> set (Head # mm_node_list mm)" for x
  proof -
    have "x \<noteq> n" using that n(2) by blast
    with ins e show ?thesis by (simp add: inserted_def)
  qed
  have "set (mm_hole_stack mm'') = set (mm_hole_stack mm)"
    by (rule set_filter_wf_stack [OF wf(1) rm(2) nl same])
  then show ?thesis
    using rm(1,2) nl same by (auto simp: mm_held_def mm_span_def lo_def hi_def)
qed

lemma drm_mm_insert_remove_roundtrip_witness:
  "\<exists>mm mm'. drm_mm_insert_node_in_range mm64k (Node 1) 8192 4096 0 (- 1) = Ok mm
     \<and> drm_mm_remove_node mm (Node 1) = Ok mm' \<and> mm_node_list mm' = []"
proof -
  obtain mm where m: "drm_mm_insert_node_in_range mm64k (Node 1) 8192 4096 0 (- 1) = Ok mm"
    using mm64k_insert [of 1] by auto
  then show ?thesis
    using drm_mm_insert_remove_roundtrip [OF mm64k_ok(1) mm64k_domain m] by auto
qed

text \<open>replacing a node hands its extent to the new node, leaves every other extent alone and
  keeps the ring well-formed, hole stack included.\<close>

theorem drm_mm_replace_node_transfers:
  assumes "mm_ok mm" and "old \<in> mm_held mm" and "new \<notin> insert Head (mm_held mm)"
    and "not_scanned (mm_nodes mm new)"
  shows "mm_wf (drm_mm_replace_node mm old new)
    \<and> mm_held (drm_mm_replace_node mm old new) = insert new (mm_held mm - {old})
    \<and> mm_span (drm_mm_replace_node mm old new) new = mm_span mm old
    \<and> mm_area (drm_mm_replace_node mm old new) = mm_area mm
    \<and> (\<forall>x. x \<noteq> new \<longrightarrow> mm_span (drm_mm_replace_node mm old new) x = mm_span mm x)
    \<and> drm_mm_node_allocated (drm_mm_replace_node mm old new) new
    \<and> \<not> drm_mm_node_allocated (drm_mm_replace_node mm old new) old"
proof -
  have "old \<noteq> new" using assms(2,3) by auto
  then have "drm_mm_node_allocated (drm_mm_replace_node mm old new) new"
      "\<not> drm_mm_node_allocated (drm_mm_replace_node mm old new) old"
    by (simp_all add: drm_mm_node_allocated_def drm_mm_replace_node_def Let_def)
  then show ?thesis
    using replace_mm_ok [OF assms] replace_held [OF assms(1-3)] by (auto simp: mm_ok_def)
qed

lemma drm_mm_replace_node_transfers_witness:
  "\<exists>mm. mm_held mm = {Node 1} \<and> mm_wf (drm_mm_replace_node mm (Node 1) (Node 2))
     \<and> mm_held (drm_mm_replace_node mm (Node 1) (Node 2)) = {Node 2}"
proof -
  obtain mm where m: "mm_ok mm" "mm_held mm = {Node 1}" "mm_nodes mm (Node 2) = zero_node"
    using mm64k_insert [of 1] by auto
  then show ?thesis
    using drm_mm_replace_node_transfers [of mm "Node 1" "Node 2"]
    by (auto simp: zero_node_def not_scanned_def)
qed

text \<open>C5: when the scan reports a hit, removing the scanned blocks in reverse order restores the
  ring exactly and flags a set of blocks without which an interval of the requested size,
  alignment and range is free.\<close>

theorem drm_mm_scan_hit_sufficient:
  assumes "mm_ok mm" and "scan_domain mm" and "0 < mm_scan_size mm"
    and "distinct ns" and "set ns \<subseteq> mm_held mm" and "scan_add_until mm ns [] = Ok (True, added, mm1)"
  shows "\<exists>ev mm2 t. scan_remove_all mm1 added [] = Ok (ev, mm2) \<and> ring_agrees mm mm2 \<and> set ev \<subseteq> set ns
     \<and> room_without mm ev (mm_scan_size mm) (mm_scan_alignment mm) (scan_lo mm) (scan_hi mm) t"
  using scan_hit_makes_room [OF _ _ assms(2,3,4) _ assms(6)] assms(1,5)
  by (auto simp: mm_ok_def mm_held_def)

lemma drm_mm_scan_hit_sufficient_witness:
  "\<exists>added mm1 ev mm2. scan_add_until (drm_mm_init_scan_with_range mm_full 8192 4096 0 0 65536) [Node 1] [] =
       Ok (True, added, mm1) \<and> scan_remove_all mm1 added [] = Ok (ev, mm2)
     \<and> ring_agrees (drm_mm_init_scan_with_range mm_full 8192 4096 0 0 65536) mm2"
proof -
  let ?s = "drm_mm_init_scan_with_range mm_full 8192 4096 0 0 65536"
  have s: "mm_ok ?s" "mm_held ?s = {Node 1}" "scan_domain ?s" "mm_scan_size ?s = 8192"
    using mm_full_ok mm_full_sel(3)
    by (auto simp: mm_ok_def mm_wf_def drm_mm_init_scan_with_range_def mm_limit_def mm_held_def
        scan_domain_def scan_lo_def)
  obtain mm1 where run: "scan_add_until ?s [Node 1] [] = Ok (True, [Node 1], mm1)"
    using mm_full_scan(1) by blast
  then show ?thesis
    using drm_mm_scan_hit_sufficient [OF s(1,3) _ _ _ run] s(2,4)
    by (fastforce simp del: scan_add_until.simps scan_remove_all.simps)
qed

text \<open>a scan without a hit leaves no trace: removing the blocks in reverse order succeeds,
  flags none of them and restores the ring.\<close>

theorem drm_mm_scan_miss_undone:
  assumes "mm_ok mm" and "distinct ns" and "set ns \<subseteq> mm_held mm"
    and "scan_add_until (drm_mm_init_scan_with_range mm sz al col rs re) ns [] = Ok (False, added, mm1)"
  shows "\<exists>mm2. scan_remove_all mm1 added [] = Ok ([], mm2)
     \<and> ring_agrees (drm_mm_init_scan_with_range mm sz al col rs re) mm2 \<and> mm_wf mm2
     \<and> mm_node_list mm2 = mm_node_list mm"
proof -
  let ?s = "drm_mm_init_scan_with_range mm sz al col rs re"
  have wf: "mm_wf ?s" "mm_color_adjust ?s = None" "mm_scan_hit_end ?s = 0"
      "mm_node_list ?s = mm_node_list mm"
    using assms(1) by (auto simp: mm_ok_def mm_wf_def drm_mm_init_scan_with_range_def mm_limit_def)
  then obtain mm2 where "scan_remove_all mm1 added [] = Ok ([], mm2)" "ring_agrees ?s mm2"
    using scan_miss_restores [OF wf(1,2) assms(2) _ assms(4) wf(3)] assms(3)
    by (auto simp: mm_held_def)
  then show ?thesis
    using ring_agrees_wf [OF _ wf(1)] wf(4) by (auto simp: ring_agrees_def)
qed

lemma drm_mm_scan_miss_undone_witness:
  "\<exists>mm1 mm2. scan_add_until (drm_mm_init_scan_with_range mm_full 8192 4096 0 0 8192) [Node 1] [] =
       Ok (False, [Node 1], mm1) \<and> scan_remove_all mm1 [Node 1] [] = Ok ([], mm2)
     \<and> mm_node_list mm2 = [Node 1]"
proof -
  obtain mm1 where run: "scan_add_until (drm_mm_init_scan_with_range mm_full 8192 4096 0 0 8192) [Node 1] [] =
      Ok (False, [Node 1], mm1)"
    using mm_full_scan(2) by blast
  then show ?thesis
    using drm_mm_scan_miss_undone [OF mm_full_ok(1) _ _ run] mm_full_ok(2) mm_full_sel(1)
    by (fastforce simp del: scan_add_until.simps scan_remove_all.simps)
qed

text \<open>a best-match search returns a hole that fits, and among those one whose preceding node is
  smallest (the code compares the sizes of the nodes before the holes, not of the holes);
  it returns NULL only when no fitting hole is preceded by a node smaller than the maximum.\<close>

theorem drm_mm_search_best_match:
  assumes "mm_wf mm"
  shows "(\<exists>r. drm_mm_search_free_in_range_generic mm sz al col rs re True = Ok (Some r)
        \<and> r \<in> set (mm_hole_stack mm) \<and> hole_fits mm sz al col rs re r
        \<and> (\<forall>q \<in> set (mm_hole_stack mm). hole_fits mm sz al col rs re q \<longrightarrow>
             nd_size (mm_nodes mm r) \<le> nd_size (mm_nodes mm q)))
    \<or> (drm_mm_search_free_in_range_generic mm sz al col rs re True = Ok None
        \<and> (\<forall>q \<in> set (mm_hole_stack mm). hole_fits mm sz al col rs re q \<longrightarrow> nd_size (mm_nodes mm q) = - 1))"
proof -
  let ?m = "\<lambda>r. nd_size (mm_nodes mm r)" and ?hs = "filter (hole_fits mm sz al col rs re) (mm_hole_stack mm)"
  have eq: "drm_mm_search_free_in_range_generic mm sz al col rs re True = Ok (best_of ?m ?hs None (- 1))"
    by (simp add: search_range_wf [OF assms])
  show ?thesis
  proof (cases "best_of ?m ?hs None (- 1)")
    case None
    have "?m q = - 1" if "q \<in> set ?hs" for q
      using best_of_None [OF None that] by (rule word_order.extremum_uniqueI)
    then show ?thesis using eq None by auto
  next
    case (Some r)
    then show ?thesis using eq best_of_mem [OF Some] best_of_min [OF Some] by auto
  qed
qed

lemma drm_mm_search_best_match_witness:
  "drm_mm_search_free_in_range_generic mm64k 4096 0 0 0 (- 1) True = Ok (Some Head)"
proof -
  have "hole_fits mm64k 4096 0 0 0 (- 1) Head"
    by (simp add: hole_fits_def clip_def color_adjust_def drm_mm_hole_node_start_def
        drm_mm_hole_node_end_def check_free_hole_def align_start_def)
  then show ?thesis
    using drm_mm_search_best_match [of mm64k 4096 0 0 0 "- 1"] mm64k_ok(1) by (auto simp: mm_ok_def)
qed

text \<open>the totals the debug table prints always add up to the size of the managed range.\<close>

theorem drm_mm_debug_table_total:
  assumes "mm_wf mm"
  shows "(case drm_mm_debug_table mm of (tot, in_use, unused) \<Rightarrow>
            tot = in_use + unused \<and> unat tot = mm_limit mm - mm_base mm)"
proof -
  let ?h = "drm_mm_hole_node_end mm Head - drm_mm_hole_node_start mm Head"
  obtain u f where uf: "debug_nodes mm (mm_node_list mm) (0, ?h) = (u, f)"
    by (cases "debug_nodes mm (mm_node_list mm) (0, ?h)")
  have "u + f = ?h + (nd_start (mm_nodes mm Head) - drm_mm_hole_node_end mm Head)"
    using debug_nodes_total [OF assms, of "[]" Head "mm_node_list mm" 0 ?h] uf by simp
  then have "u + f = nd_start (mm_nodes mm Head) - drm_mm_hole_node_start mm Head" by simp
  moreover have "mm_base mm \<le> mm_limit mm"
    using mm_wf_ring(3) [OF assms, of "[]" Head] by (simp add: mm_base_def)
  ultimately have "unat (u + f) = mm_limit mm - mm_base mm"
    by (simp only: unat_diff_u64 mm_base_def mm_limit_def lo_def hi_def drm_mm_hole_node_start_def)
  then show ?thesis using uf by (simp add: drm_mm_debug_table_def add.commute)
qed

lemma drm_mm_debug_table_total_witness:
  "fst (drm_mm_debug_table mm64k) = fst (snd (drm_mm_debug_table mm64k)) + snd (snd (drm_mm_debug_table mm64k))
   \<and> unat (fst (drm_mm_debug_table mm64k)) = 65536"
  using drm_mm_debug_table_total [of mm64k] mm64k_ok(1)
  by (simp add: mm_ok_def mm_base_def hi_def split: prod.splits)

text \<open>after a successful \<open>drm_mm_pre_get\<close> the next two node allocations cannot fail, whatever
  the kernel's allocator answers; a failed call reports ENOMEM, and no call pools more than
  the target.\<close>

theorem drm_mm_pre_get_reserves:
  assumes "pool_ok mm" and "drm_mm_pre_get kz mm = (r, mm')" and "drm_mm_kmalloc mm' k1 = (n1, m1)"
    and "drm_mm_kmalloc m1 k2 = (n2, m2)"
  shows "(r = None \<and> n1 \<noteq> None \<and> n2 \<noteq> None \<or> r = Some ENOMEM) \<and> pool_ok mm'
     \<and> mm_num_unused mm' \<le> max (mm_num_unused mm) MM_UNUSED_TARGET"
proof -
  note p = pre_get_pool [OF assms(1,2)]
  have "n1 \<noteq> None \<and> n2 \<noteq> None" if "r = None"
  proof -
    from that p have "pool_ok mm'" "2 \<le> mm_num_unused mm'" by auto
    then have a: "n1 \<noteq> None" "pool_ok m1" "1 \<le> mm_num_unused m1"
      using kmalloc_pool [of mm' k1] assms(3) by auto
    then show ?thesis using kmalloc_pool [of m1 k2] assms(4) by auto
  qed
  with p show ?thesis by blast
qed

lemma drm_mm_pre_get_reserves_witness:
  "\<exists>mm. drm_mm_pre_get (\<lambda>i. Some (Node (nat i))) mm64k = (None, mm) \<and> fst (drm_mm_kmalloc mm None) \<noteq> None"
proof -
  obtain mm where m: "drm_mm_pre_get (\<lambda>i. Some (Node (nat i))) mm64k = (None, mm)"
    by (simp add: drm_mm_pre_get.simps MM_UNUSED_TARGET_def mm64k_def drm_mm_init_def)
  have "pool_ok mm64k" by (simp add: pool_ok_def mm64k_def drm_mm_init_def)
  then show ?thesis
    using drm_mm_pre_get_reserves [OF _ m prod.collapse [symmetric] prod.collapse [symmetric]] m by blast
qed

text \<open>the tear-down test is weaker than its name: for a well-formed allocator
  \<open>drm_mm_clean\<close> answers true with no node or with exactly one node still allocated.\<close>

theorem drm_mm_clean_iff:
  assumes "mm_wf mm"
  shows "drm_mm_clean mm \<longleftrightarrow> card (mm_held mm) \<le> 1"
proof -
  have "distinct (mm_node_list mm)" using mm_wfD(1) [OF assms] by simp
  then show ?thesis using clean_list [OF mm_wfD(1) [OF assms]] by (simp add: mm_held_def distinct_card)
qed

lemma drm_mm_clean_iff_witness:
  "\<exists>mm. mm_held mm = {Node 1} \<and> drm_mm_clean mm"
proof -
  obtain mm where "mm_ok mm" "mm_held mm = {Node 1}" using mm64k_insert [of 1] by auto
  then show ?thesis using drm_mm_clean_iff [of mm] by (auto simp: mm_ok_def)
qed

end
