(* ===== verification/I915_Evict.thy ===== *)
theory I915_Evict
  imports Drm_Mm_Scan
begin

text \<open>
  Eviction from the graphics translation table, \<^verbatim>\<open>drm/i915/i915_gem_evict.c\<close> and
  \<^verbatim>\<open>i915_gem_object_unbind\<close> of \<^verbatim>\<open>drm/i915/i915_gem.c\<close>, on top of the range
  allocator.  The waits on the GPU and the release of a fence register, which only return a
  status and may retire requests, are functions passed to the model.
\<close>

section \<open>Objects and the table\<close>

record i915_obj =
  ob_pin_count :: nat
  ob_gtt_space :: "nref option"
  ob_has_pages :: bool
  ob_map_and_fenceable :: bool
  ob_gtt_offset :: u32

record i915_gtt =
  gt_mm :: drm_mm
  gt_objs :: "nat \<Rightarrow> i915_obj"
  gt_inactive :: "nat list"
  gt_active :: "nat list"
  gt_bound :: "nat list"
  gt_unbound :: "nat list"
  gt_mappable_end :: u64

type_synonym gpu_wait = "nat \<Rightarrow> i915_gtt \<Rightarrow> errno option \<times> i915_gtt"

section \<open>Unbinding an object\<close>

definition i915_gem_object_unbind ::
    "gpu_wait \<Rightarrow> gpu_wait \<Rightarrow> i915_gtt \<Rightarrow> nat \<Rightarrow> (errno option \<times> i915_gtt) outcome" where
  "i915_gem_object_unbind finish_gpu put_fence st ob =
     (case ob_gtt_space (gt_objs st ob) of
        None \<Rightarrow> Ok (None, st)
      | Some node \<Rightarrow>
          if ob_pin_count (gt_objs st ob) \<noteq> 0 then Ok (Some EBUSY, st)
          else if \<not> ob_has_pages (gt_objs st ob) then Bug
          else (case finish_gpu ob st of
                  (Some e, st) \<Rightarrow> Ok (Some e, st)
                | (None, st) \<Rightarrow>
          (case put_fence ob st of
                  (Some e, st) \<Rightarrow> Ok (Some e, st)
                | (None, st) \<Rightarrow>
          bind_outcome (drm_mm_put_block (gt_mm st) node)
            (\<lambda>mm. Ok (None, st\<lparr>gt_mm := mm,
               gt_inactive := remove1 ob (gt_inactive st), gt_active := remove1 ob (gt_active st),
               gt_bound := remove1 ob (gt_bound st),
               gt_unbound := remove1 ob (gt_unbound st) @ [ob],
               gt_objs := (gt_objs st)(ob := gt_objs st ob
                 \<lparr>ob_map_and_fenceable := True, ob_gtt_space := None, ob_gtt_offset := 0\<rparr>)\<rparr>)))))"

section \<open>Evicting for one allocation\<close>

definition mark_free :: "i915_gtt \<Rightarrow> nat \<Rightarrow> nat list \<Rightarrow> (bool \<times> nat list \<times> i915_gtt) outcome" where
  "mark_free st ob unwind =
     (if ob_pin_count (gt_objs st ob) \<noteq> 0 then Ok (False, unwind, st)
      else (case ob_gtt_space (gt_objs st ob) of
              None \<Rightarrow> Bug
            | Some n \<Rightarrow> bind_outcome (drm_mm_scan_add_block (gt_mm st) n)
                (\<lambda>(hit, mm). Ok (hit, ob # unwind, st\<lparr>gt_mm := mm\<rparr>))))"

fun mark_free_list :: "i915_gtt \<Rightarrow> nat list \<Rightarrow> nat list \<Rightarrow> (bool \<times> nat list \<times> i915_gtt) outcome" where
  "mark_free_list st [] unwind = Ok (False, unwind, st)"
| "mark_free_list st (ob # obs) unwind =
     bind_outcome (mark_free st ob unwind)
       (\<lambda>(hit, unwind, st). if hit then Ok (True, unwind, st) else mark_free_list st obs unwind)"

text \<open>\<open>unwind_scan\<close> is the loop that empties the unwind list; the objects whose block says
  so go to the head of the eviction list.\<close>

fun unwind_scan :: "i915_gtt \<Rightarrow> nat list \<Rightarrow> nat list \<Rightarrow> (nat list \<times> i915_gtt) outcome" where
  "unwind_scan st [] eviction = Ok (eviction, st)"
| "unwind_scan st (ob # obs) eviction =
     (case ob_gtt_space (gt_objs st ob) of
        None \<Rightarrow> Bug
      | Some n \<Rightarrow> bind_outcome (drm_mm_scan_remove_block (gt_mm st) n)
          (\<lambda>(ev, mm). unwind_scan (st\<lparr>gt_mm := mm\<rparr>) obs (if ev then ob # eviction else eviction)))"

text \<open>The loop of the failure path, with its \<^verbatim>\<open>BUG_ON(ret)\<close>.\<close>

fun unwind_none :: "i915_gtt \<Rightarrow> nat list \<Rightarrow> i915_gtt outcome" where
  "unwind_none st [] = Ok st"
| "unwind_none st (ob # obs) =
     (case ob_gtt_space (gt_objs st ob) of
        None \<Rightarrow> Bug
      | Some n \<Rightarrow> bind_outcome (drm_mm_scan_remove_block (gt_mm st) n)
          (\<lambda>(ev, mm). if ev then Bug else unwind_none (st\<lparr>gt_mm := mm\<rparr>) obs))"

fun unbind_list :: "gpu_wait \<Rightarrow> gpu_wait \<Rightarrow> errno option \<Rightarrow> i915_gtt \<Rightarrow> nat list \<Rightarrow>
    (errno option \<times> i915_gtt) outcome" where
  "unbind_list finish_gpu put_fence ret st [] = Ok (ret, st)"
| "unbind_list finish_gpu put_fence ret st (ob # obs) =
     (if ret = None
      then bind_outcome (i915_gem_object_unbind finish_gpu put_fence st ob)
             (\<lambda>(ret, st). unbind_list finish_gpu put_fence ret st obs)
      else unbind_list finish_gpu put_fence ret st obs)"

definition evict_init_scan :: "i915_gtt \<Rightarrow> 32 word \<Rightarrow> u32 \<Rightarrow> u64 \<Rightarrow> bool \<Rightarrow> i915_gtt" where
  "evict_init_scan st min_size alignment cache_level mappable =
     st\<lparr>gt_mm :=
        (if mappable
         then drm_mm_init_scan_with_range (gt_mm st) (scast min_size) alignment cache_level
                0 (gt_mappable_end st)
         else drm_mm_init_scan (gt_mm st) (scast min_size) alignment cache_level)\<rparr>"

definition i915_gem_evict_something ::
    "gpu_wait \<Rightarrow> gpu_wait \<Rightarrow> i915_gtt \<Rightarrow> 32 word \<Rightarrow> u32 \<Rightarrow> u64 \<Rightarrow> bool \<Rightarrow> bool \<Rightarrow>
     (errno option \<times> i915_gtt) outcome" where
  "i915_gem_evict_something finish_gpu put_fence st min_size alignment cache_level mappable nonblocking =
     (let none = (\<lambda>unwind st. bind_outcome (unwind_none st unwind) (\<lambda>st. Ok (Some ENOSPC, st)));
          found = (\<lambda>unwind st. bind_outcome (unwind_scan st unwind [])
                    (\<lambda>(eviction, st). unbind_list finish_gpu put_fence None st eviction));
          st = evict_init_scan st min_size alignment cache_level mappable
      in bind_outcome (mark_free_list st (gt_inactive st) [])
           (\<lambda>(hit, unwind, st).
              if hit then found unwind st
              else if nonblocking then none unwind st
              else bind_outcome (mark_free_list st (gt_active st) unwind)
                     (\<lambda>(hit, unwind, st). if hit then found unwind st else none unwind st)))"

section \<open>Evicting everything\<close>

fun unbind_unpinned :: "gpu_wait \<Rightarrow> gpu_wait \<Rightarrow> i915_gtt \<Rightarrow> nat list \<Rightarrow> i915_gtt outcome" where
  "unbind_unpinned finish_gpu put_fence st [] = Ok st"
| "unbind_unpinned finish_gpu put_fence st (ob # obs) =
     (if ob_pin_count (gt_objs st ob) = 0
      then bind_outcome (i915_gem_object_unbind finish_gpu put_fence st ob)
             (\<lambda>(_, st). unbind_unpinned finish_gpu put_fence st obs)
      else unbind_unpinned finish_gpu put_fence st obs)"

text \<open>\<open>gpu_idle\<close> and \<open>retire\<close> are the request queue's side: idling the GPU and moving the
  retired objects to the inactive list.\<close>

definition i915_gem_evict_everything ::
    "gpu_wait \<Rightarrow> gpu_wait \<Rightarrow> (i915_gtt \<Rightarrow> errno option \<times> i915_gtt) \<Rightarrow> (i915_gtt \<Rightarrow> i915_gtt) \<Rightarrow>
     i915_gtt \<Rightarrow> (errno option \<times> i915_gtt) outcome" where
  "i915_gem_evict_everything finish_gpu put_fence gpu_idle retire st =
     (if gt_inactive st = [] \<and> gt_active st = [] then Ok (Some ENOSPC, st)
      else (case gpu_idle st of
              (Some e, st) \<Rightarrow> Ok (Some e, st)
            | (None, st) \<Rightarrow>
                let st = retire st
                in bind_outcome (unbind_unpinned finish_gpu put_fence st (gt_inactive st))
                     (\<lambda>st. Ok (None, st))))"

end
