(* ===== verification/I915_Evict_Proofs.thy ===== *)
theory I915_Evict_Proofs
  imports I915_Evict
begin

text \<open>
  Correctness of the eviction: a successful \<open>i915_gem_evict_something\<close> has made room for
  the allocation it was called for, and a failed one has left the ring as it was.
\<close>

section \<open>The table's invariant\<close>

definition node_of :: "i915_gtt \<Rightarrow> nat \<Rightarrow> nref" where
  "node_of st ob = (case ob_gtt_space (gt_objs st ob) of Some n \<Rightarrow> n | None \<Rightarrow> Head)"

definition unpinned :: "i915_gtt \<Rightarrow> nat list \<Rightarrow> nat list" where
  "unpinned st obs = filter (\<lambda>ob. ob_pin_count (gt_objs st ob) = 0) obs"

definition gtt_wf :: "i915_gtt \<Rightarrow> bool" where
  "gtt_wf st \<longleftrightarrow>
     mm_wf (gt_mm st)
   \<and> distinct (map (node_of st) (gt_inactive st @ gt_active st))
   \<and> (\<forall>ob \<in> set (gt_inactive st @ gt_active st).
        ob_gtt_space (gt_objs st ob) \<noteq> None \<and> ob_has_pages (gt_objs st ob)
      \<and> node_of st ob \<in> set (mm_node_list (gt_mm st)))"

text \<open>The documented effect of the two waits on what is modelled here: they leave the range
  allocator and the objects alone.\<close>

definition keeps_space :: "gpu_wait \<Rightarrow> bool" where
  "keeps_space w \<longleftrightarrow> (\<forall>ob st. gt_mm (snd (w ob st)) = gt_mm st \<and> gt_objs (snd (w ob st)) = gt_objs st
      \<and> gt_mappable_end (snd (w ob st)) = gt_mappable_end st)"

section \<open>The marking loop is the scan of the range allocator\<close>

lemma mark_free_list_scan:
  assumes "\<forall>ob \<in> set obs. ob_gtt_space (gt_objs st ob) \<noteq> None"
    and "scan_add_until mm (map (node_of st) (unpinned st obs)) (map (node_of st) us) = Ok (hit, ws, mm')"
  shows "\<exists>us'. mark_free_list (st\<lparr>gt_mm := mm\<rparr>) obs us = Ok (hit, us', st\<lparr>gt_mm := mm'\<rparr>)
     \<and> ws = map (node_of st) us' \<and> set us' \<subseteq> set us \<union> set (unpinned st obs)"
  using assms
proof (induction obs arbitrary: mm us)
  case Nil
  then show ?case by (simp add: unpinned_def)
next
  case (Cons ob obs)
  show ?case
  proof (cases "ob_pin_count (gt_objs st ob) = 0")
    case False
    then have "unpinned st (ob # obs) = unpinned st obs" by (simp add: unpinned_def)
    with False Cons show ?thesis by (simp add: mark_free_def)
  next
    case True
    then have un: "unpinned st (ob # obs) = ob # unpinned st obs" by (simp add: unpinned_def)
    obtain n where n: "ob_gtt_space (gt_objs st ob) = Some n" "node_of st ob = n"
      using Cons.prems(1) by (auto simp: node_of_def)
    obtain h m1 where add: "drm_mm_scan_add_block mm n = Ok (h, m1)"
      using Cons.prems(2) n un by (auto simp: split: prod.splits)
    show ?thesis
    proof (cases h)
      case True
      with add Cons.prems(2) n un \<open>ob_pin_count (gt_objs st ob) = 0\<close> show ?thesis
        by (auto simp: mark_free_def)
    next
      case False
      with add Cons.prems(2) n un
      have "scan_add_until m1 (map (node_of st) (unpinned st obs)) (map (node_of st) (ob # us)) = Ok (hit, ws, mm')"
        by simp
      with Cons.IH [of m1 "ob # us"] Cons.prems(1) obtain us' where
        "mark_free_list (st\<lparr>gt_mm := m1\<rparr>) obs (ob # us) = Ok (hit, us', st\<lparr>gt_mm := mm'\<rparr>)"
        "ws = map (node_of st) us'" "set us' \<subseteq> set (ob # us) \<union> set (unpinned st obs)" by auto
      with add False n un \<open>ob_pin_count (gt_objs st ob) = 0\<close> show ?thesis
        by (auto simp: mark_free_def)
    qed
  qed
qed

lemma scan_add_until_append:
  "scan_add_until mm (xs @ ys) us =
     bind_outcome (scan_add_until mm xs us)
       (\<lambda>(hit, us, mm). if hit then Ok (True, us, mm) else scan_add_until mm ys us)"
proof (induction xs arbitrary: mm us)
  case (Cons x xs)
  then show ?case by (cases "drm_mm_scan_add_block mm x") auto
qed simp

lemma unwind_scan_remove:
  assumes "\<forall>ob \<in> set obs. ob_gtt_space (gt_objs st ob) \<noteq> None"
    and "scan_remove_all mm (map (node_of st) obs) (map (node_of st) ev) = Ok (evs, mm')"
  shows "\<exists>ev'. unwind_scan (st\<lparr>gt_mm := mm\<rparr>) obs ev = Ok (ev', st\<lparr>gt_mm := mm'\<rparr>)
     \<and> evs = map (node_of st) ev' \<and> set ev' \<subseteq> set ev \<union> set obs"
  using assms
proof (induction obs arbitrary: mm ev)
  case Nil
  then show ?case by simp
next
  case (Cons ob obs)
  obtain n where n: "ob_gtt_space (gt_objs st ob) = Some n" "node_of st ob = n"
    using Cons.prems(1) by (auto simp: node_of_def)
  then obtain b m1 where rem: "drm_mm_scan_remove_block mm n = Ok (b, m1)"
    using Cons.prems(2) by auto
  with Cons.prems(2) n
  have "scan_remove_all m1 (map (node_of st) obs) (map (node_of st) (if b then ob # ev else ev)) = Ok (evs, mm')"
    by (simp split: if_splits)
  with Cons.IH [of m1 "if b then ob # ev else ev"] Cons.prems(1) obtain ev' where
    "unwind_scan (st\<lparr>gt_mm := m1\<rparr>) obs (if b then ob # ev else ev) = Ok (ev', st\<lparr>gt_mm := mm'\<rparr>)"
    "evs = map (node_of st) ev'" "set ev' \<subseteq> set (if b then ob # ev else ev) \<union> set obs" by auto
  with rem n show ?case by (auto split: if_splits)
qed

lemma scan_remove_all_grows: "scan_remove_all m ns ev = Ok (ev', m') \<Longrightarrow> length ev \<le> length ev'"
proof (induction ns arbitrary: m ev)
  case (Cons n ns)
  then show ?case by (fastforce split: if_splits)
qed simp

lemma unwind_none_remove:
  assumes "\<forall>ob \<in> set obs. ob_gtt_space (gt_objs st ob) \<noteq> None"
    and "scan_remove_all mm (map (node_of st) obs) [] = Ok ([], mm')"
  shows "unwind_none (st\<lparr>gt_mm := mm\<rparr>) obs = Ok (st\<lparr>gt_mm := mm'\<rparr>)"
  using assms
proof (induction obs arbitrary: mm)
  case (Cons ob obs)
  obtain n where n: "ob_gtt_space (gt_objs st ob) = Some n" "node_of st ob = n"
    using Cons.prems(1) by (auto simp: node_of_def)
  then obtain b m1 where rem: "drm_mm_scan_remove_block mm n = Ok (b, m1)"
    using Cons.prems(2) by auto
  have "\<not> b" using scan_remove_all_grows Cons.prems(2) rem n by fastforce
  with rem n Cons show ?case by auto
qed simp

section \<open>The unbinding loop\<close>

lemma put_block_ok:
  assumes wf: "mm_wf mm" and n: "n \<in> set (mm_node_list mm)"
  obtains mm' where "drm_mm_put_block mm n = Ok mm'" and "mm_wf mm'"
    and "mm_node_list mm' = remove1 n (mm_node_list mm)" and "mm_color_adjust mm' = mm_color_adjust mm"
    and "\<And>x. lo (mm_nodes mm') x = lo (mm_nodes mm) x \<and> hi (mm_nodes mm') x = hi (mm_nodes mm) x"
    and "\<not> nd_allocated (mm_nodes mm' n)"
proof -
  obtain r mm1 where r: "drm_mm_remove_node mm n = Ok mm1" "mm1 = unplace mm r n" "mm_wf mm1"
    and ext: "\<And>x. nd_start (mm_nodes mm1 x) = nd_start (mm_nodes mm x)
              \<and> nd_size (mm_nodes mm1 x) = nd_size (mm_nodes mm x)"
    using remove_node_ok [OF assms] by metis
  let ?m = "mm1\<lparr>mm_unused_nodes := n # mm_unused_nodes mm1, mm_num_unused := mm_num_unused mm1 + 1\<rparr>"
  have "mm_wf ?m" using r(3) by (simp add: mm_wf_def mm_limit_def)
  moreover have "\<not> nd_allocated (mm_nodes mm1 n)" using r(2) by (simp add: unplace_def)
  ultimately show ?thesis
    using that [of ?m] that [of mm1] r ext
    by (cases "mm_num_unused mm1 < MM_UNUSED_TARGET") (auto simp: drm_mm_put_block_def lo_def hi_def)
qed

lemma same_extents_limit:
  "(\<And>x. lo (mm_nodes a) x = lo (mm_nodes b) x \<and> hi (mm_nodes a) x = hi (mm_nodes b) x) \<Longrightarrow>
   mm_limit a = mm_limit b \<and> mm_base a = mm_base b"
  by (simp add: mm_limit_def mm_base_def)

lemma unbind_list_err: "unbind_list fg pf (Some e) st obs = Ok (Some e, st)"
  by (induction obs) simp_all

lemma unbind_list_ok:
  assumes fg: "keeps_space fg" and pf: "keeps_space pf" and "mm_wf (gt_mm st)"
    and "distinct (map (node_of st) obs)"
    and "\<forall>ob \<in> set obs. ob_gtt_space (gt_objs st ob) \<noteq> None \<and> ob_has_pages (gt_objs st ob)
           \<and> ob_pin_count (gt_objs st ob) = 0 \<and> node_of st ob \<in> set (mm_node_list (gt_mm st))"
  shows "\<exists>ret st'. unbind_list fg pf None st obs = Ok (ret, st') \<and> mm_wf (gt_mm st')
     \<and> mm_color_adjust (gt_mm st') = mm_color_adjust (gt_mm st)
     \<and> (\<forall>x. lo (mm_nodes (gt_mm st')) x = lo (mm_nodes (gt_mm st)) x
           \<and> hi (mm_nodes (gt_mm st')) x = hi (mm_nodes (gt_mm st)) x)
     \<and> gt_mappable_end st' = gt_mappable_end st
     \<and> (ret = None \<longrightarrow> set (mm_node_list (gt_mm st')) =
           set (mm_node_list (gt_mm st)) - node_of st ` set obs)"
  using assms(3-)
proof (induction obs arbitrary: st)
  case Nil
  then show ?case by simp
next
  case (Cons ob obs)
  obtain n where n: "ob_gtt_space (gt_objs st ob) = Some n" "node_of st ob = n"
      "n \<in> set (mm_node_list (gt_mm st))"
    using Cons.prems(3) by (auto simp: node_of_def)
  obtain r1 s1 where s1: "fg ob st = (r1, s1)" by (cases "fg ob st")
  obtain r2 s2 where s2: "pf ob s1 = (r2, s2)" by (cases "pf ob s1")
  have k1: "gt_mm s1 = gt_mm st" "gt_objs s1 = gt_objs st" "gt_mappable_end s1 = gt_mappable_end st"
    using fg s1 unfolding keeps_space_def by (metis snd_conv)+
  have k2: "gt_mm s2 = gt_mm st" "gt_objs s2 = gt_objs st" "gt_mappable_end s2 = gt_mappable_end st"
    using pf s2 k1 unfolding keeps_space_def by (metis snd_conv)+
  have unb: "i915_gem_object_unbind fg pf st ob =
      (if r1 \<noteq> None then Ok (r1, s1) else if r2 \<noteq> None then Ok (r2, s2)
       else i915_gem_object_unbind (\<lambda>_ s. (None, s)) (\<lambda>_ s. (None, s)) s2 ob)"
    using n(1) Cons.prems(3) s1 s2 k2 by (auto simp: i915_gem_object_unbind_def split: option.splits)
  show ?case
  proof (cases "r1 = None \<and> r2 = None")
    case False
    then show ?thesis
      using unb unbind_list_err k1 k2 Cons.prems(1) by (cases r1; cases r2) auto
  next
    case True
    obtain mm' where mm': "drm_mm_put_block (gt_mm st) n = Ok mm'" "mm_wf mm'"
      "mm_node_list mm' = remove1 n (mm_node_list (gt_mm st))"
      "mm_color_adjust mm' = mm_color_adjust (gt_mm st)"
      "\<And>x. lo (mm_nodes mm') x = lo (mm_nodes (gt_mm st)) x \<and> hi (mm_nodes mm') x = hi (mm_nodes (gt_mm st)) x"
      using put_block_ok [OF Cons.prems(1) n(3)] by metis
    define s3 where "s3 = s2\<lparr>gt_mm := mm',
               gt_inactive := remove1 ob (gt_inactive s2), gt_active := remove1 ob (gt_active s2),
               gt_bound := remove1 ob (gt_bound s2), gt_unbound := remove1 ob (gt_unbound s2) @ [ob],
               gt_objs := (gt_objs s2)(ob := gt_objs s2 ob
                 \<lparr>ob_map_and_fenceable := True, ob_gtt_space := None, ob_gtt_offset := 0\<rparr>)\<rparr>"
    have unbound: "i915_gem_object_unbind fg pf st ob = Ok (None, s3)"
      using unb True n k2 mm'(1) Cons.prems(3)
      by (simp add: i915_gem_object_unbind_def s3_def)
    have others: "gt_objs s3 x = gt_objs st x" if "x \<in> set obs" for x
      using that Cons.prems(2) k2 by (auto simp: s3_def)
    then have nodes: "node_of s3 x = node_of st x" if "x \<in> set obs" for x
      using that by (simp add: node_of_def)
    have dist: "distinct (mm_node_list (gt_mm st))" using mm_wfD(1) [OF Cons.prems(1)] by simp
    have nn: "node_of st x \<noteq> n" if "x \<in> set obs" for x
    proof -
      have "node_of st x \<in> node_of st ` set obs" using that by (rule imageI)
      moreover have "node_of st ob \<notin> node_of st ` set obs" using Cons.prems(2) by simp
      ultimately show ?thesis using n(2) by metis
    qed
    have nl: "set (mm_node_list mm') = set (mm_node_list (gt_mm st)) - {n}"
      using mm'(3) dist by simp
    have "map (node_of s3) obs = map (node_of st) obs" using nodes by simp
    moreover have "distinct (map (node_of st) obs)" using Cons.prems(2) by simp
    ultimately have d3: "distinct (map (node_of s3) obs)" by (simp only:)
    have p3: "\<forall>x \<in> set obs. ob_gtt_space (gt_objs s3 x) \<noteq> None \<and> ob_has_pages (gt_objs s3 x)
           \<and> ob_pin_count (gt_objs s3 x) = 0 \<and> node_of s3 x \<in> set (mm_node_list (gt_mm s3))"
      using Cons.prems(3) others nodes nn nl by (auto simp: s3_def)
    have w3: "mm_wf (gt_mm s3)" using mm'(2) by (simp add: s3_def)
    obtain ret st' where IH: "unbind_list fg pf None s3 obs = Ok (ret, st')" "mm_wf (gt_mm st')"
      "mm_color_adjust (gt_mm st') = mm_color_adjust (gt_mm s3)"
      "\<forall>x. lo (mm_nodes (gt_mm st')) x = lo (mm_nodes (gt_mm s3)) x
           \<and> hi (mm_nodes (gt_mm st')) x = hi (mm_nodes (gt_mm s3)) x"
      "gt_mappable_end st' = gt_mappable_end s3"
      "ret = None \<longrightarrow> set (mm_node_list (gt_mm st')) = set (mm_node_list (gt_mm s3)) - node_of s3 ` set obs"
      using Cons.IH [OF w3 d3 p3] by blast
    have "node_of s3 ` set obs = node_of st ` set obs" using nodes by auto
    then show ?thesis
      using unbound IH mm' nl n(2) k2 by (intro exI [of _ ret] exI [of _ st']) (auto simp: s3_def)
  qed
qed

lemma unbind_list_waits:
  assumes "\<And>ob s. fst (fg ob s) = None" and "\<And>ob s. fst (pf ob s) = None"
    and "keeps_space fg" and "keeps_space pf"
    and "\<forall>ob \<in> set obs. ob_pin_count (gt_objs st ob) = 0"
    and "unbind_list fg pf None st obs = Ok (ret, st')"
  shows "ret = None"
  using assms(5,6)
proof (induction obs arbitrary: st)
  case (Cons ob obs)
  obtain r s where u: "i915_gem_object_unbind fg pf st ob = Ok (r, s)"
      and rest: "unbind_list fg pf r s obs = Ok (ret, st')"
    using Cons.prems(2) by auto
  obtain s1 where s1: "fg ob st = (None, s1)" using assms(1) [of ob st] by (metis prod.collapse)
  obtain s2 where s2: "pf ob s1 = (None, s2)" using assms(2) [of ob s1] by (metis prod.collapse)
  have o1: "gt_objs s1 = gt_objs st" using assms(3) s1 unfolding keeps_space_def by (metis snd_conv)
  have o2: "gt_objs s2 = gt_objs st" using assms(4) s2 o1 unfolding keeps_space_def by (metis snd_conv)
  have "r = None" and "\<forall>x. ob_pin_count (gt_objs s x) = ob_pin_count (gt_objs st x)"
    using u s1 s2 o2 Cons.prems(1)
    by (auto simp: i915_gem_object_unbind_def split: option.splits if_splits)
  then show ?case using Cons.IH [of s] rest Cons.prems(1) by auto
qed simp

section \<open>The whole eviction\<close>

text \<open>The objects that one call may look at, in order.\<close>

definition candidates :: "i915_gtt \<Rightarrow> bool \<Rightarrow> nat list" where
  "candidates st nonblocking = gt_inactive st @ (if nonblocking then [] else gt_active st)"

lemma mark_free_list_append:
  "mark_free_list st (xs @ ys) us =
     bind_outcome (mark_free_list st xs us)
       (\<lambda>(hit, us, st). if hit then Ok (True, us, st) else mark_free_list st ys us)"
proof (induction xs arbitrary: st us)
  case (Cons x xs)
  then show ?case by (cases "mark_free st x us") auto
qed simp

lemma mark_free_list_frame:
  "mark_free_list st obs us = Ok (hit, us', st') \<Longrightarrow> gt_active st' = gt_active st"
proof (induction obs arbitrary: st us)
  case (Cons ob obs)
  have "gt_active s = gt_active st" if "mark_free st ob us = Ok (h, u, s)" for h u s
    using that by (auto simp: mark_free_def split: if_splits option.splits)
  with Cons show ?case by (fastforce split: if_splits)
qed simp

lemma evict_as_one_loop:
  "i915_gem_evict_something fg pf st min_size al cl mappable nonblocking =
     (let st = evict_init_scan st min_size al cl mappable
      in bind_outcome (mark_free_list st (candidates st nonblocking) [])
           (\<lambda>(hit, unwind, st).
              if hit then bind_outcome (unwind_scan st unwind [])
                    (\<lambda>(eviction, st). unbind_list fg pf None st eviction)
              else bind_outcome (unwind_none st unwind) (\<lambda>st. Ok (Some ENOSPC, st))))"
proof -
  let ?s = "evict_init_scan st min_size al cl mappable"
  show ?thesis
  proof (cases "mark_free_list ?s (gt_inactive ?s) []")
    case (Ok r)
    obtain hit us s where r: "r = (hit, us, s)" by (cases r)
    have "gt_active s = gt_active ?s" using mark_free_list_frame Ok r by blast
    with Ok r show ?thesis
      by (simp add: i915_gem_evict_something_def candidates_def Let_def mark_free_list_append)
  qed (simp_all add: i915_gem_evict_something_def candidates_def Let_def mark_free_list_append)
qed

lemma init_scan_wf: "mm_wf mm \<Longrightarrow> mm_wf (drm_mm_init_scan mm sz al col)"
  "mm_wf mm \<Longrightarrow> mm_wf (drm_mm_init_scan_with_range mm sz al col rs re)"
  by (simp_all add: mm_wf_def drm_mm_init_scan_def drm_mm_init_scan_with_range_def mm_limit_def)

lemma evict_init_scan_sel:
  fixes st min_size al cl mappable
  defines "m \<equiv> gt_mm (evict_init_scan st min_size al cl mappable)"
  shows "mm_nodes m = mm_nodes (gt_mm st)" "mm_node_list m = mm_node_list (gt_mm st)"
    "mm_color_adjust m = mm_color_adjust (gt_mm st)" "mm_scan_size m = scast min_size"
    "mm_scan_alignment m = al" "scan_lo m = 0"
    "scan_hi m = (if mappable then gt_mappable_end st else - 1)" "mm_scan_hit_end m = 0"
    "mm_wf (gt_mm st) \<Longrightarrow> mm_wf m" "ring_agrees m (gt_mm st) = (mm_scanned_blocks (gt_mm st) = 0)"
  by (auto simp: m_def evict_init_scan_def drm_mm_init_scan_def drm_mm_init_scan_with_range_def
      scan_lo_def scan_hi_def ring_agrees_def node_agrees_def init_scan_wf
      [unfolded drm_mm_init_scan_def drm_mm_init_scan_with_range_def])

lemma evict_init_scan_frame:
  "gt_objs (evict_init_scan st k al cl mp) = gt_objs st"
  "gt_inactive (evict_init_scan st k al cl mp) = gt_inactive st"
  "gt_active (evict_init_scan st k al cl mp) = gt_active st"
  "gt_mappable_end (evict_init_scan st k al cl mp) = gt_mappable_end st"
  "node_of (evict_init_scan st k al cl mp) = node_of st"
  by (simp_all add: evict_init_scan_def node_of_def fun_eq_iff)

lemma gtt_wf_candidates:
  fixes nonblocking
  assumes "gtt_wf st"
  defines "ns \<equiv> map (node_of st) (unpinned st (candidates st nonblocking))"
  shows "distinct ns" and "set ns \<subseteq> set (mm_node_list (gt_mm st))"
    and "\<forall>ob \<in> set (candidates st nonblocking). ob_gtt_space (gt_objs st ob) \<noteq> None
           \<and> ob_has_pages (gt_objs st ob) \<and> node_of st ob \<in> set (mm_node_list (gt_mm st))"
proof -
  have d: "distinct (map (node_of st) (gt_inactive st @ gt_active st))"
    and all: "\<forall>ob \<in> set (gt_inactive st @ gt_active st). ob_gtt_space (gt_objs st ob) \<noteq> None
           \<and> ob_has_pages (gt_objs st ob) \<and> node_of st ob \<in> set (mm_node_list (gt_mm st))"
    using assms by (auto simp: gtt_wf_def)
  then have "distinct (map (node_of st) (candidates st nonblocking))"
    by (auto simp: candidates_def)
  then show "distinct ns" by (simp add: ns_def unpinned_def distinct_map_filter)
  show c: "\<forall>ob \<in> set (candidates st nonblocking). ob_gtt_space (gt_objs st ob) \<noteq> None
           \<and> ob_has_pages (gt_objs st ob) \<and> node_of st ob \<in> set (mm_node_list (gt_mm st))"
    using all by (auto simp: candidates_def split: if_splits)
  show "set ns \<subseteq> set (mm_node_list (gt_mm st))" using c by (auto simp: ns_def unpinned_def)
qed

text \<open>The call never panics; what it returns is described by the two cases.\<close>

lemma evict_something_cases:
  assumes wf: "gtt_wf st" and nc: "mm_color_adjust (gt_mm st) = None"
    and fg: "keeps_space fg" and pf: "keeps_space pf"
    and sz: "0 < (scast min_size :: u64)"
    and dom: "mm_limit (gt_mm st) + unat (scast min_size :: u64) + 2 ^ 32 \<le> 2 ^ 64"
  obtains (nospc) st' where
      "i915_gem_evict_something fg pf st min_size al cl mappable nonblocking = Ok (Some ENOSPC, st')"
      and "ring_agrees (gt_mm st) (gt_mm st')" and "gt_objs st' = gt_objs st"
  | (evicted) ret st' t where
      "i915_gem_evict_something fg pf st min_size al cl mappable nonblocking = Ok (ret, st')"
      and "mm_wf (gt_mm st')" and "mm_color_adjust (gt_mm st') = None"
      and "gt_mappable_end st' = gt_mappable_end st"
      and "ret = None \<Longrightarrow> room_at (gt_mm st') (scast min_size) al 0
             (if mappable then gt_mappable_end st else - 1) t"
      and "(\<And>ob s. fst (fg ob s) = None) \<Longrightarrow> (\<And>ob s. fst (pf ob s) = None) \<Longrightarrow> ret = None"
proof -
  define s where "s = evict_init_scan st min_size al cl mappable"
  note sel = evict_init_scan_sel [where st = st and min_size = min_size and al = al and cl = cl
      and mappable = mappable, folded s_def]
  note frame = evict_init_scan_frame [where st = st and k = min_size and al = al and cl = cl
      and mp = mappable, folded s_def]
  have mwf: "mm_wf (gt_mm st)" using wf by (simp add: gtt_wf_def)
  have cand: "candidates s nonblocking = candidates st nonblocking"
    and un: "unpinned s = unpinned st" by (simp_all add: candidates_def unpinned_def frame fun_eq_iff)
  define ns where "ns = map (node_of st) (unpinned st (candidates st nonblocking))"
  note cs = gtt_wf_candidates [OF wf, where nonblocking = nonblocking, folded ns_def]
  have swf: "mm_wf (gt_mm s)" by (rule sel(9) [OF mwf])
  have nsin: "set ns \<subseteq> set (mm_node_list (gt_mm s))" using cs(2) sel(2) by simp
  have fresh: "\<forall>n \<in> set ns. \<not> nd_scanned_block (mm_nodes (gt_mm s) n)"
    using nsin mm_wfD(6) [OF swf] by (auto simp: not_scanned_def)
  have snc: "mm_color_adjust (gt_mm s) = None" using nc sel(3) by simp
  obtain hit ws mm1 where run: "scan_add_until (gt_mm s) ns [] = Ok (hit, ws, mm1)"
    using scan_add_until_ok [OF wf_ring_ordered [OF swf] snc cs(1) nsin fresh, of "[]"] by auto
  have sp: "\<forall>ob \<in> set (candidates st nonblocking). ob_gtt_space (gt_objs s ob) \<noteq> None"
    using cs(3) frame(1) by auto
  from mark_free_list_scan [of "candidates st nonblocking" s "gt_mm s" "[]" hit ws mm1] sp run
  obtain us where us: "mark_free_list s (candidates st nonblocking) [] = Ok (hit, us, s\<lparr>gt_mm := mm1\<rparr>)"
      "ws = map (node_of s) us" "set us \<subseteq> set (unpinned st (candidates st nonblocking))"
    by (auto simp: ns_def frame(5) un)
  have ussp: "\<forall>ob \<in> set us. ob_gtt_space (gt_objs s ob) \<noteq> None"
    using us(3) sp by (auto simp: unpinned_def)
  note eq = evict_as_one_loop [of fg pf st min_size al cl mappable nonblocking,
      folded s_def, unfolded Let_def cand us(1)]
  show ?thesis
  proof (cases hit)
    case False
    from run False have runF: "scan_add_until (gt_mm s) ns [] = Ok (False, ws, mm1)" by simp
    obtain mm2 where r: "scan_remove_all mm1 ws [] = Ok ([], mm2)" "ring_agrees (gt_mm s) mm2"
      using scan_miss_restores [OF swf snc cs(1) nsin runF sel(8)] by blast
    have "unwind_none (s\<lparr>gt_mm := mm1\<rparr>) us = Ok (s\<lparr>gt_mm := mm2\<rparr>)"
      by (rule unwind_none_remove [OF ussp]) (use r us(2) in simp)
    then have "i915_gem_evict_something fg pf st min_size al cl mappable nonblocking =
        Ok (Some ENOSPC, s\<lparr>gt_mm := mm2\<rparr>)"
      using eq False by simp
    moreover have "ring_agrees (gt_mm st) mm2"
    proof -
      have "ring_agrees (gt_mm st) (gt_mm s)"
        using sel(10) mm_wfD(7) [OF mwf] by (auto simp: ring_agrees_def node_agrees_def)
      then show ?thesis using r(2) ring_agrees_trans by blast
    qed
    ultimately show ?thesis using nospc frame(1) by simp
  next
    case True
    have sdom: "scan_domain (gt_mm s)"
      using dom sel by (simp add: scan_domain_def mm_limit_def)
    have ssz: "0 < mm_scan_size (gt_mm s)" using sz sel(4) by simp
    from run True have runT: "scan_add_until (gt_mm s) ns [] = Ok (True, ws, mm1)" by simp
    obtain ev mm2 t where r: "scan_remove_all mm1 ws [] = Ok (ev, mm2)" "ring_agrees (gt_mm s) mm2"
      and sub: "set ev \<subseteq> set ns"
      and room: "room_without (gt_mm s) ev (mm_scan_size (gt_mm s)) (mm_scan_alignment (gt_mm s))
                   (scan_lo (gt_mm s)) (scan_hi (gt_mm s)) t"
      using scan_hit_makes_room [OF swf snc sdom ssz cs(1) nsin runT] by blast
    obtain obs where obs: "unwind_scan (s\<lparr>gt_mm := mm1\<rparr>) us [] = Ok (obs, s\<lparr>gt_mm := mm2\<rparr>)"
        "ev = map (node_of s) obs" "set obs \<subseteq> set us"
      using unwind_scan_remove [OF ussp, of mm1 "[]" ev mm2] r(1) us(2) by auto
    let ?s2 = "s\<lparr>gt_mm := mm2\<rparr>"
    have n2: "node_of ?s2 = node_of st" by (simp add: node_of_def fun_eq_iff frame(1))
    have wf2: "mm_wf (gt_mm ?s2)" using ring_agrees_wf [OF r(2) swf] by simp
    have nl2: "mm_node_list mm2 = mm_node_list (gt_mm st)" using r(2) sel(2) by (simp add: ring_agrees_def)
    have ext2: "lo (mm_nodes mm2) x = lo (mm_nodes (gt_mm s)) x
        \<and> hi (mm_nodes mm2) x = hi (mm_nodes (gt_mm s)) x" for x
      using r(2) by (simp add: ring_agrees_def node_agrees_def lo_def hi_def)
    have obsin: "\<forall>ob \<in> set obs. ob \<in> set (unpinned st (candidates st nonblocking))"
      using obs(3) us(3) by blast
    have dob: "distinct (map (node_of ?s2) obs)"
      using obs(2) r(1) scan_remove_all_distinct [OF r(1)] us(2) n2
        scan_add_until_distinct [OF run] cs(1) frame(5) by simp
    have pre: "\<forall>ob \<in> set obs. ob_gtt_space (gt_objs ?s2 ob) \<noteq> None \<and> ob_has_pages (gt_objs ?s2 ob)
           \<and> ob_pin_count (gt_objs ?s2 ob) = 0 \<and> node_of ?s2 ob \<in> set (mm_node_list (gt_mm ?s2))"
      using obsin cs(3) n2 nl2 frame(1) by (auto simp: unpinned_def)
    obtain ret st' where u: "unbind_list fg pf None ?s2 obs = Ok (ret, st')" "mm_wf (gt_mm st')"
      "mm_color_adjust (gt_mm st') = mm_color_adjust (gt_mm ?s2)"
      "\<forall>x. lo (mm_nodes (gt_mm st')) x = lo (mm_nodes (gt_mm ?s2)) x
           \<and> hi (mm_nodes (gt_mm st')) x = hi (mm_nodes (gt_mm ?s2)) x"
      "gt_mappable_end st' = gt_mappable_end ?s2"
      "ret = None \<longrightarrow> set (mm_node_list (gt_mm st')) =
           set (mm_node_list (gt_mm ?s2)) - node_of ?s2 ` set obs"
      using unbind_list_ok [OF fg pf wf2 dob pre] by blast
    have ext: "lo (mm_nodes (gt_mm st')) x = lo (mm_nodes (gt_mm s)) x
        \<and> hi (mm_nodes (gt_mm st')) x = hi (mm_nodes (gt_mm s)) x" for x
      using u(4) ext2 by simp
    have lim: "mm_limit (gt_mm st') = mm_limit (gt_mm s) \<and> mm_base (gt_mm st') = mm_base (gt_mm s)"
      using ext by (simp add: mm_limit_def mm_base_def)
    have "room_at (gt_mm st') (scast min_size) al 0 (if mappable then gt_mappable_end st else - 1) t"
      if "ret = None"
    proof -
      have "set (mm_node_list (gt_mm st')) = set (mm_node_list (gt_mm s)) - set ev"
        using u(6) that obs(2) nl2 n2 frame(5) sel(2) by simp
      then show ?thesis
        using room lim ext sel(4-7) by (auto simp: room_without_def room_at_def)
    qed
    moreover have "i915_gem_evict_something fg pf st min_size al cl mappable nonblocking = Ok (ret, st')"
      using eq True obs(1) u(1) by simp
    moreover have "mm_color_adjust (gt_mm st') = None"
      using u(3) r(2) snc by (simp add: ring_agrees_def)
    moreover have "gt_mappable_end st' = gt_mappable_end st" using u(5) frame(4) by simp
    moreover have "ret = None" if "\<And>ob s. fst (fg ob s) = None" "\<And>ob s. fst (pf ob s) = None"
      by (rule unbind_list_waits [OF that fg pf _ u(1)]) (use pre in blast)
    ultimately show ?thesis using evicted [of ret st' t] u(2) by blast
  qed
qed

end
