(* ===== verification/I915_Evict_Claims.thy ===== *)
theory I915_Evict_Claims
  imports I915_Evict_Proofs Drm_Mm_Claims
begin

text \<open>
  The properties of \<^verbatim>\<open>i915_gem_evict.c\<close>, with an example table whose only object fills it.
\<close>

section \<open>The example table\<close>







section \<open>The properties\<close>





end
