(* ===== verification/Drm_Hashtab.thy ===== *)
theory Drm_Hashtab
  imports Drm_Prelude
begin

text \<open>
  The chained hash table of \<^verbatim>\<open>drm/drm_hashtab.c\<close> with the hash of
  \<^verbatim>\<open>include/linux/hash.h\<close>.  A bucket is the list of its items, a pair of the item's key and
  of the object the item is embedded in.  \<open>hash32_buf\<close> is the BSD kernel's function on the
  eight bytes of a key, an argument of the model.
\<close>

section \<open>State\<close>

type_synonym hash32 = "u64 \<Rightarrow> nat \<Rightarrow> u32"

type_synonym 'i bucket = "(u64 \<times> 'i) list"

record 'i drm_open_hash =
  ht_order :: nat
  ht_table :: "'i bucket list option"

section \<open>Hashing\<close>

definition hash_64 :: "hash32 \<Rightarrow> u64 \<Rightarrow> nat \<Rightarrow> u64" where
  "hash_64 hash32_buf val bits = drop_bit (64 - bits) (ucast (hash32_buf val bits) :: u64)"

definition hashed_key :: "hash32 \<Rightarrow> 'i drm_open_hash \<Rightarrow> u64 \<Rightarrow> nat" where
  "hashed_key hash32_buf ht key = unat (ucast (hash_64 hash32_buf key (ht_order ht)) :: u32)"

section \<open>Buckets\<close>

text \<open>The three loops over a bucket, which is kept in increasing order of the keys.\<close>

fun find_in :: "u64 \<Rightarrow> 'i bucket \<Rightarrow> (u64 \<times> 'i) option" where
  "find_in key [] = None"
| "find_in key ((k, i) # es) =
     (if k = key then Some (k, i) else if key < k then None else find_in key es)"

fun insert_in :: "u64 \<Rightarrow> 'i \<Rightarrow> 'i bucket \<Rightarrow> 'i bucket outcome" where
  "insert_in key item [] = Ok [(key, item)]"
| "insert_in key item ((k, i) # es) =
     (if k = key then Err EINVAL
      else if key < k then Ok ((key, item) # (k, i) # es)
      else bind_outcome (insert_in key item es) (\<lambda>es. Ok ((k, i) # es)))"

definition bucket_of :: "'i drm_open_hash \<Rightarrow> nat \<Rightarrow> 'i bucket" where
  "bucket_of ht n = (case ht_table ht of None \<Rightarrow> [] | Some t \<Rightarrow> if n < length t then t ! n else [])"

definition set_bucket :: "'i drm_open_hash \<Rightarrow> nat \<Rightarrow> 'i bucket \<Rightarrow> 'i drm_open_hash" where
  "set_bucket ht n b = ht\<lparr>ht_table := map_option (\<lambda>t. t[n := b]) (ht_table ht)\<rparr>"

section \<open>Operations\<close>

text \<open>\<open>alloc\<close> is what the chosen allocator answers: \<open>True\<close> for a zeroed block.\<close>

definition drm_ht_create :: "'i drm_open_hash \<Rightarrow> nat \<Rightarrow> bool \<Rightarrow> errno option \<times> 'i drm_open_hash" where
  "drm_ht_create ht order alloc =
     (if alloc then (None, ht\<lparr>ht_order := order, ht_table := Some (replicate (2 ^ order) [])\<rparr>)
      else (Some ENOMEM, ht\<lparr>ht_order := order, ht_table := None\<rparr>))"

definition drm_ht_find_key :: "hash32 \<Rightarrow> 'i drm_open_hash \<Rightarrow> u64 \<Rightarrow> (u64 \<times> 'i) option" where
  "drm_ht_find_key hf ht key = find_in key (bucket_of ht (hashed_key hf ht key))"

definition drm_ht_insert_item ::
    "hash32 \<Rightarrow> 'i drm_open_hash \<Rightarrow> u64 \<Rightarrow> 'i \<Rightarrow> 'i drm_open_hash outcome" where
  "drm_ht_insert_item hf ht key item =
     bind_outcome (insert_in key item (bucket_of ht (hashed_key hf ht key)))
       (\<lambda>b. Ok (set_bucket ht (hashed_key hf ht key) b))"

definition drm_ht_find_item :: "hash32 \<Rightarrow> 'i drm_open_hash \<Rightarrow> u64 \<Rightarrow> 'i outcome" where
  "drm_ht_find_item hf ht key =
     (case drm_ht_find_key hf ht key of None \<Rightarrow> Err EINVAL | Some (k, i) \<Rightarrow> Ok i)"

text \<open>Unlinking a node takes it out of its bucket and leaves the others in place.\<close>

definition drm_ht_remove_key :: "hash32 \<Rightarrow> 'i drm_open_hash \<Rightarrow> u64 \<Rightarrow> 'i drm_open_hash outcome" where
  "drm_ht_remove_key hf ht key =
     (case drm_ht_find_key hf ht key of
        None \<Rightarrow> Err EINVAL
      | Some e \<Rightarrow> Ok (set_bucket ht (hashed_key hf ht key)
                         (remove1 e (bucket_of ht (hashed_key hf ht key)))))"

definition drm_ht_remove_item :: "hash32 \<Rightarrow> 'i drm_open_hash \<Rightarrow> u64 \<times> 'i \<Rightarrow> 'i drm_open_hash" where
  "drm_ht_remove_item hf ht e =
     set_bucket ht (hashed_key hf ht (fst e)) (remove1 e (bucket_of ht (hashed_key hf ht (fst e))))"

definition drm_ht_remove :: "'i drm_open_hash \<Rightarrow> 'i drm_open_hash" where
  "drm_ht_remove ht = ht\<lparr>ht_table := None\<rparr>"

text \<open>Which allocator serves the table, and which one its release is given to; \<open>slots\<close> is
  \<^verbatim>\<open>PAGE_SIZE / sizeof(*ht->table)\<close>.\<close>

definition create_uses_kcalloc :: "nat \<Rightarrow> nat \<Rightarrow> bool" where
  "create_uses_kcalloc slots order \<longleftrightarrow> 2 ^ order \<le> slots"

definition remove_uses_kfree :: "nat \<Rightarrow> nat \<Rightarrow> bool" where
  "remove_uses_kfree slots order \<longleftrightarrow> drop_bit order slots \<noteq> 0"

text \<open>The search for a free key; the loop has no bound of its own, so not returning is
  \<open>None\<close>.\<close>

partial_function (option) just_insert_loop ::
    "hash32 \<Rightarrow> 'i drm_open_hash \<Rightarrow> 'i \<Rightarrow> u64 \<Rightarrow> u64 \<Rightarrow> nat \<Rightarrow> u64 \<Rightarrow> u64 \<Rightarrow>
     (u64 \<times> 'i drm_open_hash) outcome option" where
  "just_insert_loop hf ht item msk first shift add unshifted =
     (case drm_ht_insert_item hf ht (push_bit shift unshifted + add) item of
        Ok ht' \<Rightarrow> Some (Ok (push_bit shift unshifted + add, ht'))
      | _ \<Rightarrow> let next = (unshifted + 1) AND msk
             in if next = first then Some (Err EINVAL)
                else just_insert_loop hf ht item msk first shift add next)"

definition drm_ht_just_insert_please ::
    "hash32 \<Rightarrow> 'i drm_open_hash \<Rightarrow> 'i \<Rightarrow> u64 \<Rightarrow> nat \<Rightarrow> nat \<Rightarrow> u64 \<Rightarrow>
     (u64 \<times> 'i drm_open_hash) outcome option" where
  "drm_ht_just_insert_please hf ht item seed bits shift add =
     just_insert_loop hf ht item (mask bits) (hash_64 hf seed bits) shift add (hash_64 hf seed bits)"

section \<open>Invariant and meaning\<close>

definition ht_wf :: "hash32 \<Rightarrow> 'i drm_open_hash \<Rightarrow> bool" where
  "ht_wf hf ht \<longleftrightarrow> ht_order ht \<le> 30
   \<and> (\<exists>t. ht_table ht = Some t \<and> length t = 2 ^ ht_order ht)
   \<and> (\<forall>n. sorted_wrt (<) (map fst (bucket_of ht n)))
   \<and> (\<forall>n. \<forall>e \<in> set (bucket_of ht n). hashed_key hf ht (fst e) = n)"

definition ht_lookup :: "hash32 \<Rightarrow> 'i drm_open_hash \<Rightarrow> u64 \<Rightarrow> 'i option" where
  "ht_lookup hf ht key = map_of (bucket_of ht (hashed_key hf ht key)) key"

lemma unat_drop_bit: "unat (drop_bit k (w :: u64)) = unat w div 2 ^ k"
  using take_bit_nat_eq_self [OF unat_lt_2p64 [of w]]
  by (simp add: unsigned_drop_bit_eq flip: drop_bit_eq_div)

lemma hash_64_small: "0 < bits \<Longrightarrow> bits \<le> 32 \<Longrightarrow> hash_64 hf val bits = 0"
proof -
  assume b: "0 < bits" "bits \<le> 32"
  have "unat (hash_64 hf val bits) = unat (hf val bits) div 2 ^ (64 - bits)"
    by (simp add: hash_64_def unat_drop_bit)
  moreover have "unat (hf val bits) < 2 ^ 32" by (rule unat_lt_2p32)
  moreover have "(2 :: nat) ^ 32 \<le> 2 ^ (64 - bits)" using b by (intro power_increasing) auto
  ultimately show ?thesis by (simp add: unat_eq_zero)
qed

lemma hash_64_lt: "bits < 64 \<Longrightarrow> unat (hash_64 hf val bits) < 2 ^ bits"
proof -
  assume b: "bits < 64"
  let ?x = "ucast (hf val bits) :: u64"
  have "unat ?x < 2 ^ 64" by (rule unat_lt_2p64)
  then have "unat ?x < 2 ^ bits * 2 ^ (64 - bits)" using b by (simp flip: power_add)
  then show ?thesis
    by (simp only: hash_64_def unat_drop_bit less_mult_imp_div_less)
qed

lemma hashed_key_lt: "ht_order ht \<le> 30 \<Longrightarrow> hashed_key hf ht key < 2 ^ ht_order ht"
proof -
  assume o: "ht_order ht \<le> 30"
  have "hashed_key hf ht key \<le> unat (hash_64 hf key (ht_order ht))"
    by (simp add: hashed_key_def unsigned_ucast_eq take_bit_nat_less_eq_self)
  also have "\<dots> < 2 ^ ht_order ht" using o by (intro hash_64_lt) simp
  finally show ?thesis .
qed

lemma wf_key_lt: "ht_wf hf ht \<Longrightarrow> hashed_key hf ht key < 2 ^ ht_order ht"
  by (rule hashed_key_lt) (simp add: ht_wf_def)

lemma bucket_set:
  assumes "ht_wf hf ht" and "n < 2 ^ ht_order ht"
  shows "bucket_of (set_bucket ht n b) m = (if m = n then b else bucket_of ht m)"
    and "ht_order (set_bucket ht n b) = ht_order ht"
    and "hashed_key hf (set_bucket ht n b) = hashed_key hf ht"
  using assms by (auto simp: ht_wf_def bucket_of_def set_bucket_def hashed_key_def fun_eq_iff)

lemma set_bucket_wf:
  assumes "ht_wf hf ht" and "n < 2 ^ ht_order ht" and "sorted_wrt (<) (map fst b)"
    and "\<forall>e \<in> set b. hashed_key hf ht (fst e) = n"
  shows "ht_wf hf (set_bucket ht n b)"
proof -
  have "\<exists>t. ht_table (set_bucket ht n b) = Some t \<and> length t = 2 ^ ht_order ht"
    using assms(1) by (auto simp: ht_wf_def set_bucket_def)
  then show ?thesis
    using assms by (auto simp: ht_wf_def bucket_set [OF assms(1,2)])
qed

section \<open>The bucket loops against the association list\<close>

lemma find_in_map_of:
  "sorted_wrt (<) (map fst b) \<Longrightarrow> find_in key b = map_option (\<lambda>i. (key, i)) (map_of b key)"
proof (induction key b rule: find_in.induct)
  case (2 key k i es)
  have "map_of es key = None" if "key < k"
    using that "2.prems" by (force simp: map_of_eq_None_iff)
  with 2 show ?case by auto
qed simp

lemma insert_in_set:
  "insert_in key item b = Ok b' \<Longrightarrow> set b' = insert (key, item) (set b)"
  by (induction key item b arbitrary: b' rule: insert_in.induct) (auto split: if_splits)

lemma insert_in_ok:
  "sorted_wrt (<) (map fst b) \<Longrightarrow> map_of b key = None \<Longrightarrow>
   \<exists>b'. insert_in key item b = Ok b' \<and> sorted_wrt (<) (map fst b') \<and> map_of b' = (map_of b)(key \<mapsto> item)"
proof (induction key item b rule: insert_in.induct)
  case (2 key item k i es)
  then have ne: "k \<noteq> key" by (auto split: if_splits)
  show ?case
  proof (cases "key < k")
    case True
    with ne 2 show ?thesis by (auto simp: fun_eq_iff intro: order.strict_trans)
  next
    case False
    then obtain b' where b': "insert_in key item es = Ok b'" "sorted_wrt (<) (map fst b')"
        "map_of b' = (map_of es)(key \<mapsto> item)"
      using 2 ne unfolding fun_upd_def by auto
    have "k < key" using False ne by simp
    then have "\<forall>e \<in> set b'. k < fst e" using insert_in_set [OF b'(1)] 2(2) by auto
    with b' ne False show ?thesis by (auto simp: fun_eq_iff)
  qed
qed simp

lemma insert_in_dup:
  "sorted_wrt (<) (map fst b) \<Longrightarrow> map_of b key \<noteq> None \<Longrightarrow> insert_in key item b = Err EINVAL"
proof (induction key item b rule: insert_in.induct)
  case (2 key item k i es)
  have "map_of es key = None" if "key < k"
    using that "2.prems" by (force simp: map_of_eq_None_iff)
  with 2 show ?case by (auto split: if_splits)
qed simp

lemma remove_in:
  fixes b :: "'i bucket"
  assumes "sorted_wrt (<) (map fst b)" and "map_of b key = Some i"
  shows "sorted_wrt (<) (map fst (remove1 (key, i) b))"
    and "map_of (remove1 (key, i) b) = (map_of b)(key := None)"
  using assms
proof (induction b)
  case (Cons e es)
  obtain k j where e: "e = (k, j)" by (cases e)
  {
    case 1
    have "set (remove1 (key, i) es) \<subseteq> set es" by (rule set_remove1_subset)
    with 1 Cons.IH(1) show ?case by (auto simp: e split: if_splits)
  next
    case 2
    have "\<forall>x \<in> set es. k < fst x" using 2(1) by (simp add: e)
    then have "map_of es key = None" if "k = key"
      using that by (metis imageE less_irrefl map_of_eq_None_iff)
    with 2 Cons.IH(2) show ?case by (auto simp: e fun_eq_iff split: if_splits)
  }
qed simp_all

end
