(* ===== verification/Keyed_Table.thy ===== *)
theory Keyed_Table
  imports Drm_Hashtab
begin

text \<open>
  The contract of a table of items under unsigned keys, as its users in the tree rely on it
  (magic numbers, map handles, user objects), and its interpretation by the hash table.
\<close>

section \<open>The contract\<close>

locale keyed_table =
  fixes ok :: "'t \<Rightarrow> bool"
    and lookup :: "'t \<Rightarrow> 'k \<Rightarrow> 'v option"
    and find :: "'t \<Rightarrow> 'k \<Rightarrow> 'v outcome"
    and insert :: "'t \<Rightarrow> 'k \<Rightarrow> 'v \<Rightarrow> 't outcome"
    and delete :: "'t \<Rightarrow> 'k \<Rightarrow> 't outcome"
  assumes find_lookup: "ok t \<Longrightarrow> find t k = (case lookup t k of None \<Rightarrow> Err EINVAL | Some v \<Rightarrow> Ok v)"
    and insert_new: "ok t \<Longrightarrow> lookup t k = None \<Longrightarrow>
          \<exists>t'. insert t k v = Ok t' \<and> ok t' \<and> lookup t' = (lookup t)(k \<mapsto> v)"
    and insert_dup: "ok t \<Longrightarrow> lookup t k = Some w \<Longrightarrow> insert t k v = Err EINVAL"
    and delete_present: "ok t \<Longrightarrow> lookup t k = Some w \<Longrightarrow>
          \<exists>t'. delete t k = Ok t' \<and> ok t' \<and> lookup t' = (lookup t)(k := None)"
    and delete_absent: "ok t \<Longrightarrow> lookup t k = None \<Longrightarrow> delete t k = Err EINVAL"
    and finite_keys: "ok t \<Longrightarrow> finite (dom (lookup t))"
begin

lemma insert_ok: "ok t \<Longrightarrow> insert t k v = Ok t' \<Longrightarrow>
    ok t' \<and> lookup t k = None \<and> lookup t' = (lookup t)(k \<mapsto> v)"
  using insert_new [of t k v] insert_dup [of t k _ v] by (cases "lookup t k") auto

lemma insert_total: "ok t \<Longrightarrow> insert t k v = Err EINVAL \<or> (\<exists>t'. insert t k v = Ok t')"
  using insert_new [of t k v] insert_dup [of t k _ v] by (cases "lookup t k") auto

lemma delete_ok: "ok t \<Longrightarrow> delete t k = Ok t' \<Longrightarrow>
    ok t' \<and> lookup t k \<noteq> None \<and> lookup t' = (lookup t)(k := None)"
  using delete_present [of t k] delete_absent [of t k] by (cases "lookup t k") auto

lemma find_after_insert:
  "ok t \<Longrightarrow> insert t k v = Ok t' \<Longrightarrow> find t' j = (if j = k then Ok v else find t j)"
  using insert_ok by (auto simp: find_lookup)

lemma find_after_delete:
  "ok t \<Longrightarrow> delete t k = Ok t' \<Longrightarrow> find t' j = (if j = k then Err EINVAL else find t j)"
  using delete_ok by (auto simp: find_lookup)

lemma insert_delete:
  assumes "ok t" and "insert t k v = Ok t'"
  shows "\<exists>t''. delete t' k = Ok t'' \<and> ok t'' \<and> lookup t'' = lookup t"
proof -
  from insert_ok [OF assms] have t': "ok t'" "lookup t k = None" "lookup t' = (lookup t)(k \<mapsto> v)" by auto
  then obtain t'' where "delete t' k = Ok t''" "ok t''" "lookup t'' = (lookup t')(k := None)"
    using delete_present [of t' k v] by auto
  with t'(2,3) show ?thesis by (auto simp: fun_eq_iff)
qed

lemma card_insert: "ok t \<Longrightarrow> insert t k v = Ok t' \<Longrightarrow> card (dom (lookup t')) = Suc (card (dom (lookup t)))"
  using insert_ok [of t k v t'] finite_keys by (auto simp: domIff card_insert_if)

end

section \<open>The hash table keeps the contract\<close>

lemma ht_find_lookup:
  assumes "ht_wf hf ht"
  shows "drm_ht_find_key hf ht key = map_option (\<lambda>i. (key, i)) (ht_lookup hf ht key)"
  using assms by (simp add: drm_ht_find_key_def ht_lookup_def find_in_map_of ht_wf_def)

lemma ht_lookup_set:
  assumes wf: "ht_wf hf ht" and n: "n = hashed_key hf ht key"
    and b: "map_of b = (map_of (bucket_of ht n))(key := v)"
  shows "ht_lookup hf (set_bucket ht n b) = (ht_lookup hf ht)(key := v)"
proof
  have lt: "n < 2 ^ ht_order ht" unfolding n by (rule wf_key_lt [OF wf])
  fix k
  show "ht_lookup hf (set_bucket ht n b) k = ((ht_lookup hf ht)(key := v)) k"
    using b by (simp add: ht_lookup_def bucket_set [OF wf lt] n [symmetric])
qed

lemma ht_insert:
  assumes wf: "ht_wf hf ht"
  shows "ht_lookup hf ht key = None \<Longrightarrow>
      \<exists>ht'. drm_ht_insert_item hf ht key item = Ok ht' \<and> ht_wf hf ht'
          \<and> ht_lookup hf ht' = (ht_lookup hf ht)(key \<mapsto> item) \<and> ht_order ht' = ht_order ht"
    and "ht_lookup hf ht key \<noteq> None \<Longrightarrow> drm_ht_insert_item hf ht key item = Err EINVAL"
proof -
  let ?n = "hashed_key hf ht key"
  let ?b = "bucket_of ht ?n"
  have srt: "sorted_wrt (<) (map fst ?b)" and own: "\<forall>e \<in> set ?b. hashed_key hf ht (fst e) = ?n"
    using wf by (simp_all add: ht_wf_def)
  have lt: "?n < 2 ^ ht_order ht" by (rule wf_key_lt [OF wf])
  show "\<exists>ht'. drm_ht_insert_item hf ht key item = Ok ht' \<and> ht_wf hf ht'
          \<and> ht_lookup hf ht' = (ht_lookup hf ht)(key \<mapsto> item) \<and> ht_order ht' = ht_order ht"
    if none: "ht_lookup hf ht key = None"
  proof -
    from none have "map_of ?b key = None" by (simp add: ht_lookup_def)
    then obtain b where b: "insert_in key item ?b = Ok b" "sorted_wrt (<) (map fst b)"
        "map_of b = (map_of ?b)(key \<mapsto> item)"
      using insert_in_ok [OF srt] by blast
    have "\<forall>e \<in> set b. hashed_key hf ht (fst e) = ?n"
      using own insert_in_set [OF b(1)] by auto
    then have "ht_wf hf (set_bucket ht ?n b)" by (rule set_bucket_wf [OF wf lt b(2)])
    then show ?thesis
      using b(1) ht_lookup_set [OF wf refl b(3)] bucket_set(2) [OF wf lt]
      by (simp add: drm_ht_insert_item_def)
  qed
  show "drm_ht_insert_item hf ht key item = Err EINVAL" if "ht_lookup hf ht key \<noteq> None"
    using insert_in_dup [OF srt] that by (simp add: drm_ht_insert_item_def ht_lookup_def)
qed

lemma ht_remove:
  assumes wf: "ht_wf hf ht" and some: "ht_lookup hf ht key = Some i"
  shows "drm_ht_remove_key hf ht key = Ok (drm_ht_remove_item hf ht (key, i))"
    and "ht_wf hf (drm_ht_remove_item hf ht (key, i))"
    and "ht_lookup hf (drm_ht_remove_item hf ht (key, i)) = (ht_lookup hf ht)(key := None)"
proof -
  let ?n = "hashed_key hf ht key"
  let ?b = "bucket_of ht ?n"
  have srt: "sorted_wrt (<) (map fst ?b)" and own: "\<forall>e \<in> set ?b. hashed_key hf ht (fst e) = ?n"
    using wf by (simp_all add: ht_wf_def)
  have lt: "?n < 2 ^ ht_order ht" by (rule wf_key_lt [OF wf])
  have m: "map_of ?b key = Some i" using some by (simp add: ht_lookup_def)
  note r = remove_in [OF srt m]
  show "drm_ht_remove_key hf ht key = Ok (drm_ht_remove_item hf ht (key, i))"
    using some by (simp add: drm_ht_remove_key_def drm_ht_remove_item_def ht_find_lookup [OF wf])
  have "\<forall>e \<in> set (remove1 (key, i) ?b). hashed_key hf ht (fst e) = ?n"
    using own by (auto dest: notin_set_remove1)
  then show "ht_wf hf (drm_ht_remove_item hf ht (key, i))"
    unfolding drm_ht_remove_item_def fst_conv by (rule set_bucket_wf [OF wf lt r(1)])
  show "ht_lookup hf (drm_ht_remove_item hf ht (key, i)) = (ht_lookup hf ht)(key := None)"
    unfolding drm_ht_remove_item_def fst_conv by (rule ht_lookup_set [OF wf refl r(2)])
qed

lemma ht_finite:
  assumes "ht_wf hf ht"
  shows "finite (dom (ht_lookup hf ht))"
proof (rule finite_subset)
  show "dom (ht_lookup hf ht) \<subseteq> (\<Union>n < 2 ^ ht_order ht. fst ` set (bucket_of ht n))"
  proof
    fix key assume "key \<in> dom (ht_lookup hf ht)"
    then obtain i where "(key, i) \<in> set (bucket_of ht (hashed_key hf ht key))"
      unfolding ht_lookup_def using map_of_SomeD by fast
    then have "key \<in> fst ` set (bucket_of ht (hashed_key hf ht key))" by (metis fst_conv imageI)
    then show "key \<in> (\<Union>n < 2 ^ ht_order ht. fst ` set (bucket_of ht n))"
      using wf_key_lt [OF assms] by blast
  qed
qed simp

interpretation ht: keyed_table "ht_wf hf" "ht_lookup hf" "drm_ht_find_item hf"
    "drm_ht_insert_item hf" "drm_ht_remove_key hf" for hf
proof
  fix t :: "'a drm_open_hash" and k v w
  assume wf: "ht_wf hf t"
  show "drm_ht_find_item hf t k = (case ht_lookup hf t k of None \<Rightarrow> Err EINVAL | Some v \<Rightarrow> Ok v)"
    by (simp add: drm_ht_find_item_def ht_find_lookup [OF wf] split: option.splits)
  show "\<exists>t'. drm_ht_insert_item hf t k v = Ok t' \<and> ht_wf hf t' \<and> ht_lookup hf t' = (ht_lookup hf t)(k \<mapsto> v)"
    if "ht_lookup hf t k = None" using ht_insert(1) [OF wf that] by blast
  show "drm_ht_insert_item hf t k v = Err EINVAL" if "ht_lookup hf t k = Some w"
    using ht_insert(2) [OF wf] that by simp
  show "\<exists>t'. drm_ht_remove_key hf t k = Ok t' \<and> ht_wf hf t' \<and> ht_lookup hf t' = (ht_lookup hf t)(k := None)"
    if "ht_lookup hf t k = Some w" using ht_remove [OF wf that] by blast
  show "drm_ht_remove_key hf t k = Err EINVAL" if "ht_lookup hf t k = None"
    using that by (simp add: drm_ht_remove_key_def ht_find_lookup [OF wf])
  show "finite (dom (ht_lookup hf t))" by (rule ht_finite [OF wf])
qed

lemma create_wf:
  assumes "order \<le> 30"
  shows "drm_ht_create ht order True = (None, ht') \<Longrightarrow> ht_wf hf ht' \<and> ht_lookup hf ht' = Map.empty"
  using assms
  by (auto simp: drm_ht_create_def ht_wf_def bucket_of_def ht_lookup_def fun_eq_iff)

section \<open>The search for a free key\<close>

lemmas just_insert_unfold = just_insert_loop.simps

lemma unat_next:
  assumes "bits < 64"
  shows "unat ((u + 1 :: u64) AND mask bits) = Suc (unat u) mod 2 ^ bits"
proof -
  have "unat ((u + 1) AND mask bits) = unat (u + 1) mod 2 ^ bits"
    by (simp add: unsigned_take_bit_eq flip: take_bit_eq_mask take_bit_eq_mod)
  also have "unat (u + 1) = Suc (unat u) mod 2 ^ 64" by (simp add: unat_word_ariths)
  also have "\<dots> mod 2 ^ bits = Suc (unat u) mod 2 ^ bits"
    using assms by (intro mod_mod_cancel le_imp_power_dvd) simp
  finally show ?thesis .
qed

definition tried_key :: "nat \<Rightarrow> nat \<Rightarrow> u64 \<Rightarrow> nat \<Rightarrow> u64" where
  "tried_key bits shift add j = push_bit shift (of_nat (j mod 2 ^ bits)) + add"

text \<open>The keys tried from \<open>u\<close> on, until the loop is back at \<open>first\<close>.\<close>

lemma just_insert_steps:
  assumes wf: "ht_wf hf ht" and b: "bits < 64"
    and d: "unat first = (unat u + Suc d) mod 2 ^ bits" and u: "unat u < 2 ^ bits" and db: "d < 2 ^ bits"
  shows "(\<exists>j \<le> d. \<exists>ht'. just_insert_loop hf ht item (mask bits) first shift add u =
             Some (Ok (tried_key bits shift add (unat u + j), ht'))
           \<and> ht_lookup hf ht (tried_key bits shift add (unat u + j)) = None \<and> ht_wf hf ht'
           \<and> ht_lookup hf ht' = (ht_lookup hf ht)(tried_key bits shift add (unat u + j) \<mapsto> item))
       \<or> (just_insert_loop hf ht item (mask bits) first shift add u = Some (Err EINVAL)
         \<and> (\<forall>j \<le> d. ht_lookup hf ht (tried_key bits shift add (unat u + j)) \<noteq> None))" (is "?P u d")
  using d u db
proof (induction d arbitrary: u)
  case (0 u)
  have k: "tried_key bits shift add (unat u) = push_bit shift u + add"
    using 0(2) by (simp add: tried_key_def)
  have nx: "(u + 1) AND mask bits = first"
    using 0(1) b by (simp add: word_unat_eq_iff unat_next)
  show ?case
  proof (cases "ht_lookup hf ht (push_bit shift u + add)")
    case None
    then obtain ht' where ht': "drm_ht_insert_item hf ht (push_bit shift u + add) item = Ok ht'"
        "ht_wf hf ht'" "ht_lookup hf ht' = (ht_lookup hf ht)(push_bit shift u + add \<mapsto> item)"
      using ht.insert_new [OF wf] by metis
    have "just_insert_loop hf ht item (mask bits) first shift add u = Some (Ok (push_bit shift u + add, ht'))"
      using ht'(1) by (simp add: just_insert_unfold [of hf ht item "mask bits" first shift add u])
    then show ?thesis using None ht'(2,3) k by (metis add_0_right le_refl)
  next
    case (Some w)
    then show ?thesis using ht.insert_dup [OF wf Some, of item] k nx
      by (auto simp: just_insert_unfold [of hf ht item "mask bits" first shift add u] Let_def)
  qed
next
  case (Suc d u)
  let ?u = "(u + 1) AND mask bits"
  have k: "tried_key bits shift add (unat u) = push_bit shift u + add"
    using Suc.prems(2) by (simp add: tried_key_def)
  have nu: "unat ?u = Suc (unat u) mod 2 ^ bits" by (rule unat_next [OF b])
  have tk: "tried_key bits shift add (unat ?u + j) = tried_key bits shift add (unat u + Suc j)" for j
    by (simp add: tried_key_def nu mod_add_left_eq)
  show ?case
  proof (cases "ht_lookup hf ht (push_bit shift u + add)")
    case None
    then obtain ht' where ht': "drm_ht_insert_item hf ht (push_bit shift u + add) item = Ok ht'"
        "ht_wf hf ht'" "ht_lookup hf ht' = (ht_lookup hf ht)(push_bit shift u + add \<mapsto> item)"
      using ht.insert_new [OF wf] by metis
    have "just_insert_loop hf ht item (mask bits) first shift add u = Some (Ok (push_bit shift u + add, ht'))"
      using ht'(1) by (simp add: just_insert_unfold [of hf ht item "mask bits" first shift add u])
    then show ?thesis using None ht'(2,3) k by (metis add_0_right zero_le)
  next
    case (Some w)
    have "?u \<noteq> first"
    proof
      assume "?u = first"
      then have "Suc (unat u) mod 2 ^ bits = (Suc (unat u) + Suc d) mod 2 ^ bits"
        using Suc.prems(1) nu by simp
      then have "(2 :: nat) ^ bits dvd Suc d"
        by (metis add_diff_cancel_left' le_add1 mod_eq_dvd_iff_nat)
      then show False using Suc.prems(3) by (auto dest: dvd_imp_le)
    qed
    then have step: "just_insert_loop hf ht item (mask bits) first shift add u =
        just_insert_loop hf ht item (mask bits) first shift add ?u"
      using ht.insert_dup [OF wf Some, of item]
      by (simp add: just_insert_unfold [of hf ht item "mask bits" first shift add u] Let_def)
    have "unat first = (unat ?u + Suc d) mod 2 ^ bits"
      using Suc.prems(1) by (simp only: nu mod_add_left_eq) simp
    moreover have "unat ?u < 2 ^ bits" "d < 2 ^ bits" using Suc.prems(3) by (simp_all add: nu)
    ultimately have "?P ?u d" by (rule Suc.IH)
    then show ?thesis
    proof (elim disjE exE conjE)
      fix j ht' assume j: "j \<le> d"
        "just_insert_loop hf ht item (mask bits) first shift add ?u = Some (Ok (tried_key bits shift add (unat ?u + j), ht'))"
        "ht_lookup hf ht (tried_key bits shift add (unat ?u + j)) = None" "ht_wf hf ht'"
        "ht_lookup hf ht' = (ht_lookup hf ht)(tried_key bits shift add (unat ?u + j) \<mapsto> item)"
      then show ?thesis unfolding step tk by (intro disjI1 exI [of _ "Suc j"]) auto
    next
      assume n: "just_insert_loop hf ht item (mask bits) first shift add ?u = Some (Err EINVAL)"
        "\<forall>j \<le> d. ht_lookup hf ht (tried_key bits shift add (unat ?u + j)) \<noteq> None"
      have "ht_lookup hf ht (tried_key bits shift add (unat u + j)) \<noteq> None" if "j \<le> Suc d" for j
        using that Some k n(2) tk by (cases j) auto
      then show ?thesis using n(1) unfolding step by blast
    qed
  qed
qed

end
