(* ===== verification/Drm_Auth.thy ===== *)
theory Drm_Auth
  imports Keyed_Table
begin

text \<open>
  Magic numbers, \<^verbatim>\<open>drm/drm_auth.c\<close>: the ioctl that gives a file its magic, and the one by
  which the master authenticates the file that holds it.  A magic entry is the pair of its
  key and the file it points to; the calls run under the global mutex, so each is one step.
\<close>

section \<open>State\<close>

record drm_file =
  fl_magic :: u32
  fl_authenticated :: bool

record drm_master =
  ms_magiclist :: "nat drm_open_hash"
  ms_magicfree :: "(u64 \<times> nat) list"

record auth_state =
  au_files :: "nat \<Rightarrow> drm_file"
  au_master :: drm_master
  au_sequence :: u32

section \<open>Operations\<close>

definition drm_find_file :: "hash32 \<Rightarrow> drm_master \<Rightarrow> u32 \<Rightarrow> nat option" where
  "drm_find_file hf m magic =
     (case drm_ht_find_item hf (ms_magiclist m) (ucast magic) of Ok f \<Rightarrow> Some f | _ \<Rightarrow> None)"

text \<open>The result of the insertion into the hash table is not looked at.\<close>

definition drm_add_magic :: "hash32 \<Rightarrow> drm_master \<Rightarrow> nat \<Rightarrow> u32 \<Rightarrow> bool \<Rightarrow> errno option \<times> drm_master" where
  "drm_add_magic hf m priv magic alloc =
     (if \<not> alloc then (Some ENOMEM, m)
      else (None, m\<lparr>ms_magiclist :=
                      (case drm_ht_insert_item hf (ms_magiclist m) (ucast magic) priv of
                         Ok t \<Rightarrow> t | _ \<Rightarrow> ms_magiclist m),
                    ms_magicfree := ms_magicfree m @ [(ucast magic, priv)]\<rparr>))"

definition drm_remove_magic :: "hash32 \<Rightarrow> drm_master \<Rightarrow> u32 \<Rightarrow> drm_master outcome" where
  "drm_remove_magic hf m magic =
     (case drm_ht_find_item hf (ms_magiclist m) (ucast magic) of
        Ok priv \<Rightarrow> Ok (m\<lparr>ms_magiclist := drm_ht_remove_item hf (ms_magiclist m) (ucast magic, priv),
                        ms_magicfree := remove1 (ucast magic, priv) (ms_magicfree m)\<rparr>)
      | _ \<Rightarrow> Err EINVAL)"

text \<open>The loop that takes the next sequence number, 0 left out, until it is not in use.\<close>

partial_function (option) fresh_magic :: "hash32 \<Rightarrow> drm_master \<Rightarrow> u32 \<Rightarrow> (u32 \<times> u32) option" where
  "fresh_magic hf m sequence =
     (let magic = (if sequence = 0 then 1 else sequence)
      in if drm_find_file hf m magic \<noteq> None then fresh_magic hf m (magic + 1)
         else Some (magic, magic + 1))"

definition drm_getmagic :: "hash32 \<Rightarrow> auth_state \<Rightarrow> nat \<Rightarrow> bool \<Rightarrow> (u32 \<times> auth_state) option" where
  "drm_getmagic hf st file alloc =
     (if fl_magic (au_files st file) \<noteq> 0 then Some (fl_magic (au_files st file), st)
      else (case fresh_magic hf (au_master st) (au_sequence st) of
              None \<Rightarrow> None
            | Some (magic, sequence) \<Rightarrow>
                Some (magic, st\<lparr>au_sequence := sequence,
                  au_files := (au_files st)(file := au_files st file\<lparr>fl_magic := magic\<rparr>),
                  au_master := snd (drm_add_magic hf (au_master st) file magic alloc)\<rparr>)))"

definition drm_authmagic :: "hash32 \<Rightarrow> auth_state \<Rightarrow> u32 \<Rightarrow> auth_state outcome" where
  "drm_authmagic hf st magic =
     (case drm_find_file hf (au_master st) magic of
        None \<Rightarrow> Err EINVAL
      | Some f \<Rightarrow>
          Ok (st\<lparr>au_files := (au_files st)(f := au_files st f\<lparr>fl_authenticated := True\<rparr>),
                 au_master := (case drm_remove_magic hf (au_master st) magic of
                                 Ok m \<Rightarrow> m | _ \<Rightarrow> au_master st)\<rparr>))"

section \<open>Invariant\<close>

text \<open>\<open>magic_file\<close> is the abstract content: which file a magic authenticates.\<close>

definition magic_file :: "hash32 \<Rightarrow> auth_state \<Rightarrow> u32 \<Rightarrow> nat option" where
  "magic_file hf st magic = ht_lookup hf (ms_magiclist (au_master st)) (ucast magic)"

definition auth_wf :: "hash32 \<Rightarrow> auth_state \<Rightarrow> bool" where
  "auth_wf hf st \<longleftrightarrow> ht_wf hf (ms_magiclist (au_master st))
     \<and> magic_file hf st 0 = None
     \<and> (\<forall>magic f. magic_file hf st magic = Some f \<longrightarrow> fl_magic (au_files st f) = magic)"

lemma find_file_lookup:
  "auth_wf hf st \<Longrightarrow> drm_find_file hf (au_master st) magic = magic_file hf st magic"
  by (auto simp: drm_find_file_def magic_file_def auth_wf_def ht.find_lookup split: option.splits)

section \<open>The sequence of magics\<close>

definition nonzero :: "u32 \<Rightarrow> u32" where
  "nonzero s = (if s = 0 then 1 else s)"

fun nth_magic :: "u32 \<Rightarrow> nat \<Rightarrow> u32" where
  "nth_magic s 0 = nonzero s"
| "nth_magic s (Suc i) = nth_magic (nonzero s + 1) i"

lemma unat_nonzero_next:
  "unat (nonzero (nonzero s + 1)) = Suc (unat (nonzero s) mod (2 ^ 32 - 1))"
proof (cases "nonzero s = - 1")
  case True
  then show ?thesis by (simp add: nonzero_def unsigned_minus_1_eq_mask mask_eq_exp_minus_1 split: if_splits)
next
  case False
  have "unat (nonzero s) < 2 ^ 32 - 1"
    using False unat_lt_2p32 [of "nonzero s"]
    by (auto simp: word_unat_eq_iff unsigned_minus_1_eq_mask mask_eq_exp_minus_1)
  then have "unat (nonzero s + 1) = Suc (unat (nonzero s))" by (simp add: unat_word_ariths)
  moreover from this have "nonzero (nonzero s + 1) = nonzero s + 1" by (auto simp: nonzero_def)
  ultimately show ?thesis using \<open>unat (nonzero s) < 2 ^ 32 - 1\<close> by simp
qed

lemma unat_nonzero_pos: "0 < unat (nonzero s)"
  by (simp add: nonzero_def unat_gt_0)

lemma unat_nth_magic:
  "unat (nth_magic s i) = Suc ((unat (nonzero s) - 1 + i) mod (2 ^ 32 - 1))"
proof (induction i arbitrary: s)
  case 0
  have "unat (nonzero s) - 1 < 2 ^ 32 - 1"
    using unat_lt_2p32 [of "nonzero s"] unat_nonzero_pos [of s] by linarith
  then show ?case using unat_nonzero_pos [of s] by simp
next
  case (Suc i)
  have "unat (nonzero (nonzero s + 1)) - 1 = unat (nonzero s) mod (2 ^ 32 - 1)"
    by (simp only: unat_nonzero_next diff_Suc_1)
  then have "(unat (nonzero (nonzero s + 1)) - 1 + i) mod (2 ^ 32 - 1) = (unat (nonzero s) + i) mod (2 ^ 32 - 1)"
    by (simp only: mod_add_left_eq)
  moreover have "unat (nonzero s) - 1 + Suc i = unat (nonzero s) + i"
    using unat_nonzero_pos [of s] by simp
  ultimately show ?case using Suc.IH [of "nonzero s + 1"] by (simp only: nth_magic.simps)
qed

lemma mod_shift_inj:
  assumes "(a + i) mod n = (a + j) mod n" and "i < n" and "j < n"
  shows "i = (j :: nat)"
  using assms
proof (induction i j rule: linorder_wlog)
  case (le i j)
  then have "n dvd (a + j) - (a + i)" by (subst mod_eq_dvd_iff_nat [symmetric]) auto
  then have "n dvd j - i" by simp
  with le show ?case by (auto dest: dvd_imp_le)
next
  case (sym i j)
  then show ?case by simp
qed

lemma nth_magic_inj: "inj_on (nth_magic s) {..< 2 ^ 32 - 1}"
proof (rule inj_onI)
  fix i j :: nat
  assume b: "i \<in> {..< 2 ^ 32 - 1}" "j \<in> {..< 2 ^ 32 - 1}" and eq: "nth_magic s i = nth_magic s j"
  have "(unat (nonzero s) - 1 + i) mod (2 ^ 32 - 1) = (unat (nonzero s) - 1 + j) mod (2 ^ 32 - 1)"
    using eq unat_nth_magic [of s i] unat_nth_magic [of s j] by simp
  then show "i = j" by (rule mod_shift_inj) (use b in \<open>simp_all only: lessThan_iff\<close>)
qed

lemma fresh_magic_steps:
  "(\<forall>j < i. drm_find_file hf m (nth_magic s j) \<noteq> None) \<Longrightarrow> drm_find_file hf m (nth_magic s i) = None \<Longrightarrow>
   fresh_magic hf m s = Some (nth_magic s i, nth_magic s i + 1)"
proof (induction i arbitrary: s)
  case 0
  then show ?case by (simp add: fresh_magic.simps [of hf m s] nonzero_def Let_def)
next
  case (Suc i)
  have "drm_find_file hf m (nonzero s) \<noteq> None" using Suc.prems(1) by force
  moreover have "fresh_magic hf m (nonzero s + 1) = Some (nth_magic s (Suc i), nth_magic s (Suc i) + 1)"
    using Suc.IH [of "nonzero s + 1"] Suc.prems by (metis Suc_less_eq nth_magic.simps(2))
  ultimately show ?case by (simp add: fresh_magic.simps [of hf m s] nonzero_def Let_def)
qed

text \<open>The loop ends while a magic is free, with a magic that is not in use.\<close>

lemma fresh_magic_ends:
  assumes wf: "auth_wf hf st" and room: "card (dom (magic_file hf st)) < 2 ^ 32 - 1"
  shows "\<exists>magic. fresh_magic hf (au_master st) (au_sequence st) = Some (magic, magic + 1)
     \<and> magic \<noteq> 0 \<and> magic_file hf st magic = None"
proof -
  let ?s = "au_sequence st"
  let ?free = "\<lambda>i. drm_find_file hf (au_master st) (nth_magic ?s i) = None"
  have "\<exists>i. ?free i"
  proof (rule ccontr)
    assume "\<nexists>i. ?free i"
    then have "nth_magic ?s ` {..< 2 ^ 32 - 1} \<subseteq> dom (magic_file hf st)"
      using find_file_lookup [OF wf] by (auto simp: domIff)
    then have "card (nth_magic ?s ` {..< 2 ^ 32 - 1}) \<le> card (dom (magic_file hf st))"
      by (intro card_mono) auto
    then show False using room by (simp only: card_image [OF nth_magic_inj] card_lessThan)
  qed
  then obtain i where i: "?free i" "\<forall>j < i. \<not> ?free j"
    using exists_least_iff [of ?free] by blast
  have "fresh_magic hf (au_master st) ?s = Some (nth_magic ?s i, nth_magic ?s i + 1)"
    using i by (intro fresh_magic_steps) auto
  moreover have "nth_magic ?s i \<noteq> 0" using unat_nth_magic [of ?s i] by (metis Zero_not_Suc unat_0)
  ultimately show ?thesis using i(1) find_file_lookup [OF wf] by auto
qed

end
