(* ===== verification/Hash_Auth_Claims.thy ===== *)
theory Hash_Auth_Claims
  imports Drm_Auth
begin

text \<open>
  The properties of the hash table and of the magic numbers kept in it, with instances on a
  table of order 4 and on a master with two files.
\<close>

section \<open>Examples\<close>

definition some_hash :: hash32 where
  "some_hash key bits = ucast key"

definition ht16 :: "nat drm_open_hash" where
  "ht16 = \<lparr>ht_order = 4, ht_table = Some (replicate 16 [])\<rparr>"

lemma ht16_wf: "ht_wf hf ht16" "ht_lookup hf ht16 = Map.empty"
  by (auto simp: ht16_def ht_wf_def ht_lookup_def bucket_of_def fun_eq_iff)

lemma ht16_order: "ht_order ht16 = 4"
  by (simp add: ht16_def)

definition two_files :: auth_state where
  "two_files = \<lparr>au_files = (\<lambda>_. \<lparr>fl_magic = 0, fl_authenticated = False\<rparr>),
     au_master = \<lparr>ms_magiclist = ht16, ms_magicfree = []\<rparr>, au_sequence = 0\<rparr>"

lemma two_files_wf: "auth_wf hf two_files" "magic_file hf two_files = Map.empty"
  using ht16_wf by (auto simp: two_files_def auth_wf_def magic_file_def fun_eq_iff)

lemma two_files_room: "card (dom (magic_file hf two_files)) < 2 ^ 32 - 1"
  by (simp add: two_files_wf(2))

section \<open>Lemmas for the properties\<close>


text \<open>A successful grant of a magic: the loop's number is registered for the file.\<close>

lemma getmagic_fresh:
  assumes wf: "auth_wf hf st" and zero: "fl_magic (au_files st file) = 0"
    and fr: "fresh_magic hf (au_master st) (au_sequence st) = Some (magic, magic + 1)"
    and free: "magic_file hf st magic = None" and nz: "magic \<noteq> 0"
  shows "\<exists>st'. drm_getmagic hf st file alloc = Some (magic, st') \<and> auth_wf hf st'
     \<and> fl_magic (au_files st' file) = magic
     \<and> magic_file hf st' = (if alloc then (magic_file hf st)(magic \<mapsto> file) else magic_file hf st)"
proof -
  let ?t = "ms_magiclist (au_master st)"
  have tw: "ht_wf hf ?t" using wf by (simp add: auth_wf_def)
  obtain t' where t': "drm_ht_insert_item hf ?t (ucast magic) file = Ok t'" "ht_wf hf t'"
      "ht_lookup hf t' = (ht_lookup hf ?t)(ucast magic \<mapsto> file)"
    using ht.insert_new [OF tw] free unfolding magic_file_def by metis
  have inj: "(ucast a :: u64) = ucast b \<longleftrightarrow> a = b" for a b :: u32
    by (metis unat_ucast_u32_u64 word_unat_eq_iff)
  have other: "magic_file hf st m = Some file \<Longrightarrow> False" for m
    using wf zero by (metis auth_wf_def option.distinct(1))
  define st' where "st' = st\<lparr>au_sequence := magic + 1,
                  au_files := (au_files st)(file := au_files st file\<lparr>fl_magic := magic\<rparr>),
                  au_master := snd (drm_add_magic hf (au_master st) file magic alloc)\<rparr>"
  have g: "drm_getmagic hf st file alloc = Some (magic, st')"
    using zero fr by (simp add: drm_getmagic_def st'_def)
  have mf: "magic_file hf st' = (if alloc then (magic_file hf st)(magic \<mapsto> file) else magic_file hf st)"
    using t'(1,3) by (auto simp: magic_file_def st'_def drm_add_magic_def fun_eq_iff inj)
  have "ht_wf hf (ms_magiclist (au_master st'))"
    using t'(1,2) tw by (simp add: st'_def drm_add_magic_def)
  moreover have "fl_magic (au_files st' f) = m" if "magic_file hf st' m = Some f" for m f
  proof (cases "f = file")
    case True
    then show ?thesis using that mf other by (auto simp: st'_def split: if_splits)
  next
    case False
    then have "magic_file hf st m = Some f" using that mf by (auto split: if_splits)
    then show ?thesis using wf False by (simp add: auth_wf_def st'_def)
  qed
  moreover have "magic_file hf st' 0 = None" using wf nz mf by (simp add: auth_wf_def)
  ultimately have "auth_wf hf st'" by (simp add: auth_wf_def)
  moreover have "fl_magic (au_files st' file) = magic" by (simp add: st'_def)
  ultimately show ?thesis using g mf by blast
qed

lemma authmagic_cases:
  assumes wf: "auth_wf hf st"
  shows "magic_file hf st magic = None \<Longrightarrow> drm_authmagic hf st magic = Err EINVAL"
    and "magic_file hf st magic = Some f \<Longrightarrow> \<exists>st'. drm_authmagic hf st magic = Ok st' \<and> auth_wf hf st'
       \<and> magic_file hf st' = (magic_file hf st)(magic := None)
       \<and> (\<forall>g. fl_magic (au_files st' g) = fl_magic (au_files st g))
       \<and> (\<forall>g. fl_authenticated (au_files st' g) = (g = f \<or> fl_authenticated (au_files st g)))"
proof -
  show "drm_authmagic hf st magic = Err EINVAL" if "magic_file hf st magic = None"
    using that by (simp add: drm_authmagic_def find_file_lookup [OF wf])
  assume f: "magic_file hf st magic = Some f"
  let ?t = "ms_magiclist (au_master st)"
  have tw: "ht_wf hf ?t" using wf by (simp add: auth_wf_def)
  have lk: "ht_lookup hf ?t (ucast magic) = Some f" using f by (simp add: magic_file_def)
  have inj: "(ucast a :: u64) = ucast b \<longleftrightarrow> a = b" for a b :: u32
    by (metis unat_ucast_u32_u64 word_unat_eq_iff)
  have rm: "drm_remove_magic hf (au_master st) magic =
      Ok ((au_master st)\<lparr>ms_magiclist := drm_ht_remove_item hf ?t (ucast magic, f),
            ms_magicfree := remove1 (ucast magic, f) (ms_magicfree (au_master st))\<rparr>)"
    using lk by (simp add: drm_remove_magic_def ht.find_lookup [OF tw])
  define st' where "st' = st\<lparr>au_files := (au_files st)(f := au_files st f\<lparr>fl_authenticated := True\<rparr>),
      au_master := (au_master st)\<lparr>ms_magiclist := drm_ht_remove_item hf ?t (ucast magic, f),
            ms_magicfree := remove1 (ucast magic, f) (ms_magicfree (au_master st))\<rparr>\<rparr>"
  have run: "drm_authmagic hf st magic = Ok st'"
    using f rm by (simp add: drm_authmagic_def find_file_lookup [OF wf] st'_def)
  have mf: "magic_file hf st' = (magic_file hf st)(magic := None)"
    using ht_remove(3) [OF tw lk] by (auto simp: magic_file_def st'_def fun_eq_iff inj)
  have "auth_wf hf st'"
    using wf mf ht_remove(2) [OF tw lk] by (auto simp: auth_wf_def st'_def split: if_splits)
  then show "\<exists>st'. drm_authmagic hf st magic = Ok st' \<and> auth_wf hf st'
       \<and> magic_file hf st' = (magic_file hf st)(magic := None)
       \<and> (\<forall>g. fl_magic (au_files st' g) = fl_magic (au_files st g))
       \<and> (\<forall>g. fl_authenticated (au_files st' g) = (g = f \<or> fl_authenticated (au_files st g)))"
    using run mf by (intro exI [of _ st']) (auto simp: st'_def)
qed

section \<open>The properties\<close>

text \<open>C8: in a well-formed hash table an insertion is refused exactly for a key that is present;
  afterwards a lookup finds the item under its key and what it found before under every other,
  the invariant holds, and a removal of the key gives the former content back.\<close>

theorem drm_ht_insert_find_remove:
  assumes "ht_wf hf ht"
  shows "(\<exists>w. ht_lookup hf ht key = Some w) \<and> drm_ht_insert_item hf ht key item = Err EINVAL
    \<or> (\<exists>ht' ht''. ht_lookup hf ht key = None \<and> drm_ht_insert_item hf ht key item = Ok ht' \<and> ht_wf hf ht'
         \<and> (\<forall>k. drm_ht_find_item hf ht' k = (if k = key then Ok item else drm_ht_find_item hf ht k))
         \<and> drm_ht_remove_key hf ht' key = Ok ht'' \<and> ht_wf hf ht''
         \<and> (\<forall>k. drm_ht_find_item hf ht'' k = drm_ht_find_item hf ht k))"
proof (cases "ht_lookup hf ht key")
  case None
  then obtain ht' where i: "drm_ht_insert_item hf ht key item = Ok ht'" using ht.insert_new [OF assms] by blast
  then obtain ht'' where r: "drm_ht_remove_key hf ht' key = Ok ht''" "ht_wf hf ht''"
      "ht_lookup hf ht'' = ht_lookup hf ht"
    using ht.insert_delete [OF assms] by blast
  then have "drm_ht_find_item hf ht'' k = drm_ht_find_item hf ht k" for k
    by (simp add: ht.find_lookup assms)
  then show ?thesis
    using None i r ht.insert_ok [OF assms i] ht.find_after_insert [OF assms i] by blast
next
  case (Some w)
  then show ?thesis using ht.insert_dup [OF assms] by blast
qed

lemma drm_ht_insert_find_remove_witness:
  "\<exists>ht'. drm_ht_insert_item some_hash ht16 77 (5 :: nat) = Ok ht' \<and> drm_ht_find_item some_hash ht' 77 = Ok 5"
  using drm_ht_insert_find_remove [OF ht16_wf(1), of some_hash 77 5] by (auto simp: ht16_wf(2))



text \<open>on a 64-bit kernel the hash of every key is 0: \<open>hash_64\<close> shifts the 32-bit result right
  by at least 32 bits, so a table of any order used keeps all its items in the first bucket.\<close>

theorem hash_64_single_bucket:
  assumes "ht_wf hf ht" and "0 < ht_order ht" and "ht_lookup hf ht key = Some item"
  shows "hashed_key hf ht key = 0 \<and> (key, item) \<in> set (bucket_of ht 0)"
proof -
  have "ht_order ht \<le> 32" using assms(1) by (simp add: ht_wf_def)
  then have "hashed_key hf ht key = 0" by (simp add: hashed_key_def hash_64_small [OF assms(2)])
  then show ?thesis using assms(3) by (auto simp: ht_lookup_def dest: map_of_SomeD)
qed

lemma hash_64_single_bucket_witness:
  "\<exists>ht'. drm_ht_insert_item some_hash ht16 (2 ^ 40 + 77) (5 :: nat) = Ok ht'
     \<and> (2 ^ 40 + 77, 5) \<in> set (bucket_of ht' 0)"
proof -
  obtain ht' where h: "drm_ht_insert_item some_hash ht16 (2 ^ 40 + 77) (5 :: nat) = Ok ht'"
      "ht_wf some_hash ht'" "ht_order ht' = 4"
      "ht_lookup some_hash ht' = (ht_lookup some_hash ht16)(2 ^ 40 + 77 \<mapsto> 5)"
    using ht_insert(1) [OF ht16_wf(1), of some_hash "2 ^ 40 + 77" 5]
    by (auto simp: ht16_wf(2) ht16_order)
  then show ?thesis using hash_64_single_bucket [OF h(2), of "2 ^ 40 + 77" 5] by simp
qed

text \<open>the table is released to the allocator it came from, for every order and page size.\<close>

theorem drm_ht_allocators_agree:
  "create_uses_kcalloc slots order \<longleftrightarrow> remove_uses_kfree slots order"
proof -
  have "2 ^ order \<le> slots \<longleftrightarrow> slots div 2 ^ order \<noteq> 0"
    by (simp add: div_eq_0_iff not_less)
  then show ?thesis by (simp add: create_uses_kcalloc_def remove_uses_kfree_def drop_bit_eq_div)
qed

text \<open>the magic ioctl always returns while not all magics are in use: a file that has a magic
  keeps it, another gets a non-zero magic no file can be reached by, and, when the entry could
  be allocated, from then on exactly that file is reached by it.\<close>

theorem drm_getmagic_fresh:
  assumes "auth_wf hf st" and "card (dom (magic_file hf st)) < 2 ^ 32 - 1"
  shows "\<exists>magic st'. drm_getmagic hf st file alloc = Some (magic, st') \<and> auth_wf hf st'
     \<and> magic \<noteq> 0 \<and> fl_magic (au_files st' file) = magic
     \<and> (if fl_magic (au_files st file) \<noteq> 0 then st' = st
        else magic_file hf st magic = None
          \<and> magic_file hf st' = (if alloc then (magic_file hf st)(magic \<mapsto> file) else magic_file hf st))"
proof (cases "fl_magic (au_files st file) = 0")
  case True
  obtain magic where m: "fresh_magic hf (au_master st) (au_sequence st) = Some (magic, magic + 1)"
      "magic \<noteq> 0" "magic_file hf st magic = None"
    using fresh_magic_ends [OF assms] by blast
  show ?thesis using getmagic_fresh [OF assms(1) True m(1,3,2), of alloc] m True by auto
next
  case False
  then show ?thesis using assms(1) by (simp add: drm_getmagic_def)
qed

lemma drm_getmagic_fresh_witness:
  "\<exists>magic st'. drm_getmagic some_hash two_files 3 True = Some (magic, st')
     \<and> magic_file some_hash st' magic = Some 3"
proof -
  have z: "fl_magic (au_files two_files 3) = 0" by (simp add: two_files_def)
  then show ?thesis
    using drm_getmagic_fresh [OF two_files_wf(1) two_files_room, of some_hash 3 True] by force
qed

text \<open>C10: authentication by magic changes only the file that holds the magic, and a magic works
  once: the same number is refused afterwards, and every other one still reaches its file.\<close>

theorem drm_authmagic_once:
  assumes "auth_wf hf st" and "drm_authmagic hf st magic = Ok st'"
  shows "\<exists>f. magic_file hf st magic = Some f \<and> fl_magic (au_files st f) = magic \<and> auth_wf hf st'
     \<and> (\<forall>g. fl_authenticated (au_files st' g) = (g = f \<or> fl_authenticated (au_files st g)))
     \<and> drm_authmagic hf st' magic = Err EINVAL
     \<and> (\<forall>m. m \<noteq> magic \<longrightarrow> magic_file hf st' m = magic_file hf st m)"
proof -
  obtain f where f: "magic_file hf st magic = Some f"
    using authmagic_cases(1) [OF assms(1), of magic] assms(2) by fastforce
  have st': "auth_wf hf st'" "magic_file hf st' = (magic_file hf st)(magic := None)"
      "\<forall>g. fl_authenticated (au_files st' g) = (g = f \<or> fl_authenticated (au_files st g))"
    using authmagic_cases(2) [OF assms(1) f] assms(2) by auto
  have "drm_authmagic hf st' magic = Err EINVAL"
    by (rule authmagic_cases(1) [OF st'(1)]) (simp add: st'(2))
  with f st' assms(1) show ?thesis by (auto simp: auth_wf_def)
qed

lemma drm_authmagic_once_witness:
  "\<exists>magic st st'. drm_getmagic some_hash two_files 3 True = Some (magic, st)
     \<and> drm_authmagic some_hash st magic = Ok st' \<and> fl_authenticated (au_files st' 3)
     \<and> drm_authmagic some_hash st' magic = Err EINVAL"
proof -
  obtain magic where m: "fresh_magic some_hash (au_master two_files) (au_sequence two_files) = Some (magic, magic + 1)"
      "magic \<noteq> 0" "magic_file some_hash two_files magic = None"
    using fresh_magic_ends [OF two_files_wf(1) two_files_room] by blast
  have z: "fl_magic (au_files two_files 3) = 0" by (simp add: two_files_def)
  obtain st where st: "drm_getmagic some_hash two_files 3 True = Some (magic, st)" "auth_wf some_hash st"
      "magic_file some_hash st magic = Some 3"
    using getmagic_fresh [OF two_files_wf(1) z m(1,3,2), of True] by auto
  obtain st' where "drm_authmagic some_hash st magic = Ok st'" using authmagic_cases(2) [OF st(2,3)] by blast
  with drm_authmagic_once [OF st(2) this] st show ?thesis by auto
qed

end
