(* ===== verification/C_Int.thy ===== *)
theory C_Int
  imports Drm_Prelude "HOL-Library.Signed_Division"
begin

text \<open>
  C arithmetic on \<^verbatim>\<open>int\<close> and \<^verbatim>\<open>unsigned int\<close> as integers with the wrap-around written out:
  \<open>u32i\<close> and \<open>s32i\<close> convert a mathematical result to the two types, and the signed division
  and remainder truncate towards zero (\<open>sdiv\<close>, \<open>smod\<close> of the library).
\<close>

definition u32i :: "int \<Rightarrow> int" where
  "u32i x = x mod 2 ^ 32"

definition s32i :: "int \<Rightarrow> int" where
  "s32i x = (x + 2 ^ 31) mod 2 ^ 32 - 2 ^ 31"

named_theorems cint

lemma u32i_id [cint]: "0 \<le> x \<Longrightarrow> x < 2 ^ 32 \<Longrightarrow> u32i x = x"
  by (simp add: u32i_def)

lemma s32i_id [cint]: "- (2 ^ 31) \<le> x \<Longrightarrow> x < 2 ^ 31 \<Longrightarrow> s32i x = x"
  by (simp add: s32i_def)

lemma s32i_small:
  "0 \<le> x \<Longrightarrow> x < 2 ^ 30 \<Longrightarrow> s32i x = x"
  "0 \<le> x \<Longrightarrow> x < 2 ^ 30 \<Longrightarrow> 0 \<le> y \<Longrightarrow> y < 2 ^ 30 \<Longrightarrow> s32i (x - y) = x - y"
  by (simp_all add: s32i_id)

lemma u32i_bounds: "0 \<le> u32i x" "u32i x < 2 ^ 32"
  by (simp_all add: u32i_def)

lemma s32i_bounds: "- (2 ^ 31) \<le> s32i x" "s32i x < 2 ^ 31"
proof -
  have "0 \<le> (x + 2 ^ 31) mod 2 ^ 32" "(x + 2 ^ 31) mod 2 ^ 32 < (2 :: int) ^ 32"
    by (rule pos_mod_sign, simp) (rule pos_mod_bound, simp)
  then show "- (2 ^ 31) \<le> s32i x" "s32i x < 2 ^ 31" by (simp_all add: s32i_def)
qed

lemma u32i_u32i [simp]: "u32i (u32i x) = u32i x"
  by (simp add: u32i_def)

lemma sdiv_nonneg [cint]: "0 \<le> a \<Longrightarrow> 0 \<le> b \<Longrightarrow> (a :: int) sdiv b = a div b"
  by (cases "a = 0"; cases "b = 0") (auto simp: signed_divide_int_def sgn_if)

lemma smod_nonneg [cint]: "0 \<le> a \<Longrightarrow> 0 \<le> b \<Longrightarrow> (a :: int) smod b = a mod b"
  by (cases "a = 0"; cases "b = 0") (auto simp: signed_modulo_int_def sgn_if)

section \<open>Decimal text\<close>

text \<open>\<open>%d\<close> of the kernel's printf, and \<^verbatim>\<open>strtol\<close> in base 10 with its end pointer.\<close>

definition digit_char :: "nat \<Rightarrow> char" where
  "digit_char d = char_of (48 + d)"

fun show_nat :: "nat \<Rightarrow> string" where
  "show_nat n = (if n < 10 then [digit_char n] else show_nat (n div 10) @ [digit_char (n mod 10)])"

declare show_nat.simps [simp del]

definition show_int :: "int \<Rightarrow> string" where
  "show_int i = (if i < 0 then CHR ''-'' # show_nat (nat (- i)) else show_nat (nat i))"

definition is_digit :: "char \<Rightarrow> bool" where
  "is_digit c \<longleftrightarrow> 48 \<le> (of_char c :: nat) \<and> (of_char c :: nat) \<le> 57"

definition is_space :: "char \<Rightarrow> bool" where
  "is_space c \<longleftrightarrow> c = CHR '' '' \<or> (9 \<le> (of_char c :: nat) \<and> (of_char c :: nat) \<le> 13)"

fun scan_digits :: "nat \<Rightarrow> string \<Rightarrow> nat \<times> string" where
  "scan_digits acc [] = (acc, [])"
| "scan_digits acc (c # cs) =
     (if is_digit c then scan_digits (10 * acc + (of_char c - 48)) cs else (acc, c # cs))"

definition strtol10 :: "string \<Rightarrow> int \<times> string" where
  "strtol10 str =
     (let s = dropWhile is_space str;
          neg = (s \<noteq> [] \<and> hd s = CHR ''-'');
          s = (if s \<noteq> [] \<and> (hd s = CHR ''-'' \<or> hd s = CHR ''+'') then tl s else s)
      in if s = [] \<or> \<not> is_digit (hd s) then (0, str)
         else (case scan_digits 0 s of
                 (n, rest) \<Rightarrow> (if neg then max (- (2 ^ 63)) (- int n) else min (2 ^ 63 - 1) (int n), rest)))"

lemma is_digit_char [simp]: "d < 10 \<Longrightarrow> is_digit (digit_char d)"
  by (simp add: is_digit_def digit_char_def)

lemma of_digit_char [simp]: "d < 10 \<Longrightarrow> (of_char (digit_char d) :: nat) = 48 + d"
  by (simp add: digit_char_def)

lemma show_nat_digits: "c \<in> set (show_nat n) \<Longrightarrow> is_digit c"
proof (induction n rule: show_nat.induct)
  case (1 n)
  then show ?case by (subst (asm) show_nat.simps) (auto split: if_splits)
qed

lemma show_nat_ne [simp]: "show_nat n \<noteq> []"
  by (subst show_nat.simps) simp

lemma digit_not_space [simp]: "is_digit c \<Longrightarrow> \<not> is_space c"
  by (auto simp: is_digit_def is_space_def)

lemma scan_digits_append:
  "\<forall>c \<in> set ds. is_digit c \<Longrightarrow>
   scan_digits acc (ds @ rest) = scan_digits (fst (scan_digits acc ds)) rest"
  by (induction acc ds rule: scan_digits.induct) auto

lemma scan_show_nat: "fst (scan_digits 0 (show_nat n)) = n"
proof (induction n rule: show_nat.induct)
  case (1 n)
  show ?case
  proof (cases "n < 10")
    case True
    then show ?thesis by (subst show_nat.simps) simp
  next
    case False
    then show ?thesis
      using 1 by (subst show_nat.simps) (simp add: scan_digits_append show_nat_digits)
  qed
qed

lemma strtol10_show_nat:
  assumes "n < 2 ^ 63" and "rest = [] \<or> \<not> is_digit (hd rest)"
  shows "strtol10 (show_nat n @ rest) = (int n, rest)"
proof -
  obtain c cs where c: "show_nat n = c # cs" by (cases "show_nat n") auto
  have d: "is_digit c" using show_nat_digits [of c n] c by simp
  then have ns: "c \<noteq> CHR ''-''" "c \<noteq> CHR ''+''" by (auto simp: is_digit_def)
  have "scan_digits 0 (show_nat n @ rest) = scan_digits n rest"
    using scan_digits_append [of "show_nat n" 0 rest] show_nat_digits scan_show_nat by auto
  also have "\<dots> = (n, rest)" using assms(2) by (cases rest) auto
  finally have sc: "scan_digits 0 (c # cs @ rest) = (n, rest)" using c by simp
  have "int n < 2 ^ 63" using assms(1) by (metis of_nat_less_numeral_power_cancel_iff)
  then show ?thesis using d ns sc by (simp add: strtol10_def c Let_def del: scan_digits.simps)
qed

end
