(* ===== verification/Drm_Modes.thy ===== *)
theory Drm_Modes
  imports C_Int
begin

text \<open>
  Display modes, \<^verbatim>\<open>drm/drm_modes.c\<close>: the CVT and GTF timing generators, the derived rates and
  CRTC timings, the comparison and filtering of mode lists, and the parser of the mode given
  on the command line.  The fields of \<^verbatim>\<open>struct drm_display_mode\<close> that are \<^verbatim>\<open>int\<close> are
  integers, and every arithmetic step that can leave the range of its type is wrapped.
\<close>

section \<open>Modes\<close>

datatype drm_mode_status = MODE_OK | MODE_HSYNC | MODE_VSYNC | MODE_H_ILLEGAL | MODE_V_ILLEGAL
  | MODE_BAD_WIDTH | MODE_NOMODE | MODE_NO_INTERLACE | MODE_NO_DBLESCAN | MODE_NO_VSCAN | MODE_MEM
  | MODE_VIRTUAL_X | MODE_VIRTUAL_Y | MODE_MEM_VIRT | MODE_NOCLOCK | MODE_CLOCK_HIGH
  | MODE_CLOCK_LOW | MODE_CLOCK_RANGE | MODE_BAD_HVALUE | MODE_BAD_VVALUE | MODE_BAD_VSCAN
  | MODE_HSYNC_NARROW | MODE_HSYNC_WIDE | MODE_HBLANK_NARROW | MODE_HBLANK_WIDE
  | MODE_VSYNC_NARROW | MODE_VSYNC_WIDE | MODE_VBLANK_NARROW | MODE_VBLANK_WIDE | MODE_PANEL
  | MODE_INTERLACE_WIDTH | MODE_ONE_WIDTH | MODE_ONE_HEIGHT | MODE_ONE_SIZE | MODE_NO_REDUCED
  | MODE_UNVERIFIED | MODE_BAD | MODE_ERROR

record drm_display_mode =
  dm_name :: string
  dm_status :: drm_mode_status
  dm_type :: u32
  dm_clock :: int
  dm_hdisplay :: int
  dm_hsync_start :: int
  dm_hsync_end :: int
  dm_htotal :: int
  dm_hskew :: int
  dm_vdisplay :: int
  dm_vsync_start :: int
  dm_vsync_end :: int
  dm_vtotal :: int
  dm_vscan :: int
  dm_flags :: u32
  dm_crtc_hdisplay :: int
  dm_crtc_hblank_start :: int
  dm_crtc_hblank_end :: int
  dm_crtc_hsync_start :: int
  dm_crtc_hsync_end :: int
  dm_crtc_htotal :: int
  dm_crtc_hskew :: int
  dm_crtc_vdisplay :: int
  dm_crtc_vblank_start :: int
  dm_crtc_vblank_end :: int
  dm_crtc_vsync_start :: int
  dm_crtc_vsync_end :: int
  dm_crtc_vtotal :: int
  dm_vrefresh :: int
  dm_hsync :: int
  dm_width_mm :: int
  dm_height_mm :: int

definition zero_mode :: drm_display_mode where
  "zero_mode = \<lparr>dm_name = [], dm_status = MODE_OK, dm_type = 0, dm_clock = 0, dm_hdisplay = 0,
     dm_hsync_start = 0, dm_hsync_end = 0, dm_htotal = 0, dm_hskew = 0, dm_vdisplay = 0,
     dm_vsync_start = 0, dm_vsync_end = 0, dm_vtotal = 0, dm_vscan = 0, dm_flags = 0,
     dm_crtc_hdisplay = 0, dm_crtc_hblank_start = 0, dm_crtc_hblank_end = 0,
     dm_crtc_hsync_start = 0, dm_crtc_hsync_end = 0, dm_crtc_htotal = 0, dm_crtc_hskew = 0,
     dm_crtc_vdisplay = 0, dm_crtc_vblank_start = 0, dm_crtc_vblank_end = 0,
     dm_crtc_vsync_start = 0, dm_crtc_vsync_end = 0, dm_crtc_vtotal = 0, dm_vrefresh = 0,
     dm_hsync = 0, dm_width_mm = 0, dm_height_mm = 0\<rparr>"

definition DRM_MODE_TYPE_BUILTIN :: u32 where "DRM_MODE_TYPE_BUILTIN = 1"
definition DRM_MODE_TYPE_CRTC_C :: u32 where "DRM_MODE_TYPE_CRTC_C = 5"
definition DRM_MODE_TYPE_PREFERRED :: u32 where "DRM_MODE_TYPE_PREFERRED = 8"

definition DRM_MODE_FLAG_PHSYNC :: u32 where "DRM_MODE_FLAG_PHSYNC = 1"
definition DRM_MODE_FLAG_NHSYNC :: u32 where "DRM_MODE_FLAG_NHSYNC = 2"
definition DRM_MODE_FLAG_PVSYNC :: u32 where "DRM_MODE_FLAG_PVSYNC = 4"
definition DRM_MODE_FLAG_NVSYNC :: u32 where "DRM_MODE_FLAG_NVSYNC = 8"
definition DRM_MODE_FLAG_INTERLACE :: u32 where "DRM_MODE_FLAG_INTERLACE = 16"
definition DRM_MODE_FLAG_DBLSCAN :: u32 where "DRM_MODE_FLAG_DBLSCAN = 32"

definition CRTC_INTERLACE_HALVE_V :: u32 where "CRTC_INTERLACE_HALVE_V = 1"

lemmas mode_consts = DRM_MODE_TYPE_BUILTIN_def DRM_MODE_TYPE_CRTC_C_def DRM_MODE_TYPE_PREFERRED_def
  DRM_MODE_FLAG_PHSYNC_def DRM_MODE_FLAG_NHSYNC_def DRM_MODE_FLAG_PVSYNC_def
  DRM_MODE_FLAG_NVSYNC_def DRM_MODE_FLAG_INTERLACE_def DRM_MODE_FLAG_DBLSCAN_def
  CRTC_INTERLACE_HALVE_V_def

definition has :: "u32 \<Rightarrow> u32 \<Rightarrow> bool" where
  "has flags f \<longleftrightarrow> flags AND f \<noteq> 0"

definition drm_mode_set_name :: "drm_display_mode \<Rightarrow> drm_display_mode" where
  "drm_mode_set_name m =
     m\<lparr>dm_name := show_int (dm_hdisplay m) @ ''x'' @ show_int (dm_vdisplay m)
          @ (if has (dm_flags m) DRM_MODE_FLAG_INTERLACE then ''i'' else [])\<rparr>"

section \<open>CVT\<close>

text \<open>The sync width from the aspect ratio of the requested size.\<close>

definition cvt_vsync :: "int \<Rightarrow> int \<Rightarrow> int" where
  "cvt_vsync hdisplay vdisplay =
     (if vdisplay smod 3 = 0 \<and> s32i (vdisplay * 4) sdiv 3 = hdisplay then 4
      else if vdisplay smod 9 = 0 \<and> s32i (vdisplay * 16) sdiv 9 = hdisplay then 5
      else if vdisplay smod 10 = 0 \<and> s32i (vdisplay * 16) sdiv 10 = hdisplay then 6
      else if vdisplay smod 4 = 0 \<and> s32i (vdisplay * 5) sdiv 4 = hdisplay then 7
      else if vdisplay smod 9 = 0 \<and> s32i (vdisplay * 15) sdiv 9 = hdisplay then 7
      else 10)"

text \<open>The full-blanking and reduced-blanking parts of the computation: from the field rate, the
  active lines of a field, margins and sync width they set the line and column timings and
  return the estimated horizontal period.  \<open>Bug\<close> is the trap of a division by zero.\<close>

definition cvt_full ::
    "drm_display_mode \<Rightarrow> int \<Rightarrow> int \<Rightarrow> int \<Rightarrow> int \<Rightarrow> int \<Rightarrow> (int \<times> drm_display_mode) outcome" where
  "cvt_full m vfieldrate vdisplay_rnd vmargin vsync interlace =
    (let tmp1 = s32i (1000 * 1000000 - 550 * 1000 * vfieldrate);
         tmp2 = s32i (s32i (vdisplay_rnd + 2 * vmargin + 3) * 2 + interlace);
         den = u32i (tmp2 * vfieldrate)
     in if den = 0 then Bug else let
         hperiod = u32i (s32i (tmp1 * 2)) div den
     in if hperiod = 0 then Bug else let
         tmp1 = s32i (550 * 1000 div hperiod + 1);
         vsyncandback_porch = (if tmp1 < vsync + 3 then vsync + 3 else tmp1);
         m = m\<lparr>dm_vtotal := s32i (vdisplay_rnd + 2 * vmargin + vsyncandback_porch + 3)\<rparr>;
         hblank_percentage = u32i (30 * 1000 - u32i (300 * hperiod) div 1000);
         hblank_percentage = (if hblank_percentage < 20 * 1000 then 20 * 1000 else hblank_percentage);
         den = u32i (100 * 1000 - hblank_percentage)
     in if den = 0 then Bug else let
         hblank = s32i (u32i (dm_hdisplay m * hblank_percentage) div den);
         hblank = hblank - hblank smod 16;
         m = m\<lparr>dm_htotal := s32i (dm_hdisplay m + hblank),
               dm_hsync_end := s32i (dm_hdisplay m + hblank sdiv 2)\<rparr>;
         start = s32i (dm_hsync_end m - s32i (dm_htotal m * 8) sdiv 100);
         m = m\<lparr>dm_hsync_start := s32i (start + (8 - start smod 8)),
               dm_vsync_start := s32i (dm_vdisplay m + 3),
               dm_vsync_end := s32i (dm_vdisplay m + 3 + vsync)\<rparr>
     in Ok (hperiod, m))"

definition cvt_reduced ::
    "drm_display_mode \<Rightarrow> int \<Rightarrow> int \<Rightarrow> int \<Rightarrow> int \<Rightarrow> (int \<times> drm_display_mode) outcome" where
  "cvt_reduced m vfieldrate vdisplay_rnd vmargin vsync =
    (let tmp1 = s32i (1000 * 1000000 - 460 * 1000 * vfieldrate);
         tmp2 = s32i (vdisplay_rnd + 2 * vmargin);
         den = u32i (tmp2 * vfieldrate)
     in if den = 0 then Bug else let
         hperiod = u32i tmp1 div den
     in if hperiod = 0 then Bug else let
         vbilines = s32i (460 * 1000 div hperiod + 1);
         vbilines = (if vbilines < 3 + vsync + 6 then 3 + vsync + 6 else vbilines);
         m = m\<lparr>dm_vtotal := s32i (vdisplay_rnd + 2 * vmargin + vbilines),
               dm_htotal := s32i (dm_hdisplay m + 160),
               dm_hsync_end := s32i (dm_hdisplay m + 160 sdiv 2),
               dm_hsync_start := s32i (dm_hdisplay m + 160 sdiv 2 - 32),
               dm_vsync_start := s32i (dm_vdisplay m + 3),
               dm_vsync_end := s32i (dm_vdisplay m + 3 + vsync)\<rparr>
     in Ok (hperiod, m))"

text \<open>\<open>alloc\<close> is the result of \<^verbatim>\<open>drm_mode_create\<close>; \<open>None\<close> is the NULL returned without memory.\<close>

definition drm_cvt_mode ::
    "bool \<Rightarrow> int \<Rightarrow> int \<Rightarrow> int \<Rightarrow> bool \<Rightarrow> bool \<Rightarrow> bool \<Rightarrow> drm_display_mode option outcome" where
  "drm_cvt_mode alloc hdisplay vdisplay vrefresh reduced interlaced margins =
    (if \<not> alloc then Ok None else let
       vrefresh = (if vrefresh = 0 then 60 else vrefresh);
       vfieldrate = (if interlaced then u32i (s32i (vrefresh * 2)) else u32i vrefresh);
       hdisplay_rnd = hdisplay - hdisplay smod 8;
       hmargin = (if margins
                  then (let h = s32i (hdisplay_rnd * 18) sdiv 1000 in h - h smod 8) else 0);
       m = zero_mode\<lparr>dm_hdisplay := s32i (hdisplay_rnd + 2 * hmargin)\<rparr>;
       vdisplay_rnd = (if interlaced then vdisplay sdiv 2 else vdisplay);
       vmargin = (if margins then s32i (vdisplay_rnd * 18) sdiv 1000 else 0);
       m = m\<lparr>dm_vdisplay := s32i (vdisplay + 2 * vmargin)\<rparr>;
       interlace = (if interlaced then 1 else 0);
       vsync = cvt_vsync hdisplay vdisplay
     in bind_outcome
          (if \<not> reduced then cvt_full m vfieldrate vdisplay_rnd vmargin vsync interlace
           else cvt_reduced m vfieldrate vdisplay_rnd vmargin vsync)
          (\<lambda>(hperiod, m). let
             clock = s32i (u32i (s32i (s32i (dm_htotal m * 1000) * 1000)) div hperiod);
             m = m\<lparr>dm_clock := clock - clock smod 250\<rparr>;
             m = (if interlaced
                  then m\<lparr>dm_vtotal := s32i (dm_vtotal m * 2),
                         dm_flags := dm_flags m OR DRM_MODE_FLAG_INTERLACE\<rparr> else m);
             m = drm_mode_set_name m
           in Ok (Some (m\<lparr>dm_flags := dm_flags m OR
                (if reduced then DRM_MODE_FLAG_PHSYNC OR DRM_MODE_FLAG_NVSYNC
                 else DRM_MODE_FLAG_PVSYNC OR DRM_MODE_FLAG_NHSYNC)\<rparr>))))"

section \<open>GTF\<close>

definition drm_gtf_mode_complex ::
    "bool \<Rightarrow> int \<Rightarrow> int \<Rightarrow> int \<Rightarrow> bool \<Rightarrow> bool \<Rightarrow> int \<Rightarrow> int \<Rightarrow> int \<Rightarrow> int \<Rightarrow>
     drm_display_mode option outcome" where
  "drm_gtf_mode_complex alloc hdisplay vdisplay vrefresh interlaced margins gM g2C gK g2J =
    (if \<not> alloc then Ok None else let
       hdisplay_rnd = u32i (s32i (hdisplay + 4) sdiv 8);
       hdisplay_rnd = u32i (hdisplay_rnd * 8);
       vdisplay_rnd = u32i (if interlaced then vdisplay sdiv 2 else vdisplay);
       vfieldrate_rqd = u32i (if interlaced then s32i (vrefresh * 2) else vrefresh);
       top_margin = (if margins then s32i (u32i (vdisplay_rnd * 18 + 500) div 1000) else 0);
       bottom_margin = top_margin;
       interlace = (if interlaced then 1 else 0);
       tmp1 = u32i (1000000 - 550 * vfieldrate_rqd) div 500;
       tmp2 = u32i ((vdisplay_rnd + 2 * top_margin + 1) * 2 + interlace)
     in if tmp1 = 0 then Bug else let
       hfreq_est = u32i (tmp2 * 1000 * vfieldrate_rqd) div tmp1;
       vsync_plus_bp = s32i (u32i (550 * hfreq_est) div 1000);
       vsync_plus_bp = s32i (vsync_plus_bp + 500) sdiv 1000;
       vtotal_lines = u32i (vdisplay_rnd + top_margin + bottom_margin + vsync_plus_bp + 1)
     in if vtotal_lines = 0 \<or> u32i (vfieldrate_rqd * vtotal_lines) = 0 \<or> hfreq_est = 0 then Bug else let
       left_margin = (if margins then s32i (u32i (hdisplay_rnd * 18 + 500) div 1000) else 0);
       right_margin = left_margin;
       total_active_pixels = u32i (hdisplay_rnd + left_margin + right_margin);
       c_prime = (s32i ((g2C - g2J) * gK) sdiv 256 + g2J) sdiv 2;
       m_prime = s32i (gK * gM) sdiv 256;
       ideal_duty_cycle = u32i (s32i (c_prime * 1000) - u32i (s32i (m_prime * 1000000)) div hfreq_est);
       den = u32i (100000 - ideal_duty_cycle)
     in if den = 0 then Bug else let
       hblank = u32i (total_active_pixels * ideal_duty_cycle) div den;
       hblank = u32i (hblank + 8) div 16;
       hblank = u32i (hblank * 2 * 8);
       total_pixels = u32i (total_active_pixels + hblank);
       pixel_freq = u32i (total_pixels * hfreq_est) div 1000;
       hsync = s32i (u32i (8 * total_pixels) div 100);
       hsync = s32i (hsync + 4) sdiv 8;
       hsync = s32i (hsync * 8);
       hfront_porch = s32i (hblank div 2 - hsync);
       m = zero_mode\<lparr>dm_hdisplay := s32i hdisplay_rnd,
             dm_hsync_start := s32i (hdisplay_rnd + hfront_porch),
             dm_hsync_end := s32i (hdisplay_rnd + hfront_porch + hsync),
             dm_htotal := s32i total_pixels,
             dm_vdisplay := s32i vdisplay_rnd,
             dm_vsync_start := s32i (vdisplay_rnd + 1),
             dm_vsync_end := s32i (vdisplay_rnd + 1 + 3),
             dm_vtotal := s32i vtotal_lines,
             dm_clock := s32i pixel_freq\<rparr>;
       m = (if interlaced
            then m\<lparr>dm_vtotal := s32i (dm_vtotal m * 2),
                   dm_flags := dm_flags m OR DRM_MODE_FLAG_INTERLACE\<rparr> else m);
       m = drm_mode_set_name m
     in Ok (Some (m\<lparr>dm_flags :=
          (if gM = 600 \<and> g2C = 80 \<and> gK = 128 \<and> g2J = 40
           then DRM_MODE_FLAG_NHSYNC OR DRM_MODE_FLAG_PVSYNC
           else DRM_MODE_FLAG_PHSYNC OR DRM_MODE_FLAG_NVSYNC)\<rparr>)))"

definition drm_gtf_mode ::
    "bool \<Rightarrow> int \<Rightarrow> int \<Rightarrow> int \<Rightarrow> bool \<Rightarrow> bool \<Rightarrow> drm_display_mode option outcome" where
  "drm_gtf_mode alloc hdisplay vdisplay vrefresh lace margins =
     drm_gtf_mode_complex alloc hdisplay vdisplay vrefresh lace margins 600 (40 * 2) 128 (20 * 2)"

end
