(* ===== verification/Drm_Mode_Lists.thy ===== *)
theory Drm_Mode_Lists
  imports Drm_Modes "HOL-Library.Multiset"
begin

text \<open>
  The rest of \<^verbatim>\<open>drm/drm_modes.c\<close> but the command line: derived rates, CRTC timings, copying,
  equality and the operations on mode lists.  \<^verbatim>\<open>list_sort\<close> is the kernel's merge sort, an
  argument of \<open>drm_mode_sort\<close>.
\<close>

section \<open>Rates and CRTC timings\<close>

definition drm_mode_width :: "drm_display_mode \<Rightarrow> int" where
  "drm_mode_width m = dm_hdisplay m"

definition drm_mode_height :: "drm_display_mode \<Rightarrow> int" where
  "drm_mode_height m = dm_vdisplay m"

definition drm_mode_hsync :: "drm_display_mode \<Rightarrow> int outcome" where
  "drm_mode_hsync m =
     (if dm_hsync m \<noteq> 0 then Ok (dm_hsync m)
      else if dm_htotal m < 0 then Ok 0
      else if dm_htotal m = 0 then Bug
      else Ok (s32i (u32i (u32i (s32i (dm_clock m * 1000) sdiv dm_htotal m) + 500) div 1000)))"

definition drm_mode_vrefresh :: "drm_display_mode \<Rightarrow> int" where
  "drm_mode_vrefresh m =
     (if 0 < dm_vrefresh m then dm_vrefresh m
      else if 0 < dm_htotal m \<and> 0 < dm_vtotal m then let
        calc_val = u32i (s32i (dm_clock m * 1000)) div dm_htotal m;
        refresh = s32i (u32i (calc_val + dm_vtotal m sdiv 2) div dm_vtotal m);
        refresh = (if has (dm_flags m) DRM_MODE_FLAG_INTERLACE then s32i (refresh * 2) else refresh);
        refresh = (if has (dm_flags m) DRM_MODE_FLAG_DBLSCAN then refresh sdiv 2 else refresh)
      in (if 1 < dm_vscan m then refresh sdiv dm_vscan m else refresh)
      else 0)"

text \<open>The vertical CRTC values scaled by one step of the function.\<close>

definition scale_crtc_v :: "(int \<Rightarrow> int) \<Rightarrow> drm_display_mode \<Rightarrow> drm_display_mode" where
  "scale_crtc_v f p = p\<lparr>dm_crtc_vdisplay := f (dm_crtc_vdisplay p),
     dm_crtc_vsync_start := f (dm_crtc_vsync_start p),
     dm_crtc_vsync_end := f (dm_crtc_vsync_end p), dm_crtc_vtotal := f (dm_crtc_vtotal p)\<rparr>"

definition drm_mode_set_crtcinfo :: "drm_display_mode \<Rightarrow> u32 \<Rightarrow> drm_display_mode" where
  "drm_mode_set_crtcinfo p adjust_flags =
    (if dm_type p AND DRM_MODE_TYPE_CRTC_C = DRM_MODE_TYPE_BUILTIN then p else let
       p = p\<lparr>dm_crtc_hdisplay := dm_hdisplay p, dm_crtc_hsync_start := dm_hsync_start p,
             dm_crtc_hsync_end := dm_hsync_end p, dm_crtc_htotal := dm_htotal p,
             dm_crtc_hskew := dm_hskew p, dm_crtc_vdisplay := dm_vdisplay p,
             dm_crtc_vsync_start := dm_vsync_start p, dm_crtc_vsync_end := dm_vsync_end p,
             dm_crtc_vtotal := dm_vtotal p\<rparr>;
       p = (if has (dm_flags p) DRM_MODE_FLAG_INTERLACE \<and> has adjust_flags CRTC_INTERLACE_HALVE_V
            then scale_crtc_v (\<lambda>v. v sdiv 2) p else p);
       p = (if has (dm_flags p) DRM_MODE_FLAG_DBLSCAN then scale_crtc_v (\<lambda>v. s32i (v * 2)) p else p);
       p = (if 1 < dm_vscan p then scale_crtc_v (\<lambda>v. s32i (v * dm_vscan p)) p else p)
     in p\<lparr>dm_crtc_vblank_start := min (dm_crtc_vsync_start p) (dm_crtc_vdisplay p),
          dm_crtc_vblank_end := max (dm_crtc_vsync_end p) (dm_crtc_vtotal p),
          dm_crtc_hblank_start := min (dm_crtc_hsync_start p) (dm_crtc_hdisplay p),
          dm_crtc_hblank_end := max (dm_crtc_hsync_end p) (dm_crtc_htotal p)\<rparr>)"

section \<open>Equality\<close>

text \<open>The clocks are compared as periods in picoseconds, \<^verbatim>\<open>KHZ2PICOS\<close>, in 64 bits.\<close>

definition KHZ2PICOS :: "int \<Rightarrow> int" where
  "KHZ2PICOS a = 1000000000 div (a mod 2 ^ 64)"

definition drm_mode_equal :: "drm_display_mode \<Rightarrow> drm_display_mode \<Rightarrow> bool" where
  "drm_mode_equal a b \<longleftrightarrow>
     (if dm_clock a \<noteq> 0 \<and> dm_clock b \<noteq> 0 then KHZ2PICOS (dm_clock a) = KHZ2PICOS (dm_clock b)
      else dm_clock a = dm_clock b)
   \<and> dm_hdisplay a = dm_hdisplay b \<and> dm_hsync_start a = dm_hsync_start b
   \<and> dm_hsync_end a = dm_hsync_end b \<and> dm_htotal a = dm_htotal b \<and> dm_hskew a = dm_hskew b
   \<and> dm_vdisplay a = dm_vdisplay b \<and> dm_vsync_start a = dm_vsync_start b
   \<and> dm_vsync_end a = dm_vsync_end b \<and> dm_vtotal a = dm_vtotal b \<and> dm_vscan a = dm_vscan b
   \<and> dm_flags a = dm_flags b"

section \<open>Lists of modes\<close>

definition drm_mode_list_concat :: "'a list \<Rightarrow> 'a list \<Rightarrow> 'a list \<times> 'a list" where
  "drm_mode_list_concat head new = ([], new @ head)"

definition drm_mode_validate_size :: "int \<Rightarrow> int \<Rightarrow> int \<Rightarrow> drm_display_mode list \<Rightarrow> drm_display_mode list" where
  "drm_mode_validate_size maxX maxY maxPitch = map (\<lambda>m. let
       m = (if 0 < maxPitch \<and> maxPitch < dm_hdisplay m then m\<lparr>dm_status := MODE_BAD_WIDTH\<rparr> else m);
       m = (if 0 < maxX \<and> maxX < dm_hdisplay m then m\<lparr>dm_status := MODE_VIRTUAL_X\<rparr> else m)
     in (if 0 < maxY \<and> maxY < dm_vdisplay m then m\<lparr>dm_status := MODE_VIRTUAL_Y\<rparr> else m))"

definition drm_mode_validate_clocks :: "(int \<times> int) list \<Rightarrow> drm_display_mode list \<Rightarrow> drm_display_mode list" where
  "drm_mode_validate_clocks ranges = map (\<lambda>m.
     if list_ex (\<lambda>(lo, hi). lo \<le> dm_clock m \<and> dm_clock m \<le> hi) ranges then m
     else m\<lparr>dm_status := MODE_CLOCK_RANGE\<rparr>)"

definition drm_mode_prune_invalid :: "drm_display_mode list \<Rightarrow> drm_display_mode list" where
  "drm_mode_prune_invalid = filter (\<lambda>m. dm_status m = MODE_OK)"

definition drm_mode_compare :: "drm_display_mode \<Rightarrow> drm_display_mode \<Rightarrow> int" where
  "drm_mode_compare a b =
    (let diff = (if has (dm_type b) DRM_MODE_TYPE_PREFERRED then 1 else 0)
              - (if has (dm_type a) DRM_MODE_TYPE_PREFERRED then 1 else 0)
     in if diff \<noteq> 0 then diff
     else let diff = s32i (s32i (dm_hdisplay b * dm_vdisplay b) - s32i (dm_hdisplay a * dm_vdisplay a))
     in if diff \<noteq> 0 then diff
     else let diff = s32i (dm_vrefresh b - dm_vrefresh a)
     in if diff \<noteq> 0 then diff
     else s32i (dm_clock b - dm_clock a))"

type_synonym mode_sort = "(drm_display_mode \<Rightarrow> drm_display_mode \<Rightarrow> int) \<Rightarrow>
  drm_display_mode list \<Rightarrow> drm_display_mode list"

definition drm_mode_sort :: "mode_sort \<Rightarrow> drm_display_mode list \<Rightarrow> drm_display_mode list" where
  "drm_mode_sort list_sort mode_list = list_sort drm_mode_compare mode_list"

text \<open>One probed mode against the list of the connector: the first equal mode takes over its
  status and type bits.\<close>

fun update_one :: "drm_display_mode \<Rightarrow> drm_display_mode list \<Rightarrow> drm_display_mode list option" where
  "update_one pmode [] = None"
| "update_one pmode (m # ms) =
     (if drm_mode_equal pmode m
      then Some (m\<lparr>dm_status := dm_status pmode, dm_type := dm_type m OR dm_type pmode\<rparr> # ms)
      else map_option ((#) m) (update_one pmode ms))"

fun drm_mode_connector_list_update ::
    "drm_display_mode list \<Rightarrow> drm_display_mode list \<Rightarrow> drm_display_mode list" where
  "drm_mode_connector_list_update [] modes = modes"
| "drm_mode_connector_list_update (pmode # probed) modes =
     drm_mode_connector_list_update probed
       (case update_one pmode modes of None \<Rightarrow> modes @ [pmode] | Some ms \<Rightarrow> ms)"

section \<open>Laws of the list operations\<close>

lemma mode_equal_refl [simp]: "drm_mode_equal m m"
  by (simp add: drm_mode_equal_def)

lemma mode_equal_sym: "drm_mode_equal a b \<Longrightarrow> drm_mode_equal b a"
  by (auto simp: drm_mode_equal_def split: if_splits)

lemma mode_equal_trans: "drm_mode_equal a b \<Longrightarrow> drm_mode_equal b c \<Longrightarrow> drm_mode_equal a c"
  by (auto simp: drm_mode_equal_def split: if_splits)

text \<open>Status and type are not part of the comparison.\<close>

lemma mode_equal_upd [simp]:
  "drm_mode_equal (m\<lparr>dm_status := s, dm_type := t\<rparr>) n = drm_mode_equal m n"
  "drm_mode_equal n (m\<lparr>dm_status := s, dm_type := t\<rparr>) = drm_mode_equal n m"
  by (simp_all add: drm_mode_equal_def)

lemma update_one_None: "update_one p ms = None \<longleftrightarrow> (\<forall>m \<in> set ms. \<not> drm_mode_equal p m)"
  by (induction p ms rule: update_one.induct) auto

lemma update_one_equal:
  "update_one p ms = Some ms' \<Longrightarrow>
   list_all2 drm_mode_equal ms ms' \<and> (\<exists>m \<in> set ms'. drm_mode_equal p m \<and> dm_status m = dm_status p)"
proof (induction p ms arbitrary: ms' rule: update_one.induct)
  case (2 p m ms)
  show ?case
  proof (cases "drm_mode_equal p m")
    case True
    with 2 show ?thesis by (auto simp: list_all2_same)
  next
    case False
    with 2 show ?thesis by auto
  qed
qed simp

fun pairwise_different :: "drm_display_mode list \<Rightarrow> bool" where
  "pairwise_different [] = True"
| "pairwise_different (m # ms) = ((\<forall>n \<in> set ms. \<not> drm_mode_equal m n) \<and> pairwise_different ms)"

lemma pairwise_different_snoc:
  "pairwise_different (ms @ [m]) \<longleftrightarrow> pairwise_different ms \<and> (\<forall>n \<in> set ms. \<not> drm_mode_equal n m)"
  by (induction ms) auto

lemma all2_in: "list_all2 P xs ys \<Longrightarrow> y \<in> set ys \<Longrightarrow> \<exists>x \<in> set xs. P x y"
  by (metis in_set_conv_nth list_all2_conv_all_nth)

lemma all2_in': "list_all2 P xs ys \<Longrightarrow> x \<in> set xs \<Longrightarrow> \<exists>y \<in> set ys. P x y"
  by (metis in_set_conv_nth list_all2_conv_all_nth)

lemma pairwise_different_equal:
  "list_all2 drm_mode_equal ms ms' \<Longrightarrow> pairwise_different ms \<Longrightarrow> pairwise_different ms'"
proof (induction rule: list_all2_induct)
  case (Cons m ms m' ms')
  have "\<not> drm_mode_equal m' n'" if mem: "n' \<in> set ms'" for n'
  proof
    assume eq: "drm_mode_equal m' n'"
    obtain n where "n \<in> set ms" "drm_mode_equal n n'" using all2_in [OF Cons(2) mem] by blast
    then have "drm_mode_equal m n"
      using Cons(1) eq mode_equal_trans mode_equal_sym by blast
    then show False using Cons.prems \<open>n \<in> set ms\<close> by simp
  qed
  with Cons show ?case by simp
qed simp

text \<open>The update as a whole: no mode of either list is lost up to equality, nothing else is
  added, and no duplicates appear.\<close>

lemma list_update_spec:
  "\<exists>old new. drm_mode_connector_list_update probed modes = old @ new
     \<and> list_all2 drm_mode_equal modes old \<and> set new \<subseteq> {n. \<exists>p \<in> set probed. drm_mode_equal p n}
     \<and> (\<forall>p \<in> set probed. \<exists>m \<in> set (old @ new). drm_mode_equal p m)
     \<and> (pairwise_different modes \<longrightarrow> pairwise_different (old @ new))"
proof (induction probed modes rule: drm_mode_connector_list_update.induct)
  case (1 modes)
  then show ?case
    by (intro exI [of _ modes] exI [of _ "[]"]) (auto simp: list_all2_same)
next
  case (2 p probed modes)
  show ?case
  proof (cases "update_one p modes")
    case None
    then have diff: "\<forall>m \<in> set modes. \<not> drm_mode_equal p m" by (simp add: update_one_None)
    obtain old new where IH: "drm_mode_connector_list_update probed (modes @ [p]) = old @ new"
      "list_all2 drm_mode_equal (modes @ [p]) old" "set new \<subseteq> {n. \<exists>p \<in> set probed. drm_mode_equal p n}"
      "\<forall>p \<in> set probed. \<exists>m \<in> set (old @ new). drm_mode_equal p m"
      "pairwise_different (modes @ [p]) \<longrightarrow> pairwise_different (old @ new)"
      using "2.IH" None by auto
    from IH(2) obtain old1 p' where old: "old = old1 @ [p']" "list_all2 drm_mode_equal modes old1"
        "drm_mode_equal p p'"
      by (auto simp: list_all2_append1 list_all2_Cons1)
    have "pairwise_different modes \<longrightarrow> pairwise_different (modes @ [p])"
      using diff mode_equal_sym by (auto simp: pairwise_different_snoc)
    then show ?thesis
      using None IH old
      by (intro exI [of _ old1] exI [of _ "p' # new"]) auto
  next
    case (Some ms)
    note u = update_one_equal [OF Some]
    obtain old new where IH: "drm_mode_connector_list_update probed ms = old @ new"
      "list_all2 drm_mode_equal ms old" "set new \<subseteq> {n. \<exists>p \<in> set probed. drm_mode_equal p n}"
      "\<forall>p \<in> set probed. \<exists>m \<in> set (old @ new). drm_mode_equal p m"
      "pairwise_different ms \<longrightarrow> pairwise_different (old @ new)"
      using "2.IH" Some by auto
    have "list_all2 drm_mode_equal modes old"
      by (rule list_all2_trans [OF _ conjunct1 [OF u] IH(2)]) (rule mode_equal_trans)
    moreover have "\<exists>m \<in> set (old @ new). drm_mode_equal p m"
    proof -
      obtain m where m: "m \<in> set ms" "drm_mode_equal p m" using u by blast
      obtain m' where "m' \<in> set old" "drm_mode_equal m m'" using all2_in' [OF IH(2) m(1)] by blast
      then show ?thesis using m(2) mode_equal_trans by auto
    qed
    ultimately show ?thesis
      using Some IH u pairwise_different_equal by (intro exI [of _ old] exI [of _ new]) auto
  qed
qed

section \<open>The order of favourability\<close>

text \<open>What the comparison means for modes whose sizes and rates cannot overflow.\<close>

definition mode_bounded :: "drm_display_mode \<Rightarrow> bool" where
  "mode_bounded m \<longleftrightarrow> 0 \<le> dm_hdisplay m \<and> dm_hdisplay m < 2 ^ 15 \<and> 0 \<le> dm_vdisplay m \<and> dm_vdisplay m < 2 ^ 15
     \<and> 0 \<le> dm_vrefresh m \<and> dm_vrefresh m < 2 ^ 30 \<and> 0 \<le> dm_clock m \<and> dm_clock m < 2 ^ 30"

definition mode_key :: "drm_display_mode \<Rightarrow> int list" where
  "mode_key m = [(if has (dm_type m) DRM_MODE_TYPE_PREFERRED then 1 else 0),
     dm_hdisplay m * dm_vdisplay m, dm_vrefresh m, dm_clock m]"

fun lex_less :: "int list \<Rightarrow> int list \<Rightarrow> bool" where
  "lex_less (x # xs) (y # ys) = (x < y \<or> x = y \<and> lex_less xs ys)"
| "lex_less _ _ = False"

lemma bounded_area:
  "mode_bounded m \<Longrightarrow> 0 \<le> dm_hdisplay m * dm_vdisplay m \<and> dm_hdisplay m * dm_vdisplay m < 2 ^ 30"
proof
  assume b: "mode_bounded m"
  then show "0 \<le> dm_hdisplay m * dm_vdisplay m" by (simp add: mode_bounded_def)
  have "dm_hdisplay m * dm_vdisplay m \<le> (2 ^ 15 - 1) * (2 ^ 15 - 1)"
    using b by (intro mult_mono) (auto simp: mode_bounded_def)
  then show "dm_hdisplay m * dm_vdisplay m < 2 ^ 30" by simp
qed

lemma compare_key:
  assumes "mode_bounded a" and "mode_bounded b"
  shows "0 < drm_mode_compare a b \<longleftrightarrow> lex_less (mode_key a) (mode_key b)"
    and "drm_mode_compare a b = 0 \<longleftrightarrow> mode_key a = mode_key b"
proof -
  note ab = bounded_area [OF assms(1)] bounded_area [OF assms(2)]
  have s: "s32i (dm_hdisplay a * dm_vdisplay a) = dm_hdisplay a * dm_vdisplay a"
    "s32i (dm_hdisplay b * dm_vdisplay b) = dm_hdisplay b * dm_vdisplay b"
    "s32i (dm_hdisplay b * dm_vdisplay b - dm_hdisplay a * dm_vdisplay a) =
       dm_hdisplay b * dm_vdisplay b - dm_hdisplay a * dm_vdisplay a"
    "s32i (dm_vrefresh b - dm_vrefresh a) = dm_vrefresh b - dm_vrefresh a"
    "s32i (dm_clock b - dm_clock a) = dm_clock b - dm_clock a"
    using ab assms unfolding mode_bounded_def by (blast intro: s32i_small)+
  show "0 < drm_mode_compare a b \<longleftrightarrow> lex_less (mode_key a) (mode_key b)"
    by (auto simp: drm_mode_compare_def mode_key_def s Let_def)
  show "drm_mode_compare a b = 0 \<longleftrightarrow> mode_key a = mode_key b"
    by (auto simp: drm_mode_compare_def mode_key_def s Let_def)
qed

end
