(* ===== verification/Drm_Mode_Cmdline.thy ===== *)
theory Drm_Mode_Cmdline
  imports Drm_Mode_Lists
begin

text \<open>
  The mode given on the command line, the parser and the constructor at the end of
  \<^verbatim>\<open>drm/drm_modes.c\<close>.  The parser reads the text from its end; the loop's variables are the
  record \<open>cmdline_scan\<close>, and a \<^verbatim>\<open>goto done\<close> of the switch is \<open>None\<close>.
\<close>

section \<open>State\<close>

datatype drm_connector_force = DRM_FORCE_UNSPECIFIED | DRM_FORCE_OFF | DRM_FORCE_ON | DRM_FORCE_ON_DIGITAL

record drm_cmdline_mode =
  cm_specified :: bool
  cm_refresh_specified :: bool
  cm_bpp_specified :: bool
  cm_xres :: int
  cm_yres :: int
  cm_bpp :: int
  cm_refresh :: int
  cm_rb :: bool
  cm_interlace :: bool
  cm_cvt :: bool
  cm_margins :: bool
  cm_force :: drm_connector_force

record cmdline_scan =
  cs_bpp_specified :: bool
  cs_refresh_specified :: bool
  cs_yres_specified :: bool
  cs_yres :: int
  cs_bpp :: int
  cs_refresh :: int
  cs_cvt :: bool
  cs_rb :: bool
  cs_interlace :: bool
  cs_margins :: bool
  cs_was_digit :: bool
  cs_force :: drm_connector_force

definition cmdline_start :: cmdline_scan where
  "cmdline_start = \<lparr>cs_bpp_specified = False, cs_refresh_specified = False,
     cs_yres_specified = False, cs_yres = 0, cs_bpp = 32, cs_refresh = 0, cs_cvt = False,
     cs_rb = False, cs_interlace = False, cs_margins = False, cs_was_digit = False,
     cs_force = DRM_FORCE_UNSPECIFIED\<rparr>"

definition DRM_MODE_CONNECTOR_DVII :: int where "DRM_MODE_CONNECTOR_DVII = 2"
definition DRM_MODE_CONNECTOR_HDMIB :: int where "DRM_MODE_CONNECTOR_HDMIB = 12"

section \<open>The parser\<close>

text \<open>One character; \<open>sfx\<close> is \<^verbatim>\<open>&name[i+1]\<close>.  An \<open>x\<close> that is accepted falls through to the
  digits' case, which sets \<^verbatim>\<open>was_digit\<close>.\<close>

definition cmdline_char :: "int \<Rightarrow> char \<Rightarrow> string \<Rightarrow> cmdline_scan \<Rightarrow> cmdline_scan option" where
  "cmdline_char connector_type c sfx s =
    (if c = CHR ''@'' then
       (if \<not> cs_refresh_specified s \<and> \<not> cs_bpp_specified s \<and> \<not> cs_yres_specified s
          \<and> \<not> cs_cvt s \<and> \<not> cs_rb s \<and> cs_was_digit s
        then Some (s\<lparr>cs_refresh := u32i (fst (strtol10 sfx)), cs_refresh_specified := True,
                     cs_was_digit := False\<rparr>)
        else None)
     else if c = CHR ''-'' then
       (if \<not> cs_bpp_specified s \<and> \<not> cs_yres_specified s \<and> \<not> cs_cvt s \<and> \<not> cs_rb s \<and> cs_was_digit s
        then Some (s\<lparr>cs_bpp := u32i (fst (strtol10 sfx)), cs_bpp_specified := True,
                     cs_was_digit := False\<rparr>)
        else None)
     else if c = CHR ''x'' then
       (if \<not> cs_yres_specified s \<and> cs_was_digit s
        then Some (s\<lparr>cs_yres := u32i (fst (strtol10 sfx)), cs_yres_specified := True,
                     cs_was_digit := True\<rparr>)
        else None)
     else if is_digit c then Some (s\<lparr>cs_was_digit := True\<rparr>)
     else if c = CHR ''M'' then
       (if cs_yres_specified s \<or> cs_cvt s \<or> cs_was_digit s then None else Some (s\<lparr>cs_cvt := True\<rparr>))
     else if c = CHR ''R'' then
       (if cs_yres_specified s \<or> cs_cvt s \<or> cs_rb s \<or> cs_was_digit s then None
        else Some (s\<lparr>cs_rb := True\<rparr>))
     else if c = CHR ''m'' then
       (if cs_cvt s \<or> cs_yres_specified s \<or> cs_was_digit s then None
        else Some (s\<lparr>cs_margins := True\<rparr>))
     else if c = CHR ''i'' then
       (if cs_cvt s \<or> cs_yres_specified s \<or> cs_was_digit s then None
        else Some (s\<lparr>cs_interlace := True\<rparr>))
     else if c = CHR ''e'' \<or> c = CHR ''D'' \<or> c = CHR ''d'' then
       (if cs_yres_specified s \<or> cs_bpp_specified s \<or> cs_refresh_specified s \<or> cs_was_digit s
          \<or> cs_force s \<noteq> DRM_FORCE_UNSPECIFIED then None
        else Some (s\<lparr>cs_force :=
               (if c = CHR ''e'' then DRM_FORCE_ON
                else if c = CHR ''d'' then DRM_FORCE_OFF
                else if connector_type \<noteq> DRM_MODE_CONNECTOR_DVII
                      \<and> connector_type \<noteq> DRM_MODE_CONNECTOR_HDMIB then DRM_FORCE_ON
                else DRM_FORCE_ON_DIGITAL)\<rparr>))
     else None)"

text \<open>The loop over the reversed text; the result holds the index it stopped at, -1 at the end.\<close>

fun cmdline_loop :: "int \<Rightarrow> string \<Rightarrow> string \<Rightarrow> cmdline_scan \<Rightarrow> cmdline_scan \<times> int" where
  "cmdline_loop ct [] sfx s = (s, - 1)"
| "cmdline_loop ct (c # cs) sfx s =
     (case cmdline_char ct c sfx s of
        None \<Rightarrow> (s, int (length cs))
      | Some s' \<Rightarrow> cmdline_loop ct cs (c # sfx) s')"

definition drm_mode_parse_command_line_for_connector ::
    "string option \<Rightarrow> int \<Rightarrow> drm_cmdline_mode \<Rightarrow> bool \<times> drm_cmdline_mode" where
  "drm_mode_parse_command_line_for_connector mode_option ct mode =
    (case mode_option of
       None \<Rightarrow> (False, mode\<lparr>cm_specified := False\<rparr>)
     | Some name \<Rightarrow>
         (case cmdline_loop ct (rev name) [] cmdline_start of
            (s, i) \<Rightarrow>
              let (xres, ch) = strtol10 name;
                  res_specified = (i < 0 \<and> cs_yres_specified s \<and> ch \<noteq> [] \<and> hd ch = CHR ''x'');
                  i = (if 0 \<le> i then i
                       else if cs_yres_specified s
                       then (if res_specified then i else int (length name - length ch))
                       else if cs_was_digit s then 0 else i)
              in if 0 \<le> i then (False, mode\<lparr>cm_specified := False\<rparr>)
                 else let
                   mode = (if res_specified
                           then mode\<lparr>cm_specified := True, cm_xres := s32i (u32i xres),
                                     cm_yres := s32i (cs_yres s)\<rparr> else mode);
                   mode = (if cs_refresh_specified s
                           then mode\<lparr>cm_refresh_specified := True, cm_refresh := s32i (cs_refresh s)\<rparr>
                           else mode);
                   mode = (if cs_bpp_specified s
                           then mode\<lparr>cm_bpp_specified := True, cm_bpp := s32i (cs_bpp s)\<rparr> else mode)
                 in (True, mode\<lparr>cm_rb := cs_rb s, cm_cvt := cs_cvt s,
                       cm_interlace := cs_interlace s, cm_margins := cs_margins s,
                       cm_force := cs_force s\<rparr>)))"

definition drm_mode_create_from_cmdline_mode ::
    "bool \<Rightarrow> drm_cmdline_mode \<Rightarrow> drm_display_mode option outcome" where
  "drm_mode_create_from_cmdline_mode alloc cmd =
     bind_outcome
       (if cm_cvt cmd
        then drm_cvt_mode alloc (cm_xres cmd) (cm_yres cmd)
               (if cm_refresh_specified cmd then cm_refresh cmd else 60)
               (cm_rb cmd) (cm_interlace cmd) (cm_margins cmd)
        else drm_gtf_mode alloc (cm_xres cmd) (cm_yres cmd)
               (if cm_refresh_specified cmd then cm_refresh cmd else 60)
               (cm_interlace cmd) (cm_margins cmd))
       (\<lambda>m. Ok (map_option (\<lambda>m. drm_mode_set_crtcinfo m CRTC_INTERLACE_HALVE_V) m))"

section \<open>Printing the option string\<close>

text \<open>The documented form \<^verbatim>\<open><xres>x<yres>[M][R][-<bpp>][@<refresh>][i][m]\<close> of an option.\<close>

definition opt_num :: "char \<Rightarrow> nat option \<Rightarrow> string" where
  "opt_num c n = (case n of None \<Rightarrow> [] | Some k \<Rightarrow> c # show_nat k)"

definition opt_flag :: "char \<Rightarrow> bool \<Rightarrow> string" where
  "opt_flag c b = (if b then [c] else [])"

definition print_cmdline :: "nat \<Rightarrow> nat \<Rightarrow> bool \<Rightarrow> bool \<Rightarrow> nat option \<Rightarrow> nat option \<Rightarrow> bool \<Rightarrow> bool \<Rightarrow> string" where
  "print_cmdline x y cvt rb bpp refresh interlace margins =
     show_nat x @ ''x'' @ show_nat y @ opt_flag CHR ''M'' cvt @ opt_flag CHR ''R'' rb
     @ opt_num CHR ''-'' bpp @ opt_num CHR ''@'' refresh
     @ opt_flag CHR ''i'' interlace @ opt_flag CHR ''m'' margins"

section \<open>Reading it back\<close>

lemma digit_ne [simp]:
  "is_digit c \<Longrightarrow> c \<noteq> CHR ''@'' \<and> c \<noteq> CHR ''-'' \<and> c \<noteq> CHR ''x'' \<and> c \<noteq> CHR ''i'' \<and> c \<noteq> CHR ''m''"
  by (auto simp: is_digit_def)

lemma char_digit: "is_digit c \<Longrightarrow> cmdline_char ct c sfx s = Some (s\<lparr>cs_was_digit := True\<rparr>)"
  by (simp add: cmdline_char_def)

lemma loop_digits:
  "ds \<noteq> [] \<Longrightarrow> \<forall>d \<in> set ds. is_digit d \<Longrightarrow>
   cmdline_loop ct (rev ds @ cs) sfx s = cmdline_loop ct cs (ds @ sfx) (s\<lparr>cs_was_digit := True\<rparr>)"
proof (induction ds arbitrary: sfx s rule: rev_induct)
  case (snoc d ds)
  then show ?case by (cases "ds = []") (simp_all add: char_digit)
qed simp

lemma loop_nat:
  "cmdline_loop ct (rev (show_nat n) @ cs) sfx s =
     cmdline_loop ct cs (show_nat n @ sfx) (s\<lparr>cs_was_digit := True\<rparr>)"
  by (rule loop_digits) (simp_all add: show_nat_digits)

text \<open>The state after each part of the string, read from the right.\<close>

definition after_flags :: "bool \<Rightarrow> bool \<Rightarrow> cmdline_scan" where
  "after_flags interlace margins = cmdline_start\<lparr>cs_interlace := interlace, cs_margins := margins\<rparr>"

definition no_digit :: "string \<Rightarrow> bool" where
  "no_digit s \<longleftrightarrow> s = [] \<or> \<not> is_digit (hd s)"

lemma loop_flags:
  "cmdline_loop ct (rev (opt_flag CHR ''i'' il @ opt_flag CHR ''m'' mg) @ cs) [] cmdline_start =
     cmdline_loop ct cs (opt_flag CHR ''i'' il @ opt_flag CHR ''m'' mg) (after_flags il mg)"
  by (auto simp: opt_flag_def after_flags_def cmdline_char_def cmdline_start_def is_digit_def)

lemma strtol_suffix:
  "n < 2 ^ 31 \<Longrightarrow> no_digit rest \<Longrightarrow> u32i (fst (strtol10 (show_nat n @ rest))) = int n"
  by (subst strtol10_show_nat) (auto simp: no_digit_def u32i_id)

definition with_refresh :: "nat option \<Rightarrow> cmdline_scan \<Rightarrow> cmdline_scan" where
  "with_refresh r s = (case r of None \<Rightarrow> s
     | Some n \<Rightarrow> s\<lparr>cs_refresh := int n, cs_refresh_specified := True, cs_was_digit := False\<rparr>)"

definition with_bpp :: "nat option \<Rightarrow> cmdline_scan \<Rightarrow> cmdline_scan" where
  "with_bpp b s = (case b of None \<Rightarrow> s
     | Some n \<Rightarrow> s\<lparr>cs_bpp := int n, cs_bpp_specified := True, cs_was_digit := False\<rparr>)"

lemma loop_refresh:
  assumes "\<forall>n. r = Some n \<longrightarrow> n < 2 ^ 31" and "no_digit rest"
  shows "cmdline_loop ct (rev (opt_num CHR ''@'' r) @ cs) rest (after_flags il mg) =
      cmdline_loop ct cs (opt_num CHR ''@'' r @ rest) (with_refresh r (after_flags il mg))"
proof (cases r)
  case (Some n)
  then show ?thesis
    using strtol_suffix [OF _ assms(2), of n] assms(1)
    by (simp add: opt_num_def with_refresh_def loop_nat)
       (simp add: cmdline_char_def after_flags_def cmdline_start_def)
qed (simp add: opt_num_def with_refresh_def)

lemma loop_bpp:
  assumes "\<forall>n. b = Some n \<longrightarrow> n < 2 ^ 31" and "no_digit rest"
  shows "cmdline_loop ct (rev (opt_num CHR ''-'' b) @ cs) rest (with_refresh r (after_flags il mg)) =
      cmdline_loop ct cs (opt_num CHR ''-'' b @ rest) (with_bpp b (with_refresh r (after_flags il mg)))"
proof (cases b)
  case (Some n)
  then show ?thesis
    using strtol_suffix [OF _ assms(2), of n] assms(1)
    by (simp add: opt_num_def with_bpp_def loop_nat)
       (simp add: cmdline_char_def after_flags_def cmdline_start_def with_refresh_def split: option.splits)
qed (simp add: opt_num_def with_bpp_def)

lemma loop_cvt_rb:
  "cmdline_loop ct (rev (opt_flag CHR ''M'' cvt @ opt_flag CHR ''R'' rb) @ cs) rest
       (with_bpp b (with_refresh r (after_flags il mg))) =
     cmdline_loop ct cs (opt_flag CHR ''M'' cvt @ opt_flag CHR ''R'' rb @ rest)
       (with_bpp b (with_refresh r (after_flags il mg))\<lparr>cs_cvt := cvt, cs_rb := rb\<rparr>)"
  by (auto simp: opt_flag_def with_bpp_def with_refresh_def after_flags_def cmdline_start_def
      cmdline_char_def is_digit_def split: option.splits)

lemma no_digit_flags:
  "no_digit (opt_flag CHR ''i'' il @ opt_flag CHR ''m'' mg)"
  "no_digit rest \<Longrightarrow> no_digit (opt_num CHR ''@'' r @ rest)"
  "no_digit rest \<Longrightarrow> no_digit (opt_num CHR ''-'' r @ rest)"
  "no_digit rest \<Longrightarrow> no_digit (opt_flag CHR ''M'' cvt @ opt_flag CHR ''R'' rb @ rest)"
  by (auto simp: no_digit_def opt_flag_def opt_num_def is_digit_def split: option.splits)

text \<open>The whole loop.\<close>

lemma loop_print:
  assumes n: "x < 2 ^ 31" "y < 2 ^ 31" "\<forall>n. b = Some n \<longrightarrow> n < 2 ^ 31" "\<forall>n. r = Some n \<longrightarrow> n < 2 ^ 31"
  shows "cmdline_loop ct (rev (print_cmdline x y cvt rb b r il mg)) [] cmdline_start =
    ((with_bpp b (with_refresh r (after_flags il mg)))\<lparr>cs_cvt := cvt, cs_rb := rb, cs_yres := int y,
       cs_yres_specified := True, cs_was_digit := True\<rparr>, - 1)"
proof -
  let ?f = "opt_flag CHR ''i'' il @ opt_flag CHR ''m'' mg"
  let ?r = "opt_num CHR ''@'' r @ ?f"
  let ?b = "opt_num CHR ''-'' b @ ?r"
  let ?c = "opt_flag CHR ''M'' cvt @ opt_flag CHR ''R'' rb @ ?b"
  let ?s = "with_bpp b (with_refresh r (after_flags il mg))\<lparr>cs_cvt := cvt, cs_rb := rb\<rparr>"
  have p: "rev (print_cmdline x y cvt rb b r il mg) =
     rev ?f @ rev (opt_num CHR ''@'' r) @ rev (opt_num CHR ''-'' b)
     @ rev (opt_flag CHR ''M'' cvt @ opt_flag CHR ''R'' rb) @ rev (show_nat y) @ CHR ''x'' # rev (show_nat x)"
    by (simp add: print_cmdline_def)
  have y: "u32i (fst (strtol10 (show_nat y @ ?c))) = int y"
    by (rule strtol_suffix [OF n(2)]) (simp add: no_digit_flags)
  have x: "cmdline_loop ct (rev (show_nat x)) sfx s =  (s\<lparr>cs_was_digit := True\<rparr>, - 1)" for sfx s
    using loop_nat [of ct x "[]" sfx s] by simp
  have "\<not> cs_yres_specified ?s"
    by (simp add: with_bpp_def with_refresh_def after_flags_def cmdline_start_def split: option.splits)
  then show ?thesis
    unfolding p by (simp only: loop_flags loop_refresh [OF n(4) no_digit_flags(1)]
      loop_bpp [OF n(3) no_digit_flags(2) [OF no_digit_flags(1)]] loop_cvt_rb loop_nat)
     (simp add: cmdline_char_def y x)
qed

lemma print_strtol:
  "x < 2 ^ 31 \<Longrightarrow> strtol10 (print_cmdline x y cvt rb b r il mg) =
     (int x, CHR ''x'' # show_nat y @ opt_flag CHR ''M'' cvt @ opt_flag CHR ''R'' rb
     @ opt_num CHR ''-'' b @ opt_num CHR ''@'' r @ opt_flag CHR ''i'' il @ opt_flag CHR ''m'' mg)"
  unfolding print_cmdline_def by (subst strtol10_show_nat) (auto simp: is_digit_def)

end
