(* ===== verification/Drm_Mode_Timing.thy ===== *)
theory Drm_Mode_Timing
  imports Drm_Modes
begin

text \<open>
  The timings of the CVT generator on the sizes and rates of real monitors: no step of the
  computation leaves its type but the product of the pixel clock, and the sync pulses lie in
  order between the active area and the totals.
\<close>

section \<open>The requests considered\<close>

definition cvt_domain :: "int \<Rightarrow> int \<Rightarrow> int \<Rightarrow> bool \<Rightarrow> bool" where
  "cvt_domain hdisplay vdisplay vrefresh interlaced \<longleftrightarrow>
     320 \<le> hdisplay \<and> hdisplay \<le> 8192 \<and> 200 \<le> vdisplay \<and> vdisplay \<le> 8192
   \<and> 50 \<le> vrefresh \<and> vrefresh \<le> 240 \<and> (interlaced \<longrightarrow> 400 \<le> vdisplay)"

text \<open>What both halves of the generator receive.\<close>

definition cvt_field :: "drm_display_mode \<Rightarrow> int \<Rightarrow> int \<Rightarrow> int \<Rightarrow> int \<Rightarrow> bool" where
  "cvt_field m vf vr vm vsync \<longleftrightarrow>
     320 \<le> dm_hdisplay m \<and> dm_hdisplay m \<le> 8486 \<and> 8 dvd dm_hdisplay m
   \<and> 50 \<le> vf \<and> vf \<le> 480 \<and> 200 \<le> vr \<and> vr \<le> 8192 \<and> 0 \<le> vm \<and> vm \<le> 147 \<and> 4 \<le> vsync \<and> vsync \<le> 10
   \<and> 0 \<le> dm_vdisplay m \<and> dm_vdisplay m \<le> 9000"

section \<open>Blanking\<close>

lemma div_between:
  fixes a b :: int
  assumes "0 < b"
  shows "lo * b \<le> a \<Longrightarrow> lo \<le> a div b" and "a < (hi + 1) * b \<Longrightarrow> a div b \<le> hi"
proof -
  show "lo \<le> a div b" if "lo * b \<le> a"
    using zdiv_mono1 [OF that assms] assms by simp
  show "a div b \<le> hi" if "a < (hi + 1) * b"
  proof (rule ccontr)
    assume "\<not> a div b \<le> hi"
    then have "(hi + 1) * b \<le> (a div b) * b" using assms by (intro mult_right_mono) auto
    also have "\<dots> \<le> a" using assms by (metis div_mult_mod_eq le_add_same_cancel1 pos_mod_sign)
    finally show False using that by simp
  qed
qed

text \<open>The blanking of full CVT: the duty cycle is between 20 and 30 percent.\<close>

lemma hblank_bounds:
  fixes H p :: int
  assumes "320 \<le> H" and "20000 \<le> p" and "p \<le> 30000"
  defines "hb \<equiv> H * p div (100000 - p)"
  shows "H < 4 * (hb + 1)" and "7 * hb \<le> 3 * H" and "0 \<le> hb"
proof -
  have pos: "0 < 100000 - p" using assms by simp
  show nn: "0 \<le> hb" unfolding hb_def using assms by (intro pos_imp_zdiv_nonneg_iff [THEN iffD2]) auto
  have lo: "hb * (100000 - p) \<le> H * p"
    unfolding hb_def using pos by (metis div_mult_mod_eq le_add_same_cancel1 pos_mod_sign)
  have hi: "H * p < (hb + 1) * (100000 - p)"
  proof -
    have "H * p = hb * (100000 - p) + H * p mod (100000 - p)" unfolding hb_def by (rule div_mult_mod_eq [symmetric])
    moreover have "H * p mod (100000 - p) < 100000 - p" using pos by simp
    ultimately show ?thesis by (simp add: algebra_simps)
  qed
  have "H * 20000 \<le> H * p" using assms by (intro mult_left_mono) auto
  also have "\<dots> < (hb + 1) * (100000 - p)" by (rule hi)
  also have "\<dots> \<le> (hb + 1) * 80000" using assms nn by (intro mult_left_mono) auto
  finally show "H < 4 * (hb + 1)" by simp
  have "hb * 70000 \<le> hb * (100000 - p)" using assms nn by (intro mult_left_mono) auto
  also have "\<dots> \<le> H * p" by (rule lo)
  also have "\<dots> \<le> H * 30000" using assms by (intro mult_left_mono) auto
  finally show "7 * hb \<le> 3 * H" by simp
qed

text \<open>The estimated line period, in units of which the lines of the blanking are counted.\<close>

lemma full_period_bounds:
  fixes vf vr vm il :: int
  assumes "50 \<le> vf" "vf \<le> 480" "200 \<le> vr" "vr \<le> 8192" "0 \<le> vm" "vm \<le> 147" "0 \<le> il" "il \<le> 1"
  defines "den \<equiv> ((vr + 2 * vm + 3) * 2 + il) * vf"
  shows "20300 \<le> den" and "den \<le> 8149920"
    and "180 \<le> (1000000000 - 550000 * vf) * 2 div den" and "(1000000000 - 550000 * vf) * 2 div den \<le> 95900"
proof -
  have "406 * 50 \<le> den" unfolding den_def using assms(1-8) by (intro mult_mono) auto
  then show a: "20300 \<le> den" by simp
  have "den \<le> 16979 * 480" unfolding den_def using assms(1-8) by (intro mult_mono) auto
  then show b: "den \<le> 8149920" by simp
  have "180 * den \<le> (1000000000 - 550000 * vf) * 2" using b assms(2) by simp
  then show "180 \<le> (1000000000 - 550000 * vf) * 2 div den" using a by (intro div_between) auto
  have "(1000000000 - 550000 * vf) * 2 < (95900 + 1) * den" using a assms(1) by simp
  then show "(1000000000 - 550000 * vf) * 2 div den \<le> 95900" using a by (intro div_between) auto
qed

lemma reduced_period_bounds:
  fixes vf vr vm :: int
  assumes "50 \<le> vf" "vf \<le> 480" "200 \<le> vr" "vr \<le> 8192" "0 \<le> vm" "vm \<le> 147"
  defines "den \<equiv> (vr + 2 * vm) * vf"
  shows "10000 \<le> den" and "den \<le> 4073280"
    and "180 \<le> (1000000000 - 460000 * vf) div den" and "(1000000000 - 460000 * vf) div den \<le> 98000"
proof -
  have "200 * 50 \<le> den" unfolding den_def using assms(1-6) by (intro mult_mono) auto
  then show a: "10000 \<le> den" by simp
  have "den \<le> 8486 * 480" unfolding den_def using assms(1-6) by (intro mult_mono) auto
  then show b: "den \<le> 4073280" by simp
  have "180 * den \<le> 1000000000 - 460000 * vf" using b assms(2) by simp
  then show "180 \<le> (1000000000 - 460000 * vf) div den" using a by (intro div_between) auto
  have "1000000000 - 460000 * vf < (98000 + 1) * den" using a assms(1) by simp
  then show "(1000000000 - 460000 * vf) div den \<le> 98000" using a by (intro div_between) auto
qed

section \<open>The two halves\<close>

text \<open>What a half returns: the period and the mode with ordered timings.\<close>

definition cvt_timed ::
    "drm_display_mode \<Rightarrow> int \<Rightarrow> int \<Rightarrow> int \<Rightarrow> int \<Rightarrow> drm_display_mode \<Rightarrow> bool" where
  "cvt_timed m vr vm vsync hperiod m' \<longleftrightarrow>
     180 \<le> hperiod \<and> hperiod \<le> 98000
   \<and> dm_hdisplay m' = dm_hdisplay m \<and> dm_vdisplay m' = dm_vdisplay m \<and> dm_flags m' = dm_flags m
   \<and> dm_hdisplay m' \<le> dm_hsync_start m' \<and> dm_hsync_start m' < dm_hsync_end m'
   \<and> dm_hsync_end m' < dm_htotal m' \<and> dm_htotal m' < 16384
   \<and> 8 dvd dm_hsync_start m' \<and> 8 dvd dm_hsync_end m' \<and> 8 dvd dm_htotal m'
   \<and> dm_vsync_start m' = dm_vdisplay m + 3 \<and> dm_vsync_end m' = dm_vdisplay m + 3 + vsync
   \<and> vr + 2 * vm + 6 + vsync \<le> dm_vtotal m' \<and> dm_vtotal m' < 16384"

lemma sync_back_porch: "180 \<le> (hp :: int) \<Longrightarrow> 0 \<le> 550000 div hp \<and> 550000 div hp \<le> 3055"
  by (auto intro!: div_between(2) simp: pos_imp_zdiv_nonneg_iff)

lemma reduced_lines: "180 \<le> (hp :: int) \<Longrightarrow> 0 \<le> 460000 div hp \<and> 460000 div hp \<le> 2555"
  by (auto intro!: div_between(2) simp: pos_imp_zdiv_nonneg_iff)

lemma cvt_reduced_timed:
  assumes f: "cvt_field m vf vr vm vsync"
  shows "\<exists>hp m'. cvt_reduced m vf vr vm vsync = Ok (hp, m') \<and> cvt_timed m vr vm vsync hp m'"
proof -
  have b: "50 \<le> vf" "vf \<le> 480" "200 \<le> vr" "vr \<le> 8192" "0 \<le> vm" "vm \<le> 147" "4 \<le> vsync" "vsync \<le> 10"
    and H: "320 \<le> dm_hdisplay m" "dm_hdisplay m \<le> 8486" "8 dvd dm_hdisplay m"
    and V: "0 \<le> dm_vdisplay m" "dm_vdisplay m \<le> 9000"
    using f by (auto simp: cvt_field_def)
  note p = reduced_period_bounds [OF b(1-6)]
  define den where "den = (vr + 2 * vm) * vf"
  define hp where "hp = (1000000000 - 460000 * vf) div den"
  have hp: "180 \<le> hp" "hp \<le> 98000" using p by (simp_all add: hp_def den_def)
  note q = reduced_lines [OF hp(1)]
  have s: "s32i (vr + 2 * vm) = vr + 2 * vm" "u32i ((vr + 2 * vm) * vf) = den"
    "s32i (1000 * 1000000 - 460 * 1000 * vf) = 1000000000 - 460000 * vf"
    "u32i (1000000000 - 460000 * vf) = 1000000000 - 460000 * vf"
    using b p by (auto simp: den_def intro!: s32i_id u32i_id)
  have vb: "s32i (460 * 1000 div hp + 1) = 460000 div hp + 1" using q by (simp add: s32i_id)
  define vb where "vb = (if 460000 div hp + 1 < 3 + vsync + 6 then 3 + vsync + 6 else 460000 div hp + 1)"
  have vbb: "9 + vsync \<le> vb" "vb \<le> 2556" using q b by (auto simp: vb_def)
  have nz: "den \<noteq> 0" "hp \<noteq> 0" using p(1) hp(1) by (auto simp: den_def)
  have "cvt_reduced m vf vr vm vsync = Ok (hp, m\<lparr>dm_vtotal := s32i (vr + 2 * vm + vb),
               dm_htotal := s32i (dm_hdisplay m + 160),
               dm_hsync_end := s32i (dm_hdisplay m + 160 sdiv 2),
               dm_hsync_start := s32i (dm_hdisplay m + 160 sdiv 2 - 32),
               dm_vsync_start := s32i (dm_vdisplay m + 3),
               dm_vsync_end := s32i (dm_vdisplay m + 3 + vsync)\<rparr>)"
    using nz by (simp only: cvt_reduced_def Let_def s hp_def [symmetric] vb vb_def [symmetric]) simp
  moreover have "s32i (vr + 2 * vm + vb) = vr + 2 * vm + vb"
      "s32i (dm_hdisplay m + 160) = dm_hdisplay m + 160"
      "s32i (dm_hdisplay m + 160 sdiv 2) = dm_hdisplay m + 80"
      "s32i (dm_hdisplay m + 160 sdiv 2 - 32) = dm_hdisplay m + 48"
      "s32i (dm_vdisplay m + 3) = dm_vdisplay m + 3"
      "s32i (dm_vdisplay m + 3 + vsync) = dm_vdisplay m + 3 + vsync"
    using b vbb H V by (simp_all add: sdiv_nonneg s32i_id)
  ultimately show ?thesis
    using hp b vbb H V by (auto simp: cvt_timed_def intro: dvd_add)
qed

text \<open>The horizontal timings of the full half, from the blanking found.\<close>

lemma full_line_timings:
  fixes H hb0 :: int
  assumes H: "320 \<le> H" "H \<le> 8486" "8 dvd H" and lo: "H < 4 * (hb0 + 1)" and up: "7 * hb0 \<le> 3 * H"
  defines "hb \<equiv> hb0 - hb0 mod 16"
  defines "e \<equiv> H + hb div 2"
  defines "s0 \<equiv> e - (H + hb) * 8 div 100"
  defines "s \<equiv> s0 + (8 - s0 mod 8)"
  shows "H \<le> s" "s < e" "e < H + hb" "H + hb < 16384" "8 dvd s" "8 dvd e" "8 dvd (H + hb)" "0 < s0"
    "0 \<le> hb" "s0 < 16384"
proof -
  have hb: "hb \<le> hb0" "hb0 < hb + 16" unfolding hb_def by simp_all
  have "16 dvd hb" unfolding hb_def by (rule dvd_minus_mod)
  then obtain k where k: "hb = 16 * k" by (rule dvdE)
  have e: "e = H + 8 * k" by (simp add: e_def k)
  have d: "(H + hb) * 8 div 100 * 100 \<le> (H + hb) * 8" "(H + hb) * 8 < ((H + hb) * 8 div 100 + 1) * 100"
    by (simp_all add: algebra_simps)
  define q where "q = (H + hb) * 8 div 100"
  have q: "100 * q \<le> 8 * H + 128 * k" "8 * H + 128 * k < 100 * q + 100"
    using d unfolding q_def k by (simp_all add: algebra_simps)
  have m: "0 \<le> s0 mod 8" "s0 mod 8 < 8" by simp_all
  have s0: "s0 = H + 8 * k - q" by (simp add: s0_def e q_def)
  have hb0: "H < 4 * hb0 + 4" "hb0 \<le> 16 * k + 15" using lo hb k by simp_all
  have k5: "5 \<le> k" using hb0 H(1) by linarith
  show "0 \<le> hb" using k k5 by simp
  have ge: "H \<le> s0"
    using q(1) hb0 H(1) unfolding s0 by linarith
  then show "H \<le> s" using m unfolding s_def by linarith
  show "0 < s0" using ge H(1) by linarith
  show "s < e" using q(2) k5 H(1) m unfolding s_def s0 e by linarith
  show "e < H + hb" using k5 unfolding e k by linarith
  show "H + hb < 16384" using up hb H(2) by linarith
  have "s0 \<le> e" using q(2) k5 H(1) unfolding s0 e by linarith
  then show "s0 < 16384" using \<open>e < H + hb\<close> \<open>H + hb < 16384\<close> by linarith
  have "8 dvd s0 - s0 mod 8" by (rule dvd_minus_mod)
  then have "8 dvd (s0 - s0 mod 8) + 8" by (rule dvd_add) simp
  then show "8 dvd s" unfolding s_def by (simp add: algebra_simps)
  show "8 dvd e" unfolding e using H(3) by (intro dvd_add) auto
  show "8 dvd (H + hb)" unfolding k using H(3) by (intro dvd_add) (auto intro: dvd_mult2)
qed

lemma timing_sel:
  "dm_hdisplay (m\<lparr>dm_vtotal := a\<rparr>) = dm_hdisplay m"
  "dm_htotal (m\<lparr>dm_vtotal := a, dm_htotal := b, dm_hsync_end := c\<rparr>) = b"
  "dm_hsync_end (m\<lparr>dm_vtotal := a, dm_htotal := b, dm_hsync_end := c\<rparr>) = c"
  "dm_vdisplay (m\<lparr>dm_vtotal := a, dm_htotal := b, dm_hsync_end := c\<rparr>) = dm_vdisplay m"
  by simp_all

lemma cvt_full_timed:
  assumes f: "cvt_field m vf vr vm vsync" and il: "il = 0 \<or> il = (1 :: int)"
  shows "\<exists>hp m'. cvt_full m vf vr vm vsync il = Ok (hp, m') \<and> cvt_timed m vr vm vsync hp m'"
proof -
  have b: "50 \<le> vf" "vf \<le> 480" "200 \<le> vr" "vr \<le> 8192" "0 \<le> vm" "vm \<le> 147" "0 \<le> il" "il \<le> 1"
      "4 \<le> vsync" "vsync \<le> 10"
    and H: "320 \<le> dm_hdisplay m" "dm_hdisplay m \<le> 8486" "8 dvd dm_hdisplay m"
    and V: "0 \<le> dm_vdisplay m" "dm_vdisplay m \<le> 9000"
    using f il by (auto simp: cvt_field_def)
  note p = full_period_bounds [OF b(1-8)]
  define H where "H = dm_hdisplay m"
  define den where "den = ((vr + 2 * vm + 3) * 2 + il) * vf"
  define hp where "hp = (1000000000 - 550000 * vf) * 2 div den"
  have hp: "180 \<le> hp" "hp \<le> 95900" using p by (simp_all add: hp_def den_def)
  note q = sync_back_porch [OF hp(1)]
  have s: "s32i (1000 * 1000000 - 550 * 1000 * vf) = 1000000000 - 550000 * vf"
    "s32i (vr + 2 * vm + 3) = vr + 2 * vm + 3"
    "s32i ((vr + 2 * vm + 3) * 2 + il) = (vr + 2 * vm + 3) * 2 + il"
    "u32i (((vr + 2 * vm + 3) * 2 + il) * vf) = den"
    "s32i ((1000000000 - 550000 * vf) * 2) = (1000000000 - 550000 * vf) * 2"
    "u32i ((1000000000 - 550000 * vf) * 2) = (1000000000 - 550000 * vf) * 2"
    using b p by (simp_all add: den_def s32i_id u32i_id)
  have bp: "s32i (550 * 1000 div hp + 1) = 550000 div hp + 1" using q by (simp add: s32i_id)
  define vp where "vp = (if 550000 div hp + 1 < vsync + 3 then vsync + 3 else 550000 div hp + 1)"
  have vp: "vsync + 3 \<le> vp" "vp \<le> 3056" using q b by (auto simp: vp_def)
  define pc where "pc = (if 30000 - 300 * hp div 1000 < 20000 then 20000 else 30000 - 300 * hp div 1000)"
  have pcb: "20000 \<le> pc" "pc \<le> 30000"
    using hp by (auto simp: pc_def pos_imp_zdiv_nonneg_iff)
  have h300: "0 \<le> 300 * hp div 1000" "300 * hp div 1000 \<le> 28770"
    using hp by (auto simp: pos_imp_zdiv_nonneg_iff intro!: div_between(2))
  have pc: "u32i (300 * hp) = 300 * hp" "u32i (30 * 1000 - 300 * hp div 1000) = 30000 - 300 * hp div 1000"
    "u32i (100 * 1000 - pc) = 100000 - pc"
    using hp h300 pcb by (simp_all add: u32i_id)
  define hb0 where "hb0 = H * pc div (100000 - pc)"
  note hbb = hblank_bounds [OF H(1) pcb, folded H_def, folded hb0_def]
  have "0 \<le> H * pc" using H pcb by (simp add: H_def)
  moreover have "H * pc \<le> 8486 * 30000" unfolding H_def using H pcb by (intro mult_mono) auto
  ultimately have hx: "u32i (H * pc) = H * pc" by (intro u32i_id) auto
  have hs: "s32i hb0 = hb0" using hbb H by (intro s32i_id) (auto simp: H_def)
  define hb where "hb = hb0 - hb0 mod 16"
  have sm: "hb0 - hb0 smod 16 = hb" using hbb by (simp add: smod_nonneg hb_def)
  define e where "e = H + hb div 2"
  define s0 where "s0 = e - (H + hb) * 8 div 100"
  define st where "st = s0 + (8 - s0 mod 8)"
  note t = full_line_timings [OF H [folded H_def] hbb(1,2), folded hb_def, folded e_def,
      folded s0_def, folded st_def]
  have hw: "s32i (H + hb) = H + hb" "hb sdiv 2 = hb div 2"
    "s32i ((H + hb) * 8) = (H + hb) * 8" "(H + hb) * 8 sdiv 100 = (H + hb) * 8 div 100"
    using t H [folded H_def] by (simp_all add: s32i_id sdiv_nonneg)
  have hv: "s32i (H + hb div 2) = e" "s32i (e - (H + hb) * 8 div 100) = s0" "s0 smod 8 = s0 mod 8"
    "s32i (s0 + (8 - s0 mod 8)) = st"
    unfolding e_def [symmetric] s0_def [symmetric] st_def [symmetric]
    using t H [folded H_def] by (simp_all add: s32i_id smod_nonneg)
  have vw: "s32i (dm_vdisplay m + 3) = dm_vdisplay m + 3"
      "s32i (dm_vdisplay m + 3 + vsync) = dm_vdisplay m + 3 + vsync"
      "s32i (vr + 2 * vm + vp + 3) = vr + 2 * vm + vp + 3"
    using b V vp by (simp_all add: s32i_id)
  have nz: "den \<noteq> 0" "hp \<noteq> 0" "100000 - pc \<noteq> 0" using p(1) hp(1) pcb by (auto simp: den_def)
  have pcd: "(if 30000 - 300 * hp div 1000 < 20 * 1000 then 20 * 1000 else 30000 - 300 * hp div 1000) = pc"
    by (simp add: pc_def)
  have "cvt_full m vf vr vm vsync il = Ok (hp, m\<lparr>dm_vtotal := vr + 2 * vm + vp + 3, dm_htotal := H + hb,
     dm_hsync_end := e, dm_hsync_start := st, dm_vsync_start := dm_vdisplay m + 3,
     dm_vsync_end := dm_vdisplay m + 3 + vsync\<rparr>)"
    using nz
    by (simp only: cvt_full_def Let_def s hp_def [symmetric] bp vp_def [symmetric] pc pcd if_False
        timing_sel H_def [symmetric] hx hb0_def [symmetric] hs sm hw hv vw)
  then show ?thesis
    using hp b vp t H V by (auto simp: cvt_timed_def H_def)
qed

section \<open>The whole generator\<close>

lemma cvt_vsync_bounds: "4 \<le> cvt_vsync h v" "cvt_vsync h v \<le> 10"
  by (simp_all add: cvt_vsync_def)

text \<open>The margins asked for, in character cells horizontally.\<close>

lemma cvt_margin:
  fixes x :: int
  assumes "0 \<le> x" "x \<le> 8192"
  shows "s32i (x * 18) sdiv 1000 = x * 18 div 1000" "0 \<le> x * 18 div 1000" "x * 18 div 1000 \<le> 147"
    "(let h = x * 18 div 1000 in h - h smod 8) = x * 18 div 1000 - x * 18 div 1000 mod 8"
proof -
  show a: "0 \<le> x * 18 div 1000" and b: "x * 18 div 1000 \<le> 147"
    using assms by (auto intro!: div_between(2))
  show "s32i (x * 18) sdiv 1000 = x * 18 div 1000" using assms by (simp add: s32i_id sdiv_nonneg)
  show "(let h = x * 18 div 1000 in h - h smod 8) = x * 18 div 1000 - x * 18 div 1000 mod 8"
    unfolding Let_def using smod_nonneg [OF a, of 8] by simp
qed

definition cvt_clock :: "int \<Rightarrow> int \<Rightarrow> int" where
  "cvt_clock htotal hperiod =
     (let c = s32i (u32i (s32i (s32i (htotal * 1000) * 1000)) div hperiod) in c - c smod 250)"

lemma u32i_s32i: "u32i (s32i x) = u32i x"
  by (simp add: u32i_def s32i_def mod_diff_left_eq)

lemma cvt_clock_eq:
  assumes "0 \<le> T" "T < 16384" "180 \<le> hp"
  shows "cvt_clock T hp = (let c = (T * 1000000) mod 2 ^ 32 div hp in c - c mod 250)"
    and "0 \<le> cvt_clock T hp" and "250 dvd cvt_clock T hp"
proof -
  define c where "c = (T * 1000000) mod 2 ^ 32 div hp"
  have "(T * 1000000) mod 2 ^ 32 < (2 :: int) ^ 32" by (rule pos_mod_bound) simp
  then have "c \<le> 2 ^ 32 div 180"
    unfolding c_def using assms(3)
    by (intro order_trans [OF zdiv_mono1 [OF order_less_imp_le] zdiv_mono2]) auto
  then have cb: "0 \<le> c" "c < 2 ^ 31"
    unfolding c_def using assms(3) by (auto simp: pos_imp_zdiv_nonneg_iff)
  have "s32i (T * 1000) = T * 1000" using assms by (simp add: s32i_id)
  then have w: "u32i (s32i (s32i (T * 1000) * 1000)) = (T * 1000000) mod 2 ^ 32"
    by (simp add: u32i_s32i) (simp add: u32i_def mult.commute)
  have "s32i c = c" "c smod 250 = c mod 250" using cb by (simp_all add: s32i_id smod_nonneg)
  then have e: "cvt_clock T hp = c - c mod 250"
    by (simp only: cvt_clock_def Let_def w c_def [symmetric])
  then show "cvt_clock T hp = (let c = (T * 1000000) mod 2 ^ 32 div hp in c - c mod 250)"
    by (simp only: e Let_def c_def)
  show "0 \<le> cvt_clock T hp" unfolding e using cb by (simp add: zmod_le_nonneg_dividend)
  show "250 dvd cvt_clock T hp" unfolding e by (rule dvd_minus_mod)
qed

definition cvt_input :: "int \<Rightarrow> int \<Rightarrow> int \<Rightarrow> bool \<Rightarrow> bool \<Rightarrow> drm_display_mode \<times> int \<times> int \<times> int" where
  "cvt_input h v r il mg =
     (let hr = h - h mod 8;
          hm = (if mg then hr * 18 div 1000 - hr * 18 div 1000 mod 8 else 0);
          vr = (if il then v div 2 else v);
          vm = (if mg then vr * 18 div 1000 else 0)
      in (zero_mode\<lparr>dm_hdisplay := hr + 2 * hm, dm_vdisplay := v + 2 * vm\<rparr>,
          (if il then r * 2 else r), vr, vm))"

lemma cvt_input_field:
  assumes d: "cvt_domain h v r il" and i: "cvt_input h v r il mg = (m, vf, vr, vm)"
  shows "cvt_field m vf vr vm (cvt_vsync h v)" "dm_flags m = 0" "dm_vdisplay m = v + 2 * vm"
    "v \<le> (if il then 2 * vr + 1 else vr)"
proof -
  define hr where "hr = h - h mod 8"
  define hm where "hm = (if mg then hr * 18 div 1000 - hr * 18 div 1000 mod 8 else 0)"
  have hr: "8 dvd hr" unfolding hr_def by (rule dvd_minus_mod)
  have m8: "0 \<le> h mod 8" "h mod 8 < 8" by simp_all
  then have "312 < hr" "hr \<le> 8192" using d unfolding hr_def cvt_domain_def by linarith+
  moreover have "320 \<le> hr" using calculation hr by presburger
  ultimately have hb: "320 \<le> hr" "hr \<le> 8192" by simp_all
  have "8 dvd hr * 18 div 1000 - hr * 18 div 1000 mod 8" by (rule dvd_minus_mod)
  then have hm8: "8 dvd hm" by (simp add: hm_def)
  have hm: "0 \<le> hm" "hm \<le> 147"
    using cvt_margin(2,3) [of hr] hb by (auto simp: hm_def zmod_le_nonneg_dividend
        intro: order_trans [OF diff_le_eq [THEN iffD2]])
  have m: "m = zero_mode\<lparr>dm_hdisplay := hr + 2 * hm, dm_vdisplay := v + 2 * vm\<rparr>"
    "vr = (if il then v div 2 else v)" "vm = (if mg then vr * 18 div 1000 else 0)"
    "vf = (if il then r * 2 else r)"
    using i by (auto simp: cvt_input_def Let_def hr_def hm_def)
  have v: "200 \<le> vr" "vr \<le> 8192" "v \<le> (if il then 2 * vr + 1 else vr)" "vr \<le> v"
    using d by (auto simp: m(2) cvt_domain_def)
  then have vm: "0 \<le> vm" "vm \<le> 147" using cvt_margin(2,3) [of vr] by (auto simp: m(3))
  have vf: "50 \<le> vf" "vf \<le> 480" using d by (auto simp: m(4) cvt_domain_def)
  show "cvt_field m vf vr vm (cvt_vsync h v)"
    using hb hm hm8 hr v vm vf cvt_vsync_bounds d
    by (auto simp: cvt_field_def m(1) cvt_domain_def intro: dvd_add)
  show "dm_flags m = 0" by (simp add: m(1) zero_mode_def)
  show "dm_vdisplay m = v + 2 * vm" by (simp add: m(1))
  show "v \<le> (if il then 2 * vr + 1 else vr)" by (rule v(3))
qed

lemma cvt_mode_input:
  assumes d: "cvt_domain h v r il" and i: "cvt_input h v r il mg = (m, vf, vr, vm)"
  shows "drm_cvt_mode True h v r red il mg =
     bind_outcome (if \<not> red then cvt_full m vf vr vm (cvt_vsync h v) (if il then 1 else 0)
                   else cvt_reduced m vf vr vm (cvt_vsync h v))
       (\<lambda>(hp, m). let m = m\<lparr>dm_clock := cvt_clock (dm_htotal m) hp\<rparr>;
            m = (if il then m\<lparr>dm_vtotal := s32i (dm_vtotal m * 2),
                              dm_flags := dm_flags m OR DRM_MODE_FLAG_INTERLACE\<rparr> else m);
            m = drm_mode_set_name m
          in Ok (Some (m\<lparr>dm_flags := dm_flags m OR
                (if red then DRM_MODE_FLAG_PHSYNC OR DRM_MODE_FLAG_NVSYNC
                 else DRM_MODE_FLAG_PVSYNC OR DRM_MODE_FLAG_NHSYNC)\<rparr>)))"
proof -
  have b: "0 \<le> h" "0 \<le> v" "0 < r" "h \<le> 8192" "v \<le> 8192" "r \<le> 240" using d by (auto simp: cvt_domain_def)
  define hr where "hr = h - h mod 8"
  have hrb: "0 \<le> hr" "hr \<le> 8192" using b by (auto simp: hr_def zmod_le_nonneg_dividend)
  define vr' where "vr' = (if il then v div 2 else v)"
  have vrb: "0 \<le> vr'" "vr' \<le> 8192" using b by (auto simp: vr'_def)
  note hm = cvt_margin [OF hrb] and vmr = cvt_margin [OF vrb]
  have m8: "0 \<le> hr * 18 div 1000 mod 8" "hr * 18 div 1000 mod 8 < 8" by simp_all
  have s: "h smod 8 = h mod 8" "(if r = 0 then 60 else r) = r"
    "(if il then u32i (s32i (r * 2)) else u32i r) = (if il then r * 2 else r)"
    "(if il then v sdiv 2 else v) = vr'"
    using b by (auto simp: smod_nonneg sdiv_nonneg s32i_id u32i_id vr'_def)
  have w: "s32i (hr + 2 * (if mg then hr * 18 div 1000 - hr * 18 div 1000 mod 8 else 0)) =
      hr + 2 * (if mg then hr * 18 div 1000 - hr * 18 div 1000 mod 8 else 0)"
    "s32i (v + 2 * (if mg then vr' * 18 div 1000 else 0)) = v + 2 * (if mg then vr' * 18 div 1000 else 0)"
    using hrb hm(2,3) vmr(2,3) b m8 by (auto simp: s32i_id)
  have i': "m = zero_mode\<lparr>dm_hdisplay := hr + 2 * (if mg then hr * 18 div 1000 - hr * 18 div 1000 mod 8 else 0),
        dm_vdisplay := v + 2 * (if mg then vr' * 18 div 1000 else 0)\<rparr>"
      "vf = (if il then r * 2 else r)" "vr = vr'" "vm = (if mg then vr' * 18 div 1000 else 0)"
    using i by (auto simp: cvt_input_def Let_def hr_def vr'_def)
  show ?thesis
    unfolding drm_cvt_mode_def i' cvt_clock_def
    by (simp only: Let_def s hr_def [symmetric] hm(1) hm(4) [unfolded Let_def] vmr(1) w
        simp_thms if_True if_False not_True_eq_False)
qed

section \<open>A wide mode, computed\<close>

lemma wide_input:
  "cvt_input 4096 2160 60 False False = (zero_mode\<lparr>dm_hdisplay := 4096, dm_vdisplay := 2160\<rparr>, 60, 2160, 0)"
  by (simp add: cvt_input_def)

lemma wide_full:
  "cvt_full (zero_mode\<lparr>dm_hdisplay := 4096, dm_vdisplay := 2160\<rparr>) 60 2160 0 (cvt_vsync 4096 2160) 0 =
   Ok (7451, zero_mode\<lparr>dm_hdisplay := 4096, dm_vdisplay := 2160, dm_vtotal := 2237,
        dm_htotal := 5664, dm_hsync_end := 4880, dm_hsync_start := 4432,
        dm_vsync_start := 2163, dm_vsync_end := 2173\<rparr>)"
  by (simp add: cvt_full_def cvt_vsync_def Let_def s32i_def u32i_def sdiv_nonneg smod_nonneg
      signed_divide_int_def signed_modulo_int_def cong: let_weak_cong if_weak_cong)

section \<open>The flags of a GTF mode\<close>

definition flags_are :: "u32 set \<Rightarrow> drm_display_mode option outcome \<Rightarrow> bool" where
  "flags_are F r \<longleftrightarrow> (\<forall>m. r = Ok (Some m) \<longrightarrow> dm_flags m \<in> F)"

lemma flags_are_rules:
  "(\<And>x. flags_are F (f x)) \<Longrightarrow> flags_are F (Let t f)"
  "\<not> b \<Longrightarrow> flags_are F r' \<Longrightarrow> flags_are F (if b then r else r')"
  "flags_are F r \<Longrightarrow> flags_are F r' \<Longrightarrow> flags_are F (if b then r else r')"
  "flags_are F Bug" "flags_are F (Ok None)" "dm_flags m \<in> F \<Longrightarrow> flags_are F (Ok (Some m))"
  by (simp_all add: flags_are_def)

lemma gtf_flags:
  "flags_are {DRM_MODE_FLAG_NHSYNC OR DRM_MODE_FLAG_PVSYNC, DRM_MODE_FLAG_PHSYNC OR DRM_MODE_FLAG_NVSYNC}
     (drm_gtf_mode_complex True h v r il mg gM g2C gK g2J)"
  unfolding drm_gtf_mode_complex_def by (intro flags_are_rules) simp_all

end
