(* ===== verification/Drm_Mode_Claims.thy ===== *)
theory Drm_Mode_Claims
  imports Drm_Mode_Cmdline Drm_Mode_Timing
begin

text \<open>
  The properties of \<^verbatim>\<open>drm/drm_modes.c\<close>.
\<close>

section \<open>Lemmas for the properties\<close>

lemma set_name_sel [simp]:
  "dm_clock (drm_mode_set_name m) = dm_clock m" "dm_flags (drm_mode_set_name m) = dm_flags m"
  "dm_hdisplay (drm_mode_set_name m) = dm_hdisplay m" "dm_htotal (drm_mode_set_name m) = dm_htotal m"
  "dm_hsync_start (drm_mode_set_name m) = dm_hsync_start m"
  "dm_hsync_end (drm_mode_set_name m) = dm_hsync_end m"
  "dm_vdisplay (drm_mode_set_name m) = dm_vdisplay m" "dm_vtotal (drm_mode_set_name m) = dm_vtotal m"
  "dm_vsync_start (drm_mode_set_name m) = dm_vsync_start m"
  "dm_vsync_end (drm_mode_set_name m) = dm_vsync_end m"
  by (simp_all add: drm_mode_set_name_def)

text \<open>The CVT mode of a request in the domain, with the period its clock comes from.\<close>

lemma cvt_mode_timed:
  assumes d: "cvt_domain h v r il"
  shows "\<exists>m hp. drm_cvt_mode True h v r red il mg = Ok (Some m) \<and> 180 \<le> hp
     \<and> dm_clock m = cvt_clock (dm_htotal m) hp
     \<and> 320 \<le> dm_hdisplay m \<and> dm_hdisplay m \<le> dm_hsync_start m \<and> dm_hsync_start m < dm_hsync_end m
     \<and> dm_hsync_end m < dm_htotal m \<and> dm_htotal m < 16384
     \<and> 8 dvd dm_hsync_start m \<and> 8 dvd dm_hsync_end m \<and> 8 dvd dm_htotal m
     \<and> v \<le> dm_vdisplay m \<and> dm_vdisplay m < dm_vsync_start m \<and> dm_vsync_start m < dm_vsync_end m
     \<and> dm_vsync_end m \<le> dm_vtotal m
     \<and> has (dm_flags m) DRM_MODE_FLAG_INTERLACE = il"
proof -
  obtain m0 vf vr vm where i: "cvt_input h v r il mg = (m0, vf, vr, vm)"
    by (cases "cvt_input h v r il mg") auto
  note f = cvt_input_field [OF d i]
  let ?vs = "cvt_vsync h v"
  have half: "\<exists>hp m'. (if \<not> red then cvt_full m0 vf vr vm ?vs (if il then 1 else 0)
                   else cvt_reduced m0 vf vr vm ?vs) = Ok (hp, m') \<and> cvt_timed m0 vr vm ?vs hp m'"
    using cvt_full_timed [OF f(1), of "if il then 1 else 0"] cvt_reduced_timed [OF f(1)] by auto
  then obtain hp m1 where h: "(if \<not> red then cvt_full m0 vf vr vm ?vs (if il then 1 else 0)
                   else cvt_reduced m0 vf vr vm ?vs) = Ok (hp, m1)" and t: "cvt_timed m0 vr vm ?vs hp m1"
    by blast
  have "dm_vtotal m1 < 16384" "0 \<le> dm_vtotal m1"
    using t f(1) cvt_vsync_bounds [of h v] by (auto simp: cvt_timed_def cvt_field_def)
  then have vt: "s32i (dm_vtotal m1 * 2) = dm_vtotal m1 * 2" by (simp add: s32i_id)
  have vs: "4 \<le> ?vs" "?vs \<le> 10" by (rule cvt_vsync_bounds)+
  have vm: "0 \<le> vm" using f(1) by (simp add: cvt_field_def)
  have h0: "320 \<le> dm_hdisplay m0" using f(1) by (simp add: cvt_field_def)
  note e = cvt_mode_input [OF d i, of red, unfolded h bind_outcome.simps prod.case Let_def]
  show ?thesis
    unfolding e using t f(2-4) vt vs vm h0
    by (auto simp: cvt_timed_def has_def mode_consts word_bw_comms bit.conj_disj_distrib)
qed

text \<open>One insertion sort, to show that the sort the code expects exists.\<close>

fun ins_by :: "('a \<Rightarrow> 'a \<Rightarrow> int) \<Rightarrow> 'a \<Rightarrow> 'a list \<Rightarrow> 'a list" where
  "ins_by c x [] = [x]"
| "ins_by c x (y # ys) = (if c x y \<le> 0 then x # y # ys else y # ins_by c x ys)"

fun isort_by :: "('a \<Rightarrow> 'a \<Rightarrow> int) \<Rightarrow> 'a list \<Rightarrow> 'a list" where
  "isort_by c [] = []"
| "isort_by c (x # xs) = ins_by c x (isort_by c xs)"

text \<open>The contract of \<^verbatim>\<open>list_sort\<close>: a permutation of the list, in order whenever the callback is
  a consistent comparison on its elements.\<close>

definition consistent_on :: "'a set \<Rightarrow> ('a \<Rightarrow> 'a \<Rightarrow> int) \<Rightarrow> bool" where
  "consistent_on A c \<longleftrightarrow> (\<forall>x \<in> A. \<forall>y \<in> A. c x y \<le> 0 \<or> c y x \<le> 0)
     \<and> (\<forall>x \<in> A. \<forall>y \<in> A. \<forall>z \<in> A. c x y \<le> 0 \<and> c y z \<le> 0 \<longrightarrow> c x z \<le> 0)"

definition sorts :: "mode_sort \<Rightarrow> bool" where
  "sorts list_sort \<longleftrightarrow> (\<forall>c xs. mset (list_sort c xs) = mset xs
     \<and> (consistent_on (set xs) c \<longrightarrow> sorted_wrt (\<lambda>x y. c x y \<le> 0) (list_sort c xs)))"

lemma consistent_total: "consistent_on A c \<Longrightarrow> x \<in> A \<Longrightarrow> y \<in> A \<Longrightarrow> c x y \<le> 0 \<or> c y x \<le> 0"
  unfolding consistent_on_def by blast

lemma consistent_trans:
  "consistent_on A c \<Longrightarrow> c x y \<le> 0 \<Longrightarrow> c y z \<le> 0 \<Longrightarrow> x \<in> A \<Longrightarrow> y \<in> A \<Longrightarrow> z \<in> A \<Longrightarrow> c x z \<le> 0"
  unfolding consistent_on_def by blast

lemma consistent_subset: "consistent_on A c \<Longrightarrow> B \<subseteq> A \<Longrightarrow> consistent_on B c"
  unfolding consistent_on_def by blast

lemma mset_isort [simp]: "mset (isort_by c xs) = mset xs"
proof -
  have "mset (ins_by c x ys) = add_mset x (mset ys)" for x ys by (induction ys) auto
  then show ?thesis by (induction xs) auto
qed

lemma isort_sorted: "consistent_on (set xs) c \<Longrightarrow> sorted_wrt (\<lambda>x y. c x y \<le> 0) (isort_by c xs)"
proof (induction xs)
  case (Cons x xs)
  have ins: "sorted_wrt (\<lambda>x y. c x y \<le> 0) (ins_by c x ys)"
    if "consistent_on (insert x (set ys)) c" "sorted_wrt (\<lambda>x y. c x y \<le> 0) ys" for ys
    using that
  proof (induction ys)
    case (Cons y ys)
    have st: "set (ins_by c x ys) = insert x (set ys)" by (induction ys) auto
    show ?case
    proof (cases "c x y \<le> 0")
      case True
      have tr: "c x z \<le> 0" if "z \<in> set ys" for z
      proof -
        have "c y z \<le> 0" using Cons.prems(2) that by simp
        with True that Cons.prems(1) show ?thesis by (auto elim: consistent_trans)
      qed
      show ?thesis using Cons.prems(2) True tr by auto
    next
      case False
      then have "c y x \<le> 0" using consistent_total [OF Cons.prems(1), of x y] by simp
      moreover have "consistent_on (insert x (set ys)) c"
        by (rule consistent_subset [OF Cons.prems(1)]) auto
      then have "sorted_wrt (\<lambda>x y. c x y \<le> 0) (ins_by c x ys)"
        using Cons.IH Cons.prems(2) by simp
      ultimately show ?thesis using Cons.prems(2) False st by auto
    qed
  qed simp
  have "set (isort_by c xs) = set xs" using mset_isort by (metis set_mset_mset)
  moreover have "consistent_on (set xs) c" by (rule consistent_subset [OF Cons.prems]) auto
  ultimately show ?case using Cons ins [of "isort_by c xs"] by simp
qed simp

lemma lex_trans: "\<not> lex_less x y \<Longrightarrow> \<not> lex_less y z \<Longrightarrow> length x = length y \<Longrightarrow> length y = length z \<Longrightarrow>
    \<not> lex_less x z"
proof (induction x y arbitrary: z rule: lex_less.induct)
  case (1 x xs y ys)
  then show ?case by (cases z) (auto simp: not_less)
qed auto

lemma lex_asym: "lex_less x y \<Longrightarrow> \<not> lex_less y x"
  by (induction x y rule: lex_less.induct) auto

lemma compare_le: "mode_bounded a \<Longrightarrow> mode_bounded b \<Longrightarrow>
    drm_mode_compare a b \<le> 0 \<longleftrightarrow> \<not> lex_less (mode_key a) (mode_key b)"
  using compare_key(1) [of a b] by auto

lemma compare_consistent:
  assumes b: "\<forall>m \<in> A. mode_bounded m"
  shows "consistent_on A drm_mode_compare"
proof -
  have len: "length (mode_key x) = length (mode_key y)" for x y by (simp add: mode_key_def)
  have "drm_mode_compare x y \<le> 0 \<or> drm_mode_compare y x \<le> 0" if "x \<in> A" "y \<in> A" for x y
    using lex_asym [of "mode_key x" "mode_key y"] b that by (auto simp: compare_le)
  moreover have "drm_mode_compare x z \<le> 0"
    if "x \<in> A" "y \<in> A" "z \<in> A" "drm_mode_compare x y \<le> 0" "drm_mode_compare y z \<le> 0" for x y z
    using lex_trans [of "mode_key x" "mode_key y" "mode_key z", OF _ _ len len] b that
    by (simp add: compare_le)
  ultimately show ?thesis unfolding consistent_on_def by blast
qed

text \<open>A pass that only marks the elements it rejects, followed by the filter of the marks.\<close>

lemma filter_map_same:
  "(\<And>m. (P (f m) \<longleftrightarrow> Q m) \<and> (Q m \<longrightarrow> f m = m)) \<Longrightarrow> filter P (map f ms) = filter Q ms"
  by (induction ms) auto

section \<open>The properties\<close>

text \<open>C11: for every request for 320 to 8192 columns, 200 to 8192 lines and 50 to 240 Hz, reduced or
  not, interlaced or not, with margins or without, the CVT generator returns a mode whose sync
  pulses lie in order between the active area and the totals, on character-cell boundaries,
  and whose clock is a multiple of the clock step; it never divides by zero.\<close>

theorem drm_cvt_mode_timings:
  assumes "cvt_domain hdisplay vdisplay vrefresh interlaced"
  shows "\<exists>m. drm_cvt_mode True hdisplay vdisplay vrefresh reduced interlaced margins = Ok (Some m)
     \<and> dm_hdisplay m \<le> dm_hsync_start m \<and> dm_hsync_start m < dm_hsync_end m
     \<and> dm_hsync_end m < dm_htotal m
     \<and> vdisplay \<le> dm_vdisplay m \<and> dm_vdisplay m < dm_vsync_start m
     \<and> dm_vsync_start m < dm_vsync_end m \<and> dm_vsync_end m \<le> dm_vtotal m
     \<and> 8 dvd dm_hsync_start m \<and> 8 dvd dm_hsync_end m \<and> 8 dvd dm_htotal m
     \<and> 0 \<le> dm_clock m \<and> 250 dvd dm_clock m
     \<and> has (dm_flags m) DRM_MODE_FLAG_INTERLACE = interlaced"
proof -
  obtain m hp where m: "drm_cvt_mode True hdisplay vdisplay vrefresh reduced interlaced margins = Ok (Some m)"
      "180 \<le> hp" "dm_clock m = cvt_clock (dm_htotal m) hp" "0 \<le> dm_htotal m" "dm_htotal m < 16384"
    and t: "dm_hdisplay m \<le> dm_hsync_start m" "dm_hsync_start m < dm_hsync_end m"
     "dm_hsync_end m < dm_htotal m" "vdisplay \<le> dm_vdisplay m" "dm_vdisplay m < dm_vsync_start m"
     "dm_vsync_start m < dm_vsync_end m" "dm_vsync_end m \<le> dm_vtotal m"
     "8 dvd dm_hsync_start m" "8 dvd dm_hsync_end m" "8 dvd dm_htotal m"
     "has (dm_flags m) DRM_MODE_FLAG_INTERLACE = interlaced"
    using cvt_mode_timed [OF assms, of reduced margins] by force
  show ?thesis
    using m t cvt_clock_eq(2,3) [OF m(4,5,2)] by auto
qed

lemma drm_cvt_mode_timings_witness:
  "\<exists>m. drm_cvt_mode True 1920 1080 60 False False False = Ok (Some m)
     \<and> dm_hsync_start m < dm_hsync_end m \<and> dm_hsync_end m < dm_htotal m"
  using drm_cvt_mode_timings [of 1920 1080 60 False False False] by (auto simp: cvt_domain_def)

text \<open>the pixel clock of a CVT mode is computed modulo \<^verbatim>\<open>2^32\<close>: for wide modes it is too small.
  The mode for 4096x2160 at 60 Hz gets 183500 kHz, a quarter of the 760166 kHz at which its 5664
  pixels per line pass in the estimated line period of 7451 ns.\<close>

theorem drm_cvt_mode_clock_wraps:
  "\<exists>m. drm_cvt_mode True 4096 2160 60 False False False = Ok (Some m)
     \<and> dm_htotal m = 5664 \<and> dm_clock m = 183500 \<and> dm_htotal m * 1000000 div 7451 = 760166"
proof -
  have d: "cvt_domain 4096 2160 60 False" by (simp add: cvt_domain_def)
  have c: "cvt_clock 5664 7451 = 183500" by (simp add: cvt_clock_eq)
  show ?thesis
    using cvt_mode_input [OF d wide_input, of False]
    by (simp add: wide_full c drm_mode_set_name_def)
qed
text \<open>C12: reading back a printed option string of a mode, with any of the documented parts, gives
  exactly what was printed; parts left out keep the old value of the record.\<close>

theorem drm_mode_command_line_roundtrip:
  assumes n: "x < 2 ^ 31" "y < 2 ^ 31" "\<forall>n. b = Some n \<longrightarrow> n < 2 ^ 31" "\<forall>n. r = Some n \<longrightarrow> n < 2 ^ 31"
  shows "drm_mode_parse_command_line_for_connector (Some (print_cmdline x y cvt rb b r il mg)) ct m =
    (True, m\<lparr>cm_specified := True, cm_refresh_specified := (r \<noteq> None \<or> cm_refresh_specified m),
       cm_bpp_specified := (b \<noteq> None \<or> cm_bpp_specified m), cm_xres := int x, cm_yres := int y,
       cm_bpp := (case b of None \<Rightarrow> cm_bpp m | Some n \<Rightarrow> int n),
       cm_refresh := (case r of None \<Rightarrow> cm_refresh m | Some n \<Rightarrow> int n), cm_rb := rb,
       cm_interlace := il, cm_cvt := cvt, cm_margins := mg, cm_force := DRM_FORCE_UNSPECIFIED\<rparr>)"
proof -
  have i: "s32i (int k) = int k" if "k < 2 ^ 31" for k :: nat
    using that by (intro s32i_id) auto
  have u: "u32i (int x) = int x" using n(1) by (intro u32i_id) auto
  show ?thesis
    using n i [OF n(1)] i [OF n(2)] u i
    by (simp only: drm_mode_parse_command_line_for_connector_def option.case loop_print [OF n]
        print_strtol [OF n(1)] prod.case)
       (cases b; cases r; simp add: with_bpp_def with_refresh_def after_flags_def cmdline_start_def)
qed

lemma drm_mode_command_line_roundtrip_witness:
  "\<forall>m. fst (drm_mode_parse_command_line_for_connector
      (Some (print_cmdline 1024 768 True False (Some 16) (Some 75) True False)) 1 m)"
  using drm_mode_command_line_roundtrip [of 1024 768 "Some 16" "Some 75" True False True False 1]
  by simp

text \<open>an option string without a width, as \<^verbatim>\<open>x480\<close>, is accepted, as a mode of width 0: the case
  of the \<^verbatim>\<open>x\<close> runs on into the case of the digits.\<close>

theorem drm_mode_command_line_no_width:
  assumes "y < 2 ^ 31"
  shows "drm_mode_parse_command_line_for_connector (Some (CHR ''x'' # show_nat y)) ct m =
    (True, m\<lparr>cm_specified := True, cm_xres := 0, cm_yres := int y, cm_rb := False,
       cm_interlace := False, cm_cvt := False, cm_margins := False,
       cm_force := DRM_FORCE_UNSPECIFIED\<rparr>)"
proof -
  have y: "u32i (fst (strtol10 (show_nat y))) = int y"
    using strtol_suffix [OF assms, of "[]"] by (simp add: no_digit_def)
  have l: "cmdline_loop ct (rev (CHR ''x'' # show_nat y)) [] cmdline_start =
     (cmdline_start\<lparr>cs_was_digit := True, cs_yres := int y, cs_yres_specified := True\<rparr>, - 1)"
    using loop_nat [of ct y "[CHR ''x'']" "[]" cmdline_start] y
    by (simp add: cmdline_char_def cmdline_start_def)
  have x: "strtol10 (CHR ''x'' # show_nat y) = (0, CHR ''x'' # show_nat y)"
    by (simp add: strtol10_def is_digit_def is_space_def)
  have "s32i (int y) = int y" using assms by (intro s32i_id) auto
  then show ?thesis
    by (simp only: drm_mode_parse_command_line_for_connector_def option.case l x prod.case)
       (simp add: cmdline_start_def u32i_def s32i_def)
qed

lemma drm_mode_command_line_no_width_witness:
  "\<forall>m. cm_xres (snd (drm_mode_parse_command_line_for_connector (Some (CHR ''x'' # show_nat 480)) 1 m)) = 0"
  using drm_mode_command_line_no_width [of 480 1] by simp

text \<open>probing a connector loses no mode: every old mode is kept in its place up to equality,
  every probed mode is in the result, nothing else is added, and a list without duplicates stays so.\<close>

theorem drm_mode_connector_list_update_complete:
  "\<exists>old new. drm_mode_connector_list_update probed modes = old @ new
     \<and> list_all2 drm_mode_equal modes old
     \<and> (\<forall>n \<in> set new. \<exists>p \<in> set probed. drm_mode_equal p n)
     \<and> (\<forall>p \<in> set probed. \<exists>m \<in> set (old @ new). drm_mode_equal p m)
     \<and> (pairwise_different modes \<longrightarrow> pairwise_different (old @ new))"
  using list_update_spec [of probed modes] by blast

lemma drm_mode_connector_list_update_complete_witness:
  "\<exists>m \<in> set (drm_mode_connector_list_update [zero_mode] []). drm_mode_equal zero_mode m"
  using drm_mode_connector_list_update_complete [of "[zero_mode]" "[]"] by auto

text \<open>validating a list and pruning it keeps, in order and unchanged, exactly the modes that
  were good and respect the limits of size, pitch and clock.\<close>

theorem drm_mode_validate_prune:
  "drm_mode_prune_invalid (drm_mode_validate_clocks ranges (drm_mode_validate_size maxX maxY maxPitch ms)) =
     filter (\<lambda>m. dm_status m = MODE_OK
       \<and> (maxPitch \<le> 0 \<or> dm_hdisplay m \<le> maxPitch) \<and> (maxX \<le> 0 \<or> dm_hdisplay m \<le> maxX)
       \<and> (maxY \<le> 0 \<or> dm_vdisplay m \<le> maxY)
       \<and> (\<exists>r \<in> set ranges. fst r \<le> dm_clock m \<and> dm_clock m \<le> snd r)) ms"
  unfolding drm_mode_prune_invalid_def drm_mode_validate_clocks_def drm_mode_validate_size_def map_map
proof (rule filter_map_same, goal_cases)
  case (1 m)
  show ?case unfolding Let_def list_ex_iff split_beta not_less [symmetric]
    by (simp split: if_splits) blast
qed

lemma drm_mode_validate_prune_witness:
  "drm_mode_prune_invalid (drm_mode_validate_clocks [(0, 9)] (drm_mode_validate_size 5 5 0 [zero_mode])) = [zero_mode]"
  by (simp add: drm_mode_validate_prune zero_mode_def)

text \<open>on modes of at most 32767 pixels each way, with rates and clocks below \<^verbatim>\<open>2^30\<close>, the sort of
  a mode list is a permutation of it, preferred modes first, then by area, rate and clock,
  largest first.\<close>

theorem drm_mode_sort_favourite:
  assumes s: "sorts list_sort" and b: "\<forall>m \<in> set ms. mode_bounded m"
  shows "mset (drm_mode_sort list_sort ms) = mset ms
     \<and> sorted_wrt (\<lambda>a b. \<not> lex_less (mode_key a) (mode_key b)) (drm_mode_sort list_sort ms)"
proof -
  have p: "mset (drm_mode_sort list_sort ms) = mset ms"
    and o: "sorted_wrt (\<lambda>a b. drm_mode_compare a b \<le> 0) (drm_mode_sort list_sort ms)"
    using s compare_consistent [OF b] unfolding sorts_def drm_mode_sort_def by blast+
  have "set (drm_mode_sort list_sort ms) = set ms" using p by (metis set_mset_mset)
  then have "sorted_wrt (\<lambda>a b. \<not> lex_less (mode_key a) (mode_key b)) (drm_mode_sort list_sort ms)"
    using b by (intro sorted_wrt_mono_rel [OF _ o]) (simp add: compare_le)
  with p show ?thesis by blast
qed

lemma drm_mode_sort_favourite_witness:
  "mset (drm_mode_sort isort_by [zero_mode, zero_mode\<lparr>dm_hdisplay := 5\<rparr>]) =
     {#zero_mode, zero_mode\<lparr>dm_hdisplay := 5\<rparr>#}"
proof -
  have "sorts isort_by" unfolding sorts_def by (intro allI conjI impI mset_isort isort_sorted)
  then show ?thesis
    using drm_mode_sort_favourite [of isort_by "[zero_mode, zero_mode\<lparr>dm_hdisplay := 5\<rparr>]"]
    by (simp add: mode_bounded_def zero_mode_def)
qed

text \<open>a GTF mode never carries the interlace flag, also when an interlaced mode was asked for: the
  sync polarities are assigned over it.\<close>

theorem drm_gtf_mode_never_interlaced:
  assumes "drm_gtf_mode_complex True hdisplay vdisplay vrefresh interlaced margins gM g2C gK g2J = Ok (Some m)"
  shows "\<not> has (dm_flags m) DRM_MODE_FLAG_INTERLACE"
  using gtf_flags [of hdisplay vdisplay vrefresh interlaced margins gM g2C gK g2J] assms
  by (auto simp: flags_are_def has_def mode_consts)

lemma drm_gtf_mode_never_interlaced_witness:
  "\<exists>m. drm_gtf_mode_complex True 1920 1080 60 True False 600 80 128 40 = Ok (Some m)
     \<and> \<not> has (dm_flags m) DRM_MODE_FLAG_INTERLACE"
proof -
  have "\<exists>m. drm_gtf_mode_complex True 1920 1080 60 True False 600 80 128 40 = Ok (Some m)"
    by (simp add: drm_gtf_mode_complex_def Let_def s32i_def u32i_def signed_divide_int_def
        signed_modulo_int_def cong: let_weak_cong if_weak_cong)
  then show ?thesis using drm_gtf_mode_never_interlaced by blast
qed

end
