(* ===== verification/Drm_Lock.thy ===== *)
theory Drm_Lock
  imports Drm_Prelude
begin

text \<open>
  The hardware lock, \<^verbatim>\<open>drm/drm_lock.c\<close>: a word shared with user space, changed by
  compare-and-swap only.  User space may write the word at any time, so the loops take the list
  of values written by others between the read and the swap of each iteration; the empty list
  is the run without interference.
\<close>

unbundle bit_operations_syntax

section \<open>State\<close>

definition DRM_LOCK_HELD :: u32 where "DRM_LOCK_HELD = 0x80000000"
definition DRM_LOCK_CONT :: u32 where "DRM_LOCK_CONT = 0x40000000"
definition DRM_KERNEL_CONTEXT :: u32 where "DRM_KERNEL_CONTEXT = 0"
definition DRM_LOCK_QUIESCENT :: u32 where "DRM_LOCK_QUIESCENT = 2"

definition DRM_LOCK_IS_HELD :: "u32 \<Rightarrow> bool" where
  "DRM_LOCK_IS_HELD w \<longleftrightarrow> w AND DRM_LOCK_HELD \<noteq> 0"

definition DRM_LOCKING_CONTEXT :: "u32 \<Rightarrow> u32" where
  "DRM_LOCKING_CONTEXT w = w AND NOT (DRM_LOCK_HELD OR DRM_LOCK_CONT)"

record drm_lock_data =
  ld_hw_lock :: u32
  ld_file_priv :: "nat option"
  ld_user_waiters :: u32
  ld_kernel_waiters :: u32
  ld_idle_has_lock :: bool

section \<open>Compare and swap\<close>

text \<open>The macro of the FreeBSD port: a failed swap is reported as the value 0.\<close>

definition cmpxchg :: "u32 \<Rightarrow> u32 \<Rightarrow> u32 \<Rightarrow> u32 \<times> u32" where
  "cmpxchg word old new = (if word = old then (new, old) else (word, 0))"

text \<open>The loop of every user of the macro: it ends with the value read, the value to be stored, and
  the word.\<close>

fun cas_loop :: "(u32 \<Rightarrow> u32) \<Rightarrow> u32 option list \<Rightarrow> u32 \<Rightarrow> u32 \<times> u32 \<times> u32" where
  "cas_loop f [] word = (word, f word, f word)"
| "cas_loop f (other # others) word =
     (let old = word; new = f old;
          (word, prev) = cmpxchg (case other of None \<Rightarrow> word | Some w \<Rightarrow> w) old new
      in if prev \<noteq> old then cas_loop f others word else (old, new, word))"

section \<open>Operations\<close>

definition take_value :: "drm_lock_data \<Rightarrow> u32 \<Rightarrow> u32 \<Rightarrow> u32" where
  "take_value d context old =
     (if old AND DRM_LOCK_HELD \<noteq> 0 then old OR DRM_LOCK_CONT
      else context OR DRM_LOCK_HELD
           OR (if 1 < ld_user_waiters d + ld_kernel_waiters d then DRM_LOCK_CONT else 0))"

definition drm_lock_take ::
    "u32 option list \<Rightarrow> drm_lock_data \<Rightarrow> u32 \<Rightarrow> bool \<times> drm_lock_data" where
  "drm_lock_take others d context =
     (let (old, new, word) = cas_loop (take_value d context) others (ld_hw_lock d);
          d = d\<lparr>ld_hw_lock := word\<rparr>
      in if DRM_LOCKING_CONTEXT old = context \<and> old AND DRM_LOCK_HELD \<noteq> 0 then (False, d)
         else (DRM_LOCKING_CONTEXT new = context \<and> new AND DRM_LOCK_HELD \<noteq> 0, d))"

definition drm_lock_transfer :: "u32 option list \<Rightarrow> drm_lock_data \<Rightarrow> u32 \<Rightarrow> drm_lock_data" where
  "drm_lock_transfer others d context =
     (let (old, new, word) = cas_loop (\<lambda>_. context OR DRM_LOCK_HELD) others (ld_hw_lock d)
      in d\<lparr>ld_file_priv := None, ld_hw_lock := word\<rparr>)"

definition drm_lock_free :: "u32 option list \<Rightarrow> drm_lock_data \<Rightarrow> u32 \<Rightarrow> bool \<times> drm_lock_data" where
  "drm_lock_free others d context =
     (if ld_kernel_waiters d \<noteq> 0
      then (True, (drm_lock_transfer others d 0)\<lparr>ld_idle_has_lock := True\<rparr>)
      else let (old, new, word) = cas_loop DRM_LOCKING_CONTEXT others (ld_hw_lock d)
           in (DRM_LOCK_IS_HELD old \<and> DRM_LOCKING_CONTEXT old \<noteq> context, d\<lparr>ld_hw_lock := word\<rparr>))"

definition drm_idlelock_take :: "u32 option list \<Rightarrow> drm_lock_data \<Rightarrow> drm_lock_data" where
  "drm_idlelock_take others d =
     (let d = d\<lparr>ld_kernel_waiters := ld_kernel_waiters d + 1\<rparr>
      in if \<not> ld_idle_has_lock d
         then (case drm_lock_take others d DRM_KERNEL_CONTEXT of
                 (ret, d) \<Rightarrow> if ret then d\<lparr>ld_idle_has_lock := True\<rparr> else d)
         else d)"

definition drm_idlelock_release :: "u32 option list \<Rightarrow> drm_lock_data \<Rightarrow> drm_lock_data" where
  "drm_idlelock_release others d =
     (let d = d\<lparr>ld_kernel_waiters := ld_kernel_waiters d - 1\<rparr>
      in if ld_kernel_waiters d = 0 \<and> ld_idle_has_lock d
         then (case cas_loop (\<lambda>_. DRM_KERNEL_CONTEXT) others (ld_hw_lock d) of
                 (old, new, word) \<Rightarrow> d\<lparr>ld_hw_lock := word, ld_idle_has_lock := False\<rparr>)
         else d)"

definition drm_i_have_hw_lock :: "drm_lock_data \<Rightarrow> nat \<Rightarrow> u64 \<Rightarrow> bool" where
  "drm_i_have_hw_lock d file lock_count \<longleftrightarrow>
     lock_count \<noteq> 0 \<and> DRM_LOCK_IS_HELD (ld_hw_lock d) \<and> ld_file_priv d = Some file"

text \<open>The loop of the lock ioctl.  One attempt is the interference on the swap, what the sleep
  returns when the lock was not taken, and the state left by the others by then.\<close>

type_synonym lock_attempt = "u32 option list \<times> errno option \<times> (drm_lock_data \<Rightarrow> drm_lock_data)"

fun drm_lock_loop ::
    "nat \<Rightarrow> u32 \<Rightarrow> lock_attempt list \<Rightarrow> drm_lock_data \<Rightarrow> (errno option \<times> drm_lock_data) option" where
  "drm_lock_loop file context [] d = None"
| "drm_lock_loop file context ((others, slept, env) # attempts) d =
     (case drm_lock_take others d context of
        (True, d) \<Rightarrow> Some (None, d\<lparr>ld_file_priv := Some file\<rparr>)
      | (False, d) \<Rightarrow>
          (case slept of
             None \<Rightarrow> drm_lock_loop file context attempts (env d)
           | Some e \<Rightarrow> Some (Some (if e = ERESTART then ERESTARTSYS else e), env d)))"

text \<open>\<open>quiescent\<close> is the result of the driver's \<^verbatim>\<open>dma_quiescent\<close>, \<open>None\<close> when the driver has none.
  The result holds the new lock count of the file; \<open>None\<close> is a caller still asleep.\<close>

definition drm_lock ::
    "nat \<Rightarrow> u64 \<Rightarrow> u32 \<Rightarrow> u32 \<Rightarrow> bool option \<Rightarrow> lock_attempt list \<Rightarrow> drm_lock_data \<Rightarrow>
     (errno option \<times> u64 \<times> drm_lock_data) option" where
  "drm_lock file lock_count context flags quiescent attempts d =
     (let lock_count = lock_count + 1
      in if context = DRM_KERNEL_CONTEXT then Some (Some EINVAL, lock_count, d)
         else (case drm_lock_loop file context attempts
                      (d\<lparr>ld_user_waiters := ld_user_waiters d + 1\<rparr>) of
                 None \<Rightarrow> None
               | Some (ret, d) \<Rightarrow> let d = d\<lparr>ld_user_waiters := ld_user_waiters d - 1\<rparr>
                   in Some (if ret \<noteq> None then ret
                            else if quiescent = Some True \<and> flags AND DRM_LOCK_QUIESCENT \<noteq> 0
                            then Some EBUSY else None, lock_count, d)))"

definition drm_unlock :: "u32 option list \<Rightarrow> drm_lock_data \<Rightarrow> u32 \<Rightarrow> errno option \<times> drm_lock_data" where
  "drm_unlock others d context =
     (if context = DRM_KERNEL_CONTEXT then (Some EINVAL, d)
      else (None, snd (drm_lock_free others d context)))"

end
