(* ===== verification/Drm_Lock_Claims.thy ===== *)
theory Drm_Lock_Claims
  imports Drm_Lock
begin

text \<open>
  The hardware lock: its word, the step relation of the operations without interference, the
  invariant that ties the word to the contexts that believe to hold it, and what interference
  does to a swap from 0.
\<close>

unbundle bit_operations_syntax

section \<open>The lock word\<close>

definition user_context :: "u32 \<Rightarrow> bool" where
  "user_context c \<longleftrightarrow> c \<noteq> DRM_KERNEL_CONTEXT \<and> c AND (DRM_LOCK_HELD OR DRM_LOCK_CONT) = 0"

lemma held_bit: "w AND DRM_LOCK_HELD \<noteq> 0 \<longleftrightarrow> bit w 31"
  using and_exp_eq_0_iff_not_bit [of w 31] by (simp add: DRM_LOCK_HELD_def)

lemma locking_context_bit [simp]: "bit (DRM_LOCKING_CONTEXT w) n \<longleftrightarrow> bit w n \<and> n < 30"
proof -
  have "bit (DRM_LOCK_HELD :: u32) n \<longleftrightarrow> n = 31" "bit (DRM_LOCK_CONT :: u32) n \<longleftrightarrow> n = 30"
    using bit_exp_iff [where 'a = u32, of 31 n] bit_exp_iff [where 'a = u32, of 30 n]
    by (auto simp: DRM_LOCK_HELD_def DRM_LOCK_CONT_def)
  then show ?thesis
    using bit_imp_le_length [of w n] by (auto simp: DRM_LOCKING_CONTEXT_def bit_simps)
qed

lemma lock_const_bit [simp]:
  "bit DRM_LOCK_HELD n \<longleftrightarrow> n = 31" "bit DRM_LOCK_CONT n \<longleftrightarrow> n = 30"
  using bit_exp_iff [where 'a = u32, of 31 n] bit_exp_iff [where 'a = u32, of 30 n]
  by (auto simp: DRM_LOCK_HELD_def DRM_LOCK_CONT_def)

lemma context_bits: "c AND (DRM_LOCK_HELD OR DRM_LOCK_CONT) = 0 \<Longrightarrow> bit c n \<Longrightarrow> n < 30"
proof (rule ccontr)
  assume a: "c AND (DRM_LOCK_HELD OR DRM_LOCK_CONT) = 0" "bit c n" "\<not> n < 30"
  then have "n = 30 \<or> n = 31" using bit_imp_le_length [of c n] by auto
  then have "bit (c AND (DRM_LOCK_HELD OR DRM_LOCK_CONT)) n" using a(2) by (auto simp: bit_simps)
  then show False using a(1) by simp
qed

text \<open>The word written for a context is held, by that context.\<close>

lemma locking_context_of [simp]:
  assumes "c AND (DRM_LOCK_HELD OR DRM_LOCK_CONT) = 0"
  shows "DRM_LOCKING_CONTEXT (c OR DRM_LOCK_HELD) = c"
    and "DRM_LOCKING_CONTEXT (c OR DRM_LOCK_HELD OR DRM_LOCK_CONT) = c"
  by (rule bit_eqI; use context_bits [OF assms] in \<open>auto simp: bit_simps\<close>)+

lemma locking_context_cont [simp]: "DRM_LOCKING_CONTEXT (w OR DRM_LOCK_CONT) = DRM_LOCKING_CONTEXT w"
  by (rule bit_eqI) (auto simp: bit_simps)

lemma locking_context_idem [simp]:
  "DRM_LOCKING_CONTEXT (DRM_LOCKING_CONTEXT w) = DRM_LOCKING_CONTEXT w"
  by (rule bit_eqI) auto

lemma kernel_context_ok [simp]: "DRM_KERNEL_CONTEXT AND x = 0"
  by (simp add: DRM_KERNEL_CONTEXT_def)

text \<open>The contexts a word names as holders.\<close>

definition word_holders :: "u32 \<Rightarrow> u32 set" where
  "word_holders w = (if bit w 31 then {DRM_LOCKING_CONTEXT w} else {})"

lemma word_holders_simps [simp]:
  "word_holders (DRM_LOCKING_CONTEXT w) = {}"
  "word_holders (w OR DRM_LOCK_CONT) = word_holders w"
  "c AND (DRM_LOCK_HELD OR DRM_LOCK_CONT) = 0 \<Longrightarrow> word_holders (c OR DRM_LOCK_HELD) = {c}"
  "c AND (DRM_LOCK_HELD OR DRM_LOCK_CONT) = 0 \<Longrightarrow>
     word_holders (c OR DRM_LOCK_HELD OR DRM_LOCK_CONT) = {c}"
  "word_holders DRM_KERNEL_CONTEXT = {}"
  by (simp_all add: word_holders_def bit_simps) (simp add: DRM_KERNEL_CONTEXT_def)

text \<open>Taking the lock without interference.\<close>

lemma take_result:
  assumes "c AND (DRM_LOCK_HELD OR DRM_LOCK_CONT) = 0"
  shows "fst (drm_lock_take [] d c) \<longleftrightarrow> word_holders (ld_hw_lock d) = {}"
    and "word_holders (ld_hw_lock (snd (drm_lock_take [] d c))) =
           (if word_holders (ld_hw_lock d) = {} then {c} else word_holders (ld_hw_lock d))"
    and "ld_idle_has_lock (snd (drm_lock_take [] d c)) = ld_idle_has_lock d"
    and "ld_kernel_waiters (snd (drm_lock_take [] d c)) = ld_kernel_waiters d"
  using assms
  by (auto simp: drm_lock_take_def take_value_def Let_def held_bit bit_simps word_holders_def)

section \<open>The steps of the operations\<close>

text \<open>The ghost set of contexts that were told they hold the lock; context 0 stands for the kernel
  while \<open>ld_idle_has_lock\<close> is set.\<close>

inductive lock_step :: "drm_lock_data \<times> u32 set \<Rightarrow> drm_lock_data \<times> u32 set \<Rightarrow> bool" where
  take: "\<lbrakk>user_context c; drm_lock_take [] d c = (got, d')\<rbrakk> \<Longrightarrow>
     lock_step (d, H) (d', if got then insert c H else H)"
| unlock: "\<lbrakk>user_context c; c \<in> H; drm_unlock [] d c = (ret, d')\<rbrakk> \<Longrightarrow>
     lock_step (d, H) (d', H - {c} \<union> (if ld_idle_has_lock d' then {DRM_KERNEL_CONTEXT} else {}))"
| idle_take: "\<lbrakk>unat (ld_kernel_waiters d) < 2 ^ 32 - 1; d' = drm_idlelock_take [] d\<rbrakk> \<Longrightarrow>
     lock_step (d, H) (d', H \<union> (if ld_idle_has_lock d' then {DRM_KERNEL_CONTEXT} else {}))"
| idle_release: "\<lbrakk>ld_kernel_waiters d \<noteq> 0; d' = drm_idlelock_release [] d\<rbrakk> \<Longrightarrow>
     lock_step (d, H) (d', if ld_idle_has_lock d' then H else H - {DRM_KERNEL_CONTEXT})"
| waiters: "lock_step (d, H) (d\<lparr>ld_user_waiters := n, ld_file_priv := f\<rparr>, H)"

inductive_cases lock_step_cases: "lock_step (d, H) (d', H')"

definition lock_start :: "drm_lock_data \<times> u32 set" where
  "lock_start = (\<lparr>ld_hw_lock = 0, ld_file_priv = None, ld_user_waiters = 0,
     ld_kernel_waiters = 0, ld_idle_has_lock = False\<rparr>, {})"



lemma user_contextD: "user_context c \<Longrightarrow> c \<noteq> DRM_KERNEL_CONTEXT \<and> c AND (DRM_LOCK_HELD OR DRM_LOCK_CONT) = 0"
  by (simp add: user_context_def)


lemma kernel_word: "word_holders DRM_LOCK_HELD = {DRM_KERNEL_CONTEXT}"
  using word_holders_simps(3) [of DRM_KERNEL_CONTEXT] by (simp add: DRM_KERNEL_CONTEXT_def)

lemma next_waiter: "unat (w :: u32) < 2 ^ 32 - 1 \<Longrightarrow> w + 1 \<noteq> 0"
proof
  assume l: "unat w < 2 ^ 32 - 1" and "w + 1 = 0"
  then have "w = - 1" by (simp add: eq_neg_iff_add_eq_0)
  with l show False by (simp add: unsigned_minus_1_eq_mask mask_eq_exp_minus_1)
qed

lemma idle_take_result:
  assumes "unat (ld_kernel_waiters d) < 2 ^ 32 - 1"
  shows "ld_kernel_waiters (drm_idlelock_take [] d) \<noteq> 0"
    and "\<not> ld_idle_has_lock d \<Longrightarrow> ld_idle_has_lock (drm_idlelock_take [] d) \<longleftrightarrow> word_holders (ld_hw_lock d) = {}"
    and "ld_idle_has_lock d \<Longrightarrow> ld_idle_has_lock (drm_idlelock_take [] d)"
    and "word_holders (ld_hw_lock (drm_idlelock_take [] d)) =
           (if \<not> ld_idle_has_lock d \<and> word_holders (ld_hw_lock d) = {} then {DRM_KERNEL_CONTEXT}
            else word_holders (ld_hw_lock d))"
proof -
  let ?d = "d\<lparr>ld_kernel_waiters := ld_kernel_waiters d + 1\<rparr>"
  obtain ret d1 where t: "drm_lock_take [] ?d DRM_KERNEL_CONTEXT = (ret, d1)" by fastforce
  note r = take_result [OF kernel_context_ok, of ?d, unfolded t fst_conv snd_conv]
  note n = next_waiter [OF assms]
  show "ld_kernel_waiters (drm_idlelock_take [] d) \<noteq> 0"
    using n r(4) by (simp add: drm_idlelock_take_def Let_def t)
  show "\<not> ld_idle_has_lock d \<Longrightarrow>
      ld_idle_has_lock (drm_idlelock_take [] d) \<longleftrightarrow> word_holders (ld_hw_lock d) = {}"
    using r(1,3) by (simp add: drm_idlelock_take_def Let_def t)
  show "ld_idle_has_lock d \<Longrightarrow> ld_idle_has_lock (drm_idlelock_take [] d)"
    by (simp add: drm_idlelock_take_def Let_def)
  show "word_holders (ld_hw_lock (drm_idlelock_take [] d)) =
           (if \<not> ld_idle_has_lock d \<and> word_holders (ld_hw_lock d) = {} then {DRM_KERNEL_CONTEXT}
            else word_holders (ld_hw_lock d))"
    using r(2) by (simp add: drm_idlelock_take_def Let_def t)
qed

lemma unlock_result:
  assumes "user_context c"
  shows "ld_kernel_waiters d \<noteq> 0 \<Longrightarrow> word_holders (ld_hw_lock (snd (drm_unlock [] d c))) = {DRM_KERNEL_CONTEXT}
      \<and> ld_idle_has_lock (snd (drm_unlock [] d c))"
    and "ld_kernel_waiters d = 0 \<Longrightarrow> word_holders (ld_hw_lock (snd (drm_unlock [] d c))) = {}
      \<and> ld_idle_has_lock (snd (drm_unlock [] d c)) = ld_idle_has_lock d"
    and "ld_kernel_waiters (snd (drm_unlock [] d c)) = ld_kernel_waiters d"
  using user_contextD [OF assms] kernel_word
  by (simp_all add: drm_unlock_def drm_lock_free_def drm_lock_transfer_def)



section \<open>Interference\<close>

text \<open>A swap of a value other than 0 is never taken for a success when it failed.\<close>

lemma cas_loop_stored:
  assumes "word \<noteq> 0" and "Some 0 \<notin> set others" and "\<And>v. f v \<noteq> 0"
    and "cas_loop f others word = (old, new, word')"
  shows "new = f old \<and> word' = new"
  using assms
proof (induction f others word rule: cas_loop.induct)
  case (2 f other others word)
  show ?case
  proof (cases "(case other of None \<Rightarrow> word | Some w \<Rightarrow> w) = word")
    case True
    with 2 show ?thesis by (auto simp: cmpxchg_def Let_def)
  next
    case False
    moreover have "(case other of None \<Rightarrow> word | Some w \<Rightarrow> w) \<noteq> 0"
      using 2(2,3) by (auto split: option.splits)
    ultimately show ?thesis
      using 2 by (auto simp: cmpxchg_def Let_def)
  qed
qed auto

lemma take_value_ne: "take_value d c v \<noteq> 0"
proof -
  have "bit (take_value d c v) 31" by (auto simp: take_value_def held_bit bit_simps)
  then show ?thesis by auto
qed

lemma take_value_holders:
  "c AND (DRM_LOCK_HELD OR DRM_LOCK_CONT) = 0 \<Longrightarrow> \<not> (DRM_LOCKING_CONTEXT v = c \<and> v AND DRM_LOCK_HELD \<noteq> 0) \<Longrightarrow>
   DRM_LOCKING_CONTEXT (take_value d c v) = c \<Longrightarrow> word_holders (take_value d c v) = {c}"
  by (auto simp: take_value_def held_bit split: if_splits)

section \<open>The properties\<close>


lemma user_context_5: "user_context 5" "user_context 6"
  by (simp_all add: user_context_def DRM_KERNEL_CONTEXT_def DRM_LOCK_HELD_def DRM_LOCK_CONT_def)

lemma run_take_5: "lock_step\<^sup>*\<^sup>* lock_start (snd (drm_lock_take [] (fst lock_start) 5), {5})"
proof -
  have "fst (drm_lock_take [] (fst lock_start) 5)"
    using take_result(1) [of 5 "fst lock_start"] user_contextD [OF user_context_5(1)]
    by (simp add: lock_start_def word_holders_def)
  then have "drm_lock_take [] (fst lock_start) 5 = (True, snd (drm_lock_take [] (fst lock_start) 5))"
    by (metis prod.collapse)
  from lock_step.take [OF user_context_5(1) this, of "{}"] show ?thesis
    by (intro r_into_rtranclp) (simp add: lock_start_def)
qed


text \<open>C14: while the kernel waits for the lock, the unlock of the holder hands the lock to the kernel,
  and no user context can take it before the kernel lets it go.\<close>

theorem drm_lock_kernel_handover:
  assumes "lock_step\<^sup>*\<^sup>* lock_start (d, H)" and "user_context c" and "c \<in> H"
    and "ld_kernel_waiters d \<noteq> 0"
  shows "ld_idle_has_lock (snd (drm_unlock [] d c))
     \<and> (\<forall>c'. user_context c' \<longrightarrow> \<not> fst (drm_lock_take [] (snd (drm_unlock [] d c)) c'))"
  using unlock_result(1) [OF assms(2,4)] take_result(1) user_contextD by (metis insert_not_empty)

lemma drm_lock_kernel_handover_witness:
  "ld_idle_has_lock (snd (drm_unlock []
     (drm_idlelock_take [] (snd (drm_lock_take [] (fst lock_start) 5))) 5))"
proof -
  let ?d = "snd (drm_lock_take [] (fst lock_start) 5)"
  have k: "ld_kernel_waiters ?d = 0"
    using take_result(4) [of 5 "fst lock_start"] user_contextD [OF user_context_5(1)]
    by (simp add: lock_start_def)
  have "lock_step (?d, {5}) (drm_idlelock_take [] ?d,
      {5} \<union> (if ld_idle_has_lock (drm_idlelock_take [] ?d) then {DRM_KERNEL_CONTEXT} else {}))"
    by (rule lock_step.idle_take) (simp_all add: k)
  with run_take_5 have "lock_step\<^sup>*\<^sup>* lock_start (drm_idlelock_take [] ?d,
      {5} \<union> (if ld_idle_has_lock (drm_idlelock_take [] ?d) then {DRM_KERNEL_CONTEXT} else {}))"
    by (rule rtranclp.rtrancl_into_rtrancl)
  from drm_lock_kernel_handover [OF this user_context_5(1)]
  show ?thesis using idle_take_result(1) [of ?d] k by simp
qed

text \<open>when others write the word meanwhile, a successful take really holds the lock as long as no
  one writes 0; from a word 0 a take reports success although another context has won the race,
  because the failed swap returns 0.\<close>

theorem drm_lock_take_under_interference:
  assumes "user_context c" and "user_context c'"
  shows "(\<forall>others d d'. ld_hw_lock d \<noteq> 0 \<and> Some 0 \<notin> set others \<and> drm_lock_take others d c = (True, d')
            \<longrightarrow> word_holders (ld_hw_lock d') = {c})
     \<and> (\<forall>d. ld_hw_lock d = 0 \<longrightarrow>
            (\<exists>d'. drm_lock_take [Some (c' OR DRM_LOCK_HELD)] d c = (True, d')
               \<and> word_holders (ld_hw_lock d') = {c'}))"
proof (intro conjI allI impI)
  note c = user_contextD [OF assms(1), THEN conjunct2]
  fix others d d'
  assume a: "ld_hw_lock d \<noteq> 0 \<and> Some 0 \<notin> set others \<and> drm_lock_take others d c = (True, d')"
  obtain old new word where l: "cas_loop (take_value d c) others (ld_hw_lock d) = (old, new, word)"
    by (cases "cas_loop (take_value d c) others (ld_hw_lock d)") auto
  with a cas_loop_stored [OF _ _ take_value_ne l] have "new = take_value d c old" "word = new" by simp_all
  moreover from this a l have "\<not> (DRM_LOCKING_CONTEXT old = c \<and> old AND DRM_LOCK_HELD \<noteq> 0)"
      "DRM_LOCKING_CONTEXT new = c" "ld_hw_lock d' = word"
    by (auto simp: drm_lock_take_def Let_def split: if_splits)
  ultimately show "word_holders (ld_hw_lock d') = {c}" using take_value_holders [OF c] by simp
next
  note c = user_contextD [OF assms(1)] and c' = user_contextD [OF assms(2)]
  fix d :: drm_lock_data assume z: "ld_hw_lock d = 0"
  have ne: "c' OR DRM_LOCK_HELD \<noteq> 0" using word_holders_simps(3) [of c'] c' by (metis bit_0_eq bot_apply bot_bool_def insert_not_empty word_holders_def)
  have v: "DRM_LOCKING_CONTEXT (take_value d c 0) = c" "take_value d c 0 AND DRM_LOCK_HELD \<noteq> 0"
    using c by (auto simp: take_value_def held_bit bit_simps)
  have "drm_lock_take [Some (c' OR DRM_LOCK_HELD)] d c = (True, d\<lparr>ld_hw_lock := c' OR DRM_LOCK_HELD\<rparr>)"
    using ne v by (simp add: drm_lock_take_def cmpxchg_def Let_def z)
  then show "\<exists>d'. drm_lock_take [Some (c' OR DRM_LOCK_HELD)] d c = (True, d')
               \<and> word_holders (ld_hw_lock d') = {c'}"
    using c' by simp
qed

lemma drm_lock_take_under_interference_witness:
  "\<exists>d'. drm_lock_take [Some (6 OR DRM_LOCK_HELD)] (fst lock_start) 5 = (True, d')
     \<and> word_holders (ld_hw_lock d') = {6}"
  using drm_lock_take_under_interference [OF user_context_5] by (simp add: lock_start_def)

end
