(* ===== verification/Ttm_Lock.thy ===== *)
theory Ttm_Lock
  imports Drm_Prelude
begin

text \<open>
  The TTM reader-writer lock, \<^verbatim>\<open>drm/ttm/ttm_lock.c\<close>.  \<open>tl_mtx\<close> tells whether the mutex of the lock
  is held; taking it again is \<open>Bug\<close>, a panic in the thread that owns it and an endless wait in any
  other when a call has returned with it.  A call that sleeps, which gives the mutex up, takes
  the list of its wake-ups: the error the sleep returned, and what the other threads did to the
  lock meanwhile; a call still asleep at the end of the list is \<open>None\<close>.
\<close>

unbundle bit_operations_syntax

section \<open>State\<close>

definition TTM_WRITE_LOCK_PENDING :: u32 where "TTM_WRITE_LOCK_PENDING = 1"
definition TTM_VT_LOCK_PENDING :: u32 where "TTM_VT_LOCK_PENDING = 2"
definition TTM_SUSPEND_LOCK_PENDING :: u32 where "TTM_SUSPEND_LOCK_PENDING = 4"
definition TTM_VT_LOCK :: u32 where "TTM_VT_LOCK = 8"
definition TTM_SUSPEND_LOCK :: u32 where "TTM_SUSPEND_LOCK = 16"

lemmas ttm_consts = TTM_WRITE_LOCK_PENDING_def TTM_VT_LOCK_PENDING_def
  TTM_SUSPEND_LOCK_PENDING_def TTM_VT_LOCK_def TTM_SUSPEND_LOCK_def

record ttm_lock =
  tl_mtx :: bool
  tl_rw :: int
  tl_flags :: u32
  tl_kill_takers :: bool
  tl_vt_holder :: "nat option"

definition ttm_lock_init :: "ttm_lock \<Rightarrow> ttm_lock" where
  "ttm_lock_init l = l\<lparr>tl_mtx := False, tl_rw := 0, tl_flags := 0, tl_kill_takers := False\<rparr>"

definition set_flag :: "u32 \<Rightarrow> ttm_lock \<Rightarrow> ttm_lock" where
  "set_flag f l = l\<lparr>tl_flags := tl_flags l OR f\<rparr>"

definition clear_flag :: "u32 \<Rightarrow> ttm_lock \<Rightarrow> ttm_lock" where
  "clear_flag f l = l\<lparr>tl_flags := tl_flags l AND NOT f\<rparr>"

section \<open>The mutex\<close>

definition mtx_lock :: "ttm_lock \<Rightarrow> ttm_lock outcome" where
  "mtx_lock l = (if tl_mtx l then Bug else Ok (l\<lparr>tl_mtx := True\<rparr>))"

definition mtx_unlock :: "ttm_lock \<Rightarrow> ttm_lock" where
  "mtx_unlock l = l\<lparr>tl_mtx := False\<rparr>"

text \<open>A call that changes the lock under the mutex, without sleeping.\<close>

definition under_mtx :: "(ttm_lock \<Rightarrow> ttm_lock) \<Rightarrow> ttm_lock \<Rightarrow> ttm_lock outcome" where
  "under_mtx f l = bind_outcome (mtx_lock l) (\<lambda>l. Ok (mtx_unlock (f l)))"

section \<open>The attempts\<close>

definition ttm_read_unlock :: "ttm_lock \<Rightarrow> ttm_lock outcome" where
  "ttm_read_unlock = under_mtx (\<lambda>l. l\<lparr>tl_rw := tl_rw l - 1\<rparr>)"

definition try_read_lock :: "ttm_lock \<Rightarrow> bool \<times> ttm_lock" where
  "try_read_lock l =
     (if tl_kill_takers l then (False, l)
      else if 0 \<le> tl_rw l \<and> tl_flags l = 0 then (True, l\<lparr>tl_rw := tl_rw l + 1\<rparr>)
      else (False, l))"

text \<open>The result holds whether to go on without sleeping, and whether the lock was taken.\<close>

definition try_read_trylock :: "ttm_lock \<Rightarrow> bool \<times> bool \<times> ttm_lock" where
  "try_read_trylock l =
     (if tl_kill_takers l then (False, False, l)
      else if 0 \<le> tl_rw l \<and> tl_flags l = 0 then (True, True, l\<lparr>tl_rw := tl_rw l + 1\<rparr>)
      else (tl_flags l = 0, False, l))"

definition ttm_write_unlock :: "ttm_lock \<Rightarrow> ttm_lock outcome" where
  "ttm_write_unlock = under_mtx (\<lambda>l. l\<lparr>tl_rw := 0\<rparr>)"

definition try_write_lock :: "ttm_lock \<Rightarrow> bool \<times> ttm_lock" where
  "try_write_lock l =
     (if tl_kill_takers l then (False, l)
      else if tl_rw l = 0 \<and> tl_flags l AND NOT TTM_WRITE_LOCK_PENDING = 0
      then (True, clear_flag TTM_WRITE_LOCK_PENDING (l\<lparr>tl_rw := - 1\<rparr>))
      else (False, set_flag TTM_WRITE_LOCK_PENDING l))"

definition ttm_write_lock_downgrade :: "ttm_lock \<Rightarrow> ttm_lock outcome" where
  "ttm_write_lock_downgrade = under_mtx (\<lambda>l. l\<lparr>tl_rw := 1\<rparr>)"

definition do_vt_unlock :: "ttm_lock \<Rightarrow> (errno option \<times> ttm_lock) outcome" where
  "do_vt_unlock l = bind_outcome (under_mtx (clear_flag TTM_VT_LOCK) l)
     (\<lambda>l'. Ok (if tl_flags l AND TTM_VT_LOCK = 0 then Some EINVAL else None, l'))"

definition try_vt_lock :: "ttm_lock \<Rightarrow> bool \<times> ttm_lock" where
  "try_vt_lock l =
     (if tl_rw l = 0 then (True, set_flag TTM_VT_LOCK (clear_flag TTM_VT_LOCK_PENDING l))
      else (False, set_flag TTM_VT_LOCK_PENDING l))"

definition ttm_suspend_unlock :: "ttm_lock \<Rightarrow> ttm_lock outcome" where
  "ttm_suspend_unlock = under_mtx (clear_flag TTM_SUSPEND_LOCK)"

definition try_suspend_lock :: "ttm_lock \<Rightarrow> bool \<times> ttm_lock" where
  "try_suspend_lock l =
     (if tl_rw l = 0 then (True, set_flag TTM_SUSPEND_LOCK (clear_flag TTM_SUSPEND_LOCK_PENDING l))
      else (False, set_flag TTM_SUSPEND_LOCK_PENDING l))"

section \<open>The calls\<close>

type_synonym wakeup = "errno option \<times> (ttm_lock \<Rightarrow> ttm_lock)"

definition slept_error :: "errno option \<Rightarrow> errno option" where
  "slept_error e = (if e = Some EINTR \<or> e = Some ERESTART then Some ERESTARTSYS else e)"

definition sleep :: "(ttm_lock \<Rightarrow> ttm_lock) \<Rightarrow> ttm_lock \<Rightarrow> ttm_lock" where
  "sleep env l = (env (mtx_unlock l))\<lparr>tl_mtx := True\<rparr>"

text \<open>The waiting loop of all takers: \<open>quit\<close> says which errors of the sleep end it, and \<open>undo\<close>
  what is done to the lock then.\<close>

fun sleep_loop ::
    "(ttm_lock \<Rightarrow> bool \<times> ttm_lock) \<Rightarrow> (errno option \<Rightarrow> bool) \<Rightarrow> (ttm_lock \<Rightarrow> ttm_lock) \<Rightarrow>
     wakeup list \<Rightarrow> errno option \<Rightarrow> ttm_lock \<Rightarrow> (errno option \<times> ttm_lock) option" where
  "sleep_loop attempt quit undo [] ret l =
     (case attempt l of (True, l) \<Rightarrow> Some (ret, l) | (False, l) \<Rightarrow> None)"
| "sleep_loop attempt quit undo ((e, env) # ws) ret l =
     (case attempt l of
        (True, l) \<Rightarrow> Some (ret, l)
      | (False, l) \<Rightarrow>
          let l = sleep env l; ret = slept_error e
          in if quit ret then Some (ret, undo l) else sleep_loop attempt quit undo ws ret l)"

definition ttm_read_lock :: "wakeup list \<Rightarrow> ttm_lock \<Rightarrow> (errno option \<times> ttm_lock) option outcome" where
  "ttm_read_lock ws l = bind_outcome (mtx_lock l) (\<lambda>l.
     Ok (sleep_loop try_read_lock (\<lambda>r. r \<noteq> None) id ws None l))"

fun trylock_loop :: "wakeup list \<Rightarrow> ttm_lock \<Rightarrow> (bool \<times> ttm_lock) option" where
  "trylock_loop [] l =
     (case try_read_trylock l of (True, locked, l) \<Rightarrow> Some (locked, l) | (False, locked, l) \<Rightarrow> None)"
| "trylock_loop ((e, env) # ws) l =
     (case try_read_trylock l of
        (True, locked, l) \<Rightarrow> Some (locked, l)
      | (False, locked, l) \<Rightarrow>
          let l = sleep env l
          in if slept_error e \<noteq> None then Some (locked, l) else trylock_loop ws l)"

definition ttm_read_trylock :: "wakeup list \<Rightarrow> ttm_lock \<Rightarrow> (errno option \<times> ttm_lock) option outcome" where
  "ttm_read_trylock ws l = bind_outcome (mtx_lock l) (\<lambda>l.
     Ok (map_option (\<lambda>(locked, l). (if locked then None else Some EBUSY, mtx_unlock l))
       (trylock_loop ws l)))"

definition ttm_write_lock ::
    "bool \<Rightarrow> wakeup list \<Rightarrow> ttm_lock \<Rightarrow> (errno option \<times> ttm_lock) option outcome" where
  "ttm_write_lock interruptible ws l = bind_outcome (mtx_lock l) (\<lambda>l.
     Ok (map_option (\<lambda>(ret, l). (ret, mtx_unlock l))
       (sleep_loop try_write_lock (\<lambda>r. interruptible \<and> r \<noteq> None)
          (clear_flag TTM_WRITE_LOCK_PENDING) ws None l)))"

text \<open>\<open>init\<close> is the result of \<^verbatim>\<open>ttm_base_object_init\<close>, which registers the release of the lock
  with the client \<open>tfile\<close>; the result of the wait itself is overwritten by it.\<close>

definition ttm_vt_lock ::
    "bool \<Rightarrow> nat \<Rightarrow> errno option \<Rightarrow> wakeup list \<Rightarrow> ttm_lock \<Rightarrow> (errno option \<times> ttm_lock) option outcome" where
  "ttm_vt_lock interruptible tfile init ws l = bind_outcome (mtx_lock l) (\<lambda>l.
     (case sleep_loop try_vt_lock (\<lambda>r. interruptible \<and> r \<noteq> None)
             (clear_flag TTM_VT_LOCK_PENDING) ws None l of
        None \<Rightarrow> Ok None
      | Some (ret, l) \<Rightarrow>
          if init \<noteq> None then bind_outcome (do_vt_unlock l) (\<lambda>(e, l). Ok (Some (init, l)))
          else Ok (Some (None, l\<lparr>tl_vt_holder := Some tfile\<rparr>))))"

text \<open>The removal of the base object asserts that the lock was held.\<close>

definition ttm_vt_lock_remove :: "ttm_lock \<Rightarrow> ttm_lock outcome" where
  "ttm_vt_lock_remove l =
     bind_outcome (do_vt_unlock l) (\<lambda>(ret, l). if ret = None then Ok l else Bug)"

definition ttm_suspend_lock :: "wakeup list \<Rightarrow> ttm_lock \<Rightarrow> ttm_lock option outcome" where
  "ttm_suspend_lock ws l = bind_outcome (mtx_lock l) (\<lambda>l.
     Ok (map_option (\<lambda>(ret, l). mtx_unlock l)
       (sleep_loop try_suspend_lock (\<lambda>_. False) id ws None l)))"

end
