(* ===== verification/Ttm_Lock_Claims.thy ===== *)
theory Ttm_Lock_Claims
  imports Ttm_Lock
begin

text \<open>
  The TTM lock: the step relation of its operations at the grain of the mutex, the exclusion
  they keep, and what is left behind by the calls that return with the mutex held.
\<close>

unbundle bit_operations_syntax

section \<open>Flags\<close>

text \<open>The flags are five different bits.\<close>

lemma power_bit: "m < 32 \<Longrightarrow> bit (2 ^ m :: u32) n \<longleftrightarrow> n = m"
  by (auto simp: bit_exp_iff)

lemma flag_bit [simp]:
  "bit TTM_WRITE_LOCK_PENDING n \<longleftrightarrow> n = 0" "bit TTM_VT_LOCK_PENDING n \<longleftrightarrow> n = 1"
  "bit TTM_SUSPEND_LOCK_PENDING n \<longleftrightarrow> n = 2" "bit TTM_VT_LOCK n \<longleftrightarrow> n = 3"
  "bit TTM_SUSPEND_LOCK n \<longleftrightarrow> n = 4"
  using power_bit [of 0 n] power_bit [of 1 n] power_bit [of 2 n] power_bit [of 3 n] power_bit [of 4 n]
  by (simp_all add: ttm_consts)

lemma vt_flag: "w AND TTM_VT_LOCK \<noteq> 0 \<longleftrightarrow> bit w 3"
  using and_exp_eq_0_iff_not_bit [of w 3] by (simp add: ttm_consts)

lemma flags_upd [simp]:
  "tl_rw (set_flag f l) = tl_rw l" "tl_rw (clear_flag f l) = tl_rw l"
  "tl_mtx (set_flag f l) = tl_mtx l" "tl_mtx (clear_flag f l) = tl_mtx l"
  "bit (tl_flags (set_flag f l)) n \<longleftrightarrow> bit (tl_flags l) n \<or> bit f n"
  "bit (tl_flags (clear_flag f l)) n \<longleftrightarrow> bit (tl_flags l) n \<and> \<not> bit f n"
  using bit_imp_le_length [of "tl_flags l" n]
  by (auto simp: set_flag_def clear_flag_def bit_simps)

lemma only_pending: "w AND NOT TTM_WRITE_LOCK_PENDING = 0 \<Longrightarrow> bit w n \<Longrightarrow> n = 0"
  using bit_imp_le_length [of w n] by (auto simp: bit_eq_iff bit_simps)

section \<open>Steps\<close>

text \<open>Who holds the lock: the number of readers, whether a writer, the VT switcher or a suspender
  has it.\<close>

record holders =
  ho_readers :: nat
  ho_writer :: bool
  ho_vt :: bool
  ho_suspend :: bool

inductive ttm_step :: "ttm_lock \<times> holders \<Rightarrow> ttm_lock \<times> holders \<Rightarrow> bool" where
  rlock: "try_read_lock l = (got, l') \<Longrightarrow>
     ttm_step (l, h) (l', if got then h\<lparr>ho_readers := ho_readers h + 1\<rparr> else h)"
| rtrylock: "try_read_trylock l = (go, got, l') \<Longrightarrow>
     ttm_step (l, h) (l', if got then h\<lparr>ho_readers := ho_readers h + 1\<rparr> else h)"
| read_unlock: "0 < ho_readers h \<Longrightarrow> ttm_read_unlock l = Ok l' \<Longrightarrow>
     ttm_step (l, h) (l', h\<lparr>ho_readers := ho_readers h - 1\<rparr>)"
| wlock: "try_write_lock l = (got, l') \<Longrightarrow>
     ttm_step (l, h) (l', if got then h\<lparr>ho_writer := True\<rparr> else h)"
| write_unlock: "ho_writer h \<Longrightarrow> ttm_write_unlock l = Ok l' \<Longrightarrow>
     ttm_step (l, h) (l', h\<lparr>ho_writer := False\<rparr>)"
| downgrade: "ho_writer h \<Longrightarrow> ttm_write_lock_downgrade l = Ok l' \<Longrightarrow>
     ttm_step (l, h) (l', h\<lparr>ho_writer := False, ho_readers := 1\<rparr>)"
| vt: "try_vt_lock l = (got, l') \<Longrightarrow> ttm_step (l, h) (l', if got then h\<lparr>ho_vt := True\<rparr> else h)"
| vt_unlock: "do_vt_unlock l = Ok (ret, l') \<Longrightarrow> ttm_step (l, h) (l', h\<lparr>ho_vt := False\<rparr>)"
| suspend: "try_suspend_lock l = (got, l') \<Longrightarrow>
     ttm_step (l, h) (l', if got then h\<lparr>ho_suspend := True\<rparr> else h)"
| suspend_unlock: "ttm_suspend_unlock l = Ok l' \<Longrightarrow> ttm_step (l, h) (l', h\<lparr>ho_suspend := False\<rparr>)"
| give_up_write: "ttm_step (l, h) (clear_flag TTM_WRITE_LOCK_PENDING l, h)"
| give_up_vt: "ttm_step (l, h) (clear_flag TTM_VT_LOCK_PENDING l, h)"
| mutex: "ttm_step (l, h) (l\<lparr>tl_mtx := b\<rparr>, h)"

definition no_holders :: holders where
  "no_holders = \<lparr>ho_readers = 0, ho_writer = False, ho_vt = False, ho_suspend = False\<rparr>"

definition ttm_inv :: "ttm_lock \<times> holders \<Rightarrow> bool" where
  "ttm_inv = (\<lambda>(l, h).
      (if ho_writer h then tl_rw l = - 1 \<and> ho_readers h = 0 else tl_rw l = int (ho_readers h))
    \<and> (ho_vt h \<longleftrightarrow> bit (tl_flags l) 3) \<and> (ho_suspend h \<longleftrightarrow> bit (tl_flags l) 4)
    \<and> (ho_vt h \<or> ho_suspend h \<longrightarrow> tl_rw l = 0))"

lemma under_mtx_Ok: "under_mtx f l = Ok l' \<longleftrightarrow> \<not> tl_mtx l \<and> l' = mtx_unlock (f (l\<lparr>tl_mtx := True\<rparr>))"
  by (auto simp: under_mtx_def mtx_lock_def)

lemma mtx_unlock_sel [simp]: "tl_rw (mtx_unlock l) = tl_rw l" "tl_flags (mtx_unlock l) = tl_flags l"
  by (simp_all add: mtx_unlock_def)

lemma clear_flag_mtx [simp]: "clear_flag f (l\<lparr>tl_mtx := b\<rparr>) = (clear_flag f l)\<lparr>tl_mtx := b\<rparr>"
  by (simp add: clear_flag_def)

lemmas ttm_defs = try_read_lock_def try_read_trylock_def ttm_read_unlock_def try_write_lock_def
  ttm_write_unlock_def ttm_write_lock_downgrade_def try_vt_lock_def do_vt_unlock_def
  try_suspend_lock_def ttm_suspend_unlock_def under_mtx_Ok

lemma ttm_step_inv: "ttm_step s s' \<Longrightarrow> ttm_inv s \<Longrightarrow> ttm_inv s'"
proof (induction rule: ttm_step.induct)
  case (wlock l got l' h)
  show ?case
  proof (cases got)
    case True
    with wlock(1) have w: "tl_rw l = 0" "tl_flags l AND NOT TTM_WRITE_LOCK_PENDING = 0"
      "l' = clear_flag TTM_WRITE_LOCK_PENDING (l\<lparr>tl_rw := - 1\<rparr>)"
      by (auto simp: try_write_lock_def split: if_splits)
    have "\<not> bit (tl_flags l) 3" "\<not> bit (tl_flags l) 4"
      using only_pending [OF w(2), of 3] only_pending [OF w(2), of 4] by auto
    with True w wlock(2) show ?thesis by (auto simp: ttm_inv_def split: if_splits)
  next
    case False
    with wlock show ?thesis
      by (cases "ho_writer h") (auto simp: ttm_inv_def try_write_lock_def split: if_splits)
  qed
next
  case (rlock l got l' h)
  then show ?case by (cases "ho_writer h") (auto simp: ttm_inv_def try_read_lock_def split: if_splits)
next
  case (rtrylock l go got l' h)
  then show ?case by (cases "ho_writer h") (auto simp: ttm_inv_def try_read_trylock_def split: if_splits)
next
  case (read_unlock h l l')
  then show ?case by (cases "ho_writer h") (auto simp: ttm_inv_def ttm_read_unlock_def under_mtx_Ok split: if_splits)
next
  case (write_unlock h l l')
  then show ?case by (cases "ho_writer h") (auto simp: ttm_inv_def ttm_write_unlock_def under_mtx_Ok split: if_splits)
next
  case (downgrade h l l')
  then show ?case by (cases "ho_writer h") (auto simp: ttm_inv_def ttm_write_lock_downgrade_def under_mtx_Ok split: if_splits)
next
  case (vt l got l' h)
  then show ?case by (cases "ho_writer h") (auto simp: ttm_inv_def try_vt_lock_def split: if_splits)
next
  case (vt_unlock l ret l' h)
  then show ?case by (cases "ho_writer h") (auto simp: ttm_inv_def do_vt_unlock_def under_mtx_Ok split: if_splits)
next
  case (suspend l got l' h)
  then show ?case by (cases "ho_writer h") (auto simp: ttm_inv_def try_suspend_lock_def split: if_splits)
next
  case (suspend_unlock l l' h)
  then show ?case by (cases "ho_writer h") (auto simp: ttm_inv_def ttm_suspend_unlock_def under_mtx_Ok split: if_splits)
next
  case (give_up_write l h)
  then show ?case by (cases "ho_writer h") (auto simp: ttm_inv_def  split: if_splits)
next
  case (give_up_vt l h)
  then show ?case by (cases "ho_writer h") (auto simp: ttm_inv_def  split: if_splits)
next
  case (mutex l h b)
  then show ?case by (cases "ho_writer h") (auto simp: ttm_inv_def  split: if_splits)
qed

lemma ttm_reachable_inv: "ttm_step\<^sup>*\<^sup>* (ttm_lock_init l, no_holders) s \<Longrightarrow> ttm_inv s"
proof (induction rule: rtranclp_induct)
  case base
  show ?case by (simp add: ttm_inv_def ttm_lock_init_def no_holders_def)
qed (rule ttm_step_inv)

section \<open>The waiting loop\<close>


section \<open>The waiting loop\<close>

text \<open>The loop ends by a successful attempt under the mutex, or by an error that ends the wait.\<close>

lemma sleep_loop_result:
  assumes "sleep_loop attempt quit undo ws ret l = Some (r, l')" and "tl_mtx l"
  shows "(\<exists>s. tl_mtx s \<and> attempt s = (True, l')) \<or> (quit r \<and> (\<exists>s. tl_mtx s \<and> l' = undo s))"
  using assms
proof (induction attempt quit undo ws ret l rule: sleep_loop.induct)
  case (1 attempt quit undo ret l)
  then show ?case by (auto split: prod.splits bool.splits)
next
  case (2 attempt quit undo e env ws ret l)
  obtain got l1 where t: "attempt l = (got, l1)" by fastforce
  show ?case
  proof (cases got)
    case True
    then show ?thesis using 2(2,3) t by auto
  next
    case False
    have m: "tl_mtx (sleep env l1)" by (simp add: sleep_def)
    show ?thesis
    proof (cases "quit (slept_error e)")
      case True
      then show ?thesis using 2(2) t False m by (auto simp: Let_def)
    next
      case q: False
      have "sleep_loop attempt quit undo ws (slept_error e) (sleep env l1) = Some (r, l')"
        using 2(2) t False q by (simp add: Let_def)
      from 2(1) [OF t [symmetric] _ refl refl q this m] False show ?thesis by simp
    qed
  qed
qed

lemma try_read_mtx: "try_read_lock l = (got, l') \<Longrightarrow> tl_mtx l' = tl_mtx l"
  by (auto simp: try_read_lock_def split: if_splits)

definition idle_lock :: ttm_lock where
  "idle_lock = \<lparr>tl_mtx = False, tl_rw = 0, tl_flags = 0, tl_kill_takers = False, tl_vt_holder = None\<rparr>"

section \<open>The properties\<close>

text \<open>C15: in every run of the lock's operations a writer excludes readers, VT switchers and
  suspenders, and readers exclude VT switchers and suspenders.\<close>

theorem ttm_lock_exclusion:
  assumes "ttm_step\<^sup>*\<^sup>* (ttm_lock_init l0, no_holders) (l, h)"
  shows "(ho_writer h \<longrightarrow> ho_readers h = 0 \<and> \<not> ho_vt h \<and> \<not> ho_suspend h)
     \<and> (0 < ho_readers h \<longrightarrow> \<not> ho_vt h \<and> \<not> ho_suspend h)
     \<and> tl_rw l = (if ho_writer h then - 1 else int (ho_readers h))"
  using ttm_reachable_inv [OF assms] by (cases "ho_writer h") (auto simp: ttm_inv_def)

lemma ttm_lock_exclusion_witness:
  "\<exists>l h. ttm_step\<^sup>*\<^sup>* (ttm_lock_init idle_lock, no_holders) (l, h)
     \<and> ho_writer h \<and> tl_rw l = - 1 \<and> ho_readers h = 0"
proof -
  let ?l0 = "ttm_lock_init idle_lock"
  have t: "try_write_lock ?l0 = (True, snd (try_write_lock ?l0))"
    by (simp add: try_write_lock_def ttm_lock_init_def idle_lock_def)
  have r: "ttm_step\<^sup>*\<^sup>* (?l0, no_holders) (snd (try_write_lock ?l0), no_holders\<lparr>ho_writer := True\<rparr>)"
    using ttm_step.wlock [OF t, of no_holders] by auto
  from ttm_lock_exclusion [OF this] r show ?thesis by (intro exI conjI) auto
qed

text \<open>a write lock that is granted without an error is really held: the writer's mark is set
  and the mutex is given back.\<close>

theorem ttm_write_lock_granted:
  assumes "ttm_write_lock interruptible ws l = Ok (Some (None, l'))"
  shows "tl_rw l' = - 1 \<and> \<not> tl_mtx l'"
proof -
  let ?l = "l\<lparr>tl_mtx := True\<rparr>"
  from assms obtain l1 where s: "sleep_loop try_write_lock (\<lambda>r. interruptible \<and> r \<noteq> None)
        (clear_flag TTM_WRITE_LOCK_PENDING) ws None ?l = Some (None, l1)" and l': "l' = mtx_unlock l1"
    by (auto simp: ttm_write_lock_def mtx_lock_def split: if_splits)
  from sleep_loop_result [OF s] obtain st where "try_write_lock st = (True, l1)" by auto
  then have "tl_rw l1 = - 1" by (auto simp: try_write_lock_def split: if_splits)
  with l' show ?thesis by (simp add: mtx_unlock_def)
qed

lemma ttm_write_lock_granted_witness:
  "\<exists>l'. ttm_write_lock True [] (ttm_lock_init idle_lock) = Ok (Some (None, l'))
     \<and> tl_rw l' = - 1"
proof -
  have "\<exists>l'. ttm_write_lock True [] (ttm_lock_init idle_lock) = Ok (Some (None, l'))"
    by (simp add: ttm_write_lock_def mtx_lock_def try_write_lock_def ttm_lock_init_def idle_lock_def)
  then show ?thesis using ttm_write_lock_granted by blast
qed

text \<open>every return of \<^verbatim>\<open>ttm_read_lock\<close> and every success of \<^verbatim>\<open>ttm_vt_lock\<close> leaves the mutex
  held: no later call on the lock, the unlock included, can complete.\<close>

theorem ttm_lock_mutex_leaked:
  assumes "ttm_read_lock ws l = Ok (Some (ret, l')) \<or> ttm_vt_lock interruptible tfile None ws l = Ok (Some (ret, l'))"
  shows "tl_mtx l' \<and> ttm_read_unlock l' = Bug \<and> ttm_read_lock ws' l' = Bug \<and> ttm_write_lock i ws' l' = Bug
     \<and> ttm_vt_lock_remove l' = Bug"
proof -
  have "tl_mtx l'"
    using assms
  proof
    assume "ttm_read_lock ws l = Ok (Some (ret, l'))"
    then have "sleep_loop try_read_lock (\<lambda>r. r \<noteq> None) id ws None (l\<lparr>tl_mtx := True\<rparr>) = Some (ret, l')"
      by (auto simp: ttm_read_lock_def mtx_lock_def split: if_splits)
    from sleep_loop_result [OF this] show ?thesis using try_read_mtx by auto
  next
    assume "ttm_vt_lock interruptible tfile None ws l = Ok (Some (ret, l'))"
    then obtain r l1 where s: "sleep_loop try_vt_lock (\<lambda>r. interruptible \<and> r \<noteq> None)
          (clear_flag TTM_VT_LOCK_PENDING) ws None (l\<lparr>tl_mtx := True\<rparr>) = Some (r, l1)"
        and "tl_mtx l' = tl_mtx l1"
      by (auto simp: ttm_vt_lock_def mtx_lock_def split: if_splits option.splits)
    moreover from sleep_loop_result [OF s] have "tl_mtx l1"
      by (auto simp: try_vt_lock_def split: if_splits)
    ultimately show ?thesis by simp
  qed
  then show ?thesis
    by (simp add: ttm_read_unlock_def under_mtx_def mtx_lock_def ttm_read_lock_def ttm_write_lock_def
        ttm_vt_lock_remove_def do_vt_unlock_def)
qed

lemma ttm_lock_mutex_leaked_witness:
  "\<exists>ret l'. ttm_read_lock [] (ttm_lock_init idle_lock) = Ok (Some (ret, l'))
     \<and> ttm_read_unlock l' = Bug"
proof -
  have "\<exists>l'. ttm_read_lock [] (ttm_lock_init idle_lock) = Ok (Some (None, l'))"
    by (simp add: ttm_read_lock_def mtx_lock_def try_read_lock_def ttm_lock_init_def idle_lock_def)
  then show ?thesis using ttm_lock_mutex_leaked by blast
qed

text \<open>An interrupted \<^verbatim>\<open>ttm_vt_lock\<close> reports success, as the result of the registration replaces the
  error, and the release of the unheld lock by the registered object panics.\<close>

lemma ttm_vt_lock_interrupted:
  "\<exists>l'. ttm_vt_lock True 7 None [(Some EINTR, id)] (idle_lock\<lparr>tl_rw := 1\<rparr>) = Ok (Some (None, l'))
     \<and> tl_vt_holder l' = Some 7 \<and> tl_flags l' AND TTM_VT_LOCK = 0 \<and> ttm_vt_lock_remove (mtx_unlock l') = Bug"
  by (simp add: ttm_vt_lock_def mtx_lock_def try_vt_lock_def sleep_def slept_error_def Let_def
      ttm_vt_lock_remove_def do_vt_unlock_def under_mtx_def mtx_unlock_def set_flag_def clear_flag_def ttm_consts idle_lock_def)

end
