(* ===== verification/I915_Gem.thy ===== *)
theory I915_Gem
  imports Drm_Prelude
begin

text \<open>
  The life of a GEM object on the GPU, from \<^verbatim>\<open>drm/i915/i915_gem.c\<close>: sequence numbers, requests, the
  active and inactive lists, waiting and retiring, and the cache domains.  Objects and rings are
  numbers; what the hardware and the other subsystems answer (the sequence number the GPU has
  written, a flush of the ring, an allocation, a sleep) are arguments of the operations.
\<close>

unbundle bit_operations_syntax

section \<open>State\<close>

definition I915_GEM_DOMAIN_CPU :: u32 where "I915_GEM_DOMAIN_CPU = 1"
definition I915_GEM_DOMAIN_GTT :: u32 where "I915_GEM_DOMAIN_GTT = 0x40"
definition I915_GEM_DOMAIN_COMMAND :: u32 where "I915_GEM_DOMAIN_COMMAND = 8"
definition I915_GEM_GPU_DOMAINS :: u32 where
  "I915_GEM_GPU_DOMAINS = NOT (I915_GEM_DOMAIN_CPU OR I915_GEM_DOMAIN_GTT)"

record gem_obj =
  go_read_domains :: u32
  go_write_domain :: u32
  go_pending_read :: u32
  go_pending_write :: u32
  go_active :: bool
  go_ring :: "nat option"
  go_last_read :: u32
  go_last_write :: u32
  go_last_fenced :: u32
  go_fenced_gpu :: bool
  go_pending_fenced_gpu :: bool
  go_dirty :: bool
  go_bound :: bool
  go_has_pages :: bool
  go_cached :: bool
  go_flushed :: bool

text \<open>\<open>go_flushed\<close> records that the CPU cache lines of the object were flushed; \<open>go_cached\<close> is a cache
  level other than \<^verbatim>\<open>I915_CACHE_NONE\<close>.  The tail of a request is \<open>None\<close> where the code stores -1.\<close>

record gem_request =
  rq_seqno :: u32
  rq_tail :: "u32 option"

record gem_ring =
  rg_requests :: "gem_request list"
  rg_olr :: u32
  rg_last_retired_head :: "u32 option"
  rg_active :: "nat list"
  rg_caches_dirty :: bool
  rg_sync_seqno :: "u32 list"
  rg_head :: u32
  rg_tail :: u32
  rg_space :: int
  rg_size :: int
  rg_effective_size :: int

record gem =
  gm_objs :: "nat \<Rightarrow> gem_obj"
  gm_rings :: "nat \<Rightarrow> gem_ring"
  gm_ring_ids :: "nat list"
  gm_active :: "nat list"
  gm_inactive :: "nat list"
  gm_next_seqno :: u32
  gm_suspended :: bool

definition upd_obj :: "nat \<Rightarrow> (gem_obj \<Rightarrow> gem_obj) \<Rightarrow> gem \<Rightarrow> gem" where
  "upd_obj ob f g = g\<lparr>gm_objs := (gm_objs g)(ob := f (gm_objs g ob))\<rparr>"

definition upd_ring :: "nat \<Rightarrow> (gem_ring \<Rightarrow> gem_ring) \<Rightarrow> gem \<Rightarrow> gem" where
  "upd_ring r f g = g\<lparr>gm_rings := (gm_rings g)(r := f (gm_rings g r))\<rparr>"

text \<open>Taking an object off the ring list it is on, and off the list of the memory manager.\<close>

definition del_ring_list :: "nat \<Rightarrow> gem \<Rightarrow> gem" where
  "del_ring_list ob g = g\<lparr>gm_rings := (\<lambda>r. (gm_rings g r)\<lparr>rg_active := remove1 ob (rg_active (gm_rings g r))\<rparr>)\<rparr>"

definition del_mm_list :: "nat \<Rightarrow> gem \<Rightarrow> gem" where
  "del_mm_list ob g = g\<lparr>gm_active := remove1 ob (gm_active g), gm_inactive := remove1 ob (gm_inactive g)\<rparr>"

section \<open>Sequence numbers\<close>

definition i915_seqno_passed :: "u32 \<Rightarrow> u32 \<Rightarrow> bool" where
  "i915_seqno_passed seq1 seq2 \<longleftrightarrow> 0 \<le> sint (seq1 - seq2)"

section \<open>Active and inactive\<close>

text \<open>The number of the request being built; it must have been allocated.\<close>

definition intel_ring_get_seqno :: "gem_ring \<Rightarrow> u32 outcome" where
  "intel_ring_get_seqno R = (if rg_olr R = 0 then Bug else Ok (rg_olr R))"

text \<open>The MRU list of the fence registers is with the fences.\<close>

definition i915_gem_object_move_to_active :: "nat \<Rightarrow> nat \<Rightarrow> gem \<Rightarrow> gem outcome" where
  "i915_gem_object_move_to_active ob r g =
     bind_outcome (intel_ring_get_seqno (gm_rings g r)) (\<lambda>seqno. Ok (let
         g = upd_obj ob (\<lambda>b. b\<lparr>go_ring := Some r, go_active := True\<rparr>) g;
         g = del_mm_list ob g; g = g\<lparr>gm_active := gm_active g @ [ob]\<rparr>;
         g = upd_ring r (\<lambda>R. R\<lparr>rg_active := rg_active R @ [ob]\<rparr>) (del_ring_list ob g)
       in upd_obj ob (\<lambda>b. b\<lparr>go_last_read := seqno,
                         go_last_fenced := if go_fenced_gpu b then seqno else go_last_fenced b\<rparr>) g))"

definition i915_gem_object_move_to_inactive :: "nat \<Rightarrow> gem \<Rightarrow> gem outcome" where
  "i915_gem_object_move_to_inactive ob g =
     (if go_write_domain (gm_objs g ob) AND NOT I915_GEM_GPU_DOMAINS \<noteq> 0 then Bug
      else if \<not> go_active (gm_objs g ob) then Bug
      else let g = del_mm_list ob g; g = g\<lparr>gm_inactive := gm_inactive g @ [ob]\<rparr>;
               g = del_ring_list ob g
           in Ok (upd_obj ob (\<lambda>b. b\<lparr>go_ring := None, go_last_read := 0, go_last_write := 0,
                    go_write_domain := 0, go_last_fenced := 0, go_fenced_gpu := False,
                    go_active := False\<rparr>) g))"

text \<open>The marking of a pinned framebuffer as busy is left out.\<close>

fun i915_gem_execbuffer_move_to_active :: "nat list \<Rightarrow> nat \<Rightarrow> gem \<Rightarrow> gem outcome" where
  "i915_gem_execbuffer_move_to_active [] r g = Ok g"
| "i915_gem_execbuffer_move_to_active (ob # obs) r g =
     bind_outcome (i915_gem_object_move_to_active ob r
        (upd_obj ob (\<lambda>b. b\<lparr>go_read_domains := go_pending_read b, go_write_domain := go_pending_write b,
                          go_fenced_gpu := go_pending_fenced_gpu b\<rparr>) g))
       (\<lambda>g. i915_gem_execbuffer_move_to_active obs r
         (if go_write_domain (gm_objs g ob) \<noteq> 0
          then upd_obj ob (\<lambda>b. b\<lparr>go_dirty := True, go_last_write := rg_olr (gm_rings g r)\<rparr>) g
          else g))"

section \<open>Retiring\<close>

fun retire_request_list :: "u32 \<Rightarrow> gem_request list \<Rightarrow> u32 option \<Rightarrow> gem_request list \<times> u32 option" where
  "retire_request_list seqno [] head = ([], head)"
| "retire_request_list seqno (q # qs) head =
     (if \<not> i915_seqno_passed seqno (rq_seqno q) then (q # qs, head)
      else retire_request_list seqno qs (rq_tail q))"

text \<open>The loop takes the first element of the ring's list, which each round removes.\<close>

fun retire_active_list :: "u32 \<Rightarrow> nat list \<Rightarrow> gem \<Rightarrow> gem outcome" where
  "retire_active_list seqno [] g = Ok g"
| "retire_active_list seqno (ob # obs) g =
     (if \<not> i915_seqno_passed seqno (go_last_read (gm_objs g ob)) then Ok g
      else bind_outcome (i915_gem_object_move_to_inactive ob g) (retire_active_list seqno obs))"

definition i915_gem_retire_requests_ring :: "u32 \<Rightarrow> nat \<Rightarrow> gem \<Rightarrow> gem outcome" where
  "i915_gem_retire_requests_ring seqno r g =
     (if rg_requests (gm_rings g r) = [] then Ok g
      else case retire_request_list seqno (rg_requests (gm_rings g r)) (rg_last_retired_head (gm_rings g r)) of
             (qs, head) \<Rightarrow>
               let g = upd_ring r (\<lambda>R. R\<lparr>rg_requests := qs, rg_last_retired_head := head\<rparr>) g
               in retire_active_list seqno (rg_active (gm_rings g r)) g)"

fun retire_rings :: "(nat \<Rightarrow> u32) \<Rightarrow> nat list \<Rightarrow> gem \<Rightarrow> gem outcome" where
  "retire_rings hw [] g = Ok g"
| "retire_rings hw (r # rs) g =
     bind_outcome (i915_gem_retire_requests_ring (hw r) r g) (retire_rings hw rs)"

definition i915_gem_retire_requests :: "(nat \<Rightarrow> u32) \<Rightarrow> gem \<Rightarrow> gem outcome" where
  "i915_gem_retire_requests hw g = retire_rings hw (gm_ring_ids g) g"

section \<open>New sequence numbers and requests\<close>

text \<open>\<open>idle\<close> is the result of \<^verbatim>\<open>i915_gpu_idle\<close> with the state it leaves, \<open>hw\<close> what the rings report
  then.\<close>

definition i915_gem_handle_seqno_wrap ::
    "(gem \<Rightarrow> errno option \<times> gem) \<Rightarrow> (nat \<Rightarrow> u32) \<Rightarrow> gem \<Rightarrow> (errno option \<times> gem) outcome" where
  "i915_gem_handle_seqno_wrap idle hw g =
     (if \<forall>r \<in> set (gm_ring_ids g). \<forall>s \<in> set (rg_sync_seqno (gm_rings g r)). s = 0 then Ok (None, g)
      else case idle g of
        (Some e, g) \<Rightarrow> Ok (Some e, g)
      | (None, g) \<Rightarrow> bind_outcome (i915_gem_retire_requests hw g)
          (\<lambda>g. Ok (None, g\<lparr>gm_rings := (\<lambda>r. if r \<in> set (gm_ring_ids g)
               then (gm_rings g r)\<lparr>rg_sync_seqno := map (\<lambda>_. 0) (rg_sync_seqno (gm_rings g r))\<rparr>
               else gm_rings g r)\<rparr>)))"

definition i915_gem_get_seqno ::
    "(gem \<Rightarrow> errno option \<times> gem) \<Rightarrow> (nat \<Rightarrow> u32) \<Rightarrow> gem \<Rightarrow> ((errno + u32) \<times> gem) outcome" where
  "i915_gem_get_seqno idle hw g =
     bind_outcome
       (if gm_next_seqno g = 0
        then bind_outcome (i915_gem_handle_seqno_wrap idle hw g)
               (\<lambda>(ret, g). Ok (ret, if ret = None then g\<lparr>gm_next_seqno := 1\<rparr> else g))
        else Ok (None, g))
       (\<lambda>(ret, g). Ok (case ret of Some e \<Rightarrow> (Inl e, g)
                       | None \<Rightarrow> (Inr (gm_next_seqno g), g\<lparr>gm_next_seqno := gm_next_seqno g + 1\<rparr>)))"

definition intel_ring_alloc_seqno ::
    "(gem \<Rightarrow> errno option \<times> gem) \<Rightarrow> (nat \<Rightarrow> u32) \<Rightarrow> nat \<Rightarrow> gem \<Rightarrow> (errno option \<times> gem) outcome" where
  "intel_ring_alloc_seqno idle hw r g =
     (if rg_olr (gm_rings g r) \<noteq> 0 then Ok (None, g)
      else bind_outcome (i915_gem_get_seqno idle hw g)
        (\<lambda>(s, g). Ok (case s of Inl e \<Rightarrow> (Some e, g)
                      | Inr seqno \<Rightarrow> (None, upd_ring r (\<lambda>R. R\<lparr>rg_olr := seqno\<rparr>) g))))"

text \<open>The flush and the \<^verbatim>\<open>add_request\<close> of a ring begin by \<^verbatim>\<open>intel_ring_begin\<close>, which checks for a wedged
  GPU and then allocates the number; \<open>res\<close> holds the result of the check, and that of all the rest.\<close>

type_synonym wrap_env = "(gem \<Rightarrow> errno option \<times> gem) \<times> (nat \<Rightarrow> u32)"

type_synonym emit_result = "errno option \<times> errno option"

definition ring_emit :: "wrap_env \<Rightarrow> emit_result \<Rightarrow> nat \<Rightarrow> gem \<Rightarrow> (errno option \<times> gem) outcome" where
  "ring_emit we res r g =
     (if fst res \<noteq> None then Ok (fst res, g)
      else bind_outcome (intel_ring_alloc_seqno (fst we) (snd we) r g)
             (\<lambda>(ret, g). Ok (if ret \<noteq> None then ret else snd res, g)))"

text \<open>What the parts of an emission answer.\<close>

record emission =
  em_wrap :: wrap_env
  em_flush :: emit_result
  em_alloc :: bool
  em_add :: emit_result

definition intel_ring_flush_all_caches ::
    "wrap_env \<Rightarrow> emit_result \<Rightarrow> nat \<Rightarrow> gem \<Rightarrow> (errno option \<times> gem) outcome" where
  "intel_ring_flush_all_caches we res r g =
     (if \<not> rg_caches_dirty (gm_rings g r) then Ok (None, g)
      else bind_outcome (ring_emit we res r g)
        (\<lambda>(ret, g). Ok (ret, if ret \<noteq> None then g
                             else upd_ring r (\<lambda>R. R\<lparr>rg_caches_dirty := False\<rparr>) g)))"

text \<open>The timers and the list of the client are left out.\<close>

definition i915_add_request :: "emission \<Rightarrow> nat \<Rightarrow> gem \<Rightarrow> (errno option \<times> gem) outcome" where
  "i915_add_request em r g =
     bind_outcome (intel_ring_flush_all_caches (em_wrap em) (em_flush em) r g) (\<lambda>(ret, g).
       if ret \<noteq> None then Ok (ret, g)
       else if \<not> em_alloc em then Ok (Some ENOMEM, g)
       else let tail = rg_tail (gm_rings g r) in
         bind_outcome (ring_emit (em_wrap em) (em_add em) r g) (\<lambda>(ret, g).
           if ret \<noteq> None then Ok (ret, g)
           else bind_outcome (intel_ring_get_seqno (gm_rings g r)) (\<lambda>seqno.
             Ok (None, upd_ring r (\<lambda>R. R\<lparr>rg_requests := rg_requests R
                   @ [\<lparr>rq_seqno = seqno, rq_tail = Some tail\<rparr>], rg_olr := 0\<rparr>) g))))"

section \<open>Waiting\<close>

definition i915_gem_check_wedge :: "bool \<Rightarrow> bool \<Rightarrow> bool \<Rightarrow> errno option" where
  "i915_gem_check_wedge wedged recovery_complete interruptible =
     (if wedged then (if \<not> interruptible then Some EIO
                      else if recovery_complete then Some EIO else Some EAGAIN)
      else None)"

text \<open>What one round of the wait observes: the number the ring reports and the wedged flag before the
  sleep, the result of the sleep, both again after it, and then the flags that
  \<^verbatim>\<open>i915_gem_check_wedge\<close> reads.\<close>

record wait_round =
  wo_seqno :: u32
  wo_wedged :: bool
  wo_sleep :: "errno option"
  wo_seqno2 :: u32
  wo_wedged2 :: bool
  wo_check_wedged :: bool
  wo_recovered :: bool

datatype wait_end = Completed | Failed errno | Timed_out

fun wait_rounds :: "u32 \<Rightarrow> bool \<Rightarrow> bool \<Rightarrow> wait_round list \<Rightarrow> wait_end option" where
  "wait_rounds seqno interruptible wait_forever [] = None"
| "wait_rounds seqno interruptible wait_forever (w # ws) =
     (let e = (if i915_seqno_passed (wo_seqno w) seqno \<or> wo_wedged w then Completed
               else if i915_seqno_passed (wo_seqno2 w) seqno \<or> wo_wedged2 w then Completed
               else if wo_sleep w = Some EINTR \<or> wo_sleep w = Some ERESTART then Failed ERESTARTSYS
               else Timed_out);
          e = (case i915_gem_check_wedge (wo_check_wedged w) (wo_recovered w) interruptible of
                 None \<Rightarrow> e | Some err \<Rightarrow> Failed err)
      in if e = Timed_out \<and> wait_forever then wait_rounds seqno interruptible wait_forever ws
         else Some e)"

text \<open>A caller still waiting at the end of the rounds is \<open>None\<close>.\<close>

definition wait_seqno ::
    "u32 \<Rightarrow> bool \<Rightarrow> bool \<Rightarrow> u32 \<Rightarrow> bool \<Rightarrow> wait_round list \<Rightarrow> errno option option" where
  "wait_seqno seqno interruptible wait_forever reported irq_get ws =
     (if i915_seqno_passed reported seqno then Some None
      else if \<not> irq_get then Some (Some ENODEV)
      else case wait_rounds seqno interruptible wait_forever ws of
             None \<Rightarrow> None
           | Some Completed \<Rightarrow> Some None
           | Some (Failed e) \<Rightarrow> Some (Some e)
           | Some Timed_out \<Rightarrow> Some (Some ETIMEDOUT))"

text \<open>Everything a wait of an ioctl meets: the wedged flags at the start, the emission of a lazy
  request, the wait itself, and the number the ring reports when it retires.\<close>

record wait_env =
  we_wedged :: bool
  we_recovered :: bool
  we_interruptible :: bool
  we_emission :: emission
  we_reported :: u32
  we_irq_get :: bool
  we_rounds :: "wait_round list"
  we_retire :: u32

definition i915_gem_check_olr :: "emission \<Rightarrow> nat \<Rightarrow> u32 \<Rightarrow> gem \<Rightarrow> (errno option \<times> gem) outcome" where
  "i915_gem_check_olr em r seqno g =
     (if seqno = rg_olr (gm_rings g r) then i915_add_request em r g else Ok (None, g))"

definition i915_wait_seqno ::
    "wait_env \<Rightarrow> nat \<Rightarrow> u32 \<Rightarrow> gem \<Rightarrow> (errno option \<times> gem) option outcome" where
  "i915_wait_seqno e r seqno g =
     (if seqno = 0 then Bug
      else case i915_gem_check_wedge (we_wedged e) (we_recovered e) (we_interruptible e) of
        Some err \<Rightarrow> Ok (Some (Some err, g))
      | None \<Rightarrow> bind_outcome (i915_gem_check_olr (we_emission e) r seqno g) (\<lambda>(ret, g).
          if ret \<noteq> None then Ok (Some (ret, g))
          else Ok (map_option (\<lambda>ret. (ret, g))
                 (wait_seqno seqno (we_interruptible e) True (we_reported e) (we_irq_get e) (we_rounds e)))))"

text \<open>The ring of the object is \<open>None\<close> only for an object without a number to wait for; the code would
  follow a null pointer.\<close>

definition i915_gem_object_wait_rendering ::
    "wait_env \<Rightarrow> nat \<Rightarrow> bool \<Rightarrow> gem \<Rightarrow> (errno option \<times> gem) option outcome" where
  "i915_gem_object_wait_rendering e ob readonly g =
    (let b = gm_objs g ob; seqno = (if readonly then go_last_write b else go_last_read b)
     in if seqno = 0 then Ok (Some (None, g))
        else case go_ring b of
          None \<Rightarrow> Bug
        | Some r \<Rightarrow> bind_outcome (i915_wait_seqno e r seqno g) (\<lambda>res.
            case res of
              None \<Rightarrow> Ok None
            | Some (Some err, g) \<Rightarrow> Ok (Some (Some err, g))
            | Some (None, g) \<Rightarrow>
                bind_outcome (i915_gem_retire_requests_ring (we_retire e) r g) (\<lambda>g. let b = gm_objs g ob
                  in Ok (Some (None,
                       if go_last_write b \<noteq> 0 \<and> i915_seqno_passed seqno (go_last_write b)
                       then upd_obj ob (\<lambda>b. b\<lparr>go_last_write := 0,
                              go_write_domain := go_write_domain b AND NOT I915_GEM_GPU_DOMAINS\<rparr>) g
                       else g)))))"

end
