(* ===== verification/I915_Gem_Proofs.thy ===== *)
theory I915_Gem_Proofs
  imports I915_Gem
begin

text \<open>
  The invariant of the objects on the GPU.  The age of a sequence number is its distance below the
  next one to be given out; within half the range of the counter the comparison
  \<open>i915_seqno_passed\<close> is the comparison of the ages, also across the wrap.
\<close>

unbundle bit_operations_syntax

section \<open>Ages\<close>

definition age :: "gem \<Rightarrow> u32 \<Rightarrow> nat" where
  "age g s = unat (gm_next_seqno g - s)"

lemma top_bit_int: "0 \<le> (x :: int) \<Longrightarrow> x < 2 ^ 32 \<Longrightarrow> odd (x div 2 ^ 31) \<longleftrightarrow> \<not> x < 2 ^ 31"
proof (cases "x < 2 ^ 31")
  case False
  assume "0 \<le> x" "x < 2 ^ 32"
  with False have "x div 2 ^ 31 = 1" by (intro div_pos_geq [THEN trans]) (auto simp: div_pos_pos_trivial)
  with False show ?thesis by simp
qed (simp add: div_pos_pos_trivial)

lemma sint_nonneg: "0 \<le> sint (w :: u32) \<longleftrightarrow> unat w < 2 ^ 31"
proof -
  have "bit w 31 \<longleftrightarrow> odd (uint w div 2 ^ 31)" using bit_uint_iff [of w 31] bit_iff_odd [of "uint w" 31] by simp
  also have "\<dots> \<longleftrightarrow> \<not> uint w < 2 ^ 31" using uint_lt2p [of w] by (intro top_bit_int) simp_all
  also have "uint w < 2 ^ 31 \<longleftrightarrow> unat w < 2 ^ 31" 
    using of_nat_less_iff [where 'a = int, of "unat w" "2 ^ 31"] by (simp only: uint_nat) simp
  finally have "bit w 31 \<longleftrightarrow> \<not> unat w < 2 ^ 31" .
  moreover have "bit w 31 \<longleftrightarrow> sint w < 0" using bit_last_iff [of w] by simp
  ultimately show ?thesis by linarith
qed

lemma passed_age:
  assumes "age g h < 2 ^ 31" and "age g s < 2 ^ 31"
  shows "i915_seqno_passed h s \<longleftrightarrow> age g h \<le> age g s"
proof -
  define S where "S = gm_next_seqno g - s"
  define H where "H = gm_next_seqno g - h"
  have hs: "h - s = S - H" by (simp add: S_def H_def)
  have "unat (S - H) = (if unat H \<le> unat S then unat S - unat H else unat S + 2 ^ 32 - unat H)"
    using unat_sub_if_size [of S H] by (simp add: word_size)
  with assms show ?thesis
    unfolding age_def S_def [symmetric] H_def [symmetric] i915_seqno_passed_def hs sint_nonneg
    by (simp split: if_splits)
qed

lemma age_zero: "age g s = 0 \<longleftrightarrow> s = gm_next_seqno g"
  by (auto simp: age_def unat_eq_zero)

section \<open>The invariant\<close>

definition gpu_only :: "u32 \<Rightarrow> bool" where "gpu_only w \<longleftrightarrow> w AND NOT I915_GEM_GPU_DOMAINS = 0"
definition in_gpu :: "u32 \<Rightarrow> bool" where "in_gpu w \<longleftrightarrow> w AND I915_GEM_GPU_DOMAINS \<noteq> 0"

text \<open>A number that was given out, and not too long ago.\<close>

definition young :: "gem \<Rightarrow> u32 \<Rightarrow> bool" where
  "young g s \<longleftrightarrow> s \<noteq> 0 \<and> 0 < age g s \<and> age g s < 2 ^ 31"

text \<open>An object: active exactly while a batch that reads it was not retired; a GPU write domain has the
  number of the write.\<close>

definition obj_ok :: "gem \<Rightarrow> gem_obj \<Rightarrow> bool" where
  "obj_ok g b \<longleftrightarrow>
     (if go_active b then go_ring b \<noteq> None \<and> young g (go_last_read b) \<and> gpu_only (go_write_domain b)
      else go_ring b = None \<and> go_last_read b = 0 \<and> go_last_write b = 0)
   \<and> (go_last_write b \<noteq> 0 \<longrightarrow> young g (go_last_write b))
   \<and> (in_gpu (go_write_domain b) \<longrightarrow> go_last_write b \<noteq> 0)"

text \<open>A ring: its list holds exactly its active objects, the oldest first, and the requests are in
  the order of their numbers, the lazy one youngest.\<close>

definition ring_ok :: "gem \<Rightarrow> nat \<Rightarrow> bool" where
  "ring_ok g r \<longleftrightarrow>
     distinct (rg_active (gm_rings g r))
   \<and> (\<forall>ob. ob \<in> set (rg_active (gm_rings g r)) \<longleftrightarrow> go_active (gm_objs g ob) \<and> go_ring (gm_objs g ob) = Some r)
   \<and> sorted_wrt (\<lambda>a b. age g (go_last_read (gm_objs g b)) \<le> age g (go_last_read (gm_objs g a))) (rg_active (gm_rings g r))
   \<and> sorted_wrt (\<lambda>p q. age g (rq_seqno q) < age g (rq_seqno p)) (rg_requests (gm_rings g r))
   \<and> (\<forall>q \<in> set (rg_requests (gm_rings g r)). young g (rq_seqno q))
   \<and> (rg_olr (gm_rings g r) \<noteq> 0 \<longrightarrow> young g (rg_olr (gm_rings g r))
        \<and> (\<forall>ob \<in> set (rg_active (gm_rings g r)). age g (rg_olr (gm_rings g r)) \<le> age g (go_last_read (gm_objs g ob)))
        \<and> (\<forall>q \<in> set (rg_requests (gm_rings g r)). age g (rg_olr (gm_rings g r)) < age g (rq_seqno q)))"

text \<open>Every active object waits for a request, or for the lazy one.\<close>

definition covered :: "gem \<Rightarrow> nat \<Rightarrow> bool" where
  "covered g r \<longleftrightarrow> (\<forall>ob \<in> set (rg_active (gm_rings g r)).
     go_last_read (gm_objs g ob) = rg_olr (gm_rings g r)
     \<or> (\<exists>q \<in> set (rg_requests (gm_rings g r)). rq_seqno q = go_last_read (gm_objs g ob)))"

definition lists_ok :: "gem \<Rightarrow> bool" where
  "lists_ok g \<longleftrightarrow> distinct (gm_active g) \<and> distinct (gm_inactive g)
     \<and> (\<forall>ob. ob \<in> set (gm_active g) \<longleftrightarrow> go_active (gm_objs g ob))
     \<and> set (gm_active g) \<inter> set (gm_inactive g) = {}"

definition gem_wf :: "gem \<Rightarrow> bool" where
  "gem_wf g \<longleftrightarrow> lists_ok g \<and> (\<forall>ob. obj_ok g (gm_objs g ob)) \<and> (\<forall>r. ring_ok g r)"

definition gem_inv :: "gem \<Rightarrow> bool" where
  "gem_inv g \<longleftrightarrow> gem_wf g \<and> (\<forall>r. covered g r)"

lemma age_eq: "gm_next_seqno g' = gm_next_seqno g \<Longrightarrow> age g' = age g"
  by (rule ext) (simp add: age_def)

lemma obj_ok_eq: "gm_next_seqno g' = gm_next_seqno g \<Longrightarrow> obj_ok g' = obj_ok g"
proof -
  assume "gm_next_seqno g' = gm_next_seqno g"
  from age_eq [OF this] show "obj_ok g' = obj_ok g"
    unfolding obj_ok_def [abs_def] young_def by simp
qed

lemma gpu_domain_zero [simp]: "gpu_only 0" "\<not> in_gpu 0"
  by (simp_all add: gpu_only_def in_gpu_def)

section \<open>Becoming inactive\<close>

definition retired_obj :: "gem_obj \<Rightarrow> gem_obj" where
  "retired_obj b = b\<lparr>go_ring := None, go_last_read := 0, go_last_write := 0, go_write_domain := 0,
     go_last_fenced := 0, go_fenced_gpu := False, go_active := False\<rparr>"

lemma retired_obj_ok [simp]: "obj_ok g (retired_obj b)"
  by (simp add: retired_obj_def obj_ok_def)

definition made_inactive :: "nat \<Rightarrow> gem \<Rightarrow> gem" where
  "made_inactive ob g = g\<lparr>gm_active := remove1 ob (gm_active g), gm_inactive := remove1 ob (gm_inactive g) @ [ob],
     gm_rings := (\<lambda>r. (gm_rings g r)\<lparr>rg_active := remove1 ob (rg_active (gm_rings g r))\<rparr>),
     gm_objs := (gm_objs g)(ob := retired_obj (gm_objs g ob))\<rparr>"

lemma made_inactive_sel [simp]:
  "gm_active (made_inactive ob g) = remove1 ob (gm_active g)"
  "gm_inactive (made_inactive ob g) = remove1 ob (gm_inactive g) @ [ob]"
  "gm_rings (made_inactive ob g) r = (gm_rings g r)\<lparr>rg_active := remove1 ob (rg_active (gm_rings g r))\<rparr>"
  "gm_objs (made_inactive ob g) = (gm_objs g)(ob := retired_obj (gm_objs g ob))"
  "gm_next_seqno (made_inactive ob g) = gm_next_seqno g"
  "gm_ring_ids (made_inactive ob g) = gm_ring_ids g"
  by (simp_all add: made_inactive_def)

lemma remove1_filter: "distinct xs \<Longrightarrow> remove1 a xs = filter (\<lambda>x. x \<noteq> a) xs"
  by (induction xs) (auto intro: filter_True [symmetric])

lemma sorted_wrt_sub: "sorted_wrt P xs \<Longrightarrow> sorted_wrt P (filter Q xs)"
  by (induction xs) auto

lemma move_to_inactive_Ok:
  assumes "gem_wf g" and "go_active (gm_objs g ob)"
  shows "i915_gem_object_move_to_inactive ob g = Ok (made_inactive ob g)"
proof -
  have "gpu_only (go_write_domain (gm_objs g ob))"
    using assms by (auto simp: gem_wf_def obj_ok_def)
  then show ?thesis
    using assms(2)
    by (simp add: i915_gem_object_move_to_inactive_def gpu_only_def Let_def del_mm_list_def del_ring_list_def
        upd_obj_def made_inactive_def retired_obj_def)
qed

lemma made_inactive_ring:
  assumes "ring_ok g r" and "go_active (gm_objs g ob)"
  shows "ring_ok (made_inactive ob g) r"
proof -
  let ?A = "rg_active (gm_rings g r)"
  have d: "distinct ?A" using assms(1) by (simp add: ring_ok_def)
  have r: "remove1 ob ?A = filter (\<lambda>x. x \<noteq> ob) ?A" using d by (rule remove1_filter)
  have a: "age (made_inactive ob g) = age g" by (rule age_eq) simp
  have s: "sorted_wrt (\<lambda>a b. age g (go_last_read (gm_objs (made_inactive ob g) b))
       \<le> age g (go_last_read (gm_objs (made_inactive ob g) a))) (filter (\<lambda>x. x \<noteq> ob) ?A)"
    by (rule sorted_wrt_mono_rel [OF _ sorted_wrt_sub]) (use assms(1) in \<open>auto simp: ring_ok_def\<close>)
  show ?thesis
    using assms d s unfolding ring_ok_def
    by (auto simp: a young_def r retired_obj_def)
qed

lemma made_inactive_wf:
  assumes "gem_wf g" and "go_active (gm_objs g ob)"
  shows "gem_wf (made_inactive ob g)"
proof -
  have o: "obj_ok (made_inactive ob g) = obj_ok g" by (rule obj_ok_eq) simp
  have "lists_ok (made_inactive ob g)"
    using assms by (auto simp: gem_wf_def lists_ok_def retired_obj_def)
  then show ?thesis
    using assms made_inactive_ring by (auto simp: gem_wf_def o)
qed

section \<open>Retiring\<close>

lemma wf_ringD:
  assumes "gem_wf g"
  shows "distinct (rg_active (gm_rings g r))"
    and "ob \<in> set (rg_active (gm_rings g r)) \<longleftrightarrow> go_active (gm_objs g ob) \<and> go_ring (gm_objs g ob) = Some r"
    and "sorted_wrt (\<lambda>a b. age g (go_last_read (gm_objs g b)) \<le> age g (go_last_read (gm_objs g a))) (rg_active (gm_rings g r))"
    and "sorted_wrt (\<lambda>p q. age g (rq_seqno q) < age g (rq_seqno p)) (rg_requests (gm_rings g r))"
    and "q \<in> set (rg_requests (gm_rings g r)) \<Longrightarrow> young g (rq_seqno q)"
    and "rg_olr (gm_rings g r) \<noteq> 0 \<Longrightarrow> young g (rg_olr (gm_rings g r))"
  using assms by (auto simp: gem_wf_def ring_ok_def)

lemma wf_objD:
  assumes "gem_wf g"
  shows "go_active (gm_objs g ob) \<Longrightarrow> young g (go_last_read (gm_objs g ob))"
    and "\<not> go_active (gm_objs g ob) \<Longrightarrow> go_ring (gm_objs g ob) = None \<and> go_last_read (gm_objs g ob) = 0
           \<and> go_last_write (gm_objs g ob) = 0"
    and "go_active (gm_objs g ob) \<Longrightarrow> gpu_only (go_write_domain (gm_objs g ob))"
    and "go_last_write (gm_objs g ob) \<noteq> 0 \<Longrightarrow> young g (go_last_write (gm_objs g ob))"
    and "in_gpu (go_write_domain (gm_objs g ob)) \<Longrightarrow> go_last_write (gm_objs g ob) \<noteq> 0"
proof -
  have "obj_ok g (gm_objs g ob)" using assms by (simp add: gem_wf_def)
  then show "go_active (gm_objs g ob) \<Longrightarrow> young g (go_last_read (gm_objs g ob))"
    "\<not> go_active (gm_objs g ob) \<Longrightarrow> go_ring (gm_objs g ob) = None \<and> go_last_read (gm_objs g ob) = 0
           \<and> go_last_write (gm_objs g ob) = 0"
    "go_active (gm_objs g ob) \<Longrightarrow> gpu_only (go_write_domain (gm_objs g ob))"
    "go_last_write (gm_objs g ob) \<noteq> 0 \<Longrightarrow> young g (go_last_write (gm_objs g ob))"
    "in_gpu (go_write_domain (gm_objs g ob)) \<Longrightarrow> go_last_write (gm_objs g ob) \<noteq> 0"
    by (auto simp: obj_ok_def split: if_splits)
qed

definition passed_obj :: "u32 \<Rightarrow> gem \<Rightarrow> nat \<Rightarrow> bool" where
  "passed_obj hw g ob \<longleftrightarrow> i915_seqno_passed hw (go_last_read (gm_objs g ob))"

lemma passed_younger:
  assumes "age g h < 2 ^ 31" "young g s" "young g t" "age g t \<le> age g s" "i915_seqno_passed h t"
  shows "i915_seqno_passed h s"
  using assms passed_age [of g h s] passed_age [of g h t] by (auto simp: young_def)

text \<open>What the loop over the active objects leaves.\<close>

lemma retire_active:
  assumes "gem_wf g" and "rg_active (gm_rings g r) = obs" and "age g hw < 2 ^ 31"
  shows "\<exists>g'. retire_active_list hw obs g = Ok g' \<and> gem_wf g'
     \<and> gm_objs g' = (\<lambda>ob. if ob \<in> set obs \<and> passed_obj hw g ob then retired_obj (gm_objs g ob) else gm_objs g ob)
     \<and> gm_rings g' = (gm_rings g)(r := (gm_rings g r)\<lparr>rg_active := filter (\<lambda>ob. \<not> passed_obj hw g ob) obs\<rparr>)
     \<and> gm_next_seqno g' = gm_next_seqno g \<and> gm_ring_ids g' = gm_ring_ids g"
  using assms
proof (induction obs arbitrary: g)
  case Nil
  then show ?case by (intro exI [of _ g]) (auto intro!: ext)
next
  case (Cons ob obs)
  have mem: "x \<in> set (ob # obs) \<longleftrightarrow> go_active (gm_objs g x) \<and> go_ring (gm_objs g x) = Some r" for x
    using wf_ringD(2) [OF Cons.prems(1), of x r] Cons.prems(2) by simp
  have dist: "ob \<notin> set obs" using wf_ringD(1) [OF Cons.prems(1), of r] Cons.prems(2) by simp
  have act: "go_active (gm_objs g ob)" using mem [of ob] by simp
  show ?case
  proof (cases "passed_obj hw g ob")
    case False
    have "\<not> passed_obj hw g x" if x: "x \<in> set obs" for x
    proof
      assume p: "passed_obj hw g x"
      have "age g (go_last_read (gm_objs g x)) \<le> age g (go_last_read (gm_objs g ob))"
        using wf_ringD(3) [OF Cons.prems(1), of r] Cons.prems(2) x by simp
      moreover have "go_active (gm_objs g x)" using mem [of x] x by simp
      ultimately have "passed_obj hw g ob"
        using passed_younger [OF Cons.prems(3)] wf_objD(1) [OF Cons.prems(1)] act p
        unfolding passed_obj_def by blast
      with False show False ..
    qed
    with False have "\<forall>x \<in> set (ob # obs). \<not> passed_obj hw g x" by simp
    then have "filter (\<lambda>ob. \<not> passed_obj hw g ob) (ob # obs) = ob # obs" by simp
    moreover have "retire_active_list hw (ob # obs) g = Ok g" using False by (simp add: passed_obj_def)
    ultimately show ?thesis
      using Cons.prems \<open>\<forall>x \<in> set (ob # obs). \<not> passed_obj hw g x\<close>
      by (intro exI [of _ g]) (auto intro!: ext)
  next
    case True
    let ?g = "made_inactive ob g"
    have a: "age ?g = age g" by (rule age_eq) simp
    have step: "retire_active_list hw (ob # obs) g = retire_active_list hw obs ?g"
      using True move_to_inactive_Ok [OF Cons.prems(1) act] by (simp add: passed_obj_def)
    have other: "gm_rings ?g r' = gm_rings g r'" if "r' \<noteq> r" for r'
    proof -
      have "ob \<notin> set (rg_active (gm_rings g r'))"
        using wf_ringD(2) [OF Cons.prems(1), of ob r'] mem [of ob] that by auto
      then show ?thesis by (simp add: remove1_idem)
    qed
    have same: "passed_obj hw ?g x = passed_obj hw g x" if "x \<in> set obs" for x
      using dist that by (auto simp: passed_obj_def)
    have "rg_active (gm_rings ?g r) = obs" using Cons.prems(2) by simp
    from Cons.IH [OF made_inactive_wf [OF Cons.prems(1) act] this, unfolded a, OF Cons.prems(3)]
    obtain g' where g': "retire_active_list hw obs ?g = Ok g'" "gem_wf g'"
      "gm_objs g' = (\<lambda>x. if x \<in> set obs \<and> passed_obj hw ?g x then retired_obj (gm_objs ?g x) else gm_objs ?g x)"
      "gm_rings g' = (gm_rings ?g)(r := (gm_rings ?g r)\<lparr>rg_active := filter (\<lambda>x. \<not> passed_obj hw ?g x) obs\<rparr>)"
      "gm_next_seqno g' = gm_next_seqno ?g" "gm_ring_ids g' = gm_ring_ids ?g" by blast
    have "gm_objs g' = (\<lambda>x. if x \<in> set (ob # obs) \<and> passed_obj hw g x then retired_obj (gm_objs g x) else gm_objs g x)"
      using g'(3) same dist True by (auto intro!: ext)
    moreover have "filter (\<lambda>x. \<not> passed_obj hw ?g x) obs = filter (\<lambda>x. \<not> passed_obj hw g x) (ob # obs)"
      using same True by (auto intro: filter_cong)
    then have "gm_rings g' = (gm_rings g)(r := (gm_rings g r)\<lparr>rg_active := filter (\<lambda>x. \<not> passed_obj hw g x) (ob # obs)\<rparr>)"
      using g'(4) other by (auto intro!: ext)
    ultimately show ?thesis using step g' by auto
  qed
qed

lemma retire_request_list_eq:
  assumes "sorted_wrt (\<lambda>p q. age g (rq_seqno q) < age g (rq_seqno p)) qs" "\<forall>q \<in> set qs. young g (rq_seqno q)"
    "age g hw < 2 ^ 31"
  shows "fst (retire_request_list hw qs head) = filter (\<lambda>q. \<not> i915_seqno_passed hw (rq_seqno q)) qs"
  using assms(1,2)
proof (induction qs arbitrary: head)
  case (Cons q qs)
  show ?case
  proof (cases "i915_seqno_passed hw (rq_seqno q)")
    case False
    have "\<not> i915_seqno_passed hw (rq_seqno p)" if "p \<in> set qs" for p
      using passed_younger [OF assms(3), of "rq_seqno q" "rq_seqno p"] Cons.prems that False
      by (auto intro: less_imp_le)
    then show ?thesis using False by (auto intro: filter_True [symmetric])
  qed (use Cons in simp)
qed simp

lemma upd_ring_sel [simp]:
  "gm_objs (upd_ring r f g) = gm_objs g" "gm_active (upd_ring r f g) = gm_active g"
  "gm_inactive (upd_ring r f g) = gm_inactive g" "gm_next_seqno (upd_ring r f g) = gm_next_seqno g"
  "gm_ring_ids (upd_ring r f g) = gm_ring_ids g"
  "gm_rings (upd_ring r f g) = (gm_rings g)(r := f (gm_rings g r))"
  by (simp_all add: upd_ring_def)

lemma upd_obj_sel [simp]:
  "gm_rings (upd_obj ob f g) = gm_rings g" "gm_active (upd_obj ob f g) = gm_active g"
  "gm_inactive (upd_obj ob f g) = gm_inactive g" "gm_next_seqno (upd_obj ob f g) = gm_next_seqno g"
  "gm_ring_ids (upd_obj ob f g) = gm_ring_ids g"
  "gm_objs (upd_obj ob f g) = (gm_objs g)(ob := f (gm_objs g ob))"
  by (simp_all add: upd_obj_def)

text \<open>Changing the requests of a ring, within the order.\<close>

lemma upd_requests_wf:
  assumes wf: "gem_wf g"
    and "sorted_wrt (\<lambda>p q. age g (rq_seqno q) < age g (rq_seqno p)) qs" "\<forall>q \<in> set qs. young g (rq_seqno q)"
    and "olr \<noteq> 0 \<Longrightarrow> young g olr \<and> (\<forall>ob \<in> set (rg_active (gm_rings g r)). age g olr \<le> age g (go_last_read (gm_objs g ob)))
           \<and> (\<forall>q \<in> set qs. age g olr < age g (rq_seqno q))"
  shows "gem_wf (upd_ring r (\<lambda>R. R\<lparr>rg_requests := qs, rg_olr := olr, rg_last_retired_head := h\<rparr>) g)"
proof -
  let ?g = "upd_ring r (\<lambda>R. R\<lparr>rg_requests := qs, rg_olr := olr, rg_last_retired_head := h\<rparr>) g"
  have a: "age ?g = age g" by (rule age_eq) simp
  have o: "obj_ok ?g = obj_ok g" by (rule obj_ok_eq) simp
  have "ring_ok g r'" for r' using wf by (simp add: gem_wf_def)
  then have "ring_ok ?g r'" for r'
    using assms(2-4) unfolding ring_ok_def a young_def by (cases "r' = r") simp_all
  then show ?thesis using wf by (simp add: gem_wf_def o lists_ok_def)
qed

lemma retire_ring_exact:
  assumes inv: "gem_inv g" and hw: "age g hw < 2 ^ 31"
    and lazy: "rg_olr (gm_rings g r) \<noteq> 0 \<Longrightarrow> \<not> i915_seqno_passed hw (rg_olr (gm_rings g r))"
  shows "\<exists>g'. i915_gem_retire_requests_ring hw r g = Ok g' \<and> gem_inv g'
     \<and> gm_objs g' = (\<lambda>ob. if go_ring (gm_objs g ob) = Some r \<and> passed_obj hw g ob
                        then retired_obj (gm_objs g ob) else gm_objs g ob)
     \<and> gm_next_seqno g' = gm_next_seqno g \<and> gm_ring_ids g' = gm_ring_ids g
     \<and> (\<forall>r'. rg_olr (gm_rings g' r') = rg_olr (gm_rings g r')
            \<and> rg_sync_seqno (gm_rings g' r') = rg_sync_seqno (gm_rings g r')
            \<and> set (rg_requests (gm_rings g' r')) \<subseteq> set (rg_requests (gm_rings g r')))"
proof -
  have wf: "gem_wf g" and cov: "\<And>r. covered g r" using inv by (auto simp: gem_inv_def)
  let ?R = "gm_rings g r"
  have ring: "go_ring (gm_objs g ob) = Some r \<longleftrightarrow> ob \<in> set (rg_active ?R)" for ob
    using wf_ringD(2) [OF wf, of ob r] wf_objD(2) [OF wf, of ob] by auto
  have read: "go_last_read (gm_objs g ob) \<noteq> 0" if "ob \<in> set (rg_active ?R)" for ob
    using that wf_ringD(2) [OF wf, of ob r] wf_objD(1) [OF wf, of ob] by (auto simp: young_def)
  show ?thesis
  proof (cases "rg_requests ?R = []")
    case True
    have "\<not> passed_obj hw g ob" if "ob \<in> set (rg_active ?R)" for ob
      using cov [of r] read [OF that] that True lazy by (auto simp: covered_def passed_obj_def)
    then show ?thesis
      using True inv by (intro exI [of _ g]) (auto simp: i915_gem_retire_requests_ring_def ring intro!: ext)
  next
    case False
    obtain qs h where q: "retire_request_list hw (rg_requests ?R) (rg_last_retired_head ?R) = (qs, h)" by fastforce
    have qs: "qs = filter (\<lambda>q. \<not> i915_seqno_passed hw (rq_seqno q)) (rg_requests ?R)"
      using retire_request_list_eq [OF wf_ringD(4) [OF wf] _ hw, of r "rg_last_retired_head ?R"]
        wf_ringD(5) [OF wf, of _ r] q by simp
    let ?g = "upd_ring r (\<lambda>R. R\<lparr>rg_requests := qs, rg_last_retired_head := h\<rparr>) g"
    have same: "?g = upd_ring r (\<lambda>R. R\<lparr>rg_requests := qs, rg_olr := rg_olr ?R, rg_last_retired_head := h\<rparr>) g"
      by (simp add: upd_ring_def)
    have "ring_ok g r" using wf by (simp add: gem_wf_def)
    then have wf': "gem_wf ?g"
      unfolding same by (intro upd_requests_wf [OF wf]) (auto simp: qs sorted_wrt_sub ring_ok_def)
    have a: "age ?g = age g" by (rule age_eq) simp
    have p: "passed_obj hw ?g = passed_obj hw g" by (rule ext) (simp add: passed_obj_def)
    have "rg_active (gm_rings ?g r) = rg_active ?R" by simp
    from retire_active [OF wf' this, unfolded a, OF hw]
    obtain g' where g': "retire_active_list hw (rg_active ?R) ?g = Ok g'" "gem_wf g'"
      "gm_objs g' = (\<lambda>ob. if ob \<in> set (rg_active ?R) \<and> passed_obj hw g ob then retired_obj (gm_objs g ob) else gm_objs g ob)"
      "gm_rings g' = (gm_rings ?g)(r := (gm_rings ?g r)\<lparr>rg_active := filter (\<lambda>ob. \<not> passed_obj hw g ob) (rg_active ?R)\<rparr>)"
      "gm_next_seqno g' = gm_next_seqno g" "gm_ring_ids g' = gm_ring_ids g"
      unfolding p upd_ring_sel by auto
    have "i915_gem_retire_requests_ring hw r g = Ok g'"
      using False g'(1) q by (simp add: i915_gem_retire_requests_ring_def)
    moreover have "covered g' r'" for r'
    proof (cases "r' = r")
      case True
      then show ?thesis
        using cov [of r] unfolding covered_def g'(3,4) qs passed_obj_def by simp metis
    next
      case ne: False
      have "ob \<notin> set (rg_active ?R)" if "ob \<in> set (rg_active (gm_rings g r'))" for ob
        using that wf_ringD(2) [OF wf, of ob r'] wf_ringD(2) [OF wf, of ob r] ne by auto
      then show ?thesis
        using cov [of r'] ne by (auto simp: covered_def g'(3,4))
    qed
    ultimately show ?thesis
      using g' by (intro exI [of _ g']) (auto simp: gem_inv_def ring qs)
  qed
qed


section \<open>Becoming active\<close>

definition lazy_ok :: "gem \<Rightarrow> nat \<Rightarrow> bool" where
  "lazy_ok g r \<longleftrightarrow> rg_olr (gm_rings g r) \<noteq> 0"

text \<open>The object after a batch that uses it was built on ring \<open>r\<close>.\<close>

definition batch_obj :: "u32 \<Rightarrow> nat \<Rightarrow> gem_obj \<Rightarrow> gem_obj" where
  "batch_obj olr r b = b\<lparr>go_read_domains := go_pending_read b, go_write_domain := go_pending_write b,
     go_fenced_gpu := go_pending_fenced_gpu b, go_ring := Some r, go_active := True, go_last_read := olr,
     go_last_fenced := if go_pending_fenced_gpu b then olr else go_last_fenced b,
     go_dirty := go_dirty b \<or> go_pending_write b \<noteq> 0,
     go_last_write := if go_pending_write b \<noteq> 0 then olr else go_last_write b\<rparr>"

definition in_batch :: "nat \<Rightarrow> nat \<Rightarrow> gem \<Rightarrow> gem" where
  "in_batch ob r g = g\<lparr>gm_inactive := remove1 ob (gm_inactive g), gm_active := remove1 ob (gm_active g) @ [ob],
     gm_rings := (\<lambda>r'. (gm_rings g r')\<lparr>rg_active := remove1 ob (rg_active (gm_rings g r')) @ (if r' = r then [ob] else [])\<rparr>),
     gm_objs := (gm_objs g)(ob := batch_obj (rg_olr (gm_rings g r)) r (gm_objs g ob))\<rparr>"

lemma move_to_active_step:
  assumes "rg_olr (gm_rings g r) \<noteq> 0"
  shows "i915_gem_execbuffer_move_to_active (ob # obs) r g = i915_gem_execbuffer_move_to_active obs r (in_batch ob r g)"
proof -
  have R: "(\<lambda>r'. (gm_rings g r')\<lparr>rg_active := remove1 ob (rg_active (gm_rings g r'))\<rparr>)
        (r := (gm_rings g r)\<lparr>rg_active := remove1 ob (rg_active (gm_rings g r)) @ [ob]\<rparr>)
     = (\<lambda>r'. (gm_rings g r')\<lparr>rg_active := remove1 ob (rg_active (gm_rings g r')) @ (if r' = r then [ob] else [])\<rparr>)"
    by (auto intro!: ext)
  show ?thesis
    using assms
    by (simp add: i915_gem_object_move_to_active_def intel_ring_get_seqno_def Let_def upd_obj_def upd_ring_def
        del_mm_list_def del_ring_list_def in_batch_def batch_obj_def R split del: if_split cong: if_cong)
       (auto intro!: arg_cong [where f = "i915_gem_execbuffer_move_to_active obs r"] gem.equality gem_obj.equality ext)
qed

lemma in_batch_sel [simp]:
  "gm_objs (in_batch ob r g) = (gm_objs g)(ob := batch_obj (rg_olr (gm_rings g r)) r (gm_objs g ob))"
  "rg_active (gm_rings (in_batch ob r g) r') = remove1 ob (rg_active (gm_rings g r')) @ (if r' = r then [ob] else [])"
  "rg_requests (gm_rings (in_batch ob r g) r') = rg_requests (gm_rings g r')"
  "rg_olr (gm_rings (in_batch ob r g) r') = rg_olr (gm_rings g r')"
  "gm_active (in_batch ob r g) = remove1 ob (gm_active g) @ [ob]"
  "gm_inactive (in_batch ob r g) = remove1 ob (gm_inactive g)"
  "gm_next_seqno (in_batch ob r g) = gm_next_seqno g"
  "gm_ring_ids (in_batch ob r g) = gm_ring_ids g"
  by (simp_all add: in_batch_def)

lemma sorted_wrt_append1: "sorted_wrt P xs \<Longrightarrow> \<forall>x \<in> set xs. P x a \<Longrightarrow> sorted_wrt P (xs @ [a])"
  by (simp add: sorted_wrt_append)

lemma in_batch_inv:
  assumes inv: "gem_inv g" and olr: "rg_olr (gm_rings g r) \<noteq> 0"
    and pend: "gpu_only (go_pending_write (gm_objs g ob))"
  shows "gem_inv (in_batch ob r g)"
proof -
  have wf: "gem_wf g" and cov: "\<And>r. covered g r" using inv by (auto simp: gem_inv_def)
  let ?g = "in_batch ob r g" and ?olr = "rg_olr (gm_rings g r)"
  have a: "age ?g = age g" by (rule age_eq) simp
  have o: "obj_ok ?g = obj_ok g" by (rule obj_ok_eq) simp
  have y: "young g ?olr" using wf_ringD(6) [OF wf olr] .
  have "obj_ok g (batch_obj ?olr r (gm_objs g ob))"
    using y pend olr wf_objD(4,5) [OF wf, of ob] by (auto simp: obj_ok_def batch_obj_def in_gpu_def)
  then have obj: "\<forall>x. obj_ok ?g (gm_objs ?g x)" using wf by (simp add: o gem_wf_def)
  have lists: "lists_ok ?g"
    using wf by (auto simp: gem_wf_def lists_ok_def batch_obj_def)
  have ring: "ring_ok ?g r'" for r'
  proof -
    let ?A = "rg_active (gm_rings g r')"
    have k: "ring_ok g r'" using wf by (simp add: gem_wf_def)
    have d: "distinct ?A" using k by (simp add: ring_ok_def)
    have f: "remove1 ob ?A = filter (\<lambda>x. x \<noteq> ob) ?A" using d by (rule remove1_filter)
    have s: "sorted_wrt (\<lambda>x z. age g (go_last_read (gm_objs ?g z)) \<le> age g (go_last_read (gm_objs ?g x)))
        (filter (\<lambda>x. x \<noteq> ob) ?A)"
      by (rule sorted_wrt_mono_rel [OF _ sorted_wrt_sub]) (use k in \<open>auto simp: ring_ok_def\<close>)
    have s': "sorted_wrt (\<lambda>x z. age g (go_last_read (gm_objs ?g z)) \<le> age g (go_last_read (gm_objs ?g x)))
        (filter (\<lambda>x. x \<noteq> ob) ?A @ (if r' = r then [ob] else []))"
    proof (cases "r' = r")
      case True
      then have "\<forall>x \<in> set (filter (\<lambda>x. x \<noteq> ob) ?A). age g (go_last_read (gm_objs ?g ob)) \<le> age g (go_last_read (gm_objs ?g x))"
        using k olr by (simp add: ring_ok_def batch_obj_def)
      from sorted_wrt_append1 [OF s this] True show ?thesis by simp
    qed (use s in simp)
    have mem: "x \<in> set (rg_active (gm_rings ?g r')) \<longleftrightarrow>
        go_active (gm_objs ?g x) \<and> go_ring (gm_objs ?g x) = Some r'" for x
      using wf_ringD(2) [OF wf, of x r'] d by (auto simp: batch_obj_def)
    have low: "rg_olr (gm_rings g r') \<noteq> 0 \<Longrightarrow> x \<in> set (rg_active (gm_rings ?g r')) \<Longrightarrow>
        age g (rg_olr (gm_rings g r')) \<le> age g (go_last_read (gm_objs ?g x))" for x
      using k d by (auto simp: ring_ok_def batch_obj_def split: if_splits)
    show ?thesis
      using k d s' mem low unfolding ring_ok_def a young_def by (simp add: f)
  qed
  have "covered ?g r'" for r'
  proof -
    have d: "distinct (rg_active (gm_rings g r'))" by (rule wf_ringD(1) [OF wf])
    show ?thesis using cov [of r'] d by (auto simp: covered_def batch_obj_def)
  qed
  with obj lists ring show ?thesis by (auto simp: gem_inv_def gem_wf_def)
qed

lemma move_to_active_inv:
  assumes "gem_inv g" and "rg_olr (gm_rings g r) \<noteq> 0" and "\<forall>ob \<in> set obs. gpu_only (go_pending_write (gm_objs g ob))"
  shows "\<exists>g'. i915_gem_execbuffer_move_to_active obs r g = Ok g' \<and> gem_inv g'
     \<and> (\<forall>r'. rg_olr (gm_rings g' r') = rg_olr (gm_rings g r') \<and> rg_requests (gm_rings g' r') = rg_requests (gm_rings g r'))
     \<and> gm_next_seqno g' = gm_next_seqno g \<and> gm_ring_ids g' = gm_ring_ids g
     \<and> (\<forall>ob. if ob \<in> set obs then go_active (gm_objs g' ob) \<and> go_ring (gm_objs g' ob) = Some r
              \<and> go_last_read (gm_objs g' ob) = rg_olr (gm_rings g r)
            else gm_objs g' ob = gm_objs g ob)"
  using assms
proof (induction obs arbitrary: g)
  case (Cons ob obs)
  let ?g = "in_batch ob r g"
  have p: "\<forall>x \<in> set obs. gpu_only (go_pending_write (gm_objs ?g x))"
    using Cons.prems(3) by (auto simp: batch_obj_def)
  have inv: "gem_inv ?g" using Cons.prems by (intro in_batch_inv) auto
  from Cons.IH [OF inv _ p] Cons.prems(2)
  obtain g' where g': "i915_gem_execbuffer_move_to_active obs r ?g = Ok g'" "gem_inv g'"
     "\<forall>r'. rg_olr (gm_rings g' r') = rg_olr (gm_rings g r') \<and> rg_requests (gm_rings g' r') = rg_requests (gm_rings g r')"
     "gm_next_seqno g' = gm_next_seqno g" "gm_ring_ids g' = gm_ring_ids g"
     "\<forall>x. if x \<in> set obs then go_active (gm_objs g' x) \<and> go_ring (gm_objs g' x) = Some r
              \<and> go_last_read (gm_objs g' x) = rg_olr (gm_rings g r)
            else gm_objs g' x = gm_objs ?g x" by auto
  have b: "go_active (gm_objs ?g ob) \<and> go_ring (gm_objs ?g ob) = Some r
      \<and> go_last_read (gm_objs ?g ob) = rg_olr (gm_rings g r)" by (simp add: batch_obj_def)
  have "if x \<in> set (ob # obs) then go_active (gm_objs g' x) \<and> go_ring (gm_objs g' x) = Some r
              \<and> go_last_read (gm_objs g' x) = rg_olr (gm_rings g r)
            else gm_objs g' x = gm_objs g x" for x
    using g'(6) [rule_format, of x] b by (cases "x \<in> set obs"; cases "x = ob") simp_all
  then show ?case
    using move_to_active_step [OF Cons.prems(2), of ob obs] g'(1-5) by (intro exI [of _ g']) simp
qed auto

section \<open>New numbers\<close>

text \<open>The numbers in use are more than \<open>k\<close> steps away from half the range.\<close>

definition room :: "gem \<Rightarrow> nat \<Rightarrow> bool" where
  "room g k \<longleftrightarrow>
     (\<forall>ob. (go_last_read (gm_objs g ob) \<noteq> 0 \<longrightarrow> age g (go_last_read (gm_objs g ob)) + k < 2 ^ 31)
         \<and> (go_last_write (gm_objs g ob) \<noteq> 0 \<longrightarrow> age g (go_last_write (gm_objs g ob)) + k < 2 ^ 31))
   \<and> (\<forall>r. (rg_olr (gm_rings g r) \<noteq> 0 \<longrightarrow> age g (rg_olr (gm_rings g r)) + k < 2 ^ 31)
         \<and> (\<forall>q \<in> set (rg_requests (gm_rings g r)). age g (rq_seqno q) + k < 2 ^ 31))"

lemma room_mono: "room g k \<Longrightarrow> j \<le> k \<Longrightarrow> room g j"
proof -
  assume r: "room g k" and j: "j \<le> k"
  have "age g s + k < 2 ^ 31 \<Longrightarrow> age g s + j < 2 ^ 31" for s using j by linarith
  with r show "room g j" unfolding room_def by blast
qed

definition advance :: "nat \<Rightarrow> gem \<Rightarrow> gem" where
  "advance k g = g\<lparr>gm_next_seqno := gm_next_seqno g + of_nat k\<rparr>"

lemma advance_sel [simp]:
  "gm_objs (advance k g) = gm_objs g" "gm_rings (advance k g) = gm_rings g" "gm_active (advance k g) = gm_active g"
  "gm_inactive (advance k g) = gm_inactive g" "gm_ring_ids (advance k g) = gm_ring_ids g"
  "gm_next_seqno (advance k g) = gm_next_seqno g + of_nat k"
  by (simp_all add: advance_def)

lemma age_advance: "age g s + k < 2 ^ 31 \<Longrightarrow> age (advance k g) s = age g s + k"
proof -
  assume k: "age g s + k < 2 ^ 31"
  then have u: "unat (of_nat k :: u32) = k" by (simp add: unat_of_nat)
  have c: "gm_next_seqno g + of_nat k - s = (gm_next_seqno g - s) + of_nat k" by simp
  have "unat ((gm_next_seqno g - s) + of_nat k) = unat (gm_next_seqno g - s) + unat (of_nat k :: u32)"
    using k u by (intro unat_add_lem [THEN iffD1]) (simp add: age_def)
  then show ?thesis unfolding age_def advance_sel c u .
qed

lemma advance_inv:
  assumes inv: "gem_inv g" and room: "room g k"
  shows "gem_inv (advance k g)"
proof -
  let ?g = "advance k g"
  have wf: "gem_wf g" and cov: "\<And>r. covered g r" using inv by (auto simp: gem_inv_def)
  have y: "young ?g s" if "young g s" "age g s + k < 2 ^ 31" for s
    using that age_advance [OF that(2)] by (simp add: young_def)
  have obj: "obj_ok ?g (gm_objs g ob)" for ob
  proof -
    have "obj_ok g (gm_objs g ob)" using wf by (simp add: gem_wf_def)
    moreover have "go_last_read (gm_objs g ob) \<noteq> 0 \<Longrightarrow> age g (go_last_read (gm_objs g ob)) + k < 2 ^ 31"
      "go_last_write (gm_objs g ob) \<noteq> 0 \<Longrightarrow> age g (go_last_write (gm_objs g ob)) + k < 2 ^ 31"
      using room by (simp_all add: room_def)
    ultimately show ?thesis using y by (auto simp: obj_ok_def young_def split: if_splits)
  qed
  have ring: "ring_ok ?g r" for r
  proof -
    let ?A = "rg_active (gm_rings g r)" and ?Q = "rg_requests (gm_rings g r)" and ?L = "rg_olr (gm_rings g r)"
    have k: "ring_ok g r" using wf by (simp add: gem_wf_def)
    have ra: "age ?g (go_last_read (gm_objs g ob)) = age g (go_last_read (gm_objs g ob)) + k" if "ob \<in> set ?A" for ob
      using that wf_ringD(2) [OF wf, of ob r] wf_objD(1) [OF wf, of ob] room
      by (intro age_advance) (auto simp: room_def young_def)
    have rq: "age ?g (rq_seqno q) = age g (rq_seqno q) + k" "age g (rq_seqno q) + k < 2 ^ 31" if "q \<in> set ?Q" for q
      using that room by (auto intro!: age_advance simp: room_def)
    have rl: "age ?g ?L = age g ?L + k" "age g ?L + k < 2 ^ 31" if "?L \<noteq> 0"
      using that room by (auto intro!: age_advance simp: room_def)
    have "sorted_wrt (\<lambda>a b. age ?g (go_last_read (gm_objs g b)) \<le> age ?g (go_last_read (gm_objs g a))) ?A"
      by (rule sorted_wrt_mono_rel [of ?A, rotated]) (use k ra in \<open>auto simp: ring_ok_def\<close>)
    moreover have "sorted_wrt (\<lambda>p q. age ?g (rq_seqno q) < age ?g (rq_seqno p)) ?Q"
      by (rule sorted_wrt_mono_rel [of ?Q, rotated]) (use k rq in \<open>auto simp: ring_ok_def\<close>)
    moreover have "\<forall>q \<in> set ?Q. young ?g (rq_seqno q)" using k y rq(2) by (simp add: ring_ok_def)
    moreover have "?L \<noteq> 0 \<Longrightarrow> young ?g ?L \<and> (\<forall>ob \<in> set ?A. age ?g ?L \<le> age ?g (go_last_read (gm_objs g ob)))
        \<and> (\<forall>q \<in> set ?Q. age ?g ?L < age ?g (rq_seqno q))"
      using k y rl ra rq by (simp add: ring_ok_def)
    ultimately show ?thesis using k by (simp add: ring_ok_def)
  qed
  have "covered ?g r" for r using cov [of r] by (simp add: covered_def)
  then show ?thesis using obj ring wf by (simp add: gem_inv_def gem_wf_def lists_ok_def)
qed

text \<open>A fresh number becomes the lazy number of its ring.\<close>

lemma set_olr_inv:
  assumes inv: "gem_inv g" and z: "rg_olr (gm_rings g r) = 0" and s: "young g s" "age g s = 1"
    and old: "\<And>ob. go_last_read (gm_objs g ob) \<noteq> 0 \<Longrightarrow> 2 \<le> age g (go_last_read (gm_objs g ob))"
      "\<And>q. q \<in> set (rg_requests (gm_rings g r)) \<Longrightarrow> 2 \<le> age g (rq_seqno q)"
  shows "gem_inv (upd_ring r (\<lambda>R. R\<lparr>rg_olr := s\<rparr>) g)"
proof -
  have wf: "gem_wf g" and cov: "\<And>r. covered g r" using inv by (auto simp: gem_inv_def)
  let ?R = "gm_rings g r" and ?g = "upd_ring r (\<lambda>R. R\<lparr>rg_olr := s\<rparr>) g"
  have same: "?g = upd_ring r (\<lambda>R. R\<lparr>rg_requests := rg_requests ?R, rg_olr := s,
      rg_last_retired_head := rg_last_retired_head ?R\<rparr>) g"
    by (simp add: upd_ring_def)
  have k: "ring_ok g r" using wf by (simp add: gem_wf_def)
  have nz: "go_last_read (gm_objs g ob) \<noteq> 0" if "ob \<in> set (rg_active (gm_rings g r'))" for ob r'
    using that wf_ringD(2) [OF wf, of ob r'] wf_objD(1) [OF wf, of ob] by (auto simp: young_def)
  have "age g s \<le> age g (go_last_read (gm_objs g ob))" if "ob \<in> set (rg_active ?R)" for ob
    using old(1) [OF nz [OF that]] s(2) by simp
  moreover have "age g s < age g (rq_seqno q)" if "q \<in> set (rg_requests ?R)" for q
    using old(2) [OF that] s(2) by simp
  ultimately have "gem_wf ?g"
    unfolding same using k s(1) by (intro upd_requests_wf [OF wf]) (simp_all add: ring_ok_def)
  moreover have "covered ?g r'" for r'
    using cov [of r'] nz [of _ r'] z by (auto simp: covered_def)
  ultimately show ?thesis by (simp add: gem_inv_def)
qed

text \<open>What the invariant depends on.\<close>

lemma gem_inv_cong:
  assumes "gm_objs g' = gm_objs g" "gm_active g' = gm_active g" "gm_inactive g' = gm_inactive g"
    "gm_next_seqno g' = gm_next_seqno g"
    "\<And>r. rg_active (gm_rings g' r) = rg_active (gm_rings g r)"
    "\<And>r. rg_requests (gm_rings g' r) = rg_requests (gm_rings g r)"
    "\<And>r. rg_olr (gm_rings g' r) = rg_olr (gm_rings g r)"
  shows "gem_inv g' = gem_inv g" and "room g' = room g"
proof -
  have a: "age g' = age g" by (rule age_eq [OF assms(4)])
  have o: "obj_ok g' = obj_ok g" by (rule obj_ok_eq [OF assms(4)])
  have y: "young g' = young g" by (rule ext) (simp add: young_def a)
  show "gem_inv g' = gem_inv g"
    by (simp add: gem_inv_def gem_wf_def lists_ok_def ring_ok_def covered_def o a y assms)
  show "room g' = room g" by (rule ext) (simp add: room_def a assms)
qed

lemma room_sub:
  assumes "room g k" "gm_next_seqno g' = gm_next_seqno g"
    "\<And>ob. gm_objs g' ob = gm_objs g ob \<or> gm_objs g' ob = retired_obj (gm_objs g ob)"
    "\<And>r. rg_olr (gm_rings g' r) = rg_olr (gm_rings g r)"
    "\<And>r. set (rg_requests (gm_rings g' r)) \<subseteq> set (rg_requests (gm_rings g r))"
  shows "room g' k"
proof -
  have a: "age g' = age g" by (rule age_eq [OF assms(2)])
  have "(go_last_read (gm_objs g' ob) \<noteq> 0 \<longrightarrow> age g (go_last_read (gm_objs g' ob)) + k < 2 ^ 31)
      \<and> (go_last_write (gm_objs g' ob) \<noteq> 0 \<longrightarrow> age g (go_last_write (gm_objs g' ob)) + k < 2 ^ 31)" for ob
    using assms(3) [of ob] assms(1) by (auto simp: room_def retired_obj_def)
  moreover have "age g (rq_seqno q) + k < 2 ^ 31" if "q \<in> set (rg_requests (gm_rings g' r))" for q r
    using subsetD [OF assms(5) that] assms(1) by (simp add: room_def)
  ultimately show ?thesis using assms(1,4) by (simp add: room_def a)
qed

text \<open>The contract of idling the GPU at the wrap of the counter: the invariant, room, nothing lazy left,
  and hardware numbers that were given out.\<close>

definition wrap_ok :: "wrap_env \<Rightarrow> bool" where
  "wrap_ok we \<longleftrightarrow> (\<forall>g. gem_inv g \<longrightarrow>
     gem_inv (snd (fst we g)) \<and> gm_next_seqno (snd (fst we g)) = gm_next_seqno g
   \<and> (\<forall>r. rg_olr (gm_rings (snd (fst we g)) r) = rg_olr (gm_rings g r) \<or> rg_olr (gm_rings (snd (fst we g)) r) = 0)
   \<and> (fst (fst we g) = None \<longrightarrow> room (snd (fst we g)) 2 \<and> (\<forall>r. rg_olr (gm_rings (snd (fst we g)) r) = 0)
        \<and> (\<forall>r. age (snd (fst we g)) (snd we r) < 2 ^ 31)))"

lemma retire_rings_inv:
  assumes "gem_inv g" "room g k" "\<forall>r. rg_olr (gm_rings g r) = 0" "\<forall>r. age g (hw r) < 2 ^ 31"
  shows "\<exists>g'. retire_rings hw rs g = Ok g' \<and> gem_inv g' \<and> room g' k \<and> (\<forall>r. rg_olr (gm_rings g' r) = 0)
     \<and> gm_next_seqno g' = gm_next_seqno g"
  using assms
proof (induction rs arbitrary: g)
  case (Cons r rs)
  from retire_ring_exact [OF Cons.prems(1) Cons.prems(4) [rule_format, of r]] Cons.prems(3)
  obtain g1 where g1: "i915_gem_retire_requests_ring (hw r) r g = Ok g1" "gem_inv g1"
     "gm_objs g1 = (\<lambda>ob. if go_ring (gm_objs g ob) = Some r \<and> passed_obj (hw r) g ob
                        then retired_obj (gm_objs g ob) else gm_objs g ob)"
     "gm_next_seqno g1 = gm_next_seqno g"
     "\<And>r'. rg_olr (gm_rings g1 r') = rg_olr (gm_rings g r')"
     "\<And>r'. set (rg_requests (gm_rings g1 r')) \<subseteq> set (rg_requests (gm_rings g r'))" by metis
  have "room g1 k" by (rule room_sub [OF Cons.prems(2) g1(4)]) (use g1 in auto)
  moreover have "age g1 = age g" by (rule age_eq [OF g1(4)])
  ultimately show ?case
    using Cons.IH [of g1] g1 Cons.prems(3,4) by simp
qed simp

lemma wrap_inv:
  assumes inv: "gem_inv g" and room: "room g 2" and we: "wrap_ok we"
  shows "\<exists>ret g'. i915_gem_handle_seqno_wrap (fst we) (snd we) g = Ok (ret, g') \<and> gem_inv g'
     \<and> gm_next_seqno g' = gm_next_seqno g \<and> (ret = None \<longrightarrow> room g' 2)
     \<and> (\<forall>r. rg_olr (gm_rings g' r) = rg_olr (gm_rings g r) \<or> rg_olr (gm_rings g' r) = 0)"
proof (cases "\<forall>r \<in> set (gm_ring_ids g). \<forall>s \<in> set (rg_sync_seqno (gm_rings g r)). s = 0")
  case True
  then have "i915_gem_handle_seqno_wrap (fst we) (snd we) g = Ok (None, g)"
    unfolding i915_gem_handle_seqno_wrap_def by (rule if_P)
  then show ?thesis using inv room by blast
next
  case False
  obtain ret g1 where i: "fst we g = (ret, g1)" by fastforce
  note c = we [unfolded wrap_ok_def, rule_format, OF inv, unfolded i fst_conv snd_conv]
  show ?thesis
  proof (cases ret)
    case (Some e)
    then have "i915_gem_handle_seqno_wrap (fst we) (snd we) g = Ok (Some e, g1)"
      unfolding i915_gem_handle_seqno_wrap_def if_not_P [OF False] by (simp only: i prod.case option.case)
    then show ?thesis using c by blast
  next
    case None
    obtain g2 where g2: "i915_gem_retire_requests (snd we) g1 = Ok g2" "gem_inv g2" "room g2 2"
      "\<forall>r. rg_olr (gm_rings g2 r) = 0" "gm_next_seqno g2 = gm_next_seqno g1"
      using retire_rings_inv [of g1 2 "snd we" "gm_ring_ids g1"] c None
      by (auto simp: i915_gem_retire_requests_def)
    let ?g3 = "g2\<lparr>gm_rings := (\<lambda>r. if r \<in> set (gm_ring_ids g2)
               then (gm_rings g2 r)\<lparr>rg_sync_seqno := map (\<lambda>_. 0) (rg_sync_seqno (gm_rings g2 r))\<rparr>
               else gm_rings g2 r)\<rparr>"
    have "i915_gem_handle_seqno_wrap (fst we) (snd we) g = Ok (None, ?g3)"
      unfolding i915_gem_handle_seqno_wrap_def if_not_P [OF False]
      using None by (simp only: i prod.case option.case g2(1) bind_outcome.simps)
    moreover have "gem_inv ?g3 = gem_inv g2" "room ?g3 = room g2" by (rule gem_inv_cong; simp)+
    ultimately show ?thesis using g2 c by (intro exI [of _ None] exI [of _ ?g3]) auto
  qed
qed

lemma get_seqno_inv:
  assumes inv: "gem_inv g" and room: "room g 2" and we: "wrap_ok we"
  shows "\<exists>res g'. i915_gem_get_seqno (fst we) (snd we) g = Ok (res, g') \<and> gem_inv g'
     \<and> (\<forall>r. rg_olr (gm_rings g' r) = rg_olr (gm_rings g r) \<or> rg_olr (gm_rings g' r) = 0)
     \<and> (\<forall>s. res = Inr s \<longrightarrow> young g' s \<and> age g' s = 1
          \<and> (\<forall>ob. go_last_read (gm_objs g' ob) \<noteq> 0 \<longrightarrow> 2 \<le> age g' (go_last_read (gm_objs g' ob)))
          \<and> (\<forall>r. \<forall>q \<in> set (rg_requests (gm_rings g' r)). 2 \<le> age g' (rq_seqno q)))"
proof -
  have old: "go_last_read (gm_objs g ob) \<noteq> 0 \<Longrightarrow> 1 \<le> age g (go_last_read (gm_objs g ob))"
      "q \<in> set (rg_requests (gm_rings g r)) \<Longrightarrow> 1 \<le> age g (rq_seqno q)" if "gem_inv g" for g ob q r
    using that wf_objD(1,2) [of g ob] wf_ringD(5) [of g q r]
    by (auto simp: gem_inv_def young_def Suc_le_eq)
  have adv: "go_last_read (gm_objs g ob) \<noteq> 0 \<Longrightarrow> 2 \<le> age (advance k g) (go_last_read (gm_objs g ob))"
      "q \<in> set (rg_requests (gm_rings g r)) \<Longrightarrow> 2 \<le> age (advance k g) (rq_seqno q)"
    if "gem_inv g" "room g k" "1 \<le> k" for g k ob q r
  proof -
    show "2 \<le> age (advance k g) (go_last_read (gm_objs g ob))" if a: "go_last_read (gm_objs g ob) \<noteq> 0"
      using old(1) [OF \<open>gem_inv g\<close> a] \<open>1 \<le> k\<close> \<open>room g k\<close> a by (simp add: age_advance room_def)
    show "2 \<le> age (advance k g) (rq_seqno q)" if a: "q \<in> set (rg_requests (gm_rings g r))"
      using old(2) [OF \<open>gem_inv g\<close> a] \<open>1 \<le> k\<close> \<open>room g k\<close> a by (simp add: age_advance room_def)
  qed
  show ?thesis
  proof (cases "gm_next_seqno g = 0")
    case False
    have r1: "room g 1" by (rule room_mono [OF room]) simp
    let ?g = "advance 1 g"
    have "i915_gem_get_seqno (fst we) (snd we) g = Ok (Inr (gm_next_seqno g), ?g)"
      using False by (simp add: i915_gem_get_seqno_def advance_def)
    moreover have "gem_inv ?g" by (rule advance_inv [OF inv r1])
    moreover have "age ?g (gm_next_seqno g) = 1" by (simp add: age_def)
    ultimately show ?thesis
      using False adv [OF inv r1] by (intro exI [of _ "Inr (gm_next_seqno g)"] exI [of _ ?g]) (auto simp: young_def)
  next
    case True
    obtain ret g1 where w: "i915_gem_handle_seqno_wrap (fst we) (snd we) g = Ok (ret, g1)" "gem_inv g1"
       "gm_next_seqno g1 = 0" "ret = None \<longrightarrow> room g1 2"
       "\<forall>r. rg_olr (gm_rings g1 r) = rg_olr (gm_rings g r) \<or> rg_olr (gm_rings g1 r) = 0"
      using wrap_inv [OF assms] True by auto
    show ?thesis
    proof (cases ret)
      case (Some e)
      then have "i915_gem_get_seqno (fst we) (snd we) g = Ok (Inl e, g1)"
        using True w(1) by (simp add: i915_gem_get_seqno_def)
      then show ?thesis using w by blast
    next
      case None
      let ?g = "advance 2 g1"
      have r: "room g1 2" using w(4) None by simp
      have "i915_gem_get_seqno (fst we) (snd we) g = Ok (Inr 1, ?g)"
        using True w(1,3) None by (simp add: i915_gem_get_seqno_def advance_def)
      moreover have "gem_inv ?g" by (rule advance_inv [OF w(2) r])
      moreover have "age ?g 1 = 1" using w(3) by (simp add: age_def)
      ultimately show ?thesis
        using w(5) adv [OF w(2) r] by (intro exI [of _ "Inr 1"] exI [of _ ?g]) (auto simp: young_def)
    qed
  qed
qed

end
