(* ===== verification/I915_Gem_Steps.thy ===== *)
theory I915_Gem_Steps
  imports I915_Gem_Proofs
begin

text \<open>
  The operations on requests keep the invariant; the step relation of batches, requests, waits
  and retirements.
\<close>

unbundle bit_operations_syntax

section \<open>Requests\<close>

lemma alloc_seqno_inv:
  assumes inv: "gem_inv g" and room: "room g 2" and we: "wrap_ok we"
  shows "\<exists>ret g'. intel_ring_alloc_seqno (fst we) (snd we) r g = Ok (ret, g') \<and> gem_inv g'
     \<and> (ret = None \<longrightarrow> rg_olr (gm_rings g' r) \<noteq> 0)"
proof (cases "rg_olr (gm_rings g r) = 0")
  case True
  obtain res g1 where g1: "i915_gem_get_seqno (fst we) (snd we) g = Ok (res, g1)" "gem_inv g1"
    "rg_olr (gm_rings g1 r) = rg_olr (gm_rings g r) \<or> rg_olr (gm_rings g1 r) = 0"
    "\<And>s. res = Inr s \<Longrightarrow> young g1 s \<and> age g1 s = 1
          \<and> (\<forall>ob. go_last_read (gm_objs g1 ob) \<noteq> 0 \<longrightarrow> 2 \<le> age g1 (go_last_read (gm_objs g1 ob)))
          \<and> (\<forall>r. \<forall>q \<in> set (rg_requests (gm_rings g1 r)). 2 \<le> age g1 (rq_seqno q))"
    using get_seqno_inv [OF assms] by blast
  show ?thesis
  proof (cases res)
    case (Inl e)
    then show ?thesis using True g1 by (simp add: intel_ring_alloc_seqno_def)
  next
    case (Inr s)
    have "gem_inv (upd_ring r (\<lambda>R. R\<lparr>rg_olr := s\<rparr>) g1)"
      using g1(3) g1(4) [OF Inr] True by (intro set_olr_inv [OF g1(2)]) auto
    moreover have "s \<noteq> 0" using g1(4) [OF Inr] by (simp add: young_def)
    ultimately show ?thesis using True g1 Inr by (simp add: intel_ring_alloc_seqno_def)
  qed
qed (use inv in \<open>simp add: intel_ring_alloc_seqno_def\<close>)

lemma ring_emit_inv:
  assumes "gem_inv g" and "room g 2 \<or> rg_olr (gm_rings g r) \<noteq> 0" and "wrap_ok we"
  shows "\<exists>ret g'. ring_emit we res r g = Ok (ret, g') \<and> gem_inv g'
     \<and> (ret = None \<longrightarrow> rg_olr (gm_rings g' r) \<noteq> 0)
     \<and> (fst res \<noteq> None \<or> rg_olr (gm_rings g r) \<noteq> 0 \<longrightarrow> g' = g)"
proof (cases "fst res")
  case (Some e)
  then show ?thesis using assms(1) by (simp add: ring_emit_def)
next
  case None
  show ?thesis
  proof (cases "rg_olr (gm_rings g r) = 0")
    case True
    then have room: "room g 2" using assms(2) by simp
    obtain ret g' where a: "intel_ring_alloc_seqno (fst we) (snd we) r g = Ok (ret, g')" "gem_inv g'"
       "ret = None \<longrightarrow> rg_olr (gm_rings g' r) \<noteq> 0"
      using alloc_seqno_inv [OF assms(1) room assms(3)] by blast
    show ?thesis
    proof (intro exI conjI)
      show "ring_emit we res r g = Ok (if ret = None then snd res else ret, g')"
        using a(1) None by (cases ret) (simp_all add: ring_emit_def)
    qed (use a None True in \<open>auto split: if_splits\<close>)
  next
    case False
    then have "intel_ring_alloc_seqno (fst we) (snd we) r g = Ok (None, g)"
      by (simp add: intel_ring_alloc_seqno_def)
    then show ?thesis using assms(1) None False by (simp add: ring_emit_def)
  qed
qed

lemma set_dirty_inv: "gem_inv (upd_ring r (\<lambda>R. R\<lparr>rg_caches_dirty := d\<rparr>) g) = gem_inv g"
  by (rule gem_inv_cong) simp_all

lemma set_dirty_room: "room (upd_ring r (\<lambda>R. R\<lparr>rg_caches_dirty := d\<rparr>) g) = room g"
  by (rule gem_inv_cong) simp_all

lemma flush_caches_inv:
  assumes "gem_inv g" and "room g 2" and "wrap_ok we"
  shows "\<exists>ret g'. intel_ring_flush_all_caches we res r g = Ok (ret, g') \<and> gem_inv g'
     \<and> (ret = None \<longrightarrow> room g' 2 \<or> rg_olr (gm_rings g' r) \<noteq> 0)"
proof (cases "rg_caches_dirty (gm_rings g r)")
  case True
  obtain ret g1 where g1: "ring_emit we res r g = Ok (ret, g1)" "gem_inv g1"
      "ret = None \<longrightarrow> rg_olr (gm_rings g1 r) \<noteq> 0"
    using ring_emit_inv [OF assms(1) _ assms(3)] assms(2) by blast
  then show ?thesis
    using True by (cases ret) (auto simp: intel_ring_flush_all_caches_def set_dirty_inv)
qed (use assms in \<open>simp add: intel_ring_flush_all_caches_def\<close>)

text \<open>The lazy number becomes a request.\<close>

lemma request_inv:
  assumes inv: "gem_inv g" and l: "rg_olr (gm_rings g r) \<noteq> 0"
  shows "gem_inv (upd_ring r (\<lambda>R. R\<lparr>rg_requests := rg_requests R
                   @ [\<lparr>rq_seqno = rg_olr (gm_rings g r), rq_tail = t\<rparr>], rg_olr := 0\<rparr>) g)"
proof -
  have wf: "gem_wf g" and cov: "\<And>r. covered g r" using inv by (auto simp: gem_inv_def)
  let ?R = "gm_rings g r"
  let ?qs = "rg_requests ?R @ [\<lparr>rq_seqno = rg_olr ?R, rq_tail = t\<rparr>]"
  let ?g = "upd_ring r (\<lambda>R. R\<lparr>rg_requests := rg_requests R @ [\<lparr>rq_seqno = rg_olr ?R, rq_tail = t\<rparr>], rg_olr := 0\<rparr>) g"
  have same: "?g = upd_ring r (\<lambda>R. R\<lparr>rg_requests := ?qs, rg_olr := 0, rg_last_retired_head := rg_last_retired_head ?R\<rparr>) g"
    by (simp add: upd_ring_def)
  have k: "ring_ok g r" using wf by (simp add: gem_wf_def)
  have "gem_wf ?g"
    unfolding same using k l by (intro upd_requests_wf [OF wf]) (auto simp: ring_ok_def sorted_wrt_append)
  moreover have "covered ?g r'" for r'
    using cov [of r'] by (auto simp: covered_def)
  ultimately show ?thesis by (simp add: gem_inv_def)
qed

lemma add_request_inv:
  assumes "gem_inv g" and "room g 2" and "wrap_ok (em_wrap em)"
  shows "\<exists>ret g'. i915_add_request em r g = Ok (ret, g') \<and> gem_inv g'
     \<and> (ret = None \<longrightarrow> rg_olr (gm_rings g' r) = 0)"
proof -
  obtain ret1 g1 where g1: "intel_ring_flush_all_caches (em_wrap em) (em_flush em) r g = Ok (ret1, g1)" "gem_inv g1"
     "ret1 = None \<longrightarrow> room g1 2 \<or> rg_olr (gm_rings g1 r) \<noteq> 0"
    using flush_caches_inv [OF assms] by blast
  show ?thesis
  proof (cases "ret1 = None \<and> em_alloc em")
    case False
    then show ?thesis using g1 by (auto simp: i915_add_request_def)
  next
    case True
    obtain ret2 g2 where g2: "ring_emit (em_wrap em) (em_add em) r g1 = Ok (ret2, g2)" "gem_inv g2"
       "ret2 = None \<longrightarrow> rg_olr (gm_rings g2 r) \<noteq> 0"
      using ring_emit_inv [OF g1(2) _ assms(3)] g1(3) True by blast
    show ?thesis
    proof (cases ret2)
      case (Some e)
      then show ?thesis using True g1 g2 by (simp add: i915_add_request_def Let_def)
    next
      case None
      then have l: "rg_olr (gm_rings g2 r) \<noteq> 0" using g2(3) by simp
      let ?g = "upd_ring r (\<lambda>R. R\<lparr>rg_requests := rg_requests R
           @ [\<lparr>rq_seqno = rg_olr (gm_rings g2 r), rq_tail = Some (rg_tail (gm_rings g1 r))\<rparr>], rg_olr := 0\<rparr>) g2"
      have "i915_add_request em r g = Ok (None, ?g)"
        using True None g1(1) g2(1) l by (simp add: i915_add_request_def intel_ring_get_seqno_def Let_def)
      with request_inv [OF g2(2) l] show ?thesis by (intro exI conjI) (assumption | simp)+
    qed
  qed
qed

section \<open>The operations as steps\<close>

inductive gem_step :: "gem \<Rightarrow> gem \<Rightarrow> bool" where
  step_pending: "gpu_only w \<Longrightarrow> gem_step g (upd_obj ob (\<lambda>b. b\<lparr>go_pending_read := rd, go_pending_write := w,
                   go_pending_fenced_gpu := f\<rparr>) g)"
| step_dirty: "gem_step g (upd_ring r (\<lambda>R. R\<lparr>rg_caches_dirty := d\<rparr>) g)"
| step_alloc: "room g 2 \<Longrightarrow> wrap_ok we \<Longrightarrow> intel_ring_alloc_seqno (fst we) (snd we) r g = Ok (ret, g') \<Longrightarrow> gem_step g g'"
| step_request: "room g 2 \<Longrightarrow> wrap_ok (em_wrap em) \<Longrightarrow> i915_add_request em r g = Ok (ret, g') \<Longrightarrow> gem_step g g'"
| step_batch: "rg_olr (gm_rings g r) \<noteq> 0 \<Longrightarrow> \<forall>ob \<in> set obs. gpu_only (go_pending_write (gm_objs g ob)) \<Longrightarrow>
                 i915_gem_execbuffer_move_to_active obs r g = Ok g' \<Longrightarrow> gem_step g g'"
| step_retire: "age g hw < 2 ^ 31 \<Longrightarrow>
                 (rg_olr (gm_rings g r) \<noteq> 0 \<Longrightarrow> \<not> i915_seqno_passed hw (rg_olr (gm_rings g r))) \<Longrightarrow>
                 i915_gem_retire_requests_ring hw r g = Ok g' \<Longrightarrow> gem_step g g'"

inductive_cases gem_step_cases: "gem_step g g'"

lemma pending_inv:
  assumes "gem_inv g"
  shows "gem_inv (upd_obj ob (\<lambda>b. b\<lparr>go_pending_read := rd, go_pending_write := w, go_pending_fenced_gpu := f\<rparr>) g)"
    (is "gem_inv ?g")
proof -
  have a: "age ?g = age g" by (rule age_eq) simp
  have o: "obj_ok ?g = obj_ok g" by (rule obj_ok_eq) simp
  have s: "go_active (gm_objs ?g x) = go_active (gm_objs g x)" "go_ring (gm_objs ?g x) = go_ring (gm_objs g x)"
    "go_last_read (gm_objs ?g x) = go_last_read (gm_objs g x)" for x by simp_all
  have k: "obj_ok g (gm_objs ?g x) = obj_ok g (gm_objs g x)" for x
    unfolding obj_ok_def by simp
  show ?thesis
    using assms unfolding gem_inv_def gem_wf_def lists_ok_def ring_ok_def covered_def a o k s young_def by simp
qed

lemma gem_step_inv: "gem_step g g' \<Longrightarrow> gem_inv g \<Longrightarrow> gem_inv g'"
proof (induction rule: gem_step.induct)
  case (step_alloc g we r ret g')
  then show ?case using alloc_seqno_inv [of g we r] by auto
next
  case (step_request g em r ret g')
  then show ?case using add_request_inv [of g em r] by auto
next
  case (step_batch g r obs g')
  then show ?case using move_to_active_inv [of g r obs] by auto
next
  case (step_retire g hw r g')
  then show ?case using retire_ring_exact [of g hw r] by auto
qed (simp_all add: pending_inv set_dirty_inv)

lemma gem_steps_inv: "gem_step\<^sup>*\<^sup>* g g' \<Longrightarrow> gem_inv g \<Longrightarrow> gem_inv g'"
  by (induction rule: rtranclp_induct) (auto intro: gem_step_inv)

section \<open>Waiting\<close>

text \<open>A wait without a deadline ends well only after the number was reported, provided a wedged GPU is
  still wedged when the error is looked up.\<close>

lemma wait_rounds_completed:
  "wait_rounds seqno i forever ws = Some Completed \<Longrightarrow>
   \<forall>w \<in> set ws. wo_wedged w \<or> wo_wedged2 w \<longrightarrow> wo_check_wedged w \<Longrightarrow>
   \<exists>w \<in> set ws. i915_seqno_passed (wo_seqno w) seqno \<or> i915_seqno_passed (wo_seqno2 w) seqno"
proof (induction ws)
  case (Cons w ws)
  then show ?case
    by (cases "i915_seqno_passed (wo_seqno w) seqno \<or> i915_seqno_passed (wo_seqno2 w) seqno")
      (auto simp: Let_def i915_gem_check_wedge_def split: if_splits)
qed simp

lemma wait_seqno_success:
  assumes "wait_seqno seqno i forever reported irq ws = Some None"
    and "\<forall>w \<in> set ws. wo_wedged w \<or> wo_wedged2 w \<longrightarrow> wo_check_wedged w"
  shows "i915_seqno_passed reported seqno
     \<or> (\<exists>w \<in> set ws. i915_seqno_passed (wo_seqno w) seqno \<or> i915_seqno_passed (wo_seqno2 w) seqno)"
  using assms wait_rounds_completed [of seqno i forever ws]
  by (auto simp: wait_seqno_def split: if_splits option.splits wait_end.splits)

text \<open>Emitting the lazy request takes no new number, so nothing can wrap while waiting.\<close>

lemma emit_lazy:
  "rg_olr (gm_rings g r) \<noteq> 0 \<Longrightarrow> ring_emit we res r g = Ok (if fst res \<noteq> None then fst res else snd res, g)"
  by (auto simp: ring_emit_def intel_ring_alloc_seqno_def)

lemma check_olr_inv:
  assumes inv: "gem_inv g" and s: "seqno \<noteq> 0"
  shows "\<exists>ret g'. i915_gem_check_olr em r seqno g = Ok (ret, g') \<and> gem_inv g' \<and> gm_objs g' = gm_objs g
     \<and> gm_next_seqno g' = gm_next_seqno g
     \<and> (ret = None \<longrightarrow> rg_olr (gm_rings g' r) = (if rg_olr (gm_rings g r) = seqno then 0 else rg_olr (gm_rings g r)))"
proof (cases "seqno = rg_olr (gm_rings g r)")
  case True
  then have l: "rg_olr (gm_rings g r) \<noteq> 0" using s by simp
  let ?dirty = "\<lambda>g. upd_ring r (\<lambda>R. R\<lparr>rg_caches_dirty := False\<rparr>) g"
  let ?req = "\<lambda>g. upd_ring r (\<lambda>R. R\<lparr>rg_requests := rg_requests R
       @ [\<lparr>rq_seqno = rg_olr (gm_rings g r), rq_tail = Some (rg_tail (gm_rings g r))\<rparr>], rg_olr := 0\<rparr>) g"
  have "\<exists>ret g1. intel_ring_flush_all_caches (em_wrap em) (em_flush em) r g = Ok (ret, g1)
      \<and> (g1 = g \<or> g1 = ?dirty g)"
    by (cases "rg_caches_dirty (gm_rings g r)") (simp_all add: intel_ring_flush_all_caches_def emit_lazy [OF l])
  then obtain ret g1 where f: "intel_ring_flush_all_caches (em_wrap em) (em_flush em) r g = Ok (ret, g1)"
      "g1 = g \<or> g1 = ?dirty g" by blast
  have g1: "gem_inv g1" "gm_objs g1 = gm_objs g" "gm_next_seqno g1 = gm_next_seqno g"
      "rg_olr (gm_rings g1 r) = rg_olr (gm_rings g r)"
    using f(2) inv set_dirty_inv by auto
  then have l1: "rg_olr (gm_rings g1 r) \<noteq> 0" using l by simp
  show ?thesis
  proof (cases "ret = None \<and> em_alloc em \<and> fst (em_add em) = None \<and> snd (em_add em) = None")
    case False
    then have "\<exists>e. i915_gem_check_olr em r seqno g = Ok (Some e, g1)"
      using True f(1) by (cases ret) (auto simp: i915_gem_check_olr_def i915_add_request_def Let_def emit_lazy [OF l1])
    then show ?thesis using g1 by blast
  next
    case ok: True
    then have "i915_gem_check_olr em r seqno g = Ok (None, ?req g1)"
      using True f(1) l1 by (simp add: i915_gem_check_olr_def i915_add_request_def Let_def emit_lazy [OF l1]
          intel_ring_get_seqno_def)
    moreover have "gem_inv (?req g1)" by (rule request_inv [OF g1(1) l1])
    ultimately show ?thesis using g1 True by (intro exI conjI) (assumption | simp)+
  qed
qed (use inv in \<open>simp add: i915_gem_check_olr_def\<close>)

text \<open>Clearing the write of an object whose write has passed.\<close>

lemma write_done_inv:
  assumes "gem_inv g"
  shows "gem_inv (upd_obj ob (\<lambda>b. b\<lparr>go_last_write := 0,
           go_write_domain := go_write_domain b AND NOT I915_GEM_GPU_DOMAINS\<rparr>) g)" (is "gem_inv ?g")
proof -
  have a: "age ?g = age g" by (rule age_eq) simp
  have o: "obj_ok ?g = obj_ok g" by (rule obj_ok_eq) simp
  have s: "go_active (gm_objs ?g x) = go_active (gm_objs g x)" "go_ring (gm_objs ?g x) = go_ring (gm_objs g x)"
    "go_last_read (gm_objs ?g x) = go_last_read (gm_objs g x)" for x by simp_all
  have "\<not> in_gpu (w AND NOT I915_GEM_GPU_DOMAINS)" for w
    by (simp add: in_gpu_def and.assoc)
  then have k: "obj_ok g (gm_objs g x) \<Longrightarrow> obj_ok g (gm_objs ?g x)" for x
    unfolding obj_ok_def by (auto simp: gpu_only_def and.assoc)
  show ?thesis
    using assms k unfolding gem_inv_def gem_wf_def lists_ok_def ring_ok_def covered_def a o s young_def by simp
qed

text \<open>The wait for a number that an object of the ring carries: an error, no end, or the number is
  passed and the objects are as before.\<close>

lemma wait_seqno_inv:
  assumes inv: "gem_inv g" and s: "seqno \<noteq> 0"
    and mono: "\<forall>h \<in> insert (we_reported e) (\<Union>w \<in> set (we_rounds e). {wo_seqno w, wo_seqno2 w}).
                 i915_seqno_passed h seqno \<longrightarrow> i915_seqno_passed (we_retire e) seqno"
    and wedge: "\<forall>w \<in> set (we_rounds e). wo_wedged w \<or> wo_wedged2 w \<longrightarrow> wo_check_wedged w"
  shows "\<exists>res. i915_wait_seqno e r seqno g = Ok res
     \<and> (\<forall>g'. res = Some (None, g') \<longrightarrow> gem_inv g' \<and> gm_objs g' = gm_objs g \<and> gm_next_seqno g' = gm_next_seqno g
          \<and> rg_olr (gm_rings g' r) = (if rg_olr (gm_rings g r) = seqno then 0 else rg_olr (gm_rings g r))
          \<and> i915_seqno_passed (we_retire e) seqno)"
proof (cases "i915_gem_check_wedge (we_wedged e) (we_recovered e) (we_interruptible e)")
  case None
  obtain ret g1 where c: "i915_gem_check_olr (we_emission e) r seqno g = Ok (ret, g1)" "gem_inv g1"
    "gm_objs g1 = gm_objs g" "gm_next_seqno g1 = gm_next_seqno g"
    "ret = None \<longrightarrow> rg_olr (gm_rings g1 r) = (if rg_olr (gm_rings g r) = seqno then 0 else rg_olr (gm_rings g r))"
    using check_olr_inv [OF inv s] by metis
  have "i915_seqno_passed (we_retire e) seqno"
    if "wait_seqno seqno (we_interruptible e) True (we_reported e) (we_irq_get e) (we_rounds e) = Some None"
    using wait_seqno_success [OF that wedge] mono by auto
  then show ?thesis using s None c by (cases ret) (auto simp: i915_wait_seqno_def)
qed (use s in \<open>simp add: i915_wait_seqno_def\<close>)

lemma wait_rendering_done:
  assumes inv: "gem_inv g" and s: "(if readonly then go_last_write (gm_objs g ob) else go_last_read (gm_objs g ob)) = seqno"
      "seqno \<noteq> 0" and r: "go_ring (gm_objs g ob) = Some r"
    and hw: "age g (we_retire e) < 2 ^ 31"
    and lazy: "rg_olr (gm_rings g r) \<noteq> 0 \<Longrightarrow> rg_olr (gm_rings g r) \<noteq> seqno \<Longrightarrow>
                 \<not> i915_seqno_passed (we_retire e) (rg_olr (gm_rings g r))"
    and mono: "\<forall>h \<in> insert (we_reported e) (\<Union>w \<in> set (we_rounds e). {wo_seqno w, wo_seqno2 w}).
                 i915_seqno_passed h seqno \<longrightarrow> i915_seqno_passed (we_retire e) seqno"
    and wedge: "\<forall>w \<in> set (we_rounds e). wo_wedged w \<or> wo_wedged2 w \<longrightarrow> wo_check_wedged w"
  shows "\<exists>res. i915_gem_object_wait_rendering e ob readonly g = Ok res
     \<and> (\<forall>g'. res = Some (None, g') \<longrightarrow> gem_inv g' \<and> \<not> in_gpu (go_write_domain (gm_objs g' ob))
          \<and> i915_seqno_passed (we_retire e) seqno \<and> (\<not> readonly \<longrightarrow> \<not> go_active (gm_objs g' ob)))"
proof -
  from wait_seqno_inv [where r = r, OF inv s(2) mono wedge]
  obtain res where w: "i915_wait_seqno e r seqno g = Ok res" and
    after: "\<forall>g'. res = Some (None, g') \<longrightarrow> gem_inv g' \<and> gm_objs g' = gm_objs g \<and> gm_next_seqno g' = gm_next_seqno g
          \<and> rg_olr (gm_rings g' r) = (if rg_olr (gm_rings g r) = seqno then 0 else rg_olr (gm_rings g r))
          \<and> i915_seqno_passed (we_retire e) seqno"
    by (elim exE conjE) (rule that)
  note eval = i915_gem_object_wait_rendering_def Let_def s(1) r if_not_P [OF s(2)] option.case w bind_outcome.simps
  show ?thesis
  proof (cases "\<exists>g1. res = Some (None, g1)")
    case False
    then have "\<exists>res'. i915_gem_object_wait_rendering e ob readonly g = Ok res' \<and> (\<forall>g'. res' \<noteq> Some (None, g'))"
      unfolding eval by (auto split: option.splits)
    then show ?thesis by metis
  next
    case True
    then obtain g1 where res: "res = Some (None, g1)" by blast
    note g1 = after [rule_format, OF res]
    have a: "age g1 = age g" by (rule age_eq) (use g1 in blast)
    have l: "rg_olr (gm_rings g1 r) \<noteq> 0 \<Longrightarrow> \<not> i915_seqno_passed (we_retire e) (rg_olr (gm_rings g1 r))"
      using g1 lazy by (auto split: if_splits)
    obtain g2 where g2: "i915_gem_retire_requests_ring (we_retire e) r g1 = Ok g2" "gem_inv g2"
      "gm_objs g2 = (\<lambda>x. if go_ring (gm_objs g1 x) = Some r \<and> passed_obj (we_retire e) g1 x
                         then retired_obj (gm_objs g1 x) else gm_objs g1 x)"
      using retire_ring_exact [of g1 "we_retire e" r] g1 hw l unfolding a by blast
    have ob: "gm_objs g2 ob = (if passed_obj (we_retire e) g ob then retired_obj (gm_objs g ob) else gm_objs g ob)"
      using g2(3) g1 r by (simp add: passed_obj_def)
    have same: "i915_seqno_passed seqno seqno" by (simp add: i915_seqno_passed_def)
    let ?done = "upd_obj ob (\<lambda>b. b\<lparr>go_last_write := 0,
                   go_write_domain := go_write_domain b AND NOT I915_GEM_GPU_DOMAINS\<rparr>) g2"
    have nogpu: "\<not> in_gpu (x AND NOT I915_GEM_GPU_DOMAINS)" for x by (simp add: in_gpu_def and.assoc)
    show ?thesis
    proof (cases "passed_obj (we_retire e) g ob")
      case True
      then have "i915_gem_object_wait_rendering e ob readonly g = Ok (Some (None, g2))"
        unfolding eval res prod.case g2(1) ob by (simp add: retired_obj_def)
      then show ?thesis using g2(2) g1 True by (auto simp: ob retired_obj_def)
    next
      case np: False
      then have ro: readonly using g1 s by (auto simp: passed_obj_def split: if_splits)
      have "i915_gem_object_wait_rendering e ob readonly g = Ok (Some (None, ?done))"
        unfolding eval res prod.case g2(1) ob using np ro s same by simp
      then show ?thesis using write_done_inv [OF g2(2), of ob] g1 ro nogpu by auto
    qed
  qed
qed

end
