(* ===== verification/I915_Gem_Claims.thy ===== *)
theory I915_Gem_Claims
  imports I915_Gem_Steps
begin

text \<open>
  The properties of requests, retirement and waiting, with a witness for each, on a GPU with one
  ring and a batch of two objects.
\<close>

unbundle bit_operations_syntax

section \<open>A GPU at work\<close>

definition idle_obj :: gem_obj where
  "idle_obj = \<lparr>go_read_domains = 1, go_write_domain = 0, go_pending_read = 0, go_pending_write = 0,
     go_active = False, go_ring = None, go_last_read = 0, go_last_write = 0, go_last_fenced = 0,
     go_fenced_gpu = False, go_pending_fenced_gpu = False, go_dirty = False, go_bound = True,
     go_has_pages = True, go_cached = False, go_flushed = False\<rparr>"

definition idle_ring :: gem_ring where
  "idle_ring = \<lparr>rg_requests = [], rg_olr = 0, rg_last_retired_head = None, rg_active = [],
     rg_caches_dirty = False, rg_sync_seqno = [0, 0], rg_head = 0, rg_tail = 0,
     rg_space = 131008, rg_size = 131072, rg_effective_size = 131072\<rparr>"

text \<open>The state after loading the driver, with the first number to give out.\<close>

definition gem_start :: "u32 \<Rightarrow> gem" where
  "gem_start n = \<lparr>gm_objs = (\<lambda>_. idle_obj), gm_rings = (\<lambda>_. idle_ring), gm_ring_ids = [0], gm_active = [],
     gm_inactive = [], gm_next_seqno = n, gm_suspended = False\<rparr>"

lemma gem_start_inv: "gem_inv (gem_start n)"
  by (simp add: gem_inv_def gem_wf_def lists_ok_def obj_ok_def ring_ok_def covered_def gem_start_def
      idle_obj_def idle_ring_def)

lemma gem_start_room: "room (gem_start n) 2"
  by (simp add: room_def gem_start_def idle_obj_def idle_ring_def)

definition quiet :: wrap_env where "quiet = ((\<lambda>g. (Some EIO, g)), \<lambda>_. 0)"

lemma quiet_ok: "wrap_ok quiet"
  by (simp add: wrap_ok_def quiet_def)

text \<open>One batch of objects 3 and 4 under number 7, the request still lazy.\<close>

definition one_batch :: gem where
  "one_batch = (case intel_ring_alloc_seqno (fst quiet) (snd quiet) 0 (gem_start 7) of
     Ok (_, g) \<Rightarrow> (case i915_gem_execbuffer_move_to_active [3, 4] 0 g of Ok g \<Rightarrow> g | _ \<Rightarrow> g))"

definition emit_ok :: emission where
  "emit_ok = \<lparr>em_wrap = quiet, em_flush = (None, None), em_alloc = True, em_add = (None, None)\<rparr>"

definition one_request :: gem where
  "one_request = (case i915_add_request emit_ok 0 one_batch of Ok (_, g) \<Rightarrow> g | _ \<Rightarrow> one_batch)"

lemma alloc_7: "intel_ring_alloc_seqno (fst quiet) (snd quiet) 0 (gem_start 7)
    = Ok (None, upd_ring 0 (\<lambda>R. R\<lparr>rg_olr := 7\<rparr>) (advance 1 (gem_start 7)))"
  by (simp add: intel_ring_alloc_seqno_def i915_gem_get_seqno_def gem_start_def idle_ring_def advance_def)

lemma alloc_7_inv: "gem_inv (upd_ring 0 (\<lambda>R. R\<lparr>rg_olr := 7\<rparr>) (advance 1 (gem_start 7)))"
  using alloc_seqno_inv [OF gem_start_inv [of 7] gem_start_room quiet_ok, of 0] unfolding alloc_7 by auto

lemma one_batch_steps: "gem_step\<^sup>*\<^sup>* (gem_start 7) one_batch"
proof -
  let ?g = "upd_ring 0 (\<lambda>R. R\<lparr>rg_olr := 7\<rparr>) (advance 1 (gem_start 7))"
  have p: "\<forall>ob \<in> set [3, 4]. gpu_only (go_pending_write (gm_objs ?g ob))"
    by (simp add: gem_start_def idle_obj_def)
  have l: "rg_olr (gm_rings ?g 0) \<noteq> 0" by simp
  obtain g' where g': "i915_gem_execbuffer_move_to_active [3, 4] 0 ?g = Ok g'"
    using move_to_active_inv [OF alloc_7_inv l p] by blast
  have "gem_step (gem_start 7) ?g" by (rule step_alloc [OF gem_start_room quiet_ok alloc_7])
  moreover have "gem_step ?g g'" by (rule step_batch [OF l p g'])
  moreover have "one_batch = g'" by (simp only: one_batch_def alloc_7 outcome.case prod.case g')
  ultimately show ?thesis by simp
qed


lemma one_batch_case: "one_batch = (case i915_gem_execbuffer_move_to_active [3, 4] 0
      (upd_ring 0 (\<lambda>R. R\<lparr>rg_olr := 7\<rparr>) (advance 1 (gem_start 7))) of
    Ok g \<Rightarrow> g | _ \<Rightarrow> upd_ring 0 (\<lambda>R. R\<lparr>rg_olr := 7\<rparr>) (advance 1 (gem_start 7)))"
  by (simp only: one_batch_def alloc_7 outcome.case prod.case)

lemmas batch_eval = one_batch_case i915_gem_object_move_to_active_def intel_ring_get_seqno_def
  del_mm_list_def del_ring_list_def upd_obj_def upd_ring_def advance_def gem_start_def idle_obj_def
  idle_ring_def Let_def

lemma one_batch_facts:
  "rg_olr (gm_rings one_batch 0) = 7" "gm_next_seqno one_batch = 8" "rg_requests (gm_rings one_batch 0) = []"
  "rg_active (gm_rings one_batch 0) = [3, 4]" "go_last_read (gm_objs one_batch 3) = 7"
  "go_ring (gm_objs one_batch 3) = Some 0" "go_active (gm_objs one_batch 3)"
  "rg_caches_dirty (gm_rings one_batch 0) = False" "rg_tail (gm_rings one_batch 0) = 0"
  by (simp_all add: batch_eval)

lemma one_request_eq:
  "i915_add_request emit_ok 0 one_batch = Ok (None, one_request)"
  "one_request = upd_ring 0 (\<lambda>R. R\<lparr>rg_requests := rg_requests R @ [\<lparr>rq_seqno = 7, rq_tail = Some 0\<rparr>], rg_olr := 0\<rparr>) one_batch"
  by (simp_all add: one_request_def i915_add_request_def intel_ring_flush_all_caches_def emit_ok_def
      one_batch_facts ring_emit_def intel_ring_alloc_seqno_def intel_ring_get_seqno_def Let_def)


section \<open>The invariant\<close>



section \<open>Retiring\<close>

text \<open>C17: When the GPU has reported number hw and the lazy number of the ring is not among the passed
  ones, retiring the ring never panics and is exact: the objects of the ring whose last read is
  passed become inactive with no ring, no number and no write domain, every other object is left
  as it was, no passed request and no passed object is left on the ring, and the invariant holds
  again.\<close>

theorem retire_requests_ring_exact:
  assumes "gem_step\<^sup>*\<^sup>* (gem_start n) g" and "unat (gm_next_seqno g - hw) < 2 ^ 31"
    and "rg_olr (gm_rings g r) \<noteq> 0 \<longrightarrow> \<not> i915_seqno_passed hw (rg_olr (gm_rings g r))"
  shows "\<exists>g'. i915_gem_retire_requests_ring hw r g = Ok g' \<and> gem_step\<^sup>*\<^sup>* (gem_start n) g'
     \<and> (\<forall>ob. gm_objs g' ob =
          (if ob \<in> set (rg_active (gm_rings g r)) \<and> i915_seqno_passed hw (go_last_read (gm_objs g ob))
           then (gm_objs g ob)\<lparr>go_ring := None, go_last_read := 0, go_last_write := 0, go_write_domain := 0,
                  go_last_fenced := 0, go_fenced_gpu := False, go_active := False\<rparr>
           else gm_objs g ob))
     \<and> (\<forall>ob \<in> set (rg_active (gm_rings g' r)). \<not> i915_seqno_passed hw (go_last_read (gm_objs g' ob)))"
proof -
  have inv: "gem_inv g" by (rule gem_steps_inv [OF assms(1) gem_start_inv])
  then have wf: "gem_wf g" by (simp add: gem_inv_def)
  have hw: "age g hw < 2 ^ 31" using assms(2) by (simp add: age_def)
  obtain g' where g': "i915_gem_retire_requests_ring hw r g = Ok g'" "gem_inv g'"
    "gm_objs g' = (\<lambda>ob. if go_ring (gm_objs g ob) = Some r \<and> passed_obj hw g ob
                        then retired_obj (gm_objs g ob) else gm_objs g ob)"
    using retire_ring_exact [OF inv hw] assms(3) by blast
  have ring: "go_ring (gm_objs g ob) = Some r \<longleftrightarrow> ob \<in> set (rg_active (gm_rings g r))" for ob
    using wf_ringD(2) [OF wf, of ob r] wf_objD(2) [OF wf, of ob] by auto
  have "gem_step g g'" by (rule step_retire [OF hw _ g'(1)]) (use assms(3) in blast)
  with assms(1) have step: "gem_step\<^sup>*\<^sup>* (gem_start n) g'" by simp
  have "gem_wf g'" using g'(2) by (simp add: gem_inv_def)
  from wf_ringD(2) [OF this, of _ r]
  have "\<not> i915_seqno_passed hw (go_last_read (gm_objs g' ob))" if "ob \<in> set (rg_active (gm_rings g' r))" for ob
    using that unfolding g'(3) by (auto simp: retired_obj_def passed_obj_def split: if_splits)
  then show ?thesis
    using g'(1) step by (auto simp: g'(3) ring passed_obj_def retired_obj_def)
qed

theorem retire_requests_ring_exact_witness:
  "\<exists>g'. i915_gem_retire_requests_ring 7 0 one_request = Ok g' \<and> \<not> go_active (gm_objs g' 3)"
proof -
  have s: "gem_step one_batch one_request"
    by (rule step_request [OF _ _ one_request_eq(1)])
      (simp_all add: emit_ok_def quiet_ok room_def age_def batch_eval)
  have "gem_step\<^sup>*\<^sup>* (gem_start 7) one_request" using one_batch_steps s by (rule rtranclp.rtrancl_into_rtrancl)
  from retire_requests_ring_exact [OF this, of 7 0] show ?thesis
    by (auto simp: one_request_eq(2) one_batch_facts i915_seqno_passed_def)
qed


section \<open>Waiting\<close>




end
