(* ===== verification/I915_Ring.thy ===== *)
theory I915_Ring
  imports I915_Gem
begin

text \<open>
  The space of a ring buffer, \<^verbatim>\<open>drm/i915/intel_ringbuffer.c\<close>: how room for commands is found, by
  retiring, by waiting for a request, or by watching the head register, and how the tail wraps.
  The requests, the tail positions they carry and the last retired head are those of the theory
  \<open>I915_Gem\<close>.
\<close>

unbundle bit_operations_syntax

definition HEAD_ADDR :: u32 where "HEAD_ADDR = 0x1FFFFC"
definition I915_RING_FREE_SPACE :: u32 where "I915_RING_FREE_SPACE = 64"

section \<open>Space\<close>

definition ring_space :: "gem_ring \<Rightarrow> int" where
  "ring_space R =
     (let space = sint ((rg_head R AND HEAD_ADDR) - (rg_tail R + I915_RING_FREE_SPACE))
      in if space < 0 then space + rg_size R else space)"

text \<open>The ring takes the position of the last retired request for its head.\<close>

definition take_retired_head :: "u32 \<Rightarrow> gem_ring \<Rightarrow> gem_ring" where
  "take_retired_head h R =
     (let R = R\<lparr>rg_head := h, rg_last_retired_head := None\<rparr> in R\<lparr>rg_space := ring_space R\<rparr>)"

definition intel_ring_wait_seqno ::
    "wait_env \<Rightarrow> nat \<Rightarrow> u32 \<Rightarrow> gem \<Rightarrow> (errno option \<times> gem) option outcome" where
  "intel_ring_wait_seqno e r seqno g =
     bind_outcome (i915_wait_seqno e r seqno g) (\<lambda>res. case res of
         None \<Rightarrow> Ok None
       | Some (Some err, g) \<Rightarrow> Ok (Some (Some err, g))
       | Some (None, g) \<Rightarrow> bind_outcome (i915_gem_retire_requests_ring (we_retire e) r g)
                            (\<lambda>g. Ok (Some (None, g))))"

text \<open>The search for the first request whose end leaves enough room; the requests it passes over are
  consumed.  The number 0 says that there is none.\<close>

fun request_for_space :: "int \<Rightarrow> u32 \<Rightarrow> int \<Rightarrow> gem_request list \<Rightarrow> u32 \<times> gem_request list" where
  "request_for_space sz tail n [] = (0, [])"
| "request_for_space sz tail n (q # qs) =
     (case rq_tail q of
        None \<Rightarrow> (case request_for_space sz tail n qs of (seqno, qs') \<Rightarrow> (seqno, q # qs'))
      | Some t \<Rightarrow>
          let space = sint (t - (tail + I915_RING_FREE_SPACE));
              space = (if space < 0 then space + sz else space)
          in if n \<le> space then (rq_seqno q, q # qs)
             else (case request_for_space sz tail n qs of
                     (seqno, qs') \<Rightarrow> (seqno, q\<lparr>rq_tail := None\<rparr> # qs')))"

text \<open>What a wait for space meets: the number reported at the first retirement, the wait for the
  request, and the rounds of the poll up to its deadline: the head register and the wedged flags.\<close>

record poll_round =
  po_head :: u32
  po_wedged :: bool
  po_recovered :: bool
  po_interruptible :: bool

record space_env =
  se_hw :: u32
  se_wait :: wait_env
  se_poll :: "poll_round list"

definition wait_for_request ::
    "space_env \<Rightarrow> nat \<Rightarrow> int \<Rightarrow> gem \<Rightarrow> (errno option \<times> gem) option outcome" where
  "wait_for_request e r n g =
     (case request_for_space (rg_size (gm_rings g r)) (rg_tail (gm_rings g r)) n (rg_requests (gm_rings g r)) of
        (seqno, qs) \<Rightarrow>
          let g = upd_ring r (\<lambda>R. R\<lparr>rg_requests := qs\<rparr>) g
          in if seqno = 0 then Ok (Some (Some ENOSPC, g))
             else bind_outcome (intel_ring_wait_seqno (se_wait e) r seqno g) (\<lambda>res. case res of
                 Some (None, g) \<Rightarrow>
                   (case rg_last_retired_head (gm_rings g r) of
                      None \<Rightarrow> Ok (Some (Some ENOSPC, g))
                    | Some h \<Rightarrow> let g = upd_ring r (take_retired_head h) g
                        in Ok (Some (if rg_space (gm_rings g r) < n then Some ENOSPC else None, g)))
               | _ \<Rightarrow> Ok res))"

definition intel_ring_wait_request ::
    "space_env \<Rightarrow> nat \<Rightarrow> int \<Rightarrow> gem \<Rightarrow> (errno option \<times> gem) option outcome" where
  "intel_ring_wait_request e r n g =
     bind_outcome (i915_gem_retire_requests_ring (se_hw e) r g) (\<lambda>g.
       case rg_last_retired_head (gm_rings g r) of
         None \<Rightarrow> wait_for_request e r n g
       | Some h \<Rightarrow> let g = upd_ring r (take_retired_head h) g
           in if n \<le> rg_space (gm_rings g r) then Ok (Some (None, g)) else wait_for_request e r n g)"

text \<open>The list of rounds is never empty in the code: the loop runs before its deadline is tested.\<close>

fun ring_poll :: "nat \<Rightarrow> int \<Rightarrow> poll_round list \<Rightarrow> gem \<Rightarrow> errno option \<times> gem" where
  "ring_poll r n [] g = (Some EBUSY, g)"
| "ring_poll r n (p # ps) g =
     (let g = upd_ring r (\<lambda>R. let R = R\<lparr>rg_head := po_head p\<rparr> in R\<lparr>rg_space := ring_space R\<rparr>) g
      in if n \<le> rg_space (gm_rings g r) then (None, g)
         else case i915_gem_check_wedge (po_wedged p) (po_recovered p) (po_interruptible p) of
                Some err \<Rightarrow> (Some err, g)
              | None \<Rightarrow> ring_poll r n ps g)"

definition ring_wait_for_space ::
    "space_env \<Rightarrow> nat \<Rightarrow> int \<Rightarrow> gem \<Rightarrow> (errno option \<times> gem) option outcome" where
  "ring_wait_for_space e r n g =
     bind_outcome (intel_ring_wait_request e r n g) (\<lambda>res. case res of
         Some (ret, g) \<Rightarrow> if ret = Some ENOSPC then Ok (Some (ring_poll r n (se_poll e) g)) else Ok res
       | None \<Rightarrow> Ok None)"

section \<open>Reserving\<close>

text \<open>The rest of the buffer is filled with no-operations; the contents are not modelled.\<close>

definition intel_wrap_ring_buffer ::
    "space_env \<Rightarrow> nat \<Rightarrow> gem \<Rightarrow> (errno option \<times> gem) option outcome" where
  "intel_wrap_ring_buffer e r g =
     (let rem = rg_size (gm_rings g r) - uint (rg_tail (gm_rings g r))
      in bind_outcome (if rg_space (gm_rings g r) < rem then ring_wait_for_space e r rem g else Ok (Some (None, g)))
           (\<lambda>res. case res of
              Some (None, g) \<Rightarrow>
                Ok (Some (None, upd_ring r (\<lambda>R. let R = R\<lparr>rg_tail := 0\<rparr> in R\<lparr>rg_space := ring_space R\<rparr>) g))
            | _ \<Rightarrow> Ok res))"

text \<open>\<open>w\<close> holds the wedged flags, \<open>we\<close> is for the number, \<open>e1\<close> and \<open>e2\<close> for the two waits.\<close>

definition intel_ring_begin ::
    "poll_round \<Rightarrow> wrap_env \<Rightarrow> space_env \<Rightarrow> space_env \<Rightarrow> nat \<Rightarrow> int \<Rightarrow> gem \<Rightarrow> (errno option \<times> gem) option outcome" where
  "intel_ring_begin w we e1 e2 r num_dwords g =
     (let n = 4 * num_dwords in
      case i915_gem_check_wedge (po_wedged w) (po_recovered w) (po_interruptible w) of
        Some err \<Rightarrow> Ok (Some (Some err, g))
      | None \<Rightarrow> bind_outcome (intel_ring_alloc_seqno (fst we) (snd we) r g) (\<lambda>(ret, g).
          if ret \<noteq> None then Ok (Some (ret, g))
          else bind_outcome
            (if rg_effective_size (gm_rings g r) < uint (rg_tail (gm_rings g r)) + n
             then intel_wrap_ring_buffer e1 r g else Ok (Some (None, g)))
            (\<lambda>res. case res of
               Some (None, g) \<Rightarrow> bind_outcome
                 (if rg_space (gm_rings g r) < n then ring_wait_for_space e2 r n g else Ok (Some (None, g)))
                 (\<lambda>res. case res of
                    Some (None, g) \<Rightarrow> Ok (Some (None, upd_ring r (\<lambda>R. R\<lparr>rg_space := rg_space R - n\<rparr>) g))
                  | _ \<Rightarrow> Ok res)
             | _ \<Rightarrow> Ok res)))"

definition intel_ring_emit :: "nat \<Rightarrow> gem \<Rightarrow> gem" where
  "intel_ring_emit r = upd_ring r (\<lambda>R. R\<lparr>rg_tail := rg_tail R + 4\<rparr>)"

text \<open>The register write that shows the tail to the GPU is left out.\<close>

definition intel_ring_advance :: "nat \<Rightarrow> gem \<Rightarrow> gem" where
  "intel_ring_advance r = upd_ring r (\<lambda>R. R\<lparr>rg_tail := rg_tail R AND (word_of_int (rg_size R) - 1)\<rparr>)"

definition intel_ring_idle ::
    "emission \<Rightarrow> wait_env \<Rightarrow> nat \<Rightarrow> gem \<Rightarrow> (errno option \<times> gem) option outcome" where
  "intel_ring_idle em e r g =
     bind_outcome (if rg_olr (gm_rings g r) \<noteq> 0 then i915_add_request em r g else Ok (None, g)) (\<lambda>(ret, g).
       if ret \<noteq> None then Ok (Some (ret, g))
       else if rg_requests (gm_rings g r) = [] then Ok (Some (None, g))
       else i915_wait_seqno e r (rq_seqno (last (rg_requests (gm_rings g r)))) g)"

section \<open>Setting up\<close>

text \<open>The sizes, with pages of 4096 bytes, and the positions once the hardware has been started.\<close>

definition ring_sizes :: "bool \<Rightarrow> gem_ring \<Rightarrow> gem_ring" where
  "ring_sizes i830 R = (let R = R\<lparr>rg_size := 32 * 4096\<rparr>; R = R\<lparr>rg_effective_size := rg_size R\<rparr>
     in if i830 then R\<lparr>rg_effective_size := rg_effective_size R - 128\<rparr> else R)"

definition ring_started :: "u32 \<Rightarrow> u32 \<Rightarrow> gem_ring \<Rightarrow> gem_ring" where
  "ring_started head tail R =
     (let R = R\<lparr>rg_head := head, rg_tail := tail AND 0x1FFFF8\<rparr>
      in R\<lparr>rg_space := ring_space R, rg_last_retired_head := None\<rparr>)"

end
