(* ===== verification/I915_Ring_Proofs.thy ===== *)
theory I915_Ring_Proofs
  imports I915_Ring I915_Gem_Steps
begin

text \<open>
  The geometry of a ring buffer.  Positions are measured by their distance behind the tail; the
  invariant says that the cached space is what lies between the tail and the known head, and that
  the recorded positions never run ahead of the head.
\<close>

unbundle bit_operations_syntax

section \<open>Positions\<close>

definition dist :: "gem_ring \<Rightarrow> u32 \<Rightarrow> int" where
  "dist R x = (uint (rg_tail R) - uint x) mod 131072"

definition pos_ok :: "u32 \<Rightarrow> bool" where
  "pos_ok x \<longleftrightarrow> uint x < 131072 \<and> 4 dvd uint x"

lemma dist_bounds: "0 \<le> dist R x" "dist R x < 131072"
  by (simp_all add: dist_def)

lemma dist_cong: "rg_tail R' = rg_tail R \<Longrightarrow> dist R' = dist R"
  by (rule ext) (simp add: dist_def)

lemma sint_small_diff:
  assumes "uint (a :: u32) < 131072" "uint (t :: u32) < 131072"
  shows "sint (a - (t + 64)) = uint a - uint t - 64"
proof -
  have "a - (t + 64) = word_of_int (uint a - uint t - 64)" by (simp add: of_int_diff)
  then have "sint (a - (t + 64)) = signed_take_bit 31 (uint a - uint t - 64)"
    by (simp only: signed_of_int) simp
  also have "\<dots> = uint a - uint t - 64"
    using assms uint_ge_0 [of a] uint_ge_0 [of t] by (intro signed_take_bit_int_eq_self; simp; linarith)
  finally show ?thesis .
qed

text \<open>The computed space, as long as the position is not within the reserve.\<close>

lemma space_value:
  assumes "uint a < 131072" "uint (rg_tail R) < 131072" "dist R a \<le> 131008"
  shows "(let space = sint (a - (rg_tail R + I915_RING_FREE_SPACE)) in if space < 0 then space + 131072 else space)
     = 131008 - dist R a"
proof -
  have v: "sint (a - (rg_tail R + I915_RING_FREE_SPACE)) = uint a - uint (rg_tail R) - 64"
    using sint_small_diff [OF assms(1,2)] by (simp add: I915_RING_FREE_SPACE_def)
  show ?thesis
  proof (cases "uint a \<le> uint (rg_tail R)")
    case True
    then have "dist R a = uint (rg_tail R) - uint a"
      unfolding dist_def using assms(2) uint_ge_0 [of a] by (intro mod_pos_pos_trivial) linarith+
    then show ?thesis using True by (simp add: v Let_def)
  next
    case False
    have "dist R a = uint (rg_tail R) - uint a + 131072"
    proof -
      have "uint (rg_tail R) - uint a + 131072 = (uint (rg_tail R) - uint a + 131072) mod 131072"
        using False assms(1) uint_ge_0 [of "rg_tail R"] by (intro mod_pos_pos_trivial [symmetric]) linarith+
      then show ?thesis by (simp add: dist_def)
    qed
    then show ?thesis using False assms(3) by (simp add: v Let_def)
  qed
qed

lemma masked_int:
  assumes "4 dvd (x :: int)" "0 \<le> x" "x < 131072"
  shows "x AND 0x1FFFFC = x"
proof -
  from assms obtain k where k: "x = push_bit 2 k" by (auto simp: push_bit_eq_mult elim!: dvdE)
  have b: "0 \<le> k" "k < 2 ^ 15" using assms by (simp_all add: k push_bit_eq_mult)
  have "(0x1FFFFC :: int) = push_bit 2 (mask 19)" by (simp add: push_bit_eq_mult mask_eq_exp_minus_1)
  then have "x AND 0x1FFFFC = push_bit 2 (k AND mask 19)" by (simp add: k)
  also have "k AND mask 19 = k mod 2 ^ 19" by (simp add: take_bit_eq_mask [symmetric] take_bit_eq_mod)
  also have "k mod 2 ^ 19 = k" using b by simp
  finally show ?thesis by (simp add: k)
qed

lemma masked_pos: "pos_ok x \<Longrightarrow> x AND HEAD_ADDR = x"
  by (simp add: pos_ok_def HEAD_ADDR_def word_uint_eq_iff uint_and masked_int)

section \<open>The invariant\<close>

definition retired_pos :: "gem_ring \<Rightarrow> u32" where
  "retired_pos R = (case rg_last_retired_head R of None \<Rightarrow> rg_head R AND HEAD_ADDR | Some h \<Rightarrow> h)"

text \<open>The requests of which the end is still recorded are the youngest, in the order of the buffer.\<close>

definition tail_order :: "gem_ring \<Rightarrow> gem_request \<Rightarrow> gem_request \<Rightarrow> bool" where
  "tail_order R p q \<longleftrightarrow> (\<forall>t. rq_tail p = Some t \<longrightarrow> (\<exists>u. rq_tail q = Some u \<and> dist R u \<le> dist R t))"

definition tails_ok :: "gem_ring \<Rightarrow> int \<Rightarrow> gem_request list \<Rightarrow> bool" where
  "tails_ok R b qs \<longleftrightarrow> (\<forall>q \<in> set qs. \<forall>t. rq_tail q = Some t \<longrightarrow> pos_ok t \<and> dist R t \<le> b)
     \<and> sorted_wrt (tail_order R) qs"

text \<open>\<open>n\<close> bytes are reserved and not yet written.\<close>

definition ring_geo :: "int \<Rightarrow> gem_ring \<Rightarrow> bool" where
  "ring_geo n R \<longleftrightarrow> rg_size R = 131072 \<and> rg_effective_size R \<le> 131072
     \<and> pos_ok (rg_tail R) \<and> pos_ok (rg_head R AND HEAD_ADDR)
     \<and> rg_space R = 131008 - dist R (rg_head R AND HEAD_ADDR) - n \<and> 0 \<le> rg_space R \<and> 0 \<le> n
     \<and> (\<forall>h. rg_last_retired_head R = Some h \<longrightarrow> pos_ok h \<and> dist R h \<le> dist R (rg_head R AND HEAD_ADDR))
     \<and> tails_ok R (dist R (retired_pos R)) (rg_requests R)"

lemma tail_order_cong: "rg_tail R' = rg_tail R \<Longrightarrow> tail_order R' = tail_order R"
  unfolding tail_order_def [abs_def] by (simp add: dist_cong [of R' R])

lemma tails_ok_cong: "rg_tail R' = rg_tail R \<Longrightarrow> tails_ok R' = tails_ok R"
  unfolding tails_ok_def [abs_def] by (simp add: dist_cong [of R' R] tail_order_cong [of R' R])

lemma tails_ok_mono: "tails_ok R b qs \<Longrightarrow> b \<le> c \<Longrightarrow> tails_ok R c qs"
  by (fastforce simp: tails_ok_def)

lemma tails_ok_append:
  "tails_ok R b (ps @ qs) \<Longrightarrow> tails_ok R b qs"
  by (auto simp: tails_ok_def sorted_wrt_append)

lemma ring_space_eq:
  assumes "rg_size R = 131072" "pos_ok (rg_tail R)" "pos_ok (rg_head R AND HEAD_ADDR)"
    "dist R (rg_head R AND HEAD_ADDR) \<le> 131008"
  shows "ring_space R = 131008 - dist R (rg_head R AND HEAD_ADDR)"
  using space_value [OF _ _ assms(4)] assms(2,3) unfolding ring_space_def pos_ok_def assms(1) by blast

lemma take_retired_head_geo:
  assumes "ring_geo 0 R" and "rg_last_retired_head R = Some h"
  shows "ring_geo 0 (take_retired_head h R)"
    and "rg_space (take_retired_head h R) = 131008 - dist R h"
    and "rg_last_retired_head (take_retired_head h R) = None"
proof -
  let ?R = "R\<lparr>rg_head := h, rg_last_retired_head := None\<rparr>"
  have h: "pos_ok h" "dist R h \<le> dist R (rg_head R AND HEAD_ADDR)"
    using assms by (auto simp: ring_geo_def)
  have d: "dist ?R = dist R" by (rule dist_cong) simp
  have m: "h AND HEAD_ADDR = h" by (rule masked_pos [OF h(1)])
  have le: "dist R h \<le> 131008" using assms(1) h(2) by (auto simp: ring_geo_def)
  have "ring_space ?R = 131008 - dist ?R (rg_head ?R AND HEAD_ADDR)"
    using assms(1) h m le d by (intro ring_space_eq) (auto simp: ring_geo_def)
  then have s: "ring_space ?R = 131008 - dist R h" by (simp add: m d)
  show "rg_space (take_retired_head h R) = 131008 - dist R h"
    "rg_last_retired_head (take_retired_head h R) = None"
    by (simp_all add: take_retired_head_def Let_def s)
  have d': "dist (take_retired_head h R) = dist R" by (rule dist_cong) (simp add: take_retired_head_def Let_def)
  have t': "tails_ok (take_retired_head h R) = tails_ok R"
    by (rule tails_ok_cong) (simp add: take_retired_head_def Let_def)
  show "ring_geo 0 (take_retired_head h R)"
    using assms h le m unfolding ring_geo_def d' t'
    by (simp add: take_retired_head_def Let_def s retired_pos_def)
qed

section \<open>Retiring\<close>

lemma retire_request_list_split:
  "retire_request_list hw qs l = (qs', l') \<Longrightarrow>
   \<exists>ps. qs = ps @ qs' \<and> l' = (if ps = [] then l else rq_tail (last ps))
     \<and> (\<forall>q. qs' \<noteq> [] \<and> q = hd qs' \<longrightarrow> \<not> i915_seqno_passed hw (rq_seqno q))"
proof (induction qs arbitrary: l)
  case (Cons q qs)
  show ?case
  proof (cases "i915_seqno_passed hw (rq_seqno q)")
    case True
    with Cons obtain ps where ps: "qs = ps @ qs'" "l' = (if ps = [] then rq_tail q else rq_tail (last ps))"
      "\<forall>q. qs' \<noteq> [] \<and> q = hd qs' \<longrightarrow> \<not> i915_seqno_passed hw (rq_seqno q)" by fastforce
    then show ?thesis by (intro exI [of _ "q # ps"]) auto
  qed (use Cons.prems in auto)
qed simp

lemma retire_geo:
  assumes geo: "ring_geo 0 R" and ret: "retire_request_list hw (rg_requests R) (rg_last_retired_head R) = (qs, h)"
  shows "ring_geo 0 (R\<lparr>rg_requests := qs, rg_last_retired_head := h, rg_active := A\<rparr>)"
proof -
  let ?R = "R\<lparr>rg_requests := qs, rg_last_retired_head := h, rg_active := A\<rparr>"
  have d: "dist ?R = dist R" by (rule dist_cong) simp
  have t: "tails_ok ?R = tails_ok R" by (rule tails_ok_cong) simp
  obtain ps where ps: "rg_requests R = ps @ qs" "h = (if ps = [] then rg_last_retired_head R else rq_tail (last ps))"
    using retire_request_list_split [OF ret] by blast
  have ok: "tails_ok R (dist R (retired_pos R)) (ps @ qs)" using geo ps(1) by (simp add: ring_geo_def)
  have le: "dist R (retired_pos R) \<le> dist R (rg_head R AND HEAD_ADDR)"
    using geo by (auto simp: ring_geo_def retired_pos_def split: option.splits)
  show ?thesis
  proof (cases "ps = []")
    case True
    then have "retired_pos ?R = retired_pos R" using ps(2) by (simp add: retired_pos_def split: option.split)
    then show ?thesis using geo ps True unfolding ring_geo_def d t by simp
  next
    case False
    have l: "last ps \<in> set (ps @ qs)" using False by simp
    have "tails_ok R (dist R (retired_pos ?R)) qs \<and> (\<forall>x. h = Some x \<longrightarrow> pos_ok x \<and> dist R x \<le> dist R (rg_head R AND HEAD_ADDR))"
    proof (cases h)
      case None
      then show ?thesis using tails_ok_mono [OF tails_ok_append [OF ok] le] by (simp add: retired_pos_def)
    next
      case (Some x)
      then have x: "rq_tail (last ps) = Some x" using ps(2) False by simp
      have px: "pos_ok x" "dist R x \<le> dist R (retired_pos R)" using ok l x unfolding tails_ok_def by blast+
      have "\<forall>q \<in> set qs. tail_order R (last ps) q"
        using ok False by (simp add: tails_ok_def sorted_wrt_append)
      then have "\<forall>q \<in> set qs. \<forall>t. rq_tail q = Some t \<longrightarrow> dist R t \<le> dist R x"
        using x by (fastforce simp: tail_order_def)
      then have "tails_ok R (dist R x) qs"
        using tails_ok_append [OF ok] by (simp add: tails_ok_def)
      then show ?thesis using Some px le by (simp add: retired_pos_def)
    qed
    then show ?thesis using geo unfolding ring_geo_def d t by (auto simp: retired_pos_def)
  qed
qed

text \<open>Retiring within the whole state.\<close>

lemma retire_ring_fields:
  assumes inv: "gem_inv g" and hw: "age g hw < 2 ^ 31"
    and ok: "i915_gem_retire_requests_ring hw r g = Ok g'"
  shows "\<exists>qs h A. retire_request_list hw (rg_requests (gm_rings g r)) (rg_last_retired_head (gm_rings g r)) = (qs, h)
     \<and> gm_rings g' r = (gm_rings g r)\<lparr>rg_requests := qs, rg_last_retired_head := h, rg_active := A\<rparr>"
proof (cases "rg_requests (gm_rings g r) = []")
  case True
  then show ?thesis using ok
    by (intro exI [of _ "[]"] exI [of _ "rg_last_retired_head (gm_rings g r)"] exI [of _ "rg_active (gm_rings g r)"])
      (simp add: i915_gem_retire_requests_ring_def)
next
  case False
  let ?R = "gm_rings g r"
  obtain qs h where ret: "retire_request_list hw (rg_requests ?R) (rg_last_retired_head ?R) = (qs, h)" by fastforce
  let ?g = "upd_ring r (\<lambda>R. R\<lparr>rg_requests := qs, rg_last_retired_head := h\<rparr>) g"
  have wf: "gem_wf g" using inv by (simp add: gem_inv_def)
  have k: "ring_ok g r" using wf by (simp add: gem_wf_def)
  have qs: "qs = filter (\<lambda>q. \<not> i915_seqno_passed hw (rq_seqno q)) (rg_requests ?R)"
    using retire_request_list_eq [of g "rg_requests ?R" hw "rg_last_retired_head ?R"] wf_ringD(4,5) [OF wf] hw ret by auto
  have same: "?g = upd_ring r (\<lambda>R. R\<lparr>rg_requests := qs, rg_olr := rg_olr ?R, rg_last_retired_head := h\<rparr>) g"
    by (simp add: upd_ring_def)
  have "gem_wf ?g"
    unfolding same using k by (intro upd_requests_wf [OF wf]) (auto simp: ring_ok_def qs sorted_wrt_sub)
  from retire_active [where r = r and hw = hw, OF this refl]
  obtain A where "gm_rings g' = (gm_rings ?g)(r := (gm_rings ?g r)\<lparr>rg_active := A\<rparr>)"
    using ok ret False hw age_eq [of ?g g] by (auto simp: i915_gem_retire_requests_ring_def)
  then show ?thesis using ret by auto
qed

section \<open>Waiting for a request\<close>

text \<open>The search: it consumes a prefix of the requests and stops at one whose end leaves the room.\<close>

lemma tails_ok_consumed: "rq_tail q = None \<Longrightarrow> tails_ok R b (q # qs) \<longleftrightarrow> tails_ok R b qs"
  by (simp add: tails_ok_def tail_order_def)

definition leaves_room :: "gem_ring \<Rightarrow> int \<Rightarrow> u32 \<Rightarrow> gem_request list \<Rightarrow> bool" where
  "leaves_room R n seqno qs \<longleftrightarrow> (\<exists>ps q rest t. qs = ps @ q # rest \<and> rq_seqno q = seqno
     \<and> rq_tail q = Some t \<and> n \<le> 131008 - dist R t)"

lemma leaves_room_Cons: "leaves_room R n seqno qs \<Longrightarrow> leaves_room R n seqno (q # qs)"
  unfolding leaves_room_def by (metis append_Cons)

lemma request_for_space_spec:
  assumes "request_for_space 131072 (rg_tail R) n qs = (seqno, qs')" and "tails_ok R b qs" and "b \<le> 131008"
    and "uint (rg_tail R) < 131072"
  shows "map rq_seqno qs' = map rq_seqno qs \<and> tails_ok R b qs'
     \<and> (leaves_room R n seqno qs' \<or> seqno = 0 \<and> (\<forall>q \<in> set qs'. rq_tail q = None))"
  using assms(1,2)
proof (induction qs arbitrary: qs')
  case (Cons q qs)
  have ok: "tails_ok R b qs" using Cons.prems(2) by (auto simp: tails_ok_def)
  obtain s qs1 where rec: "request_for_space 131072 (rg_tail R) n qs = (s, qs1)" by fastforce
  have step: ?case if "seqno = s" "qs' = p # qs1" "rq_tail p = None" "rq_seqno p = rq_seqno q" for p
    using Cons.IH [OF rec [folded that(1)] ok] that leaves_room_Cons [of R n seqno qs1 p]
    by (auto simp: tails_ok_consumed)
  show ?case
  proof (cases "rq_tail q")
    case None
    then show ?thesis using Cons.prems(1) by (intro step [of q]) (simp_all add: rec)
  next
    case (Some t)
    have t: "pos_ok t" "dist R t \<le> b" using Cons.prems(2) Some by (auto simp: tails_ok_def)
    then have "(let space = sint (t - (rg_tail R + I915_RING_FREE_SPACE)) in if space < 0 then space + 131072 else space)
       = 131008 - dist R t"
      using assms(3,4) by (intro space_value) (auto simp: pos_ok_def)
    then have e: "request_for_space 131072 (rg_tail R) n (q # qs) =
        (if n \<le> 131008 - dist R t then (rq_seqno q, q # qs) else (s, q\<lparr>rq_tail := None\<rparr> # qs1))"
      using Some by (simp add: Let_def rec)
    show ?thesis
    proof (cases "n \<le> 131008 - dist R t")
      case True
      then have "leaves_room R n seqno qs'" using e Cons.prems(1) Some unfolding leaves_room_def by (metis append_Nil Pair_inject)
      then show ?thesis using True e Cons.prems by auto
    qed (use e Cons.prems(1) in \<open>intro step [of "q\<lparr>rq_tail := None\<rparr>"], simp_all\<close>)
  qed
qed (simp add: tails_ok_def)

section \<open>The contract of the hardware\<close>

text \<open>What the waits rely on: the numbers reported are numbers given out, the lazy one not yet among
  them; a number that was reported stays passed; a GPU found wedged is still wedged when the error
  is looked up; and the head register is a position the commands were fetched up to, behind which
  the GPU does not fall back.\<close>

definition reports_ok :: "nat \<Rightarrow> gem \<Rightarrow> u32 \<Rightarrow> bool" where
  "reports_ok r g h \<longleftrightarrow> age g h < 2 ^ 31
     \<and> (rg_olr (gm_rings g r) \<noteq> 0 \<longrightarrow> \<not> i915_seqno_passed h (rg_olr (gm_rings g r)))"

definition space_env_ok :: "nat \<Rightarrow> gem \<Rightarrow> space_env \<Rightarrow> bool" where
  "space_env_ok r g e \<longleftrightarrow> reports_ok r g (se_hw e) \<and> reports_ok r g (we_retire (se_wait e))
     \<and> (\<forall>h \<in> insert (we_reported (se_wait e)) (\<Union>w \<in> set (we_rounds (se_wait e)). {wo_seqno w, wo_seqno2 w}).
          \<forall>q \<in> set (rg_requests (gm_rings g r)).
          i915_seqno_passed h (rq_seqno q) \<longrightarrow> i915_seqno_passed (we_retire (se_wait e)) (rq_seqno q))
     \<and> (\<forall>w \<in> set (we_rounds (se_wait e)). wo_wedged w \<or> wo_wedged2 w \<longrightarrow> wo_check_wedged w)
     \<and> (\<forall>p \<in> set (se_poll e). pos_ok (po_head p AND HEAD_ADDR)
          \<and> dist (gm_rings g r) (po_head p AND HEAD_ADDR) \<le> dist (gm_rings g r) (rg_head (gm_rings g r) AND HEAD_ADDR))"

text \<open>The part of the contract that stays true while the requests retire.\<close>

definition env_facts :: "nat \<Rightarrow> gem \<Rightarrow> space_env \<Rightarrow> bool" where
  "env_facts r g e \<longleftrightarrow> reports_ok r g (se_hw e) \<and> reports_ok r g (we_retire (se_wait e))
     \<and> (\<forall>h \<in> insert (we_reported (se_wait e)) (\<Union>w \<in> set (we_rounds (se_wait e)). {wo_seqno w, wo_seqno2 w}).
          \<forall>s \<in> rq_seqno ` set (rg_requests (gm_rings g r)).
          i915_seqno_passed h s \<longrightarrow> i915_seqno_passed (we_retire (se_wait e)) s)
     \<and> (\<forall>w \<in> set (we_rounds (se_wait e)). wo_wedged w \<or> wo_wedged2 w \<longrightarrow> wo_check_wedged w)
     \<and> (\<forall>p \<in> set (se_poll e). pos_ok (po_head p AND HEAD_ADDR)
          \<and> dist (gm_rings g r) (po_head p AND HEAD_ADDR) \<le> 131008)"

lemma env_facts_start:
  "space_env_ok r g e \<Longrightarrow> ring_geo n (gm_rings g r) \<Longrightarrow> env_facts r g e"
  by (fastforce simp: space_env_ok_def env_facts_def ring_geo_def)

text \<open>What stays the same of a ring while it makes room.\<close>

definition settled :: "nat \<Rightarrow> gem \<Rightarrow> gem \<Rightarrow> bool" where
  "settled r g g' \<longleftrightarrow> gm_next_seqno g' = gm_next_seqno g \<and> rg_tail (gm_rings g' r) = rg_tail (gm_rings g r)
     \<and> rg_olr (gm_rings g' r) = rg_olr (gm_rings g r)
     \<and> rq_seqno ` set (rg_requests (gm_rings g' r)) \<subseteq> rq_seqno ` set (rg_requests (gm_rings g r))"

lemma settled_refl: "settled r g g"
  by (simp add: settled_def)

lemma settled_trans: "settled r g g' \<Longrightarrow> settled r g' g'' \<Longrightarrow> settled r g g''"
  unfolding settled_def by (metis (no_types, lifting) subset_trans)

lemma settled_reports: "settled r g g' \<Longrightarrow> reports_ok r g' = reports_ok r g"
  unfolding settled_def reports_ok_def [abs_def] by (simp add: age_eq [of g' g])

lemma settled_env:
  assumes "settled r g g'" and e: "env_facts r g e"
  shows "env_facts r g' e"
proof -
  have d: "dist (gm_rings g' r) = dist (gm_rings g r)" by (rule dist_cong) (use assms(1) in \<open>simp add: settled_def\<close>)
  let ?H = "insert (we_reported (se_wait e)) (\<Union>w \<in> set (we_rounds (se_wait e)). {wo_seqno w, wo_seqno2 w})"
  have sub: "rq_seqno ` set (rg_requests (gm_rings g' r)) \<subseteq> rq_seqno ` set (rg_requests (gm_rings g r))"
    using assms(1) by (simp add: settled_def)
  from e have m: "\<forall>h \<in> ?H. \<forall>s \<in> rq_seqno ` set (rg_requests (gm_rings g r)).
      i915_seqno_passed h s \<longrightarrow> i915_seqno_passed (we_retire (se_wait e)) s"
    unfolding env_facts_def by (elim conjE)
  have "\<forall>h \<in> ?H. \<forall>s \<in> rq_seqno ` set (rg_requests (gm_rings g' r)).
      i915_seqno_passed h s \<longrightarrow> i915_seqno_passed (we_retire (se_wait e)) s"
    by (intro ballI impI, rule m [rule_format], assumption, erule subsetD [OF sub], assumption)
  then show ?thesis
    using e unfolding env_facts_def d settled_reports [OF assms(1)] by (elim conjE, intro conjI) assumption+
qed

lemma settled_take: "settled r g (upd_ring r (take_retired_head h) g)"
  by (simp add: settled_def take_retired_head_def Let_def)

text \<open>Retiring a ring with a reported number.\<close>

lemma retire_step:
  assumes inv: "gem_inv g" and rep: "reports_ok r g h" and geo: "ring_geo 0 (gm_rings g r)"
  shows "\<exists>g' l. i915_gem_retire_requests_ring h r g = Ok g' \<and> gem_inv g' \<and> ring_geo 0 (gm_rings g' r) \<and> settled r g g'
     \<and> retire_request_list h (rg_requests (gm_rings g r)) (rg_last_retired_head (gm_rings g r))
         = (rg_requests (gm_rings g' r), l) \<and> rg_last_retired_head (gm_rings g' r) = l"
proof -
  have hw: "age g h < 2 ^ 31" using rep by (simp add: reports_ok_def)
  obtain g' where g': "i915_gem_retire_requests_ring h r g = Ok g'" "gem_inv g'" "gm_next_seqno g' = gm_next_seqno g"
    "set (rg_requests (gm_rings g' r)) \<subseteq> set (rg_requests (gm_rings g r))"
    using retire_ring_exact [OF inv hw, of r] rep by (auto simp: reports_ok_def)
  obtain qs l A where f: "retire_request_list h (rg_requests (gm_rings g r)) (rg_last_retired_head (gm_rings g r)) = (qs, l)"
    "gm_rings g' r = (gm_rings g r)\<lparr>rg_requests := qs, rg_last_retired_head := l, rg_active := A\<rparr>"
    using retire_ring_fields [OF inv hw g'(1)] by blast
  have "settled r g g'" using g'(3,4) f(2) by (auto simp: settled_def)
  moreover have "ring_geo 0 (gm_rings g' r)" using retire_geo [OF geo f(1), of A] by (simp add: f(2))
  ultimately show ?thesis using g'(1,2) f by simp
qed

text \<open>Consuming the ends of requests changes nothing the invariant of the objects depends on.\<close>

lemma consume_inv:
  assumes inv: "gem_inv g" and m: "map rq_seqno qs = map rq_seqno (rg_requests (gm_rings g r))"
  shows "gem_inv (upd_ring r (\<lambda>R. R\<lparr>rg_requests := qs\<rparr>) g)"
proof -
  let ?R = "gm_rings g r" and ?g = "upd_ring r (\<lambda>R. R\<lparr>rg_requests := qs\<rparr>) g"
  have wf: "gem_wf g" and cov: "\<And>r. covered g r" using inv by (auto simp: gem_inv_def)
  have k: "ring_ok g r" using wf by (simp add: gem_wf_def)
  have im: "rq_seqno ` set qs = rq_seqno ` set (rg_requests ?R)" using m by (metis list.set_map)
  have ball: "(\<forall>q \<in> set qs. P (rq_seqno q)) \<longleftrightarrow> (\<forall>q \<in> set (rg_requests ?R). P (rq_seqno q))" for P
    using im by (metis (no_types, lifting) imageE imageI)
  have so: "sorted_wrt (\<lambda>p q. age g (rq_seqno q) < age g (rq_seqno p)) qs"
  proof -
    have "sorted_wrt (\<lambda>s t. age g t < age g s) (map rq_seqno (rg_requests ?R))"
      using k by (simp add: ring_ok_def sorted_wrt_map)
    then show ?thesis unfolding m [symmetric] sorted_wrt_map .
  qed
  have same: "?g = upd_ring r (\<lambda>R. R\<lparr>rg_requests := qs, rg_olr := rg_olr ?R,
      rg_last_retired_head := rg_last_retired_head ?R\<rparr>) g"
    by (simp add: upd_ring_def)
  have "gem_wf ?g"
    unfolding same using k so ball [of "young g"] ball [of "\<lambda>s. age g (rg_olr ?R) < age g s"]
    by (intro upd_requests_wf [OF wf]) (simp_all add: ring_ok_def)
  moreover have "covered ?g r'" for r'
  proof -
    have "(\<exists>q \<in> set qs. rq_seqno q = s) \<longleftrightarrow> (\<exists>q \<in> set (rg_requests ?R). rq_seqno q = s)" for s
      using ball [of "\<lambda>x. x \<noteq> s"] by blast
    then show ?thesis using cov [of r'] by (auto simp: covered_def)
  qed
  ultimately show ?thesis by (simp add: gem_inv_def)
qed

lemma wait_other_seqno:
  assumes "seqno \<noteq> 0" "seqno \<noteq> rg_olr (gm_rings g r)" "i915_wait_seqno e r seqno g = Ok (Some (ret, g'))"
  shows "g' = g \<and> ret \<noteq> Some ENOSPC"
proof -
  have rounds: "wait_rounds s i f ws \<noteq> Some (Failed ENOSPC)" for s i f ws
    by (induction ws) (auto simp: Let_def i915_gem_check_wedge_def split: if_splits)
  then have "wait_seqno seqno i True rep irq ws \<noteq> Some (Some ENOSPC)" for i rep irq ws
    by (auto simp: wait_seqno_def split: option.splits wait_end.splits)
  with assms show ?thesis
    by (auto simp: i915_wait_seqno_def i915_gem_check_olr_def i915_gem_check_wedge_def split: if_splits)
qed

section \<open>Making room\<close>

text \<open>The outcome of a wait for \<open>n\<close> bytes: never a panic, the invariants and the ring as before, and room
  on success.\<close>

definition waited :: "nat \<Rightarrow> int \<Rightarrow> gem \<Rightarrow> (errno option \<times> gem) option outcome \<Rightarrow> bool" where
  "waited r n g out \<longleftrightarrow> (\<exists>res. out = Ok res \<and> (\<forall>ret g'. res = Some (ret, g') \<longrightarrow>
     gem_inv g' \<and> ring_geo 0 (gm_rings g' r) \<and> settled r g g'
     \<and> (ret = None \<longrightarrow> n \<le> rg_space (gm_rings g' r))))"

text \<open>Without room, every recorded end was consumed.\<close>

definition nothing_recorded :: "gem_ring \<Rightarrow> bool" where
  "nothing_recorded R \<longleftrightarrow> rg_last_retired_head R = None \<and> (\<forall>q \<in> set (rg_requests R). rq_tail q = None)"

lemma consume_geo:
  assumes "ring_geo 0 R" "rg_last_retired_head R = None" "tails_ok R (dist R (retired_pos R)) qs"
  shows "ring_geo 0 (R\<lparr>rg_requests := qs\<rparr>)"
proof -
  let ?R = "R\<lparr>rg_requests := qs\<rparr>"
  have d: "dist ?R = dist R" and t: "tails_ok ?R = tails_ok R" by (rule dist_cong tails_ok_cong; simp)+
  have p: "retired_pos ?R = retired_pos R" by (simp add: retired_pos_def split: option.split)
  show ?thesis using assms unfolding ring_geo_def d t p by simp
qed

lemma wait_request_passed:
  assumes geo: "ring_geo 0 R" and room: "leaves_room R n seqno (rg_requests R)" and hw: "i915_seqno_passed h seqno"
    and ret: "retire_request_list h (rg_requests R) (rg_last_retired_head R) = (qs, l)"
    and fil: "qs = filter (\<lambda>q. \<not> i915_seqno_passed h (rq_seqno q)) (rg_requests R)"
  shows "\<exists>u. l = Some u \<and> n \<le> 131008 - dist R u"
proof -
  obtain ps q rest t where split: "rg_requests R = ps @ q # rest" "rq_seqno q = seqno" "rq_tail q = Some t"
      "n \<le> 131008 - dist R t" using room unfolding leaves_room_def by blast
  obtain ds where ds: "rg_requests R = ds @ qs" "l = (if ds = [] then rg_last_retired_head R else rq_tail (last ds))"
    using retire_request_list_split [OF ret] by blast
  have so: "sorted_wrt (tail_order R) (rg_requests R)" using geo by (simp add: ring_geo_def tails_ok_def)
  have nq: "q \<notin> set qs" using hw split(2) by (simp add: fil)
  have "length ps < length ds"
  proof (rule ccontr)
    assume "\<not> length ps < length ds"
    then have "q \<in> set (drop (length ds) (rg_requests R))" by (simp add: split(1))
    then show False using nq ds(1) by simp
  qed
  then have ne: "ds \<noteq> []" by auto
  have ds': "ds = take (length ds) (ps @ q # rest)" using ds(1) split(1) by (metis append_eq_conv_conj)
  define k where "k = length ds - Suc (length ps)"
  have dk: "ds = ps @ q # take k rest"
    using ds' \<open>length ps < length ds\<close> by (simp add: k_def) (metis Suc_diff_Suc take_Suc_Cons)
  show ?thesis
  proof (cases "take k rest = []")
    case True
    then have "last ds = q" using dk by simp
    then show ?thesis using ds(2) ne split(3,4) by simp
  next
    case False
    then have "last ds \<in> set rest" using dk by (metis in_set_takeD last_ConsR last_appendR last_in_set list.distinct(1))
    then have "tail_order R q (last ds)" using so by (simp add: split(1) sorted_wrt_append)
    then show ?thesis using ds(2) ne split(3,4) by (auto simp: tail_order_def)
  qed
qed

lemma waited_intro:
  "gem_inv g' \<Longrightarrow> ring_geo 0 (gm_rings g' r) \<Longrightarrow> settled r g g' \<Longrightarrow> (ret = None \<Longrightarrow> n \<le> rg_space (gm_rings g' r)) \<Longrightarrow>
   waited r n g (Ok (Some (ret, g')))"
  by (simp add: waited_def)

lemma take_head_inv: "gem_inv (upd_ring r (take_retired_head h) g) = gem_inv g"
  by (rule gem_inv_cong) (simp_all add: take_retired_head_def Let_def)

lemma wait_seqno_passed:
  assumes "gem_inv g" "seqno \<noteq> 0"
    "\<forall>h \<in> insert (we_reported e) (\<Union>w \<in> set (we_rounds e). {wo_seqno w, wo_seqno2 w}).
        i915_seqno_passed h seqno \<longrightarrow> i915_seqno_passed (we_retire e) seqno"
    "\<forall>w \<in> set (we_rounds e). wo_wedged w \<or> wo_wedged2 w \<longrightarrow> wo_check_wedged w"
  shows "\<exists>res. i915_wait_seqno e r seqno g = Ok res
     \<and> (\<forall>g'. res = Some (None, g') \<longrightarrow> i915_seqno_passed (we_retire e) seqno)"
  by (insert wait_seqno_inv [where r = r, OF assms], elim exE conjE, intro exI conjI, assumption, blast)

lemma wait_for_request_ok:
  assumes inv: "gem_inv g" and geo: "ring_geo 0 (gm_rings g r)" and env: "env_facts r g e"
    and none: "rg_last_retired_head (gm_rings g r) = None"
  shows "waited r n g (wait_for_request e r n g)
     \<and> (\<forall>g'. wait_for_request e r n g = Ok (Some (Some ENOSPC, g')) \<longrightarrow> nothing_recorded (gm_rings g' r))"
proof -
  let ?R = "gm_rings g r"
  have sz: "rg_size ?R = 131072" "dist ?R (retired_pos ?R) \<le> 131008" "uint (rg_tail ?R) < 131072"
    and ok: "tails_ok ?R (dist ?R (retired_pos ?R)) (rg_requests ?R)"
    using geo none by (auto simp: ring_geo_def retired_pos_def pos_ok_def)
  obtain seqno qs where rq: "request_for_space 131072 (rg_tail ?R) n (rg_requests ?R) = (seqno, qs)" by fastforce
  note spec = request_for_space_spec [OF rq ok sz(2,3)]
  let ?g = "upd_ring r (\<lambda>R. R\<lparr>rg_requests := qs\<rparr>) g"
  have ginv: "gem_inv ?g" using spec by (intro consume_inv [OF inv]) simp
  have ggeo: "ring_geo 0 (gm_rings ?g r)" using consume_geo [OF geo none] spec by simp
  have im: "rq_seqno ` set qs = rq_seqno ` set (rg_requests ?R)" using spec by (metis list.set_map)
  have gset: "settled r g ?g" using im by (simp add: settled_def)
  have nz: "s \<noteq> 0 \<and> s \<noteq> rg_olr (gm_rings g r)" if sq: "s \<in> rq_seqno ` set qs" for s
  proof -
    obtain q where q: "q \<in> set (rg_requests ?R)" "s = rq_seqno q" using sq unfolding im by blast
    have "gem_wf g" using inv by (simp add: gem_inv_def)
    then have "ring_ok g r" by (simp add: gem_wf_def)
    then show ?thesis using q by (auto simp: ring_ok_def young_def)
  qed
  show ?thesis
  proof (cases "seqno = 0")
    case True
    have "\<not> leaves_room ?R n seqno qs"
    proof
      assume "leaves_room ?R n seqno qs"
      then have "seqno \<in> rq_seqno ` set qs" by (force simp: leaves_room_def)
      with nz True show False by blast
    qed
    then have "\<forall>q \<in> set qs. rq_tail q = None" using spec by blast
    then show ?thesis
      using True rq sz(1) none waited_intro [OF ginv ggeo gset]
      by (auto simp: wait_for_request_def nothing_recorded_def)
  next
    case False
    then have lr: "leaves_room ?R n seqno qs" using spec by blast
    then have mem: "seqno \<in> rq_seqno ` set qs" by (force simp: leaves_room_def)
    let ?e = "se_wait e"
    have env': "env_facts r ?g e" by (rule settled_env [OF gset env])
    have wedge: "\<forall>w \<in> set (we_rounds ?e). wo_wedged w \<or> wo_wedged2 w \<longrightarrow> wo_check_wedged w"
      using env unfolding env_facts_def by (elim conjE)
    have mono: "\<forall>h \<in> insert (we_reported ?e) (\<Union>w \<in> set (we_rounds ?e). {wo_seqno w, wo_seqno2 w}).
        i915_seqno_passed h seqno \<longrightarrow> i915_seqno_passed (we_retire ?e) seqno"
    proof -
      from env have "\<forall>h \<in> insert (we_reported ?e) (\<Union>w \<in> set (we_rounds ?e). {wo_seqno w, wo_seqno2 w}).
          \<forall>s \<in> rq_seqno ` set (rg_requests ?R). i915_seqno_passed h s \<longrightarrow> i915_seqno_passed (we_retire ?e) s"
        unfolding env_facts_def by (elim conjE)
      then show ?thesis using mem unfolding im by (intro ballI impI) (drule bspec, assumption, drule bspec, assumption, erule mp)
    qed
    obtain res where w: "i915_wait_seqno ?e r seqno ?g = Ok res"
        and after: "\<forall>g'. res = Some (None, g') \<longrightarrow> i915_seqno_passed (we_retire ?e) seqno"
      using wait_seqno_passed [where r = r, OF ginv False mono wedge] by (elim exE conjE) (rule that)
    have same: "g' = ?g \<and> ret \<noteq> Some ENOSPC" if "res = Some (ret, g')" for ret g'
      using wait_other_seqno [of seqno ?g r ?e ret g'] w that False nz [OF mem] by simp
    show ?thesis
    proof (cases res)
      case None
      then show ?thesis using False rq sz(1) w
        by (simp add: wait_for_request_def intel_ring_wait_seqno_def waited_def)
    next
      case (Some rg)
      obtain ret where rg: "rg = (ret, ?g)" "ret \<noteq> Some ENOSPC" using same Some by (cases rg) auto
      show ?thesis
      proof (cases ret)
        case (Some err)
        have "wait_for_request e r n g = Ok (Some (Some err, ?g))"
          using False rq sz(1) w \<open>res = Some rg\<close> rg Some by (simp add: wait_for_request_def intel_ring_wait_seqno_def)
        then show ?thesis using waited_intro [OF ginv ggeo gset] rg Some by auto
      next
        case None
        then have passed: "i915_seqno_passed (we_retire ?e) seqno" using after \<open>res = Some rg\<close> rg by simp
        have rep: "reports_ok r ?g (we_retire ?e)" using env' by (simp add: env_facts_def)
        obtain g2 l where g2: "i915_gem_retire_requests_ring (we_retire ?e) r ?g = Ok g2" "gem_inv g2"
            "ring_geo 0 (gm_rings g2 r)" "settled r ?g g2"
            "retire_request_list (we_retire ?e) (rg_requests (gm_rings ?g r)) (rg_last_retired_head (gm_rings ?g r))
               = (rg_requests (gm_rings g2 r), l)" "rg_last_retired_head (gm_rings g2 r) = l"
          using retire_step [OF ginv rep ggeo] by blast
        have gwf: "gem_wf ?g" using ginv by (simp add: gem_inv_def)
        have fil: "rg_requests (gm_rings g2 r) = filter (\<lambda>q. \<not> i915_seqno_passed (we_retire ?e) (rq_seqno q)) (rg_requests (gm_rings ?g r))"
          using retire_request_list_eq [OF wf_ringD(4) [OF gwf], of r "we_retire ?e"] wf_ringD(5) [OF gwf] rep g2(5)
          by (metis fst_conv reports_ok_def)
        have lr': "leaves_room (gm_rings ?g r) n seqno (rg_requests (gm_rings ?g r))"
          using lr dist_cong [of "gm_rings ?g r" ?R] by (simp add: leaves_room_def)
        obtain u where u: "l = Some u" "n \<le> 131008 - dist (gm_rings ?g r) u"
          using wait_request_passed [OF ggeo lr' passed g2(5) fil] by blast
        have d: "dist (gm_rings g2 r) = dist (gm_rings ?g r)" by (rule dist_cong) (use g2(4) in \<open>simp add: settled_def\<close>)
        have u': "rg_last_retired_head (gm_rings g2 r) = Some u" using g2(6) u by simp
        let ?g3 = "upd_ring r (take_retired_head u) g2"
        note t = take_retired_head_geo [OF g2(3) u']
        have e3: "wait_for_request e r n g = Ok (Some (None, ?g3))"
          using False rq sz(1) w \<open>res = Some rg\<close> rg None g2(1) u' t(2) u(2) d
          by (simp add: wait_for_request_def intel_ring_wait_seqno_def)
        have "settled r g ?g3" using settled_trans [OF gset settled_trans [OF g2(4) settled_take]] .
        then show ?thesis unfolding e3 using waited_intro [of ?g3 r g None n] g2(2) t u(2) d take_head_inv [of r u g2] by simp
      qed
    qed
  qed
qed

lemma waited_trans:
  "waited r n g' out \<Longrightarrow> settled r g g' \<Longrightarrow> waited r n g out"
  unfolding waited_def using settled_trans by blast

lemma wait_request_ok:
  assumes inv: "gem_inv g" and geo: "ring_geo 0 (gm_rings g r)" and env: "env_facts r g e"
  shows "waited r n g (intel_ring_wait_request e r n g)
     \<and> (\<forall>g'. intel_ring_wait_request e r n g = Ok (Some (Some ENOSPC, g')) \<longrightarrow> nothing_recorded (gm_rings g' r))"
proof -
  have rep: "reports_ok r g (se_hw e)" using env by (simp add: env_facts_def)
  obtain g1 where g1: "i915_gem_retire_requests_ring (se_hw e) r g = Ok g1" "gem_inv g1"
      "ring_geo 0 (gm_rings g1 r)" "settled r g g1"
    using retire_step [OF inv rep geo] by blast
  show ?thesis
  proof (cases "rg_last_retired_head (gm_rings g1 r)")
    case None
    then have "intel_ring_wait_request e r n g = wait_for_request e r n g1"
      using g1(1) by (simp add: intel_ring_wait_request_def)
    then show ?thesis
      using wait_for_request_ok [OF g1(2,3) settled_env [OF g1(4) env] None, of n] waited_trans [OF _ g1(4)] by simp
  next
    case (Some h)
    let ?g2 = "upd_ring r (take_retired_head h) g1"
    note t = take_retired_head_geo [OF g1(3) Some]
    have g2: "gem_inv ?g2" "ring_geo 0 (gm_rings ?g2 r)" "settled r g ?g2" "rg_last_retired_head (gm_rings ?g2 r) = None"
      using g1 t settled_trans [OF g1(4) settled_take] by (simp_all add: take_head_inv)
    have e: "intel_ring_wait_request e r n g =
        (if n \<le> rg_space (gm_rings ?g2 r) then Ok (Some (None, ?g2)) else wait_for_request e r n ?g2)"
      using g1(1) Some by (simp add: intel_ring_wait_request_def)
    show ?thesis
      using wait_for_request_ok [OF g2(1,2) settled_env [OF g2(3) env] g2(4), of n] waited_trans [OF _ g2(3)]
        waited_intro [OF g2(1-3)] unfolding e by simp
  qed
qed

text \<open>Polling the head register, once no end is recorded any more.\<close>

definition polled :: "u32 \<Rightarrow> gem_ring \<Rightarrow> gem_ring" where
  "polled h R = (let R = R\<lparr>rg_head := h\<rparr> in R\<lparr>rg_space := ring_space R\<rparr>)"

lemma polled_geo:
  assumes "ring_geo 0 R" "nothing_recorded R" "pos_ok (h AND HEAD_ADDR)" "dist R (h AND HEAD_ADDR) \<le> 131008"
  shows "ring_geo 0 (polled h R) \<and> nothing_recorded (polled h R)"
proof -
  let ?R = "R\<lparr>rg_head := h\<rparr>"
  have d: "dist ?R = dist R" and d': "dist (polled h R) = dist R" and t: "tails_ok (polled h R) = tails_ok R"
    by (rule dist_cong tails_ok_cong; simp add: polled_def Let_def)+
  have s: "ring_space ?R = 131008 - dist R (h AND HEAD_ADDR)"
    using ring_space_eq [of ?R] assms by (simp add: ring_geo_def d)
  have "tails_ok R b (rg_requests R)" for b
    using assms(1,2) by (auto simp: ring_geo_def tails_ok_def nothing_recorded_def)
  then show ?thesis
    using assms s unfolding ring_geo_def d' t by (simp add: polled_def Let_def nothing_recorded_def)
qed

lemma ring_poll_ok:
  assumes "gem_inv g" "ring_geo 0 (gm_rings g r)" "nothing_recorded (gm_rings g r)"
    "\<forall>p \<in> set ps. pos_ok (po_head p AND HEAD_ADDR) \<and> dist (gm_rings g r) (po_head p AND HEAD_ADDR) \<le> 131008"
  shows "waited r n g (Ok (Some (ring_poll r n ps g)))"
  using assms
proof (induction ps arbitrary: g)
  case Nil
  then show ?case by (simp add: waited_def settled_refl)
next
  case (Cons p ps)
  let ?g = "upd_ring r (polled (po_head p)) g"
  have k: "ring_geo 0 (gm_rings ?g r) \<and> nothing_recorded (gm_rings ?g r)"
    using Cons.prems by (simp add: polled_geo)
  have i: "gem_inv ?g" using Cons.prems(1) gem_inv_cong(1) [of ?g g] by (simp add: polled_def Let_def)
  have s: "settled r g ?g" by (simp add: settled_def polled_def Let_def)
  have d: "dist (gm_rings ?g r) = dist (gm_rings g r)" by (rule dist_cong) (simp add: polled_def Let_def)
  have pe: "polled (po_head p) = (\<lambda>R. let R = R\<lparr>rg_head := po_head p\<rparr> in R\<lparr>rg_space := ring_space R\<rparr>)"
    by (rule ext) (simp add: polled_def)
  have e: "ring_poll r n (p # ps) g = (if n \<le> rg_space (gm_rings ?g r) then (None, ?g)
      else case i915_gem_check_wedge (po_wedged p) (po_recovered p) (po_interruptible p) of
             Some err \<Rightarrow> (Some err, ?g) | None \<Rightarrow> ring_poll r n ps ?g)"
    unfolding pe ring_poll.simps(2) Let_def by (rule refl)
  have rest: "waited r n g (Ok (Some (ring_poll r n ps ?g)))"
    using Cons.IH [OF i] k Cons.prems(4) d waited_trans [OF _ s] by simp
  show ?case
    unfolding e using rest waited_intro [OF i conjunct1 [OF k] s] by (auto split: option.split)
qed

lemma ring_wait_for_space_ok:
  assumes inv: "gem_inv g" and geo: "ring_geo 0 (gm_rings g r)" and env: "env_facts r g e"
  shows "waited r n g (ring_wait_for_space e r n g)"
proof -
  note req = wait_request_ok [OF assms, of n]
  obtain res where res: "intel_ring_wait_request e r n g = Ok res" using req by (auto simp: waited_def)
  show ?thesis
  proof (cases "\<exists>g1. res = Some (Some ENOSPC, g1)")
    case True
    then obtain g1 where g1: "res = Some (Some ENOSPC, g1)" by blast
    have f: "gem_inv g1" "ring_geo 0 (gm_rings g1 r)" "settled r g g1" "nothing_recorded (gm_rings g1 r)"
      using req res g1 by (auto simp: waited_def)
    have "\<forall>p \<in> set (se_poll e). pos_ok (po_head p AND HEAD_ADDR) \<and> dist (gm_rings g1 r) (po_head p AND HEAD_ADDR) \<le> 131008"
      using settled_env [OF f(3) env] unfolding env_facts_def by (elim conjE)
    from ring_poll_ok [OF f(1,2,4) this, of n] show ?thesis
      using res g1 waited_trans [OF _ f(3)] by (simp add: ring_wait_for_space_def)
  next
    case False
    then have "ring_wait_for_space e r n g = Ok res"
      using res by (cases res) (auto simp: ring_wait_for_space_def)
    then show ?thesis using req res by simp
  qed
qed

section \<open>Moving the tail\<close>

lemma dist_shift:
  assumes "uint (rg_tail R') = (uint (rg_tail R) + k) mod 131072" "0 \<le> k" "dist R x + k < 131072"
  shows "dist R' x = dist R x + k"
proof -
  have "dist R' x = (dist R x + k) mod 131072"
    unfolding dist_def assms(1) by (simp add: mod_simps algebra_simps)
  then show ?thesis using assms(2,3) dist_bounds [of R x] by (simp add: mod_pos_pos_trivial)
qed

lemma shift_geo:
  assumes geo: "ring_geo m R" and k: "0 \<le> k" "k \<le> rg_space R + m"
    and t: "uint t = (uint (rg_tail R) + k) mod 131072" "4 dvd uint t"
    and s: "s = 131008 - dist R (rg_head R AND HEAD_ADDR) - k"
  shows "ring_geo 0 (R\<lparr>rg_tail := t, rg_space := s\<rparr>)" and "dist (R\<lparr>rg_tail := t, rg_space := s\<rparr>) (rg_head R AND HEAD_ADDR) = dist R (rg_head R AND HEAD_ADDR) + k"
proof -
  let ?R = "R\<lparr>rg_tail := t, rg_space := s\<rparr>" and ?h = "rg_head R AND HEAD_ADDR"
  have le: "dist R ?h + k \<le> 131008" using geo k by (simp add: ring_geo_def)
  have d: "dist ?R x = dist R x + k" if "dist R x \<le> dist R ?h" for x
    using t k le that by (intro dist_shift) auto
  have p: "pos_ok t" using t by (simp add: pos_ok_def)
  have rp: "retired_pos ?R = retired_pos R" by (simp add: retired_pos_def split: option.split)
  have rl: "dist R (retired_pos R) \<le> dist R ?h"
    using geo by (auto simp: ring_geo_def retired_pos_def split: option.splits)
  have tails: "tails_ok ?R (dist R (retired_pos R) + k) (rg_requests R)"
  proof -
    have ok: "tails_ok R (dist R (retired_pos R)) (rg_requests R)" using geo by (simp add: ring_geo_def)
    have dt: "dist ?R u = dist R u + k" if q: "q \<in> set (rg_requests R)" "rq_tail q = Some u" for q u
    proof -
      have "dist R u \<le> dist R (retired_pos R)" using ok q unfolding tails_ok_def by blast
      then show ?thesis using rl d by simp
    qed
    have to: "tail_order ?R p q" if m: "p \<in> set (rg_requests R)" "q \<in> set (rg_requests R)" and ob: "tail_order R p q" for p q
      unfolding tail_order_def
    proof (intro allI impI)
      fix t' assume t': "rq_tail p = Some t'"
      then obtain u where u: "rq_tail q = Some u" "dist R u \<le> dist R t'" using ob unfolding tail_order_def by blast
      then show "\<exists>u. rq_tail q = Some u \<and> dist ?R u \<le> dist ?R t'"
        using dt [OF m(1) t'] dt [OF m(2) u(1)] by simp
    qed
    have "sorted_wrt (tail_order R) (rg_requests R)" using ok by (simp add: tails_ok_def)
    then have "sorted_wrt (tail_order ?R) (rg_requests R)" by (rule sorted_wrt_mono_rel [rotated]) (rule to)
    moreover have "pos_ok u \<and> dist ?R u \<le> dist R (retired_pos R) + k" if q: "q \<in> set (rg_requests R)" "rq_tail q = Some u" for q u
      using ok q dt [OF q] unfolding tails_ok_def by simp
    ultimately show ?thesis by (simp add: tails_ok_def)
  qed
  show dh: "dist ?R ?h = dist R ?h + k" by (rule d) simp
  have dr: "dist ?R (retired_pos R) = dist R (retired_pos R) + k" using rl by (rule d)
  have g: "rg_size R = 131072" "rg_effective_size R \<le> 131072" "pos_ok ?h"
    using geo unfolding ring_geo_def by blast+
  have last: "pos_ok h \<and> dist ?R h \<le> dist ?R ?h" if l: "rg_last_retired_head R = Some h" for h
  proof -
    have "pos_ok h" "dist R h \<le> dist R ?h" using geo l unfolding ring_geo_def by blast+
    then show ?thesis using d [of h] dh by linarith
  qed
  have "0 \<le> s" using le s by linarith
  then show "ring_geo 0 ?R"
    unfolding ring_geo_def rp dr using g(1-3) p s tails last dh by simp
qed

section \<open>Reserving\<close>

lemma wrap_ring_ok:
  assumes inv: "gem_inv g" and geo: "ring_geo 0 (gm_rings g r)" and env: "env_facts r g e"
  shows "\<exists>res. intel_wrap_ring_buffer e r g = Ok res \<and> (\<forall>ret g'. res = Some (ret, g') \<longrightarrow>
     gem_inv g' \<and> ring_geo 0 (gm_rings g' r) \<and> (ret = None \<longrightarrow> rg_tail (gm_rings g' r) = 0))"
proof -
  let ?rem = "rg_size (gm_rings g r) - uint (rg_tail (gm_rings g r))"
  define out where "out = (if rg_space (gm_rings g r) < ?rem then ring_wait_for_space e r ?rem g else Ok (Some (None, g)))"
  have w: "waited r ?rem g out"
    using ring_wait_for_space_ok [OF assms, of ?rem] waited_intro [OF inv geo settled_refl] by (simp add: out_def)
  then obtain res where res: "out = Ok res" by (auto simp: waited_def)
  let ?wrap = "\<lambda>R. let R = R\<lparr>rg_tail := 0\<rparr> in R\<lparr>rg_space := ring_space R\<rparr>"
  have e: "intel_wrap_ring_buffer e r g = bind_outcome out (\<lambda>res. case res of
      Some (None, g) \<Rightarrow> Ok (Some (None, upd_ring r ?wrap g)) | _ \<Rightarrow> Ok res)"
    unfolding intel_wrap_ring_buffer_def Let_def out_def by (rule refl)
  show ?thesis
  proof (cases "\<exists>g1. res = Some (None, g1)")
    case False
    then have "intel_wrap_ring_buffer e r g = Ok res"
      unfolding e res by (auto split: option.split)
    then show ?thesis using w res False by (auto simp: waited_def)
  next
    case True
    then obtain g1 where g1: "res = Some (None, g1)" by blast
    have f: "gem_inv g1" "ring_geo 0 (gm_rings g1 r)" "settled r g g1" "?rem \<le> rg_space (gm_rings g1 r)"
      using w res g1 by (auto simp: waited_def)
    let ?R = "gm_rings g1 r"
    have tail: "rg_tail ?R = rg_tail (gm_rings g r)" using f(3) by (simp add: settled_def)
    have sz: "rg_size (gm_rings g r) = 131072" "pos_ok (rg_tail ?R)" "rg_size ?R = 131072" "pos_ok (rg_head ?R AND HEAD_ADDR)"
      using geo f(2) by (simp_all add: ring_geo_def)
    have u: "uint (0 :: u32) = (uint (rg_tail ?R) + ?rem) mod 131072" using sz tail by simp
    let ?s = "131008 - dist ?R (rg_head ?R AND HEAD_ADDR) - ?rem"
    note sh = shift_geo [OF f(2) _ _ u _ refl]
    have rem: "0 \<le> ?rem" "?rem \<le> rg_space ?R + 0" using sz tail f(4) by (simp_all add: pos_ok_def)
    have d: "dist (?R\<lparr>rg_tail := 0\<rparr>) = dist (?R\<lparr>rg_tail := 0, rg_space := ?s\<rparr>)" by (rule dist_cong) simp
    have sp: "ring_space (?R\<lparr>rg_tail := 0\<rparr>) = ?s"
      using ring_space_eq [of "?R\<lparr>rg_tail := 0\<rparr>"] sz sh(2) [OF rem] f(2,4) by (simp add: d pos_ok_def ring_geo_def)
    have "ring_geo 0 (?wrap ?R)" using sh(1) [OF rem] by (simp add: Let_def sp)
    moreover have "gem_inv (upd_ring r ?wrap g1)" using f(1) gem_inv_cong(1) [of "upd_ring r ?wrap g1" g1] by (simp add: Let_def)
    ultimately show ?thesis unfolding e res g1 by (simp add: Let_def)
  qed
qed

text \<open>Taking a fresh number, away from the wrap of the counter.\<close>

lemma geo_cong:
  assumes "rg_size R' = rg_size R" "rg_effective_size R' = rg_effective_size R" "rg_tail R' = rg_tail R"
    "rg_head R' = rg_head R" "rg_space R' = rg_space R" "rg_last_retired_head R' = rg_last_retired_head R"
    "rg_requests R' = rg_requests R"
  shows "ring_geo n R' = ring_geo n R"
proof -
  have "retired_pos R' = retired_pos R" using assms by (simp add: retired_pos_def split: option.split)
  then show ?thesis
    unfolding ring_geo_def by (simp add: assms dist_cong [OF assms(3)] tails_ok_cong [OF assms(3)])
qed

lemma alloc_no_wrap:
  assumes "gem_inv g" "room g 2" "wrap_ok we" "gm_next_seqno g \<noteq> 0" "ring_geo 0 (gm_rings g r)"
  shows "\<exists>g1. intel_ring_alloc_seqno (fst we) (snd we) r g = Ok (None, g1) \<and> gem_inv g1 \<and> ring_geo 0 (gm_rings g1 r)"
proof (cases "rg_olr (gm_rings g r) = 0")
  case True
  let ?g = "upd_ring r (\<lambda>R. R\<lparr>rg_olr := gm_next_seqno g\<rparr>) (g\<lparr>gm_next_seqno := gm_next_seqno g + 1\<rparr>)"
  have "intel_ring_alloc_seqno (fst we) (snd we) r g = Ok (None, ?g)"
    using True assms(4) by (simp add: intel_ring_alloc_seqno_def i915_gem_get_seqno_def)
  moreover have "ring_geo 0 (gm_rings ?g r) = ring_geo 0 (gm_rings g r)" by (rule geo_cong) simp_all
  moreover have "gem_inv ?g" using alloc_seqno_inv [OF assms(1-3), of r] calculation(1) by auto
  ultimately show ?thesis using assms(5) by blast
qed (use assms in \<open>simp add: intel_ring_alloc_seqno_def\<close>)

text \<open>A reservation, and the writing of the reserved words.\<close>

lemma reserve_geo:
  assumes "ring_geo 0 R" "0 \<le> n" "n \<le> rg_space R"
  shows "ring_geo n (R\<lparr>rg_space := rg_space R - n\<rparr>)"
proof -
  let ?R = "R\<lparr>rg_space := rg_space R - n\<rparr>"
  have "dist ?R = dist R" "tails_ok ?R = tails_ok R" by (rule dist_cong tails_ok_cong; simp)+
  moreover have "retired_pos ?R = retired_pos R" by (simp add: retired_pos_def split: option.split)
  ultimately show ?thesis using assms unfolding ring_geo_def by simp
qed

lemma emit_tail:
  "gm_rings ((intel_ring_emit r ^^ k) g) r = (gm_rings g r)\<lparr>rg_tail := rg_tail (gm_rings g r) + 4 * of_nat k\<rparr>"
  by (induction k) (simp_all add: intel_ring_emit_def algebra_simps)

lemma uint_masked: "uint (x AND 131071 :: u32) = uint x mod 131072"
proof -
  have "(131071 :: int) = mask 17" by (simp add: mask_eq_exp_minus_1)
  then have "uint x AND 131071 = take_bit 17 (uint x)" by (simp only: take_bit_eq_mask)
  then show ?thesis by (simp add: uint_and take_bit_eq_mod)
qed

lemma written_geo:
  assumes "ring_geo (4 * int k) (gm_rings g r)"
  shows "ring_geo 0 (gm_rings (intel_ring_advance r ((intel_ring_emit r ^^ k) g)) r)"
proof -
  let ?R = "gm_rings g r" and ?n = "4 * int k"
  let ?t = "(rg_tail ?R + 4 * of_nat k) AND 131071"
  have b: "?n \<le> 131008" "uint (rg_tail ?R) < 131072" "4 dvd uint (rg_tail ?R)" "rg_size ?R = 131072"
    using assms dist_bounds [of ?R "rg_head ?R AND HEAD_ADDR"] by (simp_all add: ring_geo_def pos_ok_def)
  have "uint (rg_tail ?R + 4 * of_nat k) = uint (rg_tail ?R) + ?n"
  proof -
    have "rg_tail ?R + 4 * of_nat k = word_of_int (uint (rg_tail ?R) + ?n)" by simp
    then have "uint (rg_tail ?R + 4 * of_nat k) = (uint (rg_tail ?R) + ?n) mod 2 ^ 32"
      by (simp only: uint_word_of_int) simp
    then show ?thesis using b uint_ge_0 [of "rg_tail ?R"] by (simp add: mod_pos_pos_trivial)
  qed
  then have u: "uint ?t = (uint (rg_tail ?R) + ?n) mod 131072" by (simp add: uint_masked)
  then have d: "4 dvd uint ?t" using b(3) by (simp add: dvd_mod)
  let ?s = "131008 - dist ?R (rg_head ?R AND HEAD_ADDR) - ?n"
  have s: "rg_space ?R = ?s" using assms by (simp add: ring_geo_def)
  have "ring_geo 0 (?R\<lparr>rg_tail := ?t, rg_space := ?s\<rparr>)"
    by (rule shift_geo(1) [OF assms _ _ u d refl]) (use assms s in \<open>simp_all add: ring_geo_def\<close>)
  moreover have "?R\<lparr>rg_tail := ?t, rg_space := ?s\<rparr> = ?R\<lparr>rg_tail := ?t\<rparr>" using s by simp
  moreover have "gm_rings (intel_ring_advance r ((intel_ring_emit r ^^ k) g)) r = ?R\<lparr>rg_tail := ?t\<rparr>"
    using b(4) by (simp add: intel_ring_advance_def emit_tail)
  ultimately show ?thesis by simp
qed

text \<open>The reserved bytes are no bytes between the head and the tail.\<close>

lemma reserved_disjoint:
  assumes "ring_geo n R" "0 \<le> i" "i < n" "0 \<le> j" "j < dist R (rg_head R AND HEAD_ADDR)"
  shows "(uint (rg_head R AND HEAD_ADDR) + j) mod 131072 \<noteq> (uint (rg_tail R) + i) mod 131072"
proof
  let ?h = "uint (rg_head R AND HEAD_ADDR)" and ?t = "uint (rg_tail R)" and ?d = "dist R (rg_head R AND HEAD_ADDR)"
  assume e: "(?h + j) mod 131072 = (?t + i) mod 131072"
  have "(?t - ?h + (i - j)) mod 131072 = ((?t + i) - (?h + j)) mod 131072" by (simp add: algebra_simps)
  also have "\<dots> = 0" using mod_diff_cong [OF e [symmetric] refl, of "?h + j"] by simp
  finally have "(?d + (i - j)) mod 131072 = 0" by (simp add: dist_def mod_simps)
  moreover have "0 < ?d + (i - j)" "?d + (i - j) < 131072"
    using assms by (simp_all add: ring_geo_def)
  ultimately show False by (simp add: mod_pos_pos_trivial)
qed

lemma ring_begin_ok:
  assumes inv: "gem_inv g" "room g 2" "wrap_ok we" "gm_next_seqno g \<noteq> 0" and geo: "ring_geo 0 (gm_rings g r)"
    and num: "0 \<le> num"
    and env1: "\<And>g1. intel_ring_alloc_seqno (fst we) (snd we) r g = Ok (None, g1) \<Longrightarrow> space_env_ok r g1 e1"
    and env2: "\<And>g1 g2. intel_ring_alloc_seqno (fst we) (snd we) r g = Ok (None, g1) \<Longrightarrow>
       (if rg_effective_size (gm_rings g1 r) < uint (rg_tail (gm_rings g1 r)) + 4 * num
        then intel_wrap_ring_buffer e1 r g1 else Ok (Some (None, g1))) = Ok (Some (None, g2)) \<Longrightarrow> space_env_ok r g2 e2"
  shows "\<exists>res. intel_ring_begin w we e1 e2 r num g = Ok res \<and> (\<forall>ret g'. res = Some (ret, g') \<longrightarrow> gem_inv g'
     \<and> (ret = None \<longrightarrow> ring_geo (4 * num) (gm_rings g' r) \<and> uint (rg_tail (gm_rings g' r)) + 4 * num \<le> 131072))"
proof (cases "i915_gem_check_wedge (po_wedged w) (po_recovered w) (po_interruptible w)")
  case (Some err)
  then show ?thesis using inv by (simp add: intel_ring_begin_def)
next
  case None
  let ?n = "4 * num"
  obtain g1 where g1: "intel_ring_alloc_seqno (fst we) (snd we) r g = Ok (None, g1)" "gem_inv g1" "ring_geo 0 (gm_rings g1 r)"
    using alloc_no_wrap [OF inv geo] by blast
  define out where "out = (if rg_effective_size (gm_rings g1 r) < uint (rg_tail (gm_rings g1 r)) + ?n
      then intel_wrap_ring_buffer e1 r g1 else Ok (Some (None, g1)))"
  define rest where "rest = (\<lambda>res. case res of
     Some (None, g) \<Rightarrow> bind_outcome (if rg_space (gm_rings g r) < ?n then ring_wait_for_space e2 r ?n g else Ok (Some (None, g)))
        (\<lambda>res. case res of Some (None, g) \<Rightarrow> Ok (Some (None, upd_ring r (\<lambda>R. R\<lparr>rg_space := rg_space R - ?n\<rparr>) g)) | _ \<Rightarrow> Ok res)
   | _ \<Rightarrow> Ok res)"
  have e: "intel_ring_begin w we e1 e2 r num g = bind_outcome out rest"
    by (simp add: intel_ring_begin_def Let_def None g1(1) out_def rest_def)
  have "\<exists>res. out = Ok res \<and> (\<forall>ret g'. res = Some (ret, g') \<longrightarrow> gem_inv g' \<and> ring_geo 0 (gm_rings g' r)
      \<and> (ret = None \<longrightarrow> uint (rg_tail (gm_rings g' r)) = 0 \<or> uint (rg_tail (gm_rings g' r)) + ?n \<le> 131072))"
  proof (cases "rg_effective_size (gm_rings g1 r) < uint (rg_tail (gm_rings g1 r)) + ?n")
    case True
    then have "out = intel_wrap_ring_buffer e1 r g1" by (simp add: out_def)
    then show ?thesis
      using wrap_ring_ok [OF g1(2,3) env_facts_start [OF env1 [OF g1(1)] g1(3)]] by fastforce
  next
    case False
    then have "out = Ok (Some (None, g1))" by (simp add: out_def)
    moreover have "uint (rg_tail (gm_rings g1 r)) + ?n \<le> 131072" using False g1(3) by (auto simp: ring_geo_def)
    ultimately show ?thesis using g1 by auto
  qed
  then obtain res where res: "out = Ok res" and after: "\<And>ret g'. res = Some (ret, g') \<Longrightarrow> gem_inv g' \<and> ring_geo 0 (gm_rings g' r)
      \<and> (ret = None \<longrightarrow> uint (rg_tail (gm_rings g' r)) = 0 \<or> uint (rg_tail (gm_rings g' r)) + ?n \<le> 131072)" by blast
  show ?thesis
  proof (cases "\<exists>g2. res = Some (None, g2)")
    case False
    then have "rest res = Ok res" by (auto simp: rest_def split: option.split)
    then show ?thesis using e res after False by auto
  next
    case True
    then obtain g2 where g2: "res = Some (None, g2)" by blast
    note a2 = after [OF g2]
    have env: "env_facts r g2 e2"
      using env2 [OF g1(1)] res g2 a2 by (intro env_facts_start) (auto simp: out_def)
    define out2 where "out2 = (if rg_space (gm_rings g2 r) < ?n then ring_wait_for_space e2 r ?n g2 else Ok (Some (None, g2)))"
    have w2: "waited r ?n g2 out2"
      using ring_wait_for_space_ok [OF _ _ env, of ?n] a2 waited_intro [of g2 r g2 None ?n] settled_refl [of r g2]
      by (simp add: out2_def)
    then obtain res2 where res2: "out2 = Ok res2" by (auto simp: waited_def)
    have e2: "intel_ring_begin w we e1 e2 r num g = (case res2 of
        Some (None, g) \<Rightarrow> Ok (Some (None, upd_ring r (\<lambda>R. R\<lparr>rg_space := rg_space R - ?n\<rparr>) g)) | _ \<Rightarrow> Ok res2)"
      unfolding e res bind_outcome.simps(1) rest_def g2 option.case prod.case out2_def [symmetric] res2 by (rule refl)
    show ?thesis
    proof (cases "\<exists>g3. res2 = Some (None, g3)")
      case False
      then have "intel_ring_begin w we e1 e2 r num g = Ok res2" unfolding e2 by (auto split: option.split)
      then show ?thesis using w2 res2 False by (auto simp: waited_def)
    next
      case True
      then obtain g3 where g3: "res2 = Some (None, g3)" by blast
      have f: "gem_inv g3" "ring_geo 0 (gm_rings g3 r)" "settled r g2 g3" "?n \<le> rg_space (gm_rings g3 r)"
        using w2 res2 g3 by (auto simp: waited_def)
      let ?g = "upd_ring r (\<lambda>R. R\<lparr>rg_space := rg_space R - ?n\<rparr>) g3"
      have "gem_inv ?g" using f(1) gem_inv_cong(1) [of ?g g3] by simp
      moreover have "ring_geo ?n (gm_rings ?g r)" using reserve_geo [OF f(2) _ f(4)] num by simp
      moreover have "uint (rg_tail (gm_rings ?g r)) + ?n \<le> 131072"
      proof -
        have "rg_space (gm_rings g3 r) \<le> 131008"
          using f(2) dist_bounds [of "gm_rings g3 r" "rg_head (gm_rings g3 r) AND HEAD_ADDR"] by (simp add: ring_geo_def)
        then show ?thesis using a2 f(3,4) by (auto simp: settled_def)
      qed
      ultimately show ?thesis unfolding e2 g3 by simp
    qed
  qed
qed

end
