(* ===== verification/I915_Ring_Claims.thy ===== *)
theory I915_Ring_Claims
  imports I915_Ring_Proofs I915_Gem_Claims
begin

text \<open>
  The property of a reservation in a ring buffer, with its witness, and the positions a started
  ring begins with.
\<close>

unbundle bit_operations_syntax

lemma ring_started_geo:
  "rg_requests R = [] \<Longrightarrow> ring_geo 0 (ring_started 0 0 (ring_sizes i830 R))"
  by (simp add: ring_geo_def ring_started_def ring_sizes_def ring_space_def dist_def pos_ok_def tails_ok_def
      I915_RING_FREE_SPACE_def Let_def)

text \<open>C19: Reserving room in a ring buffer, outside the wrap of the sequence counter, never panics, and
  when it succeeds the reserved bytes lie inside the buffer and none of them is one of the bytes
  between the known head of the GPU and the tail, however the room was found: by retiring, by
  waiting for a request, by polling the head, or by wrapping the tail.  After the reserved words
  are written and the tail is advanced, the cached space is again the distance to the known head
  less the reserve, and every recorded position lies between them.\<close>

theorem intel_ring_begin_reserves:
  assumes "gem_inv g" and "room g 2" and "wrap_ok we" and "gm_next_seqno g \<noteq> 0"
    and "ring_geo 0 (gm_rings g r)" and "0 \<le> num"
    and "\<forall>g1. intel_ring_alloc_seqno (fst we) (snd we) r g = Ok (None, g1) \<longrightarrow> space_env_ok r g1 e1"
    and "\<forall>g1 g2. intel_ring_alloc_seqno (fst we) (snd we) r g = Ok (None, g1)
         \<and> (if rg_effective_size (gm_rings g1 r) < uint (rg_tail (gm_rings g1 r)) + 4 * num
            then intel_wrap_ring_buffer e1 r g1 else Ok (Some (None, g1))) = Ok (Some (None, g2))
         \<longrightarrow> space_env_ok r g2 e2"
  shows "\<exists>res. intel_ring_begin w we e1 e2 r num g = Ok res \<and> (\<forall>ret g'. res = Some (ret, g') \<longrightarrow> gem_inv g'
     \<and> (ret = None \<longrightarrow>
          uint (rg_tail (gm_rings g' r)) + 4 * num \<le> 131072
        \<and> (\<forall>i j. 0 \<le> i \<and> i < 4 * num \<and> 0 \<le> j
             \<and> j < (uint (rg_tail (gm_rings g' r)) - uint (rg_head (gm_rings g' r) AND HEAD_ADDR)) mod 131072
             \<longrightarrow> (uint (rg_head (gm_rings g' r) AND HEAD_ADDR) + j) mod 131072 \<noteq> uint (rg_tail (gm_rings g' r)) + i)
        \<and> ring_geo 0 (gm_rings (intel_ring_advance r ((intel_ring_emit r ^^ nat num) g')) r)))"
proof -
  obtain res where res: "intel_ring_begin w we e1 e2 r num g = Ok res"
    and ok: "\<forall>ret g'. res = Some (ret, g') \<longrightarrow> gem_inv g'
     \<and> (ret = None \<longrightarrow> ring_geo (4 * num) (gm_rings g' r) \<and> uint (rg_tail (gm_rings g' r)) + 4 * num \<le> 131072)"
    using ring_begin_ok [OF assms(1-6), of e1 e2 w] assms(7,8) by blast
  have "(uint (rg_head R AND HEAD_ADDR) + j) mod 131072 \<noteq> uint (rg_tail R) + i"
    if "ring_geo (4 * num) R" "uint (rg_tail R) + 4 * num \<le> 131072" "0 \<le> i" "i < 4 * num" "0 \<le> j"
      "j < (uint (rg_tail R) - uint (rg_head R AND HEAD_ADDR)) mod 131072" for R i j
    using reserved_disjoint [of "4 * num" R i j] that by (simp add: dist_def mod_pos_pos_trivial)
  moreover have "ring_geo 0 (gm_rings (intel_ring_advance r ((intel_ring_emit r ^^ nat num) g')) r)"
    if "ring_geo (4 * num) (gm_rings g' r)" for g'
    using written_geo [of "nat num" g' r] that assms(6) by simp
  ultimately show ?thesis using res ok by blast
qed

definition calm :: space_env where
  "calm = \<lparr>se_hw = 6, se_wait = \<lparr>we_wedged = False, we_recovered = True, we_interruptible = True,
     we_emission = emit_ok, we_reported = 6, we_irq_get = True, we_rounds = [], we_retire = 6\<rparr>, se_poll = []\<rparr>"

definition not_wedged :: poll_round where
  "not_wedged = \<lparr>po_head = 0, po_wedged = False, po_recovered = True, po_interruptible = True\<rparr>"

text \<open>Two words on a fresh ring.\<close>

theorem intel_ring_begin_reserves_witness:
  "\<exists>g'. intel_ring_begin not_wedged quiet calm calm 0 2 (gem_start 7) = Ok (Some (None, g'))
     \<and> uint (rg_tail (gm_rings g' 0)) + 8 \<le> 131072"
proof -
  let ?g1 = "upd_ring 0 (\<lambda>R. R\<lparr>rg_olr := 7\<rparr>) (advance 1 (gem_start 7))"
  have geo: "ring_geo 0 (gm_rings (gem_start 7) 0)"
    by (simp add: gem_start_def idle_ring_def ring_geo_def dist_def pos_ok_def tails_ok_def)
  have nz: "gm_next_seqno (gem_start 7) \<noteq> 0" by (simp add: gem_start_def)
  have env: "space_env_ok 0 ?g1 calm"
    by (simp add: space_env_ok_def reports_ok_def calm_def age_def i915_seqno_passed_def gem_start_def idle_ring_def)
  have plain: "rg_effective_size (gm_rings ?g1 0) = 131072" "rg_tail (gm_rings ?g1 0) = 0" "rg_space (gm_rings ?g1 0) = 131008"
    by (simp_all add: gem_start_def idle_ring_def)
  have "\<exists>res. intel_ring_begin not_wedged quiet calm calm 0 2 (gem_start 7) = Ok res \<and> (\<forall>ret g'. res = Some (ret, g') \<longrightarrow> gem_inv g'
     \<and> (ret = None \<longrightarrow> uint (rg_tail (gm_rings g' 0)) + 4 * 2 \<le> 131072
        \<and> (\<forall>i j. 0 \<le> i \<and> i < 4 * 2 \<and> 0 \<le> j
             \<and> j < (uint (rg_tail (gm_rings g' 0)) - uint (rg_head (gm_rings g' 0) AND HEAD_ADDR)) mod 131072
             \<longrightarrow> (uint (rg_head (gm_rings g' 0) AND HEAD_ADDR) + j) mod 131072 \<noteq> uint (rg_tail (gm_rings g' 0)) + i)
        \<and> ring_geo 0 (gm_rings (intel_ring_advance 0 ((intel_ring_emit 0 ^^ nat 2) g')) 0)))"
    by (rule intel_ring_begin_reserves [OF gem_start_inv gem_start_room quiet_ok nz geo])
      (use env plain in \<open>auto simp: alloc_7\<close>)
  moreover have "\<exists>g'. intel_ring_begin not_wedged quiet calm calm 0 2 (gem_start 7) = Ok (Some (None, g'))"
    using plain by (simp add: intel_ring_begin_def not_wedged_def i915_gem_check_wedge_def alloc_7)
  ultimately show ?thesis by auto
qed

end
