(* ===== verification/I915_Tiling.thy ===== *)
theory I915_Tiling
  imports C_Int
begin

text \<open>
  Tiling of objects, \<^verbatim>\<open>drm/i915/i915_gem_tiling.c\<close>, and what the fence registers of
  \<^verbatim>\<open>drm/i915/i915_gem.c\<close> hold for an object: sizes and alignments, the acceptance of a stride, the
  swizzling of bit 6, and the values written to the registers of each hardware generation.
\<close>

unbundle bit_operations_syntax

text \<open>The facts about the device that the code asks for.\<close>

record i915_dev =
  dv_gen :: nat
  dv_is_g33 :: bool
  dv_is_i915g :: bool
  dv_is_i945 :: bool
  dv_mobile :: bool
  dv_valleyview :: bool
  dv_modeset :: bool

definition HAS_128_BYTE_Y_TILING :: "i915_dev \<Rightarrow> bool" where
  "HAS_128_BYTE_Y_TILING dev \<longleftrightarrow> dv_gen dev \<noteq> 2 \<and> \<not> dv_is_i915g dev"

definition I915_TILING_NONE :: u32 where "I915_TILING_NONE = 0"
definition I915_TILING_X :: u32 where "I915_TILING_X = 1"
definition I915_TILING_Y :: u32 where "I915_TILING_Y = 2"

lemmas tiling_modes = I915_TILING_NONE_def I915_TILING_X_def I915_TILING_Y_def

section \<open>Swizzling\<close>

definition I915_BIT_6_SWIZZLE_NONE :: u32 where "I915_BIT_6_SWIZZLE_NONE = 0"
definition I915_BIT_6_SWIZZLE_9 :: u32 where "I915_BIT_6_SWIZZLE_9 = 1"
definition I915_BIT_6_SWIZZLE_9_10 :: u32 where "I915_BIT_6_SWIZZLE_9_10 = 2"
definition I915_BIT_6_SWIZZLE_9_11 :: u32 where "I915_BIT_6_SWIZZLE_9_11 = 3"
definition I915_BIT_6_SWIZZLE_9_10_11 :: u32 where "I915_BIT_6_SWIZZLE_9_10_11 = 4"
definition I915_BIT_6_SWIZZLE_UNKNOWN :: u32 where "I915_BIT_6_SWIZZLE_UNKNOWN = 5"
definition I915_BIT_6_SWIZZLE_9_17 :: u32 where "I915_BIT_6_SWIZZLE_9_17 = 6"
definition I915_BIT_6_SWIZZLE_9_10_17 :: u32 where "I915_BIT_6_SWIZZLE_9_10_17 = 7"

lemmas swizzles = I915_BIT_6_SWIZZLE_NONE_def I915_BIT_6_SWIZZLE_9_def I915_BIT_6_SWIZZLE_9_10_def
  I915_BIT_6_SWIZZLE_9_11_def I915_BIT_6_SWIZZLE_9_10_11_def I915_BIT_6_SWIZZLE_UNKNOWN_def
  I915_BIT_6_SWIZZLE_9_17_def I915_BIT_6_SWIZZLE_9_10_17_def

text \<open>The memory controller registers the detection reads.\<close>

record mch_regs =
  mc_dimm_c0 :: u32
  mc_dimm_c1 :: u32
  mc_dcc :: u32
  mc_c0drb3 :: u16
  mc_c1drb3 :: u16

definition DIMM_SIZES :: u32 where "DIMM_SIZES = 0xffff"
definition DCC_ADDRESSING_MODE_MASK :: u32 where "DCC_ADDRESSING_MODE_MASK = 3"
definition DCC_CHANNEL_XOR_DISABLE :: u32 where "DCC_CHANNEL_XOR_DISABLE = 0x400"
definition DCC_CHANNEL_XOR_BIT_17 :: u32 where "DCC_CHANNEL_XOR_BIT_17 = 0x200"

definition i915_gem_detect_bit_6_swizzle :: "i915_dev \<Rightarrow> mch_regs \<Rightarrow> u32 \<times> u32" where
  "i915_gem_detect_bit_6_swizzle dev mc =
     (let none = (I915_BIT_6_SWIZZLE_NONE, I915_BIT_6_SWIZZLE_NONE);
          base = (I915_BIT_6_SWIZZLE_9_10, I915_BIT_6_SWIZZLE_9);
          unknown = (I915_BIT_6_SWIZZLE_UNKNOWN, I915_BIT_6_SWIZZLE_UNKNOWN)
      in if dv_valleyview dev then none
         else if 6 \<le> dv_gen dev then
           (if mc_dimm_c0 mc AND DIMM_SIZES = mc_dimm_c1 mc AND DIMM_SIZES then base else none)
         else if dv_gen dev = 5 then base
         else if dv_gen dev = 2 then none
         else if dv_mobile dev \<or> dv_gen dev = 3 \<and> \<not> dv_is_g33 dev then
           (let dcc = mc_dcc mc; mode = dcc AND DCC_ADDRESSING_MODE_MASK
            in if dcc = 0xffffffff then unknown
               else if mode = 0 \<or> mode = 1 then none
               else if mode = 2 then
                 (if dcc AND DCC_CHANNEL_XOR_DISABLE \<noteq> 0 then base
                  else if dcc AND DCC_CHANNEL_XOR_BIT_17 = 0
                  then (I915_BIT_6_SWIZZLE_9_10_11, I915_BIT_6_SWIZZLE_9_11)
                  else (I915_BIT_6_SWIZZLE_9_10_17, I915_BIT_6_SWIZZLE_9_17))
               else unknown)
         else if mc_c0drb3 mc \<noteq> mc_c1drb3 mc then none
         else base)"

text \<open>Swizzling by bit 17 is hidden from user space.\<close>

definition hide_bit_17 :: "u32 \<Rightarrow> u32" where
  "hide_bit_17 s = (let s = (if s = I915_BIT_6_SWIZZLE_9_17 then I915_BIT_6_SWIZZLE_9 else s)
                    in if s = I915_BIT_6_SWIZZLE_9_10_17 then I915_BIT_6_SWIZZLE_9_10 else s)"

section \<open>Sizes\<close>

text \<open>The doubling loop; it does not end when the size cannot be reached in 32 bits.\<close>

partial_function (option) pot_loop :: "u32 \<Rightarrow> u64 \<Rightarrow> u32 option" where
  "pot_loop s limit = (if ucast s < limit then pot_loop (push_bit 1 s) limit else Some s)"

definition fence_unit :: "i915_dev \<Rightarrow> u32" where
  "fence_unit dev = (if dv_gen dev = 3 then 1024 * 1024 else 512 * 1024)"

definition i915_gem_get_gtt_size :: "i915_dev \<Rightarrow> u32 \<Rightarrow> u32 \<Rightarrow> u32 option" where
  "i915_gem_get_gtt_size dev sz tiling =
     (if 4 \<le> dv_gen dev \<or> tiling = I915_TILING_NONE then Some sz
      else pot_loop (fence_unit dev) (ucast sz))"

definition i915_gem_get_gtt_alignment :: "i915_dev \<Rightarrow> u32 \<Rightarrow> u32 \<Rightarrow> u32 option" where
  "i915_gem_get_gtt_alignment dev sz tiling =
     (if 4 \<le> dv_gen dev \<or> tiling = I915_TILING_NONE then Some 4096
      else i915_gem_get_gtt_size dev sz tiling)"

definition i915_gem_get_unfenced_gtt_alignment :: "i915_dev \<Rightarrow> u32 \<Rightarrow> u32 \<Rightarrow> u32 option" where
  "i915_gem_get_unfenced_gtt_alignment dev sz tiling =
     (if 4 \<le> dv_gen dev \<or> dv_is_g33 dev \<or> tiling = I915_TILING_NONE then Some 4096
      else i915_gem_get_gtt_size dev sz tiling)"

section \<open>Acceptance of a stride\<close>

definition I965_FENCE_MAX_PITCH_VAL :: int where "I965_FENCE_MAX_PITCH_VAL = 0x400"
definition I830_FENCE_MAX_SIZE_VAL :: int where "I830_FENCE_MAX_SIZE_VAL = 256"

text \<open>Stride and size are \<^verbatim>\<open>int\<close> here, whatever the caller passes.\<close>

definition i915_tiling_ok :: "i915_dev \<Rightarrow> int \<Rightarrow> int \<Rightarrow> u32 \<Rightarrow> bool" where
  "i915_tiling_ok dev stride sz tiling =
     (if tiling = I915_TILING_NONE then True
      else let tile_width = (if dv_gen dev = 2 \<or> tiling = I915_TILING_Y \<and> HAS_128_BYTE_Y_TILING dev
                             then 128 else 512 :: int)
           in if 4 \<le> dv_gen dev then
                (if I965_FENCE_MAX_PITCH_VAL < stride sdiv 128 then False
                 else stride AND (tile_width - 1) = 0)
              else if 8192 < stride then False
              else if dv_gen dev = 3 \<and> I830_FENCE_MAX_SIZE_VAL * 2 ^ 20 < sz then False
              else if dv_gen dev \<noteq> 3 \<and> I830_FENCE_MAX_SIZE_VAL * 2 ^ 19 < sz then False
              else if stride < tile_width then False
              else stride AND (stride - 1) = 0)"

section \<open>Fence register values\<close>

definition I830_FENCE_START_MASK :: u32 where "I830_FENCE_START_MASK = 0x07f80000"
definition I915_FENCE_START_MASK :: u32 where "I915_FENCE_START_MASK = 0x0ff00000"

definition ffs :: "u32 \<Rightarrow> int" where
  "ffs w = (case find (bit w) [0..<32] of None \<Rightarrow> 0 | Some i \<Rightarrow> int i + 1)"

definition sandybridge_fence_value :: "u32 \<Rightarrow> u32 \<Rightarrow> u32 \<Rightarrow> u32 \<Rightarrow> u64" where
  "sandybridge_fence_value offset sz stride tiling =
     push_bit 32 (ucast ((offset + sz - 4096) AND 0xfffff000))
     OR ucast (offset AND 0xfffff000)
     OR push_bit 32 (ucast (stride div 128 - 1))
     OR (if tiling = I915_TILING_Y then 2 else 0) OR 1"

definition i965_fence_value :: "u32 \<Rightarrow> u32 \<Rightarrow> u32 \<Rightarrow> u32 \<Rightarrow> u64" where
  "i965_fence_value offset sz stride tiling =
     push_bit 32 (ucast ((offset + sz - 4096) AND 0xfffff000))
     OR ucast (offset AND 0xfffff000)
     OR ucast (push_bit 2 (stride div 128 - 1))
     OR (if tiling = I915_TILING_Y then 2 else 0) OR 1"

definition i915_fence_value :: "i915_dev \<Rightarrow> u32 \<Rightarrow> u32 \<Rightarrow> u32 \<Rightarrow> u32 \<Rightarrow> u32" where
  "i915_fence_value dev offset sz stride tiling =
     (let tile_width = (if tiling = I915_TILING_Y \<and> HAS_128_BYTE_Y_TILING dev then 128 else 512);
          pitch_val = ffs (stride div tile_width) - 1
      in offset OR (if tiling = I915_TILING_Y then 0x1000 else 0)
         OR word_of_int ((ffs (drop_bit 20 sz) - 1) * 256)
         OR word_of_int (pitch_val * 16) OR 1)"

definition i830_fence_value :: "u32 \<Rightarrow> u32 \<Rightarrow> u32 \<Rightarrow> u32 \<Rightarrow> u32" where
  "i830_fence_value offset sz stride tiling =
     (let pitch_val = ffs (stride div 128) - 1
      in offset OR (if tiling = I915_TILING_Y then 0x1000 else 0)
         OR word_of_int ((ffs (drop_bit 19 sz) - 1) * 256)
         OR word_of_int (pitch_val * 16) OR 1)"

end
