(* ===== verification/I915_Tiling_Claims.thy ===== *)
theory I915_Tiling_Claims
  imports I915_Tiling
begin

text \<open>
  The properties of the sizes, strides and register values of tiling: when the doubling loop ends
  and with what, which strides are accepted, and that the value of a register of generation 4 and
  later decodes to the parameters it was made from.
\<close>

unbundle bit_operations_syntax

section \<open>The doubling loop\<close>

lemma uint_double: "uint s < 2 ^ 31 \<Longrightarrow> uint (s * 2 :: u32) = 2 * uint s"
  by (simp add: uint_word_ariths take_bit_eq_mod)

lemma pot_loop_step: "ucast s < limit \<Longrightarrow> pot_loop s limit = pot_loop (s * 2) limit"
  by (subst pot_loop.simps) simp

lemma pot_loop_stop: "\<not> ucast s < limit \<Longrightarrow> pot_loop s limit = Some s"
  by (subst pot_loop.simps) simp

lemma ucast_less_u64: "(ucast (s::u32) < (limit::u64)) = (uint s < uint limit)"
  by (simp add: word_less_def uint_up_ucast is_up)

text \<open>From below the limit the loop ends with the least doubling that reaches it.\<close>

lemma pot_loop_returns:
  assumes "0 < uint s" and "uint s = u * 2 ^ k" and "k \<le> 31" and "uint limit \<le> u * 2 ^ K" and "k \<le> K" and "u * 2 ^ K < 2 ^ 32"
  shows "\<exists>j y. pot_loop s limit = Some y \<and> uint y = uint s * 2 ^ j \<and> uint limit \<le> uint y
    \<and> (\<forall>i < j. uint s * 2 ^ i < uint limit)"
  using assms
proof (induction "K - k" arbitrary: s k)
  case 0
  then have "pot_loop s limit = Some s" by (intro pot_loop_stop) (simp add: ucast_less_u64)
  then show ?case using 0 by (intro exI [of _ 0] exI [of _ s]) auto
next
  case (Suc n)
  show ?case
  proof (cases "ucast s < limit")
    case True
    have u0: "0 < u" using Suc.prems(1,2) by (metis zero_less_mult_pos2 zero_less_numeral zero_less_power)
    have "u * 2 ^ Suc k \<le> u * 2 ^ K" using Suc.hyps(2) u0 by (intro mult_left_mono power_increasing) auto
    then have lt: "uint s < 2 ^ 31" using Suc.prems(2,6) by simp
    have d: "uint (s * 2) = u * 2 ^ Suc k" using uint_double [OF lt] Suc.prems(2) by simp
    have "k < K" using Suc.hyps(2) by simp
    moreover have "Suc k \<le> 31"
    proof (rule ccontr)
      assume "\<not> Suc k \<le> 31"
      then have "k = 31" using Suc.prems(3) by simp
      then show False using lt u0 Suc.prems(2) by simp
    qed
    ultimately have "\<exists>j y. pot_loop (s * 2) limit = Some y \<and> uint y = uint (s * 2) * 2 ^ j \<and> uint limit \<le> uint y
        \<and> (\<forall>i < j. uint (s * 2) * 2 ^ i < uint limit)"
      by (intro Suc.hyps(1) [of "Suc k"]) (use Suc.hyps(2) Suc.prems(4,6) d u0 in \<open>simp_all add: Suc_le_eq\<close>)
    then obtain j y where y: "pot_loop (s * 2) limit = Some y" "uint y = uint (s * 2) * 2 ^ j"
      "uint limit \<le> uint y" "\<forall>i < j. uint (s * 2) * 2 ^ i < uint limit" by blast
    have "uint s * 2 ^ i < uint limit" if "i < Suc j" for i
      using that True y(4) uint_double [OF lt] by (cases i) (auto simp: ucast_less_u64)
    then show ?thesis
      using y(1-3) uint_double [OF lt] pot_loop_step [OF True] by (intro exI [of _ "Suc j"] exI [of _ y]) auto
  next
    case False
    then show ?thesis by (intro exI [of _ 0] exI [of _ s]) (auto simp: pot_loop_stop ucast_less_u64)
  qed
qed

text \<open>What it returns is a shift of its start, so it cannot exceed the largest one.\<close>

lemma pot_loop_result:
  assumes "pot_loop s limit = Some y"
  shows "(\<exists>k. y = push_bit k s) \<and> uint limit \<le> uint y"
proof (rule pot_loop.raw_induct [OF _ assms, where P = "\<lambda>s limit y. (\<exists>k. y = push_bit k s) \<and> uint limit \<le> uint y"])
  fix f :: "u32 \<Rightarrow> u64 \<Rightarrow> u32 option" and s limit y
  assume IH: "\<And>s limit y. f s limit = Some y \<Longrightarrow> (\<exists>k. y = push_bit k s) \<and> uint limit \<le> uint y"
    and y: "(if ucast s < limit then f (push_bit 1 s) limit else Some s) = Some y"
  show "(\<exists>k. y = push_bit k s) \<and> uint limit \<le> uint y"
  proof (cases "ucast s < limit")
    case True
    then have "f (push_bit 1 s) limit = Some y" using y by (simp del: push_bit_Suc)
    from IH [OF this] obtain k where "y = push_bit k (push_bit 1 s)" "uint limit \<le> uint y" by blast
    then show ?thesis by (intro conjI exI [of _ "k + 1"]) (simp_all add: push_bit_push_bit)
  next
    case False
    then show ?thesis using y by (intro conjI exI [of _ 0]) (auto simp: ucast_less_u64)
  qed
qed

lemma uint_pow2: "n < 32 \<Longrightarrow> uint (2 ^ n :: u32) = 2 ^ n"
proof -
  assume n: "n < 32"
  have "uint (2 ^ n :: u32) = uint (word_of_int (2 ^ n) :: u32)" by simp
  also have "\<dots> = 2 ^ n mod 2 ^ 32" by (simp only: uint_word_of_int) simp
  also have "\<dots> = 2 ^ n" using power_strict_increasing [OF n, of "2::int"] by simp
  finally show ?thesis .
qed

lemma uint_push_pow2: "n < 32 \<Longrightarrow> uint (push_bit k (2 ^ n) :: u32) \<le> 2 ^ 31"
proof (cases "n + k < 32")
  case True
  have "(push_bit k (2 ^ n) :: u32) = push_bit (n + k) 1" by (simp add: push_bit_eq_mult power_add mult.commute)
  also have "uint \<dots> = 2 ^ (n + k)" using True by (simp add: push_bit_eq_mult uint_pow2)
  finally show ?thesis using power_increasing [of "n + k" 31 "2::int"] True by simp
next
  case False
  then have "(push_bit k (2 ^ n) :: u32) = 0" by (simp add: push_bit_eq_mult flip: power_add)
  then show ?thesis by simp
qed


text \<open>C22: Before generation 4 the size of the region of a tiled object is the least doubling of the
  fence unit that holds it, and the loop that computes it ends exactly for the sizes up to two
  gigabytes.\<close>

theorem gtt_size_least_power_of_two:
  assumes "dv_gen dev < 4" and "tiling \<noteq> I915_TILING_NONE"
  shows "case i915_gem_get_gtt_size dev sz tiling of
      None \<Rightarrow> 2 ^ 31 < uint sz
    | Some y \<Rightarrow> uint sz \<le> 2 ^ 31
        \<and> (\<exists>j. uint y = uint (fence_unit dev) * 2 ^ j \<and> uint sz \<le> uint y \<and> (\<forall>i < j. uint (fence_unit dev) * 2 ^ i < uint sz))"
proof -
  have eq: "i915_gem_get_gtt_size dev sz tiling = pot_loop (fence_unit dev) (ucast sz)"
    using assms by (simp add: i915_gem_get_gtt_size_def)
  have u: "uint (ucast sz :: u64) = uint sz" by (simp add: uint_up_ucast is_up)
  have "fence_unit dev = 2 ^ (if dv_gen dev = 3 then 20 else 19)" by (simp add: fence_unit_def)
  then obtain n where n: "fence_unit dev = 2 ^ n" "n = 19 \<or> n = 20" by presburger
  then have n32: "n < 32" by auto
  have "uint (fence_unit dev) = 2 ^ n" unfolding n(1) by (rule uint_pow2 [OF n32])
  then have ret: "\<exists>j y. pot_loop (fence_unit dev) (ucast sz) = Some y \<and> uint y = uint (fence_unit dev) * 2 ^ j
      \<and> uint sz \<le> uint y \<and> (\<forall>i < j. uint (fence_unit dev) * 2 ^ i < uint sz)" if "uint sz \<le> 2 ^ 31"
    using pot_loop_returns [of "fence_unit dev" "2 ^ n" 0 "ucast sz" "31 - n"] that n(2) u by auto
  have le: "uint sz \<le> 2 ^ 31" if "pot_loop (fence_unit dev) (ucast sz) = Some z" for z
    using pot_loop_result [OF that] uint_push_pow2 [OF n32] u unfolding n(1) by (metis order_trans)
  show ?thesis
  proof (cases "pot_loop (fence_unit dev) (ucast sz)")
    case None
    then show ?thesis using ret eq by force
  next
    case (Some y)
    then show ?thesis using ret [OF le [OF Some]] le [OF Some] eq by simp
  qed
qed

definition gen3 :: i915_dev where
  "gen3 = \<lparr>dv_gen = 3, dv_is_g33 = False, dv_is_i915g = False, dv_is_i945 = True, dv_mobile = False,
     dv_valleyview = False, dv_modeset = True\<rparr>"

theorem gtt_size_least_power_of_two_witness:
  "\<exists>y. i915_gem_get_gtt_size gen3 0x300000 I915_TILING_X = Some y \<and> 0x300000 \<le> uint y"
  using gtt_size_least_power_of_two [of gen3 I915_TILING_X "0x300000"]
  by (auto simp: gen3_def tiling_modes split: option.splits)

section \<open>Strides\<close>

lemma and_low_bits: "(x::int) AND 127 = x mod 128" "(x::int) AND 511 = x mod 512"
  using take_bit_eq_mask [of 7 x] take_bit_eq_mask [of 9 x] by (simp_all add: mask_eq_exp_minus_1 take_bit_eq_mod)

lemma pitch_in_tiles: "I965_FENCE_MAX_PITCH_VAL < x sdiv 128 \<longleftrightarrow> 128 * 1024 + 128 \<le> x"
  by (cases "0 \<le> x") (auto simp: I965_FENCE_MAX_PITCH_VAL_def signed_divide_int_def sgn_if)

lemma s32i_sint: "s32i (uint (x :: u32)) = sint x"
  by (simp add: s32i_def sint_uint signed_take_bit_eq_take_bit_shift take_bit_eq_mod)

lemma sint_pos: "0 < sint (x :: u32) \<Longrightarrow> uint x = sint x"
proof -
  assume p: "0 < sint x"
  have b: "0 \<le> uint x" "uint x < 2 ^ 32" using uint_lt2p [of x] by simp_all
  have e: "sint x = s32i (uint x)" by (simp add: s32i_sint)
  show ?thesis
  proof (cases "uint x < 2 ^ 31")
    case True
    then show ?thesis using e s32i_id [of "uint x"] b(1) by simp
  next
    case False
    have "(uint x + 2 ^ 31) mod 2 ^ 32 = uint x - 2 ^ 31"
      using mod_pos_geq [of "2 ^ 32" "uint x + 2 ^ 31"] b False by simp
    then show ?thesis using e b p by (simp add: s32i_def)
  qed
qed

lemma tiling_accepted:
  "4 \<le> dv_gen dev \<Longrightarrow> tiling \<noteq> I915_TILING_NONE \<Longrightarrow> i915_tiling_ok dev (s32i (uint (stride :: u32))) sz tiling
      \<longleftrightarrow> (if tiling = I915_TILING_Y \<and> HAS_128_BYTE_Y_TILING dev then 128 else 512) dvd sint stride \<and> sint stride \<le> 128 * 1024"
  unfolding s32i_sint i915_tiling_ok_def
  by (auto simp: pitch_in_tiles and_low_bits dvd_eq_mod_eq_0 HAS_128_BYTE_Y_TILING_def)

text \<open>On generation 4 and later a stride, passed by the caller as an unsigned number and read by the
  check as a signed one, is accepted exactly when it is a multiple of the tile width and at most 128
  KiB as a signed number: zero and the strides with the top bit set are accepted.  A stride of zero
  gives a register whose end address is all ones.\<close>

theorem tiling_ok_accepts:
  assumes "4 \<le> dv_gen dev" and "tiling \<noteq> I915_TILING_NONE"
  shows "(i915_tiling_ok dev (s32i (uint (stride :: u32))) sz tiling
      \<longleftrightarrow> (if tiling = I915_TILING_Y \<and> HAS_128_BYTE_Y_TILING dev then 128 else 512) dvd sint stride \<and> sint stride \<le> 128 * 1024)
    \<and> i915_tiling_ok dev 0 sz tiling
    \<and> drop_bit 32 (sandybridge_fence_value offset len 0 tiling) = 0xffffffff"
proof (intro conjI)
  show "i915_tiling_ok dev (s32i (uint stride)) sz tiling
      \<longleftrightarrow> (if tiling = I915_TILING_Y \<and> HAS_128_BYTE_Y_TILING dev then 128 else 512) dvd sint stride \<and> sint stride \<le> 128 * 1024"
    by (rule tiling_accepted [OF assms])
  show "i915_tiling_ok dev 0 sz tiling"
    using assms by (simp add: i915_tiling_ok_def I965_FENCE_MAX_PITCH_VAL_def)
  show "drop_bit 32 (sandybridge_fence_value offset len 0 tiling) = 0xffffffff"
  proof (rule bit_eqI)
    fix n
    have m: "(0xffffffff :: u64) = mask 32" by (simp add: mask_eq_exp_minus_1)
    show "bit (drop_bit 32 (sandybridge_fence_value offset len 0 tiling)) n \<longleftrightarrow> bit (0xffffffff :: u64) n"
      unfolding m by (auto simp: sandybridge_fence_value_def bit_simps)
  qed
qed

theorem tiling_ok_accepts_witness:
  "i915_tiling_ok (gen3\<lparr>dv_gen := 6\<rparr>) (s32i (uint (0xfffffe00 :: u32))) 4096 I915_TILING_X"
  using tiling_ok_accepts [of "gen3\<lparr>dv_gen := 6\<rparr>" I915_TILING_X "0xfffffe00" 4096]
  by (simp add: gen3_def tiling_modes)

section \<open>Register values\<close>

text \<open>What the hardware reads out of a register of generation 6, and of 4 and 5.\<close>

definition fence_start :: "u64 \<Rightarrow> u32" where "fence_start v = ucast v AND 0xfffff000"
definition fence_end :: "u64 \<Rightarrow> u32" where "fence_end v = (ucast (drop_bit 32 v) AND 0xfffff000) + 4096"
definition snb_fence_pitch :: "u64 \<Rightarrow> u32" where "snb_fence_pitch v = ((ucast (drop_bit 32 v) AND 0xfff) + 1) * 128"
definition i965_fence_pitch :: "u64 \<Rightarrow> u32" where "i965_fence_pitch v = (drop_bit 2 (ucast v AND 0xfff) + 1) * 128"

lemma low_mask: "(0xfffff000 :: u32) = NOT (mask 12)" "(0xfff :: u32) = mask 12"
  by (simp_all add: mask_eq_exp_minus_1)

lemma page_aligned_bit: "x AND 0xfff = 0 \<Longrightarrow> bit (x :: u32) n \<Longrightarrow> 12 \<le> n"
  using bit_take_bit_iff [of 12 x n] by (force simp: low_mask take_bit_eq_mask)

lemma page_aligned_uint: "x AND 0xfff = 0 \<longleftrightarrow> 4096 dvd uint (x :: u32)"
proof -
  have "x AND 0xfff = take_bit 12 x" by (simp add: low_mask take_bit_eq_mask)
  moreover have "uint (take_bit 12 x) = uint x mod 4096" by (simp only: unsigned_take_bit_eq) (simp add: take_bit_eq_mod)
  ultimately show ?thesis by (metis dvd_eq_mod_eq_0 uint_0_iff)
qed

lemma page_aligned_sum: "x AND 0xfff = 0 \<Longrightarrow> y AND 0xfff = 0 \<Longrightarrow> (x + y - 4096 :: u32) AND 0xfff = 0"
  unfolding page_aligned_uint by (simp add: uint_word_ariths dvd_mod_iff mod_simps dvd_mod)

lemma small_bit: "uint (x :: u32) < 2 ^ k \<Longrightarrow> bit x n \<Longrightarrow> n < k"
  using bit_take_bit_iff [of k "uint x" n] bit_imp_le_length [of x n]
  by (simp add: take_bit_int_eq_self bit_uint_iff)

lemma two_bit: "bit (2 :: u64) n \<longleftrightarrow> n = 1"
  using bit_push_bit_iff [of 1 "1::u64" n] by (auto simp: bit_1_iff)

lemmas fence_bits = bit_simps low_mask two_bit bit_1_iff

text \<open>Both layouts, over the last page and the pitch in tiles.\<close>

lemma fence_fields:
  assumes "offset AND 0xfff = 0" and "e AND 0xfff = 0" and "uint p < 2 ^ 10"
    and v: "v = push_bit 32 (ucast (e AND 0xfffff000)) OR ucast (offset AND 0xfffff000) OR push_bit 32 (ucast p)
                OR (if y then 2 else 0) OR (1 :: u64)"
    and w: "w = push_bit 32 (ucast (e AND 0xfffff000)) OR ucast (offset AND 0xfffff000) OR ucast (push_bit 2 p)
                OR (if y then 2 else 0) OR (1 :: u64)"
  shows "fence_start v = offset" and "fence_end v = e + 4096" and "snb_fence_pitch v = (p + 1) * 128" and "bit v 1 = y"
    and "fence_start w = offset" and "fence_end w = e + 4096" and "i965_fence_pitch w = (p + 1) * 128" and "bit w 1 = y"
proof -
  note b = page_aligned_bit [OF assms(1)] page_aligned_bit [OF assms(2)] small_bit [OF assms(3)]
  note s = fence_start_def fence_end_def snb_fence_pitch_def i965_fence_pitch_def fence_bits
  show "fence_start v = offset" unfolding v by (rule bit_eqI) (auto simp: s dest: b)
  show "fence_start w = offset" unfolding w by (rule bit_eqI) (auto simp: s dest: b)
  have "ucast (drop_bit 32 v) AND 0xfffff000 = e" unfolding v by (rule bit_eqI) (auto simp: s dest: b)
  then show "fence_end v = e + 4096" by (simp add: fence_end_def)
  have "ucast (drop_bit 32 w) AND 0xfffff000 = e" unfolding w by (rule bit_eqI) (auto simp: s dest: b)
  then show "fence_end w = e + 4096" by (simp add: fence_end_def)
  have "ucast (drop_bit 32 v) AND 0xfff = p" unfolding v by (rule bit_eqI) (auto simp: s dest: b)
  then show "snb_fence_pitch v = (p + 1) * 128" by (simp add: snb_fence_pitch_def)
  have "drop_bit 2 (ucast w AND 0xfff) = p" unfolding w by (rule bit_eqI) (auto simp: s dest: b)
  then show "i965_fence_pitch w = (p + 1) * 128" by (simp add: i965_fence_pitch_def)
  show "bit v 1 = y" unfolding v by (auto simp: s dest: b)
  show "bit w 1 = y" unfolding w by (auto simp: s dest: b)
qed

lemma tiles_times_width:
  assumes "128 dvd uint (stride :: u32)" and "0 < uint stride" and "uint stride \<le> 128 * 1024"
  shows "uint (stride div 128 - 1) < 2 ^ 10" and "(stride div 128 - 1 + 1) * 128 = stride"
proof -
  have d: "uint (stride div 128) = uint stride div 128" by (simp add: uint_div_distrib)
  obtain k where k: "uint stride = 128 * k" using assms(1) by (auto elim: dvdE)
  then have "uint (stride div 128) = k" using d by simp
  have k0: "0 < k" "k \<le> 1024" using assms(2,3) k by auto
  then have "k * 128 mod 4294967296 = 128 * k" by simp
  from \<open>uint (stride div 128) = k\<close> have "uint (stride div 128 - 1) = k - 1" using assms(2) k by (subst uint_minus_simple_alt [THEN iffD1]) (auto simp: word_le_def)
  then show "uint (stride div 128 - 1) < 2 ^ 10" using assms(3) k by simp
  have "uint (stride div 128 * 128) = 128 * k" using d k k0 by (simp add: uint_word_ariths)
  then show "(stride div 128 - 1 + 1) * 128 = stride" using k by (simp add: word_uint_eq_iff)
qed

text \<open>For a page-aligned region and a stride that the check accepts and that is positive, the register
  values of generation 6 and of generation 4 decode to the start and the end of the region, to the stride
  and to the kind of tiling, and are enabled.\<close>

theorem fence_value_decodes:
  assumes "4 \<le> dv_gen dev" and "tiling \<noteq> I915_TILING_NONE" and "i915_tiling_ok dev (s32i (uint stride)) len tiling"
    and "0 < sint stride" and "offset AND 0xfff = 0" and "sz AND 0xfff = 0"
  shows "let v = sandybridge_fence_value offset sz stride tiling; w = i965_fence_value offset sz stride tiling
     in fence_start v = offset \<and> fence_end v = offset + sz \<and> snb_fence_pitch v = stride \<and> (bit v 1 \<longleftrightarrow> tiling = I915_TILING_Y)
      \<and> fence_start w = offset \<and> fence_end w = offset + sz \<and> i965_fence_pitch w = stride \<and> (bit w 1 \<longleftrightarrow> tiling = I915_TILING_Y)
      \<and> v \<noteq> 0 \<and> w \<noteq> 0"
proof -
  let ?v = "sandybridge_fence_value offset sz stride tiling" and ?w = "i965_fence_value offset sz stride tiling"
  have "(if tiling = I915_TILING_Y \<and> HAS_128_BYTE_Y_TILING dev then 128 else 512) dvd sint stride" "sint stride \<le> 128 * 1024"
    using tiling_accepted [OF assms(1,2)] assms(3) by auto
  moreover from this(1) have "128 dvd sint stride" by (auto split: if_splits intro: dvd_trans [of 128 512])
  ultimately have u: "128 dvd uint stride" "0 < uint stride" "uint stride \<le> 128 * 1024"
    using sint_pos assms(4) by auto
  have "(offset + sz - 4096) AND 0xfff = 0"
    using assms(5,6) by (rule page_aligned_sum)
  note f = fence_fields [OF assms(5) this tiles_times_width(1) [OF u] refl refl, of "tiling = I915_TILING_Y"]
  have b: "bit ?v 0" "bit ?w 0" by (auto simp: sandybridge_fence_value_def i965_fence_value_def bit_simps)
  have "?v \<noteq> 0" "?w \<noteq> 0" using b by (metis bit_0_eq bot_apply bot_bool_def)+
  then show ?thesis
    using f tiles_times_width(2) [OF u] by (simp add: sandybridge_fence_value_def i965_fence_value_def Let_def)
qed

theorem fence_value_decodes_witness:
  "i965_fence_pitch (i965_fence_value 0x100000 0x40000 2048 I915_TILING_X) = 2048"
  using fence_value_decodes [of "gen3\<lparr>dv_gen := 4\<rparr>" I915_TILING_X 2048 "0x40000" "0x100000" "0x40000"]
  by (simp add: gen3_def tiling_modes i915_tiling_ok_def I965_FENCE_MAX_PITCH_VAL_def s32i_def Let_def signed_divide_int_def)

end
