(* ===== verification/I915_Fence.thy ===== *)
theory I915_Fence
  imports I915_Tiling
begin

text \<open>
  The fence registers, \<^verbatim>\<open>drm/i915/i915_gem.c\<close>, and the tiling ioctls that make a fence stale.
  Objects are numbers.  The wait for the last fenced access answers with an error or none; mappings
  of user space and memory barriers are left out.
\<close>

unbundle bit_operations_syntax

section \<open>State\<close>

record fence_obj =
  fo_fence_reg :: "nat option"
  fo_fence_dirty :: bool
  fo_tiling_mode :: u32
  fo_stride :: u32
  fo_gtt_offset :: u32
  fo_size :: u64
  fo_gtt_space :: "u32 option"
  fo_last_fenced :: u32
  fo_fenced_gpu :: bool
  fo_map_and_fenceable :: bool
  fo_pin_count :: nat

record fence_reg =
  fr_obj :: "nat option"
  fr_pin_count :: int

text \<open>\<open>fe_hw\<close> holds the contents of the hardware registers.\<close>

record fences =
  fe_objs :: "nat \<Rightarrow> fence_obj"
  fe_regs :: "nat \<Rightarrow> fence_reg"
  fe_start :: nat
  fe_num :: nat
  fe_lru :: "nat list"
  fe_hw :: "nat \<Rightarrow> u64"
  fe_swizzle :: "u32 \<times> u32"
  fe_mappable_end :: u64

definition fobj :: "nat \<Rightarrow> (fence_obj \<Rightarrow> fence_obj) \<Rightarrow> fences \<Rightarrow> fences" where
  "fobj ob f st = st\<lparr>fe_objs := (fe_objs st)(ob := f (fe_objs st ob))\<rparr>"

definition freg :: "nat \<Rightarrow> (fence_reg \<Rightarrow> fence_reg) \<Rightarrow> fences \<Rightarrow> fences" where
  "freg i f st = st\<lparr>fe_regs := (fe_regs st)(i := f (fe_regs st i))\<rparr>"

section \<open>Writing a register\<close>

definition fence_value :: "i915_dev \<Rightarrow> fence_obj \<Rightarrow> u64" where
  "fence_value dev b =
     (let sz = (case fo_gtt_space b of None \<Rightarrow> 0 | Some s \<Rightarrow> s)
      in if dv_gen dev = 7 \<or> dv_gen dev = 6
         then sandybridge_fence_value (fo_gtt_offset b) sz (fo_stride b) (fo_tiling_mode b)
         else if dv_gen dev = 5 \<or> dv_gen dev = 4
         then i965_fence_value (fo_gtt_offset b) sz (fo_stride b) (fo_tiling_mode b)
         else if dv_gen dev = 3
         then ucast (i915_fence_value dev (fo_gtt_offset b) sz (fo_stride b) (fo_tiling_mode b))
         else ucast (i830_fence_value (fo_gtt_offset b) sz (fo_stride b) (fo_tiling_mode b)))"

definition i915_gem_write_fence :: "i915_dev \<Rightarrow> nat \<Rightarrow> nat option \<Rightarrow> fences \<Rightarrow> fences" where
  "i915_gem_write_fence dev i ob st =
     (if 2 \<le> dv_gen dev \<and> dv_gen dev \<le> 7
      then st\<lparr>fe_hw := (fe_hw st)(i := case ob of None \<Rightarrow> 0 | Some ob \<Rightarrow> fence_value dev (fe_objs st ob))\<rparr>
      else st)"

definition i915_gem_object_update_fence :: "i915_dev \<Rightarrow> nat \<Rightarrow> nat \<Rightarrow> bool \<Rightarrow> fences \<Rightarrow> fences" where
  "i915_gem_object_update_fence dev ob i enable st =
     (let st = i915_gem_write_fence dev i (if enable then Some ob else None) st
      in if enable
         then let st = freg i (\<lambda>r. r\<lparr>fr_obj := Some ob\<rparr>) (fobj ob (\<lambda>b. b\<lparr>fo_fence_reg := Some i\<rparr>) st)
              in st\<lparr>fe_lru := remove1 i (fe_lru st) @ [i]\<rparr>
         else let st = freg i (\<lambda>r. r\<lparr>fr_obj := None\<rparr>) (fobj ob (\<lambda>b. b\<lparr>fo_fence_reg := None\<rparr>) st)
              in st\<lparr>fe_lru := remove1 i (fe_lru st)\<rparr>)"

section \<open>Losing and finding a register\<close>

definition i915_gem_object_fence_lost :: "nat \<Rightarrow> fences \<Rightarrow> fences" where
  "i915_gem_object_fence_lost ob = fobj ob (\<lambda>b. b\<lparr>fo_fence_dirty := False, fo_fence_reg := None\<rparr>)"

text \<open>\<open>wait\<close> answers for the sequence number of the last fenced access.\<close>

definition i915_gem_object_flush_fence ::
    "(u32 \<Rightarrow> errno option) \<Rightarrow> nat \<Rightarrow> fences \<Rightarrow> errno option \<times> fences" where
  "i915_gem_object_flush_fence wait ob st =
     (let seqno = fo_last_fenced (fe_objs st ob); ret = (if seqno \<noteq> 0 then wait seqno else None)
      in if ret \<noteq> None then (ret, st)
         else (None, fobj ob (\<lambda>b. b\<lparr>fo_last_fenced := 0, fo_fenced_gpu := False\<rparr>) st))"

definition i915_gem_object_put_fence ::
    "i915_dev \<Rightarrow> (u32 \<Rightarrow> errno option) \<Rightarrow> nat \<Rightarrow> fences \<Rightarrow> errno option \<times> fences" where
  "i915_gem_object_put_fence dev wait ob st =
     (case i915_gem_object_flush_fence wait ob st of
        (Some e, st) \<Rightarrow> (Some e, st)
      | (None, st) \<Rightarrow>
          (case fo_fence_reg (fe_objs st ob) of
             None \<Rightarrow> (None, st)
           | Some i \<Rightarrow> (None, i915_gem_object_fence_lost ob (i915_gem_object_update_fence dev ob i False st))))"

fun find_free_reg :: "fences \<Rightarrow> nat list \<Rightarrow> nat option \<Rightarrow> nat option \<times> nat option" where
  "find_free_reg st [] avail = (None, avail)"
| "find_free_reg st (i # is) avail =
     (if fr_obj (fe_regs st i) = None then (Some i, avail)
      else find_free_reg st is (if fr_pin_count (fe_regs st i) = 0 then Some i else avail))"

definition i915_find_fence_reg :: "fences \<Rightarrow> nat option" where
  "i915_find_fence_reg st =
     (case find_free_reg st [fe_start st..<fe_num st] None of
        (Some i, _) \<Rightarrow> Some i
      | (None, None) \<Rightarrow> None
      | (None, Some _) \<Rightarrow> find (\<lambda>i. fr_pin_count (fe_regs st i) = 0) (fe_lru st))"

definition i915_gem_object_get_fence ::
    "i915_dev \<Rightarrow> (u32 \<Rightarrow> errno option) \<Rightarrow> nat \<Rightarrow> fences \<Rightarrow> errno option \<times> fences" where
  "i915_gem_object_get_fence dev wait ob st =
    (let enable = (fo_tiling_mode (fe_objs st ob) \<noteq> I915_TILING_NONE);
         done = (\<lambda>i st. (None, fobj ob (\<lambda>b. b\<lparr>fo_fence_dirty := False\<rparr>)
                                 (i915_gem_object_update_fence dev ob i enable st)))
     in case (if fo_fence_dirty (fe_objs st ob) then i915_gem_object_flush_fence wait ob st else (None, st)) of
          (Some e, st) \<Rightarrow> (Some e, st)
        | (None, st) \<Rightarrow>
            (case fo_fence_reg (fe_objs st ob) of
               Some i \<Rightarrow> if \<not> fo_fence_dirty (fe_objs st ob)
                         then (None, st\<lparr>fe_lru := remove1 i (fe_lru st) @ [i]\<rparr>)
                         else done i st
             | None \<Rightarrow>
                 if enable then
                   (case i915_find_fence_reg st of
                      None \<Rightarrow> (Some EDEADLK, st)
                    | Some i \<Rightarrow>
                        (case fr_obj (fe_regs st i) of
                           None \<Rightarrow> done i st
                         | Some old \<Rightarrow>
                             (case i915_gem_object_flush_fence wait old st of
                                (Some e, st) \<Rightarrow> (Some e, st)
                              | (None, st) \<Rightarrow> done i (i915_gem_object_fence_lost old st))))
                 else (None, st)))"

definition i915_gem_object_pin_fence :: "nat \<Rightarrow> fences \<Rightarrow> bool \<times> fences" where
  "i915_gem_object_pin_fence ob st =
     (case fo_fence_reg (fe_objs st ob) of
        None \<Rightarrow> (False, st)
      | Some i \<Rightarrow> (True, freg i (\<lambda>r. r\<lparr>fr_pin_count := fr_pin_count r + 1\<rparr>) st))"

definition i915_gem_object_unpin_fence :: "nat \<Rightarrow> fences \<Rightarrow> fences" where
  "i915_gem_object_unpin_fence ob st =
     (case fo_fence_reg (fe_objs st ob) of
        None \<Rightarrow> st
      | Some i \<Rightarrow> freg i (\<lambda>r. r\<lparr>fr_pin_count := fr_pin_count r - 1\<rparr>) st)"

fun reset_fences_loop :: "i915_dev \<Rightarrow> nat list \<Rightarrow> fences \<Rightarrow> fences" where
  "reset_fences_loop dev [] st = st"
| "reset_fences_loop dev (i # is) st =
     (let st = i915_gem_write_fence dev i None st;
          st = (case fr_obj (fe_regs st i) of None \<Rightarrow> st | Some ob \<Rightarrow> i915_gem_object_fence_lost ob st)
      in reset_fences_loop dev is (freg i (\<lambda>r. r\<lparr>fr_pin_count := 0, fr_obj := None\<rparr>) st))"

definition i915_gem_reset_fences :: "i915_dev \<Rightarrow> fences \<Rightarrow> fences" where
  "i915_gem_reset_fences dev st = (reset_fences_loop dev [0..<fe_num st] st)\<lparr>fe_lru := []\<rparr>"

text \<open>The part of the loading of the driver that sets the number of registers up.\<close>

definition fences_load :: "i915_dev \<Rightarrow> fences \<Rightarrow> fences" where
  "fences_load dev st =
     (let st = (if \<not> dv_modeset dev then st\<lparr>fe_start := 3\<rparr> else st);
          st = st\<lparr>fe_num := if 4 \<le> dv_gen dev \<or> dv_is_i945 dev \<or> dv_is_g33 dev then 16 else 8\<rparr>
      in i915_gem_reset_fences dev st)"

section \<open>The tiling ioctls\<close>

text \<open>\<open>None\<close> is a size loop that does not end.\<close>

definition i915_gem_object_fence_ok :: "i915_dev \<Rightarrow> fence_obj \<Rightarrow> u32 \<Rightarrow> bool option" where
  "i915_gem_object_fence_ok dev b tiling =
     (if tiling = I915_TILING_NONE then Some True
      else if 4 \<le> dv_gen dev then Some True
      else if fo_gtt_offset b AND NOT (if dv_gen dev = 3 then I915_FENCE_START_MASK else I830_FENCE_START_MASK) \<noteq> 0
      then Some False
      else map_option (\<lambda>sz. fo_gtt_space b = Some sz \<and> fo_gtt_offset b AND (sz - 1) = 0)
             (pot_loop (fence_unit dev) (fo_size b)))"

text \<open>Unbinding: \<open>gpu\<close> is the result of the wait for the GPU.\<close>

definition fence_unbind ::
    "i915_dev \<Rightarrow> errno option \<Rightarrow> (u32 \<Rightarrow> errno option) \<Rightarrow> nat \<Rightarrow> fences \<Rightarrow> errno option \<times> fences" where
  "fence_unbind dev gpu wait ob st =
     (if fo_gtt_space (fe_objs st ob) = None then (None, st)
      else if fo_pin_count (fe_objs st ob) \<noteq> 0 then (Some EBUSY, st)
      else if gpu \<noteq> None then (gpu, st)
      else case i915_gem_object_put_fence dev wait ob st of
             (Some e, st) \<Rightarrow> (Some e, st)
           | (None, st) \<Rightarrow> (None, fobj ob (\<lambda>b. b\<lparr>fo_map_and_fenceable := True, fo_gtt_space := None,
                                              fo_gtt_offset := 0\<rparr>) st))"

record tiling_args =
  ta_tiling_mode :: u32
  ta_stride :: u32
  ta_swizzle_mode :: u32

text \<open>The requested mode once the swizzling of the memory is taken into account.\<close>

definition effective_tiling :: "u32 \<times> u32 \<Rightarrow> tiling_args \<Rightarrow> tiling_args" where
  "effective_tiling swizzle args =
     (if ta_tiling_mode args = I915_TILING_NONE
      then args\<lparr>ta_swizzle_mode := I915_BIT_6_SWIZZLE_NONE, ta_stride := 0\<rparr>
      else let s = hide_bit_17 (if ta_tiling_mode args = I915_TILING_X then fst swizzle else snd swizzle)
           in if s = I915_BIT_6_SWIZZLE_UNKNOWN
              then args\<lparr>ta_tiling_mode := I915_TILING_NONE, ta_swizzle_mode := I915_BIT_6_SWIZZLE_NONE,
                        ta_stride := 0\<rparr>
              else args\<lparr>ta_swizzle_mode := s\<rparr>)"

text \<open>The rebinding and the change of the parameters, under the lock.\<close>

definition change_tiling ::
    "i915_dev \<Rightarrow> errno option \<Rightarrow> (u32 \<Rightarrow> errno option) \<Rightarrow> nat \<Rightarrow> tiling_args \<Rightarrow> fences \<Rightarrow>
     (errno option \<times> fences) option" where
  "change_tiling dev gpu wait ob args st =
    (let b = fe_objs st ob in
     case (if fo_gtt_space b = None then Some True
           else if ucast (fo_gtt_offset b) + fo_size b \<le> fe_mappable_end st
           then i915_gem_object_fence_ok dev b (ta_tiling_mode args) else Some False) of
       None \<Rightarrow> None
     | Some maf \<Rightarrow>
         let st = fobj ob (\<lambda>b. b\<lparr>fo_map_and_fenceable := maf\<rparr>) st
         in case (if maf then Some (None, st)
                  else map_option (\<lambda>al. if fo_gtt_offset b AND (al - 1) \<noteq> 0
                                        then fence_unbind dev gpu wait ob st else (None, st))
                         (i915_gem_get_unfenced_gtt_alignment dev (ucast (fo_size b)) (ta_tiling_mode args))) of
              None \<Rightarrow> None
            | Some (Some e, st) \<Rightarrow> Some (Some e, st)
            | Some (None, st) \<Rightarrow>
                Some (None, fobj ob (\<lambda>b. b\<lparr>fo_fence_dirty := fo_fenced_gpu b \<or> fo_fence_reg b \<noteq> None,
                         fo_tiling_mode := ta_tiling_mode args, fo_stride := ta_stride args\<rparr>) st))"

definition i915_gem_set_tiling ::
    "i915_dev \<Rightarrow> errno option \<Rightarrow> (u32 \<Rightarrow> errno option) \<Rightarrow> nat option \<Rightarrow> tiling_args \<Rightarrow> fences \<Rightarrow>
     (errno option \<times> tiling_args \<times> fences) option" where
  "i915_gem_set_tiling dev gpu wait handle args st =
     (case handle of
        None \<Rightarrow> Some (Some ENOENT, args, st)
      | Some ob \<Rightarrow>
          if \<not> i915_tiling_ok dev (s32i (uint (ta_stride args))) (s32i (uint (fo_size (fe_objs st ob)))) (ta_tiling_mode args)
          then Some (Some EINVAL, args, st)
          else if fo_pin_count (fe_objs st ob) \<noteq> 0 then Some (Some EBUSY, args, st)
          else let args = effective_tiling (fe_swizzle st) args
               in map_option (\<lambda>(ret, st). (ret, args\<lparr>ta_stride := fo_stride (fe_objs st ob),
                                                   ta_tiling_mode := fo_tiling_mode (fe_objs st ob)\<rparr>, st))
                    (if ta_tiling_mode args \<noteq> fo_tiling_mode (fe_objs st ob) \<or> ta_stride args \<noteq> fo_stride (fe_objs st ob)
                     then change_tiling dev gpu wait ob args st else Some (None, st)))"

definition i915_gem_get_tiling :: "nat option \<Rightarrow> tiling_args \<Rightarrow> fences \<Rightarrow> errno option \<times> tiling_args" where
  "i915_gem_get_tiling handle args st =
     (case handle of
        None \<Rightarrow> (Some ENOENT, args)
      | Some ob \<Rightarrow>
          let m = fo_tiling_mode (fe_objs st ob);
              s = (if m = I915_TILING_X then fst (fe_swizzle st)
                   else if m = I915_TILING_Y then snd (fe_swizzle st)
                   else if m = I915_TILING_NONE then I915_BIT_6_SWIZZLE_NONE
                   else ta_swizzle_mode args)
          in (None, args\<lparr>ta_tiling_mode := m, ta_swizzle_mode := hide_bit_17 s\<rparr>))"

end
