(* ===== verification/I915_Fence_Proofs.thy ===== *)
theory I915_Fence_Proofs
  imports I915_Fence
begin

text \<open>
  The invariant of the fence registers: objects and registers agree, the LRU list holds exactly the
  registers in use, a pinned register belongs to a pinned object, and the hardware holds the
  parameters of the object unless the object is marked dirty.
\<close>

unbundle bit_operations_syntax

section \<open>Selectors\<close>

lemma fobj_sel [simp]:
  "fe_objs (fobj ob f st) = (fe_objs st)(ob := f (fe_objs st ob))"
  "fe_regs (fobj ob f st) = fe_regs st" "fe_lru (fobj ob f st) = fe_lru st" "fe_hw (fobj ob f st) = fe_hw st"
  "fe_num (fobj ob f st) = fe_num st" "fe_start (fobj ob f st) = fe_start st"
  by (simp_all add: fobj_def)

lemma freg_sel [simp]:
  "fe_regs (freg i f st) = (fe_regs st)(i := f (fe_regs st i))"
  "fe_objs (freg i f st) = fe_objs st" "fe_lru (freg i f st) = fe_lru st" "fe_hw (freg i f st) = fe_hw st"
  "fe_num (freg i f st) = fe_num st" "fe_start (freg i f st) = fe_start st"
  by (simp_all add: freg_def)

lemma fence_value_upd [simp]:
  "fence_value dev (b\<lparr>fo_fence_reg := r\<rparr>) = fence_value dev b"
  "fence_value dev (b\<lparr>fo_fence_dirty := d\<rparr>) = fence_value dev b"
  "fence_value dev (b\<lparr>fo_last_fenced := s\<rparr>) = fence_value dev b"
  "fence_value dev (b\<lparr>fo_fenced_gpu := g\<rparr>) = fence_value dev b"
  "fence_value dev (b\<lparr>fo_map_and_fenceable := m\<rparr>) = fence_value dev b"
  "fence_value dev (b\<lparr>fo_pin_count := p\<rparr>) = fence_value dev b"
  by (simp_all add: fence_value_def cong: if_cong)

section \<open>The invariant\<close>

definition fence_inv :: "i915_dev \<Rightarrow> fences \<Rightarrow> bool" where
  "fence_inv dev st \<longleftrightarrow>
     (\<forall>ob i. fo_fence_reg (fe_objs st ob) = Some i \<longleftrightarrow> fr_obj (fe_regs st i) = Some ob)
   \<and> (\<forall>i. fr_obj (fe_regs st i) \<noteq> None \<longrightarrow> i < fe_num st)
   \<and> distinct (fe_lru st) \<and> (\<forall>i. i \<in> set (fe_lru st) \<longleftrightarrow> fr_obj (fe_regs st i) \<noteq> None)
   \<and> (\<forall>i. 0 \<le> fr_pin_count (fe_regs st i))
   \<and> (\<forall>i. fr_obj (fe_regs st i) = None \<longrightarrow> fr_pin_count (fe_regs st i) = 0)
   \<and> (\<forall>i ob. fr_obj (fe_regs st i) = Some ob \<and> fr_pin_count (fe_regs st i) \<noteq> 0 \<longrightarrow>
        fo_pin_count (fe_objs st ob) \<noteq> 0 \<and> \<not> fo_fence_dirty (fe_objs st ob))
   \<and> (\<forall>ob. fo_fence_reg (fe_objs st ob) \<noteq> None \<longrightarrow> fo_gtt_space (fe_objs st ob) \<noteq> None)
   \<and> (\<forall>i < fe_num st. fr_obj (fe_regs st i) = None \<longrightarrow> fe_hw st i = 0)
   \<and> (\<forall>i ob. fr_obj (fe_regs st i) = Some ob \<and> \<not> fo_fence_dirty (fe_objs st ob) \<longrightarrow>
        fo_tiling_mode (fe_objs st ob) \<noteq> I915_TILING_NONE \<and> fe_hw st i = fence_value dev (fe_objs st ob))"

lemma fence_invD:
  assumes "fence_inv dev st"
  shows "fo_fence_reg (fe_objs st ob) = Some i \<longleftrightarrow> fr_obj (fe_regs st i) = Some ob"
    "fr_obj (fe_regs st i) \<noteq> None \<Longrightarrow> i < fe_num st"
    "distinct (fe_lru st)" "i \<in> set (fe_lru st) \<longleftrightarrow> fr_obj (fe_regs st i) \<noteq> None"
    "0 \<le> fr_pin_count (fe_regs st i)"
    "fr_obj (fe_regs st i) = None \<Longrightarrow> fr_pin_count (fe_regs st i) = 0"
    "fr_obj (fe_regs st i) = Some ob \<Longrightarrow> fr_pin_count (fe_regs st i) \<noteq> 0 \<Longrightarrow>
       fo_pin_count (fe_objs st ob) \<noteq> 0 \<and> \<not> fo_fence_dirty (fe_objs st ob)"
    "fo_fence_reg (fe_objs st ob) \<noteq> None \<Longrightarrow> fo_gtt_space (fe_objs st ob) \<noteq> None"
    "i < fe_num st \<Longrightarrow> fr_obj (fe_regs st i) = None \<Longrightarrow> fe_hw st i = 0"
    "fr_obj (fe_regs st i) = Some ob \<Longrightarrow> \<not> fo_fence_dirty (fe_objs st ob) \<Longrightarrow>
        fo_tiling_mode (fe_objs st ob) \<noteq> I915_TILING_NONE \<and> fe_hw st i = fence_value dev (fe_objs st ob)"
  using assms unfolding fence_inv_def by blast+

text \<open>Generations the driver writes fences for.\<close>

definition has_fences :: "i915_dev \<Rightarrow> bool" where
  "has_fences dev \<longleftrightarrow> 2 \<le> dv_gen dev \<and> dv_gen dev \<le> 7"

text \<open>A change of one object that keeps its register and what the register holds.\<close>

lemma fobj_inv:
  assumes inv: "fence_inv dev st"
    and "fo_fence_reg (f (fe_objs st ob)) = fo_fence_reg (fe_objs st ob)"
    and "\<And>i. fo_fence_reg (fe_objs st ob) = Some i \<Longrightarrow> fr_pin_count (fe_regs st i) \<noteq> 0 \<Longrightarrow>
           fo_pin_count (f (fe_objs st ob)) \<noteq> 0 \<and> \<not> fo_fence_dirty (f (fe_objs st ob))"
    and "fo_fence_reg (fe_objs st ob) \<noteq> None \<Longrightarrow> fo_gtt_space (f (fe_objs st ob)) \<noteq> None"
    and "fo_fence_reg (fe_objs st ob) \<noteq> None \<Longrightarrow> \<not> fo_fence_dirty (f (fe_objs st ob)) \<Longrightarrow>
           \<not> fo_fence_dirty (fe_objs st ob) \<and> fo_tiling_mode (f (fe_objs st ob)) = fo_tiling_mode (fe_objs st ob)
           \<and> fence_value dev (f (fe_objs st ob)) = fence_value dev (fe_objs st ob)"
  shows "fence_inv dev (fobj ob f st)"
proof -
  note d = fence_invD [OF inv]
  have r: "fr_obj (fe_regs st i) = Some ob \<Longrightarrow> fo_fence_reg (fe_objs st ob) = Some i" for i using d(1) by blast
  show ?thesis
    unfolding fence_inv_def
  proof (intro conjI)
    show "\<forall>oba i. (fo_fence_reg (fe_objs (fobj ob f st) oba) = Some i) = (fr_obj (fe_regs (fobj ob f st) i) = Some oba)"
      using assms(2) d(1) by simp
    show "\<forall>i oba. fr_obj (fe_regs (fobj ob f st) i) = Some oba \<and> fr_pin_count (fe_regs (fobj ob f st) i) \<noteq> 0 \<longrightarrow>
            fo_pin_count (fe_objs (fobj ob f st) oba) \<noteq> 0 \<and> \<not> fo_fence_dirty (fe_objs (fobj ob f st) oba)"
      using assms(3) r d(7) by simp blast
    show "\<forall>oba. fo_fence_reg (fe_objs (fobj ob f st) oba) \<noteq> None \<longrightarrow> fo_gtt_space (fe_objs (fobj ob f st) oba) \<noteq> None"
      using assms(2,4) d(8) by simp
    show "\<forall>i oba. fr_obj (fe_regs (fobj ob f st) i) = Some oba \<and> \<not> fo_fence_dirty (fe_objs (fobj ob f st) oba) \<longrightarrow>
        fo_tiling_mode (fe_objs (fobj ob f st) oba) \<noteq> I915_TILING_NONE \<and> fe_hw (fobj ob f st) i = fence_value dev (fe_objs (fobj ob f st) oba)"
      using assms(5) r d(10) by (metis fobj_sel(1,2,4) fun_upd_apply option.distinct(1))
  qed (use d(2-6,9) in simp_all)
qed

lemma fence_inv_pinned:
  "fence_inv dev st \<Longrightarrow> fo_fence_reg (fe_objs st ob) = Some i \<Longrightarrow> fr_pin_count (fe_regs st i) \<noteq> 0 \<Longrightarrow>
   fo_pin_count (fe_objs st ob) \<noteq> 0 \<and> \<not> fo_fence_dirty (fe_objs st ob)"
  using fence_invD(1,7) by blast

lemma flush_inv:
  assumes "fence_inv dev st"
  shows "fence_inv dev (snd (i915_gem_object_flush_fence wait ob st))"
  using assms by (auto simp: i915_gem_object_flush_fence_def Let_def intro!: fobj_inv dest: fence_inv_pinned fence_invD(8))

section \<open>Attaching and detaching\<close>

text \<open>Giving register \<open>i\<close>, free or taken from its object, to an object without one, and writing it.\<close>

definition attached :: "i915_dev \<Rightarrow> nat \<Rightarrow> nat \<Rightarrow> fences \<Rightarrow> fences" where
  "attached dev ob i st = fobj ob (\<lambda>b. b\<lparr>fo_fence_dirty := False\<rparr>) (i915_gem_object_update_fence dev ob i True st)"

lemma attached_sel:
  assumes "has_fences dev"
  shows "fe_objs (attached dev ob i st) = (fe_objs st)(ob := (fe_objs st ob)\<lparr>fo_fence_reg := Some i, fo_fence_dirty := False\<rparr>)"
    "fe_regs (attached dev ob i st) = (fe_regs st)(i := (fe_regs st i)\<lparr>fr_obj := Some ob\<rparr>)"
    "fe_lru (attached dev ob i st) = remove1 i (fe_lru st) @ [i]"
    "fe_hw (attached dev ob i st) = (fe_hw st)(i := fence_value dev (fe_objs st ob))"
    "fe_num (attached dev ob i st) = fe_num st"
  using assms by (simp_all add: attached_def i915_gem_object_update_fence_def i915_gem_write_fence_def has_fences_def Let_def)

text \<open>The state with the old owner of the register already lost.\<close>

lemma attach_inv:
  assumes inv: "fence_inv dev st" and dev: "has_fences dev" and tiled: "fo_tiling_mode (fe_objs st ob) \<noteq> I915_TILING_NONE"
    and bound: "fo_gtt_space (fe_objs st ob) \<noteq> None" and none: "fo_fence_reg (fe_objs st ob) = None \<or> fo_fence_reg (fe_objs st ob) = Some i"
    and i: "i < fe_num st" and pin: "fr_obj (fe_regs st i) = Some ob \<or> fr_pin_count (fe_regs st i) = 0"
    and lost: "st' = (case fr_obj (fe_regs st i) of None \<Rightarrow> st | Some old \<Rightarrow> if old = ob then st else i915_gem_object_fence_lost old st)"
  shows "fence_inv dev (attached dev ob i st')"
proof -
  note d = fence_invD [OF inv] and sel = attached_sel [OF dev, of ob i st']
  have same: "fe_regs st' = fe_regs st" "fe_lru st' = fe_lru st" "fe_hw st' = fe_hw st" "fe_num st' = fe_num st"
    "fe_objs st' ob = fe_objs st ob"
    by (auto simp: lost i915_gem_object_fence_lost_def split: option.split)
  have objs: "fe_objs st' x = (if fr_obj (fe_regs st i) = Some x \<and> x \<noteq> ob
      then (fe_objs st x)\<lparr>fo_fence_dirty := False, fo_fence_reg := None\<rparr> else fe_objs st x)" for x
    by (auto simp: lost i915_gem_object_fence_lost_def split: option.split)
  have reg: "fo_fence_reg (fe_objs (attached dev ob i st') x) = Some j \<longleftrightarrow> fr_obj (fe_regs (attached dev ob i st') j) = Some x" for x j
    using d(1) [of x j] d(1) [of x i] d(1) [of ob j] none by (auto simp: sel same objs)
  show ?thesis
    unfolding fence_inv_def
  proof (intro conjI)
    show "\<forall>x j. (fo_fence_reg (fe_objs (attached dev ob i st') x) = Some j) = (fr_obj (fe_regs (attached dev ob i st') j) = Some x)"
      using reg by blast
    show "\<forall>j. fr_obj (fe_regs (attached dev ob i st') j) \<noteq> None \<longrightarrow> j < fe_num (attached dev ob i st')"
      using d(2) i by (simp add: sel same)
    show "distinct (fe_lru (attached dev ob i st'))" using d(3) by (simp add: sel same)
    show "\<forall>j. j \<in> set (fe_lru (attached dev ob i st')) \<longleftrightarrow> fr_obj (fe_regs (attached dev ob i st') j) \<noteq> None"
      using d(3,4) by (simp add: sel same)
    show "\<forall>j. 0 \<le> fr_pin_count (fe_regs (attached dev ob i st') j)" using d(5) by (simp add: sel same)
    show "\<forall>j. fr_obj (fe_regs (attached dev ob i st') j) = None \<longrightarrow> fr_pin_count (fe_regs (attached dev ob i st') j) = 0"
      using d(6) by (simp add: sel same)
    show "\<forall>j x. fr_obj (fe_regs (attached dev ob i st') j) = Some x \<and> fr_pin_count (fe_regs (attached dev ob i st') j) \<noteq> 0 \<longrightarrow>
        fo_pin_count (fe_objs (attached dev ob i st') x) \<noteq> 0 \<and> \<not> fo_fence_dirty (fe_objs (attached dev ob i st') x)"
      using d(7) pin by (auto simp: sel same objs)
    show "\<forall>x. fo_fence_reg (fe_objs (attached dev ob i st') x) \<noteq> None \<longrightarrow> fo_gtt_space (fe_objs (attached dev ob i st') x) \<noteq> None"
      using d(8) bound by (auto simp: sel same objs)
    show "\<forall>j < fe_num (attached dev ob i st'). fr_obj (fe_regs (attached dev ob i st') j) = None \<longrightarrow> fe_hw (attached dev ob i st') j = 0"
      using d(9) by (simp add: sel same)
    show "\<forall>j x. fr_obj (fe_regs (attached dev ob i st') j) = Some x \<and> \<not> fo_fence_dirty (fe_objs (attached dev ob i st') x) \<longrightarrow>
        fo_tiling_mode (fe_objs (attached dev ob i st') x) \<noteq> I915_TILING_NONE
        \<and> fe_hw (attached dev ob i st') j = fence_value dev (fe_objs (attached dev ob i st') x)"
    proof (intro allI impI)
      fix j x assume a: "fr_obj (fe_regs (attached dev ob i st') j) = Some x \<and> \<not> fo_fence_dirty (fe_objs (attached dev ob i st') x)"
      show "fo_tiling_mode (fe_objs (attached dev ob i st') x) \<noteq> I915_TILING_NONE
        \<and> fe_hw (attached dev ob i st') j = fence_value dev (fe_objs (attached dev ob i st') x)"
      proof (cases "j = i")
        case True
        have x: "x = ob" using a True by (simp add: sel)
        show ?thesis unfolding True x using tiled by (simp add: sel same)
      next
        case False
        then have o: "fr_obj (fe_regs st j) = Some x" using a by (simp add: sel same)
        then have x: "x \<noteq> ob" "fr_obj (fe_regs st i) \<noteq> Some x"
          using d(1) none False by (metis option.distinct(1) option.inject)+
        then show ?thesis using a o d(10) [OF o] False by (simp add: sel same objs)
      qed
    qed
  qed
qed

text \<open>Taking the register away from an object that is not pinned.\<close>

definition detached :: "i915_dev \<Rightarrow> nat \<Rightarrow> nat \<Rightarrow> fences \<Rightarrow> fences" where
  "detached dev ob i st = fobj ob (\<lambda>b. b\<lparr>fo_fence_dirty := False, fo_fence_reg := None\<rparr>)
     (i915_gem_object_update_fence dev ob i False st)"

lemma detached_sel:
  assumes "has_fences dev"
  shows "fe_objs (detached dev ob i st) = (fe_objs st)(ob := (fe_objs st ob)\<lparr>fo_fence_dirty := False, fo_fence_reg := None\<rparr>)"
    "fe_regs (detached dev ob i st) = (fe_regs st)(i := (fe_regs st i)\<lparr>fr_obj := None\<rparr>)"
    "fe_lru (detached dev ob i st) = remove1 i (fe_lru st)"
    "fe_hw (detached dev ob i st) = (fe_hw st)(i := 0)"
    "fe_num (detached dev ob i st) = fe_num st"
  using assms by (simp_all add: detached_def i915_gem_object_update_fence_def i915_gem_write_fence_def has_fences_def Let_def)

lemma detach_inv:
  assumes inv: "fence_inv dev st" and dev: "has_fences dev" and i: "fo_fence_reg (fe_objs st ob) = Some i"
    and pin: "fr_pin_count (fe_regs st i) = 0"
  shows "fence_inv dev (detached dev ob i st)"
proof -
  note d = fence_invD [OF inv] and sel = detached_sel [OF dev, of ob i st]
  have i': "fr_obj (fe_regs st i) = Some ob" using d(1) i by blast
  have other: "fr_obj (fe_regs st j) = Some x \<Longrightarrow> j \<noteq> i \<Longrightarrow> x \<noteq> ob" for j x
    using d(1) [of ob j] i by auto
  show ?thesis
    unfolding fence_inv_def
  proof (intro conjI)
    show "\<forall>x j. (fo_fence_reg (fe_objs (detached dev ob i st) x) = Some j) = (fr_obj (fe_regs (detached dev ob i st) j) = Some x)"
      using d(1) i' other by (auto simp: sel)
    show "\<forall>j x. fr_obj (fe_regs (detached dev ob i st) j) = Some x \<and> \<not> fo_fence_dirty (fe_objs (detached dev ob i st) x) \<longrightarrow>
        fo_tiling_mode (fe_objs (detached dev ob i st) x) \<noteq> I915_TILING_NONE
        \<and> fe_hw (detached dev ob i st) j = fence_value dev (fe_objs (detached dev ob i st) x)"
      using d(10) other by (auto simp: sel)
    show "\<forall>j x. fr_obj (fe_regs (detached dev ob i st) j) = Some x \<and> fr_pin_count (fe_regs (detached dev ob i st) j) \<noteq> 0 \<longrightarrow>
        fo_pin_count (fe_objs (detached dev ob i st) x) \<noteq> 0 \<and> \<not> fo_fence_dirty (fe_objs (detached dev ob i st) x)"
      using d(7) by (auto simp: sel)
  qed (use d(2-6,8,9) pin in \<open>simp_all add: sel\<close>)
qed

section \<open>The operations\<close>

lemma flush_fields:
  assumes "i915_gem_object_flush_fence wait ob st = (ret, st')"
  shows "fe_regs st' = fe_regs st" "fe_lru st' = fe_lru st" "fe_num st' = fe_num st" "fe_hw st' = fe_hw st" "fe_start st' = fe_start st"
    "fo_fence_reg (fe_objs st' x) = fo_fence_reg (fe_objs st x)" "fo_tiling_mode (fe_objs st' x) = fo_tiling_mode (fe_objs st x)"
    "fo_gtt_space (fe_objs st' x) = fo_gtt_space (fe_objs st x)" "fo_fence_dirty (fe_objs st' x) = fo_fence_dirty (fe_objs st x)"
    "fo_pin_count (fe_objs st' x) = fo_pin_count (fe_objs st x)" "fence_value dev (fe_objs st' x) = fence_value dev (fe_objs st x)"
  using assms by (auto simp: i915_gem_object_flush_fence_def Let_def split: if_splits)

lemma flush_inv': "i915_gem_object_flush_fence wait ob st = (ret, st') \<Longrightarrow> fence_inv dev st \<Longrightarrow> fence_inv dev st'"
  using flush_inv by (metis snd_conv)

lemma find_free_reg_spec:
  "find_free_reg st is avail = (res, av) \<Longrightarrow>
   (case res of Some i \<Rightarrow> i \<in> set is \<and> fr_obj (fe_regs st i) = None
    | None \<Rightarrow> (\<forall>i \<in> set is. fr_obj (fe_regs st i) \<noteq> None)
        \<and> (av = None \<longleftrightarrow> avail = None \<and> (\<forall>i \<in> set is. fr_pin_count (fe_regs st i) \<noteq> 0)))"
  by (induction st "is" avail rule: find_free_reg.induct) (auto split: if_splits option.splits)

text \<open>The register found is free, or in use and not pinned; and there is one whenever one could be used.\<close>

lemma find_fence_reg_spec:
  assumes "fence_inv dev st"
  shows "case i915_find_fence_reg st of
      Some i \<Rightarrow> i < fe_num st \<and> fr_pin_count (fe_regs st i) = 0
    | None \<Rightarrow> \<forall>i. fe_start st \<le> i \<and> i < fe_num st \<longrightarrow> fr_pin_count (fe_regs st i) \<noteq> 0"
proof -
  note d = fence_invD [OF assms]
  obtain res av where f: "find_free_reg st [fe_start st..<fe_num st] None = (res, av)" by fastforce
  note spec = find_free_reg_spec [OF f]
  show ?thesis
  proof (cases res)
    case (Some i)
    then show ?thesis using f spec d(6) by (simp add: i915_find_fence_reg_def)
  next
    case None
    show ?thesis
    proof (cases av)
      case None
      then show ?thesis using f spec \<open>res = None\<close> by (simp add: i915_find_fence_reg_def)
    next
      case (Some a)
      then obtain j where j: "j \<in> set [fe_start st..<fe_num st]" "fr_pin_count (fe_regs st j) = 0" "fr_obj (fe_regs st j) \<noteq> None"
        using spec None by auto
      then have "j \<in> set (fe_lru st)" using d(4) by blast
      then obtain i where i: "find (\<lambda>i. fr_pin_count (fe_regs st i) = 0) (fe_lru st) = Some i"
        using j(2) by (metis (mono_tags, lifting) find_None_iff option.exhaust)
      then have "fr_pin_count (fe_regs st i) = 0" "i \<in> set (fe_lru st)" by (auto simp: find_Some_iff)
      then show ?thesis using f None Some i d(2,4) by (simp add: i915_find_fence_reg_def)
    qed
  qed
qed

lemma lru_move_inv:
  assumes "fence_inv dev st" and "fr_obj (fe_regs st i) \<noteq> None"
  shows "fence_inv dev (st\<lparr>fe_lru := remove1 i (fe_lru st) @ [i]\<rparr>)"
proof -
  have "distinct (remove1 i (fe_lru st) @ [i])" "set (remove1 i (fe_lru st) @ [i]) = insert i (set (fe_lru st))"
    using fence_invD(3) [OF assms(1)] by auto
  then show ?thesis using assms unfolding fence_inv_def by simp blast
qed

lemma fobj_twice: "fobj ob f (fobj ob g st) = fobj ob (\<lambda>b. f (g b)) st"
  by (simp add: fobj_def)

lemma fobj_lru: "fobj ob f (st\<lparr>fe_lru := l\<rparr>) = (fobj ob f st)\<lparr>fe_lru := l\<rparr>"
  by (simp add: fobj_def)

lemma fobj_freg: "fobj ob f (freg i h st) = freg i h (fobj ob f st)"
  by (simp add: fobj_def freg_def)

lemma fence_upd_commute: "b\<lparr>fo_fence_reg := r, fo_fence_dirty := d\<rparr> = b\<lparr>fo_fence_dirty := d, fo_fence_reg := r\<rparr>"
  by simp

lemma update_False: "fobj ob (\<lambda>b. b\<lparr>fo_fence_dirty := False\<rparr>) (i915_gem_object_update_fence dev ob i False st) = detached dev ob i st"
  by (simp add: detached_def i915_gem_object_update_fence_def Let_def fobj_lru fobj_freg fobj_twice fence_upd_commute)

text \<open>Getting a fence, in terms of attaching and detaching: the ways it can end.\<close>

lemma get_fence_cases:
  assumes get: "i915_gem_object_get_fence dev wait ob st = (ret, st')" and inv: "fence_inv dev st"
  obtains
    (failed) e where "ret = Some e" "e \<noteq> EDEADLK \<or> (\<exists>s. wait s = Some e)" "fence_inv dev st'" "fe_regs st' = fe_regs st"
  | (full) "ret = Some EDEADLK" "fence_inv dev st'" "fe_regs st' = fe_regs st" "i915_find_fence_reg st' = None"
      "fe_num st' = fe_num st" "fe_start st' = fe_start st"
  | (kept) st1 i where "ret = None" "fence_inv dev st1" "fe_regs st1 = fe_regs st" "fo_fence_reg (fe_objs st1 ob) = Some i"
      "\<not> fo_fence_dirty (fe_objs st1 ob)" "fo_tiling_mode (fe_objs st1 ob) = fo_tiling_mode (fe_objs st ob)" "st' = st1\<lparr>fe_lru := remove1 i (fe_lru st1) @ [i]\<rparr>"
  | (renewed) st1 i where "ret = None" "fence_inv dev st1" "fe_regs st1 = fe_regs st" "fo_fence_reg (fe_objs st1 ob) = Some i"
      "fo_tiling_mode (fe_objs st ob) \<noteq> I915_TILING_NONE" "fo_gtt_space (fe_objs st1 ob) = fo_gtt_space (fe_objs st ob)"
      "fo_tiling_mode (fe_objs st1 ob) = fo_tiling_mode (fe_objs st ob)" "st' = attached dev ob i st1"
  | (dropped) st1 i where "ret = None" "fence_inv dev st1" "fe_regs st1 = fe_regs st" "fo_fence_reg (fe_objs st1 ob) = Some i"
      "fo_tiling_mode (fe_objs st1 ob) = fo_tiling_mode (fe_objs st ob)"
      "fo_tiling_mode (fe_objs st ob) = I915_TILING_NONE" "st' = detached dev ob i st1"
  | (untiled) "ret = None" "fence_inv dev st'" "fe_regs st' = fe_regs st" "fo_tiling_mode (fe_objs st ob) = I915_TILING_NONE"
      "fo_fence_reg (fe_objs st' ob) = None"
  | (taken) st1 i where "ret = None" "fence_inv dev st1" "fe_regs st1 = fe_regs st" "fo_fence_reg (fe_objs st1 ob) = None"
      "fo_tiling_mode (fe_objs st ob) \<noteq> I915_TILING_NONE" "fo_gtt_space (fe_objs st1 ob) = fo_gtt_space (fe_objs st ob)"
      "fo_tiling_mode (fe_objs st1 ob) = fo_tiling_mode (fe_objs st ob)"
      "i < fe_num st1" "fr_pin_count (fe_regs st1 i) = 0"
      "st' = attached dev ob i (case fr_obj (fe_regs st1 i) of None \<Rightarrow> st1 | Some old \<Rightarrow> if old = ob then st1 else i915_gem_object_fence_lost old st1)"
proof -
  let ?enable = "fo_tiling_mode (fe_objs st ob) \<noteq> I915_TILING_NONE"
  obtain r1 st1 where f: "(if fo_fence_dirty (fe_objs st ob) then i915_gem_object_flush_fence wait ob st else (None, st)) = (r1, st1)"
    by fastforce
  have same: "fe_regs st1 = fe_regs st" "fe_num st1 = fe_num st" "fe_start st1 = fe_start st"
      "fo_gtt_space (fe_objs st1 ob) = fo_gtt_space (fe_objs st ob)" "fo_tiling_mode (fe_objs st1 ob) = fo_tiling_mode (fe_objs st ob)"
    using f by (auto dest: flush_fields split: if_splits)
  have inv1: "fence_inv dev st1" using f inv by (auto dest: flush_inv' split: if_splits)
  have err: "r1 = Some e \<Longrightarrow> \<exists>s. wait s = Some e" for e
    using f by (auto simp: i915_gem_object_flush_fence_def Let_def split: if_splits)
  note eval = get [unfolded i915_gem_object_get_fence_def Let_def f prod.case]
  show thesis
  proof (cases r1)
    case (Some e)
    then show thesis using eval failed [of e] err inv1 same by auto
  next
    case r1: None
    note ev = eval [unfolded r1 option.case]
    show thesis
    proof (cases "fo_fence_reg (fe_objs st1 ob)")
      case (Some i)
      note ev1 = ev [unfolded Some option.case]
      show thesis
      proof (cases "fo_fence_dirty (fe_objs st1 ob)")
        case False
        then show thesis using kept [OF _ inv1 same(1) Some _ same(5)] ev1 by auto
      next
        case True
        show thesis
        proof (cases ?enable)
          case True
          then show thesis
            using renewed [OF _ inv1 same(1) Some True same(4,5)] ev1 \<open>fo_fence_dirty (fe_objs st1 ob)\<close> by (auto simp: attached_def)
        next
          case False
          then show thesis
            using dropped [OF _ inv1 same(1) Some same(5)] ev1 \<open>fo_fence_dirty (fe_objs st1 ob)\<close> by (auto simp: update_False)
        qed
      qed
    next
      case none: None
      note ev1 = ev [unfolded none option.case]
      show thesis
      proof (cases ?enable)
        case False
        then show thesis using untiled ev1 inv1 same none by auto
      next
        case en: True
        show thesis
        proof (cases "i915_find_fence_reg st1")
          case None
          then show thesis using full ev1 en inv1 same by auto
        next
          case (Some i)
          have i: "i < fe_num st1" "fr_pin_count (fe_regs st1 i) = 0" using find_fence_reg_spec [OF inv1] Some by auto
          show thesis
          proof (cases "fr_obj (fe_regs st1 i)")
            case None
            then show thesis using taken [OF _ inv1 same(1) none en same(4,5) i] ev1 en Some by (auto simp: attached_def)
          next
            case old: (Some old)
            have neq: "old \<noteq> ob" using fence_invD(1) [OF inv1] old none by (metis option.distinct(1))
            obtain r2 st2 where f2: "i915_gem_object_flush_fence wait old st1 = (r2, st2)" by fastforce
            note fl = flush_fields [OF f2]
            have inv2: "fence_inv dev st2" using flush_inv' [OF f2 inv1] .
            have err2: "r2 = Some e \<Longrightarrow> \<exists>s. wait s = Some e" for e
              using f2 by (auto simp: i915_gem_object_flush_fence_def Let_def split: if_splits)
            show thesis
            proof (cases r2)
              case e2: (Some e)
              then have "ret = Some e" "st' = st2" using ev1 en Some old f2 by auto
              then show thesis using failed [of e] err2 [OF e2] inv2 fl(1) same(1) by auto
            next
              case None
              have st': "ret = None" "st' = attached dev ob i (i915_gem_object_fence_lost old st2)"
                using ev1 en Some old f2 None by (auto simp: attached_def)
              show thesis
                by (rule taken [of st2 i]) (use st' inv2 fl same none en i old neq in simp_all)
            qed
          qed
        qed
      qed
    qed
  qed
qed

lemma get_fence_ok:
  assumes get: "i915_gem_object_get_fence dev wait ob st = (ret, st')" and inv: "fence_inv dev st" and dev: "has_fences dev"
    and bound: "fo_gtt_space (fe_objs st ob) \<noteq> None"
  shows "fence_inv dev st'
     \<and> (ret = None \<longrightarrow> (if fo_tiling_mode (fe_objs st ob) \<noteq> I915_TILING_NONE
          then \<exists>i. fo_fence_reg (fe_objs st' ob) = Some i \<and> \<not> fo_fence_dirty (fe_objs st' ob)
          else fo_fence_reg (fe_objs st' ob) = None))
     \<and> (\<forall>j x. fr_obj (fe_regs st j) = Some x \<and> x \<noteq> ob \<and> fr_pin_count (fe_regs st j) \<noteq> 0 \<longrightarrow> fr_obj (fe_regs st' j) = Some x)"
  using get inv
proof (cases rule: get_fence_cases)
  case (failed e)
  then show ?thesis by simp
next
  case full
  then show ?thesis by simp
next
  case (kept st1 i)
  have i: "fr_obj (fe_regs st1 i) = Some ob" using kept(2,4) fence_invD(1) by blast
  then have "fo_tiling_mode (fe_objs st1 ob) \<noteq> I915_TILING_NONE" using fence_invD(10) [OF kept(2) i kept(5)] by blast
  moreover have "fence_inv dev st'" unfolding kept(7) by (rule lru_move_inv [OF kept(2)]) (simp add: i)
  ultimately show ?thesis using kept by simp
next
  case (renewed st1 i)
  have i: "fr_obj (fe_regs st1 i) = Some ob" using renewed(2,4) fence_invD(1) by blast
  have "fence_inv dev st'"
    unfolding renewed(8) using renewed(5-7) bound
    by (intro attach_inv [OF renewed(2) dev _ _ disjI2 [OF renewed(4)] fence_invD(2) [OF renewed(2)] disjI1 [OF i]]) (simp_all add: i)
  then show ?thesis using renewed i by (auto simp: attached_sel [OF dev])
next
  case (dropped st1 i)
  have i: "fr_obj (fe_regs st1 i) = Some ob" using dropped(2,4) fence_invD(1) by blast
  have "fr_pin_count (fe_regs st1 i) = 0"
    using fence_invD(7) [OF dropped(2) i] fence_invD(10) [OF dropped(2) i] dropped(5,6) by fastforce
  then have "fence_inv dev st'" unfolding dropped(7) by (rule detach_inv [OF dropped(2) dev dropped(4)])
  then show ?thesis using dropped i by (auto simp: detached_sel [OF dev])
next
  case untiled
  then show ?thesis by simp
next
  case (taken st1 i)
  have "fence_inv dev st'"
    unfolding taken(10) by (rule attach_inv [OF taken(2) dev _ _ disjI1 [OF taken(4)] taken(8) disjI2 [OF taken(9)] refl])
      (use taken(5-7) bound in simp_all)
  moreover have "fe_regs (case fr_obj (fe_regs st1 i) of None \<Rightarrow> st1 | Some old \<Rightarrow> if old = ob then st1 else i915_gem_object_fence_lost old st1) = fe_regs st"
    using taken(3) by (auto simp: i915_gem_object_fence_lost_def split: option.split)
  ultimately show ?thesis using taken(1,3,5,9) by (auto simp: taken(10) attached_sel [OF dev])
qed

lemma put_fence_ok:
  assumes put: "i915_gem_object_put_fence dev wait ob st = (ret, st')" and inv: "fence_inv dev st" and dev: "has_fences dev"
    and unpinned: "fo_pin_count (fe_objs st ob) = 0"
  shows "fence_inv dev st' \<and> (ret = None \<longrightarrow> fo_fence_reg (fe_objs st' ob) = None)"
proof -
  obtain r1 st1 where f: "i915_gem_object_flush_fence wait ob st = (r1, st1)" by fastforce
  have inv1: "fence_inv dev st1" by (rule flush_inv' [OF f inv])
  note fl = flush_fields [OF f]
  show ?thesis
  proof (cases r1)
    case (Some e)
    then show ?thesis using put f inv1 by (auto simp: i915_gem_object_put_fence_def)
  next
    case None
    show ?thesis
    proof (cases "fo_fence_reg (fe_objs st1 ob)")
      case None
      then show ?thesis using put f inv1 \<open>r1 = None\<close> by (auto simp: i915_gem_object_put_fence_def)
    next
      case (Some i)
      have st': "st' = detached dev ob i st1"
        using put f Some None by (simp add: i915_gem_object_put_fence_def i915_gem_object_fence_lost_def detached_def)
      have "fr_pin_count (fe_regs st1 i) = 0"
        using fence_inv_pinned [OF inv1 Some] unpinned fl(10) by auto
      then show ?thesis unfolding st' using detach_inv [OF inv1 dev Some] by (simp add: detached_sel [OF dev])
    qed
  qed
qed

lemma unbind_ok:
  assumes ub: "fence_unbind dev gpu wait ob st = (ret, st')" and inv: "fence_inv dev st" and dev: "has_fences dev"
  shows "fence_inv dev st'"
proof (cases "fo_gtt_space (fe_objs st ob) = None \<or> fo_pin_count (fe_objs st ob) \<noteq> 0 \<or> gpu \<noteq> None")
  case True
  then show ?thesis using ub inv by (auto simp: fence_unbind_def split: if_splits)
next
  case False
  obtain r1 st1 where p: "i915_gem_object_put_fence dev wait ob st = (r1, st1)" by fastforce
  have ok: "fence_inv dev st1" "r1 = None \<Longrightarrow> fo_fence_reg (fe_objs st1 ob) = None"
    using put_fence_ok [OF p inv dev] False by auto
  show ?thesis
  proof (cases r1)
    case (Some e)
    then show ?thesis using ub False p ok by (auto simp: fence_unbind_def)
  next
    case None
    let ?f = "\<lambda>b. b\<lparr>fo_map_and_fenceable := True, fo_gtt_space := None, fo_gtt_offset := 0\<rparr>"
    have st': "st' = fobj ob ?f st1"
      using ub False p None by (auto simp: fence_unbind_def split: if_splits)
    show ?thesis unfolding st' by (rule fobj_inv [OF ok(1)]) (use ok(2) [OF None] in simp_all)
  qed
qed

lemma change_tiling_ok:
  assumes ct: "change_tiling dev gpu wait ob args st = Some (ret, st')" and inv: "fence_inv dev st" and dev: "has_fences dev"
    and unpinned: "fo_pin_count (fe_objs st ob) = 0"
  shows "fence_inv dev st'"
proof -
  let ?f = "\<lambda>b. b\<lparr>fo_fence_dirty := fo_fenced_gpu b \<or> fo_fence_reg b \<noteq> None,
      fo_tiling_mode := ta_tiling_mode args, fo_stride := ta_stride args\<rparr>"
  have fin: "fence_inv dev (fobj ob ?f st2)" if i: "fence_inv dev st2" and p: "fo_pin_count (fe_objs st2 ob) = 0" for st2
    by (rule fobj_inv [OF i]) (use fence_inv_pinned [OF i, of ob] p fence_invD(8) [OF i, of ob] in force)+
  define st1 where "st1 maf = fobj ob (\<lambda>b. b\<lparr>fo_map_and_fenceable := maf\<rparr>) st" for maf
  have inv1: "fence_inv dev (st1 maf)" for maf
    unfolding st1_def by (rule fobj_inv [OF inv]) (use fence_inv_pinned [OF inv] fence_invD(8) [OF inv] in auto)
  have pin1: "fo_pin_count (fe_objs (st1 maf) ob) = 0" for maf using unpinned by (simp add: st1_def)
  have ub: "fence_inv dev st2 \<and> fo_pin_count (fe_objs st2 ob) = 0" if u: "fence_unbind dev gpu wait ob (st1 maf) = (r, st2)" for maf r st2
    using unbind_ok [OF u inv1 dev] u pin1 [of maf]
    by (auto simp: fence_unbind_def i915_gem_object_put_fence_def i915_gem_object_flush_fence_def Let_def
        i915_gem_object_fence_lost_def i915_gem_object_update_fence_def i915_gem_write_fence_def split: if_splits option.splits)
  show ?thesis
    using ct fin inv1 pin1 ub
    unfolding change_tiling_def Let_def st1_def [symmetric]
    by (auto split: option.splits if_splits prod.splits)
qed

lemma set_tiling_ok:
  assumes "i915_gem_set_tiling dev gpu wait handle args st = Some (ret, args', st')" and "fence_inv dev st" and "has_fences dev"
  shows "fence_inv dev st'"
  using assms change_tiling_ok [of dev gpu wait _ "effective_tiling (fe_swizzle st) args" st]
  by (auto simp: i915_gem_set_tiling_def Let_def split: option.splits if_splits)

text \<open>Resetting all registers establishes the invariant, from any state whose registers in use are among
  those there are.\<close>

definition reset_reg :: "nat \<Rightarrow> fences \<Rightarrow> fences \<Rightarrow> bool" where
  "reset_reg n st st' \<longleftrightarrow> (\<forall>i. i < n \<longrightarrow> fr_obj (fe_regs st' i) = None \<and> fr_pin_count (fe_regs st' i) = 0 \<and> fe_hw st' i = 0)
     \<and> (\<forall>i. n \<le> i \<longrightarrow> fe_regs st' i = fe_regs st i)
     \<and> (\<forall>ob. fo_fence_reg (fe_objs st' ob) = (if \<exists>i < n. fr_obj (fe_regs st i) = Some ob then None else fo_fence_reg (fe_objs st ob)))
     \<and> fe_num st' = fe_num st"

lemma write_fence_regs [simp]: "fe_regs (i915_gem_write_fence dev i x st) = fe_regs st"
  by (simp add: i915_gem_write_fence_def)

lemma reset_loop_append:
  "reset_fences_loop dev (xs @ ys) st = reset_fences_loop dev ys (reset_fences_loop dev xs st)"
  by (induction xs arbitrary: st) (simp_all add: Let_def)

lemma reset_loop: "has_fences dev \<Longrightarrow> reset_reg n st (reset_fences_loop dev [0..<n] st)"
proof (induction n)
  case 0
  then show ?case by (simp add: reset_reg_def)
next
  case (Suc n)
  let ?st = "reset_fences_loop dev [0..<n] st"
  have IH: "reset_reg n st ?st" using Suc by blast
  have e: "reset_fences_loop dev [0..<Suc n] st = freg n (\<lambda>r. r\<lparr>fr_pin_count := 0, fr_obj := None\<rparr>)
     (case fr_obj (fe_regs ?st n) of None \<Rightarrow> i915_gem_write_fence dev n None ?st
      | Some ob \<Rightarrow> i915_gem_object_fence_lost ob (i915_gem_write_fence dev n None ?st))"
    by (simp add: reset_loop_append Let_def)
  have n: "fe_regs ?st n = fe_regs st n" using IH by (simp add: reset_reg_def)
  show ?case
    using IH Suc.prems unfolding e reset_reg_def n
    by (auto simp: i915_gem_write_fence_def has_fences_def i915_gem_object_fence_lost_def less_Suc_eq split: option.splits)
qed

lemma reset_fences_inv:
  assumes "has_fences dev" and "\<And>ob i. fo_fence_reg (fe_objs st ob) = Some i \<longleftrightarrow> fr_obj (fe_regs st i) = Some ob"
    and "\<And>i. fe_num st \<le> i \<Longrightarrow> fr_obj (fe_regs st i) = None \<and> fr_pin_count (fe_regs st i) = 0"
  shows "fence_inv dev (i915_gem_reset_fences dev st)"
proof -
  let ?st = "reset_fences_loop dev [0..<fe_num st] st"
  have r: "reset_reg (fe_num st) st ?st" by (rule reset_loop [OF assms(1)])
  have none: "fr_obj (fe_regs ?st i) = None \<and> fr_pin_count (fe_regs ?st i) = 0" for i
    using r assms(3) by (cases "i < fe_num st") (auto simp: reset_reg_def)
  have objs: "fo_fence_reg (fe_objs ?st ob) = None" for ob
  proof (cases "fo_fence_reg (fe_objs st ob)")
    case (Some i)
    then have i: "fr_obj (fe_regs st i) = Some ob" using assms(2) by blast
    then have "i < fe_num st" using assms(3) [of i] by (cases "i < fe_num st") auto
    then show ?thesis using r i by (auto simp: reset_reg_def)
  qed (use r in \<open>simp add: reset_reg_def\<close>)
  show ?thesis
    using none objs r unfolding fence_inv_def i915_gem_reset_fences_def by (simp add: reset_reg_def)
qed

end
