(* ===== verification/I915_Fence_Claims.thy ===== *)
theory I915_Fence_Claims
  imports I915_Fence_Proofs
begin

text \<open>
  The properties of tiling and of the fence registers: the step relation of the operations on
  fences, and the contents of the registers.
\<close>

unbundle bit_operations_syntax

section \<open>Steps\<close>

text \<open>The callers get a fence for a bound object, pin it right after, and give up only fences of objects
  that are not pinned.\<close>

inductive fence_step :: "i915_dev \<Rightarrow> fences \<Rightarrow> fences \<Rightarrow> bool" for dev where
  step_get: "fo_gtt_space (fe_objs st ob) \<noteq> None \<Longrightarrow> i915_gem_object_get_fence dev wait ob st = (ret, st') \<Longrightarrow> fence_step dev st st'"
| step_put: "fo_pin_count (fe_objs st ob) = 0 \<Longrightarrow> i915_gem_object_put_fence dev wait ob st = (ret, st') \<Longrightarrow> fence_step dev st st'"
| step_pin: "fo_pin_count (fe_objs st ob) \<noteq> 0 \<Longrightarrow> \<not> fo_fence_dirty (fe_objs st ob) \<Longrightarrow>
     fence_step dev st (snd (i915_gem_object_pin_fence ob st))"
| step_unpin: "\<forall>i. fo_fence_reg (fe_objs st ob) = Some i \<longrightarrow> 0 < fr_pin_count (fe_regs st i) \<Longrightarrow>
     fence_step dev st (i915_gem_object_unpin_fence ob st)"
| step_object_pin: "\<forall>i. fo_fence_reg (fe_objs st ob) = Some i \<and> 0 < fr_pin_count (fe_regs st i) \<longrightarrow> n \<noteq> 0 \<Longrightarrow>
     fence_step dev st (fobj ob (\<lambda>b. b\<lparr>fo_pin_count := n\<rparr>) st)"
| step_bind: "fo_gtt_space (fe_objs st ob) = None \<Longrightarrow>
     fence_step dev st (fobj ob (\<lambda>b. b\<lparr>fo_gtt_space := Some sz, fo_gtt_offset := off, fo_map_and_fenceable := maf\<rparr>) st)"
| step_unbind: "fence_unbind dev gpu wait ob st = (ret, st') \<Longrightarrow> fence_step dev st st'"
| step_tiling: "i915_gem_set_tiling dev gpu wait handle args st = Some (ret, args', st') \<Longrightarrow> fence_step dev st st'"
| step_use: "fence_step dev st (fobj ob (\<lambda>b. b\<lparr>fo_last_fenced := s, fo_fenced_gpu := g\<rparr>) st)"
| step_reset: "fence_step dev st (i915_gem_reset_fences dev st)"

inductive_cases fence_step_cases: "fence_step dev st st'"

lemma freg_pin_inv:
  assumes inv: "fence_inv dev st" and i: "fo_fence_reg (fe_objs st ob) = Some i" and n: "0 \<le> n"
    and p: "n \<noteq> 0 \<Longrightarrow> fo_pin_count (fe_objs st ob) \<noteq> 0 \<and> \<not> fo_fence_dirty (fe_objs st ob)"
  shows "fence_inv dev (freg i (\<lambda>r. r\<lparr>fr_pin_count := n\<rparr>) st)"
proof -
  note d = fence_invD [OF inv]
  have i': "fr_obj (fe_regs st i) = Some ob" using d(1) i by blast
  show ?thesis
    unfolding fence_inv_def
  proof (intro conjI)
    show "\<forall>j x. fr_obj (fe_regs (freg i (\<lambda>r. r\<lparr>fr_pin_count := n\<rparr>) st) j) = Some x
        \<and> fr_pin_count (fe_regs (freg i (\<lambda>r. r\<lparr>fr_pin_count := n\<rparr>) st) j) \<noteq> 0 \<longrightarrow>
        fo_pin_count (fe_objs (freg i (\<lambda>r. r\<lparr>fr_pin_count := n\<rparr>) st) x) \<noteq> 0
        \<and> \<not> fo_fence_dirty (fe_objs (freg i (\<lambda>r. r\<lparr>fr_pin_count := n\<rparr>) st) x)"
      using d(7) i' p by (auto split: if_splits)
    show "\<forall>j x. fr_obj (fe_regs (freg i (\<lambda>r. r\<lparr>fr_pin_count := n\<rparr>) st) j) = Some x
        \<and> \<not> fo_fence_dirty (fe_objs (freg i (\<lambda>r. r\<lparr>fr_pin_count := n\<rparr>) st) x) \<longrightarrow>
        fo_tiling_mode (fe_objs (freg i (\<lambda>r. r\<lparr>fr_pin_count := n\<rparr>) st) x) \<noteq> I915_TILING_NONE
        \<and> fe_hw (freg i (\<lambda>r. r\<lparr>fr_pin_count := n\<rparr>) st) j = fence_value dev (fe_objs (freg i (\<lambda>r. r\<lparr>fr_pin_count := n\<rparr>) st) x)"
      using d(10) by (auto split: if_splits)
  qed (use d(1-6,8,9) i' n in \<open>simp_all\<close>)
qed

lemma fence_step_inv:
  assumes "fence_step dev st st'" and dev: "has_fences dev"
  shows "fence_inv dev st \<Longrightarrow> fence_inv dev st'"
  using assms(1)
proof (induction rule: fence_step.induct)
  case (step_get st ob wait ret st')
  then show ?case using get_fence_ok [OF step_get(2) _ dev] by blast
next
  case (step_put st ob wait ret st')
  then show ?case using put_fence_ok [OF step_put(2) _ dev] by blast
next
  case (step_pin st ob)
  then show ?case
    using freg_pin_inv [OF step_pin(3), of ob _ "fr_pin_count (fe_regs st (the (fo_fence_reg (fe_objs st ob)))) + 1"] fence_invD(5) [OF step_pin(3)]
    by (auto simp: i915_gem_object_pin_fence_def freg_def split: option.split)
next
  case (step_unpin st ob)
  show ?case
  proof (cases "fo_fence_reg (fe_objs st ob)")
    case (Some i)
    then have "i915_gem_object_unpin_fence ob st = freg i (\<lambda>r. r\<lparr>fr_pin_count := fr_pin_count (fe_regs st i) - 1\<rparr>) st"
      by (simp add: i915_gem_object_unpin_fence_def freg_def)
    moreover have "0 < fr_pin_count (fe_regs st i)" using step_unpin(1) Some by blast
    ultimately show ?thesis
      using freg_pin_inv [OF step_unpin(2) Some, of "fr_pin_count (fe_regs st i) - 1"] fence_inv_pinned [OF step_unpin(2) Some] by auto
  qed (use step_unpin in \<open>simp add: i915_gem_object_unpin_fence_def\<close>)
next
  case (step_object_pin st ob n)
  have "n \<noteq> 0 \<and> \<not> fo_fence_dirty (fe_objs st ob)"
    if "fo_fence_reg (fe_objs st ob) = Some i" "fr_pin_count (fe_regs st i) \<noteq> 0" for i
    using step_object_pin(1) fence_inv_pinned [OF step_object_pin(2) that] that fence_invD(5) [OF step_object_pin(2), of i] by auto
  then show ?case
    by (intro fobj_inv [OF step_object_pin(2)]) (use fence_invD(8) [OF step_object_pin(2), of ob] in simp_all)
next
  case (step_bind st ob sz off maf)
  then have "fo_fence_reg (fe_objs st ob) = None" using fence_invD(8) by blast
  then show ?case by (intro fobj_inv [OF step_bind(2)]) simp_all
next
  case (step_unbind gpu wait ob st ret st')
  then show ?case using unbind_ok [OF step_unbind(1) _ dev] by blast
next
  case (step_tiling gpu wait handle args st ret args' st')
  then show ?case using set_tiling_ok [OF step_tiling(1) _ dev] by blast
next
  case (step_use st ob s g)
  show ?case
    by (rule fobj_inv [OF step_use]) (use fence_inv_pinned [OF step_use, of ob] fence_invD(8) [OF step_use, of ob] in \<open>simp_all\<close>)
next
  case (step_reset st)
  have "fr_obj (fe_regs st i) = None \<and> fr_pin_count (fe_regs st i) = 0" if "fe_num st \<le> i" for i
    using that fence_invD(2,6) [OF step_reset, of i] by fastforce
  then show ?case by (intro reset_fences_inv [OF dev fence_invD(1) [OF step_reset]])
qed

lemma fence_steps_inv: "(fence_step dev)\<^sup>*\<^sup>* st st' \<Longrightarrow> has_fences dev \<Longrightarrow> fence_inv dev st \<Longrightarrow> fence_inv dev st'"
  by (induction rule: rtranclp_induct) (auto intro: fence_step_inv)

text \<open>The driver at load time: no object has a fence.\<close>

definition fresh_obj :: fence_obj where
  "fresh_obj = \<lparr>fo_fence_reg = None, fo_fence_dirty = False, fo_tiling_mode = 0, fo_stride = 0, fo_gtt_offset = 0,
     fo_size = 4096, fo_gtt_space = None, fo_last_fenced = 0, fo_fenced_gpu = False, fo_map_and_fenceable = True, fo_pin_count = 0\<rparr>"

definition fences_start :: "u32 \<times> u32 \<Rightarrow> u64 \<Rightarrow> (nat \<Rightarrow> u64) \<Rightarrow> fences" where
  "fences_start swizzle mappable hw = \<lparr>fe_objs = (\<lambda>_. fresh_obj), fe_regs = (\<lambda>_. \<lparr>fr_obj = None, fr_pin_count = 0\<rparr>),
     fe_start = 0, fe_num = 0, fe_lru = [], fe_hw = hw, fe_swizzle = swizzle, fe_mappable_end = mappable\<rparr>"

lemma fences_load_inv: "has_fences dev \<Longrightarrow> fence_inv dev (fences_load dev (fences_start swizzle mappable hw))"
  unfolding fences_load_def Let_def by (rule reset_fences_inv) (simp_all add: fences_start_def fresh_obj_def)

section \<open>The registers\<close>


text \<open>C21: Getting a fence for a bound object.  On success a tiled object has a register that the
  hardware holds its current parameters in, and an untiled one has none.  The register was not
  pinned for another object, and the call reports a deadlock, provided a wait does not, only when every
  register that may be used is pinned.\<close>

theorem get_fence_correct:
  assumes "has_fences dev" and "(fence_step dev)\<^sup>*\<^sup>* (fences_load dev (fences_start swizzle mappable hw)) st"
    and "fo_gtt_space (fe_objs st ob) \<noteq> None" and "i915_gem_object_get_fence dev wait ob st = (ret, st')"
  shows "(ret = None \<and> fo_tiling_mode (fe_objs st ob) \<noteq> I915_TILING_NONE \<longrightarrow>
            (\<exists>i < fe_num st'. fo_fence_reg (fe_objs st' ob) = Some i \<and> fe_hw st' i = fence_value dev (fe_objs st' ob)))
     \<and> (ret = None \<and> fo_tiling_mode (fe_objs st ob) = I915_TILING_NONE \<longrightarrow> fo_fence_reg (fe_objs st' ob) = None)
     \<and> (\<forall>j x. fo_fence_reg (fe_objs st x) = Some j \<and> x \<noteq> ob \<and> 0 < fr_pin_count (fe_regs st j) \<longrightarrow>
            fo_fence_reg (fe_objs st' x) = Some j)
     \<and> (ret = Some EDEADLK \<and> (\<forall>s. wait s \<noteq> Some EDEADLK) \<longrightarrow>
            (\<forall>j. fe_start st \<le> j \<and> j < fe_num st \<longrightarrow> 0 < fr_pin_count (fe_regs st j)))"
proof -
  have inv: "fence_inv dev st" by (rule fence_steps_inv [OF assms(2,1) fences_load_inv [OF assms(1)]])
  have ok: "fence_inv dev st'"
     "ret = None \<longrightarrow> (if fo_tiling_mode (fe_objs st ob) \<noteq> I915_TILING_NONE
          then \<exists>i. fo_fence_reg (fe_objs st' ob) = Some i \<and> \<not> fo_fence_dirty (fe_objs st' ob)
          else fo_fence_reg (fe_objs st' ob) = None)"
     "\<And>j x. fr_obj (fe_regs st j) = Some x \<Longrightarrow> x \<noteq> ob \<Longrightarrow> fr_pin_count (fe_regs st j) \<noteq> 0 \<Longrightarrow> fr_obj (fe_regs st' j) = Some x"
    using get_fence_ok [OF assms(4) inv assms(1,3)] by blast+
  note d = fence_invD [OF ok(1)] and d0 = fence_invD [OF inv]
  have "\<exists>i < fe_num st'. fo_fence_reg (fe_objs st' ob) = Some i \<and> fe_hw st' i = fence_value dev (fe_objs st' ob)"
    if ret: "ret = None" and tl: "fo_tiling_mode (fe_objs st ob) \<noteq> I915_TILING_NONE"
  proof -
    obtain i where i: "fo_fence_reg (fe_objs st' ob) = Some i" "\<not> fo_fence_dirty (fe_objs st' ob)" using ok(2) ret tl by auto
    then have "fr_obj (fe_regs st' i) = Some ob" using d(1) by blast
    then show ?thesis using i d(2) [of i] d(10) by fastforce
  qed
  moreover have "fo_fence_reg (fe_objs st' x) = Some j"
    if "fo_fence_reg (fe_objs st x) = Some j" "x \<noteq> ob" "0 < fr_pin_count (fe_regs st j)" for j x
    using ok(3) [of j x] that d(1) [of x j] d0(1) [of x j] by simp
  moreover have "0 < fr_pin_count (fe_regs st j)"
    if "ret = Some EDEADLK" "\<forall>s. wait s \<noteq> Some EDEADLK" "fe_start st \<le> j" "j < fe_num st" for j
    using assms(4) inv
  proof (cases rule: get_fence_cases)
    case (failed e)
    then show ?thesis using that by auto
  next
    case full
    then have "fr_pin_count (fe_regs st j) \<noteq> 0" using find_fence_reg_spec [OF full(2)] that by simp
    then show ?thesis using d0(5) [of j] by linarith
  qed (use that in simp_all)
  ultimately show ?thesis using ok(2) by auto
qed


text \<open>A Sandybridge machine: an object of one page is bound at 4096 and made X-tiled.\<close>

definition snb :: i915_dev where
  "snb = \<lparr>dv_gen = 6, dv_is_g33 = False, dv_is_i915g = False, dv_is_i945 = False, dv_mobile = False,
     dv_valleyview = False, dv_modeset = True\<rparr>"

definition snb_fences :: fences where
  "snb_fences = fences_load snb (fences_start (0, 0) 0x10000000 (\<lambda>_. 7))"

definition snb_bound :: fences where
  "snb_bound = fobj 0 (\<lambda>b. b\<lparr>fo_gtt_space := Some 4096, fo_gtt_offset := 4096, fo_map_and_fenceable := True\<rparr>) snb_fences"

definition x_tiling :: tiling_args where
  "x_tiling = \<lparr>ta_tiling_mode = I915_TILING_X, ta_stride = 512, ta_swizzle_mode = 0\<rparr>"

definition snb_tiled :: fences where
  "snb_tiled = (case i915_gem_set_tiling snb None (\<lambda>_. None) (Some 0) x_tiling snb_bound of
     None \<Rightarrow> snb_bound | Some (_, _, st) \<Rightarrow> st)"

lemma has_fences_snb: "has_fences snb"
  by (simp add: has_fences_def snb_def)

lemma snb_tiled_reached: "(fence_step snb)\<^sup>*\<^sup>* snb_fences snb_tiled"
proof -
  have "fo_gtt_space (fe_objs snb_fences 0) = None" by code_simp
  then have "fence_step snb snb_fences snb_bound" unfolding snb_bound_def by (rule step_bind)
  moreover have "fence_step snb snb_bound snb_tiled" if "snb_tiled \<noteq> snb_bound"
    using that step_tiling [of snb None "\<lambda>_. None" "Some 0" x_tiling snb_bound]
    by (auto simp: snb_tiled_def split: option.splits)
  ultimately show ?thesis
    by (cases "snb_tiled = snb_bound") (auto intro: rtranclp.rtrancl_into_rtrancl r_into_rtranclp)
qed

theorem get_fence_correct_witness:
  "fo_tiling_mode (fe_objs snb_tiled 0) = I915_TILING_X
     \<and> (\<exists>i < fe_num (snd (i915_gem_object_get_fence snb (\<lambda>_. None) 0 snb_tiled)).
          fo_fence_reg (fe_objs (snd (i915_gem_object_get_fence snb (\<lambda>_. None) 0 snb_tiled)) 0) = Some i)"
proof -
  have t: "fo_tiling_mode (fe_objs snb_tiled 0) = I915_TILING_X" "fo_gtt_space (fe_objs snb_tiled 0) \<noteq> None"
    by code_simp+
  have "fst (i915_gem_object_get_fence snb (\<lambda>_. None) 0 snb_tiled) = None" by code_simp
  then show ?thesis
    using get_fence_correct [OF has_fences_snb snb_tiled_reached [unfolded snb_fences_def], of 0 "\<lambda>_. None"] t
    by (cases "i915_gem_object_get_fence snb (\<lambda>_. None) 0 snb_tiled") (auto simp: tiling_modes)
qed


end
