(* ===== verification/Drm_Irq.thy ===== *)
theory Drm_Irq
  imports C_Int
begin

text \<open>
  Vertical blanks, \<^verbatim>\<open>drm/drm_irq.c\<close>: the software counter and its time stamps, the references
  that keep the interrupt enabled, the events queued for a count, and the ioctls on them; with the
  reading and the release of a file's events of \<^verbatim>\<open>drm/drm_fops.c\<close>.  What the driver answers is
  an argument: one \<open>vbl_round\<close> for each turn of a loop that reads the hardware.
\<close>

unbundle bit_operations_syntax

section \<open>State\<close>

record timeval =
  tv_sec :: int
  tv_usec :: int

text \<open>The conversion of the Linux time library, as its documentation gives it.\<close>

definition timeval_to_ns :: "timeval \<Rightarrow> int" where
  "timeval_to_ns t = tv_sec t * 1000000000 + tv_usec t * 1000"

definition zero_time :: timeval where "zero_time = \<lparr>tv_sec = 0, tv_usec = 0\<rparr>"

record vbl_event =
  ev_pipe :: nat
  ev_file :: nat
  ev_user_data :: u64
  ev_sequence :: u32
  ev_tv_sec :: u32
  ev_tv_usec :: u32

text \<open>\<open>sizeof e->event\<close>.\<close>

definition event_size :: int where "event_size = 32"

record vbl_dev =
  vb_num_crtcs :: nat
  vb_count :: "nat \<Rightarrow> u32"
  vb_refcount :: "nat \<Rightarrow> int"
  vb_enabled :: "nat \<Rightarrow> bool"
  vb_last :: "nat \<Rightarrow> u32"
  vb_last_wait :: "nat \<Rightarrow> u32"
  vb_inmodeset :: "nat \<Rightarrow> u32"
  vb_time :: "nat \<Rightarrow> timeval"
  vb_disable_allowed :: bool
  vb_max_count :: u32
  vb_irq_enabled :: bool
  vb_timer :: bool
  vb_events :: "vbl_event list"
  vb_file_events :: "nat \<Rightarrow> vbl_event list"
  vb_file_space :: "nat \<Rightarrow> int"

text \<open>The ring of two time stamps per CRTC.\<close>

definition DRM_VBLANKTIME_RBSIZE :: nat where "DRM_VBLANKTIME_RBSIZE = 2"

definition time_slot :: "nat \<Rightarrow> u32 \<Rightarrow> nat" where
  "time_slot crtc count = crtc * DRM_VBLANKTIME_RBSIZE + unat (count mod word_of_nat DRM_VBLANKTIME_RBSIZE)"

definition vblanktimestamp :: "vbl_dev \<Rightarrow> nat \<Rightarrow> u32 \<Rightarrow> timeval" where
  "vblanktimestamp dev crtc count = vb_time dev (time_slot crtc count)"

definition set_timestamp :: "nat \<Rightarrow> u32 \<Rightarrow> timeval \<Rightarrow> vbl_dev \<Rightarrow> vbl_dev" where
  "set_timestamp crtc count t dev = dev\<lparr>vb_time := (vb_time dev)(time_slot crtc count := t)\<rparr>"

definition clear_vblank_timestamps :: "nat \<Rightarrow> vbl_dev \<Rightarrow> vbl_dev" where
  "clear_vblank_timestamps crtc dev =
     dev\<lparr>vb_time := \<lambda>i. if crtc * DRM_VBLANKTIME_RBSIZE \<le> i \<and> i < crtc * DRM_VBLANKTIME_RBSIZE + DRM_VBLANKTIME_RBSIZE
                        then zero_time else vb_time dev i\<rparr>"

section \<open>Reading the hardware\<close>

text \<open>One turn: the counter before, the answer of the driver's time stamp function if it has one, the
  system time, and the counter after.\<close>

record vbl_round =
  vr_before :: u32
  vr_driver :: "(int \<times> timeval) option"
  vr_now :: timeval
  vr_after :: u32

definition DRM_TIMESTAMP_MAXRETRIES :: nat where "DRM_TIMESTAMP_MAXRETRIES = 3"
definition DRM_REDUNDANT_VBLIRQ_THRESH_NS :: int where "DRM_REDUNDANT_VBLIRQ_THRESH_NS = 1000000"

text \<open>\<open>precision\<close> is the module parameter, in microseconds.\<close>

definition drm_get_last_vbltimestamp :: "u32 \<Rightarrow> vbl_round \<Rightarrow> u32 \<times> timeval" where
  "drm_get_last_vbltimestamp precision r =
     (case vr_driver r of
        None \<Rightarrow> (0, vr_now r)
      | Some (ret, t) \<Rightarrow>
          if 0 < s32i (s32i (uint precision) * 1000) \<and> 0 < ret then (word_of_int ret, t) else (0, vr_now r))"

partial_function (option) vbl_read :: "u32 \<Rightarrow> (nat \<Rightarrow> vbl_round) \<Rightarrow> nat \<Rightarrow> (u32 \<times> u32 \<times> timeval) option" where
  [code]: "vbl_read precision rs n =
     (if vr_before (rs n) \<noteq> vr_after (rs n) then vbl_read precision rs (n + 1)
      else Some (vr_before (rs n), drm_get_last_vbltimestamp precision (rs n)))"

text \<open>The loop of the disabling, with \<open>count\<close> turns left.\<close>

fun vbl_save_read :: "u32 \<Rightarrow> (nat \<Rightarrow> vbl_round) \<Rightarrow> nat \<Rightarrow> nat \<Rightarrow> u32 \<times> u32 \<times> timeval" where
  "vbl_save_read precision rs n 0 = (vr_before (rs n), 0, vr_now (rs n))"
| "vbl_save_read precision rs n (Suc count) =
     (case drm_get_last_vbltimestamp precision (rs n) of (vblrc, t) \<Rightarrow>
        if vr_before (rs n) \<noteq> vr_after (rs n)
        then if count = 0 then (vr_before (rs n), 0, t)
             else if vblrc \<noteq> 0 then vbl_save_read precision rs (n + 1) count
             else (vr_before (rs n), vblrc, t)
        else (vr_before (rs n), vblrc, t))"

section \<open>Counting\<close>

definition vblank_disable_and_save :: "u32 \<Rightarrow> (nat \<Rightarrow> vbl_round) \<Rightarrow> nat \<Rightarrow> vbl_dev \<Rightarrow> vbl_dev" where
  "vblank_disable_and_save precision rs crtc dev =
     (let dev = dev\<lparr>vb_enabled := (vb_enabled dev)(crtc := False)\<rparr>
      in case vbl_save_read precision rs 0 DRM_TIMESTAMP_MAXRETRIES of (hw, vblrc, t) \<Rightarrow>
        let dev = dev\<lparr>vb_last := (vb_last dev)(crtc := hw)\<rparr>;
            vblcount = vb_count dev crtc;
            diff_ns = timeval_to_ns t - timeval_to_ns (vblanktimestamp dev crtc vblcount);
            dev = (if 0 < sint vblrc \<and> 1000000 < \<bar>diff_ns\<bar>
                   then dev\<lparr>vb_count := (vb_count dev)(crtc := vblcount + 1)\<rparr> else dev)
        in clear_vblank_timestamps crtc dev)"

definition drm_update_vblank_count :: "u32 \<Rightarrow> (nat \<Rightarrow> vbl_round) \<Rightarrow> nat \<Rightarrow> vbl_dev \<Rightarrow> vbl_dev option" where
  "drm_update_vblank_count precision rs crtc dev =
     map_option (\<lambda>(cur, rc, t).
        let diff = cur - vb_last dev crtc;
            diff = (if cur < vb_last dev crtc then diff + vb_max_count dev else diff);
            dev = (if rc \<noteq> 0 then set_timestamp crtc (vb_count dev crtc + diff) t dev else dev)
        in dev\<lparr>vb_count := (vb_count dev)(crtc := vb_count dev crtc + diff)\<rparr>)
       (vbl_read precision rs 0)"

definition drm_vblank_count :: "vbl_dev \<Rightarrow> nat \<Rightarrow> u32" where
  "drm_vblank_count dev crtc = vb_count dev crtc"

definition drm_vblank_count_and_time :: "vbl_dev \<Rightarrow> nat \<Rightarrow> u32 \<times> timeval" where
  "drm_vblank_count_and_time dev crtc = (vb_count dev crtc, vblanktimestamp dev crtc (vb_count dev crtc))"

section \<open>References\<close>

text \<open>\<open>enable\<close> is the driver's answer; \<open>None\<close> is a read of the counter that never settles.\<close>

definition drm_vblank_get ::
    "u32 \<Rightarrow> errno option \<Rightarrow> (nat \<Rightarrow> vbl_round) \<Rightarrow> nat \<Rightarrow> vbl_dev \<Rightarrow> (errno option \<times> vbl_dev) option" where
  "drm_vblank_get precision enable rs crtc dev =
     (let n = vb_refcount dev crtc + 1;
          got = dev\<lparr>vb_refcount := (vb_refcount dev)(crtc := n)\<rparr>
      in if n = 1 then
           (if \<not> vb_enabled dev crtc then
              (case enable of
                 Some e \<Rightarrow> Some (Some e, dev)
               | None \<Rightarrow> map_option (Pair None)
                           (drm_update_vblank_count precision rs crtc (got\<lparr>vb_enabled := (vb_enabled dev)(crtc := True)\<rparr>)))
            else Some (None, got))
         else if \<not> vb_enabled dev crtc then Some (Some EINVAL, dev)
         else Some (None, got))"

text \<open>\<open>offdelay\<close> is the module parameter.\<close>

definition drm_vblank_put :: "u32 \<Rightarrow> nat \<Rightarrow> vbl_dev \<Rightarrow> vbl_dev outcome" where
  "drm_vblank_put offdelay crtc dev =
     (if vb_refcount dev crtc = 0 then Bug
      else let dev = dev\<lparr>vb_refcount := (vb_refcount dev)(crtc := vb_refcount dev crtc - 1)\<rparr>
           in Ok (if vb_refcount dev crtc = 0 \<and> 0 < offdelay then dev\<lparr>vb_timer := True\<rparr> else dev))"

fun vblank_disable_all :: "u32 \<Rightarrow> (nat \<Rightarrow> nat \<Rightarrow> vbl_round) \<Rightarrow> nat list \<Rightarrow> vbl_dev \<Rightarrow> vbl_dev" where
  "vblank_disable_all precision rs [] dev = dev"
| "vblank_disable_all precision rs (i # is) dev =
     vblank_disable_all precision rs is
       (if vb_refcount dev i = 0 \<and> vb_enabled dev i then vblank_disable_and_save precision (rs i) i dev else dev)"

definition vblank_disable_fn :: "u32 \<Rightarrow> (nat \<Rightarrow> nat \<Rightarrow> vbl_round) \<Rightarrow> vbl_dev \<Rightarrow> vbl_dev" where
  "vblank_disable_fn precision rs dev =
     (if \<not> vb_disable_allowed dev then dev
      else vblank_disable_all precision rs [0..<vb_num_crtcs dev] dev)"

definition drm_vblank_cleanup :: "u32 \<Rightarrow> (nat \<Rightarrow> nat \<Rightarrow> vbl_round) \<Rightarrow> vbl_dev \<Rightarrow> vbl_dev" where
  "drm_vblank_cleanup precision rs dev =
     (if vb_num_crtcs dev = 0 then dev
      else (vblank_disable_fn precision rs (dev\<lparr>vb_timer := False\<rparr>))\<lparr>vb_num_crtcs := 0\<rparr>)"

text \<open>\<open>allocs\<close> says which of the eight allocations succeed.\<close>

definition drm_vblank_init ::
    "u32 \<Rightarrow> (nat \<Rightarrow> nat \<Rightarrow> vbl_round) \<Rightarrow> bool list \<Rightarrow> nat \<Rightarrow> vbl_dev \<Rightarrow> errno option \<times> vbl_dev" where
  "drm_vblank_init precision rs allocs n dev =
     (let dev = dev\<lparr>vb_num_crtcs := n\<rparr>
      in if False \<in> set allocs then (Some ENOMEM, drm_vblank_cleanup precision rs dev)
         else (None, dev\<lparr>vb_enabled := \<lambda>_. False, vb_last := \<lambda>_. 0, vb_last_wait := \<lambda>_. 0, vb_inmodeset := \<lambda>_. 0,
                         vb_time := \<lambda>_. zero_time, vb_count := \<lambda>_. 0, vb_refcount := \<lambda>_. 0, vb_disable_allowed := False\<rparr>))"

section \<open>Events\<close>

definition send_vblank_event :: "vbl_event \<Rightarrow> u32 \<Rightarrow> timeval \<Rightarrow> vbl_dev \<Rightarrow> vbl_dev" where
  "send_vblank_event e seq now dev =
     dev\<lparr>vb_file_events := (vb_file_events dev)(ev_file e := vb_file_events dev (ev_file e)
           @ [e\<lparr>ev_sequence := seq, ev_tv_sec := word_of_int (tv_sec now), ev_tv_usec := word_of_int (tv_usec now)\<rparr>])\<rparr>"

definition drm_send_vblank_event :: "timeval \<Rightarrow> int \<Rightarrow> vbl_event \<Rightarrow> vbl_dev \<Rightarrow> vbl_dev" where
  "drm_send_vblank_event stamp crtc e dev =
     (case (if 0 \<le> crtc then drm_vblank_count_and_time dev (nat crtc) else (0, stamp)) of
        (seq, now) \<Rightarrow> send_vblank_event e seq now dev)"

text \<open>The walk over the queue that delivers the events chosen by \<open>due\<close>.\<close>

fun deliver_events :: "u32 \<Rightarrow> (vbl_event \<Rightarrow> bool) \<Rightarrow> u32 \<Rightarrow> timeval \<Rightarrow> vbl_event list \<Rightarrow> vbl_dev \<Rightarrow> vbl_dev outcome" where
  "deliver_events offdelay due seq now [] dev = Ok dev"
| "deliver_events offdelay due seq now (e # es) dev =
     (if \<not> due e then deliver_events offdelay due seq now es dev
      else bind_outcome (drm_vblank_put offdelay (ev_pipe e) (dev\<lparr>vb_events := remove1 e (vb_events dev)\<rparr>))
             (\<lambda>dev. deliver_events offdelay due seq now es (send_vblank_event e seq now dev)))"

definition drm_handle_vblank_events :: "u32 \<Rightarrow> nat \<Rightarrow> vbl_dev \<Rightarrow> vbl_dev outcome" where
  "drm_handle_vblank_events offdelay crtc dev =
     (case drm_vblank_count_and_time dev crtc of (seq, now) \<Rightarrow>
        deliver_events offdelay (\<lambda>e. ev_pipe e = crtc \<and> \<not> (2 ^ 23 < seq - ev_sequence e)) seq now (vb_events dev) dev)"

definition drm_handle_vblank :: "u32 \<Rightarrow> u32 \<Rightarrow> vbl_round \<Rightarrow> nat \<Rightarrow> vbl_dev \<Rightarrow> (bool \<times> vbl_dev) outcome" where
  "drm_handle_vblank precision offdelay r crtc dev =
     (if vb_num_crtcs dev = 0 then Ok (False, dev)
      else if \<not> vb_enabled dev crtc then Ok (False, dev)
      else let vblcount = vb_count dev crtc;
               t = snd (drm_get_last_vbltimestamp precision r);
               diff_ns = timeval_to_ns t - timeval_to_ns (vblanktimestamp dev crtc vblcount);
               dev = (if DRM_REDUNDANT_VBLIRQ_THRESH_NS < \<bar>diff_ns\<bar>
                      then (set_timestamp crtc (vblcount + 1) t dev)\<lparr>vb_count := (vb_count dev)(crtc := vblcount + 1)\<rparr>
                      else dev)
           in bind_outcome (drm_handle_vblank_events offdelay crtc dev) (\<lambda>dev. Ok (True, dev)))"

definition drm_vblank_off :: "u32 \<Rightarrow> u32 \<Rightarrow> (nat \<Rightarrow> vbl_round) \<Rightarrow> nat \<Rightarrow> vbl_dev \<Rightarrow> vbl_dev outcome" where
  "drm_vblank_off precision offdelay rs crtc dev =
     (let dev = vblank_disable_and_save precision rs crtc dev
      in case drm_vblank_count_and_time dev crtc of (seq, now) \<Rightarrow>
           deliver_events offdelay (\<lambda>e. ev_pipe e = crtc) seq now (vb_events dev) dev)"

section \<open>Mode setting\<close>

definition drm_vblank_pre_modeset ::
    "u32 \<Rightarrow> errno option \<Rightarrow> (nat \<Rightarrow> vbl_round) \<Rightarrow> nat \<Rightarrow> vbl_dev \<Rightarrow> vbl_dev option" where
  "drm_vblank_pre_modeset precision enable rs crtc dev =
     (if vb_num_crtcs dev = 0 then Some dev
      else if vb_inmodeset dev crtc = 0
      then map_option (\<lambda>(ret, dev). if ret = None
                                     then dev\<lparr>vb_inmodeset := (vb_inmodeset dev)(crtc := vb_inmodeset dev crtc OR 2)\<rparr> else dev)
             (drm_vblank_get precision enable rs crtc (dev\<lparr>vb_inmodeset := (vb_inmodeset dev)(crtc := 1)\<rparr>))
      else Some dev)"

definition drm_vblank_post_modeset :: "u32 \<Rightarrow> nat \<Rightarrow> vbl_dev \<Rightarrow> vbl_dev outcome" where
  "drm_vblank_post_modeset offdelay crtc dev =
     (if vb_num_crtcs dev = 0 then Ok dev
      else if vb_inmodeset dev crtc \<noteq> 0
      then bind_outcome (let dev = dev\<lparr>vb_disable_allowed := True\<rparr>
                         in if vb_inmodeset dev crtc AND 2 \<noteq> 0 then drm_vblank_put offdelay crtc dev else Ok dev)
             (\<lambda>dev. Ok (dev\<lparr>vb_inmodeset := (vb_inmodeset dev)(crtc := 0)\<rparr>))
      else Ok dev)"

definition DRM_PRE_MODESET :: u32 where "DRM_PRE_MODESET = 1"
definition DRM_POST_MODESET :: u32 where "DRM_POST_MODESET = 2"

definition drm_modeset_ctl ::
    "u32 \<Rightarrow> u32 \<Rightarrow> bool \<Rightarrow> errno option \<Rightarrow> (nat \<Rightarrow> vbl_round) \<Rightarrow> u32 \<Rightarrow> u32 \<Rightarrow> vbl_dev \<Rightarrow> (errno option \<times> vbl_dev) outcome option" where
  "drm_modeset_ctl precision offdelay modeset enable rs crtc cmd dev =
     (if vb_num_crtcs dev = 0 then Some (Ok (None, dev))
      else if modeset then Some (Ok (None, dev))
      else if vb_num_crtcs dev \<le> unat crtc then Some (Ok (Some EINVAL, dev))
      else if cmd = DRM_PRE_MODESET
      then map_option (\<lambda>dev. Ok (None, dev)) (drm_vblank_pre_modeset precision enable rs (unat crtc) dev)
      else if cmd = DRM_POST_MODESET
      then Some (bind_outcome (drm_vblank_post_modeset offdelay (unat crtc) dev) (\<lambda>dev. Ok (None, dev)))
      else Some (Ok (Some EINVAL, dev)))"

section \<open>Waiting\<close>

text \<open>The request and the reply share their memory: \<open>vw_signal\<close> is the seconds of the reply.\<close>

record vbl_wait =
  vw_type :: u32
  vw_sequence :: u32
  vw_signal :: u64
  vw_usec :: u64

definition VBLANK_RELATIVE :: u32 where "VBLANK_RELATIVE = 1"
definition VBLANK_HIGH_CRTC_MASK :: u32 where "VBLANK_HIGH_CRTC_MASK = 0x3e"
definition VBLANK_HIGH_CRTC_SHIFT :: nat where "VBLANK_HIGH_CRTC_SHIFT = 1"
definition VBLANK_EVENT :: u32 where "VBLANK_EVENT = 0x4000000"
definition VBLANK_NEXTONMISS :: u32 where "VBLANK_NEXTONMISS = 0x10000000"
definition VBLANK_SECONDARY :: u32 where "VBLANK_SECONDARY = 0x20000000"
definition VBLANK_SIGNAL :: u32 where "VBLANK_SIGNAL = 0x40000000"
definition VBLANK_TYPES_MASK :: u32 where "VBLANK_TYPES_MASK = 0 OR VBLANK_RELATIVE"
definition VBLANK_FLAGS_MASK :: u32 where
  "VBLANK_FLAGS_MASK = VBLANK_EVENT OR VBLANK_SIGNAL OR VBLANK_SECONDARY OR VBLANK_NEXTONMISS"

lemmas vblank_flags = VBLANK_RELATIVE_def VBLANK_HIGH_CRTC_MASK_def VBLANK_HIGH_CRTC_SHIFT_def VBLANK_EVENT_def
  VBLANK_NEXTONMISS_def VBLANK_SECONDARY_def VBLANK_SIGNAL_def VBLANK_TYPES_MASK_def VBLANK_FLAGS_MASK_def

definition drm_queue_vblank_event ::
    "u32 \<Rightarrow> bool \<Rightarrow> nat \<Rightarrow> nat \<Rightarrow> vbl_wait \<Rightarrow> vbl_dev \<Rightarrow> (errno option \<times> vbl_wait \<times> vbl_dev) outcome" where
  "drm_queue_vblank_event offdelay alloc file pipe w dev =
     (if \<not> alloc then bind_outcome (drm_vblank_put offdelay pipe dev) (\<lambda>dev. Ok (Some ENOMEM, w, dev))
      else if vb_file_space dev file < event_size
      then bind_outcome (drm_vblank_put offdelay pipe dev) (\<lambda>dev. Ok (Some EBUSY, w, dev))
      else let dev = dev\<lparr>vb_file_space := (vb_file_space dev)(file := vb_file_space dev file - event_size)\<rparr>
           in case drm_vblank_count_and_time dev pipe of (seq, now) \<Rightarrow>
             let w = (if vw_type w AND VBLANK_NEXTONMISS \<noteq> 0 \<and> seq - vw_sequence w \<le> 2 ^ 23
                      then w\<lparr>vw_sequence := seq + 1\<rparr> else w);
                 e = \<lparr>ev_pipe = pipe, ev_file = file, ev_user_data = vw_signal w, ev_sequence = vw_sequence w,
                      ev_tv_sec = 0, ev_tv_usec = 0\<rparr>
             in if seq - vw_sequence w \<le> 2 ^ 23
                then bind_outcome (drm_vblank_put offdelay pipe dev)
                       (\<lambda>dev. Ok (None, w\<lparr>vw_sequence := seq\<rparr>, send_vblank_event e seq now dev))
                else Ok (None, w, dev\<lparr>vb_events := vb_events dev @ [e]\<rparr>))"

text \<open>Each sleep ends with an error or none, after the rest of the system has changed the device.\<close>

type_synonym vbl_sleep = "errno option \<times> (vbl_dev \<Rightarrow> vbl_dev)"

fun vbl_wait_loop :: "nat \<Rightarrow> u32 \<Rightarrow> vbl_sleep list \<Rightarrow> errno option \<Rightarrow> vbl_dev \<Rightarrow> (errno option \<times> vbl_dev) option" where
  "vbl_wait_loop crtc target ws ret dev =
     (if \<not> (2 ^ 23 < drm_vblank_count dev crtc - target \<and> vb_irq_enabled dev) then Some (ret, dev)
      else case ws of
        [] \<Rightarrow> None
      | (e, env) # ws \<Rightarrow>
          let ret = (if e = Some ERESTART then Some ERESTARTSYS else e); dev = env dev
          in if ret \<noteq> None then Some (ret, dev) else vbl_wait_loop crtc target ws ret dev)"

definition wait_crtc :: "u32 \<Rightarrow> u32" where
  "wait_crtc type =
     (let high = type AND VBLANK_HIGH_CRTC_MASK
      in if high \<noteq> 0 then drop_bit VBLANK_HIGH_CRTC_SHIFT high
         else if type AND VBLANK_FLAGS_MASK AND VBLANK_SECONDARY \<noteq> 0 then 1 else 0)"

text \<open>\<open>None\<close> is a read of the counter that never settles, or a sleep that never ends.\<close>

definition drm_wait_vblank ::
    "u32 \<Rightarrow> u32 \<Rightarrow> errno option \<Rightarrow> (nat \<Rightarrow> vbl_round) \<Rightarrow> bool \<Rightarrow> vbl_sleep list \<Rightarrow> nat \<Rightarrow> vbl_wait \<Rightarrow> vbl_dev \<Rightarrow>
     (errno option \<times> vbl_wait \<times> vbl_dev) outcome option" where
  "drm_wait_vblank precision offdelay enable rs alloc ws file w dev =
     (if \<not> vb_irq_enabled dev then Some (Ok (Some EINVAL, w, dev))
      else if vw_type w AND VBLANK_SIGNAL \<noteq> 0 then Some (Ok (Some EINVAL, w, dev))
      else if vw_type w AND NOT (VBLANK_TYPES_MASK OR VBLANK_FLAGS_MASK OR VBLANK_HIGH_CRTC_MASK) \<noteq> 0
      then Some (Ok (Some EINVAL, w, dev))
      else let flags = vw_type w AND VBLANK_FLAGS_MASK; crtc = unat (wait_crtc (vw_type w))
      in if vb_num_crtcs dev \<le> crtc then Some (Ok (Some EINVAL, w, dev))
      else case drm_vblank_get precision enable rs crtc dev of
        None \<Rightarrow> None
      | Some (Some e, dev) \<Rightarrow> Some (Ok (Some e, w, dev))
      | Some (None, dev) \<Rightarrow>
          let seq = drm_vblank_count dev crtc;
              w = (if vw_type w AND VBLANK_TYPES_MASK = VBLANK_RELATIVE
                   then w\<lparr>vw_sequence := vw_sequence w + seq, vw_type := vw_type w AND NOT VBLANK_RELATIVE\<rparr> else w)
          in if flags AND VBLANK_EVENT \<noteq> 0 then Some (drm_queue_vblank_event offdelay alloc file crtc w dev)
             else let w = (if flags AND VBLANK_NEXTONMISS \<noteq> 0 \<and> seq - vw_sequence w \<le> 2 ^ 23
                           then w\<lparr>vw_sequence := seq + 1\<rparr> else w);
                      dev = dev\<lparr>vb_last_wait := (vb_last_wait dev)(crtc := vw_sequence w)\<rparr>
                  in map_option (\<lambda>(ret, dev).
                       let w = (if ret \<noteq> Some EINTR
                                then case drm_vblank_count_and_time dev crtc of (n, now) \<Rightarrow>
                                       w\<lparr>vw_sequence := n, vw_signal := word_of_int (tv_sec now), vw_usec := word_of_int (tv_usec now)\<rparr>
                                else w)
                       in bind_outcome (drm_vblank_put offdelay crtc dev) (\<lambda>dev. Ok (ret, w, dev)))
                     (vbl_wait_loop crtc (vw_sequence w) ws None dev))"

section \<open>Reading and releasing the events of a file\<close>

definition drm_dequeue_event :: "nat \<Rightarrow> int \<Rightarrow> vbl_dev \<Rightarrow> (vbl_event \<times> vbl_dev) option" where
  "drm_dequeue_event file resid dev =
     (case vb_file_events dev file of
        [] \<Rightarrow> None
      | e # es \<Rightarrow>
          if resid < event_size then None
          else Some (e, dev\<lparr>vb_file_space := (vb_file_space dev)(file := vb_file_space dev file + event_size),
                            vb_file_events := (vb_file_events dev)(file := es)\<rparr>))"

text \<open>The copying loop; \<open>copies\<close> are the results of the copies to user space, and an exhausted list
  stands for success.\<close>

function read_events :: "nat \<Rightarrow> int \<Rightarrow> errno option list \<Rightarrow> vbl_dev \<Rightarrow> errno option \<times> vbl_event list \<times> vbl_dev" where
  "read_events file resid copies dev =
     (case drm_dequeue_event file resid dev of
        None \<Rightarrow> (None, [], dev)
      | Some (e, dev) \<Rightarrow>
          (case copies of
             Some err # _ \<Rightarrow> (Some err, [], dev)
           | _ \<Rightarrow> (case read_events file (resid - event_size) (tl copies) dev of (ret, es, dev) \<Rightarrow> (ret, e # es, dev))))"
  by pat_completeness auto
termination
  by (relation "measure (\<lambda>(file, resid, copies, dev). length (vb_file_events dev file))")
    (auto simp: drm_dequeue_event_def split: list.splits if_splits)

text \<open>The wait for a first event.\<close>

fun read_wait :: "nat \<Rightarrow> vbl_sleep list \<Rightarrow> vbl_dev \<Rightarrow> (errno option \<times> vbl_dev) option" where
  "read_wait file ws dev =
     (if vb_file_events dev file \<noteq> [] then Some (None, dev)
      else case ws of
        [] \<Rightarrow> None
      | (e, env) # ws \<Rightarrow> if e \<noteq> None then Some (e, env dev) else read_wait file ws (env dev))"

definition drm_read ::
    "nat \<Rightarrow> bool \<Rightarrow> vbl_sleep list \<Rightarrow> int \<Rightarrow> errno option list \<Rightarrow> vbl_dev \<Rightarrow> (errno option \<times> vbl_event list \<times> vbl_dev) option" where
  "drm_read file nonblock ws resid copies dev =
     (if vb_file_events dev file = [] \<and> nonblock then Some (Some EAGAIN, [], dev)
      else map_option (\<lambda>(ret, dev). if ret \<noteq> None then (ret, [], dev) else read_events file resid copies dev)
             (read_wait file ws dev))"

definition drm_poll :: "nat \<Rightarrow> u32 \<Rightarrow> vbl_dev \<Rightarrow> u32" where
  "drm_poll file events dev =
     (let readable = 0x41 in if events AND readable \<noteq> 0 \<and> vb_file_events dev file \<noteq> [] then events AND readable else 0)"

fun release_pending :: "u32 \<Rightarrow> nat \<Rightarrow> vbl_event list \<Rightarrow> vbl_dev \<Rightarrow> vbl_dev outcome" where
  "release_pending offdelay file [] dev = Ok dev"
| "release_pending offdelay file (e # es) dev =
     (if ev_file e \<noteq> file then release_pending offdelay file es dev
      else bind_outcome (drm_vblank_put offdelay (ev_pipe e) (dev\<lparr>vb_events := remove1 e (vb_events dev)\<rparr>))
             (release_pending offdelay file es))"

definition drm_events_release :: "u32 \<Rightarrow> nat \<Rightarrow> vbl_dev \<Rightarrow> vbl_dev outcome" where
  "drm_events_release offdelay file dev =
     bind_outcome (release_pending offdelay file (vb_events dev) dev)
       (\<lambda>dev. Ok (dev\<lparr>vb_file_events := (vb_file_events dev)(file := [])\<rparr>))"

section \<open>The interrupt handler\<close>

text \<open>\<open>setup\<close> and \<open>post\<close> are the results of setting the interrupt up and of the driver's
  second half; the flag of the result says whether the handler is left installed.\<close>

definition drm_irq_install ::
    "bool \<Rightarrow> u32 \<Rightarrow> bool \<Rightarrow> errno option \<Rightarrow> errno option \<Rightarrow> vbl_dev \<Rightarrow> errno option \<times> bool \<times> vbl_dev" where
  "drm_irq_install have_irq irq private setup post dev =
     (if \<not> have_irq \<or> irq = 0 \<or> \<not> private then (Some EINVAL, False, dev)
      else if vb_irq_enabled dev then (Some EBUSY, True, dev)
      else if setup \<noteq> None then (setup, False, dev\<lparr>vb_irq_enabled := False\<rparr>)
      else if post \<noteq> None then (post, False, dev\<lparr>vb_irq_enabled := False\<rparr>)
      else (None, True, dev\<lparr>vb_irq_enabled := True\<rparr>))"

definition drm_irq_uninstall :: "bool \<Rightarrow> (nat \<Rightarrow> u32) \<Rightarrow> vbl_dev \<Rightarrow> errno option \<times> vbl_dev" where
  "drm_irq_uninstall have_irq counters dev =
     (if \<not> have_irq then (Some EINVAL, dev)
      else let on = vb_irq_enabled dev; n = vb_num_crtcs dev
           in (if on then None else Some EINVAL,
               dev\<lparr>vb_irq_enabled := False,
                   vb_enabled := \<lambda>i. if i < n then False else vb_enabled dev i,
                   vb_last := \<lambda>i. if i < n then counters i else vb_last dev i\<rparr>))"

definition DRM_INST_HANDLER :: u32 where "DRM_INST_HANDLER = 2"
definition DRM_UNINST_HANDLER :: u32 where "DRM_UNINST_HANDLER = 3"

definition drm_control ::
    "bool \<Rightarrow> bool \<Rightarrow> bool \<Rightarrow> u32 \<Rightarrow> bool \<Rightarrow> errno option \<Rightarrow> errno option \<Rightarrow> (nat \<Rightarrow> u32) \<Rightarrow> u32 \<Rightarrow> u32 \<Rightarrow> vbl_dev \<Rightarrow>
     errno option \<times> vbl_dev" where
  "drm_control have_irq modeset old_interface irq private setup post counters func arg_irq dev =
     (if func = DRM_INST_HANDLER then
        (if \<not> have_irq \<or> modeset then (None, dev)
         else if old_interface \<and> arg_irq \<noteq> irq then (Some EINVAL, dev)
         else case drm_irq_install have_irq irq private setup post dev of (ret, _, dev) \<Rightarrow> (ret, dev))
      else if func = DRM_UNINST_HANDLER then
        (if \<not> have_irq \<or> modeset then (None, dev) else drm_irq_uninstall have_irq counters dev)
      else (Some EINVAL, dev))"


end
