(* ===== verification/Drm_Irq_Proofs.thy ===== *)
theory Drm_Irq_Proofs
  imports Drm_Irq
begin

text \<open>
  Lemmas on the vertical blanks: what the delivery of events does, the balance of the references
  and of the space for events, and which fields of a CRTC each operation leaves alone.
\<close>

unbundle bit_operations_syntax

section \<open>Delivery\<close>

definition on_crtc :: "nat \<Rightarrow> vbl_event list \<Rightarrow> int" where
  "on_crtc c es = int (length (filter (\<lambda>e. ev_pipe e = c) es))"

definition of_file :: "nat \<Rightarrow> vbl_event list \<Rightarrow> int" where
  "of_file f es = int (length (filter (\<lambda>e. ev_file e = f) es))"

definition stamped :: "u32 \<Rightarrow> timeval \<Rightarrow> vbl_event \<Rightarrow> vbl_event" where
  "stamped seq now e = e\<lparr>ev_sequence := seq, ev_tv_sec := word_of_int (tv_sec now), ev_tv_usec := word_of_int (tv_usec now)\<rparr>"

lemma counts_simps [simp]:
  "on_crtc c [] = 0" "on_crtc c (e # es) = (if ev_pipe e = c then 1 else 0) + on_crtc c es" "on_crtc c (es @ fs) = on_crtc c es + on_crtc c fs"
  "of_file f [] = 0" "of_file f (e # es) = (if ev_file e = f then 1 else 0) + of_file f es" "of_file f (es @ fs) = of_file f es + of_file f fs"
  "0 \<le> on_crtc c es" "0 \<le> of_file f es"
  by (simp_all add: on_crtc_def of_file_def)

lemma counts_split:
  "on_crtc c (filter P es) + on_crtc c (filter (\<lambda>e. \<not> P e) es) = on_crtc c es"
  "of_file f (filter P es) + of_file f (filter (\<lambda>e. \<not> P e) es) = of_file f es"
  by (induction es) auto

lemma counts_filter_le: "on_crtc c (filter P es) \<le> on_crtc c es"
  by (induction es) auto

lemma fold_remove1_filter:
  "\<forall>y \<in> set ys. \<not> P y \<Longrightarrow> fold remove1 (filter P xs) (ys @ xs) = ys @ filter (\<lambda>x. \<not> P x) xs"
proof (induction xs arbitrary: ys)
  case (Cons x xs)
  show ?case
  proof (cases "P x")
    case True
    then have "x \<notin> set ys" using Cons.prems by auto
    then show ?thesis using Cons True by (simp add: remove1_append)
  next
    case False
    then show ?thesis using Cons.IH [of "ys @ [x]"] Cons.prems by auto
  qed
qed simp

text \<open>A device after the events \<open>ds\<close> were delivered.\<close>

definition delivered :: "u32 \<Rightarrow> timeval \<Rightarrow> vbl_event list \<Rightarrow> bool \<Rightarrow> vbl_dev \<Rightarrow> vbl_dev" where
  "delivered seq now ds t dev = dev
     \<lparr>vb_events := fold remove1 ds (vb_events dev), vb_refcount := \<lambda>c. vb_refcount dev c - on_crtc c ds,
      vb_file_events := \<lambda>f. vb_file_events dev f @ map (stamped seq now) (filter (\<lambda>e. ev_file e = f) ds), vb_timer := t\<rparr>"

lemma vblank_put_Ok:
  "vb_refcount dev c \<noteq> 0 \<Longrightarrow> \<exists>t. drm_vblank_put offdelay c dev
     = Ok (dev\<lparr>vb_refcount := (vb_refcount dev)(c := vb_refcount dev c - 1), vb_timer := t\<rparr>)"
  by (auto simp: drm_vblank_put_def Let_def intro: exI [of _ "vb_timer dev"] exI [of _ True])

lemma deliver_events_Ok:
  assumes "\<forall>c. on_crtc c (filter due es) \<le> vb_refcount dev c"
  shows "\<exists>t. deliver_events offdelay due seq now es dev = Ok (delivered seq now (filter due es) t dev)"
  using assms
proof (induction es arbitrary: dev)
  case Nil
  show ?case by (auto simp: delivered_def intro: exI [of _ "vb_timer dev"])
next
  case (Cons e es)
  show ?case
  proof (cases "due e")
    case False
    then show ?thesis using Cons by simp
  next
    case True
    let ?dev = "dev\<lparr>vb_events := remove1 e (vb_events dev)\<rparr>"
    have r: "vb_refcount dev c = vb_refcount dev c" "(if ev_pipe e = c then 1 else 0) + on_crtc c (filter due es) \<le> vb_refcount dev c" for c
      using Cons.prems True by (simp_all)
    have "vb_refcount ?dev (ev_pipe e) \<noteq> 0" using r(2) [of "ev_pipe e"] by (auto simp: on_crtc_def)
    then obtain t where t: "drm_vblank_put offdelay (ev_pipe e) ?dev
       = Ok (?dev\<lparr>vb_refcount := (vb_refcount dev)(ev_pipe e := vb_refcount dev (ev_pipe e) - 1), vb_timer := t\<rparr>)"
      using vblank_put_Ok [of ?dev "ev_pipe e"] by auto
    let ?next = "send_vblank_event e seq now (?dev\<lparr>vb_refcount := (vb_refcount dev)(ev_pipe e := vb_refcount dev (ev_pipe e) - 1), vb_timer := t\<rparr>)"
    have "\<forall>c. on_crtc c (filter due es) \<le> vb_refcount ?next c"
    proof
      fix c
      show "on_crtc c (filter due es) \<le> vb_refcount ?next c" using r(2) [of c] by (auto simp: send_vblank_event_def split: if_splits)
    qed
    from Cons.IH [OF this] obtain t' where
      "deliver_events offdelay due seq now es ?next = Ok (delivered seq now (filter due es) t' ?next)" by blast
    moreover have "delivered seq now (filter due es) t' ?next = delivered seq now (filter due (e # es)) t' dev"
      using True by (auto simp: delivered_def send_vblank_event_def stamped_def fun_eq_iff)
    ultimately show ?thesis using True t by auto
  qed
qed


lemma walk_whole_queue: "fold remove1 (filter P xs) xs = filter (\<lambda>x. \<not> P x) xs"
  using fold_remove1_filter [of "[]" P xs] by simp

section \<open>Balance\<close>

text \<open>The references of a CRTC belong to the callers between a get and a put, counted by \<open>u\<close>, to the
  queued events, and to a mode set in progress.\<close>

definition refs_ok :: "(nat \<Rightarrow> nat) \<Rightarrow> vbl_dev \<Rightarrow> bool" where
  "refs_ok u dev \<longleftrightarrow> (\<forall>c. vb_refcount dev c = int (u c) + on_crtc c (vb_events dev) + (if vb_inmodeset dev c AND 2 \<noteq> 0 then 1 else 0))"

text \<open>What a file has outstanding is paid for out of its 4096 bytes.\<close>

definition space_ok :: "vbl_dev \<Rightarrow> bool" where
  "space_ok dev \<longleftrightarrow> (\<forall>f. 0 \<le> vb_file_space dev f
     \<and> vb_file_space dev f + event_size * (of_file f (vb_events dev) + int (length (vb_file_events dev f))) \<le> 4096)"

definition vbl_inv :: "(nat \<Rightarrow> nat) \<times> vbl_dev \<Rightarrow> bool" where
  "vbl_inv s \<longleftrightarrow> refs_ok (fst s) (snd s) \<and> space_ok (snd s)"

lemma vbl_inv_cong:
  "vb_refcount dev' = vb_refcount dev \<Longrightarrow> vb_events dev' = vb_events dev \<Longrightarrow> vb_inmodeset dev' = vb_inmodeset dev \<Longrightarrow>
   vb_file_space dev' = vb_file_space dev \<Longrightarrow> vb_file_events dev' = vb_file_events dev \<Longrightarrow> vbl_inv (u, dev') = vbl_inv (u, dev)"
  by (simp add: vbl_inv_def refs_ok_def space_ok_def)

lemma refs_okD: "refs_ok u dev \<Longrightarrow> vb_refcount dev c = int (u c) + on_crtc c (vb_events dev) + (if vb_inmodeset dev c AND 2 \<noteq> 0 then 1 else 0)"
  by (auto simp: refs_ok_def)

lemma space_okD: "space_ok dev \<Longrightarrow> 0 \<le> vb_file_space dev f"
  "space_ok dev \<Longrightarrow> vb_file_space dev f + event_size * (of_file f (vb_events dev) + int (length (vb_file_events dev f))) \<le> 4096"
  by (auto simp: space_ok_def)

lemma length_filter_file: "int (length (filter (\<lambda>e. ev_file e = f) es)) = of_file f es"
  by (simp add: of_file_def)

text \<open>A walk over the whole queue delivers what is due and keeps the balance.\<close>

lemma deliver_queue:
  assumes "vbl_inv (u, dev)"
  obtains t where "deliver_events offdelay due seq now (vb_events dev) dev
      = Ok (delivered seq now (filter due (vb_events dev)) t dev)"
    and "vbl_inv (u, delivered seq now (filter due (vb_events dev)) t dev)"
    and "vb_events (delivered seq now (filter due (vb_events dev)) t dev) = filter (\<lambda>e. \<not> due e) (vb_events dev)"
proof -
  have refs: "refs_ok u dev" and space: "space_ok dev" using assms by (auto simp: vbl_inv_def)
  have le: "on_crtc c (filter due (vb_events dev)) \<le> vb_refcount dev c" for c
    using counts_filter_le [of c due "vb_events dev"] refs_okD [OF refs, of c] by simp
  then obtain t where t: "deliver_events offdelay due seq now (vb_events dev) dev = Ok (delivered seq now (filter due (vb_events dev)) t dev)"
    using deliver_events_Ok [of due "vb_events dev" dev] by blast
  have ev: "vb_events (delivered seq now (filter due (vb_events dev)) t dev) = filter (\<lambda>e. \<not> due e) (vb_events dev)"
    by (simp add: delivered_def walk_whole_queue)
  have "refs_ok u (delivered seq now (filter due (vb_events dev)) t dev)"
    unfolding refs_ok_def ev
    using refs_okD [OF refs] counts_split(1) [of _ due "vb_events dev"] by (simp add: delivered_def) (smt (verit))
  moreover have "space_ok (delivered seq now (filter due (vb_events dev)) t dev)"
    unfolding space_ok_def ev
  proof
    fix f
    show "0 \<le> vb_file_space (delivered seq now (filter due (vb_events dev)) t dev) f
      \<and> vb_file_space (delivered seq now (filter due (vb_events dev)) t dev) f + event_size * (of_file f (filter (\<lambda>e. \<not> due e) (vb_events dev))
        + int (length (vb_file_events (delivered seq now (filter due (vb_events dev)) t dev) f))) \<le> 4096"
      using space_okD [OF space, of f] counts_split(2) [of f due "vb_events dev"]
      by (simp add: delivered_def length_filter_file event_size_def algebra_simps del: filter_filter)
  qed
  ultimately show ?thesis using that t ev by (simp add: vbl_inv_def)
qed

section \<open>Steps\<close>

text \<open>The operations as they interleave; each runs under its locks.  The first component counts, for
  each CRTC, the callers between a get and a put.  \<open>ok\<close> restricts what the hardware answers.\<close>

inductive vbl_step ::
    "u32 \<Rightarrow> u32 \<Rightarrow> (nat \<Rightarrow> (nat \<Rightarrow> vbl_round) \<Rightarrow> bool) \<Rightarrow> (nat \<Rightarrow> nat) \<times> vbl_dev \<Rightarrow> (nat \<Rightarrow> nat) \<times> vbl_dev \<Rightarrow> bool"
  for precision offdelay ok where
  vbl_get: "ok c rs \<Longrightarrow> drm_vblank_get precision enable rs c dev = Some (None, dev') \<Longrightarrow>
     vbl_step precision offdelay ok (u, dev) (u(c := u c + 1), dev')"
| vbl_get_fails: "ok c rs \<Longrightarrow> drm_vblank_get precision enable rs c dev = Some (Some e, dev') \<Longrightarrow>
     vbl_step precision offdelay ok (u, dev) (u, dev')"
| vbl_put: "0 < u c \<Longrightarrow> drm_vblank_put offdelay c dev = Ok dev' \<Longrightarrow>
     vbl_step precision offdelay ok (u, dev) (u(c := u c - 1), dev')"
| vbl_queue: "0 < u c \<Longrightarrow> drm_queue_vblank_event offdelay alloc f c w dev = Ok (ret, w', dev') \<Longrightarrow>
     vbl_step precision offdelay ok (u, dev) (u(c := u c - 1), dev')"
| vbl_mark: "vbl_step precision offdelay ok (u, dev) (u, dev\<lparr>vb_last_wait := lw\<rparr>)"
| vbl_timer: "\<forall>i. ok i (rss i) \<Longrightarrow> vbl_step precision offdelay ok (u, dev) (u, vblank_disable_fn precision rss (dev\<lparr>vb_timer := False\<rparr>))"
| vbl_irq: "ok c (\<lambda>_. r) \<Longrightarrow> drm_handle_vblank precision offdelay r c dev = Ok (b, dev') \<Longrightarrow>
     vbl_step precision offdelay ok (u, dev) (u, dev')"
| vbl_off: "ok c rs \<Longrightarrow> drm_vblank_off precision offdelay rs c dev = Ok dev' \<Longrightarrow>
     vbl_step precision offdelay ok (u, dev) (u, dev')"
| vbl_pre: "ok c rs \<Longrightarrow> drm_vblank_pre_modeset precision enable rs c dev = Some dev' \<Longrightarrow>
     vbl_step precision offdelay ok (u, dev) (u, dev')"
| vbl_post: "drm_vblank_post_modeset offdelay c dev = Ok dev' \<Longrightarrow>
     vbl_step precision offdelay ok (u, dev) (u, dev')"
| vbl_read_file: "drm_read f nonblock [] resid copies dev = Some (ret, es, dev') \<Longrightarrow>
     vbl_step precision offdelay ok (u, dev) (u, dev')"
| vbl_release: "drm_events_release offdelay f dev = Ok dev' \<Longrightarrow>
     vbl_step precision offdelay ok (u, dev) (u, dev')"
| vbl_install: "drm_irq_install have_irq irq private setup post dev = (ret, h, dev') \<Longrightarrow>
     vbl_step precision offdelay ok (u, dev) (u, dev')"
| vbl_uninstall: "\<forall>i. ok i (\<lambda>_. rs i) \<and> vr_before (rs i) = counters i \<Longrightarrow> drm_irq_uninstall have_irq counters dev = (ret, dev') \<Longrightarrow>
     vbl_step precision offdelay ok (u, dev) (u, dev')"

text \<open>The fields the balance is about, over the operations that only count.\<close>

definition same_books :: "vbl_dev \<Rightarrow> vbl_dev \<Rightarrow> bool" where
  "same_books dev dev' \<longleftrightarrow> vb_refcount dev' = vb_refcount dev \<and> vb_events dev' = vb_events dev \<and> vb_inmodeset dev' = vb_inmodeset dev
     \<and> vb_file_space dev' = vb_file_space dev \<and> vb_file_events dev' = vb_file_events dev"

lemma same_books_inv: "same_books dev dev' \<Longrightarrow> vbl_inv (u, dev') = vbl_inv (u, dev)"
  by (rule vbl_inv_cong) (auto simp: same_books_def)

lemma same_books_refl [simp]: "same_books dev dev"
  by (simp add: same_books_def)

lemma same_books_trans: "same_books a b \<Longrightarrow> same_books b c \<Longrightarrow> same_books a c"
  by (simp add: same_books_def)

lemma disable_and_save_books: "same_books dev (vblank_disable_and_save precision rs c dev)"
  by (simp add: vblank_disable_and_save_def Let_def same_books_def clear_vblank_timestamps_def split: prod.split)

lemma disable_all_books: "same_books dev (vblank_disable_all precision rss is dev)"
proof (induction "is" arbitrary: dev)
  case (Cons i "is")
  then show ?case using same_books_trans [OF disable_and_save_books Cons.IH] by simp
qed simp

lemma disable_fn_books: "same_books dev (vblank_disable_fn precision rss dev)"
  by (simp add: vblank_disable_fn_def disable_all_books)

lemma update_count_books: "drm_update_vblank_count precision rs c dev = Some dev' \<Longrightarrow> same_books dev dev'"
  by (auto simp: drm_update_vblank_count_def Let_def same_books_def set_timestamp_def split: if_splits)

lemma vblank_get_fails: "drm_vblank_get precision enable rs c dev = Some (Some e, dev') \<Longrightarrow> dev' = dev"
  by (auto simp: drm_vblank_get_def Let_def split: if_splits option.splits)

lemma vblank_get_books:
  "drm_vblank_get precision enable rs c dev = Some (None, dev') \<Longrightarrow>
     same_books (dev\<lparr>vb_refcount := (vb_refcount dev)(c := vb_refcount dev c + 1)\<rparr>) dev'"
  by (auto simp: drm_vblank_get_def Let_def split: if_splits option.splits dest!: update_count_books simp: same_books_def)

lemma vblank_put_books:
  "drm_vblank_put offdelay c dev = Ok dev' \<Longrightarrow>
     same_books (dev\<lparr>vb_refcount := (vb_refcount dev)(c := vb_refcount dev c - 1)\<rparr>) dev'"
  by (auto simp: drm_vblank_put_def Let_def same_books_def split: if_splits)

lemma vbl_inv_put:
  "vbl_inv (u, dev) \<Longrightarrow> 0 < u c \<Longrightarrow> vbl_inv (u(c := u c - 1), dev\<lparr>vb_refcount := (vb_refcount dev)(c := vb_refcount dev c - 1)\<rparr>)"
  by (auto simp: vbl_inv_def refs_ok_def space_ok_def)

lemma vbl_inv_get:
  "vbl_inv (u, dev) \<Longrightarrow> vbl_inv (u(c := u c + 1), dev\<lparr>vb_refcount := (vb_refcount dev)(c := vb_refcount dev c + 1)\<rparr>)"
  by (auto simp: vbl_inv_def refs_ok_def space_ok_def)

lemma put_inv: "drm_vblank_put offdelay c dev = Ok dev' \<Longrightarrow> vbl_inv (u, dev) \<Longrightarrow> 0 < u c \<Longrightarrow> vbl_inv (u(c := u c - 1), dev')"
  using same_books_inv [OF vblank_put_books] vbl_inv_put by blast

lemma get_inv: "drm_vblank_get precision enable rs c dev = Some (None, dev') \<Longrightarrow> vbl_inv (u, dev) \<Longrightarrow> vbl_inv (u(c := u c + 1), dev')"
  using same_books_inv [OF vblank_get_books] vbl_inv_get by blast

lemma put_possible: "vbl_inv (u, dev) \<Longrightarrow> 0 < u c \<Longrightarrow> vb_refcount dev c \<noteq> 0"
  using refs_okD [of u dev c] counts_simps(7) [of c "vb_events dev"] by (auto simp: vbl_inv_def on_crtc_def)

text \<open>An event goes to the queue, or the caller's reference is dropped and it is sent at once.\<close>

lemma queue_event_inv:
  assumes inv: "vbl_inv (u, dev)" and u: "0 < u c"
  obtains ret w' dev' where "drm_queue_vblank_event offdelay alloc f c w dev = Ok (ret, w', dev')" "vbl_inv (u(c := u c - 1), dev')"
proof -
  have put: "\<exists>dev'. drm_vblank_put offdelay c d = Ok dev'" if "vb_refcount d c = vb_refcount dev c" for d
    using vblank_put_Ok [of d c] put_possible [OF inv u] that by auto
  let ?w = "if vw_type w AND VBLANK_NEXTONMISS \<noteq> 0 \<and> vb_count dev c - vw_sequence w \<le> 2 ^ 23 then w\<lparr>vw_sequence := vb_count dev c + 1\<rparr> else w"
  let ?e = "\<lparr>ev_pipe = c, ev_file = f, ev_user_data = vw_signal ?w, ev_sequence = vw_sequence ?w, ev_tv_sec = 0, ev_tv_usec = 0\<rparr>"
  let ?dev = "dev\<lparr>vb_file_space := (vb_file_space dev)(f := vb_file_space dev f - event_size)\<rparr>"
  consider (fail) "\<not> alloc \<or> vb_file_space dev f < event_size"
    | (now) "alloc" "event_size \<le> vb_file_space dev f" "vb_count dev c - vw_sequence ?w \<le> 2 ^ 23"
    | (later) "alloc" "event_size \<le> vb_file_space dev f" "\<not> vb_count dev c - vw_sequence ?w \<le> 2 ^ 23"
    by fastforce
  then show ?thesis
  proof cases
    case fail
    obtain dev' where d: "drm_vblank_put offdelay c dev = Ok dev'" using put by blast
    then have "drm_queue_vblank_event offdelay alloc f c w dev = Ok (Some (if alloc then EBUSY else ENOMEM), w, dev')"
      using fail by (auto simp: drm_queue_vblank_event_def)
    then show ?thesis using put_inv [OF d inv u] by (rule that)
  next
    case now
    obtain d where d: "drm_vblank_put offdelay c ?dev = Ok d" using put [of ?dev] by auto
    have "same_books (?dev\<lparr>vb_refcount := (vb_refcount dev)(c := vb_refcount dev c - 1)\<rparr>) d" using vblank_put_books [OF d] by simp
    then have i: "vbl_inv (u(c := u c - 1), send_vblank_event ?e (vb_count dev c) (vblanktimestamp ?dev c (vb_count dev c)) d)"
      using vbl_inv_put [OF inv u] now(2)
      by (auto simp: same_books_def vbl_inv_def refs_ok_def space_ok_def send_vblank_event_def event_size_def algebra_simps)
    have "drm_queue_vblank_event offdelay alloc f c w dev = Ok (None, ?w\<lparr>vw_sequence := vb_count dev c\<rparr>,
        send_vblank_event ?e (vb_count dev c) (vblanktimestamp ?dev c (vb_count dev c)) d)"
      using now d unfolding drm_queue_vblank_event_def Let_def by (simp add: drm_vblank_count_and_time_def cong: if_cong)
    then show ?thesis using i by (rule that)
  next
    case later
    have i: "vbl_inv (u(c := u c - 1), ?dev\<lparr>vb_events := vb_events dev @ [?e]\<rparr>)"
      using inv u later(2) by (auto simp: vbl_inv_def refs_ok_def space_ok_def event_size_def algebra_simps)
    have "drm_queue_vblank_event offdelay alloc f c w dev = Ok (None, ?w, ?dev\<lparr>vb_events := vb_events dev @ [?e]\<rparr>)"
      using later unfolding drm_queue_vblank_event_def Let_def by (simp add: drm_vblank_count_and_time_def cong: if_cong)
    then show ?thesis using i by (rule that)
  qed
qed

end
