(* ===== verification/Drm_Irq_Claims.thy ===== *)
theory Drm_Irq_Claims
  imports Drm_Irq_Proofs
begin

text \<open>
  The properties of the vertical blanks: the balance of references and event space, the delivery of
  events, and the refinement of an abstract frame counter by the software counter.
\<close>

unbundle bit_operations_syntax

section \<open>Balance in every reachable state\<close>

lemma dequeue_inv: "vbl_inv (u, dev) \<Longrightarrow> drm_dequeue_event f resid dev = Some (e, d) \<Longrightarrow> vbl_inv (u, d)"
proof -
  assume inv: "vbl_inv (u, dev)" and d: "drm_dequeue_event f resid dev = Some (e, d)"
  obtain es where es: "vb_file_events dev f = e # es"
    and d': "d = dev\<lparr>vb_file_space := (vb_file_space dev)(f := vb_file_space dev f + event_size), vb_file_events := (vb_file_events dev)(f := es)\<rparr>"
    using d by (auto simp: drm_dequeue_event_def split: list.splits if_splits)
  have s: "space_ok dev" using inv by (simp add: vbl_inv_def)
  have "space_ok d"
    unfolding space_ok_def
  proof
    fix g
    show "0 \<le> vb_file_space d g \<and> vb_file_space d g + event_size * (of_file g (vb_events d) + int (length (vb_file_events d g))) \<le> 4096"
      using space_okD [OF s, of g] es by (cases "g = f") (simp_all add: d' event_size_def algebra_simps)
  qed
  then show ?thesis using inv by (simp add: vbl_inv_def refs_ok_def d')
qed

declare read_events.simps [simp del]

lemma read_events_inv: "vbl_inv (u, dev) \<Longrightarrow> vbl_inv (u, snd (snd (read_events f resid copies dev)))"
proof (induction f resid copies dev rule: read_events.induct)
  case (1 f resid copies dev)
  show ?case
  proof (cases "drm_dequeue_event f resid dev")
    case None
    then show ?thesis using 1(3) by (simp add: read_events.simps)
  next
    case (Some a)
    then obtain e d where d: "drm_dequeue_event f resid dev = Some (e, d)" by (cases a) auto
    have i: "vbl_inv (u, d)" by (rule dequeue_inv [OF 1(3) d])
    show ?thesis
    proof (cases copies)
      case Nil
      then show ?thesis using 1(1) [OF d refl] i d by (auto simp: read_events.simps [of f resid] split: prod.split)
    next
      case (Cons x xs)
      then show ?thesis using 1(2) [OF d refl] i d by (cases x) (auto simp: read_events.simps [of f resid] split: prod.split)
    qed
  qed
qed

lemma release_pending_deliver:
  assumes "deliver_events offdelay (\<lambda>e. ev_file e = f) seq now es dev = Ok d"
  shows "release_pending offdelay f es (dev\<lparr>vb_file_events := x\<rparr>) = Ok (d\<lparr>vb_file_events := x\<rparr>)"
  using assms
proof (induction es arbitrary: dev)
  case (Cons e es)
  show ?case
  proof (cases "ev_file e = f")
    case True
    then obtain d' where d': "drm_vblank_put offdelay (ev_pipe e) (dev\<lparr>vb_events := remove1 e (vb_events dev)\<rparr>) = Ok d'"
      "deliver_events offdelay (\<lambda>e. ev_file e = f) seq now es (send_vblank_event e seq now d') = Ok d"
      using Cons.prems by auto
    have "drm_vblank_put offdelay (ev_pipe e) (dev\<lparr>vb_file_events := x, vb_events := remove1 e (vb_events dev)\<rparr>) = Ok (d'\<lparr>vb_file_events := x\<rparr>)"
      using d'(1) by (auto simp: drm_vblank_put_def Let_def split: if_splits)
    then show ?thesis using Cons.IH [OF d'(2)] True by (simp add: send_vblank_event_def)
  qed (use Cons in simp)
qed simp

lemma events_release_inv:
  assumes inv: "vbl_inv (u, dev)"
  obtains dev' where "drm_events_release offdelay f dev = Ok dev'" "vbl_inv (u, dev')"
proof -
  let ?P = "\<lambda>e. ev_file e = f"
  obtain t where t: "deliver_events offdelay ?P 0 zero_time (vb_events dev) dev = Ok (delivered 0 zero_time (filter ?P (vb_events dev)) t dev)"
    and i: "vbl_inv (u, delivered 0 zero_time (filter ?P (vb_events dev)) t dev)"
    by (rule deliver_queue [OF inv])
  let ?d = "delivered 0 zero_time (filter ?P (vb_events dev)) t dev"
  have "release_pending offdelay f (vb_events dev) dev = Ok (?d\<lparr>vb_file_events := vb_file_events dev\<rparr>)"
    using release_pending_deliver [OF t, of "vb_file_events dev"] by simp
  then have r: "drm_events_release offdelay f dev = Ok (?d\<lparr>vb_file_events := (vb_file_events dev)(f := [])\<rparr>)"
    by (simp add: drm_events_release_def)
  have "vb_file_events ?d g = vb_file_events dev g" if "g \<noteq> f" for g
  proof -
    have "filter (\<lambda>e. ev_file e = g \<and> ev_file e = f) (vb_events dev) = []" using that by (auto simp: filter_empty_conv)
    then show ?thesis by (simp add: delivered_def conj_commute)
  qed
  then have g: "length ((if g = f then [] else vb_file_events dev g)) \<le> length (vb_file_events ?d g)" for g by simp
  have "space_ok (?d\<lparr>vb_file_events := (vb_file_events dev)(f := [])\<rparr>)"
    unfolding space_ok_def
  proof
    fix h
    have s: "space_ok ?d" using i by (simp add: vbl_inv_def)
    show "0 \<le> vb_file_space (?d\<lparr>vb_file_events := (vb_file_events dev)(f := [])\<rparr>) h
      \<and> vb_file_space (?d\<lparr>vb_file_events := (vb_file_events dev)(f := [])\<rparr>) h
        + event_size * (of_file h (vb_events (?d\<lparr>vb_file_events := (vb_file_events dev)(f := [])\<rparr>))
          + int (length (vb_file_events (?d\<lparr>vb_file_events := (vb_file_events dev)(f := [])\<rparr>) h))) \<le> 4096"
      using space_okD [OF s, of h] g [of h] by (cases "h = f") (simp_all add: event_size_def)
  qed
  then have "vbl_inv (u, ?d\<lparr>vb_file_events := (vb_file_events dev)(f := [])\<rparr>)"
    using i by (simp add: vbl_inv_def refs_ok_def)
  then show ?thesis using r that by blast
qed

lemma off_inv:
  assumes "vbl_inv (u, dev)"
  obtains dev' where "drm_vblank_off precision offdelay rs c dev = Ok dev'" "vbl_inv (u, dev')"
proof -
  let ?d = "vblank_disable_and_save precision rs c dev"
  have "vbl_inv (u, ?d)" using assms same_books_inv [OF disable_and_save_books] by blast
  from deliver_queue [OF this] show ?thesis
    using that unfolding drm_vblank_off_def Let_def by (auto simp: drm_vblank_count_and_time_def) metis
qed

text \<open>The device once an interrupt has counted, before the events are looked at.\<close>

definition counted :: "u32 \<Rightarrow> vbl_round \<Rightarrow> nat \<Rightarrow> vbl_dev \<Rightarrow> vbl_dev" where
  "counted precision r c dev =
     (let t = snd (drm_get_last_vbltimestamp precision r)
      in if DRM_REDUNDANT_VBLIRQ_THRESH_NS < \<bar>timeval_to_ns t - timeval_to_ns (vblanktimestamp dev c (vb_count dev c))\<bar>
         then (set_timestamp c (vb_count dev c + 1) t dev)\<lparr>vb_count := (vb_count dev)(c := vb_count dev c + 1)\<rparr> else dev)"

lemma handle_vblank_counted:
  "vb_num_crtcs dev \<noteq> 0 \<Longrightarrow> vb_enabled dev c \<Longrightarrow> drm_handle_vblank precision offdelay r c dev
     = bind_outcome (drm_handle_vblank_events offdelay c (counted precision r c dev)) (\<lambda>dev. Ok (True, dev))"
  by (simp add: drm_handle_vblank_def counted_def Let_def cong: if_cong)

lemma counted_books: "same_books dev (counted precision r c dev)"
  by (simp add: counted_def Let_def same_books_def set_timestamp_def)

lemma handle_vblank_off: "vb_num_crtcs dev = 0 \<or> \<not> vb_enabled dev c \<Longrightarrow> drm_handle_vblank precision offdelay r c dev = Ok (False, dev)"
  by (auto simp: drm_handle_vblank_def)

lemma handle_vblank_inv:
  assumes "vbl_inv (u, dev)"
  obtains b dev' where "drm_handle_vblank precision offdelay r c dev = Ok (b, dev')" "vbl_inv (u, dev')"
proof (cases "vb_num_crtcs dev = 0 \<or> \<not> vb_enabled dev c")
  case True
  then show ?thesis using assms that handle_vblank_off by blast
next
  case False
  have "vbl_inv (u, counted precision r c dev)" using assms same_books_inv [OF counted_books] by blast
  then obtain d' where "drm_handle_vblank_events offdelay c (counted precision r c dev) = Ok d'" "vbl_inv (u, d')"
    unfolding drm_handle_vblank_events_def drm_vblank_count_and_time_def by (auto elim: deliver_queue)
  then show ?thesis using False handle_vblank_counted [of dev c] that by auto
qed

lemma pre_modeset_inv:
  assumes inv: "vbl_inv (u, dev)" and pre: "drm_vblank_pre_modeset precision enable rs c dev = Some dev'"
  shows "vbl_inv (u, dev')"
proof (cases "vb_num_crtcs dev = 0 \<or> vb_inmodeset dev c \<noteq> 0")
  case True
  then show ?thesis using assms by (auto simp: drm_vblank_pre_modeset_def split: if_splits)
next
  case False
  let ?dev = "dev\<lparr>vb_inmodeset := (vb_inmodeset dev)(c := 1)\<rparr>"
  have i: "vbl_inv (u, ?dev)" using inv False by (auto simp: vbl_inv_def refs_ok_def space_ok_def)
  obtain ret d where d: "drm_vblank_get precision enable rs c ?dev = Some (ret, d)"
    and dev': "dev' = (if ret = None then d\<lparr>vb_inmodeset := (vb_inmodeset d)(c := vb_inmodeset d c OR 2)\<rparr> else d)"
    using pre False by (auto simp: drm_vblank_pre_modeset_def)
  show ?thesis
  proof (cases ret)
    case None
    then have "vb_inmodeset d = vb_inmodeset ?dev" using vblank_get_books d by (fastforce simp: same_books_def)
    then show ?thesis using get_inv [of _ _ _ _ ?dev d u] d None i dev' by (auto simp: vbl_inv_def refs_ok_def space_ok_def)
  next
    case (Some e)
    then have "d = ?dev" using vblank_get_fails d by blast
    then show ?thesis using i dev' Some by simp
  qed
qed

lemma post_modeset_inv:
  assumes inv: "vbl_inv (u, dev)"
  obtains dev' where "drm_vblank_post_modeset offdelay c dev = Ok dev'" "vbl_inv (u, dev')"
proof -
  consider "vb_num_crtcs dev = 0 \<or> vb_inmodeset dev c = 0" | (plain) "vb_num_crtcs dev \<noteq> 0" "vb_inmodeset dev c \<noteq> 0" "vb_inmodeset dev c AND 2 = 0"
    | (held) "vb_num_crtcs dev \<noteq> 0" "vb_inmodeset dev c AND 2 \<noteq> 0" by blast
  then show ?thesis
  proof cases
    case 1
    then have "drm_vblank_post_modeset offdelay c dev = Ok dev" by (auto simp: drm_vblank_post_modeset_def)
    then show ?thesis using inv by (rule that)
  next
    case plain
    then have "drm_vblank_post_modeset offdelay c dev = Ok (dev\<lparr>vb_disable_allowed := True, vb_inmodeset := (vb_inmodeset dev)(c := 0)\<rparr>)"
      by (simp add: drm_vblank_post_modeset_def Let_def)
    moreover have "vbl_inv (u, dev\<lparr>vb_disable_allowed := True, vb_inmodeset := (vb_inmodeset dev)(c := 0)\<rparr>)"
      using inv plain by (auto simp: vbl_inv_def refs_ok_def space_ok_def)
    ultimately show ?thesis by (rule that)
  next
    case held
    let ?dev = "dev\<lparr>vb_disable_allowed := True\<rparr>"
    have "vb_refcount dev c = int (u c) + on_crtc c (vb_events dev) + 1" using refs_okD [of u dev c] inv held by (simp add: vbl_inv_def)
    then have "vb_refcount ?dev c \<noteq> 0" by (auto simp: on_crtc_def)
    then obtain t where t: "drm_vblank_put offdelay c ?dev = Ok (?dev\<lparr>vb_refcount := (vb_refcount ?dev)(c := vb_refcount ?dev c - 1), vb_timer := t\<rparr>)"
      using vblank_put_Ok by blast
    let ?d = "?dev\<lparr>vb_refcount := (vb_refcount ?dev)(c := vb_refcount ?dev c - 1), vb_timer := t, vb_inmodeset := (vb_inmodeset dev)(c := 0)\<rparr>"
    have "drm_vblank_post_modeset offdelay c dev = Ok ?d"
      using held t by (auto simp: drm_vblank_post_modeset_def Let_def)
    moreover have "vbl_inv (u, ?d)" using inv held by (auto simp: vbl_inv_def refs_ok_def space_ok_def)
    ultimately show ?thesis by (rule that)
  qed
qed

lemma vbl_step_inv: "vbl_step precision offdelay ok s s' \<Longrightarrow> vbl_inv s \<Longrightarrow> vbl_inv s'"
proof (induction rule: vbl_step.induct)
  case (vbl_get c rs enable dev dev' u)
  then show ?case using get_inv by blast
next
  case (vbl_get_fails c rs enable dev e dev' u)
  then show ?case using Drm_Irq_Proofs.vblank_get_fails by blast
next
  case (vbl_put u c dev dev')
  then show ?case using put_inv by blast
next
  case (vbl_queue u c alloc f w dev ret w' dev')
  from queue_event_inv [OF vbl_queue(3,1)] show ?case using vbl_queue(2) by (metis outcome.inject(1) prod.inject)
next
  case (vbl_mark u dev lw)
  then show ?case by (simp add: vbl_inv_def refs_ok_def space_ok_def)
next
  case (vbl_timer rss u dev)
  have "same_books dev (vblank_disable_fn precision rss (dev\<lparr>vb_timer := False\<rparr>))"
    by (rule same_books_trans [OF _ disable_fn_books]) (simp add: same_books_def)
  then show ?case using vbl_timer same_books_inv by blast
next
  case (vbl_irq c r dev b dev' u)
  from handle_vblank_inv [OF vbl_irq(3)] show ?case using vbl_irq(2) by (metis outcome.inject(1) prod.inject)
next
  case (vbl_off c rs dev dev' u)
  from off_inv [OF vbl_off(3)] show ?case using vbl_off(2) by (metis outcome.inject(1))
next
  case (vbl_pre c rs enable dev dev' u)
  then show ?case using pre_modeset_inv by blast
next
  case (vbl_post c dev dev' u)
  from post_modeset_inv [OF vbl_post(2)] show ?case using vbl_post(1) by (metis outcome.inject(1))
next
  case (vbl_read_file f nonblock resid copies dev ret es dev' u)
  then have "dev' = dev \<or> dev' = snd (snd (read_events f resid copies dev))"
    by (auto simp: drm_read_def split: if_splits option.splits)
  then show ?case using read_events_inv [OF vbl_read_file(2)] vbl_read_file(2) by auto
next
  case (vbl_release f dev dev' u)
  from events_release_inv [OF vbl_release(2)] show ?case using vbl_release(1) by (metis outcome.inject(1))
next
  case (vbl_install have_irq irq priv su post dev ret h dev' u)
  then have "same_books dev dev'" by (auto simp: drm_irq_install_def same_books_def split: if_splits)
  then show ?case using vbl_install same_books_inv by blast
next
  case (vbl_uninstall rs counters have_irq dev ret dev' u)
  then have "same_books dev dev'" by (auto simp: drm_irq_uninstall_def Let_def same_books_def split: if_splits)
  then show ?case using vbl_uninstall same_books_inv by blast
qed

lemma vbl_steps_inv: "(vbl_step precision offdelay ok)\<^sup>*\<^sup>* s s' \<Longrightarrow> vbl_inv s \<Longrightarrow> vbl_inv s'"
  by (induction rule: rtranclp_induct) (auto intro: vbl_step_inv)

text \<open>A device whose vertical blanks were just set up, with every file's space untouched.\<close>

definition vbl_fresh :: "nat \<Rightarrow> u32 \<Rightarrow> vbl_dev" where
  "vbl_fresh n wrap = \<lparr>vb_num_crtcs = n, vb_count = \<lambda>_. 0, vb_refcount = \<lambda>_. 0, vb_enabled = \<lambda>_. False, vb_last = \<lambda>_. 0,
     vb_last_wait = \<lambda>_. 0, vb_inmodeset = \<lambda>_. 0, vb_time = \<lambda>_. zero_time, vb_disable_allowed = False, vb_max_count = wrap,
     vb_irq_enabled = False, vb_timer = False, vb_events = [], vb_file_events = \<lambda>_. [], vb_file_space = \<lambda>_. 4096\<rparr>"

lemma vbl_fresh_inv: "vbl_inv (\<lambda>_. 0, vbl_fresh n wrap)"
  by (simp add: vbl_inv_def refs_ok_def space_ok_def vbl_fresh_def event_size_def)

text \<open>C24: In every state the operations on vertical blanks reach, the references of each CRTC are exactly
  those of the callers between a get and a put, of the queued events and of a mode set in progress; no
  operation panics on a reference count of zero, whatever it is called with; and what a file has
  queued and not yet read never exceeds its 4096 bytes.\<close>

theorem vblank_references_balanced:
  assumes "(vbl_step precision offdelay ok)\<^sup>*\<^sup>* (\<lambda>_. 0, vbl_fresh n wrap) (u, dev)"
  shows "vb_refcount dev c = int (u c) + int (length (filter (\<lambda>e. ev_pipe e = c) (vb_events dev)))
       + (if vb_inmodeset dev c AND 2 \<noteq> 0 then 1 else 0)
    \<and> 32 * (length (filter (\<lambda>e. ev_file e = f) (vb_events dev)) + length (vb_file_events dev f)) \<le> 4096
    \<and> (0 < u c \<longrightarrow> drm_vblank_put offdelay c dev \<noteq> Bug \<and> drm_queue_vblank_event offdelay alloc f c w dev \<noteq> Bug)
    \<and> drm_handle_vblank precision offdelay r c dev \<noteq> Bug \<and> drm_vblank_off precision offdelay rs c dev \<noteq> Bug
    \<and> drm_vblank_post_modeset offdelay c dev \<noteq> Bug \<and> drm_events_release offdelay f dev \<noteq> Bug"
proof -
  have inv: "vbl_inv (u, dev)" by (rule vbl_steps_inv [OF assms vbl_fresh_inv])
  then have "refs_ok u dev" "space_ok dev" by (simp_all add: vbl_inv_def)
  note d = refs_okD [OF this(1), of c] space_okD [OF this(2), of f]
  have "drm_vblank_put offdelay c dev \<noteq> Bug" if "0 < u c"
    using vblank_put_Ok [OF put_possible [OF inv that], of offdelay] by auto
  moreover have "drm_queue_vblank_event offdelay alloc f c w dev \<noteq> Bug" if uc: "0 < u c"
    by (rule queue_event_inv [OF inv uc, where offdelay = offdelay and alloc = alloc and f = f and w = w]) simp
  moreover have "drm_handle_vblank precision offdelay r c dev \<noteq> Bug" by (rule handle_vblank_inv [OF inv, where offdelay = offdelay and c = c and precision = precision and r = r]) simp
  moreover have "drm_vblank_off precision offdelay rs c dev \<noteq> Bug" by (rule off_inv [OF inv, where offdelay = offdelay and c = c and precision = precision and rs = rs]) simp
  moreover have "drm_vblank_post_modeset offdelay c dev \<noteq> Bug" by (rule post_modeset_inv [OF inv, where offdelay = offdelay and c = c]) simp
  moreover have "drm_events_release offdelay f dev \<noteq> Bug" by (rule events_release_inv [OF inv, where offdelay = offdelay and f = f]) simp
  ultimately show ?thesis using d by (simp add: on_crtc_def of_file_def event_size_def)
qed

text \<open>C25: An interrupt moves the counter on by at most one and delivers, each to its file and in the order
  of the queue, exactly the queued events of its CRTC whose number the counter has passed, stamped with
  the counter and the time of the blank; every other event stays queued.\<close>

theorem handle_vblank_delivers:
  assumes "(vbl_step precision offdelay ok)\<^sup>*\<^sup>* (\<lambda>_. 0, vbl_fresh n wrap) (u, dev)"
    and "drm_handle_vblank precision offdelay r c dev = Ok (True, dev')"
  shows "let seq = vb_count dev' c; due = (\<lambda>e. ev_pipe e = c \<and> seq - ev_sequence e \<le> 2 ^ 23)
     in (seq = vb_count dev c \<or> seq = vb_count dev c + 1)
      \<and> vb_events dev' = filter (\<lambda>e. \<not> due e) (vb_events dev)
      \<and> (\<forall>f. vb_file_events dev' f = vb_file_events dev f
            @ map (\<lambda>e. e\<lparr>ev_sequence := seq, ev_tv_sec := word_of_int (tv_sec (vblanktimestamp dev' c seq)),
                         ev_tv_usec := word_of_int (tv_usec (vblanktimestamp dev' c seq))\<rparr>)
               (filter (\<lambda>e. ev_file e = f) (filter due (vb_events dev))))"
proof -
  let ?d = "counted precision r c dev" and ?due = "\<lambda>e. ev_pipe e = c \<and> vb_count (counted precision r c dev) c - ev_sequence e \<le> 2 ^ 23"
  have inv: "vbl_inv (u, dev)" by (rule vbl_steps_inv [OF assms(1) vbl_fresh_inv])
  then have i: "vbl_inv (u, ?d)" using same_books_inv [OF counted_books] by blast
  have "\<not> (vb_num_crtcs dev = 0 \<or> \<not> vb_enabled dev c)"
  proof
    assume "vb_num_crtcs dev = 0 \<or> \<not> vb_enabled dev c"
    from handle_vblank_off [OF this] assms(2) show False by simp
  qed
  then have on: "vb_num_crtcs dev \<noteq> 0" "vb_enabled dev c" by (simp_all only: de_Morgan_disj not_not simp_thms)
  have h: "bind_outcome (drm_handle_vblank_events offdelay c ?d) (\<lambda>dev. Ok (True, dev)) = Ok (True, dev')"
    using assms(2) handle_vblank_counted [of dev c] on by simp
  let ?now = "vblanktimestamp ?d c (vb_count ?d c)"
  obtain t where t: "deliver_events offdelay ?due (vb_count ?d c) ?now (vb_events ?d) ?d
       = Ok (delivered (vb_count ?d c) ?now (filter ?due (vb_events ?d)) t ?d)"
    and ev: "vb_events (delivered (vb_count ?d c) ?now (filter ?due (vb_events ?d)) t ?d) = filter (\<lambda>e. \<not> ?due e) (vb_events ?d)"
    by (rule deliver_queue [OF i])
  have dev': "dev' = delivered (vb_count ?d c) ?now (filter ?due (vb_events ?d)) t ?d"
    using h t by (simp add: drm_handle_vblank_events_def drm_vblank_count_and_time_def linorder_not_less)
  have "vb_events ?d = vb_events dev" "vb_file_events ?d = vb_file_events dev"
    using counted_books [of dev precision r c] by (simp_all add: same_books_def)
  moreover have "vb_count dev' = vb_count ?d" "vblanktimestamp dev' = vblanktimestamp ?d"
    by (simp_all add: dev' delivered_def vblanktimestamp_def fun_eq_iff)
  moreover have "vb_count ?d c = vb_count dev c \<or> vb_count ?d c = vb_count dev c + 1" by (simp add: counted_def Let_def)
  ultimately show ?thesis using ev unfolding Let_def dev' by (simp add: delivered_def stamped_def)
qed

text \<open>A CRTC is watched by one caller, who then queues an event for the next blank.\<close>

definition one_round :: vbl_round where
  "one_round = \<lparr>vr_before = 7, vr_driver = None, vr_now = \<lparr>tv_sec = 5, tv_usec = 0\<rparr>, vr_after = 7\<rparr>"

definition watched :: vbl_dev where
  "watched = snd (the (drm_vblank_get 20 None (\<lambda>_. one_round) 0 (vbl_fresh 1 0xffffff)))"

definition next_blank :: vbl_wait where
  "next_blank = \<lparr>vw_type = VBLANK_EVENT, vw_sequence = 8, vw_signal = 42, vw_usec = 0\<rparr>"

definition queued :: vbl_dev where
  "queued = (case drm_queue_vblank_event 5000 True 3 0 next_blank watched of Ok (_, _, d) \<Rightarrow> d | _ \<Rightarrow> watched)"

lemma watched_reached: "(vbl_step 20 5000 (\<lambda>_ _. True))\<^sup>*\<^sup>* (\<lambda>_. 0, vbl_fresh 1 0xffffff) ((\<lambda>_. 0)(0 := 1), watched)"
proof -
  have "drm_vblank_get 20 None (\<lambda>_. one_round) 0 (vbl_fresh 1 0xffffff) = Some (None, watched)"
    by (simp add: watched_def drm_vblank_get_def drm_update_vblank_count_def vbl_read.simps one_round_def vbl_fresh_def Let_def)
  from vbl_get [OF _ this, where u = "\<lambda>_. 0" and ok = "\<lambda>_ _. True"] show ?thesis by (simp add: r_into_rtranclp)
qed

lemma queued_reached: "(vbl_step 20 5000 (\<lambda>_ _. True))\<^sup>*\<^sup>* (\<lambda>_. 0, vbl_fresh 1 0xffffff) ((\<lambda>_. 0)(0 := 1, 0 := 0), queued)"
proof -
  have "case drm_queue_vblank_event 5000 True 3 0 next_blank watched of Ok _ \<Rightarrow> True | _ \<Rightarrow> False" by code_simp
  then obtain ret w' where "drm_queue_vblank_event 5000 True 3 0 next_blank watched = Ok (ret, w', queued)"
    unfolding queued_def by (auto split: outcome.splits)
  from vbl_queue [OF _ this, where u = "(\<lambda>_. 0)(0 := 1)" and precision = 20 and ok = "\<lambda>_ _. True"]
  show ?thesis using watched_reached by (auto intro: rtranclp.rtrancl_into_rtrancl)
qed

theorem vblank_references_balanced_witness: "vb_refcount watched 0 = 1 \<and> drm_vblank_put 5000 0 watched \<noteq> Bug"
proof -
  have "vb_events watched = []" "vb_inmodeset watched 0 = 0" by code_simp+
  then show ?thesis using vblank_references_balanced [OF watched_reached, of 0] by simp
qed

theorem handle_vblank_delivers_witness:
  "map ev_sequence (vb_file_events (snd (case drm_handle_vblank 20 5000 one_round 0 queued of Ok r \<Rightarrow> r | _ \<Rightarrow> (False, queued))) 3) = [8]"
proof -
  let ?d = "snd (case drm_handle_vblank 20 5000 one_round 0 queued of Ok r \<Rightarrow> r | _ \<Rightarrow> (False, queued))"
  have "fst (case drm_handle_vblank 20 5000 one_round 0 queued of Ok r \<Rightarrow> r | _ \<Rightarrow> (False, queued))" by code_simp
  then have h: "drm_handle_vblank 20 5000 one_round 0 queued = Ok (True, ?d)" by (auto split: outcome.splits)
  have "vb_count ?d 0 = 8" "vb_file_events queued 3 = []" "map ev_pipe (vb_events queued) = [0]" "map ev_sequence (vb_events queued) = [8]"
    "map ev_file (vb_events queued) = [3]" by code_simp+
  then show ?thesis using handle_vblank_delivers [OF queued_reached h] by (auto simp: Let_def)
qed


end
