(* ===== verification/Drm_Irq_Frames.thy ===== *)
theory Drm_Irq_Frames
  imports Drm_Irq_Claims
begin

text \<open>
  The software counter of vertical blanks against the frames that were really shown: an abstract
  counter with its own steps, and the proof that every operation refines one of them.
\<close>

section \<open>The abstract counter\<close>

text \<open>\<open>ac_frame\<close> numbers the frame being shown, \<open>ac_seen\<close> the last one accounted for, and \<open>ac_lost\<close> is
  by how many frames the counter has come to lag behind.\<close>

record acount =
  ac_frame :: nat
  ac_seen :: nat
  ac_on :: bool
  ac_lost :: int

text \<open>What an enable misses when a hardware counter of \<open>P\<close> values went from frame \<open>s\<close> to frame \<open>f\<close>
  unobserved.\<close>

definition missed :: "nat \<Rightarrow> nat \<Rightarrow> nat \<Rightarrow> int" where
  "missed P s f = (if f mod P < s mod P then (int (f div P) - int (s div P) - 1) * int P + 1
                   else (int (f div P) - int (s div P)) * int P)"


lemma missed_wraps:
  assumes "s \<le> f" and "f < s + P"
  shows "missed P s f = (if f mod P < s mod P then 1 else 0)"
proof -
  have P: "0 < P" using assms by (cases P) auto
  have "f = P * (f div P) + f mod P" "s = P * (s div P) + s mod P" by simp_all
  moreover have "f mod P < P" "s mod P < P" using P by simp_all
  moreover have "s div P \<le> f div P" using assms(1) by (rule div_le_mono)
  moreover have "f div P \<le> s div P + 1"
  proof -
    have "f div P \<le> (s + P) div P" using assms(2) by (intro div_le_mono) simp
    also have "\<dots> = s div P + 1" by (rule div_add_self2) (use P in simp)
    finally show ?thesis .
  qed
  ultimately have "f div P = s div P \<and> s mod P \<le> f mod P \<or> f div P = s div P + 1 \<and> f mod P < s mod P"
    using assms by (smt (verit) Suc_eq_plus1 add_le_cancel_left le_antisym le_SucE linorder_not_less mult_Suc_right nat_add_left_cancel_less add.commute add.left_commute)
  then show ?thesis by (auto simp: missed_def)
qed

section \<open>What the hardware shows\<close>

definition frame_counter :: "nat \<Rightarrow> nat \<Rightarrow> u32" where
  "frame_counter P f = word_of_nat (f mod P)"




definition counts_frames :: "nat \<Rightarrow> (nat \<Rightarrow> timeval) \<Rightarrow> nat \<Rightarrow> acount \<Rightarrow> vbl_dev \<Rightarrow> bool" where
  "counts_frames P stamp c a dev \<longleftrightarrow>
     unat (vb_max_count dev) + 1 = P
   \<and> vb_count dev c = word_of_int (int (ac_seen a) - ac_lost a)
   \<and> vb_enabled dev c = ac_on a
   \<and> ac_seen a \<le> ac_frame a
   \<and> (ac_on a \<longrightarrow> ac_frame a \<le> ac_seen a + 1 \<and> vblanktimestamp dev c (vb_count dev c) = stamp (ac_seen a))
   \<and> (\<not> ac_on a \<longrightarrow> vb_last dev c = frame_counter P (ac_seen a))"

text \<open>What the relation reads of the device.\<close>

definition same_clock :: "nat \<Rightarrow> vbl_dev \<Rightarrow> vbl_dev \<Rightarrow> bool" where
  "same_clock c dev dev' \<longleftrightarrow> vb_max_count dev' = vb_max_count dev \<and> vb_count dev' c = vb_count dev c \<and> vb_enabled dev' c = vb_enabled dev c
     \<and> vb_last dev' c = vb_last dev c \<and> vblanktimestamp dev' c = vblanktimestamp dev c"






lemma same_clock_delivered: "same_clock c dev (delivered seq now ds t dev)"
  by (simp add: delivered_def same_clock_def vblanktimestamp_def fun_eq_iff)




section \<open>What the operations do to the clock of a CRTC\<close>








section \<open>Simulation\<close>

lemma counts_framesD:
  assumes "counts_frames P stamp c a dev"
  shows "unat (vb_max_count dev) + 1 = P" "vb_count dev c = word_of_int (int (ac_seen a) - ac_lost a)" "vb_enabled dev c = ac_on a"
    "ac_seen a \<le> ac_frame a" "ac_on a \<Longrightarrow> ac_frame a \<le> ac_seen a + 1"
    "ac_on a \<Longrightarrow> vblanktimestamp dev c (vb_count dev c) = stamp (ac_seen a)" "\<not> ac_on a \<Longrightarrow> vb_last dev c = frame_counter P (ac_seen a)"
  using assms unfolding counts_frames_def by blast+







section \<open>Every operation\<close>















text \<open>The next frame begins once the interrupt of the current one has been handled.\<close>

lemma next_frame:
  assumes "counts_frames P stamp c a dev" and "ac_on a \<longrightarrow> ac_seen a = ac_frame a"
  shows "counts_frames P stamp c (a\<lparr>ac_frame := ac_frame a + 1\<rparr>) dev"
proof -
  note d = counts_framesD [OF assms(1)]
  show ?thesis
  proof (cases "ac_on a")
    case True
    then show ?thesis using d(1-4) d(6) [OF True] assms(2) by (simp add: counts_frames_def)
  next
    case False
    then show ?thesis using d(1-4) d(7) [OF False] by (simp add: counts_frames_def)
  qed
qed







end
