(* ===== verification/Drm_Vbltime.thy ===== *)
theory Drm_Vbltime
  imports Drm_Modes
begin

text \<open>
  The precise time stamps of vertical blanks, \<^verbatim>\<open>drm_calc_timestamping_constants\<close> and
  \<^verbatim>\<open>drm_calc_vbltimestamp_from_scanoutpos\<close> of \<^verbatim>\<open>drm/drm_irq.c\<close>.  Times are in nanoseconds;
  the reads of the clock and of the scanout position are arguments.
\<close>

unbundle bit_operations_syntax

section \<open>Durations\<close>

text \<open>Duration of a pixel, a line and a frame.\<close>

definition drm_calc_timestamping_constants :: "drm_display_mode \<Rightarrow> int \<times> int \<times> int" where
  "drm_calc_timestamping_constants mode =
     (let dotclock = (word_of_int (dm_clock mode) * 1000 :: u64);
          dotclock = (if dm_flags mode AND DRM_MODE_FLAG_INTERLACE \<noteq> 0 then dotclock * 2 else dotclock)
      in if 0 < dotclock
         then let pixeldur_ns = sint (1000000000 div dotclock);
                  linedur_ns = sint (word_of_int (dm_crtc_htotal mode) * 1000000000 div dotclock)
              in (pixeldur_ns, linedur_ns, dm_crtc_vtotal mode * linedur_ns)
         else (0, 0, 0))"

section \<open>The scanout position\<close>

record scanout_query =
  sq_start :: int
  sq_status :: u32
  sq_vpos :: int
  sq_hpos :: int
  sq_end :: int

definition DRM_SCANOUTPOS_VALID :: u32 where "DRM_SCANOUTPOS_VALID = 1"
definition DRM_SCANOUTPOS_INVBL :: u32 where "DRM_SCANOUTPOS_INVBL = 2"
definition DRM_CALLED_FROM_VBLIRQ :: u32 where "DRM_CALLED_FROM_VBLIRQ = 1"
definition DRM_VBLANKTIME_SCANOUTPOS_METHOD :: u32 where "DRM_VBLANKTIME_SCANOUTPOS_METHOD = 1"
definition DRM_VBLANKTIME_INVBL :: u32 where "DRM_VBLANKTIME_INVBL = 2"

text \<open>The repeated query, with \<open>n\<close> turns left: the last query made, or none when one failed.\<close>

fun scanout_loop :: "int \<Rightarrow> (nat \<Rightarrow> scanout_query) \<Rightarrow> nat \<Rightarrow> nat \<Rightarrow> scanout_query option" where
  "scanout_loop max_error qs i 0 = None"
| "scanout_loop max_error qs i (Suc n) =
     (let q = qs i
      in if sq_status q AND DRM_SCANOUTPOS_VALID = 0 then None
         else if sq_end q - sq_start q \<le> max_error \<or> n = 0 then Some q
         else scanout_loop max_error qs (i + 1) n)"

text \<open>\<open>EAGAIN\<close>, \<open>EINVAL\<close> and \<open>EIO\<close> as in the code; otherwise the status, the error and the time.\<close>

definition drm_calc_vbltimestamp_from_scanoutpos ::
    "int \<Rightarrow> int \<Rightarrow> bool \<Rightarrow> drm_display_mode \<Rightarrow> int \<times> int \<times> int \<Rightarrow> u32 \<Rightarrow> int \<Rightarrow> (nat \<Rightarrow> scanout_query) \<Rightarrow>
     (u32 \<times> int \<times> int) outcome" where
  "drm_calc_vbltimestamp_from_scanoutpos num_crtcs crtc supported mode durations flags max_error qs =
     (case durations of (pixeldur_ns, linedur_ns, framedur_ns) \<Rightarrow>
      if crtc < 0 \<or> num_crtcs \<le> crtc then Err EINVAL
      else if \<not> supported then Err EIO
      else let vtotal = dm_crtc_vtotal mode; vdisplay = dm_crtc_vdisplay mode
      in if vtotal \<le> 0 \<or> vdisplay \<le> 0 \<or> framedur_ns = 0 then Err EAGAIN
      else case scanout_loop max_error qs 0 3 of
        None \<Rightarrow> Err EIO
      | Some q \<Rightarrow>
          let invbl = (sq_status q AND DRM_SCANOUTPOS_INVBL \<noteq> 0);
              delta_ns = sq_vpos q * linedur_ns + sq_hpos q * pixeldur_ns;
              delta_ns = (if flags AND DRM_CALLED_FROM_VBLIRQ \<noteq> 0 \<and> \<not> invbl \<and> vdisplay - sq_vpos q < vtotal div 100
                          then delta_ns - framedur_ns else delta_ns)
          in Ok (DRM_VBLANKTIME_SCANOUTPOS_METHOD OR (if invbl then DRM_VBLANKTIME_INVBL else 0),
                 s32i (sq_end q - sq_start q), sq_end q - delta_ns))"

section \<open>Accuracy\<close>

lemma scanout_loop_made: "scanout_loop max_error qs i n = Some q \<Longrightarrow> \<exists>j. q = qs j \<and> sq_status q AND DRM_SCANOUTPOS_VALID \<noteq> 0"
  by (induction n arbitrary: i) (auto simp: Let_def split: if_splits)

text \<open>If the position that a query read was the true one at some instant of the query, the computed time
  of the start of the frame is off by at most the reported error.\<close>

lemma vbltimestamp_accurate:
  assumes "drm_calc_vbltimestamp_from_scanoutpos n c True mode (px, ln, fr) 0 max_error qs = Ok (st, err, t)"
    and "\<forall>j. sq_start (qs j) \<le> at j \<and> at j \<le> sq_end (qs j) \<and> sq_end (qs j) - sq_start (qs j) < 2 ^ 31"
  shows "\<exists>j. t - (at j - (sq_vpos (qs j) * ln + sq_hpos (qs j) * px)) \<le> err \<and> 0 \<le> t - (at j - (sq_vpos (qs j) * ln + sq_hpos (qs j) * px))"
proof -
  obtain q where q: "scanout_loop max_error qs 0 3 = Some q" "err = s32i (sq_end q - sq_start q)" "t = sq_end q - (sq_vpos q * ln + sq_hpos q * px)"
    using assms(1) by (auto simp: drm_calc_vbltimestamp_from_scanoutpos_def Let_def split: if_splits option.splits)
  obtain j where j: "q = qs j" using scanout_loop_made [OF q(1)] by blast
  have "sq_start q \<le> at j" "at j \<le> sq_end q" "sq_end q - sq_start q < 2 ^ 31" using assms(2) j by auto
  moreover from this have "s32i (sq_end q - sq_start q) = sq_end q - sq_start q" by (intro s32i_id) auto
  ultimately show ?thesis using q(2,3) j by (intro exI [of _ j]) auto
qed

end
