(* ===== verification/Drm_Edid_Tables.thy ===== *)
theory Drm_Edid_Tables
  imports Drm_Mode_Lists
begin

text \<open>
  The tables of display modes of \<^verbatim>\<open>drm/drm_edid_modes.h\<close>: the DMT modes, the modes of the established
  timings, those of the third block of established timings and of the frequency ranges (width, height,
  rate and whether reduced blanking is meant), and the CEA modes in the order of their codes.
\<close>

unbundle bit_operations_syntax

definition DRM_MODE_TYPE_DRIVER :: u32 where "DRM_MODE_TYPE_DRIVER = 0x40"
definition DRM_MODE_FLAG_DBLCLK :: u32 where "DRM_MODE_FLAG_DBLCLK = 0x1000"

definition DRM_MODE :: "string \<Rightarrow> u32 \<Rightarrow> int \<Rightarrow> int \<Rightarrow> int \<Rightarrow> int \<Rightarrow> int \<Rightarrow> int \<Rightarrow> int \<Rightarrow> int \<Rightarrow> int \<Rightarrow> int \<Rightarrow> int \<Rightarrow> u32 \<Rightarrow> drm_display_mode" where
  "DRM_MODE nm t c hds hss hse ht hsk vd vss vse vt vs f = zero_mode\<lparr>dm_name := nm, dm_type := t, dm_clock := c,
     dm_hdisplay := hds, dm_hsync_start := hss, dm_hsync_end := hse, dm_htotal := ht, dm_hskew := hsk,
     dm_vdisplay := vd, dm_vsync_start := vss, dm_vsync_end := vse, dm_vtotal := vt, dm_vscan := vs, dm_flags := f\<rparr>"

definition drm_dmt_modes_1 :: "drm_display_mode list" where
  "drm_dmt_modes_1 = [
    DRM_MODE ''640x350'' DRM_MODE_TYPE_DRIVER 31500 640 672 736 832 0 350 382 385 445 0 (DRM_MODE_FLAG_PHSYNC OR DRM_MODE_FLAG_NVSYNC),
    DRM_MODE ''640x400'' DRM_MODE_TYPE_DRIVER 31500 640 672 736 832 0 400 401 404 445 0 (DRM_MODE_FLAG_NHSYNC OR DRM_MODE_FLAG_PVSYNC),
    DRM_MODE ''720x400'' DRM_MODE_TYPE_DRIVER 35500 720 756 828 936 0 400 401 404 446 0 (DRM_MODE_FLAG_NHSYNC OR DRM_MODE_FLAG_PVSYNC),
    DRM_MODE ''640x480'' DRM_MODE_TYPE_DRIVER 25175 640 656 752 800 0 480 489 492 525 0 (DRM_MODE_FLAG_NHSYNC OR DRM_MODE_FLAG_NVSYNC),
    DRM_MODE ''640x480'' DRM_MODE_TYPE_DRIVER 31500 640 664 704 832 0 480 489 492 520 0 (DRM_MODE_FLAG_NHSYNC OR DRM_MODE_FLAG_NVSYNC),
    DRM_MODE ''640x480'' DRM_MODE_TYPE_DRIVER 31500 640 656 720 840 0 480 481 484 500 0 (DRM_MODE_FLAG_NHSYNC OR DRM_MODE_FLAG_NVSYNC),
    DRM_MODE ''640x480'' DRM_MODE_TYPE_DRIVER 36000 640 696 752 832 0 480 481 484 509 0 (DRM_MODE_FLAG_NHSYNC OR DRM_MODE_FLAG_NVSYNC),
    DRM_MODE ''800x600'' DRM_MODE_TYPE_DRIVER 36000 800 824 896 1024 0 600 601 603 625 0 (DRM_MODE_FLAG_PHSYNC OR DRM_MODE_FLAG_PVSYNC),
    DRM_MODE ''800x600'' DRM_MODE_TYPE_DRIVER 40000 800 840 968 1056 0 600 601 605 628 0 (DRM_MODE_FLAG_PHSYNC OR DRM_MODE_FLAG_PVSYNC),
    DRM_MODE ''800x600'' DRM_MODE_TYPE_DRIVER 50000 800 856 976 1040 0 600 637 643 666 0 (DRM_MODE_FLAG_PHSYNC OR DRM_MODE_FLAG_PVSYNC),
    DRM_MODE ''800x600'' DRM_MODE_TYPE_DRIVER 49500 800 816 896 1056 0 600 601 604 625 0 (DRM_MODE_FLAG_PHSYNC OR DRM_MODE_FLAG_PVSYNC),
    DRM_MODE ''800x600'' DRM_MODE_TYPE_DRIVER 56250 800 832 896 1048 0 600 601 604 631 0 (DRM_MODE_FLAG_PHSYNC OR DRM_MODE_FLAG_PVSYNC),
    DRM_MODE ''800x600'' DRM_MODE_TYPE_DRIVER 73250 800 848 880 960 0 600 603 607 636 0 (DRM_MODE_FLAG_PHSYNC OR DRM_MODE_FLAG_NVSYNC),
    DRM_MODE ''848x480'' DRM_MODE_TYPE_DRIVER 33750 848 864 976 1088 0 480 486 494 517 0 (DRM_MODE_FLAG_PHSYNC OR DRM_MODE_FLAG_PVSYNC),
    DRM_MODE ''1024x768i'' DRM_MODE_TYPE_DRIVER 44900 1024 1032 1208 1264 0 768 768 772 817 0 (DRM_MODE_FLAG_PHSYNC OR DRM_MODE_FLAG_PVSYNC OR DRM_MODE_FLAG_INTERLACE),
    DRM_MODE ''1024x768'' DRM_MODE_TYPE_DRIVER 65000 1024 1048 1184 1344 0 768 771 777 806 0 (DRM_MODE_FLAG_NHSYNC OR DRM_MODE_FLAG_NVSYNC),
    DRM_MODE ''1024x768'' DRM_MODE_TYPE_DRIVER 75000 1024 1048 1184 1328 0 768 771 777 806 0 (DRM_MODE_FLAG_NHSYNC OR DRM_MODE_FLAG_NVSYNC),
    DRM_MODE ''1024x768'' DRM_MODE_TYPE_DRIVER 78750 1024 1040 1136 1312 0 768 769 772 800 0 (DRM_MODE_FLAG_PHSYNC OR DRM_MODE_FLAG_PVSYNC),
    DRM_MODE ''1024x768'' DRM_MODE_TYPE_DRIVER 94500 1024 1072 1168 1376 0 768 769 772 808 0 (DRM_MODE_FLAG_PHSYNC OR DRM_MODE_FLAG_PVSYNC),
    DRM_MODE ''1024x768'' DRM_MODE_TYPE_DRIVER 115500 1024 1072 1104 1184 0 768 771 775 813 0 (DRM_MODE_FLAG_PHSYNC OR DRM_MODE_FLAG_NVSYNC),
    DRM_MODE ''1152x864'' DRM_MODE_TYPE_DRIVER 108000 1152 1216 1344 1600 0 864 865 868 900 0 (DRM_MODE_FLAG_PHSYNC OR DRM_MODE_FLAG_PVSYNC),
    DRM_MODE ''1280x768'' DRM_MODE_TYPE_DRIVER 68250 1280 1328 1360 1440 0 768 771 778 790 0 (DRM_MODE_FLAG_PHSYNC OR DRM_MODE_FLAG_NVSYNC),
    DRM_MODE ''1280x768'' DRM_MODE_TYPE_DRIVER 79500 1280 1344 1472 1664 0 768 771 778 798 0 (DRM_MODE_FLAG_NHSYNC OR DRM_MODE_FLAG_PVSYNC),
    DRM_MODE ''1280x768'' DRM_MODE_TYPE_DRIVER 102250 1280 1360 1488 1696 0 768 771 778 805 0 (DRM_MODE_FLAG_PHSYNC OR DRM_MODE_FLAG_NVSYNC),
    DRM_MODE ''1280x768'' DRM_MODE_TYPE_DRIVER 117500 1280 1360 1496 1712 0 768 771 778 809 0 (DRM_MODE_FLAG_NHSYNC OR DRM_MODE_FLAG_PVSYNC),
    DRM_MODE ''1280x768'' DRM_MODE_TYPE_DRIVER 140250 1280 1328 1360 1440 0 768 771 778 813 0 (DRM_MODE_FLAG_PHSYNC OR DRM_MODE_FLAG_NVSYNC)]"

definition drm_dmt_modes_2 :: "drm_display_mode list" where
  "drm_dmt_modes_2 = [
    DRM_MODE ''1280x800'' DRM_MODE_TYPE_DRIVER 71000 1280 1328 1360 1440 0 800 803 809 823 0 (DRM_MODE_FLAG_PHSYNC OR DRM_MODE_FLAG_NVSYNC),
    DRM_MODE ''1280x800'' DRM_MODE_TYPE_DRIVER 83500 1280 1352 1480 1680 0 800 803 809 831 0 (DRM_MODE_FLAG_PHSYNC OR DRM_MODE_FLAG_NVSYNC),
    DRM_MODE ''1280x800'' DRM_MODE_TYPE_DRIVER 106500 1280 1360 1488 1696 0 800 803 809 838 0 (DRM_MODE_FLAG_NHSYNC OR DRM_MODE_FLAG_PVSYNC),
    DRM_MODE ''1280x800'' DRM_MODE_TYPE_DRIVER 122500 1280 1360 1496 1712 0 800 803 809 843 0 (DRM_MODE_FLAG_NHSYNC OR DRM_MODE_FLAG_PVSYNC),
    DRM_MODE ''1280x800'' DRM_MODE_TYPE_DRIVER 146250 1280 1328 1360 1440 0 800 803 809 847 0 (DRM_MODE_FLAG_PHSYNC OR DRM_MODE_FLAG_NVSYNC),
    DRM_MODE ''1280x960'' DRM_MODE_TYPE_DRIVER 108000 1280 1376 1488 1800 0 960 961 964 1000 0 (DRM_MODE_FLAG_PHSYNC OR DRM_MODE_FLAG_PVSYNC),
    DRM_MODE ''1280x960'' DRM_MODE_TYPE_DRIVER 148500 1280 1344 1504 1728 0 960 961 964 1011 0 (DRM_MODE_FLAG_PHSYNC OR DRM_MODE_FLAG_PVSYNC),
    DRM_MODE ''1280x960'' DRM_MODE_TYPE_DRIVER 175500 1280 1328 1360 1440 0 960 963 967 1017 0 (DRM_MODE_FLAG_PHSYNC OR DRM_MODE_FLAG_NVSYNC),
    DRM_MODE ''1280x1024'' DRM_MODE_TYPE_DRIVER 108000 1280 1328 1440 1688 0 1024 1025 1028 1066 0 (DRM_MODE_FLAG_PHSYNC OR DRM_MODE_FLAG_PVSYNC),
    DRM_MODE ''1280x1024'' DRM_MODE_TYPE_DRIVER 135000 1280 1296 1440 1688 0 1024 1025 1028 1066 0 (DRM_MODE_FLAG_PHSYNC OR DRM_MODE_FLAG_PVSYNC),
    DRM_MODE ''1280x1024'' DRM_MODE_TYPE_DRIVER 157500 1280 1344 1504 1728 0 1024 1025 1028 1072 0 (DRM_MODE_FLAG_PHSYNC OR DRM_MODE_FLAG_PVSYNC),
    DRM_MODE ''1280x1024'' DRM_MODE_TYPE_DRIVER 187250 1280 1328 1360 1440 0 1024 1027 1034 1084 0 (DRM_MODE_FLAG_PHSYNC OR DRM_MODE_FLAG_NVSYNC),
    DRM_MODE ''1360x768'' DRM_MODE_TYPE_DRIVER 85500 1360 1424 1536 1792 0 768 771 777 795 0 (DRM_MODE_FLAG_PHSYNC OR DRM_MODE_FLAG_PVSYNC),
    DRM_MODE ''1360x768'' DRM_MODE_TYPE_DRIVER 148250 1360 1408 1440 1520 0 768 771 776 813 0 (DRM_MODE_FLAG_PHSYNC OR DRM_MODE_FLAG_NVSYNC),
    DRM_MODE ''1400x1050'' DRM_MODE_TYPE_DRIVER 101000 1400 1448 1480 1560 0 1050 1053 1057 1080 0 (DRM_MODE_FLAG_PHSYNC OR DRM_MODE_FLAG_NVSYNC),
    DRM_MODE ''1400x1050'' DRM_MODE_TYPE_DRIVER 121750 1400 1488 1632 1864 0 1050 1053 1057 1089 0 (DRM_MODE_FLAG_NHSYNC OR DRM_MODE_FLAG_PVSYNC),
    DRM_MODE ''1400x1050'' DRM_MODE_TYPE_DRIVER 156000 1400 1504 1648 1896 0 1050 1053 1057 1099 0 (DRM_MODE_FLAG_NHSYNC OR DRM_MODE_FLAG_PVSYNC),
    DRM_MODE ''1400x1050'' DRM_MODE_TYPE_DRIVER 179500 1400 1504 1656 1912 0 1050 1053 1057 1105 0 (DRM_MODE_FLAG_NHSYNC OR DRM_MODE_FLAG_PVSYNC),
    DRM_MODE ''1400x1050'' DRM_MODE_TYPE_DRIVER 208000 1400 1448 1480 1560 0 1050 1053 1057 1112 0 (DRM_MODE_FLAG_PHSYNC OR DRM_MODE_FLAG_NVSYNC),
    DRM_MODE ''1440x900'' DRM_MODE_TYPE_DRIVER 88750 1440 1488 1520 1600 0 900 903 909 926 0 (DRM_MODE_FLAG_PHSYNC OR DRM_MODE_FLAG_NVSYNC),
    DRM_MODE ''1440x900'' DRM_MODE_TYPE_DRIVER 106500 1440 1520 1672 1904 0 900 903 909 934 0 (DRM_MODE_FLAG_NHSYNC OR DRM_MODE_FLAG_PVSYNC),
    DRM_MODE ''1440x900'' DRM_MODE_TYPE_DRIVER 136750 1440 1536 1688 1936 0 900 903 909 942 0 (DRM_MODE_FLAG_NHSYNC OR DRM_MODE_FLAG_PVSYNC),
    DRM_MODE ''1440x900'' DRM_MODE_TYPE_DRIVER 157000 1440 1544 1696 1952 0 900 903 909 948 0 (DRM_MODE_FLAG_NHSYNC OR DRM_MODE_FLAG_PVSYNC),
    DRM_MODE ''1440x900'' DRM_MODE_TYPE_DRIVER 182750 1440 1488 1520 1600 0 900 903 909 953 0 (DRM_MODE_FLAG_PHSYNC OR DRM_MODE_FLAG_NVSYNC),
    DRM_MODE ''1600x1200'' DRM_MODE_TYPE_DRIVER 162000 1600 1664 1856 2160 0 1200 1201 1204 1250 0 (DRM_MODE_FLAG_PHSYNC OR DRM_MODE_FLAG_PVSYNC),
    DRM_MODE ''1600x1200'' DRM_MODE_TYPE_DRIVER 175500 1600 1664 1856 2160 0 1200 1201 1204 1250 0 (DRM_MODE_FLAG_PHSYNC OR DRM_MODE_FLAG_PVSYNC),
    DRM_MODE ''1600x1200'' DRM_MODE_TYPE_DRIVER 189000 1600 1664 1856 2160 0 1200 1201 1204 1250 0 (DRM_MODE_FLAG_PHSYNC OR DRM_MODE_FLAG_PVSYNC)]"

definition drm_dmt_modes_3 :: "drm_display_mode list" where
  "drm_dmt_modes_3 = [
    DRM_MODE ''1600x1200'' DRM_MODE_TYPE_DRIVER 202500 1600 1664 1856 2160 0 1200 1201 1204 1250 0 (DRM_MODE_FLAG_PHSYNC OR DRM_MODE_FLAG_PVSYNC),
    DRM_MODE ''1600x1200'' DRM_MODE_TYPE_DRIVER 229500 1600 1664 1856 2160 0 1200 1201 1204 1250 0 (DRM_MODE_FLAG_PHSYNC OR DRM_MODE_FLAG_PVSYNC),
    DRM_MODE ''1600x1200'' DRM_MODE_TYPE_DRIVER 268250 1600 1648 1680 1760 0 1200 1203 1207 1271 0 (DRM_MODE_FLAG_PHSYNC OR DRM_MODE_FLAG_NVSYNC),
    DRM_MODE ''1680x1050'' DRM_MODE_TYPE_DRIVER 119000 1680 1728 1760 1840 0 1050 1053 1059 1080 0 (DRM_MODE_FLAG_PHSYNC OR DRM_MODE_FLAG_NVSYNC),
    DRM_MODE ''1680x1050'' DRM_MODE_TYPE_DRIVER 146250 1680 1784 1960 2240 0 1050 1053 1059 1089 0 (DRM_MODE_FLAG_NHSYNC OR DRM_MODE_FLAG_PVSYNC),
    DRM_MODE ''1680x1050'' DRM_MODE_TYPE_DRIVER 187000 1680 1800 1976 2272 0 1050 1053 1059 1099 0 (DRM_MODE_FLAG_NHSYNC OR DRM_MODE_FLAG_PVSYNC),
    DRM_MODE ''1680x1050'' DRM_MODE_TYPE_DRIVER 214750 1680 1808 1984 2288 0 1050 1053 1059 1105 0 (DRM_MODE_FLAG_NHSYNC OR DRM_MODE_FLAG_PVSYNC),
    DRM_MODE ''1680x1050'' DRM_MODE_TYPE_DRIVER 245500 1680 1728 1760 1840 0 1050 1053 1059 1112 0 (DRM_MODE_FLAG_PHSYNC OR DRM_MODE_FLAG_NVSYNC),
    DRM_MODE ''1792x1344'' DRM_MODE_TYPE_DRIVER 204750 1792 1920 2120 2448 0 1344 1345 1348 1394 0 (DRM_MODE_FLAG_NHSYNC OR DRM_MODE_FLAG_PVSYNC),
    DRM_MODE ''1792x1344'' DRM_MODE_TYPE_DRIVER 261000 1792 1888 2104 2456 0 1344 1345 1348 1417 0 (DRM_MODE_FLAG_NHSYNC OR DRM_MODE_FLAG_PVSYNC),
    DRM_MODE ''1792x1344'' DRM_MODE_TYPE_DRIVER 333250 1792 1840 1872 1952 0 1344 1347 1351 1423 0 (DRM_MODE_FLAG_PHSYNC OR DRM_MODE_FLAG_NVSYNC),
    DRM_MODE ''1856x1392'' DRM_MODE_TYPE_DRIVER 218250 1856 1952 2176 2528 0 1392 1393 1396 1439 0 (DRM_MODE_FLAG_NHSYNC OR DRM_MODE_FLAG_PVSYNC),
    DRM_MODE ''1856x1392'' DRM_MODE_TYPE_DRIVER 288000 1856 1984 2208 2560 0 1392 1395 1399 1500 0 (DRM_MODE_FLAG_NHSYNC OR DRM_MODE_FLAG_PVSYNC),
    DRM_MODE ''1856x1392'' DRM_MODE_TYPE_DRIVER 356500 1856 1904 1936 2016 0 1392 1395 1399 1474 0 (DRM_MODE_FLAG_PHSYNC OR DRM_MODE_FLAG_NVSYNC),
    DRM_MODE ''1920x1200'' DRM_MODE_TYPE_DRIVER 154000 1920 1968 2000 2080 0 1200 1203 1209 1235 0 (DRM_MODE_FLAG_PHSYNC OR DRM_MODE_FLAG_NVSYNC),
    DRM_MODE ''1920x1200'' DRM_MODE_TYPE_DRIVER 193250 1920 2056 2256 2592 0 1200 1203 1209 1245 0 (DRM_MODE_FLAG_NHSYNC OR DRM_MODE_FLAG_PVSYNC),
    DRM_MODE ''1920x1200'' DRM_MODE_TYPE_DRIVER 245250 1920 2056 2264 2608 0 1200 1203 1209 1255 0 (DRM_MODE_FLAG_NHSYNC OR DRM_MODE_FLAG_PVSYNC),
    DRM_MODE ''1920x1200'' DRM_MODE_TYPE_DRIVER 281250 1920 2064 2272 2624 0 1200 1203 1209 1262 0 (DRM_MODE_FLAG_NHSYNC OR DRM_MODE_FLAG_PVSYNC),
    DRM_MODE ''1920x1200'' DRM_MODE_TYPE_DRIVER 317000 1920 1968 2000 2080 0 1200 1203 1209 1271 0 (DRM_MODE_FLAG_PHSYNC OR DRM_MODE_FLAG_NVSYNC),
    DRM_MODE ''1920x1440'' DRM_MODE_TYPE_DRIVER 234000 1920 2048 2256 2600 0 1440 1441 1444 1500 0 (DRM_MODE_FLAG_NHSYNC OR DRM_MODE_FLAG_PVSYNC),
    DRM_MODE ''1920x1440'' DRM_MODE_TYPE_DRIVER 297000 1920 2064 2288 2640 0 1440 1441 1444 1500 0 (DRM_MODE_FLAG_NHSYNC OR DRM_MODE_FLAG_PVSYNC),
    DRM_MODE ''1920x1440'' DRM_MODE_TYPE_DRIVER 380500 1920 1968 2000 2080 0 1440 1443 1447 1525 0 (DRM_MODE_FLAG_PHSYNC OR DRM_MODE_FLAG_NVSYNC),
    DRM_MODE ''2560x1600'' DRM_MODE_TYPE_DRIVER 268500 2560 2608 2640 2720 0 1600 1603 1609 1646 0 (DRM_MODE_FLAG_PHSYNC OR DRM_MODE_FLAG_NVSYNC),
    DRM_MODE ''2560x1600'' DRM_MODE_TYPE_DRIVER 348500 2560 2752 3032 3504 0 1600 1603 1609 1658 0 (DRM_MODE_FLAG_NHSYNC OR DRM_MODE_FLAG_PVSYNC),
    DRM_MODE ''2560x1600'' DRM_MODE_TYPE_DRIVER 443250 2560 2768 3048 3536 0 1600 1603 1609 1672 0 (DRM_MODE_FLAG_NHSYNC OR DRM_MODE_FLAG_PVSYNC),
    DRM_MODE ''2560x1600'' DRM_MODE_TYPE_DRIVER 505250 2560 2768 3048 3536 0 1600 1603 1609 1682 0 (DRM_MODE_FLAG_NHSYNC OR DRM_MODE_FLAG_PVSYNC),
    DRM_MODE ''2560x1600'' DRM_MODE_TYPE_DRIVER 552750 2560 2608 2640 2720 0 1600 1603 1609 1694 0 (DRM_MODE_FLAG_PHSYNC OR DRM_MODE_FLAG_NVSYNC)]"

definition drm_dmt_modes :: "drm_display_mode list" where
  "drm_dmt_modes = drm_dmt_modes_1 @ drm_dmt_modes_2 @ drm_dmt_modes_3"

definition edid_est_modes :: "drm_display_mode list" where
  "edid_est_modes = [
    DRM_MODE ''800x600'' DRM_MODE_TYPE_DRIVER 40000 800 840 968 1056 0 600 601 605 628 0 (DRM_MODE_FLAG_PHSYNC OR DRM_MODE_FLAG_PVSYNC),
    DRM_MODE ''800x600'' DRM_MODE_TYPE_DRIVER 36000 800 824 896 1024 0 600 601 603 625 0 (DRM_MODE_FLAG_PHSYNC OR DRM_MODE_FLAG_PVSYNC),
    DRM_MODE ''640x480'' DRM_MODE_TYPE_DRIVER 31500 640 656 720 840 0 480 481 484 500 0 (DRM_MODE_FLAG_NHSYNC OR DRM_MODE_FLAG_NVSYNC),
    DRM_MODE ''640x480'' DRM_MODE_TYPE_DRIVER 31500 640 664 704 832 0 480 489 491 520 0 (DRM_MODE_FLAG_NHSYNC OR DRM_MODE_FLAG_NVSYNC),
    DRM_MODE ''640x480'' DRM_MODE_TYPE_DRIVER 30240 640 704 768 864 0 480 483 486 525 0 (DRM_MODE_FLAG_NHSYNC OR DRM_MODE_FLAG_NVSYNC),
    DRM_MODE ''640x480'' DRM_MODE_TYPE_DRIVER 25200 640 656 752 800 0 480 490 492 525 0 (DRM_MODE_FLAG_NHSYNC OR DRM_MODE_FLAG_NVSYNC),
    DRM_MODE ''720x400'' DRM_MODE_TYPE_DRIVER 35500 720 738 846 900 0 400 421 423 449 0 (DRM_MODE_FLAG_NHSYNC OR DRM_MODE_FLAG_NVSYNC),
    DRM_MODE ''720x400'' DRM_MODE_TYPE_DRIVER 28320 720 738 846 900 0 400 412 414 449 0 (DRM_MODE_FLAG_NHSYNC OR DRM_MODE_FLAG_PVSYNC),
    DRM_MODE ''1280x1024'' DRM_MODE_TYPE_DRIVER 135000 1280 1296 1440 1688 0 1024 1025 1028 1066 0 (DRM_MODE_FLAG_PHSYNC OR DRM_MODE_FLAG_PVSYNC),
    DRM_MODE ''1024x768'' DRM_MODE_TYPE_DRIVER 78800 1024 1040 1136 1312 0 768 769 772 800 0 (DRM_MODE_FLAG_PHSYNC OR DRM_MODE_FLAG_PVSYNC),
    DRM_MODE ''1024x768'' DRM_MODE_TYPE_DRIVER 75000 1024 1048 1184 1328 0 768 771 777 806 0 (DRM_MODE_FLAG_NHSYNC OR DRM_MODE_FLAG_NVSYNC),
    DRM_MODE ''1024x768'' DRM_MODE_TYPE_DRIVER 65000 1024 1048 1184 1344 0 768 771 777 806 0 (DRM_MODE_FLAG_NHSYNC OR DRM_MODE_FLAG_NVSYNC),
    DRM_MODE ''1024x768i'' DRM_MODE_TYPE_DRIVER 44900 1024 1032 1208 1264 0 768 768 776 817 0 (DRM_MODE_FLAG_PHSYNC OR DRM_MODE_FLAG_PVSYNC OR DRM_MODE_FLAG_INTERLACE),
    DRM_MODE ''832x624'' DRM_MODE_TYPE_DRIVER 57284 832 864 928 1152 0 624 625 628 667 0 (DRM_MODE_FLAG_NHSYNC OR DRM_MODE_FLAG_NVSYNC),
    DRM_MODE ''800x600'' DRM_MODE_TYPE_DRIVER 49500 800 816 896 1056 0 600 601 604 625 0 (DRM_MODE_FLAG_PHSYNC OR DRM_MODE_FLAG_PVSYNC),
    DRM_MODE ''800x600'' DRM_MODE_TYPE_DRIVER 50000 800 856 976 1040 0 600 637 643 666 0 (DRM_MODE_FLAG_PHSYNC OR DRM_MODE_FLAG_PVSYNC),
    DRM_MODE ''1152x864'' DRM_MODE_TYPE_DRIVER 108000 1152 1216 1344 1600 0 864 865 868 900 0 (DRM_MODE_FLAG_PHSYNC OR DRM_MODE_FLAG_PVSYNC)]"

definition est3_modes :: "(int \<times> int \<times> int \<times> int) list" where
  "est3_modes = [
    (640, 350, 85, 0),
    (640, 400, 85, 0),
    (720, 400, 85, 0),
    (640, 480, 85, 0),
    (848, 480, 60, 0),
    (800, 600, 85, 0),
    (1024, 768, 85, 0),
    (1152, 864, 75, 0),
    (1280, 768, 60, 1),
    (1280, 768, 60, 0),
    (1280, 768, 75, 0),
    (1280, 768, 85, 0),
    (1280, 960, 60, 0),
    (1280, 960, 85, 0),
    (1280, 1024, 60, 0),
    (1280, 1024, 85, 0),
    (1360, 768, 60, 0),
    (1440, 900, 60, 1),
    (1440, 900, 60, 0),
    (1440, 900, 75, 0),
    (1440, 900, 85, 0),
    (1400, 1050, 60, 1),
    (1400, 1050, 60, 0),
    (1400, 1050, 75, 0),
    (1400, 1050, 85, 0),
    (1680, 1050, 60, 1),
    (1680, 1050, 60, 0),
    (1680, 1050, 75, 0),
    (1680, 1050, 85, 0),
    (1600, 1200, 60, 0),
    (1600, 1200, 65, 0),
    (1600, 1200, 70, 0),
    (1600, 1200, 75, 0),
    (1600, 1200, 85, 0),
    (1792, 1344, 60, 0),
    (1792, 1344, 85, 0),
    (1856, 1392, 60, 0),
    (1856, 1392, 75, 0),
    (1920, 1200, 60, 1),
    (1920, 1200, 60, 0),
    (1920, 1200, 75, 0),
    (1920, 1200, 85, 0),
    (1920, 1440, 60, 0),
    (1920, 1440, 75, 0)]"

definition extra_modes :: "(int \<times> int \<times> int \<times> int) list" where
  "extra_modes = [
    (1024, 576, 60, 0),
    (1366, 768, 60, 0),
    (1600, 900, 60, 0),
    (1680, 945, 60, 0),
    (1920, 1080, 60, 0),
    (2048, 1152, 60, 0),
    (2048, 1536, 60, 0)]"

definition edid_cea_modes_1 :: "drm_display_mode list" where
  "edid_cea_modes_1 = [
    DRM_MODE ''640x480'' DRM_MODE_TYPE_DRIVER 25175 640 656 752 800 0 480 490 492 525 0 (DRM_MODE_FLAG_NHSYNC OR DRM_MODE_FLAG_NVSYNC),
    DRM_MODE ''720x480'' DRM_MODE_TYPE_DRIVER 27000 720 736 798 858 0 480 489 495 525 0 (DRM_MODE_FLAG_NHSYNC OR DRM_MODE_FLAG_NVSYNC),
    DRM_MODE ''720x480'' DRM_MODE_TYPE_DRIVER 27000 720 736 798 858 0 480 489 495 525 0 (DRM_MODE_FLAG_NHSYNC OR DRM_MODE_FLAG_NVSYNC),
    DRM_MODE ''1280x720'' DRM_MODE_TYPE_DRIVER 74250 1280 1390 1430 1650 0 720 725 730 750 0 (DRM_MODE_FLAG_PHSYNC OR DRM_MODE_FLAG_PVSYNC),
    DRM_MODE ''1920x1080i'' DRM_MODE_TYPE_DRIVER 74250 1920 2008 2052 2200 0 1080 1084 1094 1125 0 (DRM_MODE_FLAG_PHSYNC OR DRM_MODE_FLAG_PVSYNC OR DRM_MODE_FLAG_INTERLACE),
    DRM_MODE ''1440x480i'' DRM_MODE_TYPE_DRIVER 27000 1440 1478 1602 1716 0 480 488 494 525 0 (DRM_MODE_FLAG_NHSYNC OR DRM_MODE_FLAG_NVSYNC OR DRM_MODE_FLAG_INTERLACE OR DRM_MODE_FLAG_DBLCLK),
    DRM_MODE ''1440x480i'' DRM_MODE_TYPE_DRIVER 27000 1440 1478 1602 1716 0 480 488 494 525 0 (DRM_MODE_FLAG_NHSYNC OR DRM_MODE_FLAG_NVSYNC OR DRM_MODE_FLAG_INTERLACE OR DRM_MODE_FLAG_DBLCLK),
    DRM_MODE ''1440x240'' DRM_MODE_TYPE_DRIVER 27000 1440 1478 1602 1716 0 240 244 247 262 0 (DRM_MODE_FLAG_NHSYNC OR DRM_MODE_FLAG_NVSYNC OR DRM_MODE_FLAG_DBLCLK),
    DRM_MODE ''1440x240'' DRM_MODE_TYPE_DRIVER 27000 1440 1478 1602 1716 0 240 244 247 262 0 (DRM_MODE_FLAG_NHSYNC OR DRM_MODE_FLAG_NVSYNC OR DRM_MODE_FLAG_DBLCLK),
    DRM_MODE ''2880x480i'' DRM_MODE_TYPE_DRIVER 54000 2880 2956 3204 3432 0 480 488 494 525 0 (DRM_MODE_FLAG_NHSYNC OR DRM_MODE_FLAG_NVSYNC OR DRM_MODE_FLAG_INTERLACE),
    DRM_MODE ''2880x480i'' DRM_MODE_TYPE_DRIVER 54000 2880 2956 3204 3432 0 480 488 494 525 0 (DRM_MODE_FLAG_NHSYNC OR DRM_MODE_FLAG_NVSYNC OR DRM_MODE_FLAG_INTERLACE),
    DRM_MODE ''2880x240'' DRM_MODE_TYPE_DRIVER 54000 2880 2956 3204 3432 0 240 244 247 262 0 (DRM_MODE_FLAG_NHSYNC OR DRM_MODE_FLAG_NVSYNC),
    DRM_MODE ''2880x240'' DRM_MODE_TYPE_DRIVER 54000 2880 2956 3204 3432 0 240 244 247 262 0 (DRM_MODE_FLAG_NHSYNC OR DRM_MODE_FLAG_NVSYNC),
    DRM_MODE ''1440x480'' DRM_MODE_TYPE_DRIVER 54000 1440 1472 1596 1716 0 480 489 495 525 0 (DRM_MODE_FLAG_NHSYNC OR DRM_MODE_FLAG_NVSYNC),
    DRM_MODE ''1440x480'' DRM_MODE_TYPE_DRIVER 54000 1440 1472 1596 1716 0 480 489 495 525 0 (DRM_MODE_FLAG_NHSYNC OR DRM_MODE_FLAG_NVSYNC),
    DRM_MODE ''1920x1080'' DRM_MODE_TYPE_DRIVER 148500 1920 2008 2052 2200 0 1080 1084 1089 1125 0 (DRM_MODE_FLAG_PHSYNC OR DRM_MODE_FLAG_PVSYNC),
    DRM_MODE ''720x576'' DRM_MODE_TYPE_DRIVER 27000 720 732 796 864 0 576 581 586 625 0 (DRM_MODE_FLAG_NHSYNC OR DRM_MODE_FLAG_NVSYNC),
    DRM_MODE ''720x576'' DRM_MODE_TYPE_DRIVER 27000 720 732 796 864 0 576 581 586 625 0 (DRM_MODE_FLAG_NHSYNC OR DRM_MODE_FLAG_NVSYNC),
    DRM_MODE ''1280x720'' DRM_MODE_TYPE_DRIVER 74250 1280 1720 1760 1980 0 720 725 730 750 0 (DRM_MODE_FLAG_PHSYNC OR DRM_MODE_FLAG_PVSYNC),
    DRM_MODE ''1920x1080i'' DRM_MODE_TYPE_DRIVER 74250 1920 2448 2492 2640 0 1080 1084 1094 1125 0 (DRM_MODE_FLAG_PHSYNC OR DRM_MODE_FLAG_PVSYNC OR DRM_MODE_FLAG_INTERLACE),
    DRM_MODE ''1440x576i'' DRM_MODE_TYPE_DRIVER 27000 1440 1464 1590 1728 0 576 580 586 625 0 (DRM_MODE_FLAG_NHSYNC OR DRM_MODE_FLAG_NVSYNC OR DRM_MODE_FLAG_INTERLACE OR DRM_MODE_FLAG_DBLCLK),
    DRM_MODE ''1440x576i'' DRM_MODE_TYPE_DRIVER 27000 1440 1464 1590 1728 0 576 580 586 625 0 (DRM_MODE_FLAG_NHSYNC OR DRM_MODE_FLAG_NVSYNC OR DRM_MODE_FLAG_INTERLACE OR DRM_MODE_FLAG_DBLCLK),
    DRM_MODE ''1440x288'' DRM_MODE_TYPE_DRIVER 27000 1440 1464 1590 1728 0 288 290 293 312 0 (DRM_MODE_FLAG_NHSYNC OR DRM_MODE_FLAG_NVSYNC OR DRM_MODE_FLAG_DBLCLK),
    DRM_MODE ''1440x288'' DRM_MODE_TYPE_DRIVER 27000 1440 1464 1590 1728 0 288 290 293 312 0 (DRM_MODE_FLAG_NHSYNC OR DRM_MODE_FLAG_NVSYNC OR DRM_MODE_FLAG_DBLCLK),
    DRM_MODE ''2880x576i'' DRM_MODE_TYPE_DRIVER 54000 2880 2928 3180 3456 0 576 580 586 625 0 (DRM_MODE_FLAG_NHSYNC OR DRM_MODE_FLAG_NVSYNC OR DRM_MODE_FLAG_INTERLACE),
    DRM_MODE ''2880x576i'' DRM_MODE_TYPE_DRIVER 54000 2880 2928 3180 3456 0 576 580 586 625 0 (DRM_MODE_FLAG_NHSYNC OR DRM_MODE_FLAG_NVSYNC OR DRM_MODE_FLAG_INTERLACE),
    DRM_MODE ''2880x288'' DRM_MODE_TYPE_DRIVER 54000 2880 2928 3180 3456 0 288 290 293 312 0 (DRM_MODE_FLAG_NHSYNC OR DRM_MODE_FLAG_NVSYNC),
    DRM_MODE ''2880x288'' DRM_MODE_TYPE_DRIVER 54000 2880 2928 3180 3456 0 288 290 293 312 0 (DRM_MODE_FLAG_NHSYNC OR DRM_MODE_FLAG_NVSYNC),
    DRM_MODE ''1440x576'' DRM_MODE_TYPE_DRIVER 54000 1440 1464 1592 1728 0 576 581 586 625 0 (DRM_MODE_FLAG_NHSYNC OR DRM_MODE_FLAG_NVSYNC),
    DRM_MODE ''1440x576'' DRM_MODE_TYPE_DRIVER 54000 1440 1464 1592 1728 0 576 581 586 625 0 (DRM_MODE_FLAG_NHSYNC OR DRM_MODE_FLAG_NVSYNC),
    DRM_MODE ''1920x1080'' DRM_MODE_TYPE_DRIVER 148500 1920 2448 2492 2640 0 1080 1084 1089 1125 0 (DRM_MODE_FLAG_PHSYNC OR DRM_MODE_FLAG_PVSYNC),
    DRM_MODE ''1920x1080'' DRM_MODE_TYPE_DRIVER 74250 1920 2558 2602 2750 0 1080 1084 1089 1125 0 (DRM_MODE_FLAG_PHSYNC OR DRM_MODE_FLAG_PVSYNC)]"

definition edid_cea_modes_2 :: "drm_display_mode list" where
  "edid_cea_modes_2 = [
    DRM_MODE ''1920x1080'' DRM_MODE_TYPE_DRIVER 74250 1920 2448 2492 2640 0 1080 1084 1089 1125 0 (DRM_MODE_FLAG_PHSYNC OR DRM_MODE_FLAG_PVSYNC),
    DRM_MODE ''1920x1080'' DRM_MODE_TYPE_DRIVER 74250 1920 2008 2052 2200 0 1080 1084 1089 1125 0 (DRM_MODE_FLAG_PHSYNC OR DRM_MODE_FLAG_PVSYNC),
    DRM_MODE ''2880x480'' DRM_MODE_TYPE_DRIVER 108000 2880 2944 3192 3432 0 480 489 495 525 0 (DRM_MODE_FLAG_NHSYNC OR DRM_MODE_FLAG_NVSYNC),
    DRM_MODE ''2880x480'' DRM_MODE_TYPE_DRIVER 108000 2880 2944 3192 3432 0 480 489 495 525 0 (DRM_MODE_FLAG_NHSYNC OR DRM_MODE_FLAG_NVSYNC),
    DRM_MODE ''2880x576'' DRM_MODE_TYPE_DRIVER 108000 2880 2928 3184 3456 0 576 581 586 625 0 (DRM_MODE_FLAG_NHSYNC OR DRM_MODE_FLAG_NVSYNC),
    DRM_MODE ''2880x576'' DRM_MODE_TYPE_DRIVER 108000 2880 2928 3184 3456 0 576 581 586 625 0 (DRM_MODE_FLAG_NHSYNC OR DRM_MODE_FLAG_NVSYNC),
    DRM_MODE ''1920x1080i'' DRM_MODE_TYPE_DRIVER 72000 1920 1952 2120 2304 0 1080 1126 1136 1250 0 (DRM_MODE_FLAG_PHSYNC OR DRM_MODE_FLAG_NVSYNC OR DRM_MODE_FLAG_INTERLACE),
    DRM_MODE ''1920x1080i'' DRM_MODE_TYPE_DRIVER 148500 1920 2448 2492 2640 0 1080 1084 1094 1125 0 (DRM_MODE_FLAG_PHSYNC OR DRM_MODE_FLAG_PVSYNC OR DRM_MODE_FLAG_INTERLACE),
    DRM_MODE ''1280x720'' DRM_MODE_TYPE_DRIVER 148500 1280 1720 1760 1980 0 720 725 730 750 0 (DRM_MODE_FLAG_PHSYNC OR DRM_MODE_FLAG_PVSYNC),
    DRM_MODE ''720x576'' DRM_MODE_TYPE_DRIVER 54000 720 732 796 864 0 576 581 586 625 0 (DRM_MODE_FLAG_NHSYNC OR DRM_MODE_FLAG_NVSYNC),
    DRM_MODE ''720x576'' DRM_MODE_TYPE_DRIVER 54000 720 732 796 864 0 576 581 586 625 0 (DRM_MODE_FLAG_NHSYNC OR DRM_MODE_FLAG_NVSYNC),
    DRM_MODE ''1440x576'' DRM_MODE_TYPE_DRIVER 54000 1440 1464 1590 1728 0 576 580 586 625 0 (DRM_MODE_FLAG_NHSYNC OR DRM_MODE_FLAG_NVSYNC OR DRM_MODE_FLAG_DBLCLK),
    DRM_MODE ''1440x576'' DRM_MODE_TYPE_DRIVER 54000 1440 1464 1590 1728 0 576 580 586 625 0 (DRM_MODE_FLAG_NHSYNC OR DRM_MODE_FLAG_NVSYNC OR DRM_MODE_FLAG_DBLCLK),
    DRM_MODE ''1920x1080i'' DRM_MODE_TYPE_DRIVER 148500 1920 2008 2052 2200 0 1080 1084 1094 1125 0 (DRM_MODE_FLAG_PHSYNC OR DRM_MODE_FLAG_PVSYNC OR DRM_MODE_FLAG_INTERLACE),
    DRM_MODE ''1280x720'' DRM_MODE_TYPE_DRIVER 148500 1280 1390 1430 1650 0 720 725 730 750 0 (DRM_MODE_FLAG_PHSYNC OR DRM_MODE_FLAG_PVSYNC),
    DRM_MODE ''720x480'' DRM_MODE_TYPE_DRIVER 54000 720 736 798 858 0 480 489 495 525 0 (DRM_MODE_FLAG_NHSYNC OR DRM_MODE_FLAG_NVSYNC),
    DRM_MODE ''720x480'' DRM_MODE_TYPE_DRIVER 54000 720 736 798 858 0 480 489 495 525 0 (DRM_MODE_FLAG_NHSYNC OR DRM_MODE_FLAG_NVSYNC),
    DRM_MODE ''1440x480i'' DRM_MODE_TYPE_DRIVER 54000 1440 1478 1602 1716 0 480 488 494 525 0 (DRM_MODE_FLAG_NHSYNC OR DRM_MODE_FLAG_NVSYNC OR DRM_MODE_FLAG_INTERLACE OR DRM_MODE_FLAG_DBLCLK),
    DRM_MODE ''1440x480i'' DRM_MODE_TYPE_DRIVER 54000 1440 1478 1602 1716 0 480 488 494 525 0 (DRM_MODE_FLAG_NHSYNC OR DRM_MODE_FLAG_NVSYNC OR DRM_MODE_FLAG_INTERLACE OR DRM_MODE_FLAG_DBLCLK),
    DRM_MODE ''720x576'' DRM_MODE_TYPE_DRIVER 108000 720 732 796 864 0 576 581 586 625 0 (DRM_MODE_FLAG_NHSYNC OR DRM_MODE_FLAG_NVSYNC),
    DRM_MODE ''720x576'' DRM_MODE_TYPE_DRIVER 108000 720 732 796 864 0 576 581 586 625 0 (DRM_MODE_FLAG_NHSYNC OR DRM_MODE_FLAG_NVSYNC),
    DRM_MODE ''1440x576i'' DRM_MODE_TYPE_DRIVER 108000 1440 1464 1590 1728 0 576 580 586 625 0 (DRM_MODE_FLAG_NHSYNC OR DRM_MODE_FLAG_NVSYNC OR DRM_MODE_FLAG_INTERLACE OR DRM_MODE_FLAG_DBLCLK),
    DRM_MODE ''1440x576i'' DRM_MODE_TYPE_DRIVER 108000 1440 1464 1590 1728 0 576 580 586 625 0 (DRM_MODE_FLAG_NHSYNC OR DRM_MODE_FLAG_NVSYNC OR DRM_MODE_FLAG_INTERLACE OR DRM_MODE_FLAG_DBLCLK),
    DRM_MODE ''720x480'' DRM_MODE_TYPE_DRIVER 108000 720 736 798 858 0 480 489 495 525 0 (DRM_MODE_FLAG_NHSYNC OR DRM_MODE_FLAG_NVSYNC),
    DRM_MODE ''720x480'' DRM_MODE_TYPE_DRIVER 108000 720 736 798 858 0 480 489 495 525 0 (DRM_MODE_FLAG_NHSYNC OR DRM_MODE_FLAG_NVSYNC),
    DRM_MODE ''1440x480i'' DRM_MODE_TYPE_DRIVER 108000 1440 1478 1602 1716 0 480 488 494 525 0 (DRM_MODE_FLAG_NHSYNC OR DRM_MODE_FLAG_NVSYNC OR DRM_MODE_FLAG_INTERLACE OR DRM_MODE_FLAG_DBLCLK),
    DRM_MODE ''1440x480i'' DRM_MODE_TYPE_DRIVER 108000 1440 1478 1602 1716 0 480 488 494 525 0 (DRM_MODE_FLAG_NHSYNC OR DRM_MODE_FLAG_NVSYNC OR DRM_MODE_FLAG_INTERLACE OR DRM_MODE_FLAG_DBLCLK),
    DRM_MODE ''1280x720'' DRM_MODE_TYPE_DRIVER 59400 1280 3040 3080 3300 0 720 725 730 750 0 (DRM_MODE_FLAG_PHSYNC OR DRM_MODE_FLAG_PVSYNC),
    DRM_MODE ''1280x720'' DRM_MODE_TYPE_DRIVER 74250 1280 3700 3740 3960 0 720 725 730 750 0 (DRM_MODE_FLAG_PHSYNC OR DRM_MODE_FLAG_PVSYNC),
    DRM_MODE ''1280x720'' DRM_MODE_TYPE_DRIVER 74250 1280 3040 3080 3300 0 720 725 730 750 0 (DRM_MODE_FLAG_PHSYNC OR DRM_MODE_FLAG_PVSYNC),
    DRM_MODE ''1920x1080'' DRM_MODE_TYPE_DRIVER 297000 1920 2008 2052 2200 0 1080 1084 1089 1125 0 (DRM_MODE_FLAG_PHSYNC OR DRM_MODE_FLAG_PVSYNC),
    DRM_MODE ''1920x1080'' DRM_MODE_TYPE_DRIVER 297000 1920 2448 2492 2640 0 1080 1084 1094 1125 0 (DRM_MODE_FLAG_PHSYNC OR DRM_MODE_FLAG_PVSYNC)]"

definition edid_cea_modes :: "drm_display_mode list" where
  "edid_cea_modes = edid_cea_modes_1 @ edid_cea_modes_2"

end
