(* ===== verification/Drm_Edid.thy ===== *)
theory Drm_Edid
  imports Drm_Edid_Tables
begin

text \<open>
  EDID, \<^verbatim>\<open>drm/drm_edid.c\<close>: validating and fetching the blocks, walking over the timings and the data
  blocks, and turning them into modes, an ELD and display information.  An EDID is the list of its
  bytes.  Reads at an offset the data decides go through \<open>at\<close> and \<open>slice\<close>, which are \<open>Bug\<close> past the
  end; the fixed fields of the first 128 bytes are read with \<open>!\<close>.  The answers of the allocator are a
  stream in the state.
\<close>

unbundle bit_operations_syntax

section \<open>Bytes\<close>

definition EDID_LENGTH :: nat where "EDID_LENGTH = 128"

definition at :: "u8 list \<Rightarrow> nat \<Rightarrow> u8 outcome" where
  "at bs i = (if i < length bs then Ok (bs ! i) else Bug)"

definition slice :: "u8 list \<Rightarrow> nat \<Rightarrow> nat \<Rightarrow> u8 list outcome" where
  "slice bs i n = (if i + n \<le> length bs then Ok (take n (drop i bs)) else Bug)"

text \<open>A write of some bytes.\<close>

definition put :: "nat \<Rightarrow> u8 list \<Rightarrow> u8 list \<Rightarrow> u8 list outcome" where
  "put i new bs = (if i + length new \<le> length bs then Ok (take i bs @ new @ drop (i + length new) bs) else Bug)"

section \<open>Blocks\<close>

definition edid_header :: "u8 list" where
  "edid_header = [0, 0xff, 0xff, 0xff, 0xff, 0xff, 0xff, 0]"

definition drm_edid_header_is_valid :: "u8 list \<Rightarrow> nat" where
  "drm_edid_header_is_valid raw = length (filter (\<lambda>i. raw ! i = edid_header ! i) [0..<length edid_header])"

text \<open>The module parameter; a value out of range is reset.\<close>

definition edid_fixup_level :: "int \<Rightarrow> int" where
  "edid_fixup_level fixup = (if 8 < fixup \<or> fixup < 0 then 6 else fixup)"

text \<open>The verdict on one block, and the block with its header repaired.\<close>

definition drm_edid_block_valid :: "int \<Rightarrow> nat \<Rightarrow> u8 list \<Rightarrow> bool \<times> u8 list" where
  "drm_edid_block_valid fixup block raw =
     (let score = drm_edid_header_is_valid raw
      in if block = 0 \<and> score \<noteq> 8 \<and> int score < edid_fixup_level fixup then (False, raw)
         else let raw = (if block = 0 \<and> score \<noteq> 8 then edid_header @ drop (length edid_header) raw else raw);
                  csum = sum_list (take EDID_LENGTH raw)
              in if csum \<noteq> 0 \<and> raw ! 0 \<noteq> 2 then (False, raw)
                 else if raw ! 0 = 0 \<and> raw ! 18 \<noteq> 1 then (False, raw)
                 else (True, raw))"

definition block_at :: "u8 list \<Rightarrow> nat \<Rightarrow> u8 list" where
  "block_at raw i = take EDID_LENGTH (drop (i * EDID_LENGTH) raw)"

definition put_block :: "nat \<Rightarrow> u8 list \<Rightarrow> u8 list \<Rightarrow> u8 list" where
  "put_block i b raw = take (i * EDID_LENGTH) raw @ b @ drop ((i + 1) * EDID_LENGTH) raw"

fun edid_blocks_valid :: "int \<Rightarrow> nat list \<Rightarrow> u8 list \<Rightarrow> (bool \<times> u8 list) outcome" where
  "edid_blocks_valid fixup [] raw = Ok (True, raw)"
| "edid_blocks_valid fixup (i # is) raw =
     (if length raw < (i + 1) * EDID_LENGTH then Bug
      else case drm_edid_block_valid fixup i (block_at raw i) of
             (ok, b) \<Rightarrow> let raw = put_block i b raw
                        in if ok then edid_blocks_valid fixup is raw else Ok (False, raw))"

definition extensions :: "u8 list \<Rightarrow> nat" where
  "extensions raw = unat (raw ! 0x7e)"

definition drm_edid_is_valid :: "int \<Rightarrow> u8 list \<Rightarrow> (bool \<times> u8 list) outcome" where
  "drm_edid_is_valid fixup raw =
     (if length raw < EDID_LENGTH then Bug else edid_blocks_valid fixup [0..<extensions raw + 1] raw)"

section \<open>Fetching\<close>

text \<open>\<open>reads\<close> are the results of the transfers, in their order: the bytes or none for an error.  A
  fetch tries five times.\<close>

fun drm_do_probe_ddc_edid :: "nat \<Rightarrow> u8 list option list \<Rightarrow> u8 list option \<times> u8 list option list" where
  "drm_do_probe_ddc_edid 0 reads = (None, reads)"
| "drm_do_probe_ddc_edid (Suc n) [] = (None, [])"
| "drm_do_probe_ddc_edid (Suc n) (Some b # reads) = (Some b, reads)"
| "drm_do_probe_ddc_edid (Suc n) (None # reads) = drm_do_probe_ddc_edid n reads"

definition drm_edid_is_zero :: "u8 list \<Rightarrow> bool" where
  "drm_edid_is_zero b \<longleftrightarrow> list_all (\<lambda>x. x = 0) b"

record edid_counters =
  null_edid_counter :: nat
  bad_edid_counter :: nat

datatype fetched = Fetched "u8 list" | Unreadable | Invalid bool

text \<open>The attempts at one block, \<open>i\<close> of four made so far; \<open>Invalid True\<close> is an all-zero first answer
  of the base block.\<close>

fun fetch_block :: "int \<Rightarrow> nat \<Rightarrow> nat \<Rightarrow> u8 list option list \<Rightarrow> nat \<Rightarrow> fetched \<times> u8 list option list" where
  "fetch_block fixup j i reads 0 = (Invalid False, reads)"
| "fetch_block fixup j i reads (Suc n) =
     (case drm_do_probe_ddc_edid 5 reads of
        (None, reads) \<Rightarrow> (Unreadable, reads)
      | (Some b, reads) \<Rightarrow>
          (case drm_edid_block_valid fixup j b of
             (True, b) \<Rightarrow> (Fetched b, reads)
           | (False, b) \<Rightarrow>
               if j = 0 \<and> i = 0 \<and> drm_edid_is_zero b then (Invalid True, reads)
               else fetch_block fixup j (i + 1) reads n))"

text \<open>The extension blocks, appended as they are found valid.\<close>

fun fetch_extensions ::
    "int \<Rightarrow> bool \<Rightarrow> nat list \<Rightarrow> u8 list option list \<Rightarrow> u8 list \<times> edid_counters \<Rightarrow>
     (u8 list \<times> edid_counters) option \<times> u8 list option list" where
  "fetch_extensions fixup print_bad [] reads s = (Some s, reads)"
| "fetch_extensions fixup print_bad (j # js) reads s =
     (case fetch_block fixup j 0 reads 4 of
        (Unreadable, reads) \<Rightarrow> (None, reads)
      | (Fetched b, reads) \<Rightarrow> fetch_extensions fixup print_bad js reads (fst s @ b, snd s)
      | (Invalid z, reads) \<Rightarrow>
          fetch_extensions fixup print_bad js reads
            (fst s, if print_bad then (snd s)\<lparr>bad_edid_counter := bad_edid_counter (snd s) + 1\<rparr> else snd s))"

text \<open>\<open>allocs\<close> are the answers for the first block and the two reallocations.  The buffer is the list
  of what was read into it.\<close>

definition drm_do_get_edid ::
    "int \<Rightarrow> bool \<Rightarrow> bool \<times> bool \<times> bool \<Rightarrow> u8 list option list \<Rightarrow> edid_counters \<Rightarrow> u8 list option \<times> edid_counters" where
  "drm_do_get_edid fixup debug allocs reads c =
    (case allocs of (alloc1, alloc2, alloc3) \<Rightarrow>
     let print_bad = (bad_edid_counter c = 0 \<or> debug)
     in if \<not> alloc1 then (None, c)
        else case fetch_block fixup 0 0 reads 4 of
          (Unreadable, reads) \<Rightarrow> (None, c)
        | (Invalid z, reads) \<Rightarrow>
            let c = (if z then c\<lparr>null_edid_counter := null_edid_counter c + 1\<rparr> else c)
            in (None, c\<lparr>bad_edid_counter := bad_edid_counter c + 1\<rparr>)
        | (Fetched base, reads) \<Rightarrow>
            if base ! 0x7e = 0 then (Some base, c)
            else if \<not> alloc2 then (None, c)
            else case fetch_extensions fixup print_bad [1..<unat (base ! 0x7e) + 1] reads (base, c) of
              (None, reads) \<Rightarrow> (None, c)
            | (Some (block, c), reads) \<Rightarrow>
                let valid = length block div EDID_LENGTH - 1
                in if valid \<noteq> unat (block ! 0x7e)
                   then (if alloc3
                         then (Some (block[127 := block ! 127 + (block ! 0x7e - word_of_nat valid), 0x7e := word_of_nat valid]), c)
                         else (None, c))
                   else (Some block, c))"

text \<open>The probe reads one byte; \<open>probes\<close> are the results of its transfers.\<close>

definition drm_probe_ddc :: "u8 list option list \<Rightarrow> bool" where
  "drm_probe_ddc probes \<longleftrightarrow> fst (drm_do_probe_ddc_edid 5 probes) \<noteq> None"

definition drm_get_edid ::
    "int \<Rightarrow> bool \<Rightarrow> bool \<times> bool \<times> bool \<Rightarrow> u8 list option list \<Rightarrow> u8 list option list \<Rightarrow> edid_counters \<Rightarrow>
     u8 list option \<times> edid_counters" where
  "drm_get_edid fixup debug allocs probes reads c =
     (if drm_probe_ddc probes then drm_do_get_edid fixup debug allocs reads c else (None, c))"

section \<open>Quirks\<close>

definition EDID_QUIRK_PREFER_LARGE_60 :: u32 where "EDID_QUIRK_PREFER_LARGE_60 = 1"
definition EDID_QUIRK_135_CLOCK_TOO_HIGH :: u32 where "EDID_QUIRK_135_CLOCK_TOO_HIGH = 2"
definition EDID_QUIRK_PREFER_LARGE_75 :: u32 where "EDID_QUIRK_PREFER_LARGE_75 = 4"
definition EDID_QUIRK_DETAILED_IN_CM :: u32 where "EDID_QUIRK_DETAILED_IN_CM = 8"
definition EDID_QUIRK_DETAILED_USE_MAXIMUM_SIZE :: u32 where "EDID_QUIRK_DETAILED_USE_MAXIMUM_SIZE = 16"
definition EDID_QUIRK_FIRST_DETAILED_PREFERRED :: u32 where "EDID_QUIRK_FIRST_DETAILED_PREFERRED = 32"
definition EDID_QUIRK_DETAILED_SYNC_PP :: u32 where "EDID_QUIRK_DETAILED_SYNC_PP = 64"
definition EDID_QUIRK_FORCE_REDUCED_BLANKING :: u32 where "EDID_QUIRK_FORCE_REDUCED_BLANKING = 128"

definition edid_quirk_list :: "(string \<times> int \<times> u32) list" where
  "edid_quirk_list = [
    (''ACR'', 44358, EDID_QUIRK_PREFER_LARGE_60),
    (''API'', 0x7602, EDID_QUIRK_PREFER_LARGE_60),
    (''ACR'', 2423, EDID_QUIRK_FIRST_DETAILED_PREFERRED),
    (''MAX'', 1516, EDID_QUIRK_PREFER_LARGE_60),
    (''MAX'', 0x77e, EDID_QUIRK_PREFER_LARGE_60),
    (''EPI'', 59264, EDID_QUIRK_135_CLOCK_TOO_HIGH),
    (''EPI'', 8232, EDID_QUIRK_PREFER_LARGE_60),
    (''FCM'', 13600, EDID_QUIRK_PREFER_LARGE_75 OR EDID_QUIRK_DETAILED_IN_CM),
    (''LPL'', 0, EDID_QUIRK_DETAILED_USE_MAXIMUM_SIZE),
    (''LPL'', 0x2a00, EDID_QUIRK_DETAILED_USE_MAXIMUM_SIZE),
    (''PHL'', 57364, EDID_QUIRK_FIRST_DETAILED_PREFERRED),
    (''PTS'', 765, EDID_QUIRK_FIRST_DETAILED_PREFERRED),
    (''SAM'', 541, EDID_QUIRK_DETAILED_SYNC_PP),
    (''SAM'', 596, EDID_QUIRK_PREFER_LARGE_60),
    (''SAM'', 638, EDID_QUIRK_PREFER_LARGE_60),
    (''VSC'', 5020, EDID_QUIRK_FORCE_REDUCED_BLANKING)]"

definition edid_vendor :: "u8 list \<Rightarrow> string \<Rightarrow> bool" where
  "edid_vendor raw vendor \<longleftrightarrow>
     [drop_bit 2 (raw ! 8 AND 0x7c) + 64, (push_bit 3 (raw ! 8 AND 3) OR drop_bit 5 (raw ! 9 AND 0xe0)) + 64, (raw ! 9 AND 0x1f) + 64]
     = map of_char vendor"

definition EDID_PRODUCT_ID :: "u8 list \<Rightarrow> int" where
  "EDID_PRODUCT_ID raw = uint (raw ! 10) OR push_bit 8 (uint (raw ! 11))"

definition edid_get_quirks :: "u8 list \<Rightarrow> u32" where
  "edid_get_quirks raw =
     (case find (\<lambda>(vendor, product, quirks). edid_vendor raw vendor \<and> EDID_PRODUCT_ID raw = product) edid_quirk_list of
        None \<Rightarrow> 0 | Some (_, _, quirks) \<Rightarrow> quirks)"

end
