(* ===== verification/Drm_Edid_Walk.thy ===== *)
theory Drm_Edid_Walk
  imports Drm_Edid
begin

text \<open>
  The detailed timings of an EDID, \<^verbatim>\<open>drm/drm_edid.c\<close>: the walks over the timings of the base block and
  of the CEA and VTB extensions, what the monitor range descriptor says, and the translation of a
  standard and of a detailed timing into a mode.  A callback gets the offset of the timing in the
  EDID; the state of a walk is the EDID, which a callback may change, and the closure.
\<close>

unbundle bit_operations_syntax

definition CEA_EXT :: u8 where "CEA_EXT = 0x02"
definition VTB_EXT :: u8 where "VTB_EXT = 0x10"

section \<open>Walks\<close>

type_synonym 'c detailed_cb = "nat \<Rightarrow> u8 list \<times> 'c \<Rightarrow> (u8 list \<times> 'c) outcome"

fun each_timing :: "'c detailed_cb \<Rightarrow> nat list \<Rightarrow> u8 list \<times> 'c \<Rightarrow> (u8 list \<times> 'c) outcome" where
  "each_timing cb [] s = Ok s"
| "each_timing cb (offset # offsets) s = bind_outcome (cb offset s) (each_timing cb offsets)"

text \<open>\<open>ext\<close> is the offset of the extension.  The subtraction stops at 0, where the negative quotient of
  the code gives no iteration either.\<close>

definition cea_for_each_detailed_block :: "nat \<Rightarrow> 'c detailed_cb \<Rightarrow> u8 list \<times> 'c \<Rightarrow> (u8 list \<times> 'c) outcome" where
  "cea_for_each_detailed_block ext cb s =
     bind_outcome (at (fst s) (ext + 2)) (\<lambda>d. let n = (127 - unat d) div 18
       in each_timing cb (map (\<lambda>i. ext + unat d + 18 * i) [0..<n]) s)"

definition vtb_for_each_detailed_block :: "nat \<Rightarrow> 'c detailed_cb \<Rightarrow> u8 list \<times> 'c \<Rightarrow> (u8 list \<times> 'c) outcome" where
  "vtb_for_each_detailed_block ext cb s =
     bind_outcome (at (fst s) (ext + 2)) (\<lambda>b. let n = min (unat b) 6
       in bind_outcome (at (fst s) (ext + 1)) (\<lambda>v. if v \<noteq> 1 then Ok s
            else each_timing cb (map (\<lambda>i. ext + 5 + 18 * i) [0..<n]) s))"

definition ext_for_each_detailed_block :: "nat \<Rightarrow> 'c detailed_cb \<Rightarrow> u8 list \<times> 'c \<Rightarrow> (u8 list \<times> 'c) outcome" where
  "ext_for_each_detailed_block ext cb s =
     bind_outcome (at (fst s) ext) (\<lambda>b.
       if b = CEA_EXT then cea_for_each_detailed_block ext cb s
       else if b = VTB_EXT then vtb_for_each_detailed_block ext cb s else Ok s)"

text \<open>The extensions from number \<open>i\<close> on; the count is read again before each.\<close>

function for_each_extension :: "'c detailed_cb \<Rightarrow> nat \<Rightarrow> u8 list \<times> 'c \<Rightarrow> (u8 list \<times> 'c) outcome" where
  "for_each_extension cb i s =
     (if extensions (fst s) < i then Ok s
      else case ext_for_each_detailed_block (i * EDID_LENGTH) cb s of
             Ok s \<Rightarrow> for_each_extension cb (i + 1) s | Err e \<Rightarrow> Err e | Bug \<Rightarrow> Bug)"
  by pat_completeness auto

lemma extensions_le: "extensions raw \<le> 255"
  using unsigned_less [of "raw ! 0x7e", where ?'a = nat] by (simp add: extensions_def)

termination for_each_extension
proof (relation "measure (\<lambda>(cb, i, s). 256 - i)")
  fix i and s :: "u8 list \<times> 'c"
  assume "\<not> extensions (fst s) < i"
  then have "i < 256" using extensions_le [of "fst s"] by linarith
  then show "((cb, i + 1, s'), (cb, i, s)) \<in> measure (\<lambda>(cb :: 'c detailed_cb, i, s). 256 - i)" for cb s'
    by simp
qed simp

declare for_each_extension.simps [simp del]

definition drm_for_each_detailed_block :: "'c detailed_cb \<Rightarrow> u8 list \<times> 'c \<Rightarrow> (u8 list \<times> 'c) outcome" where
  "drm_for_each_detailed_block cb s =
     (if length (fst s) < EDID_LENGTH then Bug
      else bind_outcome (each_timing cb (map (\<lambda>i. 54 + 18 * i) [0..<4]) s) (for_each_extension cb 1))"

text \<open>A callback that reads the 18 bytes of its timing and changes its closure only.\<close>

definition reading :: "(u8 list \<Rightarrow> 'c \<Rightarrow> 'c outcome) \<Rightarrow> 'c detailed_cb" where
  "reading f offset s = bind_outcome (slice (fst s) offset 18) (\<lambda>t. bind_outcome (f t (snd s)) (\<lambda>c. Ok (fst s, c)))"

definition walk :: "(u8 list \<Rightarrow> 'c \<Rightarrow> 'c outcome) \<Rightarrow> u8 list \<Rightarrow> 'c \<Rightarrow> 'c outcome" where
  "walk f raw c = bind_outcome (drm_for_each_detailed_block (reading f) (raw, c)) (\<lambda>s. Ok (snd s))"

section \<open>The fields of the base block\<close>

definition edid_version :: "u8 list \<Rightarrow> int" where "edid_version raw = uint (raw ! 18)"
definition edid_revision :: "u8 list \<Rightarrow> int" where "edid_revision raw = uint (raw ! 19)"
definition edid_input :: "u8 list \<Rightarrow> u8" where "edid_input raw = raw ! 20"
definition edid_width_cm :: "u8 list \<Rightarrow> int" where "edid_width_cm raw = uint (raw ! 21)"
definition edid_height_cm :: "u8 list \<Rightarrow> int" where "edid_height_cm raw = uint (raw ! 22)"
definition edid_features :: "u8 list \<Rightarrow> u8" where "edid_features raw = raw ! 24"

definition version_greater :: "u8 list \<Rightarrow> int \<Rightarrow> int \<Rightarrow> bool" where
  "version_greater raw major minor \<longleftrightarrow>
     major < edid_version raw \<or> (edid_version raw = major \<and> minor < edid_revision raw)"

definition DRM_EDID_INPUT_DIGITAL :: u8 where "DRM_EDID_INPUT_DIGITAL = 0x80"
definition DRM_EDID_FEATURE_DEFAULT_GTF :: u8 where "DRM_EDID_FEATURE_DEFAULT_GTF = 1"
definition DRM_EDID_FEATURE_PREFERRED_TIMING :: u8 where "DRM_EDID_FEATURE_PREFERRED_TIMING = 2"

definition EDID_DETAIL_EST_TIMINGS :: u8 where "EDID_DETAIL_EST_TIMINGS = 0xf7"
definition EDID_DETAIL_CVT_3BYTE :: u8 where "EDID_DETAIL_CVT_3BYTE = 0xf8"
definition EDID_DETAIL_STD_MODES :: u8 where "EDID_DETAIL_STD_MODES = 0xfa"
definition EDID_DETAIL_MONITOR_NAME :: u8 where "EDID_DETAIL_MONITOR_NAME = 0xfc"
definition EDID_DETAIL_MONITOR_RANGE :: u8 where "EDID_DETAIL_MONITOR_RANGE = 0xfd"

section \<open>What the range descriptor says\<close>

definition is_rb :: "u8 list \<Rightarrow> bool \<Rightarrow> bool outcome" where
  "is_rb r data = Ok (if r ! 3 = EDID_DETAIL_MONITOR_RANGE \<and> r ! 15 AND 0x10 \<noteq> 0 then True else data)"

definition drm_monitor_supports_rb :: "u8 list \<Rightarrow> bool outcome" where
  "drm_monitor_supports_rb raw =
     (if 4 \<le> edid_revision raw then walk is_rb raw False
      else Ok (edid_input raw AND DRM_EDID_INPUT_DIGITAL \<noteq> 0))"

definition find_gtf2 :: "u8 list \<Rightarrow> u8 list option \<Rightarrow> u8 list option outcome" where
  "find_gtf2 r data = Ok (if r ! 3 = EDID_DETAIL_MONITOR_RANGE \<and> r ! 10 = 0x02 then Some r else data)"

definition gtf2_field :: "(u8 list \<Rightarrow> int) \<Rightarrow> u8 list \<Rightarrow> int outcome" where
  "gtf2_field f raw = bind_outcome (walk find_gtf2 raw None)
     (\<lambda>r. Ok (case r of None \<Rightarrow> 0 | Some r \<Rightarrow> f r))"

definition drm_gtf2_hbreak :: "u8 list \<Rightarrow> int outcome" where
  "drm_gtf2_hbreak = gtf2_field (\<lambda>r. uint (r ! 12) * 2)"

definition drm_gtf2_2c :: "u8 list \<Rightarrow> int outcome" where
  "drm_gtf2_2c = gtf2_field (\<lambda>r. uint (r ! 13))"

definition drm_gtf2_m :: "u8 list \<Rightarrow> int outcome" where
  "drm_gtf2_m = gtf2_field (\<lambda>r. push_bit 8 (uint (r ! 15)) + uint (r ! 14))"

definition drm_gtf2_k :: "u8 list \<Rightarrow> int outcome" where
  "drm_gtf2_k = gtf2_field (\<lambda>r. uint (r ! 16))"

definition drm_gtf2_2j :: "u8 list \<Rightarrow> int outcome" where
  "drm_gtf2_2j = gtf2_field (\<lambda>r. uint (r ! 17))"

datatype timing_level = LEVEL_DMT | LEVEL_GTF | LEVEL_GTF2 | LEVEL_CVT

definition standard_timing_level :: "u8 list \<Rightarrow> timing_level outcome" where
  "standard_timing_level raw =
     (if 2 \<le> edid_revision raw then
        (if 4 \<le> edid_revision raw \<and> edid_features raw AND DRM_EDID_FEATURE_DEFAULT_GTF \<noteq> 0 then Ok LEVEL_CVT
         else bind_outcome (drm_gtf2_hbreak raw) (\<lambda>b. Ok (if b \<noteq> 0 then LEVEL_GTF2 else LEVEL_GTF)))
      else Ok LEVEL_DMT)"

section \<open>The connector while modes are added\<close>

text \<open>The ring of probed modes, what the allocator answers, the number of modes added (the counters of
  the functions, which their callers add up) and the flag of the closure that the next detailed mode is
  the preferred one.\<close>

record edid_conn =
  ec_probed :: "drm_display_mode list"
  ec_alloc :: "nat \<Rightarrow> bool"
  ec_n :: nat
  ec_modes :: nat
  ec_preferred :: bool

definition next_alloc :: "edid_conn \<Rightarrow> bool \<times> edid_conn" where
  "next_alloc c = (ec_alloc c (ec_n c), c\<lparr>ec_n := ec_n c + 1\<rparr>)"

text \<open>\<^verbatim>\<open>drm_mode_probed_add\<close> and the count.\<close>

definition drm_mode_probed_add :: "drm_display_mode \<Rightarrow> edid_conn \<Rightarrow> edid_conn" where
  "drm_mode_probed_add m c = c\<lparr>ec_probed := m # ec_probed c, ec_modes := ec_modes c + 1\<rparr>"

definition add_opt :: "drm_display_mode option \<times> edid_conn \<Rightarrow> edid_conn" where
  "add_opt r = (case r of (None, c) \<Rightarrow> c | (Some m, c) \<Rightarrow> drm_mode_probed_add m c)"

definition drm_mode_duplicate :: "drm_display_mode \<Rightarrow> edid_conn \<Rightarrow> drm_display_mode option \<times> edid_conn" where
  "drm_mode_duplicate m c = (case next_alloc c of (ok, c) \<Rightarrow> (if ok then Some m else None, c))"

definition mode_is_rb :: "drm_display_mode \<Rightarrow> bool" where
  "mode_is_rb m \<longleftrightarrow> s32i (dm_htotal m - dm_hdisplay m) = 160 \<and> s32i (dm_hsync_end m - dm_hdisplay m) = 80
     \<and> s32i (dm_hsync_end m - dm_hsync_start m) = 32 \<and> s32i (dm_vsync_start m - dm_vdisplay m) = 3"

definition drm_mode_find_dmt ::
    "int \<Rightarrow> int \<Rightarrow> int \<Rightarrow> bool \<Rightarrow> edid_conn \<Rightarrow> drm_display_mode option \<times> edid_conn" where
  "drm_mode_find_dmt hsize vsize fresh rb c =
     (case find (\<lambda>m. hsize = dm_hdisplay m \<and> vsize = dm_vdisplay m \<and> fresh = drm_mode_vrefresh m
                    \<and> rb = mode_is_rb m) drm_dmt_modes of
        None \<Rightarrow> (None, c) | Some m \<Rightarrow> drm_mode_duplicate m c)"

section \<open>Standard timings\<close>

definition bad_std_timing :: "u8 \<Rightarrow> u8 \<Rightarrow> bool" where
  "bad_std_timing a b \<longleftrightarrow> (a = 0 \<and> b = 0) \<or> (a = 1 \<and> b = 1) \<or> (a = 0x20 \<and> b = 0x20)"

text \<open>The size and rate a standard timing asks for.\<close>

definition std_size :: "u8 \<Rightarrow> u8 \<Rightarrow> int \<Rightarrow> int \<times> int \<times> int" where
  "std_size t_hsize vfreq_aspect revision =
     (let aspect_ratio = drop_bit 6 (vfreq_aspect AND 0xc0);
          vfreq = vfreq_aspect AND 0x3f;
          hsize = uint t_hsize * 8 + 248;
          vrefresh_rate = uint vfreq + 60;
          vsize = (if aspect_ratio = 0 then (if revision < 3 then hsize else hsize * 10 div 16)
                   else if aspect_ratio = 1 then hsize * 3 div 4
                   else if aspect_ratio = 2 then hsize * 4 div 5 else hsize * 9 div 16)
      in if vrefresh_rate = 60 \<and> ((hsize = 1360 \<and> vsize = 765) \<or> (hsize = 1368 \<and> vsize = 769))
         then (1366, 768, vrefresh_rate) else (hsize, vsize, vrefresh_rate))"

text \<open>The last part of \<^verbatim>\<open>drm_mode_std\<close>: the mode is generated.\<close>

definition drm_mode_std_generate ::
    "u8 list \<Rightarrow> timing_level \<Rightarrow> int \<Rightarrow> int \<Rightarrow> int \<Rightarrow> edid_conn \<Rightarrow> (drm_display_mode option \<times> edid_conn) outcome" where
  "drm_mode_std_generate raw timing_level hsize vsize vrefresh_rate c =
     (case timing_level of
        LEVEL_DMT \<Rightarrow> Ok (None, c)
      | LEVEL_GTF \<Rightarrow> (case next_alloc c of (ok, c) \<Rightarrow>
          bind_outcome (drm_gtf_mode ok hsize vsize vrefresh_rate False False) (\<lambda>m. Ok (m, c)))
      | LEVEL_GTF2 \<Rightarrow> (case next_alloc c of (ok, c) \<Rightarrow>
          bind_outcome (drm_gtf_mode ok hsize vsize vrefresh_rate False False) (\<lambda>mo.
            case mo of None \<Rightarrow> Ok (None, c)
            | Some m \<Rightarrow>
                bind_outcome (drm_mode_hsync m) (\<lambda>hsync. bind_outcome (drm_gtf2_hbreak raw) (\<lambda>hbreak.
                  if hsync \<le> hbreak then Ok (Some m, c)
                  else case next_alloc c of (ok, c) \<Rightarrow>
                    bind_outcome (drm_gtf2_m raw) (\<lambda>gM. bind_outcome (drm_gtf2_2c raw) (\<lambda>g2C.
                    bind_outcome (drm_gtf2_k raw) (\<lambda>gK. bind_outcome (drm_gtf2_2j raw) (\<lambda>g2J.
                    bind_outcome (drm_gtf_mode_complex ok hsize vsize vrefresh_rate False False gM g2C gK g2J)
                      (\<lambda>m. Ok (m, c))))))))))
      | LEVEL_CVT \<Rightarrow> (case next_alloc c of (ok, c) \<Rightarrow>
          bind_outcome (drm_cvt_mode ok hsize vsize vrefresh_rate False False False) (\<lambda>m. Ok (m, c))))"

definition drm_mode_std ::
    "u8 list \<Rightarrow> u8 \<Rightarrow> u8 \<Rightarrow> int \<Rightarrow> edid_conn \<Rightarrow> (drm_display_mode option \<times> edid_conn) outcome" where
  "drm_mode_std raw t_hsize vfreq_aspect revision c =
     bind_outcome (standard_timing_level raw) (\<lambda>level.
       if bad_std_timing t_hsize vfreq_aspect then Ok (None, c)
       else case std_size t_hsize vfreq_aspect revision of (hsize, vsize, vrefresh_rate) \<Rightarrow>
         if list_ex (\<lambda>m. dm_hdisplay m = hsize \<and> dm_vdisplay m = vsize \<and> drm_mode_vrefresh m = vrefresh_rate) (ec_probed c)
         then Ok (None, c)
         else if hsize = 1366 \<and> vsize = 768 \<and> vrefresh_rate = 60
         then (case next_alloc c of (ok, c) \<Rightarrow>
                 bind_outcome (drm_cvt_mode ok 1366 768 vrefresh_rate False False False) (\<lambda>mo.
                   case mo of None \<Rightarrow> Bug
                   | Some m \<Rightarrow> Ok (Some (m\<lparr>dm_hdisplay := 1366, dm_hsync_start := s32i (dm_hsync_start m - 1),
                                         dm_hsync_end := s32i (dm_hsync_end m - 1)\<rparr>), c)))
         else bind_outcome (drm_monitor_supports_rb raw) (\<lambda>rb.
                case (if rb then drm_mode_find_dmt hsize vsize vrefresh_rate True c else (None, c)) of
                  (Some m, c) \<Rightarrow> Ok (Some m, c)
                | (None, c) \<Rightarrow>
                    (case drm_mode_find_dmt hsize vsize vrefresh_rate False c of
                       (Some m, c) \<Rightarrow> Ok (Some m, c)
                     | (None, c) \<Rightarrow> drm_mode_std_generate raw level hsize vsize vrefresh_rate c)))"

end
