(* ===== verification/Drm_Edid_Modes.thy ===== *)
theory Drm_Edid_Modes
  imports Drm_Edid_Walk
begin

text \<open>
  The modes an EDID describes, \<^verbatim>\<open>drm/drm_edid.c\<close>: the detailed timings, the modes a range descriptor
  allows, the established, standard and CVT codes, and the preferred mode of the quirks.
\<close>

unbundle bit_operations_syntax

section \<open>Detailed timings\<close>

text \<open>\<open>t\<close> is the 18 bytes of \<^verbatim>\<open>struct detailed_timing\<close>; its pixel data start at byte 2.\<close>

definition pt_hactive :: "u8 list \<Rightarrow> int" where
  "pt_hactive t = push_bit 4 (uint (t ! 4) AND 0xf0) OR uint (t ! 2)"
definition pt_vactive :: "u8 list \<Rightarrow> int" where
  "pt_vactive t = push_bit 4 (uint (t ! 7) AND 0xf0) OR uint (t ! 5)"
definition pt_hblank :: "u8 list \<Rightarrow> int" where
  "pt_hblank t = push_bit 8 (uint (t ! 4) AND 0xf) OR uint (t ! 3)"
definition pt_vblank :: "u8 list \<Rightarrow> int" where
  "pt_vblank t = push_bit 8 (uint (t ! 7) AND 0xf) OR uint (t ! 6)"
definition pt_hsync_offset :: "u8 list \<Rightarrow> int" where
  "pt_hsync_offset t = push_bit 2 (uint (t ! 11) AND 0xc0) OR uint (t ! 8)"
definition pt_hsync_pulse_width :: "u8 list \<Rightarrow> int" where
  "pt_hsync_pulse_width t = push_bit 4 (uint (t ! 11) AND 0x30) OR uint (t ! 9)"
definition pt_vsync_offset :: "u8 list \<Rightarrow> int" where
  "pt_vsync_offset t = push_bit 2 (uint (t ! 11) AND 0xc) OR drop_bit 4 (uint (t ! 10))"
definition pt_vsync_pulse_width :: "u8 list \<Rightarrow> int" where
  "pt_vsync_pulse_width t = push_bit 4 (uint (t ! 11) AND 0x3) OR (uint (t ! 10) AND 0xf)"
definition pt_misc :: "u8 list \<Rightarrow> u8" where "pt_misc t = t ! 17"
definition pt_width_mm :: "u8 list \<Rightarrow> int" where
  "pt_width_mm t = uint (t ! 12) OR push_bit 4 (uint (t ! 14) AND 0xf0)"
definition pt_height_mm :: "u8 list \<Rightarrow> int" where
  "pt_height_mm t = uint (t ! 13) OR push_bit 8 (uint (t ! 14) AND 0xf)"
definition pixel_clock :: "u8 list \<Rightarrow> int" where
  "pixel_clock t = uint (t ! 0) + 256 * uint (t ! 1)"

definition DRM_EDID_PT_HSYNC_POSITIVE :: u8 where "DRM_EDID_PT_HSYNC_POSITIVE = 0x02"
definition DRM_EDID_PT_VSYNC_POSITIVE :: u8 where "DRM_EDID_PT_VSYNC_POSITIVE = 0x04"
definition DRM_EDID_PT_STEREO :: u8 where "DRM_EDID_PT_STEREO = 0x20"
definition DRM_EDID_PT_INTERLACED :: u8 where "DRM_EDID_PT_INTERLACED = 0x80"

definition cea_interlaced :: "(int \<times> int) list" where
  "cea_interlaced = [(1920, 1080), (720, 480), (1440, 480), (2880, 480), (720, 576), (1440, 576), (2880, 576)]"

definition interlace_entry :: "int \<times> int \<Rightarrow> drm_display_mode \<Rightarrow> drm_display_mode" where
  "interlace_entry wh m =
     (if dm_hdisplay m = fst wh \<and> dm_vdisplay m = snd wh sdiv 2
      then m\<lparr>dm_vdisplay := s32i (dm_vdisplay m * 2), dm_vsync_start := s32i (dm_vsync_start m * 2),
             dm_vsync_end := s32i (dm_vsync_end m * 2), dm_vtotal := s32i (dm_vtotal m * 2) OR 1\<rparr> else m)"

definition drm_mode_do_interlace_quirk :: "drm_display_mode \<Rightarrow> u8 list \<Rightarrow> drm_display_mode" where
  "drm_mode_do_interlace_quirk m t =
     (if pt_misc t AND DRM_EDID_PT_INTERLACED = 0 then m
      else let m = fold interlace_entry cea_interlaced m
           in m\<lparr>dm_flags := dm_flags m OR DRM_MODE_FLAG_INTERLACE\<rparr>)"

text \<open>The mode of the pixel data, and the timing as the quirks leave it.\<close>

definition pixel_mode :: "u32 \<Rightarrow> u8 list \<Rightarrow> drm_display_mode \<times> u8 list" where
  "pixel_mode quirks t =
     (let t = (if has quirks EDID_QUIRK_135_CLOCK_TOO_HIGH then t[0 := 0x40, 1 := 0x04] else t);
          m = zero_mode\<lparr>dm_clock := pixel_clock t * 10, dm_hdisplay := pt_hactive t,
                dm_hsync_start := pt_hactive t + pt_hsync_offset t,
                dm_hsync_end := pt_hactive t + pt_hsync_offset t + pt_hsync_pulse_width t,
                dm_htotal := pt_hactive t + pt_hblank t, dm_vdisplay := pt_vactive t,
                dm_vsync_start := pt_vactive t + pt_vsync_offset t,
                dm_vsync_end := pt_vactive t + pt_vsync_offset t + pt_vsync_pulse_width t,
                dm_vtotal := pt_vactive t + pt_vblank t\<rparr>;
          m = (if dm_htotal m < dm_hsync_end m then m\<lparr>dm_htotal := dm_hsync_end m + 1\<rparr> else m);
          m = (if dm_vtotal m < dm_vsync_end m then m\<lparr>dm_vtotal := dm_vsync_end m + 1\<rparr> else m);
          m = drm_mode_do_interlace_quirk m t;
          t = (if has quirks EDID_QUIRK_DETAILED_SYNC_PP
               then t[17 := pt_misc t OR (DRM_EDID_PT_HSYNC_POSITIVE OR DRM_EDID_PT_VSYNC_POSITIVE)] else t);
          m = m\<lparr>dm_flags := dm_flags m OR
                (if pt_misc t AND DRM_EDID_PT_HSYNC_POSITIVE \<noteq> 0 then DRM_MODE_FLAG_PHSYNC else DRM_MODE_FLAG_NHSYNC)\<rparr>;
          m = m\<lparr>dm_flags := dm_flags m OR
                (if pt_misc t AND DRM_EDID_PT_VSYNC_POSITIVE \<noteq> 0 then DRM_MODE_FLAG_PVSYNC else DRM_MODE_FLAG_NVSYNC)\<rparr>
      in (m, t))"

text \<open>The code from the label \<^verbatim>\<open>set_size\<close> on.\<close>

definition detailed_set_size :: "u8 list \<Rightarrow> u32 \<Rightarrow> u8 list \<Rightarrow> drm_display_mode \<Rightarrow> drm_display_mode" where
  "detailed_set_size raw quirks t m =
     (let m = m\<lparr>dm_width_mm := pt_width_mm t, dm_height_mm := pt_height_mm t\<rparr>;
          m = (if has quirks EDID_QUIRK_DETAILED_IN_CM
               then m\<lparr>dm_width_mm := dm_width_mm m * 10, dm_height_mm := dm_height_mm m * 10\<rparr> else m);
          m = (if has quirks EDID_QUIRK_DETAILED_USE_MAXIMUM_SIZE
               then m\<lparr>dm_width_mm := edid_width_cm raw * 10, dm_height_mm := edid_height_cm raw * 10\<rparr> else m);
          m = m\<lparr>dm_type := DRM_MODE_TYPE_DRIVER\<rparr>;
          m = m\<lparr>dm_vrefresh := drm_mode_vrefresh m\<rparr>
      in drm_mode_set_name m)"

definition drm_mode_detailed ::
    "u8 list \<Rightarrow> u32 \<Rightarrow> u8 list \<Rightarrow> edid_conn \<Rightarrow> (drm_display_mode option \<times> u8 list \<times> edid_conn) outcome" where
  "drm_mode_detailed raw quirks t c =
     (if pt_hactive t < 64 \<or> pt_vactive t < 64 then Ok (None, t, c)
      else if pt_misc t AND DRM_EDID_PT_STEREO \<noteq> 0 then Ok (None, t, c)
      else if pt_hsync_pulse_width t = 0 \<or> pt_vsync_pulse_width t = 0 then Ok (None, t, c)
      else case next_alloc c of (ok, c) \<Rightarrow>
        if has quirks EDID_QUIRK_FORCE_REDUCED_BLANKING
        then bind_outcome (drm_cvt_mode ok (pt_hactive t) (pt_vactive t) 60 True False False)
               (\<lambda>mo. Ok (map_option (detailed_set_size raw quirks t) mo, t, c))
        else if \<not> ok then Ok (None, t, c)
        else case pixel_mode quirks t of (m, t) \<Rightarrow> Ok (Some (detailed_set_size raw quirks t m), t, c))"

text \<open>The timing is written back to the EDID; a mode gets the size of the EDID as it is then.\<close>

definition do_detailed_mode :: "u32 \<Rightarrow> edid_conn detailed_cb" where
  "do_detailed_mode quirks offset s =
     (case s of (raw, c) \<Rightarrow> bind_outcome (slice raw offset 18) (\<lambda>t.
        if pixel_clock t = 0 then Ok (raw, c)
        else bind_outcome (drm_mode_detailed raw quirks t c) (\<lambda>r. case r of (mo, t, c) \<Rightarrow>
               bind_outcome (put offset t raw) (\<lambda>raw.
                 case mo of None \<Rightarrow> Ok (raw, c)
                 | Some m \<Rightarrow>
                     let m = (if ec_preferred c then m\<lparr>dm_type := dm_type m OR DRM_MODE_TYPE_PREFERRED\<rparr> else m);
                         c = drm_mode_probed_add m c
                     in Ok (raw, c\<lparr>ec_preferred := False\<rparr>)))))"

definition add_detailed_modes :: "u8 list \<Rightarrow> u32 \<Rightarrow> edid_conn \<Rightarrow> (u8 list \<times> edid_conn) outcome" where
  "add_detailed_modes raw quirks c =
     (let c = c\<lparr>ec_preferred := (if version_greater raw 1 3 then True
                                else edid_features raw AND DRM_EDID_FEATURE_PREFERRED_TIMING \<noteq> 0)\<rparr>
      in drm_for_each_detailed_block (do_detailed_mode quirks) (raw, c))"

section \<open>Modes inferred from the ranges\<close>

text \<open>A limit and its 255 offset of EDID 1.4.\<close>

definition range_limit :: "u8 list \<Rightarrow> u8 list \<Rightarrow> nat \<Rightarrow> u8 \<Rightarrow> int" where
  "range_limit raw t i flag = uint (t ! i) + (if 4 \<le> edid_revision raw \<and> t ! 4 AND flag \<noteq> 0 then 255 else 0)"

definition mode_in_hsync_range :: "drm_display_mode \<Rightarrow> u8 list \<Rightarrow> u8 list \<Rightarrow> bool outcome" where
  "mode_in_hsync_range m raw t =
     bind_outcome (drm_mode_hsync m) (\<lambda>hsync.
       Ok (hsync \<le> range_limit raw t 8 0x08 \<and> range_limit raw t 7 0x04 \<le> hsync))"

definition mode_in_vsync_range :: "drm_display_mode \<Rightarrow> u8 list \<Rightarrow> u8 list \<Rightarrow> bool" where
  "mode_in_vsync_range m raw t \<longleftrightarrow>
     drm_mode_vrefresh m \<le> range_limit raw t 6 0x02 \<and> range_limit raw t 5 0x01 \<le> drm_mode_vrefresh m"

definition range_pixel_clock :: "u8 list \<Rightarrow> u8 list \<Rightarrow> int" where
  "range_pixel_clock raw t =
     (if t ! 9 = 0 \<or> t ! 9 = 255 then 0
      else if 4 \<le> edid_revision raw \<and> t ! 10 = 0x04
      then u32i (uint (t ! 9) * 10000 - drop_bit 2 (uint (t ! 12)) * 250)
      else uint (t ! 9) * 10000 + 5001)"

definition mode_in_range :: "drm_display_mode \<Rightarrow> u8 list \<Rightarrow> u8 list \<Rightarrow> bool outcome" where
  "mode_in_range m raw t =
     bind_outcome (mode_in_hsync_range m raw t) (\<lambda>ok.
       if \<not> ok then Ok False
       else if \<not> mode_in_vsync_range m raw t then Ok False
       else if range_pixel_clock raw t \<noteq> 0 \<and> range_pixel_clock raw t < u32i (dm_clock m) then Ok False
       else if 4 \<le> edid_revision raw \<and> t ! 10 = 0x04 \<and> t ! 13 \<noteq> 0
             \<and> 8 * (uint (t ! 13) + 256 * (uint (t ! 12) AND 3)) < dm_hdisplay m then Ok False
       else if mode_is_rb m
       then bind_outcome (drm_monitor_supports_rb raw) (\<lambda>rb. Ok rb)
       else Ok True)"

text \<open>False as soon as a probed mode has the size and the rate, else whether one is at least as large.\<close>

definition valid_inferred_mode :: "edid_conn \<Rightarrow> drm_display_mode \<Rightarrow> bool" where
  "valid_inferred_mode c m \<longleftrightarrow>
     \<not> list_ex (\<lambda>p. dm_hdisplay m = dm_hdisplay p \<and> dm_vdisplay m = dm_vdisplay p
                 \<and> drm_mode_vrefresh m = drm_mode_vrefresh p) (ec_probed c)
   \<and> list_ex (\<lambda>p. dm_hdisplay m \<le> dm_hdisplay p \<and> dm_vdisplay m \<le> dm_vdisplay p) (ec_probed c)"

primrec drm_dmt_modes_for_range :: "u8 list \<Rightarrow> u8 list \<Rightarrow> drm_display_mode list \<Rightarrow> edid_conn \<Rightarrow> edid_conn outcome" where
  "drm_dmt_modes_for_range raw t [] c = Ok c"
| "drm_dmt_modes_for_range raw t (m # ms) c =
     bind_outcome (mode_in_range m raw t) (\<lambda>ok.
       if ok \<and> valid_inferred_mode c m
       then drm_dmt_modes_for_range raw t ms (add_opt (drm_mode_duplicate m c))
       else drm_dmt_modes_for_range raw t ms c)"

definition fixup_mode_1366x768 :: "drm_display_mode \<Rightarrow> drm_display_mode" where
  "fixup_mode_1366x768 m =
     (if dm_hdisplay m = 1368 \<and> dm_vdisplay m = 768
      then drm_mode_set_name (m\<lparr>dm_hdisplay := 1366, dm_hsync_start := s32i (dm_hsync_start m - 1),
                                dm_hsync_end := s32i (dm_hsync_end m - 1)\<rparr>) else m)"

text \<open>The loop of \<^verbatim>\<open>drm_gtf_modes_for_range\<close> and \<^verbatim>\<open>drm_cvt_modes_for_range\<close> over the sizes and rates, \<open>gen\<close>
  the generator.\<close>

primrec generated_modes_for_range ::
    "(bool \<Rightarrow> int \<Rightarrow> int \<Rightarrow> int \<Rightarrow> drm_display_mode option outcome) \<Rightarrow> u8 list \<Rightarrow> u8 list \<Rightarrow>
     (int \<times> int \<times> int \<times> int) list \<Rightarrow> edid_conn \<Rightarrow> edid_conn outcome" where
  "generated_modes_for_range gen raw t [] c = Ok c"
| "generated_modes_for_range gen raw t (m # ms) c =
     (case m of (w, h, r, rb) \<Rightarrow> case next_alloc c of (ok, c) \<Rightarrow>
        bind_outcome (gen ok w h r) (\<lambda>mo. case mo of None \<Rightarrow> Ok c
        | Some m \<Rightarrow>
            let m = fixup_mode_1366x768 m
            in bind_outcome (mode_in_range m raw t) (\<lambda>ok.
                 if \<not> ok \<or> \<not> valid_inferred_mode c m then generated_modes_for_range gen raw t ms c
                 else generated_modes_for_range gen raw t ms (drm_mode_probed_add m c))))"

definition drm_gtf_modes_for_range :: "u8 list \<Rightarrow> u8 list \<Rightarrow> edid_conn \<Rightarrow> edid_conn outcome" where
  "drm_gtf_modes_for_range raw t c =
     generated_modes_for_range (\<lambda>ok w h r. drm_gtf_mode ok w h r False False) raw t extra_modes c"

definition drm_cvt_modes_for_range :: "u8 list \<Rightarrow> u8 list \<Rightarrow> edid_conn \<Rightarrow> edid_conn outcome" where
  "drm_cvt_modes_for_range raw t c =
     bind_outcome (drm_monitor_supports_rb raw) (\<lambda>rb.
       generated_modes_for_range (\<lambda>ok w h r. drm_cvt_mode ok w h r rb False False) raw t extra_modes c)"

definition do_inferred_modes :: "u8 list \<Rightarrow> u8 list \<Rightarrow> edid_conn \<Rightarrow> edid_conn outcome" where
  "do_inferred_modes raw t c =
     (if t ! 3 \<noteq> EDID_DETAIL_MONITOR_RANGE then Ok c
      else bind_outcome (drm_dmt_modes_for_range raw t drm_dmt_modes c) (\<lambda>c.
        if \<not> version_greater raw 1 1 then Ok c
        else if t ! 10 = 0x02 \<or> t ! 10 = 0x00 then drm_gtf_modes_for_range raw t c
        else if t ! 10 = 0x04 \<and> version_greater raw 1 3 then drm_cvt_modes_for_range raw t c
        else Ok c))"

definition add_inferred_modes :: "u8 list \<Rightarrow> edid_conn \<Rightarrow> edid_conn outcome" where
  "add_inferred_modes raw c = (if version_greater raw 1 0 then walk (do_inferred_modes raw) raw c else Ok c)"

section \<open>Established timings\<close>

text \<open>The bits 7 to 1 of each of six bytes; a number past the table ends the loop over a byte.\<close>

definition est3_step :: "u8 list \<Rightarrow> nat \<times> nat \<Rightarrow> edid_conn \<Rightarrow> edid_conn" where
  "est3_step t ij c =
     (case ij of (i, j) \<Rightarrow> let m = i * 8 + (7 - j)
      in if length est3_modes \<le> m then c
         else if bit (t ! (5 + i)) j
         then (case est3_modes ! m of (w, h, r, rb) \<Rightarrow> add_opt (drm_mode_find_dmt w h r (rb \<noteq> 0) c))
         else c)"

definition drm_est3_modes :: "u8 list \<Rightarrow> edid_conn \<Rightarrow> edid_conn" where
  "drm_est3_modes t c = fold (est3_step t) (List.product [0..<6] (rev [1..<8])) c"

definition do_established_modes :: "u8 list \<Rightarrow> edid_conn \<Rightarrow> edid_conn outcome" where
  "do_established_modes t c = Ok (if t ! 3 = EDID_DETAIL_EST_TIMINGS then drm_est3_modes t c else c)"

definition est_bits :: "u8 list \<Rightarrow> int" where
  "est_bits raw = uint (raw ! 35) OR push_bit 8 (uint (raw ! 36)) OR push_bit 9 (uint (raw ! 37) AND 0x80)"

definition EDID_EST_TIMINGS :: nat where "EDID_EST_TIMINGS = 16"

definition add_established_modes :: "u8 list \<Rightarrow> edid_conn \<Rightarrow> edid_conn outcome" where
  "add_established_modes raw c =
     (let c = fold (\<lambda>i c. if bit (est_bits raw) i then add_opt (drm_mode_duplicate (edid_est_modes ! i) c) else c)
                [0..<EDID_EST_TIMINGS + 1] c
      in if version_greater raw 1 0 then walk do_established_modes raw c else Ok c)"

section \<open>Standard timings\<close>

text \<open>Standard timings given as pairs of bytes.\<close>

primrec standard_modes :: "u8 list \<Rightarrow> (u8 \<times> u8) list \<Rightarrow> edid_conn \<Rightarrow> edid_conn outcome" where
  "standard_modes raw [] c = Ok c"
| "standard_modes raw (t # ts) c =
     bind_outcome (drm_mode_std raw (fst t) (snd t) (edid_revision raw) c) (\<lambda>r. standard_modes raw ts (add_opt r))"

definition do_standard_modes :: "u8 list \<Rightarrow> u8 list \<Rightarrow> edid_conn \<Rightarrow> edid_conn outcome" where
  "do_standard_modes raw t c =
     (if t ! 3 = EDID_DETAIL_STD_MODES
      then standard_modes raw (map (\<lambda>i. (t ! (5 + 2 * i), t ! (6 + 2 * i))) [0..<6]) c else Ok c)"

definition add_standard_modes :: "u8 list \<Rightarrow> edid_conn \<Rightarrow> edid_conn outcome" where
  "add_standard_modes raw c =
     bind_outcome (standard_modes raw (map (\<lambda>i. (raw ! (38 + 2 * i), raw ! (39 + 2 * i))) [0..<8]) c) (\<lambda>c.
       if version_greater raw 1 0 then walk (do_standard_modes raw) raw c else Ok c)"

section \<open>CVT codes\<close>

definition cvt_rates :: "int list" where "cvt_rates = [60, 85, 75, 60, 50]"

text \<open>The size of a code.\<close>

definition cvt_code_size :: "u8 list \<Rightarrow> nat \<Rightarrow> int \<times> int" where
  "cvt_code_size t i =
     (let height = (uint (t ! (5 + 3 * i)) + push_bit 4 (uint (t ! (6 + 3 * i)) AND 0xf0) + 1) * 2;
          aspect = t ! (6 + 3 * i) AND 0x0c
      in (if aspect = 0 then height * 4 div 3 else if aspect = 0x04 then height * 16 div 9
          else if aspect = 0x08 then height * 16 div 10 else height * 15 div 9, height))"

primrec cvt_code_modes :: "u8 list \<Rightarrow> (nat \<times> nat) list \<Rightarrow> edid_conn \<Rightarrow> edid_conn outcome" where
  "cvt_code_modes t [] c = Ok c"
| "cvt_code_modes t (ij # ijs) c =
     (case ij of (i, j) \<Rightarrow>
      if t ! (5 + 3 * i) = 0 \<and> t ! (6 + 3 * i) = 0 \<and> t ! (7 + 3 * i) = 0 then cvt_code_modes t ijs c
      else if bit (t ! (7 + 3 * i)) j
      then (case cvt_code_size t i of (width, height) \<Rightarrow> case next_alloc c of (ok, c) \<Rightarrow>
              bind_outcome (drm_cvt_mode ok width height (cvt_rates ! j) (j = 0) False False)
                (\<lambda>mo. cvt_code_modes t ijs (add_opt (mo, c))))
      else cvt_code_modes t ijs c)"

definition drm_cvt_modes :: "u8 list \<Rightarrow> edid_conn \<Rightarrow> edid_conn outcome" where
  "drm_cvt_modes t c = cvt_code_modes t (List.product [0..<4] [1..<5]) c"

definition do_cvt_mode :: "u8 list \<Rightarrow> edid_conn \<Rightarrow> edid_conn outcome" where
  "do_cvt_mode t c = (if t ! 3 = EDID_DETAIL_CVT_3BYTE then drm_cvt_modes t c else Ok c)"

definition add_cvt_modes :: "u8 list \<Rightarrow> edid_conn \<Rightarrow> edid_conn outcome" where
  "add_cvt_modes raw c = (if version_greater raw 1 2 then walk do_cvt_mode raw c else Ok c)"

section \<open>The preferred mode of the quirks\<close>

definition MODE_SIZE :: "drm_display_mode \<Rightarrow> int" where
  "MODE_SIZE m = s32i (dm_hdisplay m * dm_vdisplay m)"

definition MODE_REFRESH_DIFF :: "drm_display_mode \<Rightarrow> int \<Rightarrow> int" where
  "MODE_REFRESH_DIFF m target_refresh = s32i \<bar>s32i (dm_vrefresh m - target_refresh)\<bar>"

text \<open>The index of the preferred mode, \<open>i\<close> the one of the current mode.\<close>

fun pick_preferred :: "drm_display_mode list \<Rightarrow> int \<Rightarrow> nat list \<Rightarrow> nat \<Rightarrow> nat" where
  "pick_preferred ms target_refresh [] p = p"
| "pick_preferred ms target_refresh (i # is) p =
     (let p = (if MODE_SIZE (ms ! p) < MODE_SIZE (ms ! i) then i else p);
          p = (if MODE_SIZE (ms ! i) = MODE_SIZE (ms ! p)
                \<and> MODE_REFRESH_DIFF (ms ! i) target_refresh < MODE_REFRESH_DIFF (ms ! p) target_refresh then i else p)
      in pick_preferred ms target_refresh is p)"

definition edid_fixup_preferred :: "u32 \<Rightarrow> drm_display_mode list \<Rightarrow> drm_display_mode list" where
  "edid_fixup_preferred quirks ms =
     (if ms = [] then ms
      else let target_refresh = (if has quirks EDID_QUIRK_PREFER_LARGE_60 then 60 else 0);
               target_refresh = (if has quirks EDID_QUIRK_PREFER_LARGE_75 then 75 else target_refresh);
               p = pick_preferred ms target_refresh [1..<length ms] 0;
               ms = map (\<lambda>m. m\<lparr>dm_type := dm_type m AND NOT DRM_MODE_TYPE_PREFERRED\<rparr>) ms
           in ms[p := (ms ! p)\<lparr>dm_type := dm_type (ms ! p) OR DRM_MODE_TYPE_PREFERRED\<rparr>])"

end
