(* ===== verification/Drm_Edid_Cea.thy ===== *)
theory Drm_Edid_Cea
  imports Drm_Edid_Modes
begin

text \<open>
  The CEA extension of an EDID, \<^verbatim>\<open>drm/drm_edid.c\<close>: its data blocks, the modes, the ELD and the display
  information taken from it, and the function that adds all modes of an EDID.
\<close>

unbundle bit_operations_syntax

section \<open>Data blocks\<close>

fun find_extension :: "u8 list \<Rightarrow> nat list \<Rightarrow> nat option outcome" where
  "find_extension raw [] = Ok None"
| "find_extension raw (i # is) =
     bind_outcome (at raw (EDID_LENGTH * (i + 1))) (\<lambda>b.
       if b = CEA_EXT then Ok (Some (EDID_LENGTH * (i + 1))) else find_extension raw is)"

text \<open>The offset of the first CEA extension.\<close>

definition drm_find_cea_extension :: "u8 list \<Rightarrow> nat option outcome" where
  "drm_find_cea_extension raw =
     (if length raw < EDID_LENGTH then Bug else find_extension raw [0..<extensions raw])"

definition AUDIO_BLOCK :: u8 where "AUDIO_BLOCK = 0x01"
definition VIDEO_BLOCK :: u8 where "VIDEO_BLOCK = 0x02"
definition VENDOR_BLOCK :: u8 where "VENDOR_BLOCK = 0x03"
definition SPEAKER_BLOCK :: u8 where "SPEAKER_BLOCK = 0x04"
definition HDMI_IDENTIFIER :: int where "HDMI_IDENTIFIER = 0x000C03"

definition cea_db_payload_len :: "u8 \<Rightarrow> nat" where
  "cea_db_payload_len b = unat (b AND 0x1f)"

definition cea_db_tag :: "u8 \<Rightarrow> u8" where
  "cea_db_tag b = drop_bit 5 b"

text \<open>The bounds of the collection, or none for \<^verbatim>\<open>-ERANGE\<close>.\<close>

definition cea_db_offsets :: "u8 list \<Rightarrow> nat \<Rightarrow> (nat \<times> nat) option outcome" where
  "cea_db_offsets raw cea =
     bind_outcome (at raw (cea + 2)) (\<lambda>b. let end_off = (if b = 0 then 127 else unat b)
       in Ok (if end_off < 4 \<or> 127 < end_off then None else Some (4, end_off)))"

text \<open>\<^verbatim>\<open>for_each_cea_db\<close>; the body gets the offset and the first byte of the block, and ends the loop with
  \<open>True\<close>.\<close>

function for_each_cea_db ::
    "u8 list \<Rightarrow> nat \<Rightarrow> (nat \<Rightarrow> u8 \<Rightarrow> 'c \<Rightarrow> (bool \<times> 'c) outcome) \<Rightarrow> nat \<Rightarrow> nat \<Rightarrow> 'c \<Rightarrow> 'c outcome" where
  "for_each_cea_db raw cea body i end_off c =
     (if \<not> i < end_off then Ok c
      else case at raw (cea + i) of Err e \<Rightarrow> Err e | Bug \<Rightarrow> Bug
      | Ok b \<Rightarrow>
          if \<not> i + cea_db_payload_len b < end_off then Ok c
          else case body (cea + i) b c of Err e \<Rightarrow> Err e | Bug \<Rightarrow> Bug
          | Ok r \<Rightarrow> if fst r then Ok (snd r)
                    else for_each_cea_db raw cea body (i + cea_db_payload_len b + 1) end_off (snd r))"
  by pat_completeness auto

termination for_each_cea_db
  by (relation "measure (\<lambda>(raw, cea, body, i, end_off, c). end_off - i)") auto

declare for_each_cea_db.simps [simp del]

section \<open>CEA modes\<close>

text \<open>The code of the first equal mode of the table, 0 for none; \<^verbatim>\<open>drm_match_cea_mode\<close> and
  \<^verbatim>\<open>drm_mode_cea_vic\<close> are the same loop.\<close>

fun cea_code :: "drm_display_mode \<Rightarrow> drm_display_mode list \<Rightarrow> u8 \<Rightarrow> u8" where
  "cea_code m [] i = 0"
| "cea_code m (cea_mode # ms) i = (if drm_mode_equal m cea_mode then i + 1 else cea_code m ms (i + 1))"

definition drm_match_cea_mode :: "drm_display_mode \<Rightarrow> u8" where
  "drm_match_cea_mode to_match = cea_code to_match edid_cea_modes 0"

definition drm_mode_cea_vic :: "drm_display_mode \<Rightarrow> u8" where
  "drm_mode_cea_vic m = cea_code m edid_cea_modes 0"

definition do_cea_modes :: "u8 list \<Rightarrow> edid_conn \<Rightarrow> edid_conn" where
  "do_cea_modes codes c = fold (\<lambda>b c. let cea_mode = (b AND 127) - 1
     in if unat cea_mode < length edid_cea_modes
        then add_opt (drm_mode_duplicate (edid_cea_modes ! unat cea_mode) c) else c) codes c"

definition video_block :: "u8 list \<Rightarrow> nat \<Rightarrow> u8 \<Rightarrow> edid_conn \<Rightarrow> (bool \<times> edid_conn) outcome" where
  "video_block raw db b c =
     (if cea_db_tag b = VIDEO_BLOCK
      then bind_outcome (slice raw (db + 1) (cea_db_payload_len b)) (\<lambda>codes. Ok (False, do_cea_modes codes c))
      else Ok (False, c))"

definition add_cea_modes :: "u8 list \<Rightarrow> edid_conn \<Rightarrow> edid_conn outcome" where
  "add_cea_modes raw c =
     bind_outcome (drm_find_cea_extension raw) (\<lambda>ext. case ext of None \<Rightarrow> Ok c
     | Some cea \<Rightarrow> bind_outcome (at raw (cea + 1)) (\<lambda>rev. if rev < 3 then Ok c
         else bind_outcome (cea_db_offsets raw cea) (\<lambda>offs. case offs of None \<Rightarrow> Ok c
         | Some (start, end_off) \<Rightarrow>
             for_each_cea_db raw cea (video_block raw) start end_off c)))"

section \<open>The ELD\<close>

record eld_state =
  es_eld :: "u8 list"
  es_dvi_dual :: bool
  es_max_tmds_clock :: int
  es_latency_present :: "bool list"
  es_video_latency :: "int list"
  es_audio_latency :: "int list"

definition MAX_ELD_BYTES :: nat where "MAX_ELD_BYTES = 128"

text \<open>The fields of the block from its byte 6 on, each read if the payload reaches it.\<close>

definition vsdb_field :: "u8 list \<Rightarrow> nat \<Rightarrow> nat \<Rightarrow> nat \<Rightarrow> (u8 \<Rightarrow> eld_state \<Rightarrow> eld_state) \<Rightarrow> eld_state \<Rightarrow> eld_state outcome" where
  "vsdb_field raw db len k f s =
     (if k \<le> len then bind_outcome (at raw (db + k)) (\<lambda>b. Ok (f b s)) else Ok s)"

definition parse_hdmi_vsdb :: "u8 list \<Rightarrow> nat \<Rightarrow> u8 \<Rightarrow> eld_state \<Rightarrow> eld_state outcome" where
  "parse_hdmi_vsdb raw db b s =
    (let len = cea_db_payload_len b in
     bind_outcome (vsdb_field raw db len 6 (\<lambda>b s. s\<lparr>es_eld := (es_eld s)[5 := es_eld s ! 5 OR push_bit 1 (drop_bit 7 b)],
                                                     es_dvi_dual := bit b 0\<rparr>) s) (\<lambda>s.
     bind_outcome (vsdb_field raw db len 7 (\<lambda>b s. s\<lparr>es_max_tmds_clock := uint b * 5\<rparr>) s) (\<lambda>s.
     bind_outcome (vsdb_field raw db len 8 (\<lambda>b s. s\<lparr>es_latency_present := [bit b 7, bit b 6]\<rparr>) s) (\<lambda>s.
     bind_outcome (vsdb_field raw db len 9 (\<lambda>b s. s\<lparr>es_video_latency := (es_video_latency s)[0 := uint b]\<rparr>) s) (\<lambda>s.
     bind_outcome (vsdb_field raw db len 10 (\<lambda>b s. s\<lparr>es_audio_latency := (es_audio_latency s)[0 := uint b]\<rparr>) s) (\<lambda>s.
     bind_outcome (vsdb_field raw db len 11 (\<lambda>b s. s\<lparr>es_video_latency := (es_video_latency s)[1 := uint b]\<rparr>) s) (\<lambda>s.
     vsdb_field raw db len 12 (\<lambda>b s. s\<lparr>es_audio_latency := (es_audio_latency s)[1 := uint b]\<rparr>) s))))))) "

definition monitor_name :: "u8 list \<Rightarrow> u8 list option \<Rightarrow> u8 list option outcome" where
  "monitor_name t data = Ok (if t ! 3 = EDID_DETAIL_MONITOR_NAME then Some (take 13 (drop 5 t)) else data)"

definition cea_db_is_hdmi_vsdb :: "u8 list \<Rightarrow> nat \<Rightarrow> u8 \<Rightarrow> bool outcome" where
  "cea_db_is_hdmi_vsdb raw db b =
     (if cea_db_tag b \<noteq> VENDOR_BLOCK then Ok False
      else if cea_db_payload_len b < 5 then Ok False
      else bind_outcome (slice raw (db + 1) 3) (\<lambda>d.
             Ok (uint (d ! 0) OR push_bit 8 (uint (d ! 1)) OR push_bit 16 (uint (d ! 2)) = HDMI_IDENTIFIER)))"

text \<open>One data block: the state is the number of audio descriptors and the connector, \<open>mnl\<close> the length
  of the monitor name.\<close>

definition eld_block :: "u8 list \<Rightarrow> nat \<Rightarrow> nat \<Rightarrow> u8 \<Rightarrow> nat \<times> eld_state \<Rightarrow> (bool \<times> nat \<times> eld_state) outcome" where
  "eld_block raw mnl db b st =
    (case st of (sad_count, s) \<Rightarrow> let dbl = cea_db_payload_len b in
     if cea_db_tag b = AUDIO_BLOCK
     then (if 1 \<le> dbl
           then bind_outcome (slice raw (db + 1) dbl) (\<lambda>sads. bind_outcome (put (20 + mnl) sads (es_eld s)) (\<lambda>eld.
                  Ok (False, dbl div 3, s\<lparr>es_eld := eld\<rparr>)))
           else Ok (False, dbl div 3, s))
     else if cea_db_tag b = SPEAKER_BLOCK
     then (if 1 \<le> dbl
           then bind_outcome (at raw (db + 1)) (\<lambda>x. Ok (False, sad_count, s\<lparr>es_eld := (es_eld s)[7 := x]\<rparr>))
           else Ok (False, sad_count, s))
     else if cea_db_tag b = VENDOR_BLOCK
     then bind_outcome (cea_db_is_hdmi_vsdb raw db b) (\<lambda>hdmi.
            if hdmi then bind_outcome (parse_hdmi_vsdb raw db b s) (\<lambda>s. Ok (False, sad_count, s))
            else Ok (False, sad_count, s))
     else Ok (False, sad_count, s))"

text \<open>The ELD before the data blocks: monitor name, version and identification.\<close>

definition eld_base :: "u8 list \<Rightarrow> u8 \<Rightarrow> u8 list \<Rightarrow> u8 list" where
  "eld_base raw cea1 name =
     (let eld = replicate 20 0 @ name @ replicate (MAX_ELD_BYTES - 20 - length name) 0
      in eld[4 := push_bit 5 cea1 OR word_of_nat (length name), 0 := push_bit 3 2,
             16 := raw ! 8, 17 := raw ! 9, 18 := raw ! 10, 19 := raw ! 11])"

definition drm_edid_to_eld :: "u8 list \<Rightarrow> eld_state \<Rightarrow> eld_state outcome" where
  "drm_edid_to_eld raw s =
    (let s = s\<lparr>es_eld := replicate MAX_ELD_BYTES 0\<rparr> in
     bind_outcome (drm_find_cea_extension raw) (\<lambda>ext. case ext of None \<Rightarrow> Ok s
     | Some cea \<Rightarrow>
         bind_outcome (walk monitor_name raw None) (\<lambda>name.
         let name = (case name of None \<Rightarrow> [] | Some n \<Rightarrow> takeWhile (\<lambda>x. x \<noteq> 0x0a) n); mnl = length name
         in bind_outcome (at raw (cea + 1)) (\<lambda>rev.
         let s = s\<lparr>es_eld := eld_base raw rev name\<rparr>
         in bind_outcome
              (if rev < 3 then Ok (0, s)
               else bind_outcome (cea_db_offsets raw cea) (\<lambda>offs. case offs of None \<Rightarrow> Ok (0, s)
                    | Some (start, end_off) \<Rightarrow> for_each_cea_db raw cea (eld_block raw mnl) start end_off (0, s)))
              (\<lambda>st. case st of (sad_count, s) \<Rightarrow>
                let eld = es_eld s
                in Ok (s\<lparr>es_eld := eld[5 := eld ! 5 OR push_bit 4 (word_of_nat sad_count),
                                       2 := word_of_nat ((20 + mnl + sad_count * 3 + 3) div 4)]\<rparr>))))))"

definition drm_av_sync_delay :: "eld_state \<Rightarrow> drm_display_mode \<Rightarrow> int" where
  "drm_av_sync_delay s m =
     (let i = (if has (dm_flags m) DRM_MODE_FLAG_INTERLACE then 1 else 0 :: nat)
      in if \<not> es_latency_present s ! 0 then 0
         else let i = (if \<not> es_latency_present s ! 1 then 0 else i);
                  a = es_audio_latency s ! i; v = es_video_latency s ! i
              in if a = 255 \<or> v = 255 then 0
                 else let a = (if a \<noteq> 0 then min (2 * (a - 1)) 500 else a);
                          v = (if v \<noteq> 0 then min (2 * (v - 1)) 500 else v)
                      in max (v - a) 0)"

text \<open>The connectors in the order of the list, each with its encoder.\<close>

definition drm_select_eld :: "nat \<Rightarrow> (nat option \<times> eld_state) list \<Rightarrow> (nat option \<times> eld_state) option" where
  "drm_select_eld encoder connectors =
     find (\<lambda>c. fst c = Some encoder \<and> es_eld (snd c) ! 0 \<noteq> 0) connectors"

section \<open>What the monitor is\<close>

definition hdmi_block :: "u8 list \<Rightarrow> nat \<Rightarrow> u8 \<Rightarrow> bool \<Rightarrow> (bool \<times> bool) outcome" where
  "hdmi_block raw db b found = bind_outcome (cea_db_is_hdmi_vsdb raw db b) (\<lambda>hdmi. Ok (hdmi, hdmi))"

definition drm_detect_hdmi_monitor :: "u8 list \<Rightarrow> bool outcome" where
  "drm_detect_hdmi_monitor raw =
     bind_outcome (drm_find_cea_extension raw) (\<lambda>ext. case ext of None \<Rightarrow> Ok False
     | Some cea \<Rightarrow> bind_outcome (cea_db_offsets raw cea) (\<lambda>offs. case offs of None \<Rightarrow> Ok False
         | Some (start, end_off) \<Rightarrow>
             for_each_cea_db raw cea (hdmi_block raw) start end_off False))"

definition EDID_BASIC_AUDIO :: u8 where "EDID_BASIC_AUDIO = 0x40"
definition EDID_CEA_YCRCB444 :: u8 where "EDID_CEA_YCRCB444 = 0x20"
definition EDID_CEA_YCRCB422 :: u8 where "EDID_CEA_YCRCB422 = 0x10"

text \<open>The formats of the audio block are read for a debug message.\<close>

definition audio_block :: "u8 list \<Rightarrow> nat \<Rightarrow> u8 \<Rightarrow> bool \<Rightarrow> (bool \<times> bool) outcome" where
  "audio_block raw db b found =
     (if cea_db_tag b = AUDIO_BLOCK
      then bind_outcome (slice raw (db + 1) (cea_db_payload_len b)) (\<lambda>formats. Ok (True, True))
      else Ok (False, found))"

definition drm_detect_monitor_audio :: "u8 list \<Rightarrow> bool outcome" where
  "drm_detect_monitor_audio raw =
     bind_outcome (drm_find_cea_extension raw) (\<lambda>ext. case ext of None \<Rightarrow> Ok False
     | Some cea \<Rightarrow> bind_outcome (at raw (cea + 3)) (\<lambda>x. if x AND EDID_BASIC_AUDIO \<noteq> 0 then Ok True
         else bind_outcome (cea_db_offsets raw cea) (\<lambda>offs. case offs of None \<Rightarrow> Ok False
         | Some (start, end_off) \<Rightarrow>
             for_each_cea_db raw cea (audio_block raw) start end_off False)))"

record display_info =
  di_width_mm :: int
  di_height_mm :: int
  di_bpc :: nat
  di_color_formats :: u32
  di_cea_rev :: u8

definition DRM_COLOR_FORMAT_RGB444 :: u32 where "DRM_COLOR_FORMAT_RGB444 = 1"
definition DRM_COLOR_FORMAT_YCRCB444 :: u32 where "DRM_COLOR_FORMAT_YCRCB444 = 2"
definition DRM_COLOR_FORMAT_YCRCB422 :: u32 where "DRM_COLOR_FORMAT_YCRCB422 = 4"

definition or_formats :: "bool \<Rightarrow> bool \<Rightarrow> display_info \<Rightarrow> display_info" where
  "or_formats y444 y422 info =
     info\<lparr>di_color_formats := di_color_formats info OR DRM_COLOR_FORMAT_RGB444
       OR (if y444 then DRM_COLOR_FORMAT_YCRCB444 else 0) OR (if y422 then DRM_COLOR_FORMAT_YCRCB422 else 0)\<rparr>"

definition drm_add_display_info :: "u8 list \<Rightarrow> display_info \<Rightarrow> display_info outcome" where
  "drm_add_display_info raw info =
     (let info = info\<lparr>di_width_mm := edid_width_cm raw * 10, di_height_mm := edid_height_cm raw * 10,
                      di_bpc := 0, di_color_formats := 0\<rparr>
      in if edid_revision raw < 3 then Ok info
         else if edid_input raw AND DRM_EDID_INPUT_DIGITAL = 0 then Ok info
         else bind_outcome (drm_find_cea_extension raw) (\<lambda>ext.
           bind_outcome (case ext of None \<Rightarrow> Ok info
             | Some cea \<Rightarrow> bind_outcome (slice raw cea 4) (\<lambda>x.
                 Ok (or_formats (x ! 3 AND EDID_CEA_YCRCB444 \<noteq> 0) (x ! 3 AND EDID_CEA_YCRCB422 \<noteq> 0)
                       (info\<lparr>di_cea_rev := x ! 1\<rparr>)))) (\<lambda>info.
           if edid_revision raw < 4 then Ok info
           else let depth = unat (drop_bit 4 (edid_input raw AND 0x70));
                    info = info\<lparr>di_bpc := (if 1 \<le> depth \<and> depth \<le> 6 then 4 + 2 * depth else 0)\<rparr>
                in Ok (or_formats (edid_features raw AND 0x08 \<noteq> 0) (edid_features raw AND 0x10 \<noteq> 0) info))))"

section \<open>All modes of an EDID\<close>

text \<open>The number of modes is in the state of the connector, which starts with 0; the EDID may change
  through the repair of its header and the quirks.\<close>

definition drm_add_edid_modes ::
    "int \<Rightarrow> u8 list option \<Rightarrow> edid_conn \<Rightarrow> display_info \<Rightarrow> (u8 list option \<times> edid_conn \<times> display_info) outcome" where
  "drm_add_edid_modes fixup edid c info =
    (let c = c\<lparr>ec_modes := 0\<rparr> in
     case edid of None \<Rightarrow> Ok (None, c, info)
     | Some raw \<Rightarrow>
       bind_outcome (drm_edid_is_valid fixup raw) (\<lambda>r. case r of (valid, raw) \<Rightarrow>
       if \<not> valid then Ok (Some raw, c, info)
       else let quirks = edid_get_quirks raw in
       bind_outcome (add_detailed_modes raw quirks c) (\<lambda>r. case r of (raw, c) \<Rightarrow>
       bind_outcome (add_cvt_modes raw c) (\<lambda>c.
       bind_outcome (add_standard_modes raw c) (\<lambda>c.
       bind_outcome (add_established_modes raw c) (\<lambda>c.
       bind_outcome (if edid_features raw AND DRM_EDID_FEATURE_DEFAULT_GTF \<noteq> 0 then add_inferred_modes raw c else Ok c) (\<lambda>c.
       bind_outcome (add_cea_modes raw c) (\<lambda>c.
       let c = (if has quirks (EDID_QUIRK_PREFER_LARGE_60 OR EDID_QUIRK_PREFER_LARGE_75)
                then c\<lparr>ec_probed := edid_fixup_preferred quirks (ec_probed c)\<rparr> else c)
       in bind_outcome (drm_add_display_info raw info) (\<lambda>info. Ok (Some raw, c, info)))))))))) "

definition drm_add_modes_noedid :: "int \<Rightarrow> int \<Rightarrow> edid_conn \<Rightarrow> edid_conn" where
  "drm_add_modes_noedid hdisplay vdisplay c =
     (let hdisplay = (if hdisplay < 0 then 0 else hdisplay); vdisplay = (if vdisplay < 0 then 0 else vdisplay)
      in fold (\<lambda>m c.
           if hdisplay \<noteq> 0 \<and> vdisplay \<noteq> 0 \<and> (hdisplay < dm_hdisplay m \<or> vdisplay < dm_vdisplay m) then c
           else if 61 < drm_mode_vrefresh m then c
           else add_opt (drm_mode_duplicate m c)) drm_dmt_modes (c\<lparr>ec_modes := 0\<rparr>))"

end
