(* ===== verification/Drm_Edid_Safety.thy ===== *)
theory Drm_Edid_Safety
  imports Drm_Edid_Cea
begin

text \<open>
  The readers of an EDID stay inside it: what a callback of the walk over the detailed timings owes and
  what the walk then gives, as locales, and the same for the loop over the CEA data blocks.
\<close>

section \<open>Results without a trap\<close>

definition okay :: "('a \<Rightarrow> bool) \<Rightarrow> 'a outcome \<Rightarrow> bool" where
  "okay P r \<longleftrightarrow> (case r of Ok v \<Rightarrow> P v | _ \<Rightarrow> False)"

lemma okay_simps [simp]: "okay P (Ok v) = P v" "\<not> okay P (Err e)" "\<not> okay P Bug"
  by (simp_all add: okay_def)

lemma okayE: "okay P r \<Longrightarrow> (\<And>v. r = Ok v \<Longrightarrow> P v \<Longrightarrow> thesis) \<Longrightarrow> thesis"
  by (cases r) auto

lemma okay_bind: "okay Q r \<Longrightarrow> (\<And>v. Q v \<Longrightarrow> okay P (f v)) \<Longrightarrow> okay P (bind_outcome r f)"
  by (cases r) auto

lemma okay_mono: "okay Q r \<Longrightarrow> (\<And>v. Q v \<Longrightarrow> P v) \<Longrightarrow> okay P r"
  by (cases r) auto

lemma okay_Ex: "okay P r \<Longrightarrow> \<exists>v. r = Ok v"
  by (cases r) auto

lemma at_okay: "i < length bs \<Longrightarrow> okay (\<lambda>b. b = bs ! i) (at bs i)"
  by (simp add: at_def)

lemma slice_okay: "i + n \<le> length bs \<Longrightarrow> okay (\<lambda>t. length t = n) (slice bs i n)"
  by (simp add: slice_def)

lemma put_okay: "i + length new \<le> length bs \<Longrightarrow> okay (\<lambda>bs'. length bs' = length bs) (put i new bs)"
  by (simp add: put_def)

lemma put_nth:
  "put i new bs = Ok bs' \<Longrightarrow> k < length bs \<Longrightarrow> k < i \<or> i + length new \<le> k \<Longrightarrow> bs' ! k = bs ! k"
  by (auto simp: put_def nth_append split: if_splits)

section \<open>The walk over the detailed timings\<close>

definition edid_complete :: "u8 list \<Rightarrow> bool" where
  "edid_complete raw \<longleftrightarrow> length raw = EDID_LENGTH * (extensions raw + 1)"

lemma complete_base: "edid_complete raw \<Longrightarrow> 128 \<le> length raw"
  by (simp add: edid_complete_def EDID_LENGTH_def)

lemma complete_ext: "edid_complete raw \<Longrightarrow> i \<le> extensions raw \<Longrightarrow> i * EDID_LENGTH + 128 \<le> length raw"
  by (simp add: edid_complete_def EDID_LENGTH_def)

text \<open>The offsets a callback is called with: inside the EDID, not over the count of the extensions and
  the checksum of the base block.\<close>

definition timing_at :: "u8 list \<Rightarrow> nat \<Rightarrow> bool" where
  "timing_at raw offset \<longleftrightarrow> offset + 18 \<le> length raw \<and> (offset + 18 \<le> 126 \<or> 128 \<le> offset)"

definition keeps :: "('c \<Rightarrow> bool) \<Rightarrow> u8 list \<times> 'c \<Rightarrow> u8 list \<times> 'c \<Rightarrow> bool" where
  "keeps cinv s s' \<longleftrightarrow> edid_complete (fst s') \<and> length (fst s') = length (fst s) \<and> cinv (snd s')"

lemma keeps_extensions: "edid_complete (fst s) \<Longrightarrow> keeps cinv s s' \<Longrightarrow> extensions (fst s') = extensions (fst s)"
  by (simp add: keeps_def edid_complete_def EDID_LENGTH_def)

lemma keeps_trans: "keeps cinv s s' \<Longrightarrow> keeps cinv s' s'' \<Longrightarrow> keeps cinv s s''"
  by (simp add: keeps_def)

locale timing_callback =
  fixes cb :: "'c detailed_cb" and cinv :: "'c \<Rightarrow> bool"
  assumes cb_okay: "edid_complete (fst s) \<Longrightarrow> cinv (snd s) \<Longrightarrow> timing_at (fst s) offset \<Longrightarrow> okay (keeps cinv s) (cb offset s)"
begin

lemma each_okay:
  "edid_complete (fst s) \<Longrightarrow> cinv (snd s) \<Longrightarrow> \<forall>offset \<in> set os. timing_at (fst s) offset \<Longrightarrow>
   okay (keeps cinv s) (each_timing cb os s)"
proof (induction os arbitrary: s)
  case (Cons offset os)
  have "okay (keeps cinv s) (each_timing cb os s')" if k: "keeps cinv s s'" for s'
    using k Cons.prems
    by (intro okay_mono [OF Cons.IH keeps_trans [OF k]]) (auto simp: keeps_def timing_at_def)
  then show ?case
    unfolding each_timing.simps using Cons.prems by (auto intro!: okay_bind [OF cb_okay])
qed (simp add: keeps_def)

lemma extension_okay:
  assumes c: "edid_complete (fst s)" "cinv (snd s)" and i: "i \<le> extensions (fst s)" "1 \<le> i"
  shows "okay (keeps cinv s) (ext_for_each_detailed_block (i * EDID_LENGTH) cb s)"
proof -
  have l: "i * EDID_LENGTH + 128 \<le> length (fst s)" by (rule complete_ext [OF c(1) i(1)])
  have b: "128 \<le> i * EDID_LENGTH" using i(2) by (simp add: EDID_LENGTH_def)
  have cea: "timing_at (fst s) (i * EDID_LENGTH + d + 18 * k)" if k: "k < (127 - d) div 18" for d k
  proof -
    have "k + 1 \<le> (127 - d) div 18" using k by simp
    then have "18 * (k + 1) \<le> 18 * ((127 - d) div 18)" by (rule mult_le_mono2)
    also have "\<dots> \<le> 127 - d" by (rule times_div_less_eq_dividend)
    finally show ?thesis using l b by (auto simp: timing_at_def)
  qed
  have vtb: "timing_at (fst s) (i * EDID_LENGTH + 5 + 18 * k)" if "k < min d 6" for d k :: nat
    using that l b by (auto simp: timing_at_def)
  have cea': "okay (keeps cinv s) (cea_for_each_detailed_block (i * EDID_LENGTH) cb s)"
    unfolding cea_for_each_detailed_block_def Let_def using c l
    by (auto intro!: okay_bind [OF at_okay] each_okay cea)
  have vtb': "okay (keeps cinv s) (vtb_for_each_detailed_block (i * EDID_LENGTH) cb s)"
    unfolding vtb_for_each_detailed_block_def Let_def using c l
    by (auto intro!: okay_bind [OF at_okay] each_okay vtb simp: keeps_def)
  show ?thesis
    unfolding ext_for_each_detailed_block_def using c l cea' vtb'
    by (auto intro!: okay_bind [OF at_okay] simp: keeps_def)
qed

lemma extensions_okay:
  "edid_complete (fst s) \<Longrightarrow> cinv (snd s) \<Longrightarrow> 1 \<le> i \<Longrightarrow> okay (keeps cinv s) (for_each_extension cb i s)"
proof (induction "256 - i" arbitrary: i s rule: less_induct)
  case less
  show ?case
  proof (cases "extensions (fst s) < i")
    case True
    then show ?thesis using less.prems by (subst for_each_extension.simps) (simp add: keeps_def)
  next
    case False
    then have "okay (keeps cinv s) (ext_for_each_detailed_block (i * EDID_LENGTH) cb s)"
      using less.prems by (intro extension_okay) auto
    then obtain s' where s': "ext_for_each_detailed_block (i * EDID_LENGTH) cb s = Ok s'" and k: "keeps cinv s s'"
      by (rule okayE)
    have "i < 256" using False extensions_le [of "fst s"] by linarith
    then have "okay (keeps cinv s') (for_each_extension cb (i + 1) s')"
      using k less.prems by (intro less.hyps) (auto simp: keeps_def)
    then have "okay (keeps cinv s) (for_each_extension cb (i + 1) s')"
      by (rule okay_mono) (rule keeps_trans [OF k])
    then show ?thesis using False by (subst for_each_extension.simps) (simp add: s')
  qed
qed

theorem walk_okay:
  assumes "edid_complete (fst s)" "cinv (snd s)"
  shows "okay (keeps cinv s) (drm_for_each_detailed_block cb s)"
proof -
  have "\<forall>offset \<in> set (map (\<lambda>i. 54 + 18 * i) [0..<4]). timing_at (fst s) offset"
    using complete_base [OF assms(1)] by (auto simp: timing_at_def)
  then have "okay (keeps cinv s) (each_timing cb (map (\<lambda>i. 54 + 18 * i) [0..<4]) s)"
    using assms by (intro each_okay) auto
  then have "okay (keeps cinv s) (bind_outcome (each_timing cb (map (\<lambda>i. 54 + 18 * i) [0..<4]) s) (for_each_extension cb 1))"
  proof (rule okay_bind)
    fix s' assume k: "keeps cinv s s'"
    then have "okay (keeps cinv s') (for_each_extension cb 1 s')"
      by (intro extensions_okay) (auto simp: keeps_def)
    then show "okay (keeps cinv s) (for_each_extension cb 1 s')"
      by (rule okay_mono) (rule keeps_trans [OF k])
  qed
  then show ?thesis
    using complete_base [OF assms(1)] by (simp add: drm_for_each_detailed_block_def EDID_LENGTH_def)
qed

end

text \<open>A callback that only reads its timing.\<close>

locale timing_reader =
  fixes f :: "u8 list \<Rightarrow> 'c \<Rightarrow> 'c outcome" and cinv :: "'c \<Rightarrow> bool"
  assumes f_okay: "length t = 18 \<Longrightarrow> cinv c \<Longrightarrow> okay cinv (f t c)"

sublocale timing_reader \<subseteq> timing_callback "reading f" cinv
proof
  show "okay (keeps cinv s) (reading f offset s)"
    if "edid_complete (fst s)" "cinv (snd s)" "timing_at (fst s) offset" for s :: "u8 list \<times> 'c" and offset
    unfolding reading_def using that
    by (auto intro!: okay_bind [OF slice_okay] okay_bind [OF f_okay] simp: timing_at_def keeps_def)
qed

context timing_reader
begin

lemma reader_okay: "edid_complete raw \<Longrightarrow> cinv c \<Longrightarrow> okay cinv (walk f raw c)"
  unfolding walk_def by (rule okay_bind [OF walk_okay]) (auto simp: keeps_def)

end

interpretation rb: timing_reader is_rb "\<lambda>_. True"
  by unfold_locales (simp add: is_rb_def)

interpretation gtf2: timing_reader find_gtf2 "\<lambda>_. True"
  by unfold_locales (simp add: find_gtf2_def)

interpretation name: timing_reader monitor_name "\<lambda>n. \<forall>x. n = Some x \<longrightarrow> length x = 13"
  by unfold_locales (auto simp: monitor_name_def)

interpretation established: timing_reader do_established_modes "\<lambda>_. True"
  by unfold_locales (simp add: do_established_modes_def)

lemma supports_rb_okay: "edid_complete raw \<Longrightarrow> okay (\<lambda>_. True) (drm_monitor_supports_rb raw)"
  by (simp add: drm_monitor_supports_rb_def rb.reader_okay)

section \<open>The loop over the data blocks\<close>

locale cea_reader =
  fixes raw :: "u8 list" and body :: "nat \<Rightarrow> u8 \<Rightarrow> 'c \<Rightarrow> (bool \<times> 'c) outcome" and cinv :: "'c \<Rightarrow> bool"
  assumes body_okay: "offset + cea_db_payload_len b < length raw \<Longrightarrow> cinv c \<Longrightarrow>
    okay (\<lambda>r. cinv (snd r)) (body offset b c)"
begin

lemma loop_okay:
  assumes l: "cea + 128 \<le> length raw" and e: "end_off \<le> 127" and c: "cinv c"
  shows "okay cinv (for_each_cea_db raw cea body i end_off c)"
  using c
proof (induction "end_off - i" arbitrary: i c rule: less_induct)
  case less
  show ?case
  proof (cases "i < end_off")
    case i: True
    then have a: "at raw (cea + i) = Ok (raw ! (cea + i))" using l e by (simp add: at_def)
    show ?thesis
    proof (cases "i + cea_db_payload_len (raw ! (cea + i)) < end_off")
      case True
      then have "cea + i + cea_db_payload_len (raw ! (cea + i)) < length raw" using l e by simp
      then have "okay (\<lambda>r. cinv (snd r)) (body (cea + i) (raw ! (cea + i)) c)"
        by (rule body_okay) (rule less.prems)
      then obtain r where r: "body (cea + i) (raw ! (cea + i)) c = Ok r" "cinv (snd r)" by (rule okayE)
      have "okay cinv (for_each_cea_db raw cea body (i + cea_db_payload_len (raw ! (cea + i)) + 1) end_off (snd r))"
        by (rule less.hyps) (use i r in auto)
      then show ?thesis using i True r by (subst for_each_cea_db.simps) (simp add: a)
    qed (use i less.prems in \<open>subst for_each_cea_db.simps, simp add: a\<close>)
  qed (use less.prems in \<open>subst for_each_cea_db.simps, simp\<close>)
qed

end

lemma hdmi_vsdb_okay:
  "db + cea_db_payload_len b < length raw \<Longrightarrow> okay (\<lambda>_. True) (cea_db_is_hdmi_vsdb raw db b)"
  by (auto simp: cea_db_is_hdmi_vsdb_def intro!: okay_bind [OF slice_okay])

interpretation video: cea_reader raw "video_block raw" "\<lambda>_. True" for raw
  by unfold_locales (auto simp: video_block_def intro!: okay_bind [OF slice_okay])

interpretation hdmi: cea_reader raw "hdmi_block raw" "\<lambda>_. True" for raw
  by unfold_locales (auto simp: hdmi_block_def intro!: okay_bind [OF hdmi_vsdb_okay])

interpretation audio: cea_reader raw "audio_block raw" "\<lambda>_. True" for raw
  by unfold_locales (auto simp: audio_block_def intro!: okay_bind [OF slice_okay])

text \<open>The ELD keeps its 128 bytes: the name and one block of audio descriptors fit behind the first 20.\<close>

definition eld_inv :: "nat \<times> eld_state \<Rightarrow> bool" where
  "eld_inv st \<longleftrightarrow> length (es_eld (snd st)) = MAX_ELD_BYTES"

lemma payload_le: "cea_db_payload_len b \<le> 31"
proof -
  have "b AND 0x1f \<le> 0x1f" by (rule word_and_le1)
  then show ?thesis by (simp add: cea_db_payload_len_def word_le_nat_alt)
qed

lemma vsdb_field_okay:
  assumes "db + len < length raw" "P s" "\<And>b. P (f b s)"
  shows "okay P (vsdb_field raw db len k f s)"
  using assms by (auto simp: vsdb_field_def intro!: okay_bind [OF at_okay])

lemma parse_okay:
  assumes l: "db + cea_db_payload_len b < length raw" and e: "length (es_eld s) = MAX_ELD_BYTES"
  shows "okay (\<lambda>s. length (es_eld s) = MAX_ELD_BYTES) (parse_hdmi_vsdb raw db b s)"
  unfolding parse_hdmi_vsdb_def Let_def
  by (intro okay_bind [OF vsdb_field_okay [where P = "\<lambda>s. length (es_eld s) = MAX_ELD_BYTES", OF l]]
      vsdb_field_okay [OF l]) (simp_all add: e)

lemma eld_block_okay:
  assumes l: "db + cea_db_payload_len b < length raw" and e: "eld_inv st" and m: "mnl \<le> 13"
  shows "okay (\<lambda>r. eld_inv (snd r)) (eld_block raw mnl db b st)"
proof -
  obtain n s where st: "st = (n, s)" by (cases st)
  have e: "length (es_eld s) = 128" using e by (simp add: eld_inv_def st MAX_ELD_BYTES_def)
  have p: "cea_db_payload_len b \<le> 31" by (rule payload_le)
  have "okay (\<lambda>eld. length eld = 128) (put (20 + mnl) sads (es_eld s))" if "length sads = cea_db_payload_len b" for sads
    using put_okay [of "20 + mnl" sads "es_eld s"] p m e that by simp
  then have "okay (\<lambda>r. eld_inv (snd r)) (bind_outcome (slice raw (db + 1) (cea_db_payload_len b)) (\<lambda>sads.
      bind_outcome (put (20 + mnl) sads (es_eld s)) (\<lambda>eld. Ok (False, cea_db_payload_len b div 3, s\<lparr>es_eld := eld\<rparr>))))"
    using l by (intro okay_bind [OF slice_okay] okay_bind [where Q = "\<lambda>eld. length eld = 128"])
      (auto simp: eld_inv_def MAX_ELD_BYTES_def)
  moreover have "okay (\<lambda>r. eld_inv (snd r)) (bind_outcome (at raw (db + 1)) (\<lambda>x. Ok (False, n, s\<lparr>es_eld := (es_eld s)[7 := x]\<rparr>)))"
    if "1 \<le> cea_db_payload_len b"
    using l that e by (intro okay_bind [OF at_okay]) (auto simp: eld_inv_def MAX_ELD_BYTES_def)
  moreover have "okay (\<lambda>r. eld_inv (snd r)) (bind_outcome (parse_hdmi_vsdb raw db b s) (\<lambda>s. Ok (False, n, s)))"
    by (rule okay_bind [OF parse_okay [OF l]]) (simp_all add: e eld_inv_def MAX_ELD_BYTES_def)
  ultimately show ?thesis
    using e by (auto simp: eld_block_def st Let_def eld_inv_def MAX_ELD_BYTES_def
        intro!: okay_bind [OF hdmi_vsdb_okay [OF l]])
qed

end
