(* ===== verification/Drm_Edid_Fetch.thy ===== *)
theory Drm_Edid_Fetch
  imports Drm_Edid_Safety
begin

text \<open>
  Fetching an EDID: the blocks that were found valid are valid where they end up, and the checksum of the
  base block survives the removal of extensions that could not be read.
\<close>

unbundle bit_operations_syntax

section \<open>Blocks\<close>

lemma header_score: "drm_edid_header_is_valid (edid_header @ xs) = 8"
  by (simp add: drm_edid_header_is_valid_def edid_header_def upt_rec)

lemma header_score_8:
  assumes "drm_edid_header_is_valid raw = 8" "8 \<le> length raw"
  shows "raw = edid_header @ drop 8 raw"
proof -
  have "length edid_header = 8" by (simp add: edid_header_def)
  then have "length (filter (\<lambda>i. raw ! i = edid_header ! i) [0..<8]) = length [0..<8]"
    using assms(1) by (simp only: drm_edid_header_is_valid_def) simp
  then have "\<forall>i < 8. raw ! i = edid_header ! i"
    using length_filter_less [of _ "[0..<8]" "\<lambda>i. raw ! i = edid_header ! i"] by force
  then have "take 8 raw = edid_header"
    using assms(2) by (intro nth_equalityI) (auto simp: edid_header_def)
  then show ?thesis by (metis append_take_drop_id)
qed

text \<open>A block accepted as the base block, and as an extension.\<close>

definition base_ok :: "u8 list \<Rightarrow> bool" where
  "base_ok b \<longleftrightarrow> length b = EDID_LENGTH \<and> take 8 b = edid_header \<and> sum_list b = 0 \<and> b ! 18 = 1"

definition ext_ok :: "u8 list \<Rightarrow> bool" where
  "ext_ok b \<longleftrightarrow> length b = EDID_LENGTH \<and> (sum_list b = 0 \<or> b ! 0 = 2) \<and> (b ! 0 = 0 \<longrightarrow> b ! 18 = 1)"

lemma block_valid_base:
  assumes "length b = EDID_LENGTH" "drm_edid_block_valid fixup 0 b = (True, b')"
  shows "base_ok b'"
proof -
  have l: "length b = 128" using assms(1) by (simp add: EDID_LENGTH_def)
  define b1 where "b1 = (if drm_edid_header_is_valid b \<noteq> 8 then edid_header @ drop 8 b else b)"
  have "b1 = edid_header @ drop 8 b" using header_score_8 [of b] l by (auto simp: b1_def)
  moreover have lh: "length edid_header = 8" by (simp add: edid_header_def)
  ultimately have t: "take 8 b1 = edid_header" "length b1 = 128" "b1 ! 0 = 0"
    using l by (simp_all add: edid_header_def)
  have "b1 = b'" "sum_list (take 128 b1) = 0 \<or> b1 ! 0 = 2" "b1 ! 0 = 0 \<longrightarrow> b1 ! 18 = 1"
    using assms(2) by (auto simp: drm_edid_block_valid_def Let_def b1_def EDID_LENGTH_def lh split: if_splits)
  then show ?thesis using t by (auto simp: base_ok_def EDID_LENGTH_def)
qed

lemma base_ok_valid: "base_ok b \<Longrightarrow> drm_edid_block_valid fixup 0 b = (True, b)"
proof -
  assume b: "base_ok b"
  then have "b = edid_header @ drop 8 b" by (metis append_take_drop_id base_ok_def)
  then have "drm_edid_header_is_valid b = 8" by (metis header_score)
  then show ?thesis using b by (auto simp: drm_edid_block_valid_def base_ok_def EDID_LENGTH_def)
qed

lemma block_valid_ext:
  "length b = EDID_LENGTH \<Longrightarrow> j \<noteq> 0 \<Longrightarrow> drm_edid_block_valid fixup j b = (True, b') \<Longrightarrow> ext_ok b' \<and> b' = b"
  by (auto simp: drm_edid_block_valid_def Let_def ext_ok_def split: if_splits)

lemma ext_ok_valid: "ext_ok b \<Longrightarrow> j \<noteq> 0 \<Longrightarrow> drm_edid_block_valid fixup j b = (True, b)"
  by (auto simp: drm_edid_block_valid_def Let_def ext_ok_def)

section \<open>The whole EDID\<close>

lemma length_concat_blocks: "\<forall>b \<in> set bs. length b = n \<Longrightarrow> length (concat bs) = n * length bs"
  by (induction bs) auto

lemma concat_split:
  assumes "\<forall>b \<in> set bs. length b = n" "i < length bs"
  shows "take (i * n) (concat bs) = concat (take i bs)" "drop (i * n) (concat bs) = concat (drop i bs)"
proof -
  have l: "length (concat (take i bs)) = i * n"
    using assms length_concat_blocks [of "take i bs" n] by (auto dest: in_set_takeD simp: mult.commute)
  have "concat bs = concat (take i bs) @ concat (drop i bs)" by (metis append_take_drop_id concat_append)
  then show "take (i * n) (concat bs) = concat (take i bs)" "drop (i * n) (concat bs) = concat (drop i bs)"
    using l by (metis append_eq_conv_conj)+
qed

lemma block_of_concat:
  assumes l: "\<forall>b \<in> set bs. length b = EDID_LENGTH" and i: "i < length bs"
  shows "block_at (concat bs) i = bs ! i" "put_block i (bs ! i) (concat bs) = concat bs"
proof -
  have d: "drop i bs = bs ! i # drop (i + 1) bs" using i by (simp add: Cons_nth_drop_Suc)
  have b: "length (bs ! i) = EDID_LENGTH" using l i by auto
  have e: "drop (i * EDID_LENGTH) (concat bs) = bs ! i @ concat (drop (i + 1) bs)"
    by (simp only: concat_split(2) [OF l i] d concat.simps)
  then show "block_at (concat bs) i = bs ! i" using b by (simp add: block_at_def)
  have "drop ((i + 1) * EDID_LENGTH) (concat bs) = drop EDID_LENGTH (drop (i * EDID_LENGTH) (concat bs))"
    by (simp add: add.commute)
  also have "\<dots> = concat (drop (i + 1) bs)" using b by (simp add: e)
  finally have "put_block i (bs ! i) (concat bs) = take (i * EDID_LENGTH) (concat bs) @ drop (i * EDID_LENGTH) (concat bs)"
    by (simp add: put_block_def e)
  then show "put_block i (bs ! i) (concat bs) = concat bs" by simp
qed

lemma blocks_valid_concat:
  assumes l: "\<forall>b \<in> set bs. length b = EDID_LENGTH"
    and v: "\<forall>i \<in> set is. i < length bs \<and> drm_edid_block_valid fixup i (bs ! i) = (True, bs ! i)"
  shows "edid_blocks_valid fixup is (concat bs) = Ok (True, concat bs)"
  using v
proof (induction "is")
  case (Cons i "is")
  then have i: "i < length bs" and vi: "drm_edid_block_valid fixup i (bs ! i) = (True, bs ! i)" by auto
  have "(i + 1) * EDID_LENGTH \<le> length (concat bs)"
    using i by (simp add: length_concat_blocks [OF l] EDID_LENGTH_def)
  then have "\<not> length (concat bs) < (i + 1) * EDID_LENGTH" by simp
  then show ?case
    using Cons by (simp add: block_of_concat [OF l i] vi Let_def del: length_concat)
qed simp

lemma edid_of_blocks:
  assumes b: "base_ok b" and e: "\<forall>x \<in> set es. ext_ok x" and n: "unat (b ! 126) = length es"
  shows "edid_complete (b @ concat es)" "drm_edid_is_valid fixup (b @ concat es) = Ok (True, b @ concat es)"
proof -
  have l: "\<forall>x \<in> set (b # es). length x = EDID_LENGTH" using b e by (auto simp: base_ok_def ext_ok_def)
  have bl: "length b = 128" using b by (simp add: base_ok_def EDID_LENGTH_def)
  have ext: "extensions (b @ concat es) = length es" using n bl by (simp add: extensions_def nth_append)
  have len: "length (b @ concat es) = EDID_LENGTH * (length es + 1)"
    using length_concat_blocks [OF l] by simp
  then show "edid_complete (b @ concat es)" by (simp add: edid_complete_def ext)
  have "\<forall>i \<in> set [0..<length es + 1]. i < length (b # es) \<and> drm_edid_block_valid fixup i ((b # es) ! i) = (True, (b # es) ! i)"
    using base_ok_valid [OF b] e by (auto simp: nth_Cons' intro!: ext_ok_valid)
  from blocks_valid_concat [OF l this] show "drm_edid_is_valid fixup (b @ concat es) = Ok (True, b @ concat es)"
    using len by (simp add: drm_edid_is_valid_def ext EDID_LENGTH_def)
qed

section \<open>The fetches\<close>

definition full_blocks :: "u8 list option list \<Rightarrow> bool" where
  "full_blocks reads \<longleftrightarrow> (\<forall>b. Some b \<in> set reads \<longrightarrow> length b = EDID_LENGTH)"

lemma full_blocks_simps [simp]:
  "full_blocks []" "full_blocks (None # reads) = full_blocks reads"
  "full_blocks (Some b # reads) \<longleftrightarrow> length b = EDID_LENGTH \<and> full_blocks reads"
  by (auto simp: full_blocks_def)

lemma probe_full:
  "full_blocks reads \<Longrightarrow> full_blocks (snd (drm_do_probe_ddc_edid n reads)) \<and>
   (\<forall>b. fst (drm_do_probe_ddc_edid n reads) = Some b \<longrightarrow> length b = EDID_LENGTH)"
  by (induction n reads rule: drm_do_probe_ddc_edid.induct) simp_all

lemma fetch_block_full:
  "full_blocks reads \<Longrightarrow> fetch_block fixup j i reads n = (r, reads') \<Longrightarrow>
   full_blocks reads' \<and> (\<forall>b. r = Fetched b \<longrightarrow> (if j = 0 then base_ok b else ext_ok b))"
proof (induction fixup j i reads n arbitrary: r rule: fetch_block.induct)
  case (2 fixup j i reads n)
  obtain p reads1 where p: "drm_do_probe_ddc_edid 5 reads = (p, reads1)" by (cases "drm_do_probe_ddc_edid 5 reads")
  then have f: "full_blocks reads1" "\<And>b. p = Some b \<Longrightarrow> length b = EDID_LENGTH"
    using probe_full [OF 2(2), of 5] by auto
  show ?case
  proof (cases p)
    case None
    then show ?thesis using 2 p f by auto
  next
    case (Some b)
    obtain ok b' where v: "drm_edid_block_valid fixup j b = (ok, b')" by (cases "drm_edid_block_valid fixup j b")
    show ?thesis
    proof (cases ok)
      case True
      then show ?thesis
        using 2 p f v Some block_valid_base [of b fixup b'] block_valid_ext [of b j fixup b'] by auto
    next
      case False
      then show ?thesis using 2 p f v Some by (auto split: if_splits)
    qed
  qed
qed auto

lemma fetch_extensions_full:
  "full_blocks reads \<Longrightarrow> 0 \<notin> set js \<Longrightarrow> fetch_extensions fixup pb js reads (b @ concat es, c) = (Some (raw, c'), reads') \<Longrightarrow>
   \<forall>x \<in> set es. ext_ok x \<Longrightarrow>
   \<exists>es'. raw = b @ concat es' \<and> (\<forall>x \<in> set es'. ext_ok x) \<and> length es' \<le> length es + length js"
proof (induction js arbitrary: reads es c)
  case (Cons j js)
  obtain r reads1 where r: "fetch_block fixup j 0 reads 4 = (r, reads1)" by (cases "fetch_block fixup j 0 reads 4")
  have f: "full_blocks reads1" and e: "\<And>x. r = Fetched x \<Longrightarrow> ext_ok x"
    using fetch_block_full [OF Cons.prems(1) r] Cons.prems(2) by auto
  show ?case
  proof (cases r)
    case (Fetched x)
    have "fetch_extensions fixup pb js reads1 (b @ concat (es @ [x]), c) = (Some (raw, c'), reads')"
      using Cons.prems(3) r Fetched by simp
    from Cons.IH [OF f _ this] Cons.prems(2,4) e [OF Fetched] show ?thesis by fastforce
  next
    case Unreadable
    then show ?thesis using Cons.prems(3) r by simp
  next
    case (Invalid z)
    have "\<exists>c1. fetch_extensions fixup pb js reads1 (b @ concat es, c1) = (Some (raw, c'), reads')"
      using Cons.prems(3) r Invalid by auto
    then obtain c1 where "fetch_extensions fixup pb js reads1 (b @ concat es, c1) = (Some (raw, c'), reads')" ..
    from Cons.IH [OF f _ this] Cons.prems(2,4) show ?thesis by fastforce
  qed
qed auto

text \<open>The count of the extensions and the checksum change together.\<close>

lemma sum_update: "k < length xs \<Longrightarrow> sum_list (xs[k := x]) = sum_list xs - xs ! k + (x :: 'a :: ab_group_add)"
  by (induction xs arbitrary: k) (auto split: nat.split simp: algebra_simps)

lemma base_ok_count:
  assumes b: "base_ok b"
  shows "base_ok (b[127 := b ! 127 + (b ! 126 - w), 126 := w])"
proof -
  have l: "length b = 128" using b by (simp add: base_ok_def EDID_LENGTH_def)
  have "sum_list (b[127 := b ! 127 + (b ! 126 - w), 126 := w]) = sum_list b"
    using l by (simp add: sum_update)
  moreover have "take 8 (b[127 := b ! 127 + (b ! 126 - w), 126 := w]) = take 8 b"
    by (simp add: take_update_swap list_update_beyond)
  ultimately show ?thesis using b by (simp add: base_ok_def)
qed

lemma get_edid_blocks:
  assumes f: "full_blocks reads" and g: "drm_do_get_edid fixup debug allocs reads c = (Some raw, c')"
  shows "\<exists>b es. raw = b @ concat es \<and> base_ok b \<and> (\<forall>x \<in> set es. ext_ok x) \<and> unat (b ! 126) = length es"
proof -
  obtain a1 a2 a3 where a: "allocs = (a1, a2, a3)" by (cases allocs)
  obtain r reads1 where r: "fetch_block fixup 0 0 reads 4 = (r, reads1)" by (cases "fetch_block fixup 0 0 reads 4")
  have f1: "full_blocks reads1" and e: "\<And>x. r = Fetched x \<Longrightarrow> base_ok x"
    using fetch_block_full [OF f r] by auto
  obtain base where base: "r = Fetched base"
    using g by (cases r) (auto simp: drm_do_get_edid_def a r Let_def simp del: upt_Suc split: if_splits)
  have ok: "base_ok base" by (rule e [OF base])
  then have lb: "length base = 128" by (simp add: base_ok_def EDID_LENGTH_def)
  show ?thesis
  proof (cases "base ! 126 = 0")
    case True
    then have "raw = base" using g by (auto simp: drm_do_get_edid_def a r base Let_def simp del: upt_Suc split: if_splits)
    then show ?thesis using ok True by (intro exI [of _ base] exI [of _ "[]"]) simp
  next
    case False
    define pb where "pb = (bad_edid_counter c = 0 \<or> debug)"
    obtain s reads2 where s: "fetch_extensions fixup pb [Suc 0..<Suc (unat (base ! 126))] reads1 (base, c) = (s, reads2)"
      by (cases "fetch_extensions fixup pb [Suc 0..<Suc (unat (base ! 126))] reads1 (base, c)")
    obtain blk c1 where blk: "s = Some (blk, c1)"
      using g False by (cases s) (auto simp: drm_do_get_edid_def a r base Let_def pb_def [symmetric] s simp del: upt_Suc split: if_splits)
    obtain es where es: "blk = base @ concat es" "\<forall>x \<in> set es. ext_ok x" "length es \<le> unat (base ! 126)"
      using fetch_extensions_full [of reads1 "[Suc 0..<Suc (unat (base ! 126))]" fixup pb base "[]" c blk c1 reads2] f1 s blk
      by (auto simp del: upt_Suc)
    have le: "\<forall>x \<in> set (base # es). length x = EDID_LENGTH" using ok es(2) by (auto simp: base_ok_def ext_ok_def)
    have valid: "length blk div EDID_LENGTH - Suc 0 = length es"
      using length_concat_blocks [OF le] by (simp add: es(1) EDID_LENGTH_def)
    have cnt: "blk ! 126 = base ! 126" "blk ! 127 = base ! 127" using lb by (simp_all add: es(1) nth_append)
    have "unat (base ! 126) < 256" using unsigned_less [of "base ! 126", where ?'a = nat] by simp
    then have u: "unat (word_of_nat (length es) :: u8) = length es"
      using es(3) by (simp add: unsigned_of_nat take_bit_nat_eq_self_iff)
    show ?thesis
    proof (cases "length es = unat (base ! 126)")
      case True
      then have "raw = blk"
        using g False by (auto simp: drm_do_get_edid_def a r base Let_def pb_def [symmetric] s blk valid cnt simp del: upt_Suc split: if_splits)
      then show ?thesis using ok es True by (intro exI [of _ base] exI [of _ es]) simp
    next
      case diff: False
      define w :: u8 where "w = word_of_nat (length es)"
      define b where "b = base[127 := base ! 127 + (base ! 126 - w), 126 := w]"
      have "raw = blk[127 := blk ! 127 + (blk ! 126 - w), 126 := w]"
        using g False diff by (auto simp: drm_do_get_edid_def a r base Let_def pb_def [symmetric] s blk valid cnt w_def simp del: upt_Suc split: if_splits)
      then have "raw = b @ concat es" using lb by (simp add: b_def es(1) cnt list_update_append nth_append)
      moreover have "base_ok b" unfolding b_def by (rule base_ok_count [OF ok])
      moreover have "unat (b ! 126) = length es" using lb u by (simp add: b_def w_def)
      ultimately show ?thesis using es(2) by blast
    qed
  qed
qed

section \<open>The property\<close>

text \<open>C26: An EDID that \<open>drm_get_edid\<close> returns is complete and valid: it has one block of 128 bytes for
  the base block and one for each extension that the base block still counts, whatever the transfers
  delivered, and \<open>drm_edid_is_valid\<close> accepts it unchanged; dropping unreadable extensions keeps the
  checksum of the base block right.\<close>

theorem get_edid_valid:
  assumes "full_blocks reads" and "drm_get_edid fixup debug allocs probes reads c = (Some raw, c')"
  shows "edid_complete raw \<and> drm_edid_is_valid fixup raw = Ok (True, raw)"
proof -
  have "drm_do_get_edid fixup debug allocs reads c = (Some raw, c')"
    using assms(2) by (simp add: drm_get_edid_def split: if_splits)
  then obtain b es where "raw = b @ concat es" "base_ok b" "\<forall>x \<in> set es. ext_ok x" "unat (b ! 126) = length es"
    using get_edid_blocks [OF assms(1)] by blast
  then show ?thesis using edid_of_blocks by blast
qed

text \<open>A monitor that counts two extensions; the first is read as garbage four times.\<close>

definition two_ext_base :: "u8 list" where
  "two_ext_base = edid_header @ replicate 10 0 @ [1] @ replicate 107 0 @ [2, 3]"

definition two_ext_reads :: "u8 list option list" where
  "two_ext_reads = [None, Some two_ext_base] @ replicate 4 (Some (replicate 128 1)) @ [Some (2 # replicate 127 9)]"

definition one_ext_edid :: "u8 list" where
  "one_ext_edid = edid_header @ replicate 10 0 @ [1] @ replicate 107 0 @ [1, 4] @ 2 # replicate 127 9"

lemma two_ext_get:
  "drm_get_edid 6 False (True, True, True) [Some [0]] two_ext_reads \<lparr>null_edid_counter = 0, bad_edid_counter = 0\<rparr> =
   (Some one_ext_edid, \<lparr>null_edid_counter = 0, bad_edid_counter = 1\<rparr>)"
  by code_simp

theorem get_edid_valid_witness:
  "edid_complete one_ext_edid \<and> drm_edid_is_valid 6 one_ext_edid = Ok (True, one_ext_edid)"
proof (rule get_edid_valid [OF _ two_ext_get])
  show "full_blocks two_ext_reads" by (auto simp: full_blocks_def two_ext_reads_def two_ext_base_def edid_header_def EDID_LENGTH_def)
qed

end
