(* ===== verification/Intel_Pll.thy ===== *)
theory Intel_Pll
  imports C_Int
begin

text \<open>
  The divisors of the display PLLs, \<^verbatim>\<open>drm/i915/intel_display.c\<close>: the limits of each generation and
  output, the choice among them, the clock a set of divisors gives, and the searches for the divisors of
  a pixel clock.  The registers read and the type of the device are a record, the outputs of the CRTC a
  list.
\<close>

unbundle bit_operations_syntax

section \<open>Clocks and limits\<close>

record intel_clock =
  ck_n :: int
  ck_m1 :: int
  ck_m2 :: int
  ck_p1 :: int
  ck_p2 :: int
  ck_dot :: int
  ck_vco :: int
  ck_m :: int
  ck_p :: int

definition zero_clock :: intel_clock where
  "zero_clock = \<lparr>ck_n = 0, ck_m1 = 0, ck_m2 = 0, ck_p1 = 0, ck_p2 = 0, ck_dot = 0, ck_vco = 0, ck_m = 0, ck_p = 0\<rparr>"

datatype find_pll = Find_best_PLL | Find_g4x_best_PLL | Find_pll_g4x_dp | Find_pll_ironlake_dp | Find_vlv_best_pll

record intel_limit =
  li_dot :: "int \<times> int"
  li_vco :: "int \<times> int"
  li_n :: "int \<times> int"
  li_m :: "int \<times> int"
  li_m1 :: "int \<times> int"
  li_m2 :: "int \<times> int"
  li_p :: "int \<times> int"
  li_p1 :: "int \<times> int"
  li_dot_limit :: int
  li_p2_slow :: int
  li_p2_fast :: int
  li_find_pll :: find_pll

definition intel_limits_i8xx_dvo :: intel_limit where
  "intel_limits_i8xx_dvo = \<lparr>li_dot = (25000, 350000), li_vco = (930000, 1400000), li_n = (3, 16), li_m = (96, 140),
     li_m1 = (18, 26), li_m2 = (6, 16), li_p = (4, 128), li_p1 = (2, 33),
     li_dot_limit = 165000, li_p2_slow = 4, li_p2_fast = 2, li_find_pll = Find_best_PLL\<rparr>"

definition intel_limits_i8xx_lvds :: intel_limit where
  "intel_limits_i8xx_lvds = \<lparr>li_dot = (25000, 350000), li_vco = (930000, 1400000), li_n = (3, 16), li_m = (96, 140),
     li_m1 = (18, 26), li_m2 = (6, 16), li_p = (4, 128), li_p1 = (1, 6),
     li_dot_limit = 165000, li_p2_slow = 14, li_p2_fast = 7, li_find_pll = Find_best_PLL\<rparr>"

definition intel_limits_i9xx_sdvo :: intel_limit where
  "intel_limits_i9xx_sdvo = \<lparr>li_dot = (20000, 400000), li_vco = (1400000, 2800000), li_n = (1, 6), li_m = (70, 120),
     li_m1 = (8, 18), li_m2 = (3, 7), li_p = (5, 80), li_p1 = (1, 8),
     li_dot_limit = 200000, li_p2_slow = 10, li_p2_fast = 5, li_find_pll = Find_best_PLL\<rparr>"

definition intel_limits_i9xx_lvds :: intel_limit where
  "intel_limits_i9xx_lvds = \<lparr>li_dot = (20000, 400000), li_vco = (1400000, 2800000), li_n = (1, 6), li_m = (70, 120),
     li_m1 = (10, 22), li_m2 = (5, 9), li_p = (7, 98), li_p1 = (1, 8),
     li_dot_limit = 112000, li_p2_slow = 14, li_p2_fast = 7, li_find_pll = Find_best_PLL\<rparr>"

definition intel_limits_g4x_sdvo :: intel_limit where
  "intel_limits_g4x_sdvo = \<lparr>li_dot = (25000, 270000), li_vco = (1750000, 3500000), li_n = (1, 4), li_m = (104, 138),
     li_m1 = (17, 23), li_m2 = (5, 11), li_p = (10, 30), li_p1 = (1, 3),
     li_dot_limit = 270000, li_p2_slow = 10, li_p2_fast = 10, li_find_pll = Find_g4x_best_PLL\<rparr>"

definition intel_limits_g4x_hdmi :: intel_limit where
  "intel_limits_g4x_hdmi = \<lparr>li_dot = (22000, 400000), li_vco = (1750000, 3500000), li_n = (1, 4), li_m = (104, 138),
     li_m1 = (16, 23), li_m2 = (5, 11), li_p = (5, 80), li_p1 = (1, 8),
     li_dot_limit = 165000, li_p2_slow = 10, li_p2_fast = 5, li_find_pll = Find_g4x_best_PLL\<rparr>"

definition intel_limits_g4x_single_channel_lvds :: intel_limit where
  "intel_limits_g4x_single_channel_lvds = \<lparr>li_dot = (20000, 115000), li_vco = (1750000, 3500000), li_n = (1, 3), li_m = (104, 138),
     li_m1 = (17, 23), li_m2 = (5, 11), li_p = (28, 112), li_p1 = (2, 8),
     li_dot_limit = 0, li_p2_slow = 14, li_p2_fast = 14, li_find_pll = Find_g4x_best_PLL\<rparr>"

definition intel_limits_g4x_dual_channel_lvds :: intel_limit where
  "intel_limits_g4x_dual_channel_lvds = \<lparr>li_dot = (80000, 224000), li_vco = (1750000, 3500000), li_n = (1, 3), li_m = (104, 138),
     li_m1 = (17, 23), li_m2 = (5, 11), li_p = (14, 42), li_p1 = (2, 6),
     li_dot_limit = 0, li_p2_slow = 7, li_p2_fast = 7, li_find_pll = Find_g4x_best_PLL\<rparr>"

definition intel_limits_g4x_display_port :: intel_limit where
  "intel_limits_g4x_display_port = \<lparr>li_dot = (161670, 227000), li_vco = (1750000, 3500000), li_n = (1, 2), li_m = (97, 108),
     li_m1 = (16, 18), li_m2 = (5, 6), li_p = (10, 20), li_p1 = (1, 2),
     li_dot_limit = 0, li_p2_slow = 10, li_p2_fast = 10, li_find_pll = Find_pll_g4x_dp\<rparr>"

definition intel_limits_pineview_sdvo :: intel_limit where
  "intel_limits_pineview_sdvo = \<lparr>li_dot = (20000, 400000), li_vco = (1700000, 3500000), li_n = (3, 6), li_m = (2, 256),
     li_m1 = (0, 0), li_m2 = (0, 254), li_p = (5, 80), li_p1 = (1, 8),
     li_dot_limit = 200000, li_p2_slow = 10, li_p2_fast = 5, li_find_pll = Find_best_PLL\<rparr>"

definition intel_limits_pineview_lvds :: intel_limit where
  "intel_limits_pineview_lvds = \<lparr>li_dot = (20000, 400000), li_vco = (1700000, 3500000), li_n = (3, 6), li_m = (2, 256),
     li_m1 = (0, 0), li_m2 = (0, 254), li_p = (7, 112), li_p1 = (1, 8),
     li_dot_limit = 112000, li_p2_slow = 14, li_p2_fast = 14, li_find_pll = Find_best_PLL\<rparr>"

definition intel_limits_ironlake_dac :: intel_limit where
  "intel_limits_ironlake_dac = \<lparr>li_dot = (25000, 350000), li_vco = (1760000, 3510000), li_n = (1, 5), li_m = (79, 127),
     li_m1 = (12, 22), li_m2 = (5, 9), li_p = (5, 80), li_p1 = (1, 8),
     li_dot_limit = 225000, li_p2_slow = 10, li_p2_fast = 5, li_find_pll = Find_g4x_best_PLL\<rparr>"

definition intel_limits_ironlake_single_lvds :: intel_limit where
  "intel_limits_ironlake_single_lvds = \<lparr>li_dot = (25000, 350000), li_vco = (1760000, 3510000), li_n = (1, 3), li_m = (79, 118),
     li_m1 = (12, 22), li_m2 = (5, 9), li_p = (28, 112), li_p1 = (2, 8),
     li_dot_limit = 225000, li_p2_slow = 14, li_p2_fast = 14, li_find_pll = Find_g4x_best_PLL\<rparr>"

definition intel_limits_ironlake_dual_lvds :: intel_limit where
  "intel_limits_ironlake_dual_lvds = \<lparr>li_dot = (25000, 350000), li_vco = (1760000, 3510000), li_n = (1, 3), li_m = (79, 127),
     li_m1 = (12, 22), li_m2 = (5, 9), li_p = (14, 56), li_p1 = (2, 8),
     li_dot_limit = 225000, li_p2_slow = 7, li_p2_fast = 7, li_find_pll = Find_g4x_best_PLL\<rparr>"

definition intel_limits_ironlake_single_lvds_100m :: intel_limit where
  "intel_limits_ironlake_single_lvds_100m = \<lparr>li_dot = (25000, 350000), li_vco = (1760000, 3510000), li_n = (1, 2), li_m = (79, 126),
     li_m1 = (12, 22), li_m2 = (5, 9), li_p = (28, 112), li_p1 = (2, 8),
     li_dot_limit = 225000, li_p2_slow = 14, li_p2_fast = 14, li_find_pll = Find_g4x_best_PLL\<rparr>"

definition intel_limits_ironlake_dual_lvds_100m :: intel_limit where
  "intel_limits_ironlake_dual_lvds_100m = \<lparr>li_dot = (25000, 350000), li_vco = (1760000, 3510000), li_n = (1, 3), li_m = (79, 126),
     li_m1 = (12, 22), li_m2 = (5, 9), li_p = (14, 42), li_p1 = (2, 6),
     li_dot_limit = 225000, li_p2_slow = 7, li_p2_fast = 7, li_find_pll = Find_g4x_best_PLL\<rparr>"

definition intel_limits_ironlake_display_port :: intel_limit where
  "intel_limits_ironlake_display_port = \<lparr>li_dot = (25000, 350000), li_vco = (1760000, 3510000), li_n = (1, 2), li_m = (81, 90),
     li_m1 = (12, 22), li_m2 = (5, 9), li_p = (10, 20), li_p1 = (1, 2),
     li_dot_limit = 0, li_p2_slow = 10, li_p2_fast = 10, li_find_pll = Find_pll_ironlake_dp\<rparr>"

definition intel_limits_vlv_dac :: intel_limit where
  "intel_limits_vlv_dac = \<lparr>li_dot = (25000, 270000), li_vco = (4000000, 6000000), li_n = (1, 7), li_m = (22, 450),
     li_m1 = (2, 3), li_m2 = (11, 156), li_p = (10, 30), li_p1 = (2, 3),
     li_dot_limit = 270000, li_p2_slow = 2, li_p2_fast = 20, li_find_pll = Find_vlv_best_pll\<rparr>"

definition intel_limits_vlv_hdmi :: intel_limit where
  "intel_limits_vlv_hdmi = \<lparr>li_dot = (20000, 165000), li_vco = (4000000, 5994000), li_n = (1, 7), li_m = (60, 300),
     li_m1 = (2, 3), li_m2 = (11, 156), li_p = (10, 30), li_p1 = (2, 3),
     li_dot_limit = 270000, li_p2_slow = 2, li_p2_fast = 20, li_find_pll = Find_vlv_best_pll\<rparr>"

definition intel_limits_vlv_dp :: intel_limit where
  "intel_limits_vlv_dp = \<lparr>li_dot = (25000, 270000), li_vco = (4000000, 6000000), li_n = (1, 7), li_m = (22, 450),
     li_m1 = (2, 3), li_m2 = (11, 156), li_p = (10, 30), li_p1 = (2, 3),
     li_dot_limit = 270000, li_p2_slow = 2, li_p2_fast = 20, li_find_pll = Find_vlv_best_pll\<rparr>"

section \<open>The choice of the limits\<close>

datatype intel_output = INTEL_OUTPUT_UNUSED | INTEL_OUTPUT_ANALOG | INTEL_OUTPUT_DVO | INTEL_OUTPUT_SDVO
  | INTEL_OUTPUT_LVDS | INTEL_OUTPUT_TVOUT | INTEL_OUTPUT_HDMI | INTEL_OUTPUT_DISPLAYPORT | INTEL_OUTPUT_EDP
  | INTEL_OUTPUT_UNKNOWN

text \<open>The device: its kind, the registers, the module option, the match of the machine's name, and the
  two copies of the LVDS register, of which the first is filled in on demand.\<close>

record pll_dev =
  pd_pch_split :: bool
  pd_g4x :: bool
  pd_pineview :: bool
  pd_valleyview :: bool
  pd_gen2 :: bool
  pd_read :: "u32 \<Rightarrow> u32"
  pd_lvds_channel_mode :: int
  pd_dmi_dual_link :: bool
  pd_lvds_val :: u32
  pd_bios_lvds_val :: u32

definition LVDS :: u32 where "LVDS = 0x61180"
definition PCH_LVDS :: u32 where "PCH_LVDS = 0xe1180"
definition LVDS_PIPE_MASK :: u32 where "LVDS_PIPE_MASK = 0x40000000"
definition LVDS_DETECTED :: u32 where "LVDS_DETECTED = 2"
definition LVDS_CLKB_POWER_MASK :: u32 where "LVDS_CLKB_POWER_MASK = 0x30"
definition LVDS_CLKB_POWER_UP :: u32 where "LVDS_CLKB_POWER_UP = 0x30"

text \<open>The types of the encoders of the CRTC.\<close>

definition intel_pipe_has_type :: "intel_output list \<Rightarrow> intel_output \<Rightarrow> bool" where
  "intel_pipe_has_type crtc type \<longleftrightarrow> list_ex (\<lambda>encoder. encoder = type) crtc"

definition is_dual_link_lvds :: "pll_dev \<Rightarrow> u32 \<Rightarrow> bool \<times> pll_dev" where
  "is_dual_link_lvds dev reg =
     (if 0 < pd_lvds_channel_mode dev then (pd_lvds_channel_mode dev = 2, dev)
      else if pd_dmi_dual_link dev then (True, dev)
      else if pd_lvds_val dev \<noteq> 0 then (pd_lvds_val dev AND LVDS_CLKB_POWER_MASK = LVDS_CLKB_POWER_UP, dev)
      else let val = pd_read dev reg;
               val = (if val AND NOT (LVDS_PIPE_MASK OR LVDS_DETECTED) = 0 then pd_bios_lvds_val dev else val)
           in (val AND LVDS_CLKB_POWER_MASK = LVDS_CLKB_POWER_UP, dev\<lparr>pd_lvds_val := val\<rparr>))"

definition intel_ironlake_limit :: "pll_dev \<Rightarrow> intel_output list \<Rightarrow> int \<Rightarrow> intel_limit \<times> pll_dev" where
  "intel_ironlake_limit dev crtc refclk =
     (if intel_pipe_has_type crtc INTEL_OUTPUT_LVDS
      then (case is_dual_link_lvds dev PCH_LVDS of
              (True, dev) \<Rightarrow> (if refclk = 100000 then intel_limits_ironlake_dual_lvds_100m
                              else intel_limits_ironlake_dual_lvds, dev)
            | (False, dev) \<Rightarrow> (if refclk = 100000 then intel_limits_ironlake_single_lvds_100m
                               else intel_limits_ironlake_single_lvds, dev))
      else if intel_pipe_has_type crtc INTEL_OUTPUT_DISPLAYPORT \<or> intel_pipe_has_type crtc INTEL_OUTPUT_EDP
      then (intel_limits_ironlake_display_port, dev)
      else (intel_limits_ironlake_dac, dev))"

definition intel_g4x_limit :: "pll_dev \<Rightarrow> intel_output list \<Rightarrow> intel_limit \<times> pll_dev" where
  "intel_g4x_limit dev crtc =
     (if intel_pipe_has_type crtc INTEL_OUTPUT_LVDS
      then (case is_dual_link_lvds dev LVDS of
              (True, dev) \<Rightarrow> (intel_limits_g4x_dual_channel_lvds, dev)
            | (False, dev) \<Rightarrow> (intel_limits_g4x_single_channel_lvds, dev))
      else if intel_pipe_has_type crtc INTEL_OUTPUT_HDMI \<or> intel_pipe_has_type crtc INTEL_OUTPUT_ANALOG
      then (intel_limits_g4x_hdmi, dev)
      else if intel_pipe_has_type crtc INTEL_OUTPUT_SDVO then (intel_limits_g4x_sdvo, dev)
      else if intel_pipe_has_type crtc INTEL_OUTPUT_DISPLAYPORT then (intel_limits_g4x_display_port, dev)
      else (intel_limits_i9xx_sdvo, dev))"

definition intel_limit_of :: "pll_dev \<Rightarrow> intel_output list \<Rightarrow> int \<Rightarrow> intel_limit \<times> pll_dev" where
  "intel_limit_of dev crtc refclk =
    (let lvds = intel_pipe_has_type crtc INTEL_OUTPUT_LVDS in
     if pd_pch_split dev then intel_ironlake_limit dev crtc refclk
     else if pd_g4x dev then intel_g4x_limit dev crtc
     else if pd_pineview dev then (if lvds then intel_limits_pineview_lvds else intel_limits_pineview_sdvo, dev)
     else if pd_valleyview dev
     then (if intel_pipe_has_type crtc INTEL_OUTPUT_ANALOG then intel_limits_vlv_dac
           else if intel_pipe_has_type crtc INTEL_OUTPUT_HDMI then intel_limits_vlv_hdmi
           else intel_limits_vlv_dp, dev)
     else if \<not> pd_gen2 dev then (if lvds then intel_limits_i9xx_lvds else intel_limits_i9xx_sdvo, dev)
     else (if lvds then intel_limits_i8xx_lvds else intel_limits_i8xx_dvo, dev))"

section \<open>The clock of a set of divisors\<close>

text \<open>\<open>Bug\<close> is the trap of a division by zero.\<close>

definition pineview_clock :: "int \<Rightarrow> intel_clock \<Rightarrow> intel_clock outcome" where
  "pineview_clock refclk c =
     (let m = s32i (ck_m2 c + 2); p = s32i (ck_p1 c * ck_p2 c)
      in if ck_n c = 0 \<or> p = 0 then Bug
         else let vco = s32i (refclk * m) sdiv ck_n c
              in Ok (c\<lparr>ck_m := m, ck_p := p, ck_vco := vco, ck_dot := vco sdiv p\<rparr>))"

definition intel_clock_of :: "bool \<Rightarrow> int \<Rightarrow> intel_clock \<Rightarrow> intel_clock outcome" where
  "intel_clock_of pineview refclk c =
     (if pineview then pineview_clock refclk c
      else let m = s32i (5 * (ck_m1 c + 2) + (ck_m2 c + 2)); p = s32i (ck_p1 c * ck_p2 c)
           in if s32i (ck_n c + 2) = 0 \<or> p = 0 then Bug
              else let vco = s32i (refclk * m) sdiv s32i (ck_n c + 2)
                   in Ok (c\<lparr>ck_m := m, ck_p := p, ck_vco := vco, ck_dot := vco sdiv p\<rparr>))"

definition in_range :: "int \<Rightarrow> int \<times> int \<Rightarrow> bool" where
  "in_range x r \<longleftrightarrow> fst r \<le> x \<and> x \<le> snd r"

definition intel_PLL_is_valid :: "bool \<Rightarrow> intel_limit \<Rightarrow> intel_clock \<Rightarrow> bool" where
  "intel_PLL_is_valid pineview limit c \<longleftrightarrow>
     in_range (ck_p1 c) (li_p1 limit) \<and> in_range (ck_p c) (li_p limit) \<and> in_range (ck_m2 c) (li_m2 limit)
   \<and> in_range (ck_m1 c) (li_m1 limit) \<and> \<not> (ck_m1 c \<le> ck_m2 c \<and> \<not> pineview)
   \<and> in_range (ck_m c) (li_m limit) \<and> in_range (ck_n c) (li_n limit) \<and> in_range (ck_vco c) (li_vco limit)
   \<and> in_range (ck_dot c) (li_dot limit)"

section \<open>The exhaustive search\<close>

text \<open>The second post divisor, from the state of an LVDS that is on or from the target.\<close>

definition p2_of_target :: "intel_limit \<Rightarrow> int \<Rightarrow> int" where
  "p2_of_target limit target = (if target < li_dot_limit limit then li_p2_slow limit else li_p2_fast limit)"

definition best_p2 :: "pll_dev \<Rightarrow> intel_limit \<Rightarrow> intel_output list \<Rightarrow> int \<Rightarrow> int \<times> pll_dev" where
  "best_p2 dev limit crtc target =
     (if intel_pipe_has_type crtc INTEL_OUTPUT_LVDS \<and> pd_read dev LVDS \<noteq> 0
      then (case is_dual_link_lvds dev LVDS of
              (True, dev) \<Rightarrow> (li_p2_fast limit, dev) | (False, dev) \<Rightarrow> (li_p2_slow limit, dev))
      else (p2_of_target limit target, dev))"

text \<open>The error of a clock, and whether the search considers it at all.\<close>

definition clock_err :: "int \<Rightarrow> intel_clock \<Rightarrow> int" where
  "clock_err target c = s32i \<bar>s32i (ck_dot c - target)\<bar>"

definition accepted :: "bool \<Rightarrow> intel_limit \<Rightarrow> intel_clock option \<Rightarrow> intel_clock \<Rightarrow> bool" where
  "accepted pineview limit match_clock c \<longleftrightarrow> intel_PLL_is_valid pineview limit c
     \<and> (case match_clock of None \<Rightarrow> True | Some m \<Rightarrow> ck_p c = ck_p m)"

text \<open>The body of the four loops on the divisors in the order of the loops; the state is the best clock
  and its error.\<close>

fun best_loop ::
    "bool \<Rightarrow> intel_limit \<Rightarrow> int \<Rightarrow> int \<Rightarrow> intel_clock option \<Rightarrow> intel_clock list \<Rightarrow> intel_clock \<times> int \<Rightarrow>
     (intel_clock \<times> int) outcome" where
  "best_loop pineview limit target refclk match_clock [] st = Ok st"
| "best_loop pineview limit target refclk match_clock (d # ds) st =
     (case intel_clock_of pineview refclk d of
        Ok c \<Rightarrow> best_loop pineview limit target refclk match_clock ds
           (if accepted pineview limit match_clock c \<and> clock_err target c < snd st then (c, clock_err target c) else st)
      | Err e \<Rightarrow> Err e | Bug \<Rightarrow> Bug)"

definition divisors :: "int \<Rightarrow> int \<Rightarrow> int \<Rightarrow> int \<Rightarrow> int \<Rightarrow> intel_clock" where
  "divisors n m1 m2 p1 p2 = zero_clock\<lparr>ck_n := n, ck_m1 := m1, ck_m2 := m2, ck_p1 := p1, ck_p2 := p2\<rparr>"

text \<open>The break of the loop on \<open>m2\<close> ends the list of its values.\<close>

definition best_order :: "bool \<Rightarrow> intel_limit \<Rightarrow> int \<Rightarrow> intel_clock list" where
  "best_order pineview limit p2 =
     concat (map (\<lambda>m1. concat (map (\<lambda>m2. concat (map (\<lambda>n. map (\<lambda>p1. divisors n m1 m2 p1 p2)
          [fst (li_p1 limit)..snd (li_p1 limit)]) [fst (li_n limit)..snd (li_n limit)]))
        (takeWhile (\<lambda>m2. \<not> (m1 \<le> m2 \<and> \<not> pineview)) [fst (li_m2 limit)..snd (li_m2 limit)])))
       [fst (li_m1 limit)..snd (li_m1 limit)])"

definition intel_find_best_PLL ::
    "pll_dev \<Rightarrow> intel_limit \<Rightarrow> intel_output list \<Rightarrow> int \<Rightarrow> int \<Rightarrow> intel_clock option \<Rightarrow>
     (bool \<times> intel_clock \<times> pll_dev) outcome" where
  "intel_find_best_PLL dev limit crtc target refclk match_clock =
     (case best_p2 dev limit crtc target of (p2, dev) \<Rightarrow>
        bind_outcome (best_loop (pd_pineview dev) limit target refclk match_clock
                        (best_order (pd_pineview dev) limit p2) (zero_clock, target))
          (\<lambda>st. case st of (best, err) \<Rightarrow> Ok (err \<noteq> target, best, dev)))"

section \<open>The search of G4X and Ironlake\<close>

definition g4x_p2 :: "pll_dev \<Rightarrow> intel_limit \<Rightarrow> intel_output list \<Rightarrow> int \<Rightarrow> int" where
  "g4x_p2 dev limit crtc target =
     (if intel_pipe_has_type crtc INTEL_OUTPUT_LVDS
      then (if pd_read dev (if pd_pch_split dev then PCH_LVDS else LVDS) AND LVDS_CLKB_POWER_MASK = LVDS_CLKB_POWER_UP
            then li_p2_fast limit else li_p2_slow limit)
      else p2_of_target limit target)"

definition g4x_order :: "intel_limit \<Rightarrow> int \<Rightarrow> int \<Rightarrow> intel_clock list" where
  "g4x_order limit p2 n =
     concat (map (\<lambda>m1. concat (map (\<lambda>m2. map (\<lambda>p1. divisors n m1 m2 p1 p2)
          (rev [fst (li_p1 limit)..snd (li_p1 limit)])) (rev [fst (li_m2 limit)..snd (li_m2 limit)])))
       (rev [fst (li_m1 limit)..snd (li_m1 limit)]))"

record g4x_search =
  gs_best :: intel_clock
  gs_err_most :: int
  gs_max_n :: int
  gs_found :: bool

fun g4x_loop ::
    "bool \<Rightarrow> intel_limit \<Rightarrow> int \<Rightarrow> int \<Rightarrow> intel_clock option \<Rightarrow> intel_clock list \<Rightarrow> g4x_search \<Rightarrow> g4x_search outcome" where
  "g4x_loop pineview limit target refclk match_clock [] st = Ok st"
| "g4x_loop pineview limit target refclk match_clock (d # ds) st =
     (case intel_clock_of pineview refclk d of
        Ok c \<Rightarrow> g4x_loop pineview limit target refclk match_clock ds
           (if accepted pineview limit match_clock c \<and> clock_err target c < gs_err_most st
            then \<lparr>gs_best = c, gs_err_most = clock_err target c, gs_max_n = ck_n c, gs_found = True\<rparr> else st)
      | Err e \<Rightarrow> Err e | Bug \<Rightarrow> Bug)"

text \<open>The outer loop: its bound is lowered to the \<open>n\<close> of the best clock so far.\<close>

fun g4x_rows ::
    "bool \<Rightarrow> intel_limit \<Rightarrow> int \<Rightarrow> int \<Rightarrow> intel_clock option \<Rightarrow> int \<Rightarrow> int list \<Rightarrow> g4x_search \<Rightarrow> g4x_search outcome" where
  "g4x_rows pineview limit target refclk match_clock p2 [] st = Ok st"
| "g4x_rows pineview limit target refclk match_clock p2 (n # ns) st =
     (if gs_max_n st < n then Ok st
      else case g4x_loop pineview limit target refclk match_clock (g4x_order limit p2 n) st of
             Ok st \<Rightarrow> g4x_rows pineview limit target refclk match_clock p2 ns st | Err e \<Rightarrow> Err e | Bug \<Rightarrow> Bug)"

definition intel_g4x_find_best_PLL ::
    "pll_dev \<Rightarrow> intel_limit \<Rightarrow> intel_output list \<Rightarrow> int \<Rightarrow> int \<Rightarrow> intel_clock option \<Rightarrow>
     (bool \<times> intel_clock) outcome" where
  "intel_g4x_find_best_PLL dev limit crtc target refclk match_clock =
     bind_outcome (g4x_rows (pd_pineview dev) limit target refclk match_clock (g4x_p2 dev limit crtc target)
         [fst (li_n limit)..snd (li_n limit)]
         \<lparr>gs_best = zero_clock, gs_err_most = s32i (drop_bit 8 target + drop_bit 9 target), gs_max_n = snd (li_n limit), gs_found = False\<rparr>)
       (\<lambda>st. Ok (gs_found st, gs_best st))"

section \<open>DisplayPort\<close>

definition intel_find_pll_ironlake_dp :: "bool \<Rightarrow> int \<Rightarrow> int \<Rightarrow> (bool \<times> intel_clock) outcome" where
  "intel_find_pll_ironlake_dp pineview target refclk =
     bind_outcome (intel_clock_of pineview refclk
         (if target < 200000 then divisors 1 12 9 2 10 else divisors 2 14 8 1 10)) (\<lambda>c. Ok (True, c))"

definition intel_find_pll_g4x_dp :: "int \<Rightarrow> bool \<times> intel_clock" where
  "intel_find_pll_g4x_dp target =
     (let c = (if target < 200000 then divisors 2 23 8 2 10 else divisors 1 14 2 1 10);
          m = 5 * (ck_m1 c + 2) + (ck_m2 c + 2);
          p = ck_p1 c * ck_p2 c
      in (True, c\<lparr>ck_m := m, ck_p := p, ck_dot := 96000 * m sdiv (ck_n c + 2) sdiv p, ck_vco := 0\<rparr>))"

section \<open>Valleyview\<close>

text \<open>The divisors and the error of the best candidate; all are unsigned.  The errors are unsigned long.\<close>

record vlv_search =
  vs_n :: int
  vs_m1 :: int
  vs_m2 :: int
  vs_p1 :: int
  vs_p2 :: int
  vs_ppm :: int

definition u64i :: "int \<Rightarrow> int" where "u64i x = x mod 2 ^ 64"

definition vlv_candidate ::
    "intel_limit \<Rightarrow> int \<Rightarrow> int \<Rightarrow> int \<times> int \<times> int \<times> int \<Rightarrow> vlv_search \<Rightarrow> vlv_search outcome" where
  "vlv_candidate limit fastclk refclk d st =
     (case d of (n, p1, p2, m1) \<Rightarrow>
      let updrate = u32i refclk div n; p = u32i (p1 * p2);
          den = u32i (s32i (2 * refclk))
      in if n = 0 \<or> m1 = 0 \<or> den = 0 then Bug
         else let m2 = u32i (u32i (2 * (u32i (fastclk * p * n) div m1)) + u32i refclk) div den;
                  m = u32i (m1 * m2);
                  vco = u32i (updrate * m)
              in if \<not> (u32i (fst (li_vco limit)) \<le> vco \<and> vco < u32i (snd (li_vco limit))) then Ok st
                 else if p = 0 \<or> fastclk = 0 then Bug
                 else let absppm = u32i (1000000 * u32i (vco div p - fastclk)) div fastclk;
                          hit = (absppm < 100 \<and> u32i (vs_p1 st * vs_p2 st) < p);
                          bestppm = (if hit then 0 else vs_ppm st);
                          better = (absppm < u64i (bestppm - 10));
                          bestppm = (if better then absppm else bestppm)
                      in Ok (if hit \<or> better
                             then \<lparr>vs_n = n, vs_m1 = m1, vs_m2 = m2, vs_p1 = p1, vs_p2 = p2, vs_ppm = bestppm\<rparr>
                             else st\<lparr>vs_ppm := bestppm\<rparr>))"

fun vlv_loop :: "intel_limit \<Rightarrow> int \<Rightarrow> int \<Rightarrow> (int \<times> int \<times> int \<times> int) list \<Rightarrow> vlv_search \<Rightarrow> vlv_search outcome" where
  "vlv_loop limit fastclk refclk [] st = Ok st"
| "vlv_loop limit fastclk refclk (d # ds) st =
     (case vlv_candidate limit fastclk refclk d st of
        Ok st \<Rightarrow> vlv_loop limit fastclk refclk ds st | Err e \<Rightarrow> Err e | Bug \<Rightarrow> Bug)"

text \<open>The values of \<open>p2\<close>: above ten it steps by two.\<close>

fun vlv_p2s :: "nat \<Rightarrow> int list" where
  "vlv_p2s 0 = []"
| "vlv_p2s (Suc k) = (if 10 < Suc k then int k # vlv_p2s (k - 1) else int (Suc k) # vlv_p2s k)"

definition vlv_order :: "intel_limit \<Rightarrow> int \<Rightarrow> (int \<times> int \<times> int \<times> int) list" where
  "vlv_order limit refclk =
     concat (map (\<lambda>n. concat (map (\<lambda>p1. concat (map (\<lambda>p2. map (\<lambda>m1. (n, p1, p2, m1))
            [fst (li_m1 limit)..snd (li_m1 limit)]) (vlv_p2s (nat (li_p2_fast limit + 1)))))
          (rev [fst (li_p1 limit) + 1..snd (li_p1 limit)])))
       [fst (li_n limit)..u32i refclk div 19200])"

definition intel_vlv_find_best_pll :: "intel_limit \<Rightarrow> int \<Rightarrow> int \<Rightarrow> intel_clock \<Rightarrow> (bool \<times> intel_clock) outcome" where
  "intel_vlv_find_best_pll limit target refclk best_clock =
     (let dotclk = s32i (target * 1000); fastclk = u32i (dotclk sdiv 200)
      in bind_outcome (vlv_loop limit fastclk refclk (vlv_order limit refclk)
           \<lparr>vs_n = 0, vs_m1 = 0, vs_m2 = 0, vs_p1 = 0, vs_p2 = 0, vs_ppm = 1000000\<rparr>) (\<lambda>st.
         Ok (True, best_clock\<lparr>ck_n := vs_n st, ck_m1 := vs_m1 st, ck_m2 := vs_m2 st, ck_p1 := vs_p1 st, ck_p2 := vs_p2 st\<rparr>)))"

text \<open>\<^verbatim>\<open>limit->find_pll\<close>.\<close>

definition run_find_pll ::
    "pll_dev \<Rightarrow> intel_limit \<Rightarrow> intel_output list \<Rightarrow> int \<Rightarrow> int \<Rightarrow> intel_clock option \<Rightarrow> intel_clock \<Rightarrow>
     (bool \<times> intel_clock \<times> pll_dev) outcome" where
  "run_find_pll dev limit crtc target refclk match_clock best_clock =
     (case li_find_pll limit of
        Find_best_PLL \<Rightarrow> intel_find_best_PLL dev limit crtc target refclk match_clock
      | Find_g4x_best_PLL \<Rightarrow> bind_outcome (intel_g4x_find_best_PLL dev limit crtc target refclk match_clock) (\<lambda>(r, c). Ok (r, c, dev))
      | Find_pll_g4x_dp \<Rightarrow> (case intel_find_pll_g4x_dp target of (r, c) \<Rightarrow> Ok (r, c, dev))
      | Find_pll_ironlake_dp \<Rightarrow> bind_outcome (intel_find_pll_ironlake_dp (pd_pineview dev) target refclk) (\<lambda>(r, c). Ok (r, c, dev))
      | Find_vlv_best_pll \<Rightarrow> bind_outcome (intel_vlv_find_best_pll limit target refclk best_clock) (\<lambda>(r, c). Ok (r, c, dev)))"

end
