(* ===== verification/Intel_Pll_Claims.thy ===== *)
theory Intel_Pll_Claims
  imports Intel_Pll
begin

text \<open>
  The searches for PLL divisors against the set of all clocks the limits allow: the search of the older
  chips finds a clock of least error, the one of G4X a clock of least \<open>n\<close> and then of least error.
\<close>

section \<open>The allowed clocks\<close>

definition pll_choices :: "bool \<Rightarrow> intel_limit \<Rightarrow> intel_clock option \<Rightarrow> int \<Rightarrow> int \<Rightarrow> intel_clock set" where
  "pll_choices pineview limit match_clock refclk p2 =
     {c. (\<exists>n m1 m2 p1. intel_clock_of pineview refclk (divisors n m1 m2 p1 p2) = Ok c) \<and> accepted pineview limit match_clock c}"

text \<open>What the searches need of the limits: the divisors that divide are positive, none is large.\<close>

definition limit_small :: "intel_limit \<Rightarrow> bool" where
  "limit_small limit \<longleftrightarrow> 1 \<le> fst (li_p1 limit) \<and> snd (li_p1 limit) \<le> 1000 \<and> 1 \<le> fst (li_n limit) \<and> snd (li_n limit) \<le> 1000
     \<and> 1 \<le> li_p2_slow limit \<and> li_p2_slow limit \<le> 1000 \<and> 1 \<le> li_p2_fast limit \<and> li_p2_fast limit \<le> 1000"

lemma all_limits_small:
  "\<forall>limit \<in> {intel_limits_i8xx_dvo, intel_limits_i8xx_lvds, intel_limits_i9xx_sdvo, intel_limits_i9xx_lvds,
     intel_limits_g4x_sdvo, intel_limits_g4x_hdmi, intel_limits_g4x_single_channel_lvds,
     intel_limits_g4x_dual_channel_lvds, intel_limits_pineview_sdvo, intel_limits_pineview_lvds,
     intel_limits_ironlake_dac, intel_limits_ironlake_single_lvds, intel_limits_ironlake_dual_lvds,
     intel_limits_ironlake_single_lvds_100m, intel_limits_ironlake_dual_lvds_100m}. limit_small limit"
  by (simp add: limit_small_def intel_limits_i8xx_dvo_def intel_limits_i8xx_lvds_def intel_limits_i9xx_sdvo_def
      intel_limits_i9xx_lvds_def intel_limits_g4x_sdvo_def intel_limits_g4x_hdmi_def
      intel_limits_g4x_single_channel_lvds_def intel_limits_g4x_dual_channel_lvds_def intel_limits_pineview_sdvo_def
      intel_limits_pineview_lvds_def intel_limits_ironlake_dac_def intel_limits_ironlake_single_lvds_def
      intel_limits_ironlake_dual_lvds_def intel_limits_ironlake_single_lvds_100m_def
      intel_limits_ironlake_dual_lvds_100m_def)

lemma divisors_sel [simp]:
  "ck_n (divisors n m1 m2 p1 p2) = n" "ck_m1 (divisors n m1 m2 p1 p2) = m1" "ck_m2 (divisors n m1 m2 p1 p2) = m2"
  "ck_p1 (divisors n m1 m2 p1 p2) = p1" "ck_p2 (divisors n m1 m2 p1 p2) = p2"
  by (simp_all add: divisors_def)

lemma clock_of_sel:
  "intel_clock_of pv refclk d = Ok c \<Longrightarrow>
   ck_n c = ck_n d \<and> ck_m1 c = ck_m1 d \<and> ck_m2 c = ck_m2 d \<and> ck_p1 c = ck_p1 d \<and> ck_p2 c = ck_p2 d"
  by (auto simp: intel_clock_of_def pineview_clock_def Let_def split: if_splits)

lemma clock_of_Ok:
  assumes "1 \<le> ck_n d" "ck_n d \<le> 1000" "1 \<le> ck_p1 d" "ck_p1 d \<le> 1000" "1 \<le> ck_p2 d" "ck_p2 d \<le> 1000"
  shows "\<exists>c. intel_clock_of pv refclk d = Ok c"
proof -
  have "1 \<le> ck_p1 d * ck_p2 d" "ck_p1 d * ck_p2 d \<le> 1000 * 1000"
    using mult_mono [of 1 "ck_p1 d" 1 "ck_p2 d"] mult_mono [of "ck_p1 d" 1000 "ck_p2 d" 1000] assms by simp_all
  then have "s32i (ck_p1 d * ck_p2 d) = ck_p1 d * ck_p2 d" by (simp add: s32i_id)
  then have p: "s32i (ck_p1 d * ck_p2 d) \<noteq> 0" using \<open>1 \<le> ck_p1 d * ck_p2 d\<close> by linarith
  have "s32i (ck_n d + 2) \<noteq> 0" using assms by (simp add: s32i_id)
  then show ?thesis using p assms by (auto simp: intel_clock_of_def pineview_clock_def Let_def)
qed

text \<open>The clocks of a list of divisors.\<close>

definition clocks :: "bool \<Rightarrow> int \<Rightarrow> intel_clock list \<Rightarrow> intel_clock set" where
  "clocks pv refclk ds = {c. \<exists>d \<in> set ds. intel_clock_of pv refclk d = Ok c}"

lemma clocks_simps [simp]:
  "clocks pv refclk [] = {}"
  "intel_clock_of pv refclk d = Ok c \<Longrightarrow> clocks pv refclk (d # ds) = insert c (clocks pv refclk ds)"
  by (auto simp: clocks_def)

section \<open>The loops find a least error\<close>

definition least :: "('a \<Rightarrow> int) \<Rightarrow> 'a set \<Rightarrow> 'a \<Rightarrow> bool" where
  "least f A x \<longleftrightarrow> x \<in> A \<and> (\<forall>y \<in> A. f x \<le> f y)"

text \<open>From the best element \<open>b\<close> with error \<open>e\<close>, a search over \<open>A\<close> arrives at \<open>b'\<close> with \<open>e'\<close>.\<close>

definition improves :: "('a \<Rightarrow> int) \<Rightarrow> 'a set \<Rightarrow> 'a \<Rightarrow> int \<Rightarrow> 'a \<Rightarrow> int \<Rightarrow> bool" where
  "improves f A b e b' e' \<longleftrightarrow>
     (if \<exists>c \<in> A. f c < e then least f A b' \<and> e' = f b' \<and> e' < e else b' = b \<and> e' = e)"

lemma improves_empty [simp]: "improves f {} b e b e"
  by (simp add: improves_def)

lemma improves_take:
  assumes "f c < e" and i: "improves f A c (f c) b' e'"
  shows "improves f (insert c A) b e b' e'"
proof (cases "\<exists>x \<in> A. f x < f c")
  case True
  then have "least f A b'" "e' = f b'" "e' < f c" using i by (auto simp: improves_def)
  then show ?thesis using assms(1) by (auto simp: improves_def least_def)
next
  case False
  then have "b' = c" "e' = f c" using i by (auto simp: improves_def)
  then show ?thesis using assms(1) False by (auto simp: improves_def least_def not_less)
qed

lemma improves_skip:
  assumes "\<not> f c < e" and i: "improves f A b e b' e'"
  shows "improves f (insert c A) b e b' e'"
proof (cases "\<exists>x \<in> A. f x < e")
  case True
  then have "least f A b'" "e' = f b'" "e' < e" using i by (auto simp: improves_def)
  then show ?thesis using assms(1) True by (auto simp: improves_def least_def)
next
  case False
  then have "b' = b" "e' = e" using i by (auto simp: improves_def)
  then show ?thesis using assms(1) False by (auto simp: improves_def)
qed

definition allowed :: "bool \<Rightarrow> intel_limit \<Rightarrow> intel_clock option \<Rightarrow> int \<Rightarrow> intel_clock list \<Rightarrow> intel_clock set" where
  "allowed pv limit mc refclk ds = {c \<in> clocks pv refclk ds. accepted pv limit mc c}"

lemma allowed_simps:
  "allowed pv limit mc refclk [] = {}"
  "intel_clock_of pv refclk d = Ok c \<Longrightarrow> allowed pv limit mc refclk (d # ds) =
     (if accepted pv limit mc c then insert c (allowed pv limit mc refclk ds) else allowed pv limit mc refclk ds)"
  by (auto simp: allowed_def)

lemma best_loop_least:
  assumes "\<forall>d \<in> set ds. \<exists>c. intel_clock_of pv refclk d = Ok c"
  shows "\<exists>b' e'. best_loop pv limit target refclk mc ds (b, e) = Ok (b', e')
    \<and> improves (clock_err target) (allowed pv limit mc refclk ds) b e b' e'"
  using assms
proof (induction ds arbitrary: b e)
  case (Cons d ds)
  from Cons.prems obtain c where c: "intel_clock_of pv refclk d = Ok c" by auto
  from Cons.prems have ok: "\<forall>d \<in> set ds. \<exists>c. intel_clock_of pv refclk d = Ok c" by simp
  show ?case
  proof (cases "accepted pv limit mc c \<and> clock_err target c < e")
    case True
    then show ?thesis
      using Cons.IH [OF ok, of c "clock_err target c"] c by (auto simp: allowed_simps(2) [OF c] intro: improves_take)
  next
    case False
    then show ?thesis
      using Cons.IH [OF ok, of b e] c by (auto simp: allowed_simps(2) [OF c] intro: improves_skip)
  qed
qed (simp add: allowed_simps)

lemma g4x_loop_least:
  assumes "\<forall>d \<in> set ds. ck_n d = n \<and> (\<exists>c. intel_clock_of pv refclk d = Ok c)"
  shows "\<exists>st'. g4x_loop pv limit target refclk mc ds st = Ok st'
    \<and> improves (clock_err target) (allowed pv limit mc refclk ds) (gs_best st) (gs_err_most st) (gs_best st') (gs_err_most st')
    \<and> (st' = st \<or> gs_max_n st' = n \<and> gs_found st' \<and> gs_err_most st' < gs_err_most st)"
  using assms
proof (induction ds arbitrary: st)
  case (Cons d ds)
  from Cons.prems obtain c where c: "intel_clock_of pv refclk d = Ok c" and n: "ck_n c = n"
    using clock_of_sel by auto
  from Cons.prems have ok: "\<forall>d \<in> set ds. ck_n d = n \<and> (\<exists>c. intel_clock_of pv refclk d = Ok c)" by simp
  show ?case
  proof (cases "accepted pv limit mc c \<and> clock_err target c < gs_err_most st")
    case True
    then show ?thesis
      using Cons.IH [OF ok, of "\<lparr>gs_best = c, gs_err_most = clock_err target c, gs_max_n = ck_n c, gs_found = True\<rparr>"] c n
      by (auto simp: allowed_simps(2) [OF c] intro: improves_take)
  next
    case False
    then show ?thesis
      using Cons.IH [OF ok, of st] c by (auto simp: allowed_simps(2) [OF c] intro: improves_skip)
  qed
qed (simp add: allowed_simps)

section \<open>The loops run over all allowed clocks\<close>

lemma takeWhile_upto: "set (takeWhile (\<lambda>x. x < m) [a..b]) = {x. a \<le> x \<and> x \<le> b \<and> x < (m :: int)}"
proof (induction a b rule: upto.induct)
  case (1 a b)
  show ?case
  proof (cases "a \<le> b")
    case True
    have e: "[a..b] = a # [a + 1..b]" by (rule upto_rec1 [OF True])
    have "set (takeWhile (\<lambda>x. x < m) [a + 1..b]) = {x. a + 1 \<le> x \<and> x \<le> b \<and> x < m}" by (rule 1 [OF True])
    then have "set (takeWhile (\<lambda>x. x < m) [a..b]) = (if a < m then insert a {x. a + 1 \<le> x \<and> x \<le> b \<and> x < m} else {})"
      by (simp only: e takeWhile.simps) auto
    also have "\<dots> = {x. a \<le> x \<and> x \<le> b \<and> x < m}" using True by auto
    finally show ?thesis .
  qed simp
qed

lemma set_best_order:
  "set (best_order pv limit p2) = {d. \<exists>n m1 m2 p1. d = divisors n m1 m2 p1 p2 \<and> in_range n (li_n limit)
     \<and> in_range m1 (li_m1 limit) \<and> in_range m2 (li_m2 limit) \<and> in_range p1 (li_p1 limit) \<and> (pv \<or> m2 < m1)}"
proof -
  have t: "set (takeWhile (\<lambda>m2. \<not> (m1 \<le> m2 \<and> \<not> pv)) [a..b]) = {x. a \<le> x \<and> x \<le> b \<and> (pv \<or> x < m1)}" for a b m1 :: int
    by (cases pv) (auto simp: takeWhile_upto not_le takeWhile_eq_all_conv [THEN iffD2])
  show ?thesis
    unfolding best_order_def set_concat set_map UN_simps image_image t set_upto in_range_def by fastforce
qed

lemma set_g4x_order:
  "set (g4x_order limit p2 n) = {d. \<exists>m1 m2 p1. d = divisors n m1 m2 p1 p2
     \<and> in_range m1 (li_m1 limit) \<and> in_range m2 (li_m2 limit) \<and> in_range p1 (li_p1 limit)}"
  unfolding g4x_order_def set_concat set_map UN_simps image_image set_rev set_upto in_range_def by fastforce

lemma allowed_best_order: "allowed pv limit mc refclk (best_order pv limit p2) = pll_choices pv limit mc refclk p2"
proof -
  have "(\<exists>n m1 m2 p1. intel_clock_of pv refclk (divisors n m1 m2 p1 p2) = Ok c) \<and> accepted pv limit mc c \<longleftrightarrow>
      (\<exists>d \<in> set (best_order pv limit p2). intel_clock_of pv refclk d = Ok c) \<and> accepted pv limit mc c" for c
  proof
    assume a: "(\<exists>n m1 m2 p1. intel_clock_of pv refclk (divisors n m1 m2 p1 p2) = Ok c) \<and> accepted pv limit mc c"
    then obtain n m1 m2 p1 where c: "intel_clock_of pv refclk (divisors n m1 m2 p1 p2) = Ok c" by auto
    from clock_of_sel [OF c] a have "divisors n m1 m2 p1 p2 \<in> set (best_order pv limit p2)"
      by (auto simp: set_best_order accepted_def intel_PLL_is_valid_def not_le)
    then show "(\<exists>d \<in> set (best_order pv limit p2). intel_clock_of pv refclk d = Ok c) \<and> accepted pv limit mc c"
      using a c by blast
  qed (auto simp: set_best_order)
  then show ?thesis by (simp add: allowed_def clocks_def pll_choices_def)
qed

lemma allowed_g4x_order:
  assumes "in_range n (li_n limit)"
  shows "allowed pv limit mc refclk (g4x_order limit p2 n) = {c \<in> pll_choices pv limit mc refclk p2. ck_n c = n}"
proof -
  have "(\<exists>d \<in> set (g4x_order limit p2 n). intel_clock_of pv refclk d = Ok c) \<and> accepted pv limit mc c \<longleftrightarrow>
      (\<exists>n m1 m2 p1. intel_clock_of pv refclk (divisors n m1 m2 p1 p2) = Ok c) \<and> accepted pv limit mc c \<and> ck_n c = n" for c
  proof
    assume a: "(\<exists>n m1 m2 p1. intel_clock_of pv refclk (divisors n m1 m2 p1 p2) = Ok c) \<and> accepted pv limit mc c \<and> ck_n c = n"
    then obtain n' m1 m2 p1 where c: "intel_clock_of pv refclk (divisors n' m1 m2 p1 p2) = Ok c" by auto
    from clock_of_sel [OF c] a have n: "n' = n" and "divisors n m1 m2 p1 p2 \<in> set (g4x_order limit p2 n)"
      by (auto simp: set_g4x_order accepted_def intel_PLL_is_valid_def)
    then show "(\<exists>d \<in> set (g4x_order limit p2 n). intel_clock_of pv refclk d = Ok c) \<and> accepted pv limit mc c"
      using a c by blast
  next
    assume a: "(\<exists>d \<in> set (g4x_order limit p2 n). intel_clock_of pv refclk d = Ok c) \<and> accepted pv limit mc c"
    then obtain m1 m2 p1 where c: "intel_clock_of pv refclk (divisors n m1 m2 p1 p2) = Ok c" by (auto simp: set_g4x_order)
    then show "(\<exists>n m1 m2 p1. intel_clock_of pv refclk (divisors n m1 m2 p1 p2) = Ok c) \<and> accepted pv limit mc c \<and> ck_n c = n"
      using a clock_of_sel [OF c] by auto
  qed
  then show ?thesis by (auto simp: allowed_def clocks_def pll_choices_def)
qed

section \<open>Termination and success of the searches\<close>

lemma best_p2_small:
  assumes "limit_small limit"
  shows "1 \<le> fst (best_p2 dev limit crtc target) \<and> fst (best_p2 dev limit crtc target) \<le> 1000"
    "pd_pineview (snd (best_p2 dev limit crtc target)) = pd_pineview dev"
  using assms by (auto simp: best_p2_def p2_of_target_def limit_small_def is_dual_link_lvds_def Let_def split: bool.splits prod.splits if_splits)

lemma g4x_p2_small:
  "limit_small limit \<Longrightarrow> 1 \<le> g4x_p2 dev limit crtc target \<and> g4x_p2 dev limit crtc target \<le> 1000"
  by (auto simp: g4x_p2_def p2_of_target_def limit_small_def)

lemma order_Ok:
  assumes "limit_small limit" "1 \<le> p2" "p2 \<le> 1000"
  shows "\<forall>d \<in> set (best_order pv limit p2). \<exists>c. intel_clock_of pv refclk d = Ok c"
    "in_range n (li_n limit) \<Longrightarrow> \<forall>d \<in> set (g4x_order limit p2 n). ck_n d = n \<and> (\<exists>c. intel_clock_of pv refclk d = Ok c)"
  using assms by (auto simp: set_best_order set_g4x_order limit_small_def in_range_def intro!: clock_of_Ok)

text \<open>The rows from an unsuccessful state on: the first row with a clock below the bound decides.\<close>

definition first_row :: "(int \<Rightarrow> intel_clock set) \<Rightarrow> int \<Rightarrow> int \<Rightarrow> int list \<Rightarrow> g4x_search \<Rightarrow> g4x_search \<Rightarrow> bool" where
  "first_row A target e ns st st' \<longleftrightarrow>
     (if \<exists>n \<in> set ns. \<exists>c \<in> A n. clock_err target c < e
      then gs_found st' \<and> gs_max_n st' \<in> set ns \<and> least (clock_err target) (A (gs_max_n st')) (gs_best st')
         \<and> clock_err target (gs_best st') < e
         \<and> (\<forall>n \<in> set ns. n < gs_max_n st' \<longrightarrow> (\<forall>c \<in> A n. \<not> clock_err target c < e))
      else st' = st)"

lemma first_row_hit:
  "\<exists>n \<in> set ns. \<exists>c \<in> A n. clock_err target c < e \<Longrightarrow> first_row A target e ns st st' \<longleftrightarrow>
     gs_found st' \<and> gs_max_n st' \<in> set ns \<and> least (clock_err target) (A (gs_max_n st')) (gs_best st')
     \<and> clock_err target (gs_best st') < e
     \<and> (\<forall>n \<in> set ns. n < gs_max_n st' \<longrightarrow> (\<forall>c \<in> A n. \<not> clock_err target c < e))"
  unfolding first_row_def by (simp only: if_True)

lemma first_row_miss:
  "\<not> (\<exists>n \<in> set ns. \<exists>c \<in> A n. clock_err target c < e) \<Longrightarrow> first_row A target e ns st st' \<longleftrightarrow> st' = st"
  unfolding first_row_def by (simp only: if_False)

lemma first_row_skip:
  assumes "\<forall>c \<in> A n. \<not> clock_err target c < e" and f: "first_row A target e ns st st'"
  shows "first_row A target e (n # ns) st st'"
proof (cases "\<exists>k \<in> set ns. \<exists>c \<in> A k. clock_err target c < e")
  case True
  then have "\<exists>k \<in> set (n # ns). \<exists>c \<in> A k. clock_err target c < e" by auto
  then show ?thesis using f assms(1) unfolding first_row_hit [OF True] by (subst first_row_hit) auto
next
  case False
  then have "\<not> (\<exists>k \<in> set (n # ns). \<exists>c \<in> A k. clock_err target c < e)" using assms(1) by auto
  then show ?thesis using f unfolding first_row_miss [OF False] by (subst first_row_miss) auto
qed

lemma g4x_rows_first:
  assumes "\<forall>n \<in> set ns. in_range n (li_n limit)" "limit_small limit" "1 \<le> p2" "p2 \<le> 1000"
    and "sorted_wrt (<) ns" "\<forall>n \<in> set ns. n \<le> gs_max_n st" "\<not> gs_found st"
  shows "\<exists>st'. g4x_rows pv limit target refclk mc p2 ns st = Ok st'
    \<and> first_row (\<lambda>n. {c \<in> pll_choices pv limit mc refclk p2. ck_n c = n}) target (gs_err_most st) ns st st'"
  using assms
proof (induction ns)
  case (Cons n ns)
  define A where "A = (\<lambda>n. {c \<in> pll_choices pv limit mc refclk p2. ck_n c = n})"
  have n: "in_range n (li_n limit)" using Cons.prems by simp
  obtain st1 where s: "g4x_loop pv limit target refclk mc (g4x_order limit p2 n) st = Ok st1"
    and i: "improves (clock_err target) (A n) (gs_best st) (gs_err_most st) (gs_best st1) (gs_err_most st1)"
    and r: "st1 = st \<or> gs_max_n st1 = n \<and> gs_found st1 \<and> gs_err_most st1 < gs_err_most st"
    using g4x_loop_least [OF order_Ok(2) [OF Cons.prems(2-4) n], where limit = limit and target = target and mc = mc and st = st and refclk = refclk]
    by (auto simp: allowed_g4x_order [OF n] A_def)
  show ?case
  proof (cases "\<exists>c \<in> A n. clock_err target c < gs_err_most st")
    case True
    then have l: "least (clock_err target) (A n) (gs_best st1)" "gs_err_most st1 = clock_err target (gs_best st1)"
      "gs_err_most st1 < gs_err_most st" using i by (auto simp: improves_def)
    then have m: "gs_max_n st1 = n" "gs_found st1" using r by auto
    have "g4x_rows pv limit target refclk mc p2 ns st1 = Ok st1"
      using Cons.prems(5) m by (cases ns) auto
    then have "g4x_rows pv limit target refclk mc p2 (n # ns) st = Ok st1"
      using s Cons.prems(6) by (simp add: not_less)
    moreover have "\<forall>k \<in> set (n # ns). \<not> k < n" using Cons.prems(5) by auto
    then have "first_row A target (gs_err_most st) (n # ns) st st1"
      using l m True by (subst first_row_hit) auto
    ultimately show ?thesis unfolding A_def by blast
  next
    case False
    then have "gs_err_most st1 = gs_err_most st" using i by (auto simp: improves_def)
    then have st: "st1 = st" using r by auto
    have "\<exists>st'. g4x_rows pv limit target refclk mc p2 ns st = Ok st' \<and> first_row A target (gs_err_most st) ns st st'"
      unfolding A_def using Cons.prems by (intro Cons.IH) auto
    then obtain st' where st': "g4x_rows pv limit target refclk mc p2 ns st = Ok st'" "first_row A target (gs_err_most st) ns st st'"
      by auto
    have "first_row A target (gs_err_most st) (n # ns) st st'"
      using st'(2) False by (intro first_row_skip) auto
    moreover have "g4x_rows pv limit target refclk mc p2 (n # ns) st = Ok st'"
      using s st st'(1) Cons.prems(6) by (simp add: not_less)
    ultimately show ?thesis unfolding A_def by blast
  qed
qed (simp add: first_row_def)

section \<open>The properties\<close>

text \<open>C29: The search for PLL divisors on the chips before G4X ends without a trap and is an exhaustive
  minimisation: it succeeds exactly when a clock that the limits allow (for the chosen second post
  divisor, and with the post divisor of the clock to match, if any) is nearer to the target than the
  target itself, and then its result is allowed and no allowed clock is nearer; the early end of the
  loop on \<open>m2\<close> loses no clock.\<close>

theorem find_best_PLL_optimal:
  assumes "limit_small limit"
  shows "\<exists>found best dev'. intel_find_best_PLL dev limit crtc target refclk match_clock = Ok (found, best, dev')
    \<and> (let A = pll_choices (pd_pineview dev) limit match_clock refclk (fst (best_p2 dev limit crtc target))
       in (found \<longleftrightarrow> (\<exists>c \<in> A. clock_err target c < target))
        \<and> (if found then best \<in> A \<and> (\<forall>c \<in> A. clock_err target best \<le> clock_err target c) else best = zero_clock))"
proof -
  obtain p2 dev' where p: "best_p2 dev limit crtc target = (p2, dev')" by (cases "best_p2 dev limit crtc target")
  then have small: "1 \<le> p2" "p2 \<le> 1000" and pv: "pd_pineview dev' = pd_pineview dev"
    using best_p2_small [OF assms, of dev crtc target] by auto
  obtain b e where l: "best_loop (pd_pineview dev) limit target refclk match_clock
      (best_order (pd_pineview dev) limit p2) (zero_clock, target) = Ok (b, e)"
    and i: "improves (clock_err target) (pll_choices (pd_pineview dev) limit match_clock refclk p2) zero_clock target b e"
    using best_loop_least [OF order_Ok(1) [OF assms small], where pv = "pd_pineview dev" and limit = limit
        and target = target and mc = match_clock and b = zero_clock and e = target and refclk = refclk]
    by (auto simp: allowed_best_order)
  show ?thesis
    using l i by (auto simp: intel_find_best_PLL_def p pv improves_def least_def split: if_splits)
qed

definition example_pll_dev :: pll_dev where
  "example_pll_dev = \<lparr>pd_pch_split = False, pd_g4x = False, pd_pineview = False, pd_valleyview = False, pd_gen2 = False,
     pd_read = (\<lambda>_. 0), pd_lvds_channel_mode = 0, pd_dmi_dual_link = False, pd_lvds_val = 0, pd_bios_lvds_val = 0\<rparr>"

theorem find_best_PLL_optimal_witness:
  "\<exists>best dev'. intel_find_best_PLL example_pll_dev intel_limits_i9xx_sdvo [] 108000 96000 None = Ok (True, best, dev')
     \<and> clock_err 108000 best \<le> 0"
proof -
  let ?A = "pll_choices False intel_limits_i9xx_sdvo None 96000 10"
  have c: "intel_clock_of False 96000 (divisors 2 15 3 2 10)
      = Ok \<lparr>ck_n = 2, ck_m1 = 15, ck_m2 = 3, ck_p1 = 2, ck_p2 = 10, ck_dot = 108000, ck_vco = 2160000, ck_m = 90, ck_p = 20\<rparr>"
    (is "_ = Ok ?c") by code_simp
  have v: "accepted False intel_limits_i9xx_sdvo None ?c" by code_simp
  have p: "fst (best_p2 example_pll_dev intel_limits_i9xx_sdvo [] 108000) = 10" "pd_pineview example_pll_dev = False"
    by code_simp+
  have e: "clock_err 108000 ?c = 0" and e': "clock_err 108000 ?c < 108000" by code_simp+
  have m: "?c \<in> ?A" unfolding pll_choices_def using c v by blast
  have "limit_small intel_limits_i9xx_sdvo" using all_limits_small by simp
  from find_best_PLL_optimal [OF this, of example_pll_dev "[]" 108000 96000 None]
  obtain found best dev' where r: "intel_find_best_PLL example_pll_dev intel_limits_i9xx_sdvo [] 108000 96000 None = Ok (found, best, dev')"
    and f: "found \<longleftrightarrow> (\<exists>c \<in> ?A. clock_err 108000 c < 108000)"
    and b: "if found then best \<in> ?A \<and> (\<forall>c \<in> ?A. clock_err 108000 best \<le> clock_err 108000 c) else best = zero_clock"
    unfolding Let_def p by blast
  have "\<exists>c \<in> ?A. clock_err 108000 c < 108000" using m e' by blast
  then have found unfolding f .
  then show ?thesis using r b m e by (simp only: if_True) metis
qed

text \<open>C30: The search of G4X and Ironlake ends without a trap; it succeeds exactly when some allowed clock
  misses the target by less than about 0.6 percent, and then its result is such a clock with the least
  \<open>n\<close>, and of those with this \<open>n\<close> the nearest.\<close>

theorem g4x_find_best_PLL_least_n:
  assumes "limit_small limit"
  shows "\<exists>found best. intel_g4x_find_best_PLL dev limit crtc target refclk match_clock = Ok (found, best)
    \<and> (let A = {c \<in> pll_choices (pd_pineview dev) limit match_clock refclk (g4x_p2 dev limit crtc target).
                  clock_err target c < s32i (drop_bit 8 target + drop_bit 9 target)}
       in (found \<longleftrightarrow> A \<noteq> {})
        \<and> (found \<longrightarrow> best \<in> A \<and> (\<forall>c \<in> A. ck_n best < ck_n c
              \<or> ck_n best = ck_n c \<and> clock_err target best \<le> clock_err target c)))"
proof -
  define p2 where "p2 = g4x_p2 dev limit crtc target"
  define e where "e = s32i (drop_bit 8 target + drop_bit 9 target)"
  define A where "A = (\<lambda>n. {c \<in> pll_choices (pd_pineview dev) limit match_clock refclk p2. ck_n c = n})"
  define st where "st = \<lparr>gs_best = zero_clock, gs_err_most = e, gs_max_n = snd (li_n limit), gs_found = False\<rparr>"
  have p2: "1 \<le> p2" "p2 \<le> 1000" using g4x_p2_small [OF assms] by (simp_all add: p2_def)
  have r: "\<forall>n \<in> set [fst (li_n limit)..snd (li_n limit)]. in_range n (li_n limit)" by (simp add: in_range_def)
  obtain st' where g: "g4x_rows (pd_pineview dev) limit target refclk match_clock p2 [fst (li_n limit)..snd (li_n limit)] st = Ok st'"
    and f: "first_row A target e [fst (li_n limit)..snd (li_n limit)] st st'"
    using g4x_rows_first [OF r assms p2, of st "pd_pineview dev" target refclk match_clock]
    by (auto simp: A_def st_def sorted_wrt_upto)
  have n: "in_range (ck_n c) (li_n limit)" if "c \<in> pll_choices pv limit match_clock refclk p2" for c pv
    using that by (auto simp: pll_choices_def accepted_def intel_PLL_is_valid_def)
  define B where "B = {c \<in> pll_choices (pd_pineview dev) limit match_clock refclk p2. clock_err target c < e}"
  have memB: "c \<in> B \<longleftrightarrow> c \<in> A (ck_n c) \<and> clock_err target c < e" for c by (auto simp: A_def B_def)
  have nB: "ck_n c \<in> set [fst (li_n limit)..snd (li_n limit)]" if "c \<in> B" for c using n that by (auto simp: B_def in_range_def)
  have An: "ck_n c = k" if "c \<in> A k" for c k using that by (simp add: A_def)
  have "(gs_found st' \<longleftrightarrow> B \<noteq> {}) \<and> (gs_found st' \<longrightarrow> gs_best st' \<in> B \<and> (\<forall>c \<in> B. ck_n (gs_best st') < ck_n c
      \<or> ck_n (gs_best st') = ck_n c \<and> clock_err target (gs_best st') \<le> clock_err target c))"
  proof (cases "B = {}")
    case True
    then have "\<not> (\<exists>k \<in> set [fst (li_n limit)..snd (li_n limit)]. \<exists>c \<in> A k. clock_err target c < e)"
      using memB An by blast
    then have "st' = st" by (rule iffD1 [OF first_row_miss f])
    then show ?thesis using True by (simp add: st_def)
  next
    case False
    then obtain c0 where "c0 \<in> B" by auto
    then have ex: "\<exists>k \<in> set [fst (li_n limit)..snd (li_n limit)]. \<exists>c \<in> A k. clock_err target c < e"
      using memB nB by blast
    define k where "k = gs_max_n st'"
    have g1: "gs_found st'" and l: "least (clock_err target) (A k) (gs_best st')" and be: "clock_err target (gs_best st') < e"
      and lo: "\<And>j c. j \<in> set [fst (li_n limit)..snd (li_n limit)] \<Longrightarrow> j < k \<Longrightarrow> c \<in> A j \<Longrightarrow> \<not> clock_err target c < e"
      using f unfolding first_row_hit [OF ex] k_def by blast+
    have bk: "gs_best st' \<in> A k" using l by (simp add: least_def)
    have "ck_n (gs_best st') < ck_n c \<or> ck_n (gs_best st') = ck_n c \<and> clock_err target (gs_best st') \<le> clock_err target c"
      if "c \<in> B" for c
    proof (cases "ck_n c = k")
      case True
      then show ?thesis using l that memB An [OF bk] by (auto simp: least_def)
    next
      case False
      then show ?thesis using lo [OF nB [OF that]] that memB An [OF bk] by force
    qed
    then show ?thesis using g1 bk be An [OF bk] memB False by auto
  qed
  moreover have "intel_g4x_find_best_PLL dev limit crtc target refclk match_clock = Ok (gs_found st', gs_best st')"
    using g by (simp add: intel_g4x_find_best_PLL_def p2_def [symmetric] e_def [symmetric] st_def [symmetric])
  ultimately show ?thesis
    unfolding Let_def p2_def [symmetric] e_def [symmetric] B_def by blast
qed

theorem g4x_find_best_PLL_least_n_witness:
  "\<exists>best. intel_g4x_find_best_PLL example_pll_dev intel_limits_g4x_hdmi [] 108000 96000 None = Ok (True, best)
     \<and> ck_n best \<le> 2 \<and> clock_err 108000 best < 631"
proof -
  let ?A = "{c \<in> pll_choices False intel_limits_g4x_hdmi None 96000 10. clock_err 108000 c < 631}"
  have c: "intel_clock_of False 96000 (divisors 2 23 8 3 10)
      = Ok \<lparr>ck_n = 2, ck_m1 = 23, ck_m2 = 8, ck_p1 = 3, ck_p2 = 10, ck_dot = 108000, ck_vco = 3240000, ck_m = 135, ck_p = 30\<rparr>"
    (is "_ = Ok ?c") by code_simp
  have v: "accepted False intel_limits_g4x_hdmi None ?c" by code_simp
  have p: "g4x_p2 example_pll_dev intel_limits_g4x_hdmi [] 108000 = 10" "pd_pineview example_pll_dev = False"
    "s32i (drop_bit 8 108000 + drop_bit 9 108000) = 631" by code_simp+
  have e: "clock_err 108000 ?c < 631" by code_simp
  have m: "?c \<in> ?A" unfolding pll_choices_def using c v e by blast
  have "limit_small intel_limits_g4x_hdmi" using all_limits_small by simp
  from g4x_find_best_PLL_least_n [OF this, of example_pll_dev "[]" 108000 96000 None]
  obtain found best where r: "intel_g4x_find_best_PLL example_pll_dev intel_limits_g4x_hdmi [] 108000 96000 None = Ok (found, best)"
    and f: "found \<longleftrightarrow> ?A \<noteq> {}"
    and b: "found \<longrightarrow> best \<in> ?A \<and> (\<forall>c \<in> ?A. ck_n best < ck_n c \<or> ck_n best = ck_n c \<and> clock_err 108000 best \<le> clock_err 108000 c)"
    unfolding Let_def p by blast
  have found using f m by blast
  then have "best \<in> ?A" "ck_n best \<le> ck_n ?c" using b m by (blast, fastforce)
  then show ?thesis using r \<open>found\<close> by auto
qed

end
