(* ===== verification/Drm_Gem.thy ===== *)
theory Drm_Gem
  imports Keyed_Table
begin

text \<open>
  GEM objects, their handles, names and mmap offsets: \<^verbatim>\<open>drm/drm_gem.c\<close>, the reference functions of
  \<^verbatim>\<open>include/drm/drmP.h\<close> and the creation of objects in \<^verbatim>\<open>drm/i915/i915_gem.c\<close>.  The memory is
  a map from addresses to objects, \<open>None\<close> where nothing is allocated, so that a use after the
  release is \<open>Bug\<close>.  The tables of the IDR library are association lists; the identifiers its
  allocation gives and those of the unit number allocator are arguments.
\<close>

unbundle bit_operations_syntax

section \<open>State\<close>

record gem_object =
  gj_refcount :: nat
  gj_handle_count :: nat
  gj_name :: nat
  gj_on_map :: bool
  gj_key :: u64
  gj_size :: u64

type_synonym idr = "(nat \<times> nat) list"

record gem_dev =
  gd_objs :: "nat \<Rightarrow> gem_object option"
  gd_names :: idr
  gd_files :: "idr list"
  gd_hash :: "nat drm_open_hash"
  gd_unr :: "u64 set"
  gd_locked :: bool

text \<open>The IDR: a map from identifiers to pointers.\<close>

definition idr_find :: "idr \<Rightarrow> nat \<Rightarrow> nat option" where
  "idr_find t i = map_of t i"

definition idr_remove :: "idr \<Rightarrow> nat \<Rightarrow> idr" where
  "idr_remove t i = filter (\<lambda>e. fst e \<noteq> i) t"

text \<open>The loop \<open>again\<close> around \<^verbatim>\<open>idr_pre_get\<close> and \<^verbatim>\<open>idr_get_new_above\<close>: the answers of the two in
  each round.\<close>

fun idr_get :: "(bool \<times> nat outcome) list \<Rightarrow> nat outcome" where
  "idr_get [] = Err EAGAIN"
| "idr_get ((pre, new) # rounds) =
     (if \<not> pre then Err ENOMEM
      else case new of Ok i \<Rightarrow> Ok i | Bug \<Rightarrow> Bug | Err e \<Rightarrow> if e = EAGAIN then idr_get rounds else Err e)"

abbreviation set_obj :: "nat \<Rightarrow> gem_object option \<Rightarrow> gem_dev \<Rightarrow> gem_dev" where
  "set_obj ob g d \<equiv> d\<lparr>gd_objs := (gd_objs d)(ob := g)\<rparr>"

abbreviation set_file :: "nat \<Rightarrow> idr \<Rightarrow> gem_dev \<Rightarrow> gem_dev" where
  "set_file f t d \<equiv> d\<lparr>gd_files := (gd_files d)[f := t]\<rparr>"

text \<open>An access to the memory of an object.\<close>

definition deref :: "gem_dev \<Rightarrow> nat \<Rightarrow> (gem_object \<Rightarrow> 'a outcome) \<Rightarrow> 'a outcome" where
  "deref d ob f = (case gd_objs d ob of None \<Rightarrow> Bug | Some g \<Rightarrow> f g)"

section \<open>The device and the objects\<close>

text \<open>\<open>mem\<close> tells whether \<^verbatim>\<open>kzalloc\<close> and the allocation of the table succeed.\<close>

definition drm_gem_init :: "bool \<Rightarrow> bool \<Rightarrow> (errno option \<times> gem_dev)" where
  "drm_gem_init mem table =
     (let d = \<lparr>gd_objs = \<lambda>_. None, gd_names = [], gd_files = [], gd_hash = \<lparr>ht_order = 0, ht_table = None\<rparr>,
               gd_unr = {}, gd_locked = False\<rparr>
      in if \<not> mem then (Some ENOMEM, d)
         else case drm_ht_create (gd_hash d) 12 table of
                (Some _, ht) \<Rightarrow> (Some ENOMEM, d\<lparr>gd_hash := ht\<rparr>)
              | (None, ht) \<Rightarrow> (None, d\<lparr>gd_hash := ht\<rparr>))"

definition drm_gem_destroy :: "gem_dev \<Rightarrow> gem_dev" where
  "drm_gem_destroy d = d\<lparr>gd_hash := drm_ht_remove (gd_hash d), gd_unr := {}\<rparr>"

text \<open>\<open>ob\<close> is the address of the zeroed memory the caller allocated.\<close>

definition drm_gem_object_init :: "gem_dev \<Rightarrow> nat \<Rightarrow> u64 \<Rightarrow> gem_dev outcome" where
  "drm_gem_object_init d ob sz =
     (if sz AND 0xfff \<noteq> 0 then Bug
      else Ok (set_obj ob (Some \<lparr>gj_refcount = 1, gj_handle_count = 0, gj_name = 0, gj_on_map = False, gj_key = 0, gj_size = sz\<rparr>) d))"

text \<open>\<open>mem\<close> is the address \<^verbatim>\<open>kzalloc\<close> gives, \<open>init\<close> the answer of the driver's \<^verbatim>\<open>gem_init_object\<close>.\<close>

definition drm_gem_object_alloc :: "gem_dev \<Rightarrow> nat option \<Rightarrow> u64 \<Rightarrow> bool \<Rightarrow> (nat option \<times> gem_dev) outcome" where
  "drm_gem_object_alloc d mem sz init =
     (case mem of None \<Rightarrow> Ok (None, d)
      | Some ob \<Rightarrow> bind_outcome (drm_gem_object_init d ob sz) (\<lambda>d.
          Ok (if init then (Some ob, d) else (None, set_obj ob None d))))"

section \<open>References\<close>

definition drm_gem_free_mmap_offset :: "hash32 \<Rightarrow> gem_dev \<Rightarrow> nat \<Rightarrow> gem_dev outcome" where
  "drm_gem_free_mmap_offset hf d ob = deref d ob (\<lambda>g.
     if \<not> gj_on_map g then Ok d
     else if gj_key g \<notin> gd_unr d then Bug
     else Ok (set_obj ob (Some (g\<lparr>gj_on_map := False\<rparr>))
            (d\<lparr>gd_hash := drm_ht_remove_item hf (gd_hash d) (gj_key g, ob), gd_unr := gd_unr d - {gj_key g}\<rparr>)))"

text \<open>The driver's hook gives the mmap offset and the memory of the object back.\<close>

definition i915_gem_free_object :: "hash32 \<Rightarrow> gem_dev \<Rightarrow> nat \<Rightarrow> gem_dev outcome" where
  "i915_gem_free_object hf d ob = bind_outcome (drm_gem_free_mmap_offset hf d ob) (\<lambda>d. Ok (set_obj ob None d))"

definition drm_gem_object_free :: "hash32 \<Rightarrow> gem_dev \<Rightarrow> nat \<Rightarrow> gem_dev outcome" where
  "drm_gem_object_free hf d ob = (if \<not> gd_locked d then Bug else i915_gem_free_object hf d ob)"

definition drm_gem_object_ref_bug :: "gem_dev \<Rightarrow> nat \<Rightarrow> gem_dev outcome" where
  "drm_gem_object_ref_bug d ob = Bug"

text \<open>The last \<^verbatim>\<open>kref_put\<close> runs the release function with the count at zero.\<close>

definition kref_put :: "(gem_dev \<Rightarrow> nat \<Rightarrow> gem_dev outcome) \<Rightarrow> gem_dev \<Rightarrow> nat \<Rightarrow> gem_dev outcome" where
  "kref_put release d ob = deref d ob (\<lambda>g.
     if gj_refcount g = 0 then Bug
     else let d = set_obj ob (Some (g\<lparr>gj_refcount := gj_refcount g - 1\<rparr>)) d
          in if gj_refcount g = 1 then release d ob else Ok d)"

definition drm_gem_object_reference :: "gem_dev \<Rightarrow> nat \<Rightarrow> gem_dev outcome" where
  "drm_gem_object_reference d ob = deref d ob (\<lambda>g. Ok (set_obj ob (Some (g\<lparr>gj_refcount := gj_refcount g + 1\<rparr>)) d))"

definition drm_gem_object_unreference :: "hash32 \<Rightarrow> gem_dev \<Rightarrow> nat \<Rightarrow> gem_dev outcome" where
  "drm_gem_object_unreference hf d ob = kref_put (drm_gem_object_free hf) d ob"

text \<open>\<^verbatim>\<open>struct_mutex\<close> is not recursive.\<close>

definition with_struct_mutex :: "(gem_dev \<Rightarrow> gem_dev outcome) \<Rightarrow> gem_dev \<Rightarrow> gem_dev outcome" where
  "with_struct_mutex f d =
     (if gd_locked d then Bug else bind_outcome (f (d\<lparr>gd_locked := True\<rparr>)) (\<lambda>d. Ok (d\<lparr>gd_locked := False\<rparr>)))"

definition drm_gem_object_unreference_unlocked :: "hash32 \<Rightarrow> gem_dev \<Rightarrow> nat \<Rightarrow> gem_dev outcome" where
  "drm_gem_object_unreference_unlocked hf d ob = with_struct_mutex (\<lambda>d. kref_put (drm_gem_object_free hf) d ob) d"

section \<open>Handles\<close>

definition drm_gem_object_handle_reference :: "gem_dev \<Rightarrow> nat \<Rightarrow> gem_dev outcome" where
  "drm_gem_object_handle_reference d ob = bind_outcome (drm_gem_object_reference d ob) (\<lambda>d.
     deref d ob (\<lambda>g. Ok (set_obj ob (Some (g\<lparr>gj_handle_count := gj_handle_count g + 1\<rparr>)) d)))"

definition drm_gem_object_handle_free :: "gem_dev \<Rightarrow> nat \<Rightarrow> gem_dev outcome" where
  "drm_gem_object_handle_free d ob = deref d ob (\<lambda>g.
     if gj_name g \<noteq> 0
     then kref_put drm_gem_object_ref_bug
            (set_obj ob (Some (g\<lparr>gj_name := 0\<rparr>)) (d\<lparr>gd_names := idr_remove (gd_names d) (gj_name g)\<rparr>)) ob
     else Ok d)"

definition drm_gem_object_handle_unreference_unlocked :: "hash32 \<Rightarrow> gem_dev \<Rightarrow> nat \<Rightarrow> gem_dev outcome" where
  "drm_gem_object_handle_unreference_unlocked hf d ob = deref d ob (\<lambda>g.
     if gj_handle_count g = 0 then Ok d
     else let d = set_obj ob (Some (g\<lparr>gj_handle_count := gj_handle_count g - 1\<rparr>)) d
          in bind_outcome (if gj_handle_count g = 1 then drm_gem_object_handle_free d ob else Ok d)
               (\<lambda>d. drm_gem_object_unreference_unlocked hf d ob))"

definition drm_gem_handle_delete :: "hash32 \<Rightarrow> gem_dev \<Rightarrow> nat \<Rightarrow> nat \<Rightarrow> (errno option \<times> gem_dev) outcome" where
  "drm_gem_handle_delete hf d f handle =
     (case idr_find (gd_files d ! f) handle of
        None \<Rightarrow> Ok (Some EINVAL, d)
      | Some ob \<Rightarrow> bind_outcome
          (drm_gem_object_handle_unreference_unlocked hf (set_file f (idr_remove (gd_files d ! f) handle) d) ob)
          (\<lambda>d. Ok (None, d)))"

text \<open>The two parts of the creation of a handle, before and after the release of the table lock.  The
  answer of the driver's \<^verbatim>\<open>gem_open_object\<close> is \<open>open_ans\<close>, \<open>None\<close> also when there is no such hook.\<close>

definition publish_handle :: "gem_dev \<Rightarrow> nat \<Rightarrow> nat \<Rightarrow> nat \<Rightarrow> gem_dev" where
  "publish_handle d f ob handle = set_file f ((handle, ob) # gd_files d ! f) d"

definition count_handle ::
    "hash32 \<Rightarrow> gem_dev \<Rightarrow> nat \<Rightarrow> nat \<Rightarrow> nat \<Rightarrow> errno option \<Rightarrow> ((errno + nat) \<times> gem_dev) outcome" where
  "count_handle hf d f ob handle open_ans =
     bind_outcome (drm_gem_object_handle_reference d ob) (\<lambda>d.
       case open_ans of None \<Rightarrow> Ok (Inr handle, d)
       | Some e \<Rightarrow> bind_outcome (drm_gem_handle_delete hf d f handle) (\<lambda>(_, d). Ok (Inl e, d)))"

definition drm_gem_handle_create ::
    "hash32 \<Rightarrow> gem_dev \<Rightarrow> nat \<Rightarrow> nat \<Rightarrow> (bool \<times> nat outcome) list \<Rightarrow> errno option \<Rightarrow> ((errno + nat) \<times> gem_dev) outcome" where
  "drm_gem_handle_create hf d f ob rounds open_ans =
     (case idr_get rounds of Bug \<Rightarrow> Bug | Err e \<Rightarrow> Ok (Inl e, d)
      | Ok handle \<Rightarrow> count_handle hf (publish_handle d f ob handle) f ob handle open_ans)"

definition drm_gem_object_lookup :: "gem_dev \<Rightarrow> nat \<Rightarrow> nat \<Rightarrow> (nat option \<times> gem_dev) outcome" where
  "drm_gem_object_lookup d f handle =
     (case idr_find (gd_files d ! f) handle of None \<Rightarrow> Ok (None, d)
      | Some ob \<Rightarrow> bind_outcome (drm_gem_object_reference d ob) (\<lambda>d. Ok (Some ob, d)))"

definition drm_gem_close_ioctl :: "hash32 \<Rightarrow> bool \<Rightarrow> gem_dev \<Rightarrow> nat \<Rightarrow> nat \<Rightarrow> (errno option \<times> gem_dev) outcome" where
  "drm_gem_close_ioctl hf driver_gem d f handle =
     (if \<not> driver_gem then Ok (Some ENODEV, d) else drm_gem_handle_delete hf d f handle)"

section \<open>Names\<close>

text \<open>The critical section under \<^verbatim>\<open>object_name_lock\<close> with the loop around it.\<close>

definition give_name :: "gem_dev \<Rightarrow> nat \<Rightarrow> (bool \<times> nat outcome) list \<Rightarrow> ((errno + nat) \<times> gem_dev) outcome" where
  "give_name d ob rounds = deref d ob (\<lambda>g.
     if rounds \<noteq> [] \<and> \<not> fst (rounds ! 0) then Ok (Inl ENOMEM, d)
     else if gj_name g \<noteq> 0 then Ok (Inr (gj_name g), d)
     else case idr_get rounds of Bug \<Rightarrow> Bug | Err e \<Rightarrow> Ok (Inl e, d)
       | Ok name \<Rightarrow>
           bind_outcome (drm_gem_object_reference
               (set_obj ob (Some (g\<lparr>gj_name := name\<rparr>)) (d\<lparr>gd_names := (name, ob) # gd_names d\<rparr>)) ob)
             (\<lambda>d. Ok (Inr name, d)))"

definition drm_gem_flink_ioctl ::
    "hash32 \<Rightarrow> bool \<Rightarrow> gem_dev \<Rightarrow> nat \<Rightarrow> nat \<Rightarrow> (bool \<times> nat outcome) list \<Rightarrow> ((errno + nat) \<times> gem_dev) outcome" where
  "drm_gem_flink_ioctl hf driver_gem d f handle rounds =
     (if \<not> driver_gem then Ok (Inl ENODEV, d)
      else bind_outcome (drm_gem_object_lookup d f handle) (\<lambda>(r, d). case r of
        None \<Rightarrow> Ok (Inl ENOENT, d)
      | Some ob \<Rightarrow> bind_outcome (give_name d ob rounds) (\<lambda>(r, d).
          bind_outcome (drm_gem_object_unreference_unlocked hf d ob) (\<lambda>d. Ok (r, d)))))"

definition drm_gem_open_ioctl ::
    "hash32 \<Rightarrow> bool \<Rightarrow> gem_dev \<Rightarrow> nat \<Rightarrow> nat \<Rightarrow> (bool \<times> nat outcome) list \<Rightarrow> errno option \<Rightarrow>
     ((errno + nat \<times> u64) \<times> gem_dev) outcome" where
  "drm_gem_open_ioctl hf driver_gem d f name rounds open_ans =
     (if \<not> driver_gem then Ok (Inl ENODEV, d)
      else case idr_find (gd_names d) name of
        None \<Rightarrow> Ok (Inl ENOENT, d)
      | Some ob \<Rightarrow> bind_outcome (drm_gem_object_reference d ob) (\<lambda>d.
          bind_outcome (drm_gem_handle_create hf d f ob rounds open_ans) (\<lambda>(r, d).
          bind_outcome (drm_gem_object_unreference_unlocked hf d ob) (\<lambda>d.
            case r of Inl e \<Rightarrow> Ok (Inl e, d)
            | Inr handle \<Rightarrow> deref d ob (\<lambda>g. Ok (Inr (handle, gj_size g), d))))))"

section \<open>Open and release of a file\<close>

definition drm_gem_open :: "gem_dev \<Rightarrow> gem_dev" where
  "drm_gem_open d = d\<lparr>gd_files := gd_files d @ [[]]\<rparr>"

text \<open>\<^verbatim>\<open>idr_for_each\<close> leaves the table as it is; it is emptied after the loop.\<close>

fun release_handles :: "hash32 \<Rightarrow> gem_dev \<Rightarrow> idr \<Rightarrow> gem_dev outcome" where
  "release_handles hf d [] = Ok d"
| "release_handles hf d ((i, ob) # t) =
     bind_outcome (drm_gem_object_handle_unreference_unlocked hf d ob) (\<lambda>d. release_handles hf d t)"

definition drm_gem_release :: "hash32 \<Rightarrow> gem_dev \<Rightarrow> nat \<Rightarrow> gem_dev outcome" where
  "drm_gem_release hf d f =
     bind_outcome (release_handles hf d (sort_key fst (gd_files d ! f))) (\<lambda>d. Ok (set_file f [] d))"

section \<open>The creation of an object by i915\<close>

definition i915_gem_alloc_object :: "gem_dev \<Rightarrow> nat option \<Rightarrow> u64 \<Rightarrow> (nat option \<times> gem_dev) outcome" where
  "i915_gem_alloc_object d mem sz =
     (case mem of None \<Rightarrow> Ok (None, d)
      | Some ob \<Rightarrow> bind_outcome (drm_gem_object_init d ob sz) (\<lambda>d. Ok (Some ob, d)))"

definition i915_gem_create ::
    "hash32 \<Rightarrow> gem_dev \<Rightarrow> nat \<Rightarrow> u64 \<Rightarrow> nat option \<Rightarrow> (bool \<times> nat outcome) list \<Rightarrow> ((errno + nat) \<times> gem_dev) outcome" where
  "i915_gem_create hf d f sz mem rounds =
     (let sz = (sz + 0xfff) AND NOT 0xfff
      in if sz = 0 then Ok (Inl EINVAL, d)
         else bind_outcome (i915_gem_alloc_object d mem sz) (\<lambda>(r, d). case r of
           None \<Rightarrow> Ok (Inl ENOMEM, d)
         | Some ob \<Rightarrow> bind_outcome (drm_gem_handle_create hf d f ob rounds None) (\<lambda>(r, d). case r of
             Inl e \<Rightarrow> Ok (Inl e, set_obj ob None d)
           | Inr handle \<Rightarrow> bind_outcome (drm_gem_object_unreference hf d ob) (\<lambda>d. Ok (Inr handle, d)))))"

section \<open>Mmap offsets\<close>

definition DRM_GEM_MAPPING_MASK :: u64 where "DRM_GEM_MAPPING_MASK = push_bit 62 3"
definition DRM_GEM_MAPPING_KEY :: u64 where "DRM_GEM_MAPPING_KEY = push_bit 62 2"
definition DRM_GEM_MAX_IDX :: u64 where "DRM_GEM_MAX_IDX = 0x3fffff"

definition DRM_GEM_MAPPING_IDX :: "u64 \<Rightarrow> u64" where
  "DRM_GEM_MAPPING_IDX off = drop_bit 40 off AND DRM_GEM_MAX_IDX"

definition DRM_GEM_MAPPING_OFF :: "u64 \<Rightarrow> u64" where
  "DRM_GEM_MAPPING_OFF i = push_bit 40 i"

definition DRM_GEM_MAPPING_MAPOFF :: "u64 \<Rightarrow> u64" where
  "DRM_GEM_MAPPING_MAPOFF off = off AND NOT (DRM_GEM_MAPPING_OFF DRM_GEM_MAX_IDX OR DRM_GEM_MAPPING_KEY)"

text \<open>\<open>unr\<close> is the answer of \<^verbatim>\<open>alloc_unr\<close>, \<open>None\<close> (minus one in C) when no number is left;
  \<^verbatim>\<open>free_unr\<close> panics on a number that is not allocated.\<close>

definition drm_gem_create_mmap_offset :: "hash32 \<Rightarrow> gem_dev \<Rightarrow> nat \<Rightarrow> u64 option \<Rightarrow> (errno option \<times> gem_dev) outcome" where
  "drm_gem_create_mmap_offset hf d ob unr = deref d ob (\<lambda>g.
     if gj_on_map g then Ok (None, d)
     else let key = (case unr of None \<Rightarrow> - 1 | Some u \<Rightarrow> u);
              alloc = (case unr of None \<Rightarrow> gd_unr d | Some u \<Rightarrow> insert u (gd_unr d))
          in case drm_ht_insert_item hf (gd_hash d) key ob of
               Bug \<Rightarrow> Bug
             | Err e \<Rightarrow> if unr = None then Bug else Ok (Some e, set_obj ob (Some (g\<lparr>gj_key := key\<rparr>)) d)
             | Ok ht \<Rightarrow> Ok (None, set_obj ob (Some (g\<lparr>gj_key := key, gj_on_map := True\<rparr>)) (d\<lparr>gd_hash := ht, gd_unr := alloc\<rparr>)))"

definition drm_gem_object_from_offset :: "hash32 \<Rightarrow> gem_dev \<Rightarrow> u64 \<Rightarrow> nat option" where
  "drm_gem_object_from_offset hf d off =
     (if off AND DRM_GEM_MAPPING_MASK \<noteq> DRM_GEM_MAPPING_KEY then None
      else case drm_ht_find_item hf (gd_hash d) (DRM_GEM_MAPPING_IDX (off AND NOT DRM_GEM_MAPPING_KEY)) of
             Ok ob \<Rightarrow> Some ob | _ \<Rightarrow> None)"

text \<open>The offset user space gets, of \<^verbatim>\<open>i915_gem_mmap_gtt\<close>; \<open>mappable\<close> is the end of the mappable
  aperture, \<open>willneed\<close> the advice on the object.  The ioctl takes and drops the mutex.\<close>

definition i915_gem_mmap_gtt ::
    "hash32 \<Rightarrow> u64 \<Rightarrow> bool \<Rightarrow> gem_dev \<Rightarrow> nat \<Rightarrow> nat \<Rightarrow> u64 option \<Rightarrow> ((errno + u64) \<times> gem_dev) outcome" where
  "i915_gem_mmap_gtt hf mappable willneed d f handle unr =
     (if gd_locked d then Bug
      else bind_outcome (drm_gem_object_lookup (d\<lparr>gd_locked := True\<rparr>) f handle) (\<lambda>(r, d). case r of
        None \<Rightarrow> Ok (Inl ENOENT, d\<lparr>gd_locked := False\<rparr>)
      | Some ob \<Rightarrow> deref d ob (\<lambda>g.
          bind_outcome
            (if mappable < gj_size g then Ok (Inl E2BIG, d)
             else if \<not> willneed then Ok (Inl EINVAL, d)
             else bind_outcome (drm_gem_create_mmap_offset hf d ob unr) (\<lambda>(r, d). case r of
                    Some e \<Rightarrow> Ok (Inl e, d)
                  | None \<Rightarrow> deref d ob (\<lambda>g. Ok (Inr (DRM_GEM_MAPPING_OFF (gj_key g) OR DRM_GEM_MAPPING_KEY), d))))
            (\<lambda>(r, d). bind_outcome (drm_gem_object_unreference hf d ob) (\<lambda>d. Ok (r, d\<lparr>gd_locked := False\<rparr>))))))"

text \<open>\<open>pager\<close> is whether \<^verbatim>\<open>cdev_pager_allocate\<close> gives an object; the result is the GEM object it maps.\<close>

definition drm_gem_mmap_single :: "hash32 \<Rightarrow> gem_dev \<Rightarrow> u64 \<Rightarrow> bool \<Rightarrow> ((errno + nat \<times> u64) \<times> gem_dev) outcome" where
  "drm_gem_mmap_single hf d off pager =
     (if gd_locked d then Bug else case drm_gem_object_from_offset hf d off of
        None \<Rightarrow> Ok (Inl ENODEV, d)
      | Some ob \<Rightarrow> bind_outcome (drm_gem_object_reference d ob) (\<lambda>d.
          if pager then Ok (Inr (ob, DRM_GEM_MAPPING_MAPOFF off), d)
          else bind_outcome (drm_gem_object_unreference_unlocked hf d ob) (\<lambda>d. Ok (Inl EINVAL, d))))"

text \<open>The destructors of the two pagers.\<close>

definition i915_gem_pager_dtor :: "hash32 \<Rightarrow> gem_dev \<Rightarrow> nat \<Rightarrow> gem_dev outcome" where
  "i915_gem_pager_dtor hf d ob = with_struct_mutex (\<lambda>d. drm_gem_object_unreference hf d ob) d"

definition drm_gem_pager_dtr :: "hash32 \<Rightarrow> gem_dev \<Rightarrow> nat \<Rightarrow> gem_dev outcome" where
  "drm_gem_pager_dtr hf d ob =
     with_struct_mutex (\<lambda>d. bind_outcome (drm_gem_free_mmap_offset hf d ob) (\<lambda>d. drm_gem_object_unreference hf d ob)) d"

end
