(* ===== verification/Drm_Gem_Proofs.thy ===== *)
theory Drm_Gem_Proofs
  imports Drm_Gem
begin

text \<open>
  The invariant of the GEM objects: reference and handle counts are exact, names and mmap offsets
  belong to live objects.  It is stated for a count \<open>H\<close> of the references of handles, which at rest is
  the number of entries in the tables, and a count \<open>ext\<close> of the references their callers hold, and is
  proved for the reference functions first.
\<close>

section \<open>The invariant\<close>

definition handles :: "gem_dev \<Rightarrow> nat \<Rightarrow> nat" where
  "handles d ob = (\<Sum>t \<leftarrow> gd_files d. length (filter (\<lambda>e. snd e = ob) t))"

definition object_ok :: "gem_object option \<Rightarrow> nat \<Rightarrow> nat \<Rightarrow> bool" where
  "object_ok r h e = (case r of None \<Rightarrow> h = 0 \<and> e = 0
     | Some g \<Rightarrow> gj_handle_count g = h \<and> gj_refcount g = h + e + (if gj_name g \<noteq> 0 then 1 else 0)
         \<and> 0 < h + e \<and> (gj_name g \<noteq> 0 \<longrightarrow> 0 < h))"

definition names_ok :: "gem_dev \<Rightarrow> bool" where
  "names_ok d \<longleftrightarrow> (\<forall>n ob. idr_find (gd_names d) n = Some ob \<longleftrightarrow> n \<noteq> 0 \<and> (\<exists>g. gd_objs d ob = Some g \<and> gj_name g = n))"

definition offsets_ok :: "hash32 \<Rightarrow> gem_dev \<Rightarrow> bool" where
  "offsets_ok hf d \<longleftrightarrow> ht_wf hf (gd_hash d)
   \<and> (\<forall>k ob. ht_lookup hf (gd_hash d) k = Some ob \<longleftrightarrow> (\<exists>g. gd_objs d ob = Some g \<and> gj_on_map g \<and> gj_key g = k))
   \<and> gd_unr d = dom (ht_lookup hf (gd_hash d)) \<and> (\<forall>k \<in> gd_unr d. k \<le> DRM_GEM_MAX_IDX)"

definition core :: "hash32 \<Rightarrow> gem_dev \<Rightarrow> (nat \<Rightarrow> nat) \<Rightarrow> (nat \<Rightarrow> nat) \<Rightarrow> bool" where
  "core hf d H ext \<longleftrightarrow> (\<forall>ob. object_ok (gd_objs d ob) (H ob) (ext ob)) \<and> names_ok d \<and> offsets_ok hf d"

definition gem_ok :: "hash32 \<Rightarrow> gem_dev \<Rightarrow> (nat \<Rightarrow> nat) \<Rightarrow> bool" where
  "gem_ok hf d ext \<longleftrightarrow> core hf d (handles d) ext \<and> (\<forall>t \<in> set (gd_files d). distinct (map fst t)) \<and> \<not> gd_locked d"

definition frame :: "gem_dev \<Rightarrow> gem_dev \<Rightarrow> bool" where
  "frame d d' \<longleftrightarrow> gd_files d' = gd_files d \<and> gd_locked d' = gd_locked d"

lemma frame_refl [simp]: "frame d d" by (simp add: frame_def)

lemma frame_trans [trans]: "frame a b \<Longrightarrow> frame b c \<Longrightarrow> frame a c" by (simp add: frame_def)

abbreviation inc :: "(nat \<Rightarrow> nat) \<Rightarrow> nat \<Rightarrow> nat \<Rightarrow> nat" where "inc f x \<equiv> f(x := f x + 1)"
abbreviation dec :: "(nat \<Rightarrow> nat) \<Rightarrow> nat \<Rightarrow> nat \<Rightarrow> nat" where "dec f x \<equiv> f(x := f x - 1)"

lemma core_live: "core hf d H ext \<Longrightarrow> gd_objs d ob \<noteq> None \<longleftrightarrow> 0 < H ob + ext ob"
  by (auto simp: core_def object_ok_def split: option.splits dest: spec [where x = ob])

lemma core_objD: "core hf d H ext \<Longrightarrow> object_ok (gd_objs d ob) (H ob) (ext ob)"
  by (simp add: core_def)

text \<open>Updates of one object that keep its name and its offset.\<close>

lemma names_ok_upd:
  "names_ok d \<Longrightarrow> gd_objs d ob = Some g \<Longrightarrow> gj_name g' = gj_name g \<Longrightarrow> names_ok (set_obj ob (Some g') d)"
  by (auto simp: names_ok_def)

lemma offsets_ok_upd:
  "offsets_ok hf d \<Longrightarrow> gd_objs d ob = Some g \<Longrightarrow> gj_on_map g' = gj_on_map g \<Longrightarrow> gj_key g' = gj_key g \<Longrightarrow>
   offsets_ok hf (set_obj ob (Some g') d)"
  by (auto simp: offsets_ok_def)

lemma core_upd:
  assumes "core hf d H ext" "gd_objs d ob = Some g"
    and "gj_name g' = gj_name g" "gj_on_map g' = gj_on_map g" "gj_key g' = gj_key g"
    and "object_ok (Some g') h e"
  shows "core hf (set_obj ob (Some g') d) (H(ob := h)) (ext(ob := e))"
  using assms names_ok_upd [of d ob g g'] offsets_ok_upd [of hf d ob g g'] by (simp add: core_def)

section \<open>Mmap offsets\<close>

text \<open>The same without the counts of one object.\<close>

definition core_but :: "hash32 \<Rightarrow> gem_dev \<Rightarrow> nat \<Rightarrow> (nat \<Rightarrow> nat) \<Rightarrow> (nat \<Rightarrow> nat) \<Rightarrow> bool" where
  "core_but hf d ob H ext \<longleftrightarrow> (\<forall>x. x \<noteq> ob \<longrightarrow> object_ok (gd_objs d x) (H x) (ext x)) \<and> names_ok d \<and> offsets_ok hf d"

lemma core_split: "core hf d H ext \<longleftrightarrow> core_but hf d ob H ext \<and> object_ok (gd_objs d ob) (H ob) (ext ob)"
  by (auto simp: core_def core_but_def)

lemma core_but_upd:
  assumes "core_but hf d ob H ext" "gd_objs d ob = Some g"
    and "gj_name g' = gj_name g" "gj_on_map g' = gj_on_map g" "gj_key g' = gj_key g"
  shows "core_but hf (set_obj ob (Some g') d) ob (H(ob := h)) (ext(ob := e))"
  using assms names_ok_upd [of d ob g g'] offsets_ok_upd [of hf d ob g g'] by (simp add: core_but_def)

lemma free_mmap_but:
  assumes c: "core_but hf d ob H ext" and g: "gd_objs d ob = Some g"
  shows "\<exists>d'. drm_gem_free_mmap_offset hf d ob = Ok d' \<and> core_but hf d' ob H ext \<and> frame d d'
    \<and> gd_objs d' ob = Some (g\<lparr>gj_on_map := False\<rparr>)"
proof (cases "gj_on_map g")
  case False
  then show ?thesis using c g by (simp add: drm_gem_free_mmap_offset_def deref_def)
next
  case True
  let ?d = "set_obj ob (Some (g\<lparr>gj_on_map := False\<rparr>))
      (d\<lparr>gd_hash := drm_ht_remove_item hf (gd_hash d) (gj_key g, ob), gd_unr := gd_unr d - {gj_key g}\<rparr>)"
  have o: "offsets_ok hf d" using c by (simp add: core_but_def)
  then have wf: "ht_wf hf (gd_hash d)" and l: "ht_lookup hf (gd_hash d) (gj_key g) = Some ob"
    using g True by (auto simp: offsets_ok_def)
  have "gj_key g' \<noteq> gj_key g" if "gd_objs d x = Some g'" "gj_on_map g'" "x \<noteq> ob" for x g'
  proof
    assume "gj_key g' = gj_key g"
    then have "ht_lookup hf (gd_hash d) (gj_key g) = Some x" using o that unfolding offsets_ok_def by metis
    with l that show False by simp
  qed
  with o have "offsets_ok hf ?d"
    using g l by (auto simp: offsets_ok_def ht_remove [OF wf l])
  moreover have "names_ok ?d" using c g by (auto simp: core_but_def names_ok_def)
  moreover have "gj_key g \<in> gd_unr d" using o l by (auto simp: offsets_ok_def)
  ultimately show ?thesis
    using True g c by (simp add: drm_gem_free_mmap_offset_def deref_def core_but_def frame_def)
qed

lemma free_mmap_core:
  assumes c: "core hf d H ext" and g: "gd_objs d ob = Some g"
  shows "\<exists>d'. drm_gem_free_mmap_offset hf d ob = Ok d' \<and> core hf d' H ext \<and> frame d d'"
proof -
  have "object_ok (Some (g\<lparr>gj_on_map := False\<rparr>)) (H ob) (ext ob)"
    using core_objD [OF c, of ob] g by (simp add: object_ok_def)
  then show ?thesis
    using free_mmap_but [of hf d ob H ext g] c g unfolding core_split [of hf _ H ext ob] by auto
qed

lemma create_mmap_core:
  assumes c: "core hf d H ext" and g: "gd_objs d ob = Some g" and u: "u \<notin> gd_unr d" "u \<le> DRM_GEM_MAX_IDX"
  shows "\<exists>d' g'. drm_gem_create_mmap_offset hf d ob (Some u) = Ok (None, d') \<and> core hf d' H ext \<and> frame d d'
    \<and> gd_objs d' ob = Some g' \<and> gj_on_map g' \<and> gj_size g' = gj_size g"
proof (cases "gj_on_map g")
  case True
  then show ?thesis using c g by (simp add: drm_gem_create_mmap_offset_def deref_def)
next
  case False
  have o: "offsets_ok hf d" using c by (simp add: core_def)
  then have wf: "ht_wf hf (gd_hash d)" and l: "ht_lookup hf (gd_hash d) u = None"
    using u by (auto simp: offsets_ok_def)
  from ht_insert(1) [OF wf l, of ob] obtain ht where i: "drm_ht_insert_item hf (gd_hash d) u ob = Ok ht"
    and ht: "ht_wf hf ht" "ht_lookup hf ht = (ht_lookup hf (gd_hash d))(u \<mapsto> ob)" by auto
  let ?d = "set_obj ob (Some (g\<lparr>gj_key := u, gj_on_map := True\<rparr>)) (d\<lparr>gd_hash := ht, gd_unr := insert u (gd_unr d)\<rparr>)"
  have "offsets_ok hf ?d" using o g u l False by (auto simp: offsets_ok_def ht)
  moreover have "names_ok ?d" using c g by (auto simp: core_def names_ok_def)
  moreover have "object_ok (gd_objs ?d x) (H x) (ext x)" for x
    using core_objD [OF c, of x] g by (auto simp: object_ok_def)
  ultimately show ?thesis
    using False g i by (simp add: drm_gem_create_mmap_offset_def deref_def core_def frame_def)
qed

section \<open>References\<close>

lemma reference_core:
  assumes c: "core hf d H ext" and l: "0 < H ob + ext ob"
  shows "\<exists>d'. drm_gem_object_reference d ob = Ok d' \<and> core hf d' H (inc ext ob) \<and> frame d d'
    \<and> map_option gj_size (gd_objs d' ob) = map_option gj_size (gd_objs d ob)"
proof -
  from core_live [OF c, of ob] l obtain g where g: "gd_objs d ob = Some g" by auto
  have "object_ok (Some (g\<lparr>gj_refcount := gj_refcount g + 1\<rparr>)) (H ob) (ext ob + 1)"
    using core_objD [OF c, of ob] g by (auto simp: object_ok_def)
  from core_upd [OF c g _ _ _ this] show ?thesis
    using g by (simp add: drm_gem_object_reference_def deref_def frame_def)
qed

lemma free_core:
  assumes c: "core_but hf d ob H ext" and g: "gd_objs d ob = Some g" and n: "gj_name g = 0"
  shows "\<exists>d'. i915_gem_free_object hf d ob = Ok d' \<and> core hf d' (H(ob := 0)) (ext(ob := 0)) \<and> frame d d'"
proof -
  from free_mmap_but [OF c g] obtain d1 where d1: "drm_gem_free_mmap_offset hf d ob = Ok d1"
    and c1: "core_but hf d1 ob H ext" and f: "frame d d1" and g1: "gd_objs d1 ob = Some (g\<lparr>gj_on_map := False\<rparr>)" by auto
  have "names_ok (set_obj ob None d1)" "offsets_ok hf (set_obj ob None d1)"
    using c1 g1 n by (auto simp: core_but_def names_ok_def offsets_ok_def)
  then have "core hf (set_obj ob None d1) (H(ob := 0)) (ext(ob := 0))"
    using c1 by (auto simp: core_def core_but_def object_ok_def)
  then show ?thesis using d1 f by (simp add: i915_gem_free_object_def frame_def)
qed

lemma unreference_core:
  assumes c: "core hf d H ext" and e: "0 < ext ob" and l: "gd_locked d"
  shows "\<exists>d'. kref_put (drm_gem_object_free hf) d ob = Ok d' \<and> core hf d' H (dec ext ob) \<and> frame d d'"
proof -
  from core_live [OF c, of ob] e obtain g where g: "gd_objs d ob = Some g" by auto
  have k: "object_ok (Some g) (H ob) (ext ob)" using core_objD [OF c, of ob] g by simp
  let ?g = "g\<lparr>gj_refcount := gj_refcount g - 1\<rparr>"
  show ?thesis
  proof (cases "gj_refcount g = 1")
    case True
    then have z: "H ob = 0" "ext ob = 1" "gj_name g = 0" using k e by (auto simp: object_ok_def split: if_splits)
    have "core_but hf (set_obj ob (Some ?g) d) ob (H(ob := 0)) (ext(ob := 0))"
      using c g by (intro core_but_upd [of hf d ob H ext g]) (simp_all add: core_split [of hf d H ext ob])
    from free_core [OF this, of ?g] obtain d' where
      "i915_gem_free_object hf (set_obj ob (Some ?g) d) ob = Ok d'" "core hf d' (H(ob := 0)) (ext(ob := 0))" "frame (set_obj ob (Some ?g) d) d'"
      using z(3) by auto
    moreover have "H(ob := 0) = H" "ext(ob := 0) = dec ext ob" using z by auto
    ultimately show ?thesis
      using g True l by (simp add: kref_put_def deref_def drm_gem_object_free_def frame_def)
  next
    case False
    have "object_ok (Some ?g) (H ob) (ext ob - 1)" using k False e by (auto simp: object_ok_def)
    from core_upd [OF c g _ _ _ this] show ?thesis
      using g False k by (simp add: kref_put_def deref_def frame_def object_ok_def)
  qed
qed

lemma unreference_unlocked_core:
  assumes c: "core hf d H ext" and e: "0 < ext ob" and l: "\<not> gd_locked d"
  shows "\<exists>d'. drm_gem_object_unreference_unlocked hf d ob = Ok d' \<and> core hf d' H (dec ext ob) \<and> frame d d'"
proof -
  have c1: "core hf (d\<lparr>gd_locked := True\<rparr>) H ext" using c by (simp add: core_def names_ok_def offsets_ok_def)
  from unreference_core [OF c1 e] obtain d' where "kref_put (drm_gem_object_free hf) (d\<lparr>gd_locked := True\<rparr>) ob = Ok d'"
    "core hf d' H (dec ext ob)" "frame (d\<lparr>gd_locked := True\<rparr>) d'" by auto
  then show ?thesis
    using l by (simp add: drm_gem_object_unreference_unlocked_def with_struct_mutex_def frame_def core_def names_ok_def offsets_ok_def)
qed

section \<open>Handles\<close>

lemma handle_reference_core:
  assumes c: "core hf d H ext" and l: "0 < H ob + ext ob"
  shows "\<exists>d'. drm_gem_object_handle_reference d ob = Ok d' \<and> core hf d' (inc H ob) ext \<and> frame d d'"
proof -
  from core_live [OF c, of ob] l obtain g where g: "gd_objs d ob = Some g" by auto
  let ?g = "g\<lparr>gj_refcount := gj_refcount g + 1, gj_handle_count := gj_handle_count g + 1\<rparr>"
  have "object_ok (Some ?g) (H ob + 1) (ext ob)"
    using core_objD [OF c, of ob] g by (auto simp: object_ok_def)
  from core_upd [OF c g _ _ _ this] show ?thesis
    using g by (simp add: drm_gem_object_handle_reference_def drm_gem_object_reference_def deref_def frame_def)
qed

text \<open>The handle's reference becomes one of the caller's, without a name if it was the last.\<close>

lemma handle_uncount_core:
  assumes c: "core hf d H ext" and g: "gd_objs d ob = Some g" and h: "0 < H ob"
  shows "\<exists>d'. (let d = set_obj ob (Some (g\<lparr>gj_handle_count := gj_handle_count g - 1\<rparr>)) d
       in if gj_handle_count g = 1 then drm_gem_object_handle_free d ob else Ok d) = Ok d'
     \<and> core hf d' (dec H ob) (inc ext ob) \<and> frame d d'"
proof -
  have k: "object_ok (Some g) (H ob) (ext ob)" using core_objD [OF c, of ob] g by simp
  show ?thesis
  proof (cases "gj_handle_count g = 1 \<and> gj_name g \<noteq> 0")
    case True
    let ?g = "g\<lparr>gj_handle_count := 0, gj_name := 0, gj_refcount := gj_refcount g - 1\<rparr>"
    let ?d = "set_obj ob (Some ?g) (d\<lparr>gd_names := idr_remove (gd_names d) (gj_name g)\<rparr>)"
    have r: "1 < gj_refcount g" using k True h by (auto simp: object_ok_def)
    have n: "map_of (filter (\<lambda>e. fst e \<noteq> n) t) = (map_of t)(n := None)" for n :: nat and t :: idr
      by (induction t) (auto simp: fun_eq_iff)
    have nm: "names_ok d" using c by (simp add: core_def)
    have "gj_name g' \<noteq> gj_name g" if "gd_objs d x = Some g'" "x \<noteq> ob" for x g'
    proof
      assume "gj_name g' = gj_name g"
      then have "idr_find (gd_names d) (gj_name g) = Some x" "idr_find (gd_names d) (gj_name g) = Some ob"
        using nm g True that by (auto simp: names_ok_def)
      then show False using that by simp
    qed
    with nm have "names_ok ?d" using g True by (auto simp: names_ok_def idr_find_def idr_remove_def n)
    moreover have "offsets_ok hf ?d" using c g by (auto simp: core_def offsets_ok_def)
    moreover have "object_ok (gd_objs ?d x) (dec H ob x) (inc ext ob x)" for x
      using core_objD [OF c, of x] k True r h by (auto simp: object_ok_def)
    ultimately have "core hf ?d (dec H ob) (inc ext ob)" unfolding core_def by blast
    then show ?thesis
      using True r by (simp add: drm_gem_object_handle_free_def kref_put_def deref_def frame_def)
  next
    case False
    let ?g = "g\<lparr>gj_handle_count := gj_handle_count g - 1\<rparr>"
    have "object_ok (Some ?g) (H ob - 1) (ext ob + 1)" using k False h by (auto simp: object_ok_def)
    from core_upd [OF c g _ _ _ this] show ?thesis
      using g False by (auto simp: drm_gem_object_handle_free_def deref_def frame_def Let_def)
  qed
qed

lemma handle_unreference_core:
  assumes c: "core hf d H ext" and h: "0 < H ob" and l: "\<not> gd_locked d"
  shows "\<exists>d'. drm_gem_object_handle_unreference_unlocked hf d ob = Ok d' \<and> core hf d' (dec H ob) ext \<and> frame d d'"
proof -
  from core_live [OF c, of ob] h obtain g where g: "gd_objs d ob = Some g" by auto
  then have k: "gj_handle_count g = H ob" using core_objD [OF c, of ob] by (simp add: object_ok_def)
  from handle_uncount_core [OF c g h] obtain d1 where
    d1: "(let d = set_obj ob (Some (g\<lparr>gj_handle_count := gj_handle_count g - 1\<rparr>)) d
       in if gj_handle_count g = 1 then drm_gem_object_handle_free d ob else Ok d) = Ok d1"
    and c1: "core hf d1 (dec H ob) (inc ext ob)" and f: "frame d d1" by blast
  have "\<not> gd_locked d1" using f l by (simp add: frame_def)
  from unreference_unlocked_core [OF c1 _ this, of ob] obtain d2 where
    d2: "drm_gem_object_unreference_unlocked hf d1 ob = Ok d2" "core hf d2 (dec H ob) (dec (inc ext ob) ob)" "frame d1 d2"
    by auto
  have "dec (inc ext ob) ob = ext" by auto
  with d1 d2 f g k h show ?thesis
    by (auto simp: drm_gem_object_handle_unreference_unlocked_def deref_def Let_def intro: frame_trans)
qed

end
