(* ===== verification/Drm_Gem_Ops.thy ===== *)
theory Drm_Gem_Ops
  imports Drm_Gem_Proofs
begin

text \<open>
  The calls on GEM objects as transitions.  Beside the device a state counts the references each caller
  holds: those of drivers, of lookups that have not been dropped and of mappings.  Every legal call
  returns and keeps the invariant.
\<close>

section \<open>Tables of handles\<close>

lemma handles_set_file:
  assumes "f < length (gd_files d)"
  shows "handles (set_file f t d) ob + length (filter (\<lambda>e. snd e = ob) (gd_files d ! f))
       = handles d ob + length (filter (\<lambda>e. snd e = ob) t)"
proof -
  let ?n = "\<lambda>t. length (filter (\<lambda>e. snd e = ob) t)"
  have "sum_list (map ?n (xs[f := t])) + ?n (xs ! f) = sum_list (map ?n xs) + ?n t" if "f < length xs" for xs :: "idr list"
    using that by (induction xs arbitrary: f) (auto split: nat.splits)
  then show ?thesis using assms by (simp add: handles_def)
qed

lemma handles_mem:
  assumes "f < length (gd_files d)" "(i, ob) \<in> set (gd_files d ! f)"
  shows "0 < handles d ob"
proof -
  have "0 < length (filter (\<lambda>e. snd e = ob) (gd_files d ! f))" using assms(2) by (force simp: filter_empty_conv)
  moreover have "length (filter (\<lambda>e. snd e = ob) (gd_files d ! f)) \<le> handles d ob"
    unfolding handles_def by (rule member_le_sum_list) (use assms(1) in auto)
  ultimately show ?thesis by linarith
qed

lemma handles_zero:
  assumes "handles d ob = 0" "t \<in> set (gd_files d)" shows "ob \<notin> snd ` set t"
  using assms by (auto simp: handles_def filter_empty_conv)

lemma handles_publish:
  assumes "f < length (gd_files d)"
  shows "handles (publish_handle d f ob h) = inc (handles d) ob"
proof
  fix x show "handles (publish_handle d f ob h) x = (inc (handles d) ob) x"
    using handles_set_file [OF assms, of "(h, ob) # gd_files d ! f" x] by (auto simp: publish_handle_def split: if_splits)
qed

lemma handles_remove:
  assumes f: "f < length (gd_files d)" and m: "idr_find (gd_files d ! f) i = Some ob" and dst: "distinct (map fst (gd_files d ! f))"
  shows "handles (set_file f (idr_remove (gd_files d ! f) i) d) = dec (handles d) ob" "0 < handles d ob"
proof -
  have in_t: "(i, ob) \<in> set (gd_files d ! f)" using m by (simp add: idr_find_def map_of_SomeD)
  show "0 < handles d ob" by (rule handles_mem [OF f in_t])
  have r: "length (filter (\<lambda>e. snd e = x) t) = length (filter (\<lambda>e. snd e = x) (idr_remove t i)) + (if x = ob then 1 else 0)"
    if "(i, ob) \<in> set t" "distinct (map fst t)" for t :: idr and x
    using that
  proof (induction t)
    case (Cons e t)
    show ?case
    proof (cases "fst e = i")
      case True
      then have "i \<notin> fst ` set t" using Cons.prems by auto
      then have "idr_remove t i = t" by (auto simp: idr_remove_def filter_id_conv)
      moreover have "e = (i, ob)" using Cons.prems True by (auto simp: image_iff)
      ultimately show ?thesis by (simp add: idr_remove_def)
    next
      case False
      then show ?thesis using Cons by (auto simp: idr_remove_def)
    qed
  qed simp
  show "handles (set_file f (idr_remove (gd_files d ! f) i) d) = dec (handles d) ob"
  proof
    fix x show "handles (set_file f (idr_remove (gd_files d ! f) i) d) x = (dec (handles d) ob) x"
      using handles_set_file [OF f, of "idr_remove (gd_files d ! f) i" x] r [OF in_t dst, of x] by auto
  qed
qed

lemma core_files [simp]: "core hf (d\<lparr>gd_files := x\<rparr>) H ext = core hf d H ext"
  "core hf (d\<lparr>gd_locked := y\<rparr>) H ext = core hf d H ext"
  by (simp_all add: core_def names_ok_def offsets_ok_def)

lemma handles_cong: "gd_files d' = gd_files d \<Longrightarrow> handles d' = handles d"
  by (simp add: handles_def fun_eq_iff)

text \<open>A change of the counts that leaves the tables alone.\<close>

lemma gem_ok_frame:
  "gem_ok hf d ext \<Longrightarrow> core hf d' (handles d) ext' \<Longrightarrow> frame d d' \<Longrightarrow> gem_ok hf d' ext'"
  by (simp add: gem_ok_def frame_def handles_cong [of d' d])

section \<open>The calls\<close>

text \<open>What the libraries promise of their answers: a new identifier is positive and not in the table, a
  new unit number is in range and not allocated.\<close>

definition fresh_ids :: "idr \<Rightarrow> (bool \<times> nat outcome) list \<Rightarrow> bool" where
  "fresh_ids t rounds \<longleftrightarrow> (case idr_get rounds of Ok i \<Rightarrow> 0 < i \<and> i \<notin> fst ` set t | Err e \<Rightarrow> True | Bug \<Rightarrow> False)"

lemma fresh_ids_cases:
  assumes "fresh_ids t rounds"
  obtains i where "idr_get rounds = Ok i" "0 < i" "i \<notin> fst ` set t" | e where "idr_get rounds = Err e"
  using assms by (auto simp: fresh_ids_def split: outcome.splits)

lemma gem_delete_ok:
  assumes ok: "gem_ok hf d ext" and f: "f < length (gd_files d)"
  shows "\<exists>r d'. drm_gem_handle_delete hf d f h = Ok (r, d') \<and> gem_ok hf d' ext
     \<and> (case idr_find (gd_files d ! f) h of None \<Rightarrow> r = Some EINVAL \<and> d' = d
        | Some ob \<Rightarrow> r = None \<and> gd_files d' = (gd_files d)[f := idr_remove (gd_files d ! f) h])"
proof (cases "idr_find (gd_files d ! f) h")
  case None
  then show ?thesis using ok by (simp add: drm_gem_handle_delete_def)
next
  case (Some ob)
  have c: "core hf d (handles d) ext" and dst: "\<forall>t \<in> set (gd_files d). distinct (map fst t)" and l: "\<not> gd_locked d"
    using ok by (simp_all add: gem_ok_def)
  let ?d = "set_file f (idr_remove (gd_files d ! f) h) d"
  note r = handles_remove [OF f Some]
  have dst_f: "distinct (map fst (gd_files d ! f))" using dst f by auto
  obtain d' where d': "drm_gem_object_handle_unreference_unlocked hf ?d ob = Ok d'" "core hf d' (dec (handles d) ob) ext"
    "frame ?d d'" using handle_unreference_core [of hf ?d "handles d" ext ob] c r(2) [OF dst_f] l by auto
  have "handles d' = dec (handles d) ob"
    using handles_cong [of d' ?d] d'(3) r(1) [OF dst_f] by (simp add: frame_def)
  moreover have "distinct (map fst (idr_remove (gd_files d ! f) h))"
    using dst_f by (simp add: idr_remove_def distinct_map_filter)
  then have "\<forall>t \<in> set (gd_files d'). distinct (map fst t)"
    using dst d'(3) by (auto simp: frame_def dest!: set_update_subset_insert [THEN subsetD])
  ultimately have "gem_ok hf d' ext" using d' l by (simp add: gem_ok_def frame_def)
  then show ?thesis using Some d' by (simp add: drm_gem_handle_delete_def frame_def)
qed

lemma create_ok:
  assumes ok: "gem_ok hf d ext" and f: "f < length (gd_files d)" and l: "0 < ext ob" and fr: "fresh_ids (gd_files d ! f) rounds"
  shows "\<exists>r d'. drm_gem_handle_create hf d f ob rounds open_ans = Ok (r, d') \<and> gem_ok hf d' ext
     \<and> (case r of Inl e \<Rightarrow> gd_files d' = gd_files d | Inr h \<Rightarrow> gd_files d' = (gd_files d)[f := (h, ob) # gd_files d ! f])"
  using fr
proof (cases rule: fresh_ids_cases)
  case (2 e)
  then show ?thesis using ok by (simp add: drm_gem_handle_create_def)
next
  case (1 h)
  have c: "core hf d (handles d) ext" and dst: "\<forall>t \<in> set (gd_files d). distinct (map fst t)" and lk: "\<not> gd_locked d"
    using ok by (simp_all add: gem_ok_def)
  let ?d = "publish_handle d f ob h"
  obtain d1 where d1: "drm_gem_object_handle_reference ?d ob = Ok d1" "core hf d1 (inc (handles d) ob) ext" "frame ?d d1"
    using handle_reference_core [of hf ?d "handles d" ext ob] c l by (auto simp: publish_handle_def)
  have files: "gd_files d1 = (gd_files d)[f := (h, ob) # gd_files d ! f]" using d1(3) by (simp add: frame_def publish_handle_def)
  have "handles d1 = inc (handles d) ob"
    using handles_cong [of d1 ?d] d1(3) handles_publish [OF f] by (simp add: frame_def)
  moreover have "distinct (map fst ((h, ob) # gd_files d ! f))" using dst f 1 by auto
  then have "\<forall>t \<in> set (gd_files d1). distinct (map fst t)"
    using dst files by (auto dest!: set_update_subset_insert [THEN subsetD])
  ultimately have ok1: "gem_ok hf d1 ext" using d1 lk by (simp add: gem_ok_def frame_def publish_handle_def)
  show ?thesis
  proof (cases open_ans)
    case None
    then show ?thesis using 1 d1 ok1 files by (simp add: drm_gem_handle_create_def count_handle_def)
  next
    case (Some e)
    have f1: "f < length (gd_files d1)" using f files by simp
    have find: "idr_find (gd_files d1 ! f) h = Some ob" using f files by (simp add: idr_find_def)
    have "idr_remove (gd_files d1 ! f) h = gd_files d ! f"
      using f files 1 by (auto simp: idr_remove_def filter_id_conv)
    then show ?thesis
      using gem_delete_ok [OF ok1 f1, of h] find 1 d1 Some files f
      by (auto simp: drm_gem_handle_create_def count_handle_def)
  qed
qed

lemma lookup_ok:
  assumes ok: "gem_ok hf d ext" and f: "f < length (gd_files d)"
  shows "\<exists>d'. drm_gem_object_lookup d f h = Ok (idr_find (gd_files d ! f) h, d')
     \<and> gem_ok hf d' (case idr_find (gd_files d ! f) h of None \<Rightarrow> ext | Some ob \<Rightarrow> inc ext ob) \<and> frame d d'"
proof (cases "idr_find (gd_files d ! f) h")
  case None
  then show ?thesis using ok by (simp add: drm_gem_object_lookup_def)
next
  case (Some ob)
  then have "(h, ob) \<in> set (gd_files d ! f)" by (simp add: idr_find_def map_of_SomeD)
  from handles_mem [OF f this] obtain d' where
    "drm_gem_object_reference d ob = Ok d'" "core hf d' (handles d) (inc ext ob)" "frame d d'"
    using reference_core [of hf d "handles d" ext ob] ok by (auto simp: gem_ok_def)
  then show ?thesis using Some gem_ok_frame [OF ok] by (auto simp: drm_gem_object_lookup_def)
qed

lemma unref_ok:
  assumes ok: "gem_ok hf d ext" and e: "0 < ext ob"
  shows "\<exists>d'. drm_gem_object_unreference_unlocked hf d ob = Ok d' \<and> gem_ok hf d' (dec ext ob) \<and> frame d d'"
proof -
  obtain d' where "drm_gem_object_unreference_unlocked hf d ob = Ok d'" "core hf d' (handles d) (dec ext ob)" "frame d d'"
    using unreference_unlocked_core [of hf d "handles d" ext ob] ok e by (auto simp: gem_ok_def)
  then show ?thesis using gem_ok_frame [OF ok] by auto
qed

lemma ref_ok:
  assumes ok: "gem_ok hf d ext" and e: "0 < handles d ob + ext ob"
  shows "\<exists>d'. drm_gem_object_reference d ob = Ok d' \<and> gem_ok hf d' (inc ext ob) \<and> frame d d'"
proof -
  obtain d' where "drm_gem_object_reference d ob = Ok d'" "core hf d' (handles d) (inc ext ob)" "frame d d'"
    using reference_core [of hf d "handles d" ext ob] ok e by (auto simp: gem_ok_def)
  then show ?thesis using gem_ok_frame [OF ok] by auto
qed

lemma dec_inc [simp]: "dec (inc ext ob) ob = ext" by auto

lemma give_name_ok:
  assumes ok: "gem_ok hf d ext" and h: "0 < handles d ob" and fr: "fresh_ids (gd_names d) rounds"
  shows "\<exists>r d'. give_name d ob rounds = Ok (r, d') \<and> gem_ok hf d' ext \<and> frame d d'
     \<and> (case r of Inl e \<Rightarrow> d' = d | Inr n \<Rightarrow> idr_find (gd_names d') n = Some ob)"
proof -
  have c: "core hf d (handles d) ext" using ok by (simp add: gem_ok_def)
  from core_live [OF c, of ob] h obtain g where g: "gd_objs d ob = Some g" by auto
  have k: "object_ok (Some g) (handles d ob) (ext ob)" using core_objD [OF c, of ob] g by simp
  consider (mem) "rounds \<noteq> [] \<and> \<not> fst (rounds ! 0)" | (named) "\<not> (rounds \<noteq> [] \<and> \<not> fst (rounds ! 0))" "gj_name g \<noteq> 0"
    | (err) e where "\<not> (rounds \<noteq> [] \<and> \<not> fst (rounds ! 0))" "gj_name g = 0" "idr_get rounds = Err e"
    | (name) n where "\<not> (rounds \<noteq> [] \<and> \<not> fst (rounds ! 0))" "gj_name g = 0" "idr_get rounds = Ok n"
    using fr by (cases rule: fresh_ids_cases) metis+
  then show ?thesis
  proof cases
    case named
    then have "idr_find (gd_names d) (gj_name g) = Some ob" using c g by (auto simp: core_def names_ok_def)
    then show ?thesis using named g ok by (auto simp: give_name_def deref_def)
  next
    case (name n)
    have n: "0 < n" "idr_find (gd_names d) n = None"
      using fr name by (auto simp: fresh_ids_def idr_find_def map_of_eq_None_iff)
    let ?g = "g\<lparr>gj_name := n, gj_refcount := gj_refcount g + 1\<rparr>"
    let ?d = "set_obj ob (Some ?g) (d\<lparr>gd_names := (n, ob) # gd_names d\<rparr>)"
    have nm: "names_ok d" using c by (simp add: core_def)
    have ne: "gj_name g' \<noteq> n" if "gd_objs d x = Some g'" for x g'
  proof
    assume "gj_name g' = n"
    then have "idr_find (gd_names d) n = Some x" using nm n(1) that by (simp add: names_ok_def)
    with n(2) show False by simp
  qed
    have "names_ok ?d" using nm g name n ne by (auto simp: names_ok_def idr_find_def)
    moreover have "offsets_ok hf ?d" using c g by (auto simp: core_def offsets_ok_def)
    moreover have "object_ok (gd_objs ?d x) (handles d x) (ext x)" for x
      using core_objD [OF c, of x] g name n h by (auto simp: object_ok_def)
    ultimately have "core hf ?d (handles d) ext" unfolding core_def by blast
    from gem_ok_frame [OF ok this] show ?thesis
      using name g by (auto simp: give_name_def deref_def drm_gem_object_reference_def frame_def idr_find_def)
  qed (use g ok in \<open>auto simp: give_name_def deref_def\<close>)
qed

lemma flink_ok:
  assumes ok: "gem_ok hf d ext" and f: "f < length (gd_files d)" and fr: "fresh_ids (gd_names d) rounds"
  shows "\<exists>r d'. drm_gem_flink_ioctl hf gem d f h rounds = Ok (r, d') \<and> gem_ok hf d' ext \<and> frame d d'"
proof (cases gem)
  case True
  from lookup_ok [OF ok f, of h] obtain d1 where d1: "drm_gem_object_lookup d f h = Ok (idr_find (gd_files d ! f) h, d1)"
    "gem_ok hf d1 (case idr_find (gd_files d ! f) h of None \<Rightarrow> ext | Some ob \<Rightarrow> inc ext ob)" "frame d d1" by auto
  show ?thesis
  proof (cases "idr_find (gd_files d ! f) h")
    case None
    then show ?thesis using True d1 by (auto simp: drm_gem_flink_ioctl_def)
  next
    case (Some ob)
    then have "(h, ob) \<in> set (gd_files d ! f)" by (simp add: idr_find_def map_of_SomeD)
    from handles_mem [OF f this] have h: "0 < handles d1 ob" using d1(3) handles_cong [of d1 d] by (simp add: frame_def)
    have ok1: "gem_ok hf d1 (inc ext ob)" using d1 Some by simp
    have "gd_names d1 = gd_names d"
      using d1(1) Some by (auto simp: drm_gem_object_lookup_def drm_gem_object_reference_def deref_def split: option.splits)
    with give_name_ok [OF ok1 h, of rounds] fr obtain r d2 where d2: "give_name d1 ob rounds = Ok (r, d2)" "gem_ok hf d2 (inc ext ob)" "frame d1 d2"
      by auto
    from unref_ok [OF d2(2), of ob] obtain d3 where
      d3: "drm_gem_object_unreference_unlocked hf d2 ob = Ok d3" "gem_ok hf d3 ext" "frame d2 d3" by auto
    show ?thesis using True d1 d2 d3 Some by (auto simp: drm_gem_flink_ioctl_def intro: frame_trans)
  qed
qed (use ok in \<open>simp add: drm_gem_flink_ioctl_def\<close>)

lemma open_ioctl_ok:
  assumes ok: "gem_ok hf d ext" and f: "f < length (gd_files d)" and fr: "fresh_ids (gd_files d ! f) rounds"
  shows "\<exists>r d'. drm_gem_open_ioctl hf gem d f n rounds open_ans = Ok (r, d') \<and> gem_ok hf d' ext
     \<and> (case r of Inl e \<Rightarrow> gd_files d' = gd_files d
        | Inr (h, sz) \<Rightarrow> \<exists>ob. idr_find (gd_names d) n = Some ob \<and> gd_files d' = (gd_files d)[f := (h, ob) # gd_files d ! f])"
proof (cases "gem \<and> idr_find (gd_names d) n \<noteq> None")
  case True
  then obtain ob where nm: "idr_find (gd_names d) n = Some ob" by auto
  have c: "core hf d (handles d) ext" using ok by (simp add: gem_ok_def)
  then obtain g where g: "gd_objs d ob = Some g" using nm by (auto simp: core_def names_ok_def)
  then have live: "0 < handles d ob + ext ob" using core_live [OF c, of ob] by simp
  from ref_ok [OF ok live] obtain d1 where d1: "drm_gem_object_reference d ob = Ok d1" "gem_ok hf d1 (inc ext ob)" "frame d d1" by auto
  then have files: "gd_files d1 = gd_files d" by (simp add: frame_def)
  from create_ok [OF d1(2), of f ob rounds open_ans, unfolded files, OF f _ fr] obtain r d2 where
    d2: "drm_gem_handle_create hf d1 f ob rounds open_ans = Ok (r, d2)" "gem_ok hf d2 (inc ext ob)"
    "case r of Inl e \<Rightarrow> gd_files d2 = gd_files d | Inr h \<Rightarrow> gd_files d2 = (gd_files d)[f := (h, ob) # gd_files d ! f]"
    by auto
  from unref_ok [OF d2(2), of ob] obtain d3 where
    d3: "drm_gem_object_unreference_unlocked hf d2 ob = Ok d3" "gem_ok hf d3 ext" "frame d2 d3" by auto
  show ?thesis
  proof (cases r)
    case (Inl e)
    then show ?thesis using True nm d1 d2 d3 by (auto simp: drm_gem_open_ioctl_def frame_def)
  next
    case (Inr h)
    then have files3: "gd_files d3 = (gd_files d)[f := (h, ob) # gd_files d ! f]" using d2 d3 by (simp add: frame_def)
    then have "0 < handles d3 ob" using f by (intro handles_mem [of f d3 h]) auto
    then obtain g3 where "gd_objs d3 ob = Some g3" using core_live [of hf d3 "handles d3" ext ob] d3(2) by (auto simp: gem_ok_def)
    then show ?thesis using True nm d1 d2 d3 Inr files3 by (auto simp: drm_gem_open_ioctl_def deref_def)
  qed
qed (use ok in \<open>auto simp: drm_gem_open_ioctl_def\<close>)

text \<open>A released file drops every reference of its handles.\<close>

lemma release_handles_core:
  assumes "core hf d H ext" "\<not> gd_locked d" "\<forall>ob. length (filter (\<lambda>e. snd e = ob) t) \<le> H ob"
  shows "\<exists>d'. release_handles hf d t = Ok d' \<and> core hf d' (\<lambda>ob. H ob - length (filter (\<lambda>e. snd e = ob) t)) ext \<and> frame d d'"
  using assms
proof (induction t arbitrary: d H)
  case (Cons e t)
  obtain i ob where e: "e = (i, ob)" by (cases e)
  have h: "0 < H ob" using Cons.prems(3) [rule_format, of ob] by (simp add: e)
  from handle_unreference_core [OF Cons.prems(1) h Cons.prems(2)] obtain d1 where
    d1: "drm_gem_object_handle_unreference_unlocked hf d ob = Ok d1" "core hf d1 (dec H ob) ext" "frame d d1" by auto
  have l1: "\<not> gd_locked d1" using d1(3) Cons.prems(2) by (simp add: frame_def)
  have "length (filter (\<lambda>e. snd e = x) t) \<le> (dec H ob) x" for x
    using Cons.prems(3) [rule_format, of x] by (auto simp: e split: if_splits)
  with Cons.IH [OF d1(2) l1] obtain d2 where d2: "release_handles hf d1 t = Ok d2"
    "core hf d2 (\<lambda>x. (dec H ob) x - length (filter (\<lambda>e. snd e = x) t)) ext" "frame d1 d2" by blast
  have "(\<lambda>x. (dec H ob) x - length (filter (\<lambda>e. snd e = x) t)) = (\<lambda>x. H x - length (filter (\<lambda>e. snd e = x) ((i, ob) # t)))"
    by (auto simp: fun_eq_iff)
  then show ?case using d1 d2 e by (auto intro: frame_trans)
qed simp

lemma release_ok:
  assumes ok: "gem_ok hf d ext" and f: "f < length (gd_files d)"
  shows "\<exists>d'. drm_gem_release hf d f = Ok d' \<and> gem_ok hf d' ext \<and> gd_files d' = (gd_files d)[f := []]"
proof -
  let ?t = "sort_key fst (gd_files d ! f)"
  have n: "length (filter (\<lambda>e. snd e = ob) ?t) = length (filter (\<lambda>e. snd e = ob) (gd_files d ! f))" for ob
    by (simp add: filter_sort)
  have le: "\<forall>ob. length (filter (\<lambda>e. snd e = ob) ?t) \<le> handles d ob"
    unfolding n handles_def using f by (intro allI member_le_sum_list) auto
  from release_handles_core [of hf d "handles d" ext ?t] ok le obtain d1 where d1: "release_handles hf d ?t = Ok d1"
    "core hf d1 (\<lambda>ob. handles d ob - length (filter (\<lambda>e. snd e = ob) ?t)) ext" "frame d d1"
    by (auto simp: gem_ok_def)
  have fl: "gd_files d1 = gd_files d" using d1(3) by (simp add: frame_def)
  have "handles (set_file f [] d1) ob = handles d ob - length (filter (\<lambda>e. snd e = ob) ?t)" for ob
    using handles_set_file [of f d1 "[]" ob] f fl handles_cong [OF fl] by (simp add: n)
  then have "handles (set_file f [] d1) = (\<lambda>ob. handles d ob - length (filter (\<lambda>e. snd e = ob) ?t))" by auto
  then have "gem_ok hf (set_file f [] d1) ext"
    using d1 ok fl by (auto simp: gem_ok_def frame_def dest!: set_update_subset_insert [THEN subsetD])
  then show ?thesis using d1 fl by (simp add: drm_gem_release_def)
qed

section \<open>Objects and mappings\<close>

lemma gem_init_ok:
  assumes ok: "gem_ok hf d ext" and n: "gd_objs d ob = None" and sz: "sz AND 0xfff = 0"
  shows "\<exists>d'. drm_gem_object_init d ob sz = Ok d' \<and> gem_ok hf d' (ext(ob := 1)) \<and> frame d d' \<and> ext ob = 0 \<and> handles d ob = 0
     \<and> (\<exists>g. d' = set_obj ob (Some g) d \<and> gj_size g = sz \<and> gj_name g = 0 \<and> \<not> gj_on_map g)"
proof -
  have c: "core hf d (handles d) ext" using ok by (simp add: gem_ok_def)
  have z: "handles d ob = 0" "ext ob = 0" using core_objD [OF c, of ob] n by (simp_all add: object_ok_def)
  let ?g = "\<lparr>gj_refcount = 1, gj_handle_count = 0, gj_name = 0, gj_on_map = False, gj_key = 0, gj_size = sz\<rparr>"
  have "names_ok (set_obj ob (Some ?g) d)" "offsets_ok hf (set_obj ob (Some ?g) d)"
    using c n by (auto simp: core_def names_ok_def offsets_ok_def)
  moreover have "object_ok (gd_objs (set_obj ob (Some ?g) d) x) (handles d x) ((ext(ob := 1)) x)" for x
    using core_objD [OF c, of x] z by (auto simp: object_ok_def)
  ultimately have "core hf (set_obj ob (Some ?g) d) (handles d) (ext(ob := 1))" unfolding core_def by blast
  from gem_ok_frame [OF ok this] show ?thesis using sz z by (auto simp: drm_gem_object_init_def frame_def intro!: exI [of _ ?g])
qed

text \<open>An object that was never published is taken back.\<close>

lemma forget_ok:
  assumes ok: "gem_ok hf d ext" and g: "gd_objs d ob = Some g" "gj_name g = 0" "\<not> gj_on_map g" and h: "handles d ob = 0"
  shows "gem_ok hf (set_obj ob None d) (ext(ob := 0))"
proof -
  have c: "core hf d (handles d) ext" using ok by (simp add: gem_ok_def)
  have "names_ok (set_obj ob None d)" "offsets_ok hf (set_obj ob None d)"
    using c g by (auto simp: core_def names_ok_def offsets_ok_def)
  moreover have "object_ok (gd_objs (set_obj ob None d) x) (handles d x) ((ext(ob := 0)) x)" for x
    using core_objD [OF c, of x] h by (auto simp: object_ok_def)
  ultimately have "core hf (set_obj ob None d) (handles d) (ext(ob := 0))" unfolding core_def by blast
  from gem_ok_frame [OF ok this] show ?thesis by (simp add: frame_def)
qed

lemma round_up_page: "((sz :: u64) + 0xfff AND NOT 0xfff) AND 0xfff = 0"
  by (simp add: bit_eq_iff bit_simps)

lemma kref_put_more:
  assumes "gd_objs d ob = Some g" "1 < gj_refcount g"
  shows "kref_put release d ob = kref_put release' d ob"
  using assms by (simp add: kref_put_def deref_def)

lemma unref_more_ok:
  assumes ok: "gem_ok hf d ext" and e: "0 < ext ob" and h: "1 < handles d ob + ext ob"
  shows "\<exists>d'. drm_gem_object_unreference hf d ob = Ok d' \<and> gem_ok hf d' (dec ext ob) \<and> frame d d'"
proof -
  have c: "core hf d (handles d) ext" using ok by (simp add: gem_ok_def)
  from core_live [OF c, of ob] e obtain g where g: "gd_objs d ob = Some g" by auto
  have k: "object_ok (Some g) (handles d ob) (ext ob)" using core_objD [OF c, of ob] g by simp
  then have "1 < gj_refcount g" using h by (auto simp: object_ok_def)
  let ?g = "g\<lparr>gj_refcount := gj_refcount g - 1\<rparr>"
  have "object_ok (Some ?g) (handles d ob) (ext ob - 1)" using k e h by (auto simp: object_ok_def)
  from core_upd [OF c g _ _ _ this] have "core hf (set_obj ob (Some ?g) d) (handles d) (dec ext ob)" by simp
  from gem_ok_frame [OF ok this] show ?thesis
    using \<open>1 < gj_refcount g\<close> g by (simp add: drm_gem_object_unreference_def kref_put_def deref_def frame_def)
qed

lemma i915_create_ok:
  assumes ok: "gem_ok hf d ext" and f: "f < length (gd_files d)" and mem: "\<forall>ob. mem = Some ob \<longrightarrow> gd_objs d ob = None"
    and fr: "fresh_ids (gd_files d ! f) rounds"
  shows "\<exists>r d'. i915_gem_create hf d f sz mem rounds = Ok (r, d') \<and> gem_ok hf d' ext
     \<and> (case r of Inl e \<Rightarrow> gd_files d' = gd_files d
        | Inr h \<Rightarrow> \<exists>ob. mem = Some ob \<and> gd_files d' = (gd_files d)[f := (h, ob) # gd_files d ! f])"
proof (cases "(sz + 0xfff) AND NOT 0xfff = 0 \<or> mem = None")
  case True
  then show ?thesis using ok by (auto simp: i915_gem_create_def i915_gem_alloc_object_def Let_def)
next
  case False
  let ?sz = "(sz + 0xfff) AND NOT 0xfff"
  obtain ob where m: "mem = Some ob" using False by auto
  from gem_init_ok [OF ok _ round_up_page, of ob sz] mem m obtain d1 g where d1: "drm_gem_object_init d ob ?sz = Ok d1"
    "gem_ok hf d1 (ext(ob := 1))" "frame d d1" "ext ob = 0" "handles d ob = 0" "gd_objs d1 ob = Some g" "gj_name g = 0" "\<not> gj_on_map g"
    by auto
  have files: "gd_files d1 = gd_files d" using d1(3) by (simp add: frame_def)
  have alloc: "i915_gem_alloc_object d mem ?sz = Ok (Some ob, d1)" using d1 m by (simp add: i915_gem_alloc_object_def)
  from create_ok [OF d1(2), of f ob rounds None, unfolded files, OF f _ fr] obtain r d2 where
    d2: "drm_gem_handle_create hf d1 f ob rounds None = Ok (r, d2)" "gem_ok hf d2 (ext(ob := 1))"
    "case r of Inl e \<Rightarrow> gd_files d2 = gd_files d | Inr h \<Rightarrow> gd_files d2 = (gd_files d)[f := (h, ob) # gd_files d ! f]"
    by auto
  have ext: "(ext(ob := 1))(ob := 0) = ext" "dec (ext(ob := 1)) ob = ext" using d1(4) by auto
  show ?thesis
  proof (cases r)
    case (Inl e)
    have "d2 = d1"
      using d2(1) Inl by (auto simp: drm_gem_handle_create_def count_handle_def split: outcome.splits prod.splits)
    moreover have "handles d1 ob = 0" using d1(5) handles_cong [OF files] by simp
    ultimately have "gem_ok hf (set_obj ob None d2) ext"
      using forget_ok [OF d1(2) d1(6-8)] ext by simp
    then show ?thesis using False alloc d2 Inl by (simp add: i915_gem_create_def Let_def)
  next
    case (Inr h)
    then have "0 < handles d2 ob" using d2(3) f by (intro handles_mem [of f d2 h]) auto
    then obtain d3 where "drm_gem_object_unreference hf d2 ob = Ok d3" "gem_ok hf d3 ext" "frame d2 d3"
      using unref_more_ok [OF d2(2), of ob] ext by auto
    then show ?thesis using False alloc d2 Inr m by (simp add: i915_gem_create_def Let_def frame_def)
  qed
qed

lemma unref_locked_ok:
  assumes c: "core hf d (handles d) ext" and l: "gd_locked d" and e: "0 < ext ob"
  shows "\<exists>d'. drm_gem_object_unreference hf d ob = Ok d' \<and> core hf d' (handles d) (dec ext ob) \<and> frame d d'"
  using unreference_core [OF c e l] by (simp add: drm_gem_object_unreference_def)

lemma mmap_gtt_ok:
  assumes ok: "gem_ok hf d ext" and f: "f < length (gd_files d)" and u: "u \<notin> gd_unr d" "u \<le> DRM_GEM_MAX_IDX"
  shows "\<exists>r d'. i915_gem_mmap_gtt hf mappable willneed d f h (Some u) = Ok (r, d') \<and> gem_ok hf d' ext \<and> frame d d'
     \<and> (case r of Inl e \<Rightarrow> True
        | Inr off \<Rightarrow> \<exists>ob g. idr_find (gd_files d ! f) h = Some ob \<and> gd_objs d' ob = Some g \<and> gj_on_map g
            \<and> off = DRM_GEM_MAPPING_OFF (gj_key g) OR DRM_GEM_MAPPING_KEY)"
proof -
  have c: "core hf d (handles d) ext" and l: "\<not> gd_locked d" using ok by (simp_all add: gem_ok_def)
  show ?thesis
  proof (cases "idr_find (gd_files d ! f) h")
    case None
    have "gem_ok hf (d\<lparr>gd_locked := False\<rparr>) ext" "frame d (d\<lparr>gd_locked := False\<rparr>)"
      using ok l by (simp_all add: gem_ok_def frame_def handles_cong [of "d\<lparr>gd_locked := False\<rparr>" d])
    then show ?thesis using None ok l by (simp add: i915_gem_mmap_gtt_def drm_gem_object_lookup_def)
  next
    case (Some ob)
    then have "(h, ob) \<in> set (gd_files d ! f)" by (simp add: idr_find_def map_of_SomeD)
    from handles_mem [OF f this] have h: "0 < handles d ob" .
    obtain d1 where d1: "drm_gem_object_reference (d\<lparr>gd_locked := True\<rparr>) ob = Ok d1" "core hf d1 (handles d) (inc ext ob)"
      "frame (d\<lparr>gd_locked := True\<rparr>) d1" using reference_core [of hf "d\<lparr>gd_locked := True\<rparr>" "handles d" ext ob] c h by auto
    have h1: "handles d1 = handles d" using d1(3) handles_cong [of d1 d] by (simp add: frame_def)
    obtain g where g: "gd_objs d1 ob = Some g" using core_live [OF d1(2), of ob] h by auto
    have unr: "gd_unr d1 = gd_unr d"
      using d1(1) by (auto simp: drm_gem_object_reference_def deref_def split: option.splits)
    have l1: "gd_locked d1" using d1(3) by (simp add: frame_def)
    define body where "body = (if mappable < gj_size g then Ok (Inl E2BIG, d1)
             else if \<not> willneed then Ok (Inl EINVAL, d1)
             else bind_outcome (drm_gem_create_mmap_offset hf d1 ob (Some u)) (\<lambda>(r, d). case r of
                    Some e \<Rightarrow> Ok (Inl e, d)
                  | None \<Rightarrow> deref d ob (\<lambda>g. Ok (Inr (DRM_GEM_MAPPING_OFF (gj_key g) OR DRM_GEM_MAPPING_KEY), d))))"
    obtain d2 g2 where cm: "drm_gem_create_mmap_offset hf d1 ob (Some u) = Ok (None, d2)" "core hf d2 (handles d) (inc ext ob)" "frame d1 d2"
      "gd_objs d2 ob = Some g2" "gj_on_map g2" using create_mmap_core [OF d1(2) g, of u] u unr by auto
    obtain r d3 where b: "body = Ok (r, d3)" "core hf d3 (handles d) (inc ext ob)" "frame d1 d3"
      "case r of Inl e \<Rightarrow> True | Inr off \<Rightarrow> d3 = d2 \<and> off = DRM_GEM_MAPPING_OFF (gj_key g2) OR DRM_GEM_MAPPING_KEY"
    proof -
      consider "mappable < gj_size g" | "\<not> mappable < gj_size g" "\<not> willneed" | "\<not> mappable < gj_size g" "willneed" by auto
      then show thesis
      proof cases
        case 1
        then show ?thesis using d1 by (intro that [of "Inl E2BIG" d1]) (simp_all add: body_def)
      next
        case 2
        then show ?thesis using d1 by (intro that [of "Inl EINVAL" d1]) (simp_all add: body_def)
      next
        case 3
        then show ?thesis
          using cm by (intro that [of "Inr (DRM_GEM_MAPPING_OFF (gj_key g2) OR DRM_GEM_MAPPING_KEY)" d2]) (simp_all add: body_def deref_def)
      qed
    qed
    have h3: "handles d3 = handles d" using b(3) h1 handles_cong [of d3 d1] by (simp add: frame_def)
    obtain g3 where g3: "gd_objs d3 ob = Some g3" using core_live [OF b(2), of ob] h by auto
    have k3: "object_ok (Some g3) (handles d ob) (ext ob + 1)" using core_objD [OF b(2), of ob] g3 by simp
    then have more: "1 < gj_refcount g3" using h by (auto simp: object_ok_def)
    let ?d4 = "set_obj ob (Some (g3\<lparr>gj_refcount := gj_refcount g3 - 1\<rparr>)) d3"
    have un: "drm_gem_object_unreference hf d3 ob = Ok ?d4"
      using g3 more by (simp add: drm_gem_object_unreference_def kref_put_def deref_def)
    then have c4: "core hf ?d4 (handles d) ext" "frame d3 ?d4"
      using unref_locked_ok [of hf d3 "inc ext ob" ob] b(2,3) l1 h3 by (auto simp: frame_def)
    have fr: "frame d (?d4\<lparr>gd_locked := False\<rparr>)" using c4(2) b(3) d1(3) l by (simp add: frame_def)
    have "i915_gem_mmap_gtt hf mappable willneed d f h (Some u) = Ok (r, ?d4\<lparr>gd_locked := False\<rparr>)"
      using l Some d1(1) g b(1) un
      by (simp add: i915_gem_mmap_gtt_def drm_gem_object_lookup_def deref_def [of d1] body_def [symmetric])
    moreover have "gem_ok hf (?d4\<lparr>gd_locked := False\<rparr>) ext"
      using c4(1) by (intro gem_ok_frame [OF ok _ fr]) simp
    ultimately show ?thesis
      using fr Some b(4) cm(4,5) g3 by (auto split: sum.splits)
  qed
qed

lemma free_mmap_ok:
  assumes ok: "gem_ok hf d ext" and e: "0 < ext ob"
  shows "\<exists>d'. drm_gem_pager_dtr hf d ob = Ok d' \<and> gem_ok hf d' (dec ext ob) \<and> frame d d'"
proof -
  have c: "core hf (d\<lparr>gd_locked := True\<rparr>) (handles d) ext" and l: "\<not> gd_locked d" using ok by (simp_all add: gem_ok_def)
  obtain g where g: "gd_objs (d\<lparr>gd_locked := True\<rparr>) ob = Some g" using core_live [OF c, of ob] e by auto
  from free_mmap_core [OF c g] obtain d1 where d1: "drm_gem_free_mmap_offset hf (d\<lparr>gd_locked := True\<rparr>) ob = Ok d1"
    "core hf d1 (handles d) ext" "frame (d\<lparr>gd_locked := True\<rparr>) d1" by auto
  obtain d2 where d2: "drm_gem_object_unreference hf d1 ob = Ok d2" "core hf d2 (handles d) (dec ext ob)" "frame d1 d2"
    using unreference_core [OF d1(2) e] d1(3) by (auto simp: drm_gem_object_unreference_def frame_def)
  have fr: "frame d (d2\<lparr>gd_locked := False\<rparr>)" using d1(3) d2(3) l by (simp add: frame_def)
  have "gem_ok hf (d2\<lparr>gd_locked := False\<rparr>) (dec ext ob)" using d2(2) by (intro gem_ok_frame [OF ok _ fr]) simp
  then show ?thesis using d1 d2 l fr by (simp add: drm_gem_pager_dtr_def with_struct_mutex_def)
qed

lemma from_offset_live:
  assumes ok: "gem_ok hf d ext" and o: "drm_gem_object_from_offset hf d off = Some ob"
  shows "0 < handles d ob + ext ob"
proof -
  have c: "core hf d (handles d) ext" using ok by (simp add: gem_ok_def)
  then have "offsets_ok hf d" by (simp add: core_def)
  then have "gd_objs d ob \<noteq> None"
    using o by (auto simp: drm_gem_object_from_offset_def offsets_ok_def ht.find_lookup split: if_splits outcome.splits option.splits)
  then show ?thesis using core_live [OF c, of ob] by simp
qed

lemma mmap_single_ok:
  assumes ok: "gem_ok hf d ext"
  shows "\<exists>r d'. drm_gem_mmap_single hf d off pager = Ok (r, d') \<and> frame d d'
     \<and> (case r of Inl e \<Rightarrow> gem_ok hf d' ext
        | Inr (ob, x) \<Rightarrow> drm_gem_object_from_offset hf d off = Some ob \<and> x = DRM_GEM_MAPPING_MAPOFF off \<and> gem_ok hf d' (inc ext ob))"
proof (cases "drm_gem_object_from_offset hf d off")
  case None
  then show ?thesis using ok by (simp add: drm_gem_mmap_single_def gem_ok_def)
next
  case (Some ob)
  from ref_ok [OF ok from_offset_live [OF ok Some]] obtain d1 where
    d1: "drm_gem_object_reference d ob = Ok d1" "gem_ok hf d1 (inc ext ob)" "frame d d1" by auto
  from unref_ok [OF d1(2), of ob] obtain d2 where
    d2: "drm_gem_object_unreference_unlocked hf d1 ob = Ok d2" "gem_ok hf d2 ext" "frame d1 d2" by auto
  show ?thesis using Some d1 d2 ok by (cases pager) (auto simp: drm_gem_mmap_single_def gem_ok_def intro: frame_trans)
qed

end
