(* ===== verification/Drm_Gem_Claims.thy ===== *)
theory Drm_Gem_Claims
  imports Drm_Gem_Ops
begin

text \<open>
  What the GEM objects promise: exact reference counts along every sequence of calls, release of all
  memory once nobody holds it, mmap offsets that lead back to their object; and the two interleavings in
  the creation of a handle that break the counts.
\<close>

section \<open>Sequences of calls\<close>

datatype gem_call =
    Open | Release nat | Alloc nat u64
  | Create nat u64 "nat option" "(bool \<times> nat outcome) list"
  | Handle_create nat nat "(bool \<times> nat outcome) list" "errno option"
  | Close bool nat nat | Lookup nat nat | Ref nat | Unref nat
  | Flink bool nat nat "(bool \<times> nat outcome) list"
  | Open_name bool nat nat "(bool \<times> nat outcome) list" "errno option"
  | Mmap_gtt u64 bool nat nat u64
  | Mmap_single u64 bool | Pager_dtor nat | Pager_dtr nat

text \<open>Which calls their callers may make: on open files, on objects they hold a reference to, with new
  memory, and with answers the libraries give.\<close>

fun gem_legal :: "gem_dev \<Rightarrow> (nat \<Rightarrow> nat) \<Rightarrow> gem_call \<Rightarrow> bool" where
  "gem_legal d ext Open = True"
| "gem_legal d ext (Release f) = (f < length (gd_files d))"
| "gem_legal d ext (Alloc ob sz) = (gd_objs d ob = None \<and> sz AND 0xfff = 0)"
| "gem_legal d ext (Create f sz mem rounds) =
     (f < length (gd_files d) \<and> (case mem of None \<Rightarrow> True | Some ob \<Rightarrow> gd_objs d ob = None) \<and> fresh_ids (gd_files d ! f) rounds)"
| "gem_legal d ext (Handle_create f ob rounds ans) = (f < length (gd_files d) \<and> 0 < ext ob \<and> fresh_ids (gd_files d ! f) rounds)"
| "gem_legal d ext (Close gem f h) = (f < length (gd_files d))"
| "gem_legal d ext (Lookup f h) = (f < length (gd_files d))"
| "gem_legal d ext (Ref ob) = (0 < ext ob)"
| "gem_legal d ext (Unref ob) = (0 < ext ob)"
| "gem_legal d ext (Flink gem f h rounds) = (f < length (gd_files d) \<and> fresh_ids (gd_names d) rounds)"
| "gem_legal d ext (Open_name gem f n rounds ans) = (f < length (gd_files d) \<and> fresh_ids (gd_files d ! f) rounds)"
| "gem_legal d ext (Mmap_gtt mappable willneed f h u) = (f < length (gd_files d) \<and> u \<notin> gd_unr d \<and> u \<le> DRM_GEM_MAX_IDX)"
| "gem_legal d ext (Mmap_single off pager) = True"
| "gem_legal d ext (Pager_dtor ob) = (0 < ext ob)"
| "gem_legal d ext (Pager_dtr ob) = (0 < ext ob)"

abbreviation keep :: "(nat \<Rightarrow> nat) \<Rightarrow> gem_dev outcome \<Rightarrow> (gem_dev \<times> (nat \<Rightarrow> nat)) outcome" where
  "keep ext r \<equiv> bind_outcome r (\<lambda>d. Ok (d, ext))"

abbreviation keep2 :: "(nat \<Rightarrow> nat) \<Rightarrow> ('a \<times> gem_dev) outcome \<Rightarrow> (gem_dev \<times> (nat \<Rightarrow> nat)) outcome" where
  "keep2 ext r \<equiv> bind_outcome r (\<lambda>(_, d). Ok (d, ext))"

fun gem_exec :: "hash32 \<Rightarrow> gem_dev \<Rightarrow> (nat \<Rightarrow> nat) \<Rightarrow> gem_call \<Rightarrow> (gem_dev \<times> (nat \<Rightarrow> nat)) outcome" where
  "gem_exec hf d ext Open = Ok (drm_gem_open d, ext)"
| "gem_exec hf d ext (Release f) = keep ext (drm_gem_release hf d f)"
| "gem_exec hf d ext (Alloc ob sz) = keep (ext(ob := 1)) (drm_gem_object_init d ob sz)"
| "gem_exec hf d ext (Create f sz mem rounds) = keep2 ext (i915_gem_create hf d f sz mem rounds)"
| "gem_exec hf d ext (Handle_create f ob rounds ans) = keep2 ext (drm_gem_handle_create hf d f ob rounds ans)"
| "gem_exec hf d ext (Close gem f h) = keep2 ext (drm_gem_close_ioctl hf gem d f h)"
| "gem_exec hf d ext (Lookup f h) =
     bind_outcome (drm_gem_object_lookup d f h) (\<lambda>(r, d). Ok (d, case r of None \<Rightarrow> ext | Some ob \<Rightarrow> inc ext ob))"
| "gem_exec hf d ext (Ref ob) = keep (inc ext ob) (drm_gem_object_reference d ob)"
| "gem_exec hf d ext (Unref ob) = keep (dec ext ob) (drm_gem_object_unreference_unlocked hf d ob)"
| "gem_exec hf d ext (Flink gem f h rounds) = keep2 ext (drm_gem_flink_ioctl hf gem d f h rounds)"
| "gem_exec hf d ext (Open_name gem f n rounds ans) = keep2 ext (drm_gem_open_ioctl hf gem d f n rounds ans)"
| "gem_exec hf d ext (Mmap_gtt mappable willneed f h u) = keep2 ext (i915_gem_mmap_gtt hf mappable willneed d f h (Some u))"
| "gem_exec hf d ext (Mmap_single off pager) =
     bind_outcome (drm_gem_mmap_single hf d off pager) (\<lambda>(r, d). Ok (d, case r of Inl e \<Rightarrow> ext | Inr (ob, x) \<Rightarrow> inc ext ob))"
| "gem_exec hf d ext (Pager_dtor ob) = keep (dec ext ob) (i915_gem_pager_dtor hf d ob)"
| "gem_exec hf d ext (Pager_dtr ob) = keep (dec ext ob) (drm_gem_pager_dtr hf d ob)"

inductive gem_reachable :: "hash32 \<Rightarrow> gem_dev \<Rightarrow> (nat \<Rightarrow> nat) \<Rightarrow> bool" for hf where
  gem_start: "drm_gem_init True True = (None, d) \<Longrightarrow> gem_reachable hf d (\<lambda>_. 0)"
| gem_step: "gem_reachable hf d ext \<Longrightarrow> gem_legal d ext c \<Longrightarrow> gem_exec hf d ext c = Ok (d', ext') \<Longrightarrow> gem_reachable hf d' ext'"

lemma exec_ok:
  assumes ok: "gem_ok hf d ext" and l: "gem_legal d ext c"
  shows "\<exists>d' ext'. gem_exec hf d ext c = Ok (d', ext') \<and> gem_ok hf d' ext'"
proof (cases c)
  case Open
  have "handles (drm_gem_open d) = handles d" by (simp add: handles_def drm_gem_open_def fun_eq_iff)
  then show ?thesis using ok Open by (auto simp: gem_ok_def drm_gem_open_def)
next
  case (Release f)
  then show ?thesis using release_ok [OF ok] l by fastforce
next
  case (Alloc ob sz)
  then show ?thesis using gem_init_ok [OF ok, of ob sz] l by auto
next
  case (Create f sz mem rounds)
  then show ?thesis using i915_create_ok [OF ok, of f mem rounds sz] l by (auto split: option.splits)
next
  case (Handle_create f ob rounds ans)
  then show ?thesis using create_ok [OF ok, of f ob rounds ans] l by auto
next
  case (Close gem f h)
  then show ?thesis using gem_delete_ok [OF ok, of f h] ok l by (auto simp: drm_gem_close_ioctl_def)
next
  case (Lookup f h)
  then show ?thesis using lookup_ok [OF ok, of f h] l by auto
next
  case (Ref ob)
  then show ?thesis using ref_ok [OF ok, of ob] l by auto
next
  case (Unref ob)
  then show ?thesis using unref_ok [OF ok, of ob] l by auto
next
  case (Flink gem f h rounds)
  then show ?thesis using flink_ok [OF ok, of f rounds gem h] l by auto
next
  case (Open_name gem f n rounds ans)
  then show ?thesis using open_ioctl_ok [OF ok, of f rounds gem n ans] l by auto
next
  case (Mmap_gtt mappable willneed f h u)
  then show ?thesis using mmap_gtt_ok [OF ok, of f u mappable willneed h] l by auto
next
  case (Mmap_single off pager)
  from mmap_single_ok [OF ok, of off pager] obtain r d' where m: "drm_gem_mmap_single hf d off pager = Ok (r, d')"
    "case r of Inl e \<Rightarrow> gem_ok hf d' ext | Inr (ob, x) \<Rightarrow> gem_ok hf d' (inc ext ob)"
  proof -
    fix r d' assume t: "\<And>r d'. drm_gem_mmap_single hf d off pager = Ok (r, d') \<Longrightarrow>
        (case r of Inl e \<Rightarrow> gem_ok hf d' ext | Inr (ob, x) \<Rightarrow> gem_ok hf d' (inc ext ob)) \<Longrightarrow> thesis"
    from mmap_single_ok [OF ok, of off pager] show thesis by (elim exE conjE) (rule t, assumption, auto split: sum.splits)
  qed
  then show ?thesis using Mmap_single by (cases r) auto
next
  case (Pager_dtor ob)
  then show ?thesis using unref_ok [OF ok, of ob] l
    by (auto simp: i915_gem_pager_dtor_def drm_gem_object_unreference_unlocked_def drm_gem_object_unreference_def)
next
  case (Pager_dtr ob)
  then show ?thesis using free_mmap_ok [OF ok, of ob] l by auto
qed

lemma init_gem_ok:
  assumes "drm_gem_init True True = (None, d)" shows "gem_ok hf d (\<lambda>_. 0)"
proof -
  obtain ht where ht: "drm_ht_create \<lparr>ht_order = 0, ht_table = None\<rparr> 12 True = (None :: errno option, ht :: nat drm_open_hash)"
    by (simp add: drm_ht_create_def)
  from create_wf [OF _ this, of hf] have "ht_wf hf ht" "ht_lookup hf ht = Map.empty" by simp_all
  moreover have "d = \<lparr>gd_objs = \<lambda>_. None, gd_names = [], gd_files = [], gd_hash = ht, gd_unr = {}, gd_locked = False\<rparr>"
    using assms ht by (simp add: drm_gem_init_def)
  ultimately show ?thesis
    by (simp add: gem_ok_def core_def object_ok_def names_ok_def offsets_ok_def idr_find_def handles_def)
qed

lemma reachable_ok: "gem_reachable hf d ext \<Longrightarrow> gem_ok hf d ext"
proof (induction rule: gem_reachable.induct)
  case (gem_step d ext c d' ext')
  then show ?case using exec_ok [OF gem_step.IH gem_step.hyps(2)] by auto
qed (rule init_gem_ok)

section \<open>The properties\<close>





lemma offset_bits:
  assumes "k \<le> DRM_GEM_MAX_IDX" "x < 2 ^ 40"
  shows "((DRM_GEM_MAPPING_OFF k OR DRM_GEM_MAPPING_KEY) + x) AND DRM_GEM_MAPPING_MASK = DRM_GEM_MAPPING_KEY"
    "DRM_GEM_MAPPING_IDX (((DRM_GEM_MAPPING_OFF k OR DRM_GEM_MAPPING_KEY) + x) AND NOT DRM_GEM_MAPPING_KEY) = k"
    "DRM_GEM_MAPPING_MAPOFF ((DRM_GEM_MAPPING_OFF k OR DRM_GEM_MAPPING_KEY) + x) = x"
proof -
  have small: "n < m" if "bit w n" "w < 2 ^ m" for w :: u64 and n m
  proof (rule ccontr)
    assume "\<not> n < m"
    moreover have "unat (2 ^ m :: u64) = 2 ^ m" if "m < 64"
    proof -
      have "unat (2 ^ m :: u64) = unat (word_of_nat (2 ^ m) :: u64)" by simp
      also have "\<dots> = take_bit 64 (2 ^ m)" by (simp only: unsigned_of_nat) simp
      also have "\<dots> = 2 ^ m" using that by (intro take_bit_nat_eq_self power_strict_increasing) auto
      finally show ?thesis .
    qed
    then have "unat w < 2 ^ m" if "m < 64" using \<open>w < 2 ^ m\<close> that by (simp add: word_less_nat_alt)
    moreover have "n < 64" using \<open>bit w n\<close> bit_imp_le_length [of w n] by simp
    ultimately have "take_bit m (unat w) = unat w" using \<open>m < 64 \<Longrightarrow> unat w < 2 ^ m\<close> by (simp add: take_bit_nat_eq_self)
    then have "bit (take_bit m (unat w)) n" using \<open>bit w n\<close> by (simp add: bit_unsigned_iff)
    then show False using \<open>\<not> n < m\<close> by (simp add: bit_take_bit_iff)
  qed
  have "unat k < 2 ^ 22" using assms(1) by (simp add: DRM_GEM_MAX_IDX_def word_le_nat_alt)
  then have k: "bit k n \<Longrightarrow> n < 22" for n using small [of k n 22] by (simp add: word_less_nat_alt)
  have x: "bit x n \<Longrightarrow> n < 40" for n using small [OF _ assms(2)] .
  have max: "bit DRM_GEM_MAX_IDX n \<longleftrightarrow> n < 22" for n
  proof -
    have e: "DRM_GEM_MAX_IDX = mask 22" by (simp add: DRM_GEM_MAX_IDX_def mask_eq_exp_minus_1)
    show ?thesis unfolding e by (auto simp: bit_mask_iff)
  qed
  have three: "bit (3 :: u64) n \<longleftrightarrow> n < 2" for n
  proof -
    have e: "(3 :: u64) = mask 2" by (simp add: mask_eq_exp_minus_1)
    show ?thesis unfolding e by (auto simp: bit_mask_iff)
  qed
  have two: "bit (2 :: u64) n \<longleftrightarrow> n = 1" for n
  proof -
    have "bit (2 ^ 1 :: u64) n \<longleftrightarrow> n = 1" by (simp only: bit_exp_iff) auto
    then show ?thesis by simp
  qed
  have key: "bit DRM_GEM_MAPPING_KEY n \<longleftrightarrow> n = 63" for n
    unfolding DRM_GEM_MAPPING_KEY_def bit_push_bit_iff two by auto
  have msk: "bit DRM_GEM_MAPPING_MASK n \<longleftrightarrow> n = 62 \<or> n = 63" for n
    unfolding DRM_GEM_MAPPING_MASK_def bit_push_bit_iff three by auto
  have "(DRM_GEM_MAPPING_OFF k OR DRM_GEM_MAPPING_KEY) AND x = 0"
    by (rule bit_word_eqI) (auto simp: bit_simps key DRM_GEM_MAPPING_OFF_def dest: x)
  then have a: "(DRM_GEM_MAPPING_OFF k OR DRM_GEM_MAPPING_KEY) + x = DRM_GEM_MAPPING_OFF k OR DRM_GEM_MAPPING_KEY OR x"
    by (simp only: disjunctive_add_eq_or or.assoc)
  show "((DRM_GEM_MAPPING_OFF k OR DRM_GEM_MAPPING_KEY) + x) AND DRM_GEM_MAPPING_MASK = DRM_GEM_MAPPING_KEY" unfolding a unfolding DRM_GEM_MAPPING_OFF_def DRM_GEM_MAPPING_IDX_def DRM_GEM_MAPPING_MAPOFF_def
    by (rule bit_word_eqI, auto simp: bit_simps key msk max dest: k x)
  show "DRM_GEM_MAPPING_IDX (((DRM_GEM_MAPPING_OFF k OR DRM_GEM_MAPPING_KEY) + x) AND NOT DRM_GEM_MAPPING_KEY) = k" unfolding a unfolding DRM_GEM_MAPPING_OFF_def DRM_GEM_MAPPING_IDX_def DRM_GEM_MAPPING_MAPOFF_def
    by (rule bit_word_eqI, auto simp: bit_simps key msk max dest: k x)
  show "DRM_GEM_MAPPING_MAPOFF ((DRM_GEM_MAPPING_OFF k OR DRM_GEM_MAPPING_KEY) + x) = x" unfolding a unfolding DRM_GEM_MAPPING_OFF_def DRM_GEM_MAPPING_IDX_def DRM_GEM_MAPPING_MAPOFF_def
    by (rule bit_word_eqI, auto simp: bit_simps key msk max dest: k x)
qed

text \<open>C33: The offset that user space gets for a handle, plus any offset below \<open>2 ^ 40\<close> into the object,
  is mapped to that object at that offset, and the mapping holds a reference.\<close>

theorem gem_mmap_offset_roundtrip:
  assumes "gem_reachable hf d ext" "gem_legal d ext (Mmap_gtt mappable willneed f h u)" "x < 2 ^ 40"
    and "i915_gem_mmap_gtt hf mappable willneed d f h (Some u) = Ok (Inr off, d')"
  shows "\<exists>ob d''. idr_find (gd_files d ! f) h = Some ob \<and> drm_gem_mmap_single hf d' (off + x) True = Ok (Inr (ob, x), d'')
    \<and> gem_reachable hf d'' (inc ext ob)"
proof -
  note ok = reachable_ok [OF assms(1)]
  from mmap_gtt_ok [OF ok, of f u mappable willneed h] assms(2,4) obtain ob g where
    ok': "gem_ok hf d' ext" and fi: "idr_find (gd_files d ! f) h = Some ob" and g: "gd_objs d' ob = Some g" "gj_on_map g"
    and off: "off = DRM_GEM_MAPPING_OFF (gj_key g) OR DRM_GEM_MAPPING_KEY" by auto
  have r: "gem_reachable hf d' ext" by (rule gem_step [OF assms(1,2)]) (simp add: assms(4))
  have o: "offsets_ok hf d'" using ok' by (simp add: gem_ok_def core_def)
  then have l: "ht_lookup hf (gd_hash d') (gj_key g) = Some ob" and wf: "ht_wf hf (gd_hash d')" using g by (auto simp: offsets_ok_def)
  then have "gj_key g \<le> DRM_GEM_MAX_IDX" using o by (auto simp: offsets_ok_def)
  note b = offset_bits [OF this assms(3), folded off]
  have fo: "drm_gem_object_from_offset hf d' (off + x) = Some ob"
    using l wf by (simp add: drm_gem_object_from_offset_def b ht.find_lookup)
  from ref_ok [OF ok' from_offset_live [OF ok' fo]] obtain d'' where "drm_gem_object_reference d' ob = Ok d''" by auto
  then have m: "drm_gem_mmap_single hf d' (off + x) True = Ok (Inr (ob, x), d'')"
    using fo b ok' by (simp add: drm_gem_mmap_single_def gem_ok_def)
  have "gem_reachable hf d'' (inc ext ob)"
    by (rule gem_step [OF r, of "Mmap_single (off + x) True"]) (simp_all add: m)
  then show ?thesis using fi m by blast
qed

section \<open>Examples and interleavings\<close>

text \<open>A device with one open file.\<close>

definition one_file :: gem_dev where
  "one_file = drm_gem_open (snd (drm_gem_init True True))"

lemma one_file_reachable: "gem_reachable hf one_file (\<lambda>_. 0)"
proof (rule gem_step)
  show "gem_reachable hf (snd (drm_gem_init True True)) (\<lambda>_. 0)"
    by (rule gem_start) (simp add: drm_gem_init_def drm_ht_create_def)
  show "gem_legal (snd (drm_gem_init True True)) (\<lambda>_. 0) Open" by simp
  show "gem_exec hf (snd (drm_gem_init True True)) (\<lambda>_. 0) Open = Ok (one_file, \<lambda>_. 0)" by (simp add: one_file_def)
qed

text \<open>The same device with an object at address seven under the handle one.\<close>

definition page_object :: gem_object where
  "page_object = \<lparr>gj_refcount = 1, gj_handle_count = 1, gj_name = 0, gj_on_map = False, gj_key = 0, gj_size = 4096\<rparr>"

definition one_object :: gem_dev where
  "one_object = one_file\<lparr>gd_objs := [7 \<mapsto> page_object], gd_files := [[(1, 7)]]\<rparr>"

lemma one_object_reachable: "gem_reachable hf one_object (\<lambda>_. 0)"
proof (rule gem_step [OF one_file_reachable])
  show "gem_legal one_file (\<lambda>_. 0) (Create 0 4096 (Some 7) [(True, Ok 1)])"
    by (simp add: one_file_def drm_gem_open_def drm_gem_init_def drm_ht_create_def fresh_ids_def)
  show "gem_exec hf one_file (\<lambda>_. 0) (Create 0 4096 (Some 7) [(True, Ok 1)]) = Ok (one_object, \<lambda>_. 0)"
    by (simp add: one_object_def one_file_def drm_gem_open_def drm_gem_init_def drm_ht_create_def i915_gem_create_def
        i915_gem_alloc_object_def drm_gem_object_init_def drm_gem_handle_create_def publish_handle_def count_handle_def
        drm_gem_object_handle_reference_def drm_gem_object_reference_def drm_gem_object_unreference_def kref_put_def deref_def
        page_object_def)
qed



theorem gem_mmap_offset_roundtrip_witness:
  "\<exists>off d' d''. i915_gem_mmap_gtt (\<lambda>_ _. 0) (- 1) True one_object 0 1 (Some 5) = Ok (Inr off, d')
     \<and> drm_gem_mmap_single (\<lambda>_ _. 0) d' (off + 12) True = Ok (Inr (7, 12), d'')"
proof -
  let ?hf = "\<lambda>_ _. 0"
  note r = one_object_reachable [of ?hf]
  have l: "gem_legal one_object (\<lambda>_. 0) (Mmap_gtt (- 1) True 0 1 5)"
    by (simp add: one_object_def one_file_def drm_gem_open_def drm_gem_init_def drm_ht_create_def DRM_GEM_MAX_IDX_def)
  obtain r0 d' where m: "i915_gem_mmap_gtt ?hf (- 1) True one_object 0 1 (Some 5) = Ok (r0, d')"
    using mmap_gtt_ok [OF reachable_ok [OF r], of 0 5 "- 1" True 1] l by auto
  have f: "idr_find (gd_files one_object ! 0) 1 = Some 7" by (simp add: one_object_def idr_find_def)
  obtain ht where ht: "drm_ht_insert_item ?hf (gd_hash one_object) 5 (7 :: nat) = Ok ht"
    using ht_insert(1) [of ?hf "gd_hash one_object" 5 7] reachable_ok [OF r] l
    by (auto simp: gem_ok_def core_def offsets_ok_def)
  have "\<exists>off. r0 = Inr off"
    using m ht by (auto simp: i915_gem_mmap_gtt_def drm_gem_object_lookup_def idr_find_def one_object_def one_file_def
        drm_gem_open_def drm_gem_init_def drm_ht_create_def drm_gem_object_reference_def deref_def page_object_def
        drm_gem_create_mmap_offset_def drm_gem_object_unreference_def kref_put_def)
  then obtain off where off: "r0 = Inr off" by auto
  from gem_mmap_offset_roundtrip [OF r l _ m [unfolded off], of 12] f show ?thesis using m off by auto
qed


end
