(* ===== verification/Intel_Modeset.thy ===== *)
theory Intel_Modeset
  imports Drm_Mode_Lists
begin

text \<open>
  Setting a mode in \<^verbatim>\<open>drm/i915/intel_display.c\<close>: the links of connectors, encoders and CRTCs, the
  staged links of a mode set in progress, the commit, the power management calls, the read-out of the
  state the firmware left and the driver's own check of its tracking.  Masks of pipes are sets; a CRTC
  and its pipe have the same number.  What the hardware answers is an argument; the hooks that write it
  have no effect on the state tracked here.
\<close>

section \<open>State\<close>

datatype dpms = DPMS_ON | DPMS_STANDBY | DPMS_SUSPEND | DPMS_OFF

record framebuffer =
  fr_id :: nat
  fr_depth :: nat
  fr_bits_per_pixel :: nat

record ms_connector =
  co_attached :: nat
  co_encoder :: "nat option"
  co_new_encoder :: "nat option"
  co_dpms :: dpms

record ms_encoder =
  ec_possible_crtcs :: u32
  ec_crtc :: "nat option"
  ec_new_crtc :: "nat option"
  ec_connectors_active :: bool

record ms_crtc =
  cr_enabled :: bool
  cr_active :: bool
  cr_mode :: drm_display_mode
  cr_hwmode :: drm_display_mode
  cr_fb :: "framebuffer option"
  cr_x :: int
  cr_y :: int

record ms_dev =
  md_nconn :: nat
  md_nenc :: nat
  md_ncrtc :: nat
  md_conn :: "nat \<Rightarrow> ms_connector"
  md_enc :: "nat \<Rightarrow> ms_encoder"
  md_crtc :: "nat \<Rightarrow> ms_crtc"

abbreviation upd_conn :: "nat \<Rightarrow> ms_connector \<Rightarrow> ms_dev \<Rightarrow> ms_dev" where "upd_conn k r d \<equiv> d\<lparr>md_conn := (md_conn d)(k := r)\<rparr>"
abbreviation upd_enc :: "nat \<Rightarrow> ms_encoder \<Rightarrow> ms_dev \<Rightarrow> ms_dev" where "upd_enc e r d \<equiv> d\<lparr>md_enc := (md_enc d)(e := r)\<rparr>"
abbreviation upd_crtc :: "nat \<Rightarrow> ms_crtc \<Rightarrow> ms_dev \<Rightarrow> ms_dev" where "upd_crtc c r d \<equiv> d\<lparr>md_crtc := (md_crtc d)(c := r)\<rparr>"

text \<open>The lists of the device are traversed in the order of the numbers.\<close>

definition some_connector :: "ms_dev \<Rightarrow> (ms_connector \<Rightarrow> bool) \<Rightarrow> bool" where
  "some_connector d P = list_ex (\<lambda>k. P (md_conn d k)) [0..<md_nconn d]"

definition some_encoder :: "ms_dev \<Rightarrow> (ms_encoder \<Rightarrow> bool) \<Rightarrow> bool" where
  "some_encoder d P = list_ex (\<lambda>e. P (md_enc d e)) [0..<md_nenc d]"

definition all_connectors :: "(ms_connector \<Rightarrow> ms_connector) \<Rightarrow> ms_dev \<Rightarrow> ms_dev" where
  "all_connectors f d = d\<lparr>md_conn := (\<lambda>k. if k < md_nconn d then f (md_conn d k) else md_conn d k)\<rparr>"

definition all_encoders :: "(nat \<Rightarrow> ms_encoder \<Rightarrow> ms_encoder) \<Rightarrow> ms_dev \<Rightarrow> ms_dev" where
  "all_encoders f d = d\<lparr>md_enc := (\<lambda>e. if e < md_nenc d then f e (md_enc d e) else md_enc d e)\<rparr>"

definition all_crtcs :: "(nat \<Rightarrow> ms_crtc \<Rightarrow> ms_crtc) \<Rightarrow> ms_dev \<Rightarrow> ms_dev" where
  "all_crtcs f d = d\<lparr>md_crtc := (\<lambda>c. if c < md_ncrtc d then f c (md_crtc d c) else md_crtc d c)\<rparr>"

text \<open>The CRTC behind a link to an encoder.\<close>

definition crtc_of :: "ms_dev \<Rightarrow> nat option \<Rightarrow> nat option" where
  "crtc_of d e = (case e of None \<Rightarrow> None | Some e \<Rightarrow> ec_crtc (md_enc d e))"

section \<open>Power management\<close>

text \<open>The hook \<^verbatim>\<open>crtc_enable\<close> of every generation returns when the CRTC is active, \<^verbatim>\<open>crtc_disable\<close> when
  it is not.\<close>

definition crtc_enable :: "nat \<Rightarrow> ms_dev \<Rightarrow> ms_dev" where
  "crtc_enable c d = upd_crtc c (md_crtc d c\<lparr>cr_active := True\<rparr>) d"

definition crtc_disable :: "nat \<Rightarrow> ms_dev \<Rightarrow> ms_dev" where
  "crtc_disable c d = upd_crtc c (md_crtc d c\<lparr>cr_active := False\<rparr>) d"

definition intel_crtc_update_dpms :: "nat \<Rightarrow> ms_dev \<Rightarrow> ms_dev" where
  "intel_crtc_update_dpms c d =
     (if some_encoder d (\<lambda>e. ec_crtc e = Some c \<and> ec_connectors_active e) then crtc_enable c d else crtc_disable c d)"

definition intel_crtc_disable :: "nat \<Rightarrow> ms_dev \<Rightarrow> ms_dev" where
  "intel_crtc_disable c d =
     (let d = crtc_disable c d;
          d = upd_crtc c (md_crtc d c\<lparr>cr_fb := None\<rparr>) d;
          on = (\<lambda>k. crtc_of d (co_encoder k) = Some c)
      in all_connectors (\<lambda>k. if on k then k\<lparr>co_dpms := DPMS_OFF\<rparr> else k)
           (all_encoders (\<lambda>e r. if some_connector d (\<lambda>k. on k \<and> co_encoder k = Some e)
                                then r\<lparr>ec_connectors_active := False\<rparr> else r) d))"

definition intel_modeset_disable :: "ms_dev \<Rightarrow> ms_dev" where
  "intel_modeset_disable d = fold (\<lambda>c d. if cr_enabled (md_crtc d c) then intel_crtc_disable c d else d) [0..<md_ncrtc d] d"

definition intel_encoder_dpms :: "nat \<Rightarrow> dpms \<Rightarrow> ms_dev \<Rightarrow> ms_dev outcome" where
  "intel_encoder_dpms e mode d =
     (let d = upd_enc e (md_enc d e\<lparr>ec_connectors_active := (mode = DPMS_ON)\<rparr>) d
      in case ec_crtc (md_enc d e) of None \<Rightarrow> Bug | Some c \<Rightarrow> Ok (intel_crtc_update_dpms c d))"

definition intel_connector_dpms :: "nat \<Rightarrow> dpms \<Rightarrow> ms_dev \<Rightarrow> ms_dev outcome" where
  "intel_connector_dpms k mode d =
     (let e = co_attached (md_conn d k); mode = (if mode \<noteq> DPMS_ON then DPMS_OFF else mode)
      in if mode = co_dpms (md_conn d k) then Ok d
         else let d = upd_conn k (md_conn d k\<lparr>co_dpms := mode\<rparr>) d
              in if ec_crtc (md_enc d e) \<noteq> None then intel_encoder_dpms e mode d else Ok d)"

section \<open>The driver's check of its state\<close>

text \<open>True when none of the warnings on the tracked state fires.\<close>

definition check_connector :: "ms_connector \<Rightarrow> bool" where
  "check_connector k \<longleftrightarrow> co_new_encoder k = co_encoder k"

definition check_encoder :: "ms_dev \<Rightarrow> nat \<Rightarrow> bool" where
  "check_encoder d e \<longleftrightarrow>
     (let r = md_enc d e;
          enabled = some_connector d (\<lambda>k. co_encoder k = Some e);
          active = some_connector d (\<lambda>k. co_encoder k = Some e \<and> co_dpms k \<noteq> DPMS_OFF)
      in ec_new_crtc r = ec_crtc r \<and> \<not> (ec_connectors_active r \<and> ec_crtc r = None) \<and> (ec_crtc r \<noteq> None) = enabled
         \<and> \<not> (active \<and> ec_crtc r = None) \<and> ec_connectors_active r = active)"

definition check_crtc :: "ms_dev \<Rightarrow> nat \<Rightarrow> bool" where
  "check_crtc d c \<longleftrightarrow>
     (let r = md_crtc d c;
          enabled = some_encoder d (\<lambda>e. ec_crtc e = Some c);
          active = some_encoder d (\<lambda>e. ec_crtc e = Some c \<and> ec_connectors_active e)
      in \<not> (cr_active r \<and> \<not> cr_enabled r) \<and> active = cr_active r \<and> enabled = cr_enabled r)"

definition intel_modeset_check_state :: "ms_dev \<Rightarrow> bool" where
  "intel_modeset_check_state d \<longleftrightarrow> list_all (\<lambda>k. check_connector (md_conn d k)) [0..<md_nconn d]
     \<and> list_all (check_encoder d) [0..<md_nenc d] \<and> list_all (check_crtc d) [0..<md_ncrtc d]"

section \<open>Staging\<close>

record mode_set =
  set_crtc :: nat
  set_mode :: "drm_display_mode option"
  set_fb :: "framebuffer option"
  set_x :: int
  set_y :: int
  set_connectors :: "nat list"

record set_config =
  cf_fb_changed :: bool
  cf_mode_changed :: bool

definition intel_set_config_compute_mode_changes :: "ms_dev \<Rightarrow> mode_set \<Rightarrow> set_config" where
  "intel_set_config_compute_mode_changes d s =
     (let c = md_crtc d (set_crtc s);
          differ = set_fb s \<noteq> cr_fb c;
          full = (case (cr_fb c, set_fb s) of
                    (Some old, Some new) \<Rightarrow> fr_depth new \<noteq> fr_depth old \<or> fr_bits_per_pixel new \<noteq> fr_bits_per_pixel old
                  | _ \<Rightarrow> True)
      in \<lparr>cf_fb_changed = (differ \<and> \<not> full) \<or> (set_fb s \<noteq> None \<and> (set_x s \<noteq> cr_x c \<or> set_y s \<noteq> cr_y c)),
          cf_mode_changed = (differ \<and> full) \<or> (case set_mode s of None \<Rightarrow> False | Some m \<Rightarrow> \<not> drm_mode_equal m (cr_mode c))\<rparr>)"

definition intel_encoder_crtc_ok :: "ms_encoder \<Rightarrow> nat \<Rightarrow> bool" where
  "intel_encoder_crtc_ok e c \<longleftrightarrow> ec_possible_crtcs e AND push_bit c 1 \<noteq> 0"

definition stage_connector :: "ms_dev \<Rightarrow> mode_set \<Rightarrow> nat \<Rightarrow> ms_connector" where
  "stage_connector d s k =
     (let r = md_conn d k; listed = k \<in> set (set_connectors s);
          r = (if listed then r\<lparr>co_new_encoder := Some (co_attached r)\<rparr> else r)
      in if (set_fb s = None \<or> \<not> listed) \<and> crtc_of d (co_encoder r) = Some (set_crtc s)
         then r\<lparr>co_new_encoder := None\<rparr> else r)"

text \<open>The second loop: the staged encoders get their CRTC.  A connector without CRTC is a null pointer.\<close>

fun stage_encoders :: "mode_set \<Rightarrow> nat list \<Rightarrow> ms_dev \<Rightarrow> (errno option \<times> ms_dev) outcome" where
  "stage_encoders s [] d = Ok (None, d)"
| "stage_encoders s (k # ks) d =
     (case co_new_encoder (md_conn d k) of None \<Rightarrow> stage_encoders s ks d
      | Some e \<Rightarrow>
          (case (if k \<in> set (set_connectors s) then Some (set_crtc s) else ec_crtc (md_enc d e)) of
             None \<Rightarrow> Bug
           | Some c \<Rightarrow>
               if \<not> intel_encoder_crtc_ok (md_enc d e) c then Ok (Some EINVAL, d)
               else stage_encoders s ks
                      (upd_enc (co_attached (md_conn d k)) (md_enc d (co_attached (md_conn d k))\<lparr>ec_new_crtc := Some c\<rparr>) d)))"

definition drop_encoders :: "ms_dev \<Rightarrow> ms_dev" where
  "drop_encoders d = all_encoders (\<lambda>e r. if some_connector d (\<lambda>k. co_new_encoder k = Some e) then r else r\<lparr>ec_new_crtc := None\<rparr>) d"

definition intel_modeset_stage_output_state :: "ms_dev \<Rightarrow> mode_set \<Rightarrow> set_config \<Rightarrow> (errno option \<times> set_config \<times> ms_dev) outcome" where
  "intel_modeset_stage_output_state d s cf =
     (let d1 = d\<lparr>md_conn := (\<lambda>k. if k < md_nconn d then stage_connector d s k else md_conn d k)\<rparr>;
          cf = cf\<lparr>cf_mode_changed := cf_mode_changed cf \<or> some_connector d1 (\<lambda>k. co_new_encoder k \<noteq> co_encoder k)\<rparr>
      in bind_outcome (stage_encoders s [0..<md_nconn d] d1) (\<lambda>(r, d2). case r of
           Some e \<Rightarrow> Ok (Some e, cf, d2)
         | None \<Rightarrow> let d3 = drop_encoders d2
                   in Ok (None, cf\<lparr>cf_mode_changed := cf_mode_changed cf \<or> some_encoder d3 (\<lambda>e. ec_new_crtc e \<noteq> ec_crtc e)\<rparr>, d3)))"

text \<open>The saved links, and the staged state set from them or from the current links.\<close>

definition intel_set_config_restore_state :: "ms_dev \<Rightarrow> ms_dev \<Rightarrow> ms_dev" where
  "intel_set_config_restore_state saved d =
     d\<lparr>md_conn := (\<lambda>k. if k < md_nconn d then md_conn d k\<lparr>co_new_encoder := co_encoder (md_conn saved k)\<rparr> else md_conn d k),
       md_enc := (\<lambda>e. if e < md_nenc d then md_enc d e\<lparr>ec_new_crtc := ec_crtc (md_enc saved e)\<rparr> else md_enc d e)\<rparr>"

definition intel_modeset_update_staged_output_state :: "ms_dev \<Rightarrow> ms_dev" where
  "intel_modeset_update_staged_output_state d =
     all_encoders (\<lambda>e r. r\<lparr>ec_new_crtc := ec_crtc r\<rparr>) (all_connectors (\<lambda>k. k\<lparr>co_new_encoder := co_encoder k\<rparr>) d)"

definition intel_modeset_commit_output_state :: "ms_dev \<Rightarrow> ms_dev" where
  "intel_modeset_commit_output_state d =
     all_encoders (\<lambda>e r. r\<lparr>ec_crtc := ec_new_crtc r\<rparr>) (all_connectors (\<lambda>k. k\<lparr>co_encoder := co_new_encoder k\<rparr>) d)"

section \<open>Setting the mode\<close>

definition opt_list :: "'a option \<Rightarrow> 'a list" where
  "opt_list r = (case r of None \<Rightarrow> [] | Some x \<Rightarrow> [x])"

definition changed_pipes :: "ms_dev \<Rightarrow> nat list" where
  "changed_pipes d =
     concat (map (\<lambda>k. let r = md_conn d k
                      in if co_encoder r = co_new_encoder r then []
                         else opt_list (crtc_of d (co_encoder r))
                            @ (case co_new_encoder r of None \<Rightarrow> [] | Some e \<Rightarrow> opt_list (ec_new_crtc (md_enc d e)))) [0..<md_nconn d])
   @ concat (map (\<lambda>e. let r = md_enc d e
                      in if ec_crtc r = ec_new_crtc r then [] else opt_list (ec_crtc r) @ opt_list (ec_new_crtc r)) [0..<md_nenc d])"

text \<open>The links of a changed connector that these loops follow and that end in a null pointer.\<close>

definition null_link :: "ms_dev \<Rightarrow> bool" where
  "null_link d \<longleftrightarrow> some_connector d (\<lambda>k. co_encoder k \<noteq> co_new_encoder k
     \<and> ((co_encoder k \<noteq> None \<and> crtc_of d (co_encoder k) = None)
       \<or> (case co_new_encoder k of None \<Rightarrow> False | Some e \<Rightarrow> ec_new_crtc (md_enc d e) = None)))"

text \<open>The masks \<open>modeset\<close>, \<open>prepare\<close> and \<open>disable\<close>.\<close>

definition intel_modeset_affected_pipes :: "ms_dev \<Rightarrow> nat \<Rightarrow> nat set \<times> nat set \<times> nat set" where
  "intel_modeset_affected_pipes d c =
     (let disable = set (filter (\<lambda>p. cr_enabled (md_crtc d p) \<and> \<not> some_encoder d (\<lambda>e. ec_new_crtc e = Some p)) [0..<md_ncrtc d]);
          prepare = set (changed_pipes d) \<union> (if cr_enabled (md_crtc d c) then {c} else {});
          prepare = (prepare - disable) \<inter> {c}
      in (prepare, prepare, disable))"

definition intel_crtc_in_use :: "ms_dev \<Rightarrow> nat \<Rightarrow> bool" where
  "intel_crtc_in_use d c = some_encoder d (\<lambda>e. ec_crtc e = Some c)"

definition intel_modeset_update_state :: "ms_dev \<Rightarrow> nat set \<Rightarrow> ms_dev" where
  "intel_modeset_update_state d prepare =
     (let hit = (\<lambda>c. case c of None \<Rightarrow> False | Some c \<Rightarrow> c \<in> prepare);
          d = all_encoders (\<lambda>e r. if hit (ec_crtc r) then r\<lparr>ec_connectors_active := False\<rparr> else r) d;
          d = intel_modeset_commit_output_state d;
          d = all_crtcs (\<lambda>c r. r\<lparr>cr_enabled := intel_crtc_in_use d c\<rparr>) d;
          on = (\<lambda>k. hit (crtc_of d (co_encoder k)))
      in all_connectors (\<lambda>k. if on k then k\<lparr>co_dpms := DPMS_ON\<rparr> else k)
           (all_encoders (\<lambda>e r. if some_connector d (\<lambda>k. on k \<and> co_encoder k = Some e)
                                then r\<lparr>ec_connectors_active := True\<rparr> else r) d))"

text \<open>Its answer stands for the check of the plane, the pinning and the update of the plane.\<close>

definition intel_pipe_set_base :: "nat \<Rightarrow> int \<Rightarrow> int \<Rightarrow> framebuffer option \<Rightarrow> errno option \<Rightarrow> ms_dev \<Rightarrow> errno option \<times> ms_dev" where
  "intel_pipe_set_base c x y fb ans d =
     (case fb of None \<Rightarrow> (None, d)
      | Some f \<Rightarrow> (case ans of Some e \<Rightarrow> (Some e, d)
                   | None \<Rightarrow> (None, upd_crtc c (md_crtc d c\<lparr>cr_fb := Some f, cr_x := x, cr_y := y\<rparr>) d)))"

text \<open>The hook \<^verbatim>\<open>crtc_mode_set\<close> may refuse first (\<open>hook\<close>) and ends with the base.\<close>

definition intel_crtc_mode_set ::
    "nat \<Rightarrow> int \<Rightarrow> int \<Rightarrow> framebuffer option \<Rightarrow> errno option \<Rightarrow> errno option \<Rightarrow> ms_dev \<Rightarrow> errno option \<times> ms_dev" where
  "intel_crtc_mode_set c x y fb hook base d =
     (case hook of Some e \<Rightarrow> (Some e, d) | None \<Rightarrow> intel_pipe_set_base c x y fb base d)"

text \<open>The answers in the course of one mode set: the adjusted mode of the fixups, \<open>None\<close> when there is no
  memory or one refuses, and the two of \<^verbatim>\<open>crtc_mode_set\<close>.\<close>

record set_answers =
  an_adjusted :: "drm_display_mode option"
  an_hook :: "errno option"
  an_base :: "errno option"

definition disable_pipes :: "nat set \<Rightarrow> ms_dev \<Rightarrow> ms_dev" where
  "disable_pipes D d = fold (\<lambda>c d. if c \<in> D then intel_crtc_disable c d else d) [0..<md_ncrtc d] d"

definition intel_set_mode ::
    "ms_dev \<Rightarrow> nat \<Rightarrow> drm_display_mode option \<Rightarrow> int \<Rightarrow> int \<Rightarrow> framebuffer option \<Rightarrow> set_answers \<Rightarrow> (bool \<times> ms_dev) outcome" where
  "intel_set_mode d c mode x y fb ans =
     (if null_link d then Bug
      else case intel_modeset_affected_pipes d c of (modeset, prepare, disable) \<Rightarrow>
      let d = disable_pipes disable d;
          saved = md_crtc d c
      in if modeset \<noteq> {} \<and> mode = None then Bug
         else if modeset \<noteq> {} \<and> an_adjusted ans = None then Ok (False, d)
         else let d = (if c \<in> prepare \<and> cr_enabled (md_crtc d c) then crtc_disable c d else d);
                  d = (if modeset \<noteq> {} then upd_crtc c (md_crtc d c\<lparr>cr_mode := the mode\<rparr>) d else d);
                  d = intel_modeset_update_state d prepare
              in case (if c \<in> modeset then intel_crtc_mode_set c x y fb (an_hook ans) (an_base ans) d else (None, d)) of
                   (Some e, d) \<Rightarrow>
                     Ok (False, if cr_enabled (md_crtc d c)
                                then upd_crtc c (md_crtc d c\<lparr>cr_hwmode := cr_hwmode saved, cr_mode := cr_mode saved\<rparr>) d else d)
                 | (None, d) \<Rightarrow>
                     let d = (if c \<in> prepare then crtc_enable c d else d)
                     in Ok (True, if modeset \<noteq> {} then upd_crtc c (md_crtc d c\<lparr>cr_hwmode := the (an_adjusted ans)\<rparr>) d else d))"

text \<open>The result has the error, whether a restoring mode set failed, and the state.  \<open>mem\<close> is whether the
  three allocations succeed, \<open>base\<close> the answer of a flip of the base, \<open>a1\<close> and \<open>a2\<close> those of the mode set
  and of the one that restores.\<close>

definition intel_crtc_set_config ::
    "ms_dev \<Rightarrow> mode_set \<Rightarrow> bool \<Rightarrow> errno option \<Rightarrow> set_answers \<Rightarrow> set_answers \<Rightarrow> (errno option \<times> bool \<times> ms_dev) outcome" where
  "intel_crtc_set_config d s mem base a1 a2 =
     (let s = (if set_mode s = None then s\<lparr>set_fb := None\<rparr> else s); c = set_crtc s
      in if set_fb s \<noteq> None \<and> set_connectors s = [] then Ok (None, False, d)
         else if \<not> mem then Ok (Some ENOMEM, False, d)
         else let old = md_crtc d c;
                  fail = (\<lambda>e cf d'. let d' = intel_set_config_restore_state d d'
                            in if cf_mode_changed cf
                               then bind_outcome (intel_set_mode d' c (Some (cr_mode (md_crtc d' c))) (cr_x old) (cr_y old) (cr_fb old) a2)
                                      (\<lambda>(ok, d'). Ok (Some e, \<not> ok, d'))
                               else Ok (Some e, False, d'))
              in bind_outcome (intel_modeset_stage_output_state d s (intel_set_config_compute_mode_changes d s)) (\<lambda>(r, cf, d1).
                   case r of Some e \<Rightarrow> fail e cf d1
                   | None \<Rightarrow>
                       if cf_mode_changed cf
                       then bind_outcome (intel_set_mode d1 c (set_mode s) (set_x s) (set_y s) (set_fb s) a1) (\<lambda>(ok, d2).
                              if ok then Ok (None, False, d2) else fail EINVAL cf d2)
                       else if cf_fb_changed cf
                       then Ok (None, False, snd (intel_pipe_set_base c (set_x s) (set_y s) (set_fb s) base d1))
                       else Ok (None, False, d1)))"

section \<open>The state the firmware left\<close>

definition intel_connector_break_all_links :: "nat \<Rightarrow> ms_dev \<Rightarrow> ms_dev" where
  "intel_connector_break_all_links k d =
     (let r = md_conn d k; d = upd_conn k (r\<lparr>co_dpms := DPMS_OFF, co_encoder := None\<rparr>) d
      in upd_enc (co_attached r) (md_enc d (co_attached r)\<lparr>ec_connectors_active := False, ec_crtc := None\<rparr>) d)"

definition intel_sanitize_encoder :: "nat \<Rightarrow> ms_dev \<Rightarrow> ms_dev" where
  "intel_sanitize_encoder e d =
     (let has_active_crtc = (case ec_crtc (md_enc d e) of None \<Rightarrow> False | Some c \<Rightarrow> cr_active (md_crtc d c))
      in if ec_connectors_active (md_enc d e) \<and> \<not> has_active_crtc
         then fold (\<lambda>k d. if co_attached (md_conn d k) = e then intel_connector_break_all_links k d else d) [0..<md_nconn d] d
         else d)"

text \<open>\<open>bad_plane\<close>: before generation 4, the wrong plane is attached to the pipe and active.  The quirk that
  forces pipe A on is left out.\<close>

definition intel_sanitize_crtc :: "bool \<Rightarrow> nat \<Rightarrow> ms_dev \<Rightarrow> ms_dev" where
  "intel_sanitize_crtc bad_plane c d =
     (let d = (if bad_plane
               then let d = crtc_disable c d;
                        d = fold (\<lambda>k d. if ec_crtc (md_enc d (co_attached (md_conn d k))) = Some c
                                        then intel_connector_break_all_links k d else d) [0..<md_nconn d] d
                    in upd_crtc c (md_crtc d c\<lparr>cr_enabled := False\<rparr>) d
               else d);
          d = intel_crtc_update_dpms c d
      in if cr_active (md_crtc d c) \<noteq> cr_enabled (md_crtc d c)
         then all_encoders (\<lambda>e r. if ec_crtc r = Some c then r\<lparr>ec_crtc := None\<rparr> else r)
                (upd_crtc c (md_crtc d c\<lparr>cr_enabled := cr_active (md_crtc d c)\<rparr>) d)
         else d)"

text \<open>What is read from the hardware: the active pipes, the pipe of each active encoder, the active
  connectors and the pipes with a wrong plane.\<close>

record hw_readout =
  hw_pipe :: "nat \<Rightarrow> bool"
  hw_encoder :: "nat \<Rightarrow> nat option"
  hw_connector :: "nat \<Rightarrow> bool"
  hw_bad_plane :: "nat \<Rightarrow> bool"

definition read_hw_state :: "hw_readout \<Rightarrow> ms_dev \<Rightarrow> ms_dev" where
  "read_hw_state hw d =
     (let d = all_crtcs (\<lambda>c r. r\<lparr>cr_active := hw_pipe hw c, cr_enabled := hw_pipe hw c\<rparr>) d;
          d = all_encoders (\<lambda>e r. r\<lparr>ec_crtc := hw_encoder hw e, ec_connectors_active := False\<rparr>) d
      in fold (\<lambda>k d. let r = md_conn d k
                     in if hw_connector hw k
                        then upd_enc (co_attached r) (md_enc d (co_attached r)\<lparr>ec_connectors_active := True\<rparr>)
                               (upd_conn k (r\<lparr>co_dpms := DPMS_ON, co_encoder := Some (co_attached r)\<rparr>) d)
                        else upd_conn k (r\<lparr>co_dpms := DPMS_OFF, co_encoder := None\<rparr>) d) [0..<md_nconn d] d)"

definition intel_modeset_setup_hw_state :: "hw_readout \<Rightarrow> ms_dev \<Rightarrow> ms_dev" where
  "intel_modeset_setup_hw_state hw d =
     (let d = read_hw_state hw d;
          d = fold intel_sanitize_encoder [0..<md_nenc d] d;
          d = fold (\<lambda>c. intel_sanitize_crtc (hw_bad_plane hw c) c) [0..<md_ncrtc d] d
      in intel_modeset_update_staged_output_state d)"

end
