(* ===== verification/Intel_Modeset_Proofs.thy ===== *)
theory Intel_Modeset_Proofs
  imports Intel_Modeset
begin

text \<open>
  The driver's check as an invariant of mode setting: the commit of a staged configuration, the staging
  of a request, and the read-out of the hardware.
\<close>

section \<open>The check in terms of the links\<close>

lemma some_connector_iff: "some_connector d P \<longleftrightarrow> (\<exists>k < md_nconn d. P (md_conn d k))"
  by (auto simp: some_connector_def list_ex_iff)

lemma some_encoder_iff: "some_encoder d P \<longleftrightarrow> (\<exists>e < md_nenc d. P (md_enc d e))"
  by (auto simp: some_encoder_def list_ex_iff)

lemmas some_iff = some_connector_iff some_encoder_iff

text \<open>The fixed part: a connector has one encoder and is linked to no other, links stay in the lists.\<close>

definition links_wf :: "ms_dev \<Rightarrow> bool" where
  "links_wf d \<longleftrightarrow> (\<forall>k < md_nconn d. co_attached (md_conn d k) < md_nenc d
       \<and> (co_encoder (md_conn d k) = None \<or> co_encoder (md_conn d k) = Some (co_attached (md_conn d k))))
   \<and> (\<forall>e < md_nenc d. \<forall>c. ec_crtc (md_enc d e) = Some c \<longrightarrow> c < md_ncrtc d)"

definition links_ok :: "ms_dev \<Rightarrow> bool" where
  "links_ok d \<longleftrightarrow>
     (\<forall>e < md_nenc d. (ec_crtc (md_enc d e) \<noteq> None \<longleftrightarrow> (\<exists>k < md_nconn d. co_encoder (md_conn d k) = Some e)))
   \<and> (\<forall>e < md_nenc d. (ec_connectors_active (md_enc d e) \<longleftrightarrow>
         (\<exists>k < md_nconn d. co_encoder (md_conn d k) = Some e \<and> co_dpms (md_conn d k) \<noteq> DPMS_OFF)))
   \<and> (\<forall>c < md_ncrtc d. cr_enabled (md_crtc d c) \<longleftrightarrow> (\<exists>e < md_nenc d. ec_crtc (md_enc d e) = Some c))"

definition pipe_ok :: "ms_dev \<Rightarrow> nat \<Rightarrow> bool" where
  "pipe_ok d c \<longleftrightarrow> (cr_active (md_crtc d c) \<longleftrightarrow>
     (\<exists>e < md_nenc d. ec_crtc (md_enc d e) = Some c \<and> ec_connectors_active (md_enc d e)))"

definition unstaged :: "ms_dev \<Rightarrow> bool" where
  "unstaged d \<longleftrightarrow> (\<forall>k < md_nconn d. co_new_encoder (md_conn d k) = co_encoder (md_conn d k))
     \<and> (\<forall>e < md_nenc d. ec_new_crtc (md_enc d e) = ec_crtc (md_enc d e))"

lemma check_state_iff:
  "intel_modeset_check_state d \<longleftrightarrow> links_ok d \<and> (\<forall>c < md_ncrtc d. pipe_ok d c) \<and> unstaged d"
proof -
  have "check_encoder d e \<longleftrightarrow> ec_new_crtc (md_enc d e) = ec_crtc (md_enc d e)
      \<and> (ec_crtc (md_enc d e) \<noteq> None \<longleftrightarrow> (\<exists>k < md_nconn d. co_encoder (md_conn d k) = Some e))
      \<and> (ec_connectors_active (md_enc d e) \<longleftrightarrow>
          (\<exists>k < md_nconn d. co_encoder (md_conn d k) = Some e \<and> co_dpms (md_conn d k) \<noteq> DPMS_OFF))" for e
    by (auto simp: check_encoder_def Let_def some_iff)
  moreover have "check_crtc d c \<longleftrightarrow> pipe_ok d c \<and> (cr_enabled (md_crtc d c) \<longleftrightarrow> (\<exists>e < md_nenc d. ec_crtc (md_enc d e) = Some c))" for c
    by (auto simp: check_crtc_def pipe_ok_def Let_def some_iff)
  ultimately show ?thesis
    by (auto simp: intel_modeset_check_state_def list_all_iff check_connector_def links_ok_def unstaged_def)
qed

section \<open>A staged configuration\<close>

text \<open>What is staged is complete, and it changes links of the CRTC \<open>c\<close> only.\<close>

definition staged_ok :: "ms_dev \<Rightarrow> nat \<Rightarrow> bool" where
  "staged_ok d c \<longleftrightarrow> c < md_ncrtc d
   \<and> (\<forall>k < md_nconn d. co_new_encoder (md_conn d k) = None \<or> co_new_encoder (md_conn d k) = Some (co_attached (md_conn d k)))
   \<and> (\<forall>e < md_nenc d. ec_new_crtc (md_enc d e) \<noteq> None \<longleftrightarrow> (\<exists>k < md_nconn d. co_new_encoder (md_conn d k) = Some e))
   \<and> (\<forall>e < md_nenc d. ec_new_crtc (md_enc d e) \<noteq> ec_crtc (md_enc d e) \<longrightarrow>
        (ec_crtc (md_enc d e) = None \<or> ec_crtc (md_enc d e) = Some c) \<and> (ec_new_crtc (md_enc d e) = None \<or> ec_new_crtc (md_enc d e) = Some c))
   \<and> (\<forall>k < md_nconn d. \<forall>e. co_new_encoder (md_conn d k) \<noteq> co_encoder (md_conn d k) \<longrightarrow>
        (co_encoder (md_conn d k) = Some e \<longrightarrow> ec_crtc (md_enc d e) = Some c)
      \<and> (co_new_encoder (md_conn d k) = Some e \<longrightarrow> ec_new_crtc (md_enc d e) = Some c))"

definition goes_to :: "ms_dev \<Rightarrow> nat set \<Rightarrow> nat \<Rightarrow> bool" where
  "goes_to d P e \<longleftrightarrow> (\<exists>c \<in> P. ec_new_crtc (md_enc d e) = Some c)"

lemma update_state_explicit:
  fixes d P
  assumes w: "links_wf d" and s: "staged_ok d c"
  defines "d' \<equiv> intel_modeset_update_state d P"
  shows "k < md_nconn d \<Longrightarrow> md_conn d' k = (md_conn d k)\<lparr>co_encoder := co_new_encoder (md_conn d k),
        co_dpms := if \<exists>e. co_new_encoder (md_conn d k) = Some e \<and> goes_to d P e then DPMS_ON else co_dpms (md_conn d k)\<rparr>"
    and "e < md_nenc d \<Longrightarrow> md_enc d' e = (md_enc d e)\<lparr>ec_crtc := ec_new_crtc (md_enc d e),
        ec_connectors_active := if (\<exists>k < md_nconn d. co_new_encoder (md_conn d k) = Some e) \<and> goes_to d P e then True
          else if \<exists>c \<in> P. ec_crtc (md_enc d e) = Some c then False else ec_connectors_active (md_enc d e)\<rparr>"
    and "x < md_ncrtc d \<Longrightarrow> md_crtc d' x = (md_crtc d x)\<lparr>cr_enabled := (\<exists>e < md_nenc d. ec_new_crtc (md_enc d e) = Some x)\<rparr>"
    and "md_nconn d' = md_nconn d" "md_nenc d' = md_nenc d" "md_ncrtc d' = md_ncrtc d"
proof -
  have hit: "(case r of None \<Rightarrow> False | Some c \<Rightarrow> c \<in> P) \<longleftrightarrow> (\<exists>c \<in> P. r = Some c)" for r :: "nat option"
    by (cases r) auto
  have a: "co_new_encoder (md_conn d k) = Some e \<Longrightarrow> k < md_nconn d \<Longrightarrow> e < md_nenc d" for k e
    using w s unfolding links_wf_def staged_ok_def by (metis option.distinct(1) option.inject)
  define was where "was = (\<lambda>r :: ms_encoder. \<exists>c \<in> P. ec_crtc r = Some c)"
  define d3 where "d3 = all_crtcs (\<lambda>c r. r\<lparr>cr_enabled := intel_crtc_in_use (intel_modeset_commit_output_state
      (all_encoders (\<lambda>e r. if was r then r\<lparr>ec_connectors_active := False\<rparr> else r) d)) c\<rparr>)
      (intel_modeset_commit_output_state (all_encoders (\<lambda>e r. if was r then r\<lparr>ec_connectors_active := False\<rparr> else r) d))"
  define on where "on = (\<lambda>k :: ms_connector. \<exists>c \<in> P. crtc_of d3 (co_encoder k) = Some c)"
  have d': "d' = all_connectors (\<lambda>k. if on k then k\<lparr>co_dpms := DPMS_ON\<rparr> else k)
      (all_encoders (\<lambda>e r. if some_connector d3 (\<lambda>k. on k \<and> co_encoder k = Some e) then r\<lparr>ec_connectors_active := True\<rparr> else r) d3)"
    unfolding d'_def intel_modeset_update_state_def Let_def hit d3_def on_def was_def ..
  note ds = all_connectors_def all_encoders_def all_crtcs_def intel_modeset_commit_output_state_def
  have n3: "md_nconn d3 = md_nconn d" "md_nenc d3 = md_nenc d" "md_ncrtc d3 = md_ncrtc d" by (simp_all add: d3_def ds)
  then show "md_nconn d' = md_nconn d" "md_nenc d' = md_nenc d" "md_ncrtc d' = md_ncrtc d" by (simp_all add: d' ds)
  have e3: "md_enc d3 e = (md_enc d e)\<lparr>ec_crtc := ec_new_crtc (md_enc d e),
      ec_connectors_active := if was (md_enc d e) then False else ec_connectors_active (md_enc d e)\<rparr>" if "e < md_nenc d" for e
    using that by (simp add: d3_def ds)
  have k3: "md_conn d3 k = (md_conn d k)\<lparr>co_encoder := co_new_encoder (md_conn d k)\<rparr>" if "k < md_nconn d" for k
    using that by (simp add: d3_def ds)
  have on3: "on (md_conn d3 k) \<longleftrightarrow> (\<exists>e. co_new_encoder (md_conn d k) = Some e \<and> goes_to d P e)" if "k < md_nconn d" for k
    using a [of k] that by (auto simp: on_def crtc_of_def goes_to_def k3 e3 split: option.splits)
  show "md_crtc d' x = (md_crtc d x)\<lparr>cr_enabled := (\<exists>e < md_nenc d. ec_new_crtc (md_enc d e) = Some x)\<rparr>" if "x < md_ncrtc d"
  proof -
    have "intel_crtc_in_use (intel_modeset_commit_output_state (all_encoders (\<lambda>e r. if was r then r\<lparr>ec_connectors_active := False\<rparr> else r) d)) x
        \<longleftrightarrow> (\<exists>e < md_nenc d. ec_new_crtc (md_enc d e) = Some x)"
      by (auto simp: intel_crtc_in_use_def some_iff ds)
    then show ?thesis using that by (simp add: d' d3_def all_connectors_def all_encoders_def all_crtcs_def) (simp add: ds)
  qed
  show "md_conn d' k = (md_conn d k)\<lparr>co_encoder := co_new_encoder (md_conn d k),
        co_dpms := if \<exists>e. co_new_encoder (md_conn d k) = Some e \<and> goes_to d P e then DPMS_ON else co_dpms (md_conn d k)\<rparr>"
    if "k < md_nconn d"
  proof -
    have e: "md_conn d' k = (if on (md_conn d3 k) then (md_conn d3 k)\<lparr>co_dpms := DPMS_ON\<rparr> else md_conn d3 k)"
      using that by (simp add: d' all_connectors_def all_encoders_def n3)
    show ?thesis unfolding e on3 [OF that] unfolding k3 [OF that] by auto
  qed
  show "md_enc d' e = (md_enc d e)\<lparr>ec_crtc := ec_new_crtc (md_enc d e),
        ec_connectors_active := if (\<exists>k < md_nconn d. co_new_encoder (md_conn d k) = Some e) \<and> goes_to d P e then True
          else if \<exists>c \<in> P. ec_crtc (md_enc d e) = Some c then False else ec_connectors_active (md_enc d e)\<rparr>" if "e < md_nenc d"
  proof -
    have "md_enc d' e = (if some_connector d3 (\<lambda>k. on k \<and> co_encoder k = Some e) then (md_enc d3 e)\<lparr>ec_connectors_active := True\<rparr> else md_enc d3 e)"
      using that by (simp add: d' all_connectors_def all_encoders_def n3)
    moreover have "some_connector d3 (\<lambda>k. on k \<and> co_encoder k = Some e) \<longleftrightarrow> (\<exists>k < md_nconn d. co_new_encoder (md_conn d k) = Some e) \<and> goes_to d P e"
    proof -
      have "on (md_conn d3 k) \<and> co_encoder (md_conn d3 k) = Some e \<longleftrightarrow> co_new_encoder (md_conn d k) = Some e \<and> goes_to d P e"
        if "k < md_nconn d" for k
        unfolding on3 [OF that] unfolding k3 [OF that] by auto
      then show ?thesis unfolding some_iff n3 by blast
    qed
    ultimately show ?thesis using that by (auto simp: e3 was_def)
  qed
qed

text \<open>The state after a commit, for the CRTCs in \<open>P\<close>, which is \<open>{}\<close> or \<open>{c}\<close>.  When it is empty, either
  the CRTC has just been switched off or nothing of it changes.\<close>

definition quiet :: "ms_dev \<Rightarrow> nat \<Rightarrow> bool" where
  "quiet d c \<longleftrightarrow>
     (\<forall>e < md_nenc d. ec_crtc (md_enc d e) = Some c \<longrightarrow> \<not> ec_connectors_active (md_enc d e) \<and> ec_new_crtc (md_enc d e) \<noteq> Some c)
       \<and> (\<forall>e < md_nenc d. ec_new_crtc (md_enc d e) \<noteq> Some c)
   \<or> (\<forall>e < md_nenc d. ec_crtc (md_enc d e) = Some c \<longleftrightarrow> ec_new_crtc (md_enc d e) = Some c)
       \<and> (\<forall>k < md_nconn d. co_new_encoder (md_conn d k) = co_encoder (md_conn d k))"

lemma update_state_ok:
  assumes w: "links_wf d" and l: "links_ok d" and s: "staged_ok d c" and P: "P = {c} \<or> P = {} \<and> quiet d c"
  defines "d' \<equiv> intel_modeset_update_state d P"
  shows "links_wf d'" "links_ok d'" "unstaged d'" "x < md_ncrtc d \<Longrightarrow> x \<noteq> c \<Longrightarrow> pipe_ok d x \<Longrightarrow> pipe_ok d' x"
proof -
  note u = update_state_explicit [OF w s, where P = P, folded d'_def]
  note n = u(4-6)
  have new: "(ec_new_crtc (md_enc d e) \<noteq> None) \<longleftrightarrow> (\<exists>k < md_nconn d. co_new_encoder (md_conn d k) = Some e)" if "e < md_nenc d" for e
    using s that by (simp add: staged_ok_def)
  have move: "(ec_crtc (md_enc d e) = None \<or> ec_crtc (md_enc d e) = Some c) \<and> (ec_new_crtc (md_enc d e) = None \<or> ec_new_crtc (md_enc d e) = Some c)"
    if "e < md_nenc d" "ec_new_crtc (md_enc d e) \<noteq> ec_crtc (md_enc d e)" for e
    using s that unfolding staged_ok_def by metis
  have link: "(co_encoder (md_conn d k) = Some e \<longrightarrow> ec_crtc (md_enc d e) = Some c)
      \<and> (co_new_encoder (md_conn d k) = Some e \<longrightarrow> ec_new_crtc (md_enc d e) = Some c)"
    if "k < md_nconn d" "co_new_encoder (md_conn d k) \<noteq> co_encoder (md_conn d k)" for k e
    using s that unfolding staged_ok_def by blast
  have range: "ec_new_crtc (md_enc d e) = Some x \<Longrightarrow> x < md_ncrtc d" if "e < md_nenc d" for e x
    using move [OF that] w s that unfolding links_wf_def staged_ok_def by (metis option.distinct(1) option.inject)
  have att: "co_new_encoder (md_conn d k) = Some e \<Longrightarrow> e < md_nenc d" if "k < md_nconn d" for k e
    using w s that unfolding links_wf_def staged_ok_def by (metis option.distinct(1) option.inject)
  show "links_wf d'"
    using w s range by (simp add: links_wf_def n u(1,2) staged_ok_def)
  show "unstaged d'" by (simp add: unstaged_def n u(1,2))
  have goes: "goes_to d P e \<longleftrightarrow> P = {c} \<and> ec_new_crtc (md_enc d e) = Some c" for e
    using P by (auto simp: goes_to_def)
  have was: "(\<exists>x \<in> P. ec_crtc (md_enc d e) = Some x) \<longleftrightarrow> P = {c} \<and> ec_crtc (md_enc d e) = Some c" for e
    using P by auto
  have active: "ec_connectors_active (md_enc d e) \<longleftrightarrow> (\<exists>k < md_nconn d. co_encoder (md_conn d k) = Some e \<and> co_dpms (md_conn d k) \<noteq> DPMS_OFF)"
    if "e < md_nenc d" for e using l that by (simp add: links_ok_def)
  have linked: "(ec_crtc (md_enc d e) \<noteq> None) \<longleftrightarrow> (\<exists>k < md_nconn d. co_encoder (md_conn d k) = Some e)" if "e < md_nenc d" for e
    using l that by (simp add: links_ok_def)
  text \<open>An encoder away from \<open>c\<close> keeps its connectors and their state.\<close>
  have away: "ec_connectors_active (md_enc d' e) = ec_connectors_active (md_enc d e)"
      "ec_crtc (md_enc d e) = ec_new_crtc (md_enc d e)"
      "k < md_nconn d \<Longrightarrow> co_new_encoder (md_conn d k) = Some e \<longleftrightarrow> co_encoder (md_conn d k) = Some e"
    if "e < md_nenc d" "ec_crtc (md_enc d e) \<noteq> Some c" "ec_new_crtc (md_enc d e) \<noteq> Some c" for e k
    using that move [of e] link [of k e] by (auto simp: u(2) goes was) metis+
  have act: "ec_connectors_active (md_enc d' e) \<longleftrightarrow> (\<exists>k < md_nconn d. co_encoder (md_conn d' k) = Some e \<and> co_dpms (md_conn d' k) \<noteq> DPMS_OFF)"
    if e: "e < md_nenc d" for e
  proof (cases "ec_new_crtc (md_enc d e) = Some c")
    case True
    show ?thesis
    proof (cases "P = {c}")
      case p: True
      then have g: "goes_to d P e" using True goes [of e] by blast
      obtain k where "k < md_nconn d" "co_new_encoder (md_conn d k) = Some e" using True new [OF e] by auto
      then show ?thesis using g e by (auto simp: u(1,2))
    next
      case False
      then have p: "P = {}" and q: "quiet d c" using P by auto
      have same: "co_new_encoder (md_conn d k) = co_encoder (md_conn d k)" if "k < md_nconn d" for k
        using q True e that unfolding quiet_def by blast
      show ?thesis using active [OF e] e p by (auto simp: u(1,2) goes was same)
    qed
  next
    case new_off: False
    have dp: "co_dpms (md_conn d' k) = co_dpms (md_conn d k)" if "k < md_nconn d" "co_new_encoder (md_conn d k) = Some e" for k
      using that new_off by (simp add: u(1) goes)
    show ?thesis
    proof (cases "ec_crtc (md_enc d e) = Some c")
      case True
      then have none: "ec_new_crtc (md_enc d e) = None" using move [OF e] new_off by (metis option.distinct(1))
      have "\<not> ec_connectors_active (md_enc d' e)"
      proof (cases "P = {c}")
        case False
        then have "quiet d c" using P by auto
        then have "\<not> ec_connectors_active (md_enc d e)" using True e none unfolding quiet_def by (metis option.distinct(1))
        then show ?thesis using e new_off by (simp add: u(2) goes)
      qed (use e True new_off goes [of e] in \<open>auto simp: u(2)\<close>)
      moreover have "\<not> (\<exists>k < md_nconn d. co_encoder (md_conn d' k) = Some e)"
        using new [OF e] none by (simp add: u(1))
      ultimately show ?thesis by blast
    next
      case False
      show ?thesis
        using away [OF e False new_off] active [OF e] dp by (auto simp: u(1) cong: conj_cong)
    qed
  qed
  have "ec_crtc (md_enc d' e) \<noteq> None \<longleftrightarrow> (\<exists>k < md_nconn d. co_encoder (md_conn d' k) = Some e)" if "e < md_nenc d" for e
    using new [OF that] that by (simp add: u(1,2) cong: conj_cong)
  moreover have "cr_enabled (md_crtc d' x) \<longleftrightarrow> (\<exists>e < md_nenc d. ec_crtc (md_enc d' e) = Some x)" if "x < md_ncrtc d" for x
    using that by (simp add: u(2,3) cong: conj_cong)
  ultimately show "links_ok d'" using act by (simp add: links_ok_def n)
  show "pipe_ok d' x" if "x < md_ncrtc d" "x \<noteq> c" "pipe_ok d x"
  proof -
    have "(ec_crtc (md_enc d' e) = Some x \<and> ec_connectors_active (md_enc d' e)) \<longleftrightarrow> (ec_crtc (md_enc d e) = Some x \<and> ec_connectors_active (md_enc d e))"
      if "e < md_nenc d" for e
      using move [of e] away(1) [OF that] that \<open>x \<noteq> c\<close> by (simp add: u(2)) (metis option.distinct(1) option.inject)
    then show ?thesis using that by (simp add: pipe_ok_def n u(3) cong: conj_cong)
  qed
qed

section \<open>Setting a mode\<close>

lemma set_opt_list [simp]: "set (opt_list r) = {x. r = Some x}"
  by (cases r) (auto simp: opt_list_def)

lemma set_changed_pipes:
  "set (changed_pipes d) = {x. \<exists>k < md_nconn d. co_encoder (md_conn d k) \<noteq> co_new_encoder (md_conn d k)
       \<and> (crtc_of d (co_encoder (md_conn d k)) = Some x \<or> (\<exists>e. co_new_encoder (md_conn d k) = Some e \<and> ec_new_crtc (md_enc d e) = Some x))}
     \<union> {x. \<exists>e < md_nenc d. ec_crtc (md_enc d e) \<noteq> ec_new_crtc (md_enc d e)
       \<and> (ec_crtc (md_enc d e) = Some x \<or> ec_new_crtc (md_enc d e) = Some x)}"
proof -
  have a: "x \<in> set (let r = md_conn d k in if co_encoder r = co_new_encoder r then []
        else opt_list (crtc_of d (co_encoder r))
          @ (case co_new_encoder r of None \<Rightarrow> [] | Some e \<Rightarrow> opt_list (ec_new_crtc (md_enc d e)))) \<longleftrightarrow>
      co_encoder (md_conn d k) \<noteq> co_new_encoder (md_conn d k)
       \<and> (crtc_of d (co_encoder (md_conn d k)) = Some x \<or> (\<exists>e. co_new_encoder (md_conn d k) = Some e \<and> ec_new_crtc (md_enc d e) = Some x))"
    for k x by (cases "co_new_encoder (md_conn d k)") (auto simp: Let_def)
  have b: "x \<in> set (let r = md_enc d e in if ec_crtc r = ec_new_crtc r then [] else opt_list (ec_crtc r) @ opt_list (ec_new_crtc r)) \<longleftrightarrow>
      ec_crtc (md_enc d e) \<noteq> ec_new_crtc (md_enc d e) \<and> (ec_crtc (md_enc d e) = Some x \<or> ec_new_crtc (md_enc d e) = Some x)" for e x
    by (auto simp: Let_def)
  have c: "x \<in> set (concat (map f [0..<n])) \<longleftrightarrow> (\<exists>k < n. x \<in> set (f k))" for f :: "nat \<Rightarrow> nat list" and n x by auto
  show ?thesis unfolding changed_pipes_def set_append by (rule set_eqI) (simp only: Un_iff mem_Collect_eq c a b)
qed

text \<open>Updates of a CRTC that leave the links alone.\<close>

lemma links_crtc [simp]:
  "links_wf (d\<lparr>md_crtc := f\<rparr>) = links_wf d" "unstaged (d\<lparr>md_crtc := f\<rparr>) = unstaged d"
  "staged_ok (d\<lparr>md_crtc := f\<rparr>) c = staged_ok d c" "quiet (d\<lparr>md_crtc := f\<rparr>) c = quiet d c"
  by (simp_all add: links_wf_def unstaged_def staged_ok_def quiet_def)

lemma links_ok_crtc: "(\<And>x. cr_enabled (f x) = cr_enabled (md_crtc d x)) \<Longrightarrow> links_ok (d\<lparr>md_crtc := f\<rparr>) = links_ok d"
  by (simp add: links_ok_def)

lemma pipe_ok_upd:
  "x \<noteq> c \<Longrightarrow> pipe_ok (upd_crtc c r d) x = pipe_ok d x" by (simp add: pipe_ok_def)

lemma disable_only:
  assumes "D \<subseteq> {c}" "c < md_ncrtc d" "\<And>d. md_ncrtc (intel_crtc_disable c d) = md_ncrtc d"
  shows "disable_pipes D d = (if c \<in> D then intel_crtc_disable c d else d)"
proof -
  have "fold (\<lambda>c d. if c \<in> D then intel_crtc_disable c d else d) xs d = (if c \<in> D \<and> c \<in> set xs then intel_crtc_disable c d else d)"
    if "distinct xs" for xs d
    using that assms(1) by (induction xs arbitrary: d) auto
  then show ?thesis using assms(2) by (simp add: disable_pipes_def)
qed

lemma crtc_disable_explicit:
  fixes d c
  assumes "links_wf d"
  defines "d' \<equiv> intel_crtc_disable c d"
  shows "k < md_nconn d \<Longrightarrow> md_conn d' k = (if \<exists>e. co_encoder (md_conn d k) = Some e \<and> ec_crtc (md_enc d e) = Some c
        then (md_conn d k)\<lparr>co_dpms := DPMS_OFF\<rparr> else md_conn d k)"
    and "e < md_nenc d \<Longrightarrow> md_enc d' e = (if ec_crtc (md_enc d e) = Some c \<and> (\<exists>k < md_nconn d. co_encoder (md_conn d k) = Some e)
        then (md_enc d e)\<lparr>ec_connectors_active := False\<rparr> else md_enc d e)"
    and "md_crtc d' = (md_crtc d)(c := (md_crtc d c)\<lparr>cr_active := False, cr_fb := None\<rparr>)"
    and "md_nconn d' = md_nconn d" "md_nenc d' = md_nenc d" "md_ncrtc d' = md_ncrtc d"
  using assms by (auto simp: d'_def intel_crtc_disable_def Let_def crtc_disable_def all_connectors_def all_encoders_def
      some_iff crtc_of_def split: option.splits)

lemma crtc_disable_ok:
  fixes d c
  assumes w: "links_wf d" and l: "links_ok d"
  defines "d' \<equiv> intel_crtc_disable c d"
  shows "links_wf d'" "links_ok d'" "x \<noteq> c \<Longrightarrow> pipe_ok d' x = pipe_ok d x"
    "staged_ok d' c = staged_ok d c" "\<forall>e < md_nenc d. ec_crtc (md_enc d e) = Some c \<longrightarrow> \<not> ec_connectors_active (md_enc d' e)"
proof -
  note u = crtc_disable_explicit [OF w, where c = c, folded d'_def]
  have links: "co_encoder (md_conn d' k) = co_encoder (md_conn d k)" "co_new_encoder (md_conn d' k) = co_new_encoder (md_conn d k)"
    "co_attached (md_conn d' k) = co_attached (md_conn d k)" if "k < md_nconn d" for k
    using u(1) [OF that] by simp_all
  have enc: "ec_crtc (md_enc d' e) = ec_crtc (md_enc d e)" "ec_new_crtc (md_enc d' e) = ec_new_crtc (md_enc d e)" if "e < md_nenc d" for e
    using u(2) [OF that] by simp_all
  show "links_wf d'" using w links enc by (simp add: links_wf_def u(4-6))
  have linked: "ec_crtc (md_enc d e) \<noteq> None \<longleftrightarrow> (\<exists>k < md_nconn d. co_encoder (md_conn d k) = Some e)" if "e < md_nenc d" for e
    using l that by (simp add: links_ok_def)
  have act: "ec_connectors_active (md_enc d e) \<longleftrightarrow> (\<exists>k < md_nconn d. co_encoder (md_conn d k) = Some e \<and> co_dpms (md_conn d k) \<noteq> DPMS_OFF)"
    if "e < md_nenc d" for e using l that by (simp add: links_ok_def)
  show off: "\<forall>e < md_nenc d. ec_crtc (md_enc d e) = Some c \<longrightarrow> \<not> ec_connectors_active (md_enc d' e)"
    using linked by (simp add: u(2)) (metis option.distinct(1))
  have act': "ec_connectors_active (md_enc d' e) \<longleftrightarrow> (\<exists>k < md_nconn d. co_encoder (md_conn d' k) = Some e \<and> co_dpms (md_conn d' k) \<noteq> DPMS_OFF)"
    if "e < md_nenc d" for e
  proof (cases "ec_crtc (md_enc d e) = Some c")
    case True
    then show ?thesis using off that by (auto simp: u(1) split: if_splits)
  next
    case False
    then have "co_encoder (md_conn d' k) = Some e \<and> co_dpms (md_conn d' k) \<noteq> DPMS_OFF \<longleftrightarrow>
        co_encoder (md_conn d k) = Some e \<and> co_dpms (md_conn d k) \<noteq> DPMS_OFF" if "k < md_nconn d" for k
      using that by (auto simp: u(1))
    then show ?thesis using act [OF that] False that by (auto simp: u(2))
  qed
  show "links_ok d'" using l act' links enc by (simp add: links_ok_def u(3-6) cong: conj_cong)
  show "pipe_ok d' x = pipe_ok d x" if "x \<noteq> c"
    using that by (auto simp: pipe_ok_def u(2-6) split: if_splits)
  have att: "co_encoder (md_conn d k) = Some e \<Longrightarrow> k < md_nconn d \<Longrightarrow> e < md_nenc d" for k e
    using w unfolding links_wf_def by (metis option.distinct(1) option.inject)
  show "staged_ok d' c = staged_ok d c"
  proof -
    have "md_enc d' e = md_enc d e \<or> e < md_nenc d" for e
      by (auto simp: d'_def intel_crtc_disable_def Let_def all_connectors_def all_encoders_def crtc_disable_def)
    then have "ec_crtc (md_enc d' e) = ec_crtc (md_enc d e)" "ec_new_crtc (md_enc d' e) = ec_new_crtc (md_enc d e)" for e
      using enc [of e] by metis+
    then show ?thesis using links by (simp add: staged_ok_def u(4-6) cong: conj_cong)
  qed
qed

definition committed :: "ms_dev \<Rightarrow> ms_dev \<Rightarrow> bool" where
  "committed d d' \<longleftrightarrow> md_nconn d' = md_nconn d \<and> md_nenc d' = md_nenc d \<and> md_ncrtc d' = md_ncrtc d
   \<and> (\<forall>k < md_nconn d. co_encoder (md_conn d' k) = co_new_encoder (md_conn d k) \<and> co_attached (md_conn d' k) = co_attached (md_conn d k))
   \<and> (\<forall>e < md_nenc d. ec_crtc (md_enc d' e) = ec_new_crtc (md_enc d e))"

definition idle_or_enabled :: "ms_dev \<Rightarrow> nat \<Rightarrow> bool" where
  "idle_or_enabled d c \<longleftrightarrow> (cr_active (md_crtc d c) \<longrightarrow> cr_enabled (md_crtc d c))"

lemma update_state_committed:
  assumes "links_wf d" "staged_ok d c" shows "committed d (intel_modeset_update_state d P)"
  using update_state_explicit [OF assms] by (simp add: committed_def)

lemma no_null_link: "staged_ok d c \<Longrightarrow> \<not> null_link d"
proof
  assume s: "staged_ok d c" and n: "null_link d"
  then obtain k where k: "k < md_nconn d" "co_new_encoder (md_conn d k) \<noteq> co_encoder (md_conn d k)"
    and o: "(co_encoder (md_conn d k) \<noteq> None \<and> crtc_of d (co_encoder (md_conn d k)) = None)
       \<or> (case co_new_encoder (md_conn d k) of None \<Rightarrow> False | Some e \<Rightarrow> ec_new_crtc (md_enc d e) = None)"
    by (auto simp: null_link_def some_iff)
  have "(co_encoder (md_conn d k) = Some e \<longrightarrow> ec_crtc (md_enc d e) = Some c)
      \<and> (co_new_encoder (md_conn d k) = Some e \<longrightarrow> ec_new_crtc (md_enc d e) = Some c)" for e
    using s k unfolding staged_ok_def by blast
  with o show False by (auto simp: crtc_of_def split: option.splits)
qed

text \<open>What the three masks are for a staged configuration of one CRTC.\<close>

lemma masks:
  assumes w: "links_wf d" and l: "links_ok d" and s: "staged_ok d c"
  obtains (off) "intel_modeset_affected_pipes d c = ({}, {}, {c})" "\<forall>e < md_nenc d. ec_new_crtc (md_enc d e) \<noteq> Some c"
  | (idle) "intel_modeset_affected_pipes d c = ({}, {}, {})" "quiet d c" "\<not> cr_enabled (md_crtc d c)"
      "\<forall>e < md_nenc d. ec_new_crtc (md_enc d e) \<noteq> Some c"
  | (set) "intel_modeset_affected_pipes d c = ({c}, {c}, {})" "\<exists>e < md_nenc d. ec_new_crtc (md_enc d e) = Some c"
proof -
  define D where "D = set (filter (\<lambda>p. cr_enabled (md_crtc d p) \<and> \<not> some_encoder d (\<lambda>e. ec_new_crtc e = Some p)) [0..<md_ncrtc d])"
  define M where "M = ((set (changed_pipes d) \<union> (if cr_enabled (md_crtc d c) then {c} else {})) - D) \<inter> {c}"
  have m: "intel_modeset_affected_pipes d c = (M, M, D)" by (simp add: intel_modeset_affected_pipes_def Let_def M_def D_def)
  have en: "cr_enabled (md_crtc d x) \<longleftrightarrow> (\<exists>e < md_nenc d. ec_crtc (md_enc d e) = Some x)" if "x < md_ncrtc d" for x
    using l that by (simp add: links_ok_def)
  have c: "c < md_ncrtc d" using s by (simp add: staged_ok_def)
  have move: "(ec_crtc (md_enc d e) = None \<or> ec_crtc (md_enc d e) = Some c) \<and> (ec_new_crtc (md_enc d e) = None \<or> ec_new_crtc (md_enc d e) = Some c)"
    if "e < md_nenc d" "ec_new_crtc (md_enc d e) \<noteq> ec_crtc (md_enc d e)" for e
    using s that unfolding staged_ok_def by metis
  have link: "(co_encoder (md_conn d k) = Some e \<longrightarrow> ec_crtc (md_enc d e) = Some c)
      \<and> (co_new_encoder (md_conn d k) = Some e \<longrightarrow> ec_new_crtc (md_enc d e) = Some c)"
    if "k < md_nconn d" "co_new_encoder (md_conn d k) \<noteq> co_encoder (md_conn d k)" for k e
    using s that unfolding staged_ok_def by blast
  have att: "(co_encoder (md_conn d k) = Some e \<longrightarrow> e < md_nenc d) \<and> (co_new_encoder (md_conn d k) = Some e \<longrightarrow> e < md_nenc d)"
    if "k < md_nconn d" for k e
    using w s that unfolding links_wf_def staged_ok_def by (metis option.distinct(1) option.inject)
  have D: "D \<subseteq> {c}"
  proof
    fix x assume "x \<in> D"
    then have x: "x < md_ncrtc d" "cr_enabled (md_crtc d x)" "\<forall>e < md_nenc d. ec_new_crtc (md_enc d e) \<noteq> Some x"
      by (auto simp: D_def some_iff)
    then obtain e where "e < md_nenc d" "ec_crtc (md_enc d e) = Some x" "ec_new_crtc (md_enc d e) \<noteq> Some x" using en by blast
    then show "x \<in> {c}" using move [of e] by auto
  qed
  have used: "c \<notin> D \<Longrightarrow> cr_enabled (md_crtc d c) \<Longrightarrow> \<exists>e < md_nenc d. ec_new_crtc (md_enc d e) = Some c"
    using c by (auto simp: D_def some_iff)
  have changed: "\<exists>e < md_nenc d. ec_new_crtc (md_enc d e) = Some c" if "c \<in> set (changed_pipes d)" "\<not> cr_enabled (md_crtc d c)"
  proof -
    have "\<not> (\<exists>e < md_nenc d. ec_crtc (md_enc d e) = Some c)" using en [OF c] that by blast
    then show ?thesis using that(1) att unfolding set_changed_pipes
      by (auto simp: crtc_of_def split: option.splits) blast+
  qed
  show thesis
  proof (cases "c \<in> D")
    case True
    then have "D = {c}" "M = {}" using D by (auto simp: M_def)
    then show ?thesis using True m by (intro off) (auto simp: D_def some_iff)
  next
    case nD: False
    then have D0: "D = {}" using D by auto
    show ?thesis
    proof (cases "M = {}")
      case True
      then have nc: "c \<notin> set (changed_pipes d)" "\<not> cr_enabled (md_crtc d c)" by (auto simp: M_def D0 split: if_splits)
      then have eq: "ec_crtc (md_enc d e) = Some c \<longleftrightarrow> ec_new_crtc (md_enc d e) = Some c" if "e < md_nenc d" for e
        using that unfolding set_changed_pipes by force
      have "co_new_encoder (md_conn d k) = co_encoder (md_conn d k)" if k: "k < md_nconn d" for k
      proof (rule ccontr)
        assume ne: "co_new_encoder (md_conn d k) \<noteq> co_encoder (md_conn d k)"
        then obtain e where "co_encoder (md_conn d k) = Some e \<or> co_new_encoder (md_conn d k) = Some e" by (metis option.exhaust)
        then have "crtc_of d (co_encoder (md_conn d k)) = Some c \<or> (\<exists>e. co_new_encoder (md_conn d k) = Some e \<and> ec_new_crtc (md_enc d e) = Some c)"
          using link [OF k ne] by (auto simp: crtc_of_def)
        then show False using nc(1) k not_sym [OF ne] unfolding set_changed_pipes by blast
      qed
      then have q: "quiet d c" using eq by (auto simp: quiet_def)
      have "\<forall>e < md_nenc d. ec_new_crtc (md_enc d e) \<noteq> Some c" using eq nc(2) en [OF c] by blast
      then show ?thesis using idle m True D0 q nc(2) by auto
    next
      case False
      then have M: "M = {c}" "c \<in> set (changed_pipes d) \<or> cr_enabled (md_crtc d c)" by (auto simp: M_def split: if_splits)
      then show ?thesis using set m D0 used [OF nD] changed by blast
    qed
  qed
qed

lemma pipe_ok_none:
  "\<not> cr_active (md_crtc d c) \<Longrightarrow> \<not> (\<exists>e < md_nenc d. ec_crtc (md_enc d e) = Some c) \<Longrightarrow> pipe_ok d c"
  by (auto simp: pipe_ok_def)

lemma mode_set_only:
  "\<exists>r. snd (intel_crtc_mode_set c x y fb h b d) = upd_crtc c r d \<and> cr_enabled r = cr_enabled (md_crtc d c)
     \<and> cr_active r = cr_active (md_crtc d c)"
proof -
  have "snd (intel_crtc_mode_set c x y fb h b d) = d \<or>
      (\<exists>f. snd (intel_crtc_mode_set c x y fb h b d) = upd_crtc c (md_crtc d c\<lparr>cr_fb := f, cr_x := x, cr_y := y\<rparr>) d)"
    by (cases h; cases fb; cases b) (auto simp: intel_crtc_mode_set_def intel_pipe_set_base_def)
  then show ?thesis
  proof (elim disjE exE)
    assume "snd (intel_crtc_mode_set c x y fb h b d) = d"
    then show ?thesis by (intro exI [of _ "md_crtc d c"]) simp
  next
    fix f assume "snd (intel_crtc_mode_set c x y fb h b d) = upd_crtc c (md_crtc d c\<lparr>cr_fb := f, cr_x := x, cr_y := y\<rparr>) d"
    then show ?thesis by (intro exI [of _ "md_crtc d c\<lparr>cr_fb := f, cr_x := x, cr_y := y\<rparr>"]) simp
  qed
qed

lemma staged_off:
  "intel_modeset_affected_pipes d c = ({}, {}, D) \<Longrightarrow> staged_ok d c \<Longrightarrow>
   intel_set_mode d c mode x y fb ans = Ok (True, intel_modeset_update_state (disable_pipes D d) {})"
  by (simp add: intel_set_mode_def no_null_link Let_def)

lemma set_mode_ok:
  assumes w: "links_wf d" and l: "links_ok d" and s: "staged_ok d c" and p: "\<forall>x < md_ncrtc d. x \<noteq> c \<longrightarrow> pipe_ok d x"
    and ie: "idle_or_enabled d c" and m: "mode \<noteq> None \<or> (\<forall>e < md_nenc d. ec_new_crtc (md_enc d e) \<noteq> Some c)"
  shows "\<exists>ok d'. intel_set_mode d c mode x y fb ans = Ok (ok, d')
    \<and> links_wf d' \<and> links_ok d' \<and> (\<forall>x < md_ncrtc d. x \<noteq> c \<longrightarrow> pipe_ok d' x) \<and> idle_or_enabled d' c
    \<and> (if ok then pipe_ok d' c \<and> unstaged d' \<and> committed d d' else d' = d \<or> committed d d')"
  using w l s
proof (cases rule: masks)
  case off
  let ?d = "intel_crtc_disable c d" and ?d' = "intel_modeset_update_state (intel_crtc_disable c d) {}"
  note k = crtc_disable_ok [OF w l, where c = c] and n = crtc_disable_explicit [OF w, where c = c]
  have dp: "disable_pipes {c} d = ?d"
    using s n(6) by (subst disable_only) (auto simp: staged_ok_def intel_crtc_disable_def Let_def all_connectors_def all_encoders_def crtc_disable_def)
  have s1: "staged_ok ?d c" using k s by simp
  have "ec_crtc (md_enc ?d e) = ec_crtc (md_enc d e) \<and> ec_new_crtc (md_enc ?d e) = ec_new_crtc (md_enc d e)" if "e < md_nenc d" for e
    using n(2) [OF that] by simp
  then have q: "quiet ?d c" unfolding quiet_def n(5) using k(5) off(2) by metis
  note u = update_state_ok [OF k(1,2) s1, of "{}"] q
  have z: "md_crtc ?d' c = (md_crtc d c)\<lparr>cr_active := False, cr_fb := None, cr_enabled := False\<rparr>"
    using update_state_explicit(3) [OF k(1) s1, of c "{}"] s n(3,5,6) off(2) n(2) by (auto simp: staged_ok_def)
  have com: "committed ?d ?d'" by (rule update_state_committed [OF k(1) s1])
  then have com': "committed d ?d'" using n(1,2,4-6) by (simp add: committed_def)
  have "\<not> (\<exists>e < md_nenc ?d'. ec_crtc (md_enc ?d' e) = Some c)" using com' off(2) by (simp add: committed_def)
  then have "pipe_ok ?d' c" using z by (intro pipe_ok_none) simp_all
  then show ?thesis
    using staged_off [OF off(1) s] dp u com' p k(3) n(6) z by (auto simp: idle_or_enabled_def)
next
  case idle
  let ?d' = "intel_modeset_update_state d {}"
  note u = update_state_ok [OF w l s, of "{}"]
  have com: "committed d ?d'" by (rule update_state_committed [OF w s])
  have z: "md_crtc ?d' c = (md_crtc d c)\<lparr>cr_enabled := False\<rparr>" "\<not> cr_active (md_crtc d c)"
    using update_state_explicit(3) [OF w s, of c "{}"] s idle ie by (auto simp: staged_ok_def idle_or_enabled_def)
  have "\<not> (\<exists>e < md_nenc ?d'. ec_crtc (md_enc ?d' e) = Some c)" using com idle(4) by (simp add: committed_def)
  then have "pipe_ok ?d' c" using z by (intro pipe_ok_none) simp_all
  moreover have "disable_pipes {} d = d" using s by (subst disable_only [where c = c]) (auto simp: staged_ok_def intel_crtc_disable_def Let_def all_connectors_def all_encoders_def crtc_disable_def)
  ultimately show ?thesis
    using staged_off [OF idle(1) s] u idle(2) com p z by (auto simp: idle_or_enabled_def)
next
  case set
  have c: "c < md_ncrtc d" using s by (simp add: staged_ok_def)
  have dp: "disable_pipes {} d = d" using s by (subst disable_only [where c = c]) (auto simp: staged_ok_def intel_crtc_disable_def Let_def all_connectors_def all_encoders_def crtc_disable_def)
  obtain md where md: "mode = Some md" using m set(2) by auto
  show ?thesis
  proof (cases "an_adjusted ans")
    case None
    then have "intel_set_mode d c mode x y fb ans = Ok (False, d)"
      using set(1) md by (simp add: intel_set_mode_def no_null_link [OF s] dp Let_def)
    then show ?thesis using w l p ie by auto
  next
    case (Some am)
    define r where "r = (md_crtc d c)\<lparr>cr_active := False, cr_mode := md\<rparr>"
    define d1 where "d1 = upd_crtc c r d"
    have d1: "upd_crtc c (md_crtc (if cr_enabled (md_crtc d c) then crtc_disable c d else d) c\<lparr>cr_mode := md\<rparr>)
        (if cr_enabled (md_crtc d c) then crtc_disable c d else d) = d1"
      using ie by (cases "md_crtc d c") (auto simp: d1_def r_def crtc_disable_def idle_or_enabled_def)
    have k: "links_wf d1" "links_ok d1" "staged_ok d1 c" "\<And>x. x \<noteq> c \<Longrightarrow> pipe_ok d1 x = pipe_ok d x"
      using w l s by (simp_all add: d1_def links_ok_crtc r_def pipe_ok_upd)
    let ?d = "intel_modeset_update_state d1 {c}"
    note u = update_state_ok [OF k(1-3), of "{c}", simplified] and e = update_state_explicit [OF k(1,3), where P = "{c}"]
    have n1: "md_nconn d1 = md_nconn d" "md_nenc d1 = md_nenc d" "md_ncrtc d1 = md_ncrtc d" "md_enc d1 = md_enc d" "md_conn d1 = md_conn d"
      by (simp_all add: d1_def)
    have com: "committed d ?d" using update_state_committed [OF k(1,3), of "{c}"] by (simp add: committed_def n1)
    have z: "md_crtc ?d c = r\<lparr>cr_enabled := True\<rparr>" using e(3) [of c] c set(2) by (simp add: n1) (simp add: d1_def)
    have ex: "\<exists>e < md_nenc d. ec_crtc (md_enc ?d e) = Some c \<and> ec_connectors_active (md_enc ?d e)"
    proof -
      obtain en where en: "en < md_nenc d" "ec_new_crtc (md_enc d en) = Some c" using set(2) by auto
      moreover have "\<exists>k < md_nconn d. co_new_encoder (md_conn d k) = Some en"
        using s en unfolding staged_ok_def by (metis option.distinct(1))
      ultimately have "ec_crtc (md_enc ?d en) = Some c \<and> ec_connectors_active (md_enc ?d en)"
        using e(2) [of en] by (simp add: n1 goes_to_def)
      then show ?thesis using en by blast
    qed
    have ls: "links_ok (?d\<lparr>md_crtc := f\<rparr>)" if "cr_enabled (f c)" "\<And>x. x \<noteq> c \<Longrightarrow> f x = md_crtc ?d x" for f
      using that u(2) z by (subst links_ok_crtc) (case_tac "x = c", simp_all)
    have ps: "pipe_ok (?d\<lparr>md_crtc := f\<rparr>) x" if "\<And>x. x \<noteq> c \<Longrightarrow> f x = md_crtc ?d x" "x < md_ncrtc d" "x \<noteq> c" for f x
      using that u(4) [of x] p k(4) n1 by (simp add: pipe_ok_def)
    have pc: "pipe_ok (?d\<lparr>md_crtc := f\<rparr>) c" if "cr_active (f c)" for f
      using that ex com by (simp add: pipe_ok_def committed_def)
    obtain err d3 where ms: "intel_crtc_mode_set c x y fb (an_hook ans) (an_base ans) ?d = (err, d3)"
      and d3: "\<exists>r'. d3 = upd_crtc c r' ?d \<and> cr_enabled r' \<and> \<not> cr_active r'"
      using mode_set_only [of c x y fb "an_hook ans" "an_base ans" ?d] z
      by (cases "intel_crtc_mode_set c x y fb (an_hook ans) (an_base ans) ?d") (auto simp: r_def)
    obtain r' where r': "d3 = upd_crtc c r' ?d" "cr_enabled r'" "\<not> cr_active r'" using d3 by auto
    have run: "intel_set_mode d c mode x y fb ans = (case err of
          Some e \<Rightarrow> Ok (False, upd_crtc c (r'\<lparr>cr_hwmode := cr_hwmode (md_crtc d c), cr_mode := cr_mode (md_crtc d c)\<rparr>) ?d)
        | None \<Rightarrow> Ok (True, upd_crtc c (r'\<lparr>cr_active := True, cr_hwmode := am\<rparr>) ?d))"
    proof -
      have "intel_set_mode d c mode x y fb ans =
          (case intel_crtc_mode_set c x y fb (an_hook ans) (an_base ans) ?d of
             (Some e, d') \<Rightarrow> Ok (False, if cr_enabled (md_crtc d' c)
                then upd_crtc c (md_crtc d' c\<lparr>cr_hwmode := cr_hwmode (md_crtc d c), cr_mode := cr_mode (md_crtc d c)\<rparr>) d' else d')
           | (None, d') \<Rightarrow> Ok (True, upd_crtc c (md_crtc (crtc_enable c d') c\<lparr>cr_hwmode := am\<rparr>) (crtc_enable c d')))"
        unfolding intel_set_mode_def
        by (simp only: no_null_link [OF s] set(1) dp Let_def md Some split_conv prod.case if_False if_True option.sel
            option.distinct insert_not_empty insert_iff simp_thms d1)
      then show ?thesis unfolding ms using r' by (cases err) (simp_all add: crtc_enable_def)
    qed
    have lw: "links_wf (?d\<lparr>md_crtc := f\<rparr>)" "unstaged (?d\<lparr>md_crtc := f\<rparr>)" "committed d (?d\<lparr>md_crtc := f\<rparr>)" for f
      using u(1,3) com by (simp_all add: committed_def)
    show ?thesis
    proof (cases err)
      case None
      then show ?thesis unfolding run using lw ls ps pc r' by (auto simp: idle_or_enabled_def)
    next
      case (Some e)
      then show ?thesis unfolding run using lw ls ps r' by (auto simp: idle_or_enabled_def)
    qed
  qed
qed

end
