(* ===== verification/Intel_Modeset_Config.thy ===== *)
theory Intel_Modeset_Config
  imports Intel_Modeset_Proofs
begin

text \<open>
  The staging of a request, the whole of \<^verbatim>\<open>intel_crtc_set_config\<close>, the power management calls and
  the read-out of the hardware keep or establish the driver's check.
\<close>

section \<open>Changes of the staged links only\<close>

definition same_base :: "ms_dev \<Rightarrow> ms_dev \<Rightarrow> bool" where
  "same_base d d' \<longleftrightarrow> md_nconn d' = md_nconn d \<and> md_nenc d' = md_nenc d \<and> md_ncrtc d' = md_ncrtc d \<and> md_crtc d' = md_crtc d
   \<and> (\<forall>k. (md_conn d' k)\<lparr>co_new_encoder := None\<rparr> = (md_conn d k)\<lparr>co_new_encoder := None\<rparr>)
   \<and> (\<forall>k \<ge> md_nconn d. md_conn d' k = md_conn d k)
   \<and> (\<forall>e. (md_enc d' e)\<lparr>ec_new_crtc := None\<rparr> = (md_enc d e)\<lparr>ec_new_crtc := None\<rparr>)
   \<and> (\<forall>e \<ge> md_nenc d. md_enc d' e = md_enc d e)"

lemma new_encoder_eqD:
  assumes "(r' :: ms_connector)\<lparr>co_new_encoder := None\<rparr> = r\<lparr>co_new_encoder := None\<rparr>"
  shows "co_encoder r' = co_encoder r" "co_attached r' = co_attached r" "co_dpms r' = co_dpms r"
    "r'\<lparr>co_new_encoder := x\<rparr> = r\<lparr>co_new_encoder := x\<rparr>"
  using assms by (cases r; cases r'; simp)+

lemma new_crtc_eqD:
  assumes "(r' :: ms_encoder)\<lparr>ec_new_crtc := None\<rparr> = r\<lparr>ec_new_crtc := None\<rparr>"
  shows "ec_crtc r' = ec_crtc r" "ec_connectors_active r' = ec_connectors_active r" "ec_possible_crtcs r' = ec_possible_crtcs r"
    "r'\<lparr>ec_new_crtc := x\<rparr> = r\<lparr>ec_new_crtc := x\<rparr>"
  using assms by (cases r; cases r'; simp)+

lemma same_base_sel:
  assumes "same_base d d'"
  shows "co_encoder (md_conn d' k) = co_encoder (md_conn d k)" "co_attached (md_conn d' k) = co_attached (md_conn d k)"
    "co_dpms (md_conn d' k) = co_dpms (md_conn d k)"
    "ec_crtc (md_enc d' e) = ec_crtc (md_enc d e)" "ec_connectors_active (md_enc d' e) = ec_connectors_active (md_enc d e)"
    "ec_possible_crtcs (md_enc d' e) = ec_possible_crtcs (md_enc d e)"
    "md_nconn d' = md_nconn d" "md_nenc d' = md_nenc d" "md_ncrtc d' = md_ncrtc d" "md_crtc d' = md_crtc d"
proof -
  have "(md_conn d' k)\<lparr>co_new_encoder := None\<rparr> = (md_conn d k)\<lparr>co_new_encoder := None\<rparr>"
    "(md_enc d' e)\<lparr>ec_new_crtc := None\<rparr> = (md_enc d e)\<lparr>ec_new_crtc := None\<rparr>"
    using assms by (simp_all add: same_base_def)
  note a = new_encoder_eqD [OF this(1)] and b = new_crtc_eqD [OF this(2)]
  show "co_encoder (md_conn d' k) = co_encoder (md_conn d k)" "co_attached (md_conn d' k) = co_attached (md_conn d k)"
    "co_dpms (md_conn d' k) = co_dpms (md_conn d k)" by (fact a)+
  show "ec_crtc (md_enc d' e) = ec_crtc (md_enc d e)" "ec_connectors_active (md_enc d' e) = ec_connectors_active (md_enc d e)"
    "ec_possible_crtcs (md_enc d' e) = ec_possible_crtcs (md_enc d e)" by (fact b)+
qed (use assms in \<open>simp_all add: same_base_def\<close>)

lemma same_base_refl [simp]: "same_base d d"
  by (simp add: same_base_def)

lemma same_base_trans: "same_base a b \<Longrightarrow> same_base b c \<Longrightarrow> same_base a c"
  by (simp add: same_base_def)

lemma same_base_links:
  assumes "same_base d d'"
  shows "links_wf d' = links_wf d" "links_ok d' = links_ok d" "pipe_ok d' = pipe_ok d" "idle_or_enabled d' = idle_or_enabled d"
  using same_base_sel [OF assms] by (simp_all add: links_wf_def links_ok_def pipe_ok_def idle_or_enabled_def fun_eq_iff)

lemma same_base_unstaged:
  assumes b: "same_base d d'" and u: "unstaged d" "unstaged d'"
  shows "d' = d"
proof -
  have "md_conn d' k = md_conn d k" for k
  proof (cases "k < md_nconn d")
    case True
    then have "co_new_encoder (md_conn d' k) = co_new_encoder (md_conn d k)"
      using u same_base_sel(1) [OF b, of k] same_base_sel(7) [OF b] by (simp add: unstaged_def)
    moreover have "(md_conn d' k)\<lparr>co_new_encoder := None\<rparr> = (md_conn d k)\<lparr>co_new_encoder := None\<rparr>" using b by (simp add: same_base_def)
    ultimately show ?thesis by (cases "md_conn d' k"; cases "md_conn d k") simp
  qed (use b in \<open>simp add: same_base_def\<close>)
  moreover have "md_enc d' e = md_enc d e" for e
  proof (cases "e < md_nenc d")
    case True
    then have "ec_new_crtc (md_enc d' e) = ec_new_crtc (md_enc d e)"
      using u same_base_sel(4) [OF b, of e] same_base_sel(8) [OF b] by (simp add: unstaged_def)
    moreover have "(md_enc d' e)\<lparr>ec_new_crtc := None\<rparr> = (md_enc d e)\<lparr>ec_new_crtc := None\<rparr>" using b by (simp add: same_base_def)
    ultimately show ?thesis by (cases "md_enc d' e"; cases "md_enc d e") simp
  qed (use b in \<open>simp add: same_base_def\<close>)
  ultimately show ?thesis using same_base_sel(7-10) [OF b] by (cases d; cases d') (auto simp: fun_eq_iff)
qed

lemma restore_base:
  shows "same_base d (intel_set_config_restore_state saved d)"
    and "k < md_nconn d \<Longrightarrow> co_new_encoder (md_conn (intel_set_config_restore_state saved d) k) = co_encoder (md_conn saved k)"
    and "e < md_nenc d \<Longrightarrow> ec_new_crtc (md_enc (intel_set_config_restore_state saved d) e) = ec_crtc (md_enc saved e)"
  by (simp_all add: same_base_def intel_set_config_restore_state_def)

lemma restore_staged:
  assumes b: "same_base d d'" and u: "unstaged d"
  shows "intel_set_config_restore_state d d' = d"
proof (rule same_base_unstaged [OF _ u])
  note r = restore_base [where d = d' and saved = d]
  show sb: "same_base d (intel_set_config_restore_state d d')" by (rule same_base_trans [OF b r(1)])
  show "unstaged (intel_set_config_restore_state d d')"
    using r(2,3) same_base_sel [OF sb] same_base_sel(7,8) [OF b] by (simp add: unstaged_def)
qed

section \<open>Staging\<close>

definition unstaged_links_ok :: "ms_dev \<Rightarrow> bool" where
  "unstaged_links_ok d \<longleftrightarrow> links_wf d \<and> intel_modeset_check_state d"

text \<open>What the callers of \<^verbatim>\<open>set_config\<close> ensure, and that no listed connector is taken from another CRTC.\<close>

definition request_ok :: "ms_dev \<Rightarrow> mode_set \<Rightarrow> bool" where
  "request_ok d s \<longleftrightarrow> set_crtc s < md_ncrtc d \<and> (set_mode s = None \<or> set_fb s = None \<longrightarrow> set_connectors s = [])
   \<and> (\<forall>k \<in> set (set_connectors s). k < md_nconn d \<and>
        (ec_crtc (md_enc d (co_attached (md_conn d k))) = None \<or> ec_crtc (md_enc d (co_attached (md_conn d k))) = Some (set_crtc s)))"

definition target :: "ms_dev \<Rightarrow> mode_set \<Rightarrow> nat \<Rightarrow> nat \<Rightarrow> nat option" where
  "target d s k e = (if k \<in> set (set_connectors s) then Some (set_crtc s) else ec_crtc (md_enc d e))"

lemma stage_encoders_ok:
  assumes "\<forall>k \<in> set ks. \<forall>e. co_new_encoder (md_conn d k) = Some e \<longrightarrow> e = co_attached (md_conn d k) \<and> e < md_nenc d \<and> target d s k e \<noteq> None"
  shows "\<exists>r d'. stage_encoders s ks d = Ok (r, d') \<and> same_base d d' \<and> md_conn d' = md_conn d
    \<and> (r = None \<longrightarrow> (\<forall>e. (if \<exists>k \<in> set ks. co_new_encoder (md_conn d k) = Some e
         then \<exists>k \<in> set ks. co_new_encoder (md_conn d k) = Some e \<and> ec_new_crtc (md_enc d' e) = target d s k e
         else ec_new_crtc (md_enc d' e) = ec_new_crtc (md_enc d e))))"
  using assms
proof (induction ks arbitrary: d)
  case (Cons k ks)
  show ?case
  proof (cases "co_new_encoder (md_conn d k)")
    case None
    then show ?thesis using Cons.IH [of d] Cons.prems by auto
  next
    case (Some e)
    then have e: "e = co_attached (md_conn d k)" "e < md_nenc d" using Cons.prems by auto
    obtain c where c: "target d s k e = Some c" using Cons.prems Some by auto
    let ?d = "upd_enc e (md_enc d e\<lparr>ec_new_crtc := Some c\<rparr>) d"
    show ?thesis
    proof (cases "intel_encoder_crtc_ok (md_enc d e) c")
      case False
      then show ?thesis using Some c by (simp add: target_def)
    next
      case True
      have b: "same_base d ?d" using e by (simp add: same_base_def)
      have t: "target ?d s k' x = target d s k' x" for k' x by (simp add: target_def)
      have mc: "md_conn ?d = md_conn d" "md_nenc ?d = md_nenc d" by simp_all
      from Cons.IH [of ?d, unfolded t mc] Cons.prems obtain r d' where d': "stage_encoders s ks ?d = Ok (r, d')" "same_base ?d d'" "md_conn d' = md_conn d"
        "r = None \<longrightarrow> (\<forall>x. (if \<exists>k \<in> set ks. co_new_encoder (md_conn d k) = Some x
         then \<exists>k \<in> set ks. co_new_encoder (md_conn d k) = Some x \<and> ec_new_crtc (md_enc d' x) = target d s k x
         else ec_new_crtc (md_enc d' x) = ec_new_crtc (md_enc ?d x)))"
        by auto
      have run: "stage_encoders s (k # ks) d = Ok (r, d')" using Some c True d'(1) e by (simp add: target_def)
      have "\<forall>x. (if \<exists>k \<in> set (k # ks). co_new_encoder (md_conn d k) = Some x
         then \<exists>k \<in> set (k # ks). co_new_encoder (md_conn d k) = Some x \<and> ec_new_crtc (md_enc d' x) = target d s k x
         else ec_new_crtc (md_enc d' x) = ec_new_crtc (md_enc d x))" if "r = None"
      proof
        fix x
        from d'(4) that have "if \<exists>k \<in> set ks. co_new_encoder (md_conn d k) = Some x
         then \<exists>k \<in> set ks. co_new_encoder (md_conn d k) = Some x \<and> ec_new_crtc (md_enc d' x) = target d s k x
         else ec_new_crtc (md_enc d' x) = ec_new_crtc (md_enc ?d x)" by blast
        then show "if \<exists>k \<in> set (k # ks). co_new_encoder (md_conn d k) = Some x
         then \<exists>k \<in> set (k # ks). co_new_encoder (md_conn d k) = Some x \<and> ec_new_crtc (md_enc d' x) = target d s k x
         else ec_new_crtc (md_enc d' x) = ec_new_crtc (md_enc d x)"
          using Some c by (cases "x = e"; cases "\<exists>k \<in> set ks. co_new_encoder (md_conn d k) = Some x") auto
      qed
      then show ?thesis using run same_base_trans [OF b d'(2)] d'(3) by blast
    qed
  qed
qed simp

lemma stage_connector_sel:
  "co_encoder (stage_connector d s k) = co_encoder (md_conn d k)" "co_attached (stage_connector d s k) = co_attached (md_conn d k)"
  "co_dpms (stage_connector d s k) = co_dpms (md_conn d k)"
  "co_new_encoder (stage_connector d s k) =
     (if (set_fb s = None \<or> k \<notin> set (set_connectors s)) \<and> crtc_of d (co_encoder (md_conn d k)) = Some (set_crtc s) then None
      else if k \<in> set (set_connectors s) then Some (co_attached (md_conn d k)) else co_new_encoder (md_conn d k))"
  "(stage_connector d s k)\<lparr>co_new_encoder := None\<rparr> = (md_conn d k)\<lparr>co_new_encoder := None\<rparr>"
  by (simp_all add: stage_connector_def Let_def)

text \<open>The staged state: which connectors and encoders end where.\<close>

definition staged_for :: "ms_dev \<Rightarrow> mode_set \<Rightarrow> ms_dev \<Rightarrow> bool" where
  "staged_for d s d' \<longleftrightarrow> same_base d d' \<and> staged_ok d' (set_crtc s)
   \<and> (set_fb s = None \<longrightarrow> (\<forall>e < md_nenc d. ec_new_crtc (md_enc d' e) \<noteq> Some (set_crtc s)))
   \<and> (\<forall>k < md_nconn d. set_fb s \<noteq> None \<longrightarrow>
        ((\<exists>e. co_new_encoder (md_conn d' k) = Some e \<and> ec_new_crtc (md_enc d' e) = Some (set_crtc s)) \<longleftrightarrow> k \<in> set (set_connectors s)))"

lemma stage_ok:
  assumes u: "unstaged_links_ok d" and r: "request_ok d s"
  shows "\<exists>res cf' d'. intel_modeset_stage_output_state d s cf = Ok (res, cf', d') \<and> same_base d d'
    \<and> (res = None \<longrightarrow> staged_for d s d' \<and> (\<not> cf_mode_changed cf' \<longrightarrow> unstaged d'))
    \<and> (cf_mode_changed cf \<longrightarrow> cf_mode_changed cf')"
proof -
  let ?c = "set_crtc s" and ?L = "set (set_connectors s)"
  define d1 where "d1 = d\<lparr>md_conn := (\<lambda>k. if k < md_nconn d then stage_connector d s k else md_conn d k)\<rparr>"
  have w: "links_wf d" and l: "links_ok d" and un: "unstaged d" using u by (simp_all add: unstaged_links_ok_def check_state_iff)
  have att: "co_encoder (md_conn d k) = Some e \<Longrightarrow> e = co_attached (md_conn d k)" "co_attached (md_conn d k) < md_nenc d"
    if "k < md_nconn d" for k e
  proof -
    have a: "co_encoder (md_conn d k) = None \<or> co_encoder (md_conn d k) = Some (co_attached (md_conn d k))"
      "co_attached (md_conn d k) < md_nenc d" using w that unfolding links_wf_def by blast+
    show "co_encoder (md_conn d k) = Some e \<Longrightarrow> e = co_attached (md_conn d k)" using a(1) by auto
    show "co_attached (md_conn d k) < md_nenc d" by (rule a(2))
  qed
  have linked: "ec_crtc (md_enc d e) \<noteq> None \<longleftrightarrow> (\<exists>k < md_nconn d. co_encoder (md_conn d k) = Some e)" if "e < md_nenc d" for e
    using l that by (simp add: links_ok_def)
  have local: "ec_crtc (md_enc d (co_attached (md_conn d k))) = None \<or> ec_crtc (md_enc d (co_attached (md_conn d k))) = Some ?c"
    "k < md_nconn d" "set_fb s \<noteq> None" if "k \<in> ?L" for k
    using r that unfolding request_ok_def by auto
  have b1: "same_base d d1" by (simp add: same_base_def d1_def stage_connector_sel)
  have enc1: "md_enc d1 = md_enc d" by (simp add: d1_def)
  text \<open>The staged encoder of a connector.\<close>
  have new: "co_new_encoder (md_conn d1 k) =
      (if k \<in> ?L then Some (co_attached (md_conn d k))
       else if crtc_of d (co_encoder (md_conn d k)) = Some ?c then None else co_encoder (md_conn d k))" if "k < md_nconn d" for k
    using that local(3) [of k] un by (auto simp: d1_def stage_connector_sel unstaged_def)
  have newD: "e = co_attached (md_conn d k)" "e < md_nenc d"
      "k \<notin> ?L \<Longrightarrow> co_encoder (md_conn d k) = Some e \<and> ec_crtc (md_enc d e) \<noteq> None \<and> ec_crtc (md_enc d e) \<noteq> Some ?c"
    if "k < md_nconn d" "co_new_encoder (md_conn d1 k) = Some e" for k e
  proof -
    show e: "e = co_attached (md_conn d k)"
      using that new [OF that(1)] att(1) [OF that(1)] by (auto split: if_splits)
    then show "e < md_nenc d" using att(2) [OF that(1)] by simp
    show "co_encoder (md_conn d k) = Some e \<and> ec_crtc (md_enc d e) \<noteq> None \<and> ec_crtc (md_enc d e) \<noteq> Some ?c" if "k \<notin> ?L"
    proof -
      have ce: "co_encoder (md_conn d k) = Some e" "crtc_of d (co_encoder (md_conn d k)) \<noteq> Some ?c"
        using new [OF \<open>k < md_nconn d\<close>] \<open>co_new_encoder (md_conn d1 k) = Some e\<close> that by (auto split: if_splits)
      then show ?thesis using linked [OF \<open>e < md_nenc d\<close>] \<open>k < md_nconn d\<close> by (auto simp: crtc_of_def)
    qed
  qed
  text \<open>An encoder of a listed connector has no connector but listed ones.\<close>
  have excl: "k' \<in> ?L" if "k \<in> ?L" "k' < md_nconn d" "co_new_encoder (md_conn d1 k') = Some (co_attached (md_conn d k))" for k k'
    using newD(3) [OF that(2,3)] local(1) [OF that(1)] by (cases "k' \<in> ?L") auto
  have "\<forall>k \<in> set [0..<md_nconn d]. \<forall>e. co_new_encoder (md_conn d1 k) = Some e \<longrightarrow>
      e = co_attached (md_conn d1 k) \<and> e < md_nenc d1 \<and> target d1 s k e \<noteq> None"
    using newD same_base_sel [OF b1] by (auto simp: target_def enc1)
  from stage_encoders_ok [OF this] obtain res d2 where st: "stage_encoders s [0..<md_nconn d] d1 = Ok (res, d2)" "same_base d1 d2"
    "md_conn d2 = md_conn d1"
    and cr: "res = None \<Longrightarrow> (if \<exists>k \<in> set [0..<md_nconn d]. co_new_encoder (md_conn d1 k) = Some e
         then \<exists>k \<in> set [0..<md_nconn d]. co_new_encoder (md_conn d1 k) = Some e \<and> ec_new_crtc (md_enc d2 e) = target d1 s k e
         else ec_new_crtc (md_enc d2 e) = ec_new_crtc (md_enc d1 e))" for e
    by blast
  have b2: "same_base d d2" by (rule same_base_trans [OF b1 st(2)])
  define cf1 where "cf1 = cf\<lparr>cf_mode_changed := cf_mode_changed cf \<or> some_connector d1 (\<lambda>k. co_new_encoder k \<noteq> co_encoder k)\<rparr>"
  define d3 where "d3 = drop_encoders d2"
  define cf2 where "cf2 = cf1\<lparr>cf_mode_changed := cf_mode_changed cf1 \<or> some_encoder d3 (\<lambda>e. ec_new_crtc e \<noteq> ec_crtc e)\<rparr>"
  have run: "intel_modeset_stage_output_state d s cf = (case res of Some e \<Rightarrow> Ok (Some e, cf1, d2) | None \<Rightarrow> Ok (None, cf2, d3))"
    by (simp add: intel_modeset_stage_output_state_def Let_def d1_def [symmetric] st(1) cf1_def cf2_def d3_def split: option.splits)
  show ?thesis
  proof (cases res)
    case (Some e)
    then show ?thesis using run b2 by (simp add: cf1_def)
  next
    case None
    have b3: "same_base d d3" using b2 by (auto simp: d3_def drop_encoders_def all_encoders_def same_base_def)
    have c3: "md_conn d3 = md_conn d1" using st(3) by (simp add: d3_def drop_encoders_def all_encoders_def)
    have n: "md_nconn d3 = md_nconn d" "md_nenc d3 = md_nenc d" "md_ncrtc d3 = md_ncrtc d" using same_base_sel [OF b3] by simp_all
    have e3: "ec_new_crtc (md_enc d3 e) = (if \<exists>k < md_nconn d. co_new_encoder (md_conn d1 k) = Some e then ec_new_crtc (md_enc d2 e) else None)"
      if "e < md_nenc d" for e
      using that same_base_sel(7,8) [OF b2] st(3) by (auto simp: d3_def drop_encoders_def all_encoders_def some_iff)
    text \<open>The staged CRTC of an encoder.\<close>
    have E: "\<exists>k < md_nconn d. co_new_encoder (md_conn d1 k) = Some e \<and> ec_new_crtc (md_enc d3 e) = target d s k e"
      if "e < md_nenc d" "k < md_nconn d" "co_new_encoder (md_conn d1 k) = Some e" for e k
    proof -
      note t = that
      have ex: "\<exists>k \<in> set [0..<md_nconn d]. co_new_encoder (md_conn d1 k) = Some e" using that(2,3) by auto
      then obtain k' where k': "k' < md_nconn d" "co_new_encoder (md_conn d1 k') = Some e" "ec_new_crtc (md_enc d2 e) = target d1 s k' e"
        using cr [OF None, of e] by auto
      moreover have "target d1 s k' e = target d s k' e" by (simp add: target_def enc1)
      moreover have "ec_new_crtc (md_enc d3 e) = ec_new_crtc (md_enc d2 e)" using e3 [OF that(1)] that(2,3) by auto
      ultimately show ?thesis by auto
    qed
    have listed: "ec_new_crtc (md_enc d3 e) = Some ?c" if "k \<in> ?L" "co_new_encoder (md_conn d1 k) = Some e" for e k
    proof -
      note t = that
      have e: "e = co_attached (md_conn d k)" "e < md_nenc d" using newD(1,2) [OF local(2) [OF that(1)] that(2)] .
      obtain k' where k': "k' < md_nconn d" "co_new_encoder (md_conn d1 k') = Some e" "ec_new_crtc (md_enc d3 e) = target d s k' e"
        using E [OF e(2) local(2) [OF t(1)] t(2)] by auto
      then show ?thesis using excl [OF that(1) k'(1)] e(1) by (simp add: target_def)
    qed
    have unlisted: "ec_new_crtc (md_enc d3 e) = ec_crtc (md_enc d e) \<and> ec_crtc (md_enc d e) \<noteq> None \<and> ec_crtc (md_enc d e) \<noteq> Some ?c"
      if "k < md_nconn d" "k \<notin> ?L" "co_new_encoder (md_conn d1 k) = Some e" for e k
    proof -
      note t = that
      note e = newD [OF that(1,3)]
      obtain k' where k': "k' < md_nconn d" "co_new_encoder (md_conn d1 k') = Some e" "ec_new_crtc (md_enc d3 e) = target d s k' e"
        using E [OF e(2) t(1,3)] by auto
      have "k' \<notin> ?L" using excl [OF _ that(1), of k'] that newD(1) [OF k'(1,2)] by auto
      then show ?thesis using k'(3) e(3) [OF that(2)] by (simp add: target_def)
    qed
    have s3: "staged_ok d3 ?c"
      unfolding staged_ok_def n
    proof (intro conjI allI impI)
      show "?c < md_ncrtc d" using r by (simp add: request_ok_def)
    next
      fix k assume k: "k < md_nconn d"
      show "co_new_encoder (md_conn d3 k) = None \<or> co_new_encoder (md_conn d3 k) = Some (co_attached (md_conn d3 k))"
        using newD(1) [OF k] same_base_sel(2) [OF b3, of k] by (cases "co_new_encoder (md_conn d1 k)") (auto simp: c3)
    next
      fix e assume e: "e < md_nenc d"
      show "(ec_new_crtc (md_enc d3 e) \<noteq> None) = (\<exists>k < md_nconn d. co_new_encoder (md_conn d3 k) = Some e)"
      proof (cases "\<exists>k < md_nconn d. co_new_encoder (md_conn d1 k) = Some e")
        case True
        then obtain k where k: "k < md_nconn d" "co_new_encoder (md_conn d1 k) = Some e" by auto
        have "ec_new_crtc (md_enc d3 e) \<noteq> None"
          using listed [of k e] unlisted [of k e] k by (cases "k \<in> ?L") simp_all
        then show ?thesis using True by (simp add: c3)
      next
        case False
        then have "ec_new_crtc (md_enc d3 e) = None" using e3 [OF e] by (simp only: if_False)
        then show ?thesis using False by (simp add: c3)
      qed
    next
      fix e assume e: "e < md_nenc d" and ne: "ec_new_crtc (md_enc d3 e) \<noteq> ec_crtc (md_enc d3 e)"
      then have ne': "ec_new_crtc (md_enc d3 e) \<noteq> ec_crtc (md_enc d e)" using same_base_sel(4) [OF b3, of e] by simp
      have "(ec_crtc (md_enc d e) = None \<or> ec_crtc (md_enc d e) = Some ?c) \<and> (ec_new_crtc (md_enc d3 e) = None \<or> ec_new_crtc (md_enc d3 e) = Some ?c)"
      proof (cases "\<exists>k < md_nconn d. co_new_encoder (md_conn d1 k) = Some e")
        case True
        then obtain k where k: "k < md_nconn d" "co_new_encoder (md_conn d1 k) = Some e" by auto
        then have "k \<in> ?L" using unlisted ne' by blast
        then show ?thesis using listed k local(1) newD(1) [OF k] by auto
      next
        case False
        then have z: "ec_new_crtc (md_enc d3 e) = None" using e3 [OF e] by (simp only: if_False)
        then obtain k where k: "k < md_nconn d" "co_encoder (md_conn d k) = Some e" using ne' linked [OF e] by force
        have "co_new_encoder (md_conn d1 k) \<noteq> Some e" using False k by blast
        then have "k \<notin> ?L" "crtc_of d (co_encoder (md_conn d k)) = Some ?c"
          using new [OF k(1)] k(2) att(1) [OF k] by (auto split: if_splits)
        then show ?thesis using z k(2) by (simp add: crtc_of_def)
      qed
      then show "ec_crtc (md_enc d3 e) = None \<or> ec_crtc (md_enc d3 e) = Some ?c"
        "ec_new_crtc (md_enc d3 e) = None \<or> ec_new_crtc (md_enc d3 e) = Some ?c"
        using same_base_sel(4) [OF b3, of e] by simp_all
    next
      fix k e assume k: "k < md_nconn d" and ne: "co_new_encoder (md_conn d3 k) \<noteq> co_encoder (md_conn d3 k)"
        and ce: "co_encoder (md_conn d3 k) = Some e"
      have ce': "co_encoder (md_conn d k) = Some e" "co_new_encoder (md_conn d1 k) \<noteq> Some e"
        using ce ne same_base_sel(1) [OF b3, of k] by (simp_all add: c3)
      then have "crtc_of d (co_encoder (md_conn d k)) = Some ?c" using new [OF k] att(1) [OF k] by (auto split: if_splits)
      then show "ec_crtc (md_enc d3 e) = Some ?c" using ce' same_base_sel(4) [OF b3, of e] by (simp add: crtc_of_def)
    next
      fix k e assume k: "k < md_nconn d" and ne: "co_new_encoder (md_conn d3 k) \<noteq> co_encoder (md_conn d3 k)"
        and ce: "co_new_encoder (md_conn d3 k) = Some e"
      have "k \<in> ?L" using newD(3) [OF k, of e] ne ce same_base_sel(1) [OF b3, of k] by (auto simp: c3)
      then show "ec_new_crtc (md_enc d3 e) = Some ?c" using listed ce by (simp add: c3)
    qed
    have fbN: "ec_new_crtc (md_enc d3 e) \<noteq> Some ?c" if "set_fb s = None" "e < md_nenc d" for e
    proof
      assume a: "ec_new_crtc (md_enc d3 e) = Some ?c"
      have "\<exists>k < md_nconn d. co_new_encoder (md_conn d1 k) = Some e" using a e3 [OF that(2)] by (cases "\<exists>k < md_nconn d. co_new_encoder (md_conn d1 k) = Some e") (simp_all only: if_False option.distinct)
      then obtain k where k: "k < md_nconn d" "co_new_encoder (md_conn d1 k) = Some e" by blast
      have "k \<notin> ?L" using local(3) that(1) by blast
      then show False using unlisted [OF k(1) _ k(2)] a by auto
    qed
    have "(\<exists>e. co_new_encoder (md_conn d3 k) = Some e \<and> ec_new_crtc (md_enc d3 e) = Some ?c) \<longleftrightarrow> k \<in> ?L" if "k < md_nconn d" for k
    proof
      assume "k \<in> ?L"
      then have "co_new_encoder (md_conn d1 k) = Some (co_attached (md_conn d k))" using new [OF that] by simp
      then show "\<exists>e. co_new_encoder (md_conn d3 k) = Some e \<and> ec_new_crtc (md_enc d3 e) = Some ?c"
        using listed \<open>k \<in> ?L\<close> by (auto simp: c3)
    next
      assume "\<exists>e. co_new_encoder (md_conn d3 k) = Some e \<and> ec_new_crtc (md_enc d3 e) = Some ?c"
      then obtain e where e: "co_new_encoder (md_conn d1 k) = Some e" "ec_new_crtc (md_enc d3 e) = Some ?c" unfolding c3 by blast
      then show "k \<in> ?L" using unlisted [OF that _ e(1)] by (cases "k \<in> ?L") simp_all
    qed
    then have "staged_for d s d3" using b3 s3 fbN by (simp add: staged_for_def)
    moreover have "unstaged d3" if "\<not> cf_mode_changed cf2"
    proof -
      have "\<not> some_connector d1 (\<lambda>k. co_new_encoder k \<noteq> co_encoder k)" "\<not> some_encoder d3 (\<lambda>e. ec_new_crtc e \<noteq> ec_crtc e)"
        using that by (simp_all add: cf2_def cf1_def)
      moreover have "md_nconn d1 = md_nconn d3" by (simp add: n d1_def)
      ultimately show ?thesis by (simp add: unstaged_def some_iff c3)
    qed
    ultimately show ?thesis using run None b3 by (auto simp: cf2_def cf1_def)
  qed
qed

section \<open>The request\<close>

definition links_same :: "ms_dev \<Rightarrow> ms_dev \<Rightarrow> bool" where
  "links_same d d' \<longleftrightarrow> md_nconn d' = md_nconn d \<and> md_nenc d' = md_nenc d \<and> md_ncrtc d' = md_ncrtc d
   \<and> (\<forall>k < md_nconn d. co_encoder (md_conn d' k) = co_encoder (md_conn d k))
   \<and> (\<forall>e < md_nenc d. ec_crtc (md_enc d' e) = ec_crtc (md_enc d e))"

text \<open>The connectors that the CRTC drives.\<close>

definition driven :: "ms_dev \<Rightarrow> nat \<Rightarrow> nat set" where
  "driven d c = {k. k < md_nconn d \<and> crtc_of d (co_encoder (md_conn d k)) = Some c}"

lemma unstaged_idle: "unstaged_links_ok d \<Longrightarrow> c < md_ncrtc d \<Longrightarrow> idle_or_enabled d c"
  by (auto simp: unstaged_links_ok_def check_state_iff idle_or_enabled_def links_ok_def pipe_ok_def)

lemma unstaged_staged:
  assumes "unstaged_links_ok d" "c < md_ncrtc d"
  shows "staged_ok d c"
  using assms by (auto simp: unstaged_links_ok_def check_state_iff links_wf_def links_ok_def unstaged_def staged_ok_def)

text \<open>The links are put back on top of a commit that failed.\<close>

lemma restored_staged:
  assumes u: "unstaged_links_ok d" and b: "same_base d d1" and s: "staged_ok d1 c" and w: "links_wf d2" and cm: "committed d1 d2"
  shows "staged_ok (intel_set_config_restore_state d d2) c"
proof -
  note r = restore_base [where d = d2 and saved = d]
  note q = same_base_sel [OF r(1)] and q1 = same_base_sel [OF b]
  have n: "md_nconn d2 = md_nconn d" "md_nenc d2 = md_nenc d" "md_ncrtc d2 = md_ncrtc d" using cm q1 by (simp_all add: committed_def)
  have wl: "links_wf d" "links_ok d" using u by (simp_all add: unstaged_links_ok_def check_state_iff)
  have k: "co_new_encoder (md_conn (intel_set_config_restore_state d d2) k) = co_encoder (md_conn d k)"
    "co_encoder (md_conn (intel_set_config_restore_state d d2) k) = co_new_encoder (md_conn d1 k)"
    "co_attached (md_conn (intel_set_config_restore_state d d2) k) = co_attached (md_conn d k)" if "k < md_nconn d" for k
    using that r(2) q(1,2) q1 cm n by (simp_all add: committed_def)
  have e: "ec_new_crtc (md_enc (intel_set_config_restore_state d d2) e) = ec_crtc (md_enc d e)"
    "ec_crtc (md_enc (intel_set_config_restore_state d d2) e) = ec_new_crtc (md_enc d1 e)" if "e < md_nenc d" for e
    using that r(3) q(4) q1 cm n by (simp_all add: committed_def)
  have s': "c < md_ncrtc d"
    "\<And>e. e < md_nenc d \<Longrightarrow> ec_new_crtc (md_enc d1 e) \<noteq> ec_crtc (md_enc d e) \<Longrightarrow>
        (ec_crtc (md_enc d e) = None \<or> ec_crtc (md_enc d e) = Some c) \<and> (ec_new_crtc (md_enc d1 e) = None \<or> ec_new_crtc (md_enc d1 e) = Some c)"
    "\<And>k e. k < md_nconn d \<Longrightarrow> co_new_encoder (md_conn d1 k) \<noteq> co_encoder (md_conn d k) \<Longrightarrow>
        (co_encoder (md_conn d k) = Some e \<longrightarrow> ec_crtc (md_enc d e) = Some c)
      \<and> (co_new_encoder (md_conn d1 k) = Some e \<longrightarrow> ec_new_crtc (md_enc d1 e) = Some c)"
    using s unfolding staged_ok_def q1 by blast+
  have att: "co_encoder (md_conn d k) = Some e \<longrightarrow> e < md_nenc d" "co_new_encoder (md_conn d1 k) = Some e \<longrightarrow> e < md_nenc d"
    if "k < md_nconn d" for k e
    using wl(1) s that unfolding links_wf_def staged_ok_def q1 by (metis option.distinct(1) option.inject)+
  show ?thesis
    unfolding staged_ok_def q(7-9) n
  proof (intro conjI allI impI)
    show "c < md_ncrtc d" by (rule s'(1))
  next
    fix k assume "k < md_nconn d"
    then show "co_new_encoder (md_conn (intel_set_config_restore_state d d2) k) = None
        \<or> co_new_encoder (md_conn (intel_set_config_restore_state d d2) k) = Some (co_attached (md_conn (intel_set_config_restore_state d d2) k))"
      using wl(1) unfolding links_wf_def by (simp add: k)
  next
    fix e' assume "e' < md_nenc d"
    then show "(ec_new_crtc (md_enc (intel_set_config_restore_state d d2) e') \<noteq> None)
        = (\<exists>k < md_nconn d. co_new_encoder (md_conn (intel_set_config_restore_state d d2) k) = Some e')"
      using wl(2) k(1) by (auto simp: links_ok_def e)
  next
    fix e' assume a: "e' < md_nenc d" and "ec_new_crtc (md_enc (intel_set_config_restore_state d d2) e') \<noteq> ec_crtc (md_enc (intel_set_config_restore_state d d2) e')"
    then have "ec_new_crtc (md_enc d1 e') \<noteq> ec_crtc (md_enc d e')" using e by simp
    from s'(2) [OF a this] show "ec_crtc (md_enc (intel_set_config_restore_state d d2) e') = None \<or> ec_crtc (md_enc (intel_set_config_restore_state d d2) e') = Some c"
      "ec_new_crtc (md_enc (intel_set_config_restore_state d d2) e') = None \<or> ec_new_crtc (md_enc (intel_set_config_restore_state d d2) e') = Some c"
      using e [OF a] by simp_all
  next
    fix k' e' assume a: "k' < md_nconn d" and ne: "co_new_encoder (md_conn (intel_set_config_restore_state d d2) k') \<noteq> co_encoder (md_conn (intel_set_config_restore_state d d2) k')"
    then have ne': "co_new_encoder (md_conn d1 k') \<noteq> co_encoder (md_conn d k')" using k [OF a] by simp
    show "ec_crtc (md_enc (intel_set_config_restore_state d d2) e') = Some c"
      if "co_encoder (md_conn (intel_set_config_restore_state d d2) k') = Some e'"
      using s'(3) [OF a ne', of e'] att(2) [OF a, of e'] that k(2) [OF a] e(2) by simp
    show "ec_new_crtc (md_enc (intel_set_config_restore_state d d2) e') = Some c"
      if "co_new_encoder (md_conn (intel_set_config_restore_state d d2) k') = Some e'"
      using s'(3) [OF a ne', of e'] att(1) [OF a, of e'] that k(1) [OF a] e(1) by simp
  qed
qed

end
