(* ===== verification/Intel_Modeset_Readout.thy ===== *)
theory Intel_Modeset_Readout
  imports Intel_Modeset_Config
begin

text \<open>
  The other writers of the tracked state: the power management calls of a connector keep the driver's
  check, and the read-out of what the firmware left establishes it.
\<close>

section \<open>Power management\<close>

definition single_connectors :: "ms_dev \<Rightarrow> bool" where
  "single_connectors d \<longleftrightarrow> (\<forall>k < md_nconn d. \<forall>k' < md_nconn d. co_attached (md_conn d k) = co_attached (md_conn d k') \<longrightarrow> k = k')"

lemma update_dpms_ok:
  assumes "links_wf d" "links_ok d" "\<forall>x < md_ncrtc d. x \<noteq> c \<longrightarrow> pipe_ok d x" "unstaged d"
  shows "unstaged_links_ok (intel_crtc_update_dpms c d)"
  using assms unfolding unstaged_links_ok_def check_state_iff intel_crtc_update_dpms_def crtc_enable_def crtc_disable_def
  by (auto simp: some_iff links_wf_def links_ok_def pipe_ok_def unstaged_def)

lemma connector_dpms_ok:
  assumes u: "unstaged_links_ok d" and s: "single_connectors d" and k: "k < md_nconn d"
  shows "\<exists>d'. intel_connector_dpms k m d = Ok d' \<and> unstaged_links_ok d' \<and> links_same d d'"
proof -
  let ?e = "co_attached (md_conn d k)" and ?m = "if m \<noteq> DPMS_ON then DPMS_OFF else m"
  let ?d1 = "upd_conn k (md_conn d k\<lparr>co_dpms := ?m\<rparr>) d"
  let ?d2 = "upd_enc ?e (md_enc ?d1 ?e\<lparr>ec_connectors_active := (?m = DPMS_ON)\<rparr>) ?d1"
  have x: "links_wf d" "links_ok d" "\<forall>x < md_ncrtc d. pipe_ok d x" "unstaged d" using u by (simp_all add: unstaged_links_ok_def check_state_iff)
  have e: "?e < md_nenc d" using x(1) k by (simp add: links_wf_def)
  have only: "k' = k" if "k' < md_nconn d" "co_encoder (md_conn d k') = Some ?e" for k'
  proof -
    have "co_attached (md_conn d k') = ?e" using x(1) that unfolding links_wf_def by (metis option.distinct(1) option.inject)
    then show ?thesis using s k that(1) by (simp add: single_connectors_def)
  qed
  have wf: "co_encoder (md_conn d k) = None \<or> co_encoder (md_conn d k) = Some ?e" using x(1) k by (simp add: links_wf_def)
  have linked: "(ec_crtc (md_enc d ?e) \<noteq> None) \<longleftrightarrow> (\<exists>k < md_nconn d. co_encoder (md_conn d k) = Some ?e)"
    using x(2) e by (simp add: links_ok_def)
  consider (same) "?m = co_dpms (md_conn d k)" | (off) "?m \<noteq> co_dpms (md_conn d k)" "ec_crtc (md_enc d ?e) = None"
    | (on) c where "?m \<noteq> co_dpms (md_conn d k)" "ec_crtc (md_enc d ?e) = Some c"
    by blast
  then show ?thesis
  proof cases
    case same
    then show ?thesis using u by (simp add: intel_connector_dpms_def Let_def links_same_def)
  next
    case off
    then have n: "co_encoder (md_conn d k) = None" using linked wf k by auto
    have w1: "links_wf ?d1" using x(1) by (simp add: links_wf_def)
    have "(co_encoder (md_conn ?d1 k') = Some e' \<and> co_dpms (md_conn ?d1 k') \<noteq> DPMS_OFF)
        \<longleftrightarrow> (co_encoder (md_conn d k') = Some e' \<and> co_dpms (md_conn d k') \<noteq> DPMS_OFF)"
      "co_encoder (md_conn ?d1 k') = co_encoder (md_conn d k')" for e' k'
      using n by (cases "k' = k"; simp)+
    then have "links_ok ?d1" using x(2) unfolding links_ok_def by simp
    moreover have "\<forall>x < md_ncrtc ?d1. pipe_ok ?d1 x" "unstaged ?d1" using x(3,4) by (simp_all add: pipe_ok_def unstaged_def)
    ultimately have "unstaged_links_ok ?d1" using w1 by (simp add: unstaged_links_ok_def check_state_iff)
    then show ?thesis using off by (simp add: intel_connector_dpms_def Let_def links_same_def)
  next
    case on
    then have ke: "co_encoder (md_conn d k) = Some ?e" using linked only by auto
    have w2: "links_wf ?d2" using x(1) by (simp add: links_wf_def)
    have c2: "co_encoder (md_conn ?d2 k') = co_encoder (md_conn d k')" "k' \<noteq> k \<Longrightarrow> co_dpms (md_conn ?d2 k') = co_dpms (md_conn d k')"
      "co_dpms (md_conn ?d2 k) = ?m" "md_nconn ?d2 = md_nconn d" "md_nenc ?d2 = md_nenc d" "md_ncrtc ?d2 = md_ncrtc d" "md_crtc ?d2 = md_crtc d"
      "ec_crtc (md_enc ?d2 e') = ec_crtc (md_enc d e')" "ec_connectors_active (md_enc ?d2 ?e) = (?m = DPMS_ON)"
      "e' \<noteq> ?e \<Longrightarrow> ec_connectors_active (md_enc ?d2 e') = ec_connectors_active (md_enc d e')" for k' e'
      by simp_all
    have act: "ec_connectors_active (md_enc ?d2 e') \<longleftrightarrow>
        (\<exists>k' < md_nconn d. co_encoder (md_conn ?d2 k') = Some e' \<and> co_dpms (md_conn ?d2 k') \<noteq> DPMS_OFF)" if "e' < md_nenc d" for e'
    proof (cases "e' = ?e")
      case True
      have "(\<exists>k' < md_nconn d. co_encoder (md_conn ?d2 k') = Some ?e \<and> co_dpms (md_conn ?d2 k') \<noteq> DPMS_OFF) \<longleftrightarrow> ?m \<noteq> DPMS_OFF"
        unfolding c2(1) using only ke k c2(3) by metis
      then show ?thesis unfolding True c2(9) by simp
    next
      case False
      have "(co_encoder (md_conn ?d2 k') = Some e' \<and> co_dpms (md_conn ?d2 k') \<noteq> DPMS_OFF)
          \<longleftrightarrow> (co_encoder (md_conn d k') = Some e' \<and> co_dpms (md_conn d k') \<noteq> DPMS_OFF)" for k'
        unfolding c2(1) using ke False c2(2) [of k'] by (cases "k' = k") simp_all
      then show ?thesis using x(2) that unfolding c2(10) [OF False] links_ok_def by simp
    qed
    have l2: "links_ok ?d2" using x(2) act unfolding links_ok_def c2(1,4-8) by blast
    have "(ec_crtc (md_enc ?d2 e') = Some x \<and> ec_connectors_active (md_enc ?d2 e'))
        \<longleftrightarrow> (ec_crtc (md_enc d e') = Some x \<and> ec_connectors_active (md_enc d e'))" if "x \<noteq> c" for x e'
      using that on(2) by (cases "e' = ?e") simp_all
    then have p2: "\<forall>x < md_ncrtc ?d2. x \<noteq> c \<longrightarrow> pipe_ok ?d2 x" using x(3) unfolding pipe_ok_def c2(5-7) by simp
    have "unstaged ?d2" using x(4) by (simp add: unstaged_def)
    then have "unstaged_links_ok (intel_crtc_update_dpms c ?d2)" by (rule update_dpms_ok [OF w2 l2 p2])
    moreover have "links_same d (intel_crtc_update_dpms c ?d2)"
      by (simp add: links_same_def intel_crtc_update_dpms_def crtc_enable_def crtc_disable_def)
    ultimately show ?thesis using on by (simp add: intel_connector_dpms_def intel_encoder_dpms_def Let_def)
  qed
qed

section \<open>The state the firmware left\<close>

text \<open>What the read-out establishes first: a linked connector is on, and the links agree.\<close>

definition readout_ok :: "ms_dev \<Rightarrow> bool" where
  "readout_ok d \<longleftrightarrow> links_wf d
   \<and> (\<forall>e < md_nenc d. (ec_crtc (md_enc d e) \<noteq> None \<longleftrightarrow> (\<exists>k < md_nconn d. co_encoder (md_conn d k) = Some e))
        \<and> (ec_connectors_active (md_enc d e) \<longleftrightarrow> ec_crtc (md_enc d e) \<noteq> None))
   \<and> (\<forall>k < md_nconn d. co_encoder (md_conn d k) \<noteq> None \<longrightarrow> co_dpms (md_conn d k) \<noteq> DPMS_OFF)"

definition read_connector :: "hw_readout \<Rightarrow> nat \<Rightarrow> ms_dev \<Rightarrow> ms_dev" where
  "read_connector hw k d =
     (let r = md_conn d k
      in if hw_connector hw k
         then upd_enc (co_attached r) (md_enc d (co_attached r)\<lparr>ec_connectors_active := True\<rparr>)
                (upd_conn k (r\<lparr>co_dpms := DPMS_ON, co_encoder := Some (co_attached r)\<rparr>) d)
         else upd_conn k (r\<lparr>co_dpms := DPMS_OFF, co_encoder := None\<rparr>) d)"

lemma read_connectors:
  fixes d hw n
  defines "d' \<equiv> fold (read_connector hw) [0..<n] d"
  shows "md_conn d' k = (if k < n then md_conn d k\<lparr>co_dpms := if hw_connector hw k then DPMS_ON else DPMS_OFF,
             co_encoder := if hw_connector hw k then Some (co_attached (md_conn d k)) else None\<rparr> else md_conn d k)"
    and "md_enc d' e = (if \<exists>k < n. hw_connector hw k \<and> co_attached (md_conn d k) = e
           then md_enc d e\<lparr>ec_connectors_active := True\<rparr> else md_enc d e)"
    and "md_crtc d' = md_crtc d" "md_nconn d' = md_nconn d" "md_nenc d' = md_nenc d" "md_ncrtc d' = md_ncrtc d"
proof -
  have "(\<forall>k. md_conn d' k = (if k < n then md_conn d k\<lparr>co_dpms := if hw_connector hw k then DPMS_ON else DPMS_OFF,
             co_encoder := if hw_connector hw k then Some (co_attached (md_conn d k)) else None\<rparr> else md_conn d k))
      \<and> (\<forall>e. md_enc d' e = (if \<exists>k < n. hw_connector hw k \<and> co_attached (md_conn d k) = e
           then md_enc d e\<lparr>ec_connectors_active := True\<rparr> else md_enc d e))
      \<and> md_crtc d' = md_crtc d \<and> md_nconn d' = md_nconn d \<and> md_nenc d' = md_nenc d \<and> md_ncrtc d' = md_ncrtc d"
    unfolding d'_def
  proof (induction n)
    case (Suc n)
    define g where "g = fold (read_connector hw) [0..<n] d"
    note IH = Suc.IH [folded g_def]
    have f: "fold (read_connector hw) [0..<Suc n] d = read_connector hw n g" by (simp add: g_def)
    have att: "md_conn g n = md_conn d n" using IH by simp
    have "md_conn (read_connector hw n g) k = (if k < Suc n then md_conn d k\<lparr>co_dpms := if hw_connector hw k then DPMS_ON else DPMS_OFF,
             co_encoder := if hw_connector hw k then Some (co_attached (md_conn d k)) else None\<rparr> else md_conn d k)" for k
      using IH by (cases "k = n") (auto simp: read_connector_def Let_def)
    moreover have "md_enc (read_connector hw n g) e = (if hw_connector hw n \<and> co_attached (md_conn d n) = e
           then md_enc g e\<lparr>ec_connectors_active := True\<rparr> else md_enc g e)" for e
      by (auto simp: read_connector_def Let_def att)
    then have "md_enc (read_connector hw n g) e = (if \<exists>k < Suc n. hw_connector hw k \<and> co_attached (md_conn d k) = e
           then md_enc d e\<lparr>ec_connectors_active := True\<rparr> else md_enc d e)" for e
      using IH by (cases "\<exists>k < n. hw_connector hw k \<and> co_attached (md_conn d k) = e") (auto simp: less_Suc_eq)
    ultimately show ?case unfolding f using IH by (simp add: read_connector_def Let_def)
  qed simp
  then show "md_conn d' k = (if k < n then md_conn d k\<lparr>co_dpms := if hw_connector hw k then DPMS_ON else DPMS_OFF,
             co_encoder := if hw_connector hw k then Some (co_attached (md_conn d k)) else None\<rparr> else md_conn d k)"
    and "md_enc d' e = (if \<exists>k < n. hw_connector hw k \<and> co_attached (md_conn d k) = e
           then md_enc d e\<lparr>ec_connectors_active := True\<rparr> else md_enc d e)"
    and "md_crtc d' = md_crtc d" "md_nconn d' = md_nconn d" "md_nenc d' = md_nenc d" "md_ncrtc d' = md_ncrtc d"
    by blast+
qed

text \<open>What the hardware must answer: an active encoder has an active connector and its pipe exists.\<close>

definition hw_ok :: "hw_readout \<Rightarrow> ms_dev \<Rightarrow> bool" where
  "hw_ok hw d \<longleftrightarrow> (\<forall>k < md_nconn d. co_attached (md_conn d k) < md_nenc d)
   \<and> (\<forall>e < md_nenc d. (hw_encoder hw e \<noteq> None \<longleftrightarrow> (\<exists>k < md_nconn d. co_attached (md_conn d k) = e \<and> hw_connector hw k))
        \<and> (\<forall>c. hw_encoder hw e = Some c \<longrightarrow> c < md_ncrtc d))
   \<and> ((\<exists>c < md_ncrtc d. hw_bad_plane hw c) \<longrightarrow> single_connectors d)"

lemma read_hw_state_ok:
  assumes h: "hw_ok hw d"
  shows "readout_ok (read_hw_state hw d)" "c < md_ncrtc d \<Longrightarrow> cr_enabled (md_crtc (read_hw_state hw d) c) = cr_active (md_crtc (read_hw_state hw d) c)"
    "md_nconn (read_hw_state hw d) = md_nconn d" "md_nenc (read_hw_state hw d) = md_nenc d" "md_ncrtc (read_hw_state hw d) = md_ncrtc d"
    "k < md_nconn d \<Longrightarrow> co_attached (md_conn (read_hw_state hw d) k) = co_attached (md_conn d k)"
proof -
  let ?d = "all_encoders (\<lambda>e r. r\<lparr>ec_crtc := hw_encoder hw e, ec_connectors_active := False\<rparr>)
     (all_crtcs (\<lambda>c r. r\<lparr>cr_active := hw_pipe hw c, cr_enabled := hw_pipe hw c\<rparr>) d)"
  let ?r = "read_hw_state hw d"
  have r: "?r = fold (read_connector hw) [0..<md_nconn d] ?d"
    unfolding read_hw_state_def read_connector_def Let_def by (simp add: all_encoders_def all_crtcs_def)
  note q = read_connectors [where hw = hw and n = "md_nconn d" and d = ?d, folded r]
  have n: "md_nconn ?d = md_nconn d" "md_nenc ?d = md_nenc d" "md_ncrtc ?d = md_ncrtc d" "md_conn ?d = md_conn d"
    by (simp_all add: all_encoders_def all_crtcs_def)
  have e: "md_enc ?d e = md_enc d e\<lparr>ec_crtc := hw_encoder hw e, ec_connectors_active := False\<rparr>" if "e < md_nenc d" for e
    using that by (simp add: all_encoders_def all_crtcs_def)
  show c: "md_nconn ?r = md_nconn d" "md_nenc ?r = md_nenc d" "md_ncrtc ?r = md_ncrtc d" by (simp_all add: q n)
  show "cr_enabled (md_crtc ?r c) = cr_active (md_crtc ?r c)" if "c < md_ncrtc d"
    using that by (simp add: q(3)) (simp add: all_encoders_def all_crtcs_def)
  show att: "co_attached (md_conn ?r k) = co_attached (md_conn d k)" if "k < md_nconn d" for k using that by (simp add: q(1) n)
  have k: "co_encoder (md_conn ?r k) = (if hw_connector hw k then Some (co_attached (md_conn d k)) else None)"
    "co_dpms (md_conn ?r k) = (if hw_connector hw k then DPMS_ON else DPMS_OFF)" if "k < md_nconn d" for k
    using that by (simp_all add: q(1) n)
  have en: "ec_crtc (md_enc ?r e) = hw_encoder hw e"
    "ec_connectors_active (md_enc ?r e) \<longleftrightarrow> (\<exists>k < md_nconn d. hw_connector hw k \<and> co_attached (md_conn d k) = e)" if "e < md_nenc d" for e
    using that by (auto simp: q(2) n e)
  have "(\<exists>k < md_nconn d. co_encoder (md_conn ?r k) = Some e) \<longleftrightarrow> (\<exists>k < md_nconn d. hw_connector hw k \<and> co_attached (md_conn d k) = e)" for e
    using k(1) by (metis option.distinct(1) option.inject)
  moreover have "links_wf ?r" using h by (auto simp: links_wf_def c k att en hw_ok_def)
  ultimately show "readout_ok ?r" using h by (auto simp: readout_ok_def c k en hw_ok_def)
qed

text \<open>A loop that breaks the links of some connectors; its test may look at the state as long as the
  links broken before do not change its answer.\<close>

definition broken :: "(nat \<Rightarrow> bool) \<Rightarrow> nat \<Rightarrow> ms_dev \<Rightarrow> nat \<Rightarrow> bool" where
  "broken Q n d e \<longleftrightarrow> (\<exists>k < n. Q k \<and> co_attached (md_conn d k) = e)"

definition break_all :: "(nat \<Rightarrow> bool) \<Rightarrow> nat \<Rightarrow> ms_dev \<Rightarrow> ms_dev" where
  "break_all Q n d = d\<lparr>
     md_conn := (\<lambda>k. if k < n \<and> Q k then md_conn d k\<lparr>co_dpms := DPMS_OFF, co_encoder := None\<rparr> else md_conn d k),
     md_enc := (\<lambda>e. if broken Q n d e then md_enc d e\<lparr>ec_connectors_active := False, ec_crtc := None\<rparr> else md_enc d e)\<rparr>"

lemma broken_Suc: "broken Q (Suc n) d e \<longleftrightarrow> (Q n \<and> co_attached (md_conn d n) = e) \<or> broken Q n d e"
  by (auto simp: broken_def less_Suc_eq)

lemma break_all_Suc:
  "break_all Q (Suc n) d = (if Q n then intel_connector_break_all_links n (break_all Q n d) else break_all Q n d)"
proof (cases "Q n")
  case True
  have c: "md_conn (break_all Q n d) n = md_conn d n" by (simp add: break_all_def)
  have "md_conn (break_all Q (Suc n) d) k = md_conn (intel_connector_break_all_links n (break_all Q n d)) k" for k
    using True by (simp add: break_all_def intel_connector_break_all_links_def Let_def less_Suc_eq)
  moreover have "md_enc (break_all Q (Suc n) d) e = md_enc (intel_connector_break_all_links n (break_all Q n d)) e" for e
    using True by (cases "broken Q n d e") (auto simp: break_all_def intel_connector_break_all_links_def Let_def broken_Suc)
  ultimately show ?thesis using True
    by (intro ms_dev.equality) (auto simp: fun_eq_iff, simp_all add: break_all_def intel_connector_break_all_links_def Let_def)
next
  case False
  then have "k < Suc n \<and> Q k \<longleftrightarrow> k < n \<and> Q k" for k by (auto simp: less_Suc_eq)
  then show ?thesis using False by (simp add: break_all_def broken_Suc)
qed

lemma break_fold:
  assumes "\<And>k. k < n \<Longrightarrow> P (break_all Q k d) k = Q k"
  shows "fold (\<lambda>k d. if P d k then intel_connector_break_all_links k d else d) [0..<n] d = break_all Q n d"
  using assms
proof (induction n)
  case 0
  then show ?case by (simp add: break_all_def broken_def)
next
  case (Suc n)
  then show ?case by (simp add: break_all_Suc)
qed

lemma break_all_ok:
  assumes r: "readout_ok d" and Q: "\<And>k k'. k < md_nconn d \<Longrightarrow> k' < md_nconn d \<Longrightarrow> Q k \<Longrightarrow> co_attached (md_conn d k') = co_attached (md_conn d k) \<Longrightarrow> Q k'"
  shows "readout_ok (break_all Q (md_nconn d) d)"
proof -
  let ?g = "break_all Q (md_nconn d) d"
  have c: "md_nconn ?g = md_nconn d" "md_nenc ?g = md_nenc d" "md_ncrtc ?g = md_ncrtc d" by (simp_all add: break_all_def)
  have w: "co_attached (md_conn d k) < md_nenc d" "co_encoder (md_conn d k) = None \<or> co_encoder (md_conn d k) = Some (co_attached (md_conn d k))"
    if "k < md_nconn d" for k using r that by (simp_all add: readout_ok_def links_wf_def)
  have k: "co_encoder (md_conn ?g k) = (if Q k then None else co_encoder (md_conn d k))" "co_attached (md_conn ?g k) = co_attached (md_conn d k)"
    "co_dpms (md_conn ?g k) = (if Q k then DPMS_OFF else co_dpms (md_conn d k))" if "k < md_nconn d" for k using that by (simp_all add: break_all_def)
  have hit: "md_enc ?g e = (if broken Q (md_nconn d) d e then md_enc d e\<lparr>ec_connectors_active := False, ec_crtc := None\<rparr> else md_enc d e)" for e
    by (simp add: break_all_def)
  have "(ec_crtc (md_enc ?g e) \<noteq> None \<longleftrightarrow> (\<exists>k < md_nconn d. co_encoder (md_conn ?g k) = Some e)) \<and> (ec_connectors_active (md_enc ?g e) \<longleftrightarrow> ec_crtc (md_enc ?g e) \<noteq> None)"
    if e: "e < md_nenc d" for e
  proof (cases "broken Q (md_nconn d) d e")
    case True
    have none: "co_encoder (md_conn ?g k) \<noteq> Some e" if "k < md_nconn d" for k
    proof
      assume a: "co_encoder (md_conn ?g k) = Some e"
      then have nq: "\<not> Q k" "co_attached (md_conn d k) = e" using k(1) [OF that] w(2) [OF that] by (auto split: if_splits)
      obtain k' where "k' < md_nconn d" "Q k'" "co_attached (md_conn d k') = e" using True by (auto simp: broken_def)
      then show False using Q [of k' k] that nq by simp
    qed
    have "md_enc ?g e = md_enc d e\<lparr>ec_connectors_active := False, ec_crtc := None\<rparr>" using True by (simp only: hit if_True)
    then show ?thesis using none by simp
  next
    case False
    have "co_encoder (md_conn ?g k) = Some e \<longleftrightarrow> co_encoder (md_conn d k) = Some e" if "k < md_nconn d" for k
      using k(1) [OF that] w(2) [OF that] False that by (auto simp: broken_def)
    then have "(\<exists>k < md_nconn d. co_encoder (md_conn ?g k) = Some e) \<longleftrightarrow> (\<exists>k < md_nconn d. co_encoder (md_conn d k) = Some e)" by blast
    moreover have "md_enc ?g e = md_enc d e" using False by (simp only: hit if_False)
    ultimately show ?thesis using r e by (simp add: readout_ok_def)
  qed
  moreover have "links_wf ?g" using r by (auto simp: links_wf_def readout_ok_def c k hit)
  moreover have "\<forall>k < md_nconn d. co_encoder (md_conn ?g k) \<noteq> None \<longrightarrow> co_dpms (md_conn ?g k) \<noteq> DPMS_OFF"
    using r by (auto simp: readout_ok_def k)
  ultimately show ?thesis by (simp add: readout_ok_def c)
qed

text \<open>Encoders that are active on a pipe that is not are taken off.\<close>

definition on_active :: "ms_dev \<Rightarrow> nat \<Rightarrow> bool" where
  "on_active d e \<longleftrightarrow> (\<forall>c. ec_crtc (md_enc d e) = Some c \<longrightarrow> cr_active (md_crtc d c))"

lemma sanitize_encoder_ok:
  assumes r: "readout_ok d" and e: "e < md_nenc d"
  defines "d' \<equiv> intel_sanitize_encoder e d"
  shows "readout_ok d'" "on_active d' e" "on_active d x \<Longrightarrow> on_active d' x" "md_crtc d' = md_crtc d" "md_nconn d' = md_nconn d"
    "md_nenc d' = md_nenc d" "md_ncrtc d' = md_ncrtc d" "co_attached (md_conn d' k) = co_attached (md_conn d k)"
proof -
  let ?Q = "\<lambda>k. co_attached (md_conn d k) = e"
  let ?b = "break_all ?Q (md_nconn d) d"
  have b: "fold (\<lambda>k d. if co_attached (md_conn d k) = e then intel_connector_break_all_links k d else d) [0..<md_nconn d] d = ?b"
    by (rule break_fold) (simp add: break_all_def)
  have d': "d' = (if ec_connectors_active (md_enc d e) \<and> \<not> on_active d e then ?b else d)"
    using r e unfolding d'_def intel_sanitize_encoder_def Let_def b on_active_def readout_ok_def by (auto split: option.splits)
  show "readout_ok d'" unfolding d' using r break_all_ok [OF r, of ?Q] by simp
  show "md_crtc d' = md_crtc d" "md_nconn d' = md_nconn d" "md_nenc d' = md_nenc d" "md_ncrtc d' = md_ncrtc d"
    "co_attached (md_conn d' k) = co_attached (md_conn d k)" unfolding d' by (simp_all add: break_all_def)
  have linked: "ec_connectors_active (md_enc d e) \<longleftrightarrow> (\<exists>k < md_nconn d. co_encoder (md_conn d k) = Some e)"
      "ec_connectors_active (md_enc d e) \<longleftrightarrow> ec_crtc (md_enc d e) \<noteq> None"
    using r e by (simp_all add: readout_ok_def)
  then have "ec_connectors_active (md_enc d e) \<Longrightarrow> \<exists>k < md_nconn d. ?Q k"
    using r unfolding readout_ok_def links_wf_def by (metis option.distinct(1) option.inject)
  then have "ec_connectors_active (md_enc d e) \<Longrightarrow> on_active ?b e" by (simp add: on_active_def break_all_def broken_def)
  then show "on_active d' e" unfolding d' using linked(2) by (auto simp: on_active_def)
  show "on_active d' x" if "on_active d x" using that unfolding d' by (simp add: on_active_def break_all_def)
qed

lemma sanitize_encoders_ok:
  assumes r: "readout_ok d" and n: "n \<le> md_nenc d"
  defines "d' \<equiv> fold intel_sanitize_encoder [0..<n] d"
  shows "readout_ok d' \<and> (\<forall>e < n. on_active d' e) \<and> md_crtc d' = md_crtc d \<and> md_nconn d' = md_nconn d
    \<and> md_nenc d' = md_nenc d \<and> md_ncrtc d' = md_ncrtc d \<and> (\<forall>k. co_attached (md_conn d' k) = co_attached (md_conn d k))"
  using n unfolding d'_def
proof (induction n)
  case (Suc n)
  define g where "g = fold intel_sanitize_encoder [0..<n] d"
  note IH = Suc.IH [folded g_def]
  have f: "fold intel_sanitize_encoder [0..<Suc n] d = intel_sanitize_encoder n g" by (simp add: g_def)
  have g: "readout_ok g" "n < md_nenc g" using IH Suc.prems by simp_all
  note s = sanitize_encoder_ok [OF g]
  show ?case unfolding f using IH Suc.prems s by (auto simp: less_Suc_eq)
qed (use r in simp)

text \<open>The CRTCs.\<close>

definition crtc_linked :: "ms_dev \<Rightarrow> nat \<Rightarrow> bool" where
  "crtc_linked d c \<longleftrightarrow> (\<exists>e < md_nenc d. ec_crtc (md_enc d e) = Some c)"

definition sanitize_tail :: "nat \<Rightarrow> ms_dev \<Rightarrow> ms_dev" where
  "sanitize_tail c d =
     (let d = intel_crtc_update_dpms c d
      in if cr_active (md_crtc d c) \<noteq> cr_enabled (md_crtc d c)
         then all_encoders (\<lambda>e r. if ec_crtc r = Some c then r\<lparr>ec_crtc := None\<rparr> else r)
                (upd_crtc c (md_crtc d c\<lparr>cr_enabled := cr_active (md_crtc d c)\<rparr>) d)
         else d)"

lemma sanitize_tail_eq:
  assumes r: "readout_ok d" and a: "cr_enabled (md_crtc d c) = cr_active (md_crtc d c)" "crtc_linked d c \<longrightarrow> cr_active (md_crtc d c)"
  shows "sanitize_tail c d = upd_crtc c (md_crtc d c\<lparr>cr_active := crtc_linked d c, cr_enabled := crtc_linked d c\<rparr>) d"
proof -
  have l: "some_encoder d (\<lambda>e. ec_crtc e = Some c \<and> ec_connectors_active e) \<longleftrightarrow> crtc_linked d c"
    using r by (auto simp: some_iff crtc_linked_def readout_ok_def)
  show ?thesis
  proof (cases "crtc_linked d c")
    case True
    then show ?thesis using a l
      by (cases "md_crtc d c") (simp add: sanitize_tail_def intel_crtc_update_dpms_def crtc_enable_def Let_def)
  next
    case False
    have "all_encoders (\<lambda>e r. if ec_crtc r = Some c then r\<lparr>ec_crtc := None\<rparr> else r) (upd_crtc c r' d) = upd_crtc c r' d" for r'
      using False by (auto simp: all_encoders_def crtc_linked_def fun_eq_iff intro!: ms_dev.equality)
    then show ?thesis using a l False
      by (cases "md_crtc d c") (simp add: sanitize_tail_def intel_crtc_update_dpms_def crtc_disable_def Let_def)
  qed
qed

lemma readout_crtc [simp]: "readout_ok (d\<lparr>md_crtc := f\<rparr>) = readout_ok d"
  by (simp add: readout_ok_def links_wf_def)

text \<open>The CRTCs up to \<open>c\<close> have been sanitized.\<close>

definition crtcs_ok :: "hw_readout \<Rightarrow> nat \<Rightarrow> ms_dev \<Rightarrow> bool" where
  "crtcs_ok hw n d \<longleftrightarrow> readout_ok d \<and> (\<forall>e < md_nenc d. on_active d e)
   \<and> (\<forall>c < md_ncrtc d. cr_enabled (md_crtc d c) = cr_active (md_crtc d c) \<and> (c < n \<longrightarrow> cr_active (md_crtc d c) = crtc_linked d c))
   \<and> ((\<exists>c < md_ncrtc d. hw_bad_plane hw c) \<longrightarrow> single_connectors d)"

lemma sanitize_crtc_ok:
  assumes i: "crtcs_ok hw c d" and c: "c < md_ncrtc d"
  shows "crtcs_ok hw (Suc c) (intel_sanitize_crtc (hw_bad_plane hw c) c d)
    \<and> md_ncrtc (intel_sanitize_crtc (hw_bad_plane hw c) c d) = md_ncrtc d"
proof -
  have r: "readout_ok d" and oa: "\<And>e. e < md_nenc d \<Longrightarrow> on_active d e"
    and en: "\<And>x. x < md_ncrtc d \<Longrightarrow> cr_enabled (md_crtc d x) = cr_active (md_crtc d x)"
    and before: "\<And>x. x < c \<Longrightarrow> x < md_ncrtc d \<Longrightarrow> cr_active (md_crtc d x) = crtc_linked d x"
    and sg: "(\<exists>c < md_ncrtc d. hw_bad_plane hw c) \<longrightarrow> single_connectors d"
    using i by (simp_all add: crtcs_ok_def)
  text \<open>After the part for a wrong plane.\<close>
  have "\<exists>d1. intel_sanitize_crtc (hw_bad_plane hw c) c d = sanitize_tail c d1 \<and> readout_ok d1
      \<and> md_ncrtc d1 = md_ncrtc d \<and> md_nconn d1 = md_nconn d \<and> md_nenc d1 = md_nenc d \<and> (\<forall>k. co_attached (md_conn d1 k) = co_attached (md_conn d k))
      \<and> (\<forall>x. x \<noteq> c \<longrightarrow> md_crtc d1 x = md_crtc d x \<and> crtc_linked d1 x = crtc_linked d x)
      \<and> cr_enabled (md_crtc d1 c) = cr_active (md_crtc d1 c) \<and> (\<forall>e < md_nenc d. on_active d1 e)"
  proof (cases "hw_bad_plane hw c")
    case False
    then show ?thesis using r oa en [OF c] by (intro exI [of _ d]) (simp add: intel_sanitize_crtc_def sanitize_tail_def Let_def)
  next
    case True
    let ?d0 = "crtc_disable c d" and ?Q = "\<lambda>k. ec_crtc (md_enc d (co_attached (md_conn d k))) = Some c"
    let ?b = "break_all ?Q (md_nconn d) ?d0"
    let ?d1 = "upd_crtc c (md_crtc ?b c\<lparr>cr_enabled := False\<rparr>) ?b"
    have s: "single_connectors d" using sg True c by auto
    have d0: "md_conn ?d0 = md_conn d" "md_enc ?d0 = md_enc d" "md_nconn ?d0 = md_nconn d" "md_nenc ?d0 = md_nenc d" "md_ncrtc ?d0 = md_ncrtc d"
      by (simp_all add: crtc_disable_def)
    have b: "fold (\<lambda>k d. if ec_crtc (md_enc d (co_attached (md_conn d k))) = Some c then intel_connector_break_all_links k d else d)
        [0..<md_nconn d] ?d0 = ?b"
    proof (rule break_fold)
      fix k assume k: "k < md_nconn d"
      have att: "co_attached (md_conn (break_all ?Q k ?d0) k) = co_attached (md_conn d k)" by (simp add: break_all_def d0)
      have "\<not> broken ?Q k ?d0 (co_attached (md_conn d k))"
      proof
        assume "broken ?Q k ?d0 (co_attached (md_conn d k))"
        then obtain k' where k': "k' < k" "co_attached (md_conn d k') = co_attached (md_conn d k)" by (auto simp: broken_def d0)
        then have "k' = k" using s k less_trans [OF k'(1) k] by (simp add: single_connectors_def)
        then show False using k' by simp
      qed
      then have "md_enc (break_all ?Q k ?d0) (co_attached (md_conn d k)) = md_enc d (co_attached (md_conn d k))"
        by (simp add: break_all_def d0)
      then show "(ec_crtc (md_enc (break_all ?Q k ?d0) (co_attached (md_conn (break_all ?Q k ?d0) k))) = Some c) = ?Q k"
        unfolding att by simp
    qed
    have run: "intel_sanitize_crtc (hw_bad_plane hw c) c d = sanitize_tail c ?d1"
      using True b by (simp add: intel_sanitize_crtc_def sanitize_tail_def Let_def d0)
    have r0: "readout_ok ?d0" using r by (simp add: crtc_disable_def)
    have rb: "readout_ok ?b" using break_all_ok [OF r0, of ?Q] by (simp add: d0)
    have nb: "md_nconn ?b = md_nconn d" "md_nenc ?b = md_nenc d" "md_ncrtc ?b = md_ncrtc d" "md_crtc ?b = md_crtc ?d0"
      "co_attached (md_conn ?b k) = co_attached (md_conn d k)" for k by (simp_all add: break_all_def d0)
    have eb: "md_enc ?b e = (if ec_crtc (md_enc d e) = Some c then md_enc d e\<lparr>ec_connectors_active := False, ec_crtc := None\<rparr> else md_enc d e)"
      if "e < md_nenc d" for e
    proof -
      have "broken ?Q (md_nconn d) ?d0 e \<longleftrightarrow> ec_crtc (md_enc d e) = Some c"
      proof
        assume a: "ec_crtc (md_enc d e) = Some c"
        then obtain k where "k < md_nconn d" "co_encoder (md_conn d k) = Some e" using r \<open>e < md_nenc d\<close> by (auto simp: readout_ok_def)
        moreover have "co_attached (md_conn d k) = e"
          using calculation r unfolding readout_ok_def links_wf_def by (metis option.distinct(1) option.inject)
        ultimately show "broken ?Q (md_nconn d) ?d0 e" using a by (auto simp: broken_def d0)
      qed (auto simp: broken_def d0)
      then show ?thesis by (simp add: break_all_def d0)
    qed
    have cb: "md_crtc ?d1 c = md_crtc d c\<lparr>cr_active := False, cr_enabled := False\<rparr>" "x \<noteq> c \<Longrightarrow> md_crtc ?d1 x = md_crtc d x" for x
      by (simp_all add: nb(4)) (simp_all add: crtc_disable_def)
    have ec: "ec_crtc (md_enc ?d1 e) = Some y \<longleftrightarrow> ec_crtc (md_enc d e) = Some y \<and> y \<noteq> c" if "e < md_nenc d" for e y
      using eb [OF that] by (cases "ec_crtc (md_enc d e) = Some c") auto
    have n1: "md_nenc ?d1 = md_nenc d" by (simp add: nb)
    have "crtc_linked ?d1 x = crtc_linked d x" if "x \<noteq> c" for x
      unfolding crtc_linked_def n1 using that ec by blast
    moreover have "on_active ?d1 e" if "e < md_nenc d" for e
      unfolding on_active_def using oa [OF that] ec [OF that] cb(2) by (simp add: on_active_def)
    ultimately show ?thesis using run rb nb cb by (intro exI [of _ ?d1]) simp
  qed
  then obtain d1 where d1: "intel_sanitize_crtc (hw_bad_plane hw c) c d = sanitize_tail c d1" "readout_ok d1"
      "md_ncrtc d1 = md_ncrtc d" "md_nconn d1 = md_nconn d" "md_nenc d1 = md_nenc d" "\<forall>k. co_attached (md_conn d1 k) = co_attached (md_conn d k)"
      and x: "\<And>x. x \<noteq> c \<Longrightarrow> md_crtc d1 x = md_crtc d x \<and> crtc_linked d1 x = crtc_linked d x"
      and en1: "cr_enabled (md_crtc d1 c) = cr_active (md_crtc d1 c)" and oa1: "\<forall>e < md_nenc d. on_active d1 e"
    by blast
  have "crtc_linked d1 c \<longrightarrow> cr_active (md_crtc d1 c)" using oa1 d1(5) by (auto simp: crtc_linked_def on_active_def)
  note t = sanitize_tail_eq [OF d1(2) en1 this]
  have lk: "crtc_linked (d1\<lparr>md_crtc := f\<rparr>) y = crtc_linked d1 y" for f y by (simp add: crtc_linked_def)
  have oa2: "on_active (upd_crtc c (md_crtc d1 c\<lparr>cr_active := crtc_linked d1 c, cr_enabled := crtc_linked d1 c\<rparr>) d1) e" if "e < md_nenc d" for e
    using oa1 that d1(5) by (auto simp: on_active_def crtc_linked_def)
  show ?thesis
    unfolding d1(1) t crtcs_ok_def lk
    using d1(2-6) oa2 x en before sg by (auto simp: less_Suc_eq single_connectors_def)
qed

lemma sanitize_crtcs_ok:
  assumes i: "crtcs_ok hw 0 d" and n: "n \<le> md_ncrtc d"
  shows "crtcs_ok hw n (fold (\<lambda>c. intel_sanitize_crtc (hw_bad_plane hw c) c) [0..<n] d)
    \<and> md_ncrtc (fold (\<lambda>c. intel_sanitize_crtc (hw_bad_plane hw c) c) [0..<n] d) = md_ncrtc d"
  using n
proof (induction n)
  case (Suc n)
  then show ?case using sanitize_crtc_ok [of hw n] by simp
qed (use i in simp)

lemma staged_update:
  fixes d
  defines "d' \<equiv> intel_modeset_update_staged_output_state d"
  shows "unstaged d'" "links_wf d' = links_wf d" "links_ok d' = links_ok d" "pipe_ok d' = pipe_ok d" "md_ncrtc d' = md_ncrtc d"
  unfolding d'_def intel_modeset_update_staged_output_state_def all_encoders_def all_connectors_def
  by (auto simp: unstaged_def links_wf_def links_ok_def pipe_ok_def fun_eq_iff)

lemma setup_hw_state_ok:
  assumes h: "hw_ok hw d"
  shows "unstaged_links_ok (intel_modeset_setup_hw_state hw d)"
proof -
  let ?r = "read_hw_state hw d"
  note r = read_hw_state_ok [OF h]
  define g where "g = fold intel_sanitize_encoder [0..<md_nenc ?r] ?r"
  have g: "readout_ok g" "\<forall>e < md_nenc g. on_active g e" "md_crtc g = md_crtc ?r" "md_nconn g = md_nconn d" "md_ncrtc g = md_ncrtc d"
    "\<And>k. co_attached (md_conn g k) = co_attached (md_conn ?r k)"
    using sanitize_encoders_ok [OF r(1) order_refl] r(3-5) by (simp_all add: g_def)
  have "single_connectors d \<Longrightarrow> single_connectors g" using r(6) g(4,6) by (simp add: single_connectors_def)
  then have "crtcs_ok hw 0 g" using g(1-3,5) r(2,5) h by (auto simp: crtcs_ok_def hw_ok_def)
  then have k: "crtcs_ok hw (md_ncrtc g) (fold (\<lambda>c. intel_sanitize_crtc (hw_bad_plane hw c) c) [0..<md_ncrtc g] g)"
      "md_ncrtc (fold (\<lambda>c. intel_sanitize_crtc (hw_bad_plane hw c) c) [0..<md_ncrtc g] g) = md_ncrtc g"
    using sanitize_crtcs_ok [of hw g "md_ncrtc g"] by simp_all
  define z where "z = fold (\<lambda>c. intel_sanitize_crtc (hw_bad_plane hw c) c) [0..<md_ncrtc g] g"
  have z: "readout_ok z" "\<forall>c < md_ncrtc z. cr_enabled (md_crtc z c) = crtc_linked z c \<and> cr_active (md_crtc z c) = crtc_linked z c"
    using k by (simp_all add: z_def [symmetric] crtcs_ok_def)
  have "(\<exists>k < md_nconn z. co_encoder (md_conn z k) = Some e \<and> co_dpms (md_conn z k) \<noteq> DPMS_OFF) \<longleftrightarrow> (\<exists>k < md_nconn z. co_encoder (md_conn z k) = Some e)" for e
    using z(1) by (auto simp: readout_ok_def)
  then have l: "links_wf z" "links_ok z" using z by (simp_all add: readout_ok_def links_ok_def crtc_linked_def)
  have "\<forall>c < md_ncrtc z. pipe_ok z c" using z by (auto simp: pipe_ok_def crtc_linked_def readout_ok_def)
  then have "unstaged_links_ok (intel_modeset_update_staged_output_state z)"
    using l by (simp add: unstaged_links_ok_def check_state_iff staged_update)
  then show ?thesis by (simp add: intel_modeset_setup_hw_state_def Let_def g_def z_def)
qed

end
