(* ===== verification/Intel_Modeset_Claims.thy ===== *)
theory Intel_Modeset_Claims
  imports Intel_Modeset_Readout
begin

text \<open>
  The whole of \<^verbatim>\<open>intel_crtc_set_config\<close>: its three outcomes for a request that takes no connector from
  another CRTC, and the properties with their witnesses.
\<close>

section \<open>The three outcomes of a request\<close>

lemma set_mode_restart:
  assumes "links_wf d" "links_ok d" "staged_ok d c" "\<forall>x < md_ncrtc d. x \<noteq> c \<longrightarrow> pipe_ok d x" "idle_or_enabled d c"
  shows "\<exists>ok d'. intel_set_mode d c (Some m) x y fb ans = Ok (ok, d') \<and> (ok \<longrightarrow> unstaged_links_ok d' \<and> committed d d')"
proof -
  obtain ok d' where d': "intel_set_mode d c (Some m) x y fb ans = Ok (ok, d')" "links_wf d'" "links_ok d'"
    "\<forall>x < md_ncrtc d. x \<noteq> c \<longrightarrow> pipe_ok d' x" "if ok then pipe_ok d' c \<and> unstaged d' \<and> committed d d' else d' = d \<or> committed d d'"
    using set_mode_ok [OF assms, of "Some m"] by blast
  have "unstaged_links_ok d' \<and> committed d d'" if ok
  proof -
    have x: "pipe_ok d' c" "unstaged d'" "committed d d'" using d'(5) that by simp_all
    then have "\<forall>x < md_ncrtc d'. pipe_ok d' x" using d'(4) by (metis committed_def)
    then show ?thesis using x d'(2,3) by (simp add: unstaged_links_ok_def check_state_iff)
  qed
  then show ?thesis using d'(1) by blast
qed

lemma unstaged_restart:
  assumes u: "unstaged_links_ok d" and c: "c < md_ncrtc d"
  shows "\<exists>ok d'. intel_set_mode d c (Some m) x y fb ans = Ok (ok, d') \<and> (ok \<longrightarrow> unstaged_links_ok d' \<and> links_same d d')"
proof -
  have x: "links_wf d" "links_ok d" "\<forall>x < md_ncrtc d. pipe_ok d x" "unstaged d" using u by (simp_all add: unstaged_links_ok_def check_state_iff)
  then obtain ok d' where "intel_set_mode d c (Some m) x y fb ans = Ok (ok, d')" "ok \<longrightarrow> unstaged_links_ok d' \<and> committed d d'"
    using set_mode_restart [OF x(1,2) unstaged_staged [OF u c] _ unstaged_idle [OF u c]] by blast
  then show ?thesis using x(4) by (auto simp: links_same_def committed_def unstaged_def)
qed

lemma links_same_refl [simp]: "links_same d d"
  by (simp add: links_same_def)

lemma staged_driven:
  assumes st: "staged_for d s d1" and cm: "committed d1 d2" and w: "links_wf d1"
    and n: "set_fb s = None \<longrightarrow> set_connectors s = []" and r: "\<forall>k \<in> set (set_connectors s). k < md_nconn d"
  shows "driven d2 (set_crtc s) = set (set_connectors s)"
proof -
  have b: "md_nconn d1 = md_nconn d" "md_nenc d1 = md_nenc d" using st same_base_sel by (simp_all add: staged_for_def)
  have e: "co_new_encoder (md_conn d1 k) = Some e \<Longrightarrow> e < md_nenc d" if "k < md_nconn d" for k e
    using w st that unfolding links_wf_def staged_for_def staged_ok_def b by (metis option.distinct(1) option.inject)
  have "crtc_of d2 (co_encoder (md_conn d2 k)) = Some (set_crtc s) \<longleftrightarrow>
      (\<exists>e. co_new_encoder (md_conn d1 k) = Some e \<and> ec_new_crtc (md_enc d1 e) = Some (set_crtc s))" if "k < md_nconn d" for k
    using that cm e [OF that] by (auto simp: committed_def b crtc_of_def split: option.splits)
  moreover have "(\<exists>e. co_new_encoder (md_conn d1 k) = Some e \<and> ec_new_crtc (md_enc d1 e) = Some (set_crtc s)) \<longleftrightarrow> k \<in> set (set_connectors s)"
    if "k < md_nconn d" for k
  proof (cases "set_fb s")
    case None
    then show ?thesis using n st that e [OF that] by (auto simp: staged_for_def)
  qed (use st that in \<open>simp add: staged_for_def\<close>)
  moreover have "md_nconn d2 = md_nconn d" using cm b by (simp add: committed_def)
  ultimately show ?thesis using r by (auto simp: driven_def)
qed

lemma committed_refl: "unstaged d \<Longrightarrow> committed d d"
  by (simp add: unstaged_def committed_def)

lemma base_keeps:
  "unstaged_links_ok d \<Longrightarrow> unstaged_links_ok (snd (intel_pipe_set_base c x y fb ans d)) \<and> committed d (snd (intel_pipe_set_base c x y fb ans d))"
proof -
  assume u: "unstaged_links_ok d"
  have "snd (intel_pipe_set_base c x y fb ans d) = d \<or>
      (\<exists>f. snd (intel_pipe_set_base c x y fb ans d) = upd_crtc c (md_crtc d c\<lparr>cr_fb := f, cr_x := x, cr_y := y\<rparr>) d)"
    by (cases fb; cases ans) (auto simp: intel_pipe_set_base_def)
  moreover have "unstaged_links_ok (upd_crtc c (md_crtc d c\<lparr>cr_fb := f, cr_x := x, cr_y := y\<rparr>) d)" for f
    using u by (auto simp: unstaged_links_ok_def check_state_iff links_wf_def links_ok_def pipe_ok_def unstaged_def)
  moreover have "committed d d" using u by (simp add: committed_refl unstaged_links_ok_def check_state_iff)
  ultimately show ?thesis using u by (auto simp: committed_def)
qed

text \<open>The error path and the path of the commit, in the words of the code.\<close>

definition set_config_fail ::
    "ms_dev \<Rightarrow> nat \<Rightarrow> set_answers \<Rightarrow> errno \<Rightarrow> set_config \<Rightarrow> ms_dev \<Rightarrow> (errno option \<times> bool \<times> ms_dev) outcome" where
  "set_config_fail d c a2 e cf d' =
     (let d' = intel_set_config_restore_state d d'
      in if cf_mode_changed cf
         then bind_outcome (intel_set_mode d' c (Some (cr_mode (md_crtc d' c))) (cr_x (md_crtc d c)) (cr_y (md_crtc d c)) (cr_fb (md_crtc d c)) a2)
                (\<lambda>(ok, d'). Ok (Some e, \<not> ok, d'))
         else Ok (Some e, False, d'))"

definition undone :: "ms_dev \<Rightarrow> (errno option \<times> bool \<times> ms_dev) outcome \<Rightarrow> errno \<Rightarrow> bool" where
  "undone d r e \<longleftrightarrow> (\<exists>bad d'. r = Ok (Some e, bad, d') \<and> (\<not> bad \<longrightarrow> unstaged_links_ok d' \<and> links_same d d'))"

lemma fail_undone:
  assumes u: "unstaged_links_ok d" and b: "same_base d d'" and c: "c < md_ncrtc d"
  shows "undone d (set_config_fail d c a2 e cf d') e"
proof -
  have "intel_set_config_restore_state d d' = d"
    using u by (intro restore_staged [OF b]) (simp add: unstaged_links_ok_def check_state_iff)
  then show ?thesis
    using unstaged_restart [OF u c, of "cr_mode (md_crtc d c)" "cr_x (md_crtc d c)" "cr_y (md_crtc d c)" "cr_fb (md_crtc d c)" a2] u
    by (auto simp: undone_def set_config_fail_def)
qed

lemma fail_undone_committed:
  assumes u: "unstaged_links_ok d" and b: "same_base d d1" and s: "staged_ok d1 c"
    and d2: "links_wf d2" "links_ok d2" "\<forall>x < md_ncrtc d2. x \<noteq> c \<longrightarrow> pipe_ok d2 x" "idle_or_enabled d2 c" "committed d1 d2"
    and ch: "cf_mode_changed cf"
  shows "undone d (set_config_fail d c a2 e cf d2) e"
proof -
  let ?r = "intel_set_config_restore_state d d2"
  note r = restore_base [where d = d2 and saved = d] and l = same_base_links [OF restore_base(1) [where d = d2 and saved = d]]
  have st: "staged_ok ?r c" by (rule restored_staged [OF u b s d2(1,5)])
  have p: "\<forall>x < md_ncrtc ?r. x \<noteq> c \<longrightarrow> pipe_ok ?r x" using d2(3) by (simp add: l same_base_sel [OF r(1)])
  obtain ok d3 where d3: "intel_set_mode ?r c (Some (cr_mode (md_crtc ?r c))) (cr_x (md_crtc d c)) (cr_y (md_crtc d c)) (cr_fb (md_crtc d c)) a2 = Ok (ok, d3)"
    "ok \<longrightarrow> unstaged_links_ok d3 \<and> committed ?r d3"
    using set_mode_restart [OF _ _ st p] d2(1,2,4) unfolding l by blast
  have n: "md_nconn d2 = md_nconn d" "md_nenc d2 = md_nenc d" "md_ncrtc d2 = md_ncrtc d"
    using d2(5) same_base_sel [OF b] by (simp_all add: committed_def)
  have "links_same d d3" if "committed ?r d3"
    using that r(2,3) by (simp add: links_same_def committed_def same_base_sel [OF r(1)] n)
  then show ?thesis using d3 ch by (auto simp: undone_def set_config_fail_def)
qed

definition norm_set :: "mode_set \<Rightarrow> mode_set" where
  "norm_set s = (if set_mode s = None then s\<lparr>set_fb := None\<rparr> else s)"

lemma set_config_unfold:
  "intel_crtc_set_config d s mem base a1 a2 =
     (let s = norm_set s; c = set_crtc s
      in if set_fb s \<noteq> None \<and> set_connectors s = [] then Ok (None, False, d)
         else if \<not> mem then Ok (Some ENOMEM, False, d)
         else bind_outcome (intel_modeset_stage_output_state d s (intel_set_config_compute_mode_changes d s)) (\<lambda>(r, cf, d1).
                   case r of Some e \<Rightarrow> set_config_fail d c a2 e cf d1
                   | None \<Rightarrow>
                       if cf_mode_changed cf
                       then bind_outcome (intel_set_mode d1 c (set_mode s) (set_x s) (set_y s) (set_fb s) a1) (\<lambda>(ok, d2).
                              if ok then Ok (None, False, d2) else set_config_fail d c a2 EINVAL cf d2)
                       else if cf_fb_changed cf
                       then Ok (None, False, snd (intel_pipe_set_base c (set_x s) (set_y s) (set_fb s) base d1))
                       else Ok (None, False, d1)))"
  unfolding intel_crtc_set_config_def set_config_fail_def norm_set_def Let_def ..

lemma norm_set_simps [simp]:
  "set_crtc (norm_set s) = set_crtc s" "set_mode (norm_set s) = set_mode s" "set_connectors (norm_set s) = set_connectors s"
  "set_x (norm_set s) = set_x s" "set_y (norm_set s) = set_y s"
  "set_fb (norm_set s) = (if set_mode s = None then None else set_fb s)"
  by (simp_all add: norm_set_def)

text \<open>Done: the check holds and the CRTC drives the listed connectors.\<close>

definition request_done :: "ms_dev \<Rightarrow> mode_set \<Rightarrow> (errno option \<times> bool \<times> ms_dev) outcome \<Rightarrow> bool" where
  "request_done d s r \<longleftrightarrow> (\<exists>d'. r = Ok (None, False, d') \<and> unstaged_links_ok d' \<and> driven d' (set_crtc s) = set (set_connectors s))"

lemma set_config_cases:
  assumes u: "unstaged_links_ok d" and q: "request_ok d s" and ne: "set_mode s \<noteq> None \<and> set_fb s \<noteq> None \<longrightarrow> set_connectors s \<noteq> []"
  shows "request_done d s (intel_crtc_set_config d s mem base a1 a2) \<or> (\<exists>e. undone d (intel_crtc_set_config d s mem base a1 a2) e)"
proof (cases mem)
  case False
  have "undone d (Ok (Some ENOMEM, False, d)) ENOMEM"
    unfolding undone_def using u by (intro exI [of _ False] exI [of _ d]) simp
  then show ?thesis using ne False unfolding set_config_unfold by (auto simp: Let_def)
next
  case True
  let ?s = "norm_set s" and ?c = "set_crtc s"
  let ?cf = "intel_set_config_compute_mode_changes d ?s"
  have q': "request_ok d ?s" and c: "?c < md_ncrtc d" using q by (auto simp: request_ok_def)
  have fb: "set_fb ?s = None \<longrightarrow> set_connectors s = []" and lt: "\<forall>k \<in> set (set_connectors s). k < md_nconn d"
    using q by (auto simp: request_ok_def)
  obtain res cf d1 where st: "intel_modeset_stage_output_state d ?s ?cf = Ok (res, cf, d1)" "same_base d d1"
    "res = None \<longrightarrow> staged_for d ?s d1 \<and> (\<not> cf_mode_changed cf \<longrightarrow> unstaged d1)"
    using stage_ok [OF u q'] by blast
  have run: "intel_crtc_set_config d s mem base a1 a2 = (case res of Some e \<Rightarrow> set_config_fail d ?c a2 e cf d1
       | None \<Rightarrow>
           if cf_mode_changed cf
           then bind_outcome (intel_set_mode d1 ?c (set_mode s) (set_x s) (set_y s) (set_fb ?s) a1) (\<lambda>(ok, d2).
                  if ok then Ok (None, False, d2) else set_config_fail d ?c a2 EINVAL cf d2)
           else if cf_fb_changed cf
           then Ok (None, False, snd (intel_pipe_set_base ?c (set_x s) (set_y s) (set_fb ?s) base d1))
           else Ok (None, False, d1))"
    unfolding set_config_unfold Let_def norm_set_simps(1-5) st(1) using True ne by (auto split: option.splits)
  show ?thesis
  proof (cases res)
    case (Some e)
    then show ?thesis using fail_undone [OF u st(2) c] unfolding run by auto
  next
    case None
    then have sf: "staged_for d ?s d1" and un: "\<not> cf_mode_changed cf \<Longrightarrow> unstaged d1" using st(3) by auto
    then have so: "staged_ok d1 ?c" by (simp add: staged_for_def)
    have x: "links_wf d" "links_ok d" "\<forall>x < md_ncrtc d. pipe_ok d x" "unstaged d" using u by (simp_all add: unstaged_links_ok_def check_state_iff)
    have x1: "links_wf d1" "links_ok d1" "\<forall>x < md_ncrtc d1. x \<noteq> ?c \<longrightarrow> pipe_ok d1 x" "idle_or_enabled d1 ?c"
      using x unstaged_idle [OF u c] by (simp_all add: same_base_links [OF st(2)] same_base_sel [OF st(2)])
    have driven: "driven d2 ?c = set (set_connectors s)" if "committed d1 d2" for d2
      using staged_driven [OF sf that x1(1)] fb lt by simp
    show ?thesis
    proof (cases "cf_mode_changed cf")
      case False
      then have eq: "d1 = d" using same_base_unstaged [OF st(2) x(4) un] by simp
      have "request_done d s (Ok (None, False, d1))" using u driven committed_refl x(4) by (simp add: request_done_def eq)
      moreover have "request_done d s (Ok (None, False, snd (intel_pipe_set_base ?c (set_x s) (set_y s) (set_fb ?s) base d1)))"
        using base_keeps [OF u] driven by (simp add: request_done_def eq)
      ultimately show ?thesis using None False unfolding run by simp
    next
      case ch: True
      have "\<forall>e < md_nenc d1. ec_new_crtc (md_enc d1 e) \<noteq> Some ?c" if "set_mode s = None"
        using sf that same_base_sel(8) [OF st(2)] by (simp add: staged_for_def)
      then obtain ok d2 where d2: "intel_set_mode d1 ?c (set_mode s) (set_x s) (set_y s) (set_fb ?s) a1 = Ok (ok, d2)"
        "links_wf d2" "links_ok d2" "\<forall>x < md_ncrtc d1. x \<noteq> ?c \<longrightarrow> pipe_ok d2 x" "idle_or_enabled d2 ?c"
        "if ok then pipe_ok d2 ?c \<and> unstaged d2 \<and> committed d1 d2 else d2 = d1 \<or> committed d1 d2"
        using set_mode_ok [OF x1(1,2) so x1(3,4), of "set_mode s"] by blast
      show ?thesis
      proof (cases ok)
        case ok: True
        then have y: "pipe_ok d2 ?c" "unstaged d2" "committed d1 d2" using d2(6) by simp_all
        then have "\<forall>x < md_ncrtc d2. pipe_ok d2 x" using d2(4) by (metis committed_def)
        then have "request_done d s (Ok (None, False, d2))" using y d2(2,3) driven by (simp add: request_done_def unstaged_links_ok_def check_state_iff)
        then show ?thesis using None ch ok d2(1) unfolding run by simp
      next
        case False
        have "undone d (set_config_fail d ?c a2 EINVAL cf d2) EINVAL"
        proof (cases "d2 = d1")
          case True
          then show ?thesis using fail_undone [OF u st(2) c] by simp
        next
          case ne2: False
          then have cm: "committed d1 d2" using d2(6) False by simp
          then show ?thesis using fail_undone_committed [OF u st(2) so d2(2,3) _ d2(5) cm ch] d2(4) by (simp add: committed_def)
        qed
        then show ?thesis using None ch False d2(1) unfolding run by auto
      qed
    qed
  qed
qed

section \<open>Properties\<close>

text \<open>C35: A request that takes no connector from another CRTC never follows a null pointer, whatever the
  hardware and the allocator answer, and afterwards the driver's own check of its tracking passes, unless the
  mode set that should restore the old configuration failed as well.\<close>

theorem set_config_keeps_check:
  assumes "unstaged_links_ok d" "request_ok d s" "set_mode s \<noteq> None \<and> set_fb s \<noteq> None \<longrightarrow> set_connectors s \<noteq> []"
  shows "\<exists>r bad d'. intel_crtc_set_config d s mem base a1 a2 = Ok (r, bad, d') \<and> (\<not> bad \<longrightarrow> links_wf d' \<and> intel_modeset_check_state d')"
  using set_config_cases [OF assms, of mem base a1 a2] unfolding request_done_def undone_def unstaged_links_ok_def by blast


text \<open>Setting the power state of a connector keeps the check and the links and finds no null pointer,
  when no two connectors share an encoder.\<close>

theorem connector_dpms_keeps_check:
  assumes "unstaged_links_ok d" "single_connectors d" "k < md_nconn d"
  shows "\<exists>d'. intel_connector_dpms k m d = Ok d' \<and> links_same d d' \<and> links_wf d' \<and> intel_modeset_check_state d'"
  using connector_dpms_ok [OF assms] by (auto simp: unstaged_links_ok_def)


text \<open>An error of the flip is computed and not returned.\<close>

lemma set_config_flip_error_lost:
  assumes "set_mode s \<noteq> None" "set_fb s \<noteq> None" "set_connectors s \<noteq> []"
    and "intel_modeset_stage_output_state d s (intel_set_config_compute_mode_changes d s) = Ok (None, cf, d1)"
    and "\<not> cf_mode_changed cf" "cf_fb_changed cf"
  shows "intel_crtc_set_config d s True (Some e) a1 a2 = Ok (None, False, d1)"
  using assms by (auto simp: intel_crtc_set_config_def Let_def intel_pipe_set_base_def split: option.splits)

section \<open>Witnesses\<close>

text \<open>Two connectors with an encoder each and two CRTCs, the second pair lit by the firmware.\<close>

definition w_off :: ms_crtc where
  "w_off = \<lparr>cr_enabled = False, cr_active = False, cr_mode = zero_mode, cr_hwmode = zero_mode, cr_fb = None, cr_x = 0, cr_y = 0\<rparr>"

definition w_dev :: ms_dev where
  "w_dev = \<lparr>md_nconn = 2, md_nenc = 2, md_ncrtc = 2,
     md_conn = (\<lambda>k. \<lparr>co_attached = k, co_encoder = (if k = 1 then Some 1 else None),
                      co_new_encoder = (if k = 1 then Some 1 else None), co_dpms = (if k = 1 then DPMS_ON else DPMS_OFF)\<rparr>),
     md_enc = (\<lambda>e. \<lparr>ec_possible_crtcs = 3, ec_crtc = (if e = 1 then Some 1 else None),
                     ec_new_crtc = (if e = 1 then Some 1 else None), ec_connectors_active = (e = 1)\<rparr>),
     md_crtc = (\<lambda>c. if c = 1 then w_off\<lparr>cr_enabled := True, cr_active := True\<rparr> else w_off)\<rparr>"

definition w_set :: mode_set where
  "w_set = \<lparr>set_crtc = 0, set_mode = Some zero_mode, set_fb = Some \<lparr>fr_id = 1, fr_depth = 24, fr_bits_per_pixel = 32\<rparr>,
            set_x = 0, set_y = 0, set_connectors = [0]\<rparr>"

definition w_answers :: set_answers where
  "w_answers = \<lparr>an_adjusted = Some zero_mode, an_hook = None, an_base = None\<rparr>"


lemma less_2_iff: "(k :: nat) < 2 \<longleftrightarrow> k = 0 \<or> k = 1"
  by auto


lemma w_dev_ok: "unstaged_links_ok w_dev" "single_connectors w_dev" "md_nconn w_dev = 2"
  by (auto simp: unstaged_links_ok_def check_state_iff links_wf_def links_ok_def pipe_ok_def unstaged_def single_connectors_def w_dev_def
      w_off_def less_2_iff)

lemma w_set_ok: "request_ok w_dev w_set" "set_mode w_set \<noteq> None \<and> set_fb w_set \<noteq> None \<longrightarrow> set_connectors w_set \<noteq> []"
  by (simp_all add: request_ok_def w_dev_def w_set_def)

theorem set_config_keeps_check_witness:
  "\<exists>r bad d'. intel_crtc_set_config w_dev w_set True None w_answers w_answers = Ok (r, bad, d')
     \<and> (\<not> bad \<longrightarrow> links_wf d' \<and> intel_modeset_check_state d')"
  by (rule set_config_keeps_check [OF w_dev_ok(1) w_set_ok])

theorem connector_dpms_keeps_check_witness:
  "\<exists>d'. intel_connector_dpms 1 DPMS_SUSPEND w_dev = Ok d' \<and> links_same w_dev d' \<and> links_wf d' \<and> intel_modeset_check_state d'"
  by (rule connector_dpms_keeps_check [OF w_dev_ok(1,2)]) (simp add: w_dev_ok)








end
