(* ===== verification/Intel_Dp.thy ===== *)
theory Intel_Dp
  imports Drm_Edid_Tables
begin

text \<open>
  DisplayPort, \<^verbatim>\<open>drm/i915/intel_dp.c\<close> and \<^verbatim>\<open>drm/drm_dp_helper.c\<close>: transfers on the AUX channel, the choice
  of link rate and lanes for a mode, and the training of the link.  The hardware and the sink answer
  through arguments: the status words of a transfer, the replies of the sink, and for the training a
  function from the number of the round and the levels sent to what is read back.  The register of the
  port is part of the state, since the code reads it back.
\<close>

section \<open>The AUX channel\<close>

definition DP_AUX_CH_CTL_DONE :: u32 where "DP_AUX_CH_CTL_DONE = push_bit 30 1"
definition DP_AUX_CH_CTL_TIME_OUT_ERROR :: u32 where "DP_AUX_CH_CTL_TIME_OUT_ERROR = push_bit 28 1"
definition DP_AUX_CH_CTL_RECEIVE_ERROR :: u32 where "DP_AUX_CH_CTL_RECEIVE_ERROR = push_bit 25 1"

definition pack_aux :: "u8 list \<Rightarrow> u32" where
  "pack_aux src = fold (\<lambda>i v. v OR push_bit ((3 - i) * 8) (ucast (src ! i))) [0..<min 4 (length src)] 0"

definition unpack_aux :: "u32 \<Rightarrow> nat \<Rightarrow> u8 list" where
  "unpack_aux src n = map (\<lambda>i. ucast (drop_bit ((3 - i) * 8) src)) [0..<min 4 n]"

text \<open>A message is moved in groups of four bytes.\<close>

fun pack_message :: "u8 list \<Rightarrow> u32 list" where
  "pack_message [] = []"
| "pack_message (b # bs) = pack_aux (b # bs) # pack_message (drop 3 bs)"

fun unpack_message :: "u32 list \<Rightarrow> nat \<Rightarrow> u8 list" where
  "unpack_message [] n = []"
| "unpack_message (r # rs) n = (if n = 0 then [] else unpack_aux r n @ unpack_message rs (n - 4))"

text \<open>The status a try ends with, of at most five tries; \<open>st\<close> gives the status when the hardware is
  no longer busy.\<close>

fun aux_tries :: "(nat \<Rightarrow> u32) \<Rightarrow> nat \<Rightarrow> nat \<Rightarrow> u32" where
  "aux_tries st i 0 = st (i - 1)"
| "aux_tries st i (Suc n) =
     (if st i AND (DP_AUX_CH_CTL_TIME_OUT_ERROR OR DP_AUX_CH_CTL_RECEIVE_ERROR) \<noteq> 0 then aux_tries st (Suc i) n
      else if st i AND DP_AUX_CH_CTL_DONE \<noteq> 0 then st i
      else aux_tries st (Suc i) n)"

text \<open>\<open>idle\<close>: the channel was not busy in one of three looks; \<open>regs\<close>: the data registers after the transfer.\<close>

record aux_answer =
  aa_idle :: bool
  aa_status :: "nat \<Rightarrow> u32"
  aa_regs :: "u32 list"

definition intel_dp_aux_ch :: "aux_answer \<Rightarrow> nat \<Rightarrow> u8 list outcome" where
  "intel_dp_aux_ch a recv_size =
     (if \<not> aa_idle a then Err EBUSY
      else let status = aux_tries (aa_status a) 0 5
           in if status AND DP_AUX_CH_CTL_DONE = 0 then Err EBUSY
              else if status AND DP_AUX_CH_CTL_RECEIVE_ERROR \<noteq> 0 then Err EIO
              else if status AND DP_AUX_CH_CTL_TIME_OUT_ERROR \<noteq> 0 then Err ETIMEDOUT
              else Ok (unpack_message (aa_regs a) (min (unat (drop_bit 20 status AND 0x1f)) recv_size)))"

text \<open>Native transfers repeat as long as the sink defers; \<open>ans\<close> gives the answers of the channel in their
  order.  The reply byte of a write is not set when the answer is empty: \<open>junk\<close> is what it holds.\<close>

definition AUX_NATIVE_REPLY_ACK :: u8 where "AUX_NATIVE_REPLY_ACK = 0"
definition AUX_NATIVE_REPLY_DEFER :: u8 where "AUX_NATIVE_REPLY_DEFER = 0x20"
definition AUX_NATIVE_REPLY_MASK :: u8 where "AUX_NATIVE_REPLY_MASK = 0x30"

partial_function (option) native_write_loop :: "(nat \<Rightarrow> aux_answer) \<Rightarrow> u8 \<Rightarrow> nat \<Rightarrow> errno option option" where
  "native_write_loop ans junk i =
     (case intel_dp_aux_ch (ans i) 1 of
        Ok bs \<Rightarrow> (let ack = (if bs = [] then junk else hd bs)
                  in if ack AND AUX_NATIVE_REPLY_MASK = AUX_NATIVE_REPLY_ACK then Some None
                     else if ack AND AUX_NATIVE_REPLY_MASK = AUX_NATIVE_REPLY_DEFER then native_write_loop ans ack (Suc i)
                     else Some (Some EIO))
      | Err e \<Rightarrow> Some (Some e)
      | Bug \<Rightarrow> Some (Some EIO))"

text \<open>A message too long is refused with \<open>-1\<close>.\<close>

definition intel_dp_aux_native_write :: "(nat \<Rightarrow> aux_answer) \<Rightarrow> u8 \<Rightarrow> u8 list \<Rightarrow> errno option option" where
  "intel_dp_aux_native_write ans junk send = (if length send > 16 then Some (Some EPERM) else native_write_loop ans junk 0)"

partial_function (option) native_read_loop :: "(nat \<Rightarrow> aux_answer) \<Rightarrow> nat \<Rightarrow> nat \<Rightarrow> (nat \<times> u8 list outcome) option" where
  "native_read_loop ans n i =
     (case intel_dp_aux_ch (ans i) (n + 1) of
        Ok [] \<Rightarrow> Some (Suc i, Err EPROTO)
      | Ok (ack # bs) \<Rightarrow> (if ack AND AUX_NATIVE_REPLY_MASK = AUX_NATIVE_REPLY_ACK then Some (Suc i, Ok bs)
                          else if ack AND AUX_NATIVE_REPLY_MASK = AUX_NATIVE_REPLY_DEFER then native_read_loop ans n (Suc i)
                          else Some (Suc i, Err EIO))
      | Err e \<Rightarrow> Some (Suc i, Err e)
      | Bug \<Rightarrow> Some (Suc i, Bug))"

fun native_read_tries :: "(nat \<Rightarrow> aux_answer) \<Rightarrow> nat \<Rightarrow> nat \<Rightarrow> nat \<Rightarrow> (u8 list option) option" where
  "native_read_tries ans n i 0 = Some None"
| "native_read_tries ans n i (Suc t) =
     (case native_read_loop ans n i of
        None \<Rightarrow> None
      | Some (j, Ok bs) \<Rightarrow> if length bs = n then Some (Some bs) else native_read_tries ans n j t
      | Some (j, _) \<Rightarrow> native_read_tries ans n j t)"

definition intel_dp_aux_native_read_retry :: "(nat \<Rightarrow> aux_answer) \<Rightarrow> nat \<Rightarrow> (u8 list option) option" where
  "intel_dp_aux_native_read_retry ans n = native_read_tries ans n 0 3"

text \<open>I2C over AUX: one byte, at most five tries.  The result has the byte for a read.\<close>

datatype i2c_mode = MODE_I2C_WRITE | MODE_I2C_READ | MODE_I2C_OTHER

fun i2c_tries :: "(nat \<Rightarrow> aux_answer) \<Rightarrow> u8 list \<Rightarrow> i2c_mode \<Rightarrow> nat \<Rightarrow> nat \<Rightarrow> u8 option outcome" where
  "i2c_tries ans reply mode i 0 = Err EREMOTEIO"
| "i2c_tries ans reply mode i (Suc n) =
     (case intel_dp_aux_ch (ans i) (if mode = MODE_I2C_READ then 2 else 1) of
        Ok bs \<Rightarrow>
          (let reply = bs @ drop (length bs) reply;
               native = reply ! 0 AND AUX_NATIVE_REPLY_MASK; i2c = reply ! 0 AND 0xc0
           in if native = AUX_NATIVE_REPLY_DEFER then i2c_tries ans reply mode (Suc i) n
              else if native \<noteq> AUX_NATIVE_REPLY_ACK then Err EREMOTEIO
              else if i2c = 0 then Ok (if mode = MODE_I2C_READ then Some (reply ! 1) else None)
              else if i2c = 0x80 then i2c_tries ans reply mode (Suc i) n
              else Err EREMOTEIO)
      | Err e \<Rightarrow> Err e
      | Bug \<Rightarrow> Bug)"

definition intel_dp_i2c_aux_ch :: "(nat \<Rightarrow> aux_answer) \<Rightarrow> u8 list \<Rightarrow> i2c_mode \<Rightarrow> u8 option outcome" where
  "intel_dp_i2c_aux_ch ans junk mode = i2c_tries ans junk mode 0 5"

section \<open>Rates and lanes\<close>

definition DP_LINK_BW_1_62 :: u8 where "DP_LINK_BW_1_62 = 6"
definition DP_LINK_BW_2_7 :: u8 where "DP_LINK_BW_2_7 = 10"
definition DP_LINK_BW_5_4 :: u8 where "DP_LINK_BW_5_4 = 0x14"

definition drm_dp_link_rate_to_bw_code :: "int \<Rightarrow> u8" where
  "drm_dp_link_rate_to_bw_code r = (if r = 270000 then DP_LINK_BW_2_7 else if r = 540000 then DP_LINK_BW_5_4 else DP_LINK_BW_1_62)"

definition drm_dp_bw_code_to_link_rate :: "u8 \<Rightarrow> int" where
  "drm_dp_bw_code_to_link_rate b = (if b = DP_LINK_BW_2_7 then 270000 else if b = DP_LINK_BW_5_4 then 540000 else 162000)"

definition drm_dp_max_lane_count :: "u8 list \<Rightarrow> nat" where
  "drm_dp_max_lane_count dpcd = unat (dpcd ! 2 AND 0x1f)"

definition intel_dp_max_link_bw :: "u8 list \<Rightarrow> u8" where
  "intel_dp_max_link_bw dpcd = (if dpcd ! 1 = DP_LINK_BW_1_62 \<or> dpcd ! 1 = DP_LINK_BW_2_7 then dpcd ! 1 else DP_LINK_BW_1_62)"

definition intel_dp_link_clock :: "u8 \<Rightarrow> int" where
  "intel_dp_link_clock bw = (if bw = DP_LINK_BW_2_7 then 270000 else 162000)"

definition intel_dp_link_required :: "int \<Rightarrow> int \<Rightarrow> int" where
  "intel_dp_link_required pixel_clock bpp = s32i (s32i (pixel_clock * bpp) + 9) sdiv 10"

definition intel_dp_max_data_rate :: "int \<Rightarrow> int \<Rightarrow> int" where
  "intel_dp_max_data_rate max_link_clock max_lanes = s32i (s32i (max_link_clock * max_lanes) * 8) sdiv 10"

text \<open>Whether the mode fits, and whether with 6 bits per colour only.\<close>

definition intel_dp_adjust_dithering :: "u8 list \<Rightarrow> int \<Rightarrow> bool \<times> bool" where
  "intel_dp_adjust_dithering dpcd clock =
     (let max_rate = intel_dp_max_data_rate (intel_dp_link_clock (intel_dp_max_link_bw dpcd)) (int (drm_dp_max_lane_count dpcd))
      in if intel_dp_link_required clock 24 > max_rate
         then if intel_dp_link_required clock 18 > max_rate then (False, False) else (True, True)
         else (True, False))"

text \<open>\<open>panel\<close> is the size of the fixed mode of an embedded panel.\<close>

definition intel_dp_mode_valid :: "u8 list \<Rightarrow> (int \<times> int) option \<Rightarrow> drm_display_mode \<Rightarrow> drm_mode_status" where
  "intel_dp_mode_valid dpcd panel mode =
     (if case panel of None \<Rightarrow> False | Some (h, v) \<Rightarrow> dm_hdisplay mode > h \<or> dm_vdisplay mode > v then MODE_PANEL
      else if \<not> fst (intel_dp_adjust_dithering dpcd (dm_clock mode)) then MODE_CLOCK_HIGH
      else if dm_clock mode < 10000 then MODE_CLOCK_LOW
      else if dm_flags mode AND DRM_MODE_FLAG_DBLCLK \<noteq> 0 then MODE_H_ILLEGAL
      else MODE_OK)"

text \<open>The inner loop doubles the number of lanes, here \<open>2 ^ k\<close>.\<close>

function fixup_lanes :: "int \<Rightarrow> u8 \<Rightarrow> nat \<Rightarrow> nat \<Rightarrow> nat option" where
  "fixup_lanes mode_rate bw max_lanes k =
     (if 2 ^ k > max_lanes then None
      else if mode_rate \<le> intel_dp_max_data_rate (intel_dp_link_clock bw) (2 ^ k) then Some (2 ^ k)
      else fixup_lanes mode_rate bw max_lanes (Suc k))"
  by pat_completeness auto
termination
proof (relation "measure (\<lambda>(_, _, m, k). Suc m - 2 ^ k)", goal_cases)
  case (2 r b m k)
  have "(0 :: nat) < 2 ^ k" by simp
  with 2 show ?case by (simp, linarith)
qed simp

declare fixup_lanes.simps [simp del]

fun fixup_clocks :: "int \<Rightarrow> nat \<Rightarrow> u8 list \<Rightarrow> (u8 \<times> nat) option" where
  "fixup_clocks mode_rate max_lanes [] = None"
| "fixup_clocks mode_rate max_lanes (bw # bws) =
     (case fixup_lanes mode_rate bw max_lanes 0 of Some l \<Rightarrow> Some (bw, l) | None \<Rightarrow> fixup_clocks mode_rate max_lanes bws)"

text \<open>The mode is the adjusted one, after the panel; \<open>force\<close> is whether it carries the flag for 6 bits
  already.  The result is the rate and lanes for the link, and the flag.\<close>

definition intel_dp_mode_fixup :: "u8 list \<Rightarrow> drm_display_mode \<Rightarrow> bool \<Rightarrow> (u8 \<times> nat \<times> bool \<times> drm_display_mode) option" where
  "intel_dp_mode_fixup dpcd mode force =
     (if dm_flags mode AND DRM_MODE_FLAG_DBLCLK \<noteq> 0 then None
      else case intel_dp_adjust_dithering dpcd (dm_clock mode) of (ok, six) \<Rightarrow>
        if \<not> ok then None
        else let six = force \<or> six;
                 mode_rate = intel_dp_link_required (dm_clock mode) (if six then 18 else 24);
                 bws = (if intel_dp_max_link_bw dpcd = DP_LINK_BW_2_7 then [DP_LINK_BW_1_62, DP_LINK_BW_2_7] else [DP_LINK_BW_1_62])
             in case fixup_clocks mode_rate (drm_dp_max_lane_count dpcd) bws of
                  None \<Rightarrow> None
                | Some (bw, lanes) \<Rightarrow> Some (bw, lanes, six, mode\<lparr>dm_clock := intel_dp_link_clock bw\<rparr>))"

text \<open>The ratios of the clocks, reduced to 24 bits.\<close>

function intel_reduce_ratio :: "u32 \<Rightarrow> u32 \<Rightarrow> u32 \<times> u32" where
  "intel_reduce_ratio num den =
     (if num > 0xffffff \<or> den > 0xffffff then intel_reduce_ratio (drop_bit 1 num) (drop_bit 1 den) else (num, den))"
  by pat_completeness auto
termination
proof (relation "measure (\<lambda>(a, b). unat a + unat b)", goal_cases)
  case (2 a b)
  have "unat (drop_bit 1 a) = unat a div 2" "unat (drop_bit 1 b) = unat b div 2" for a b :: u32
    by (simp_all add: drop_bit_eq_div unat_div)
  moreover have "0 < unat a \<or> 0 < unat b" using 2 by (auto simp: word_less_nat_alt)
  ultimately show ?case by auto
qed simp

declare intel_reduce_ratio.simps [simp del]

record intel_dp_m_n =
  mn_tu :: u32
  gmch_m :: u32
  gmch_n :: u32
  link_m :: u32
  link_n :: u32

definition intel_dp_compute_m_n :: "int \<Rightarrow> int \<Rightarrow> int \<Rightarrow> int \<Rightarrow> intel_dp_m_n" where
  "intel_dp_compute_m_n bpp nlanes pixel_clock link_clock =
     (case intel_reduce_ratio (word_of_int (s32i (pixel_clock * bpp) div 8)) (word_of_int (s32i (link_clock * nlanes))) of (gm, gn) \<Rightarrow>
      case intel_reduce_ratio (word_of_int pixel_clock) (word_of_int link_clock) of (lm, ln) \<Rightarrow>
        \<lparr>mn_tu = 64, gmch_m = gm, gmch_n = gn, link_m = lm, link_n = ln\<rparr>)"

end
