(* ===== verification/Intel_Dp_Train.thy ===== *)
theory Intel_Dp_Train
  imports Intel_Dp
begin

text \<open>
  Link training, \<^verbatim>\<open>drm/i915/intel_dp.c\<close>: the levels of the lanes, the two loops and their composition when
  the link is checked.  The sink is a function from the number of the round and the levels it was sent to
  what it answers; both loops may run for ever and are partial.
\<close>

section \<open>What the sink reports\<close>

definition DP_INTERLANE_ALIGN_DONE :: u8 where "DP_INTERLANE_ALIGN_DONE = 1"
definition DP_LANE_CR_DONE :: u8 where "DP_LANE_CR_DONE = 1"
definition DP_CHANNEL_EQ_BITS :: u8 where "DP_CHANNEL_EQ_BITS = 7"

text \<open>The six status bytes are those of the addresses from \<^verbatim>\<open>0x202\<close>.\<close>

definition dp_get_lane_status :: "u8 list \<Rightarrow> nat \<Rightarrow> u8" where
  "dp_get_lane_status st lane = drop_bit ((lane mod 2) * 4) (st ! (lane div 2)) AND 0xf"

definition drm_dp_channel_eq_ok :: "u8 list \<Rightarrow> nat \<Rightarrow> bool" where
  "drm_dp_channel_eq_ok st lanes \<longleftrightarrow> st ! 2 AND DP_INTERLANE_ALIGN_DONE \<noteq> 0
     \<and> list_all (\<lambda>l. dp_get_lane_status st l AND DP_CHANNEL_EQ_BITS = DP_CHANNEL_EQ_BITS) [0..<lanes]"

definition drm_dp_clock_recovery_ok :: "u8 list \<Rightarrow> nat \<Rightarrow> bool" where
  "drm_dp_clock_recovery_ok st lanes \<longleftrightarrow> list_all (\<lambda>l. dp_get_lane_status st l AND DP_LANE_CR_DONE \<noteq> 0) [0..<lanes]"

definition drm_dp_get_adjust_request_voltage :: "u8 list \<Rightarrow> nat \<Rightarrow> u8" where
  "drm_dp_get_adjust_request_voltage st lane = drop_bit (if odd lane then 4 else 0) (st ! (4 + lane div 2)) AND 3"

definition drm_dp_get_adjust_request_pre_emphasis :: "u8 list \<Rightarrow> nat \<Rightarrow> u8" where
  "drm_dp_get_adjust_request_pre_emphasis st lane = push_bit 3 (drop_bit (if odd lane then 6 else 2) (st ! (4 + lane div 2)) AND 3)"

section \<open>Levels\<close>

definition DP_TRAIN_VOLTAGE_SWING_MASK :: u8 where "DP_TRAIN_VOLTAGE_SWING_MASK = 3"
definition DP_TRAIN_MAX_SWING_REACHED :: u8 where "DP_TRAIN_MAX_SWING_REACHED = 4"
definition DP_TRAIN_PRE_EMPHASIS_MASK :: u8 where "DP_TRAIN_PRE_EMPHASIS_MASK = 0x18"
definition DP_TRAIN_MAX_PRE_EMPHASIS_REACHED :: u8 where "DP_TRAIN_MAX_PRE_EMPHASIS_REACHED = 0x20"

text \<open>The device and the kind of the port.\<close>

record dp_source =
  ds_haswell :: bool
  ds_valleyview :: bool
  ds_gen :: nat
  ds_pch_cpt :: bool
  ds_pch_ibx :: bool
  ds_cpu_edp :: bool

definition intel_dp_voltage_max :: "dp_source \<Rightarrow> u8" where
  "intel_dp_voltage_max hw =
     (if ds_gen hw = 7 \<and> ds_cpu_edp hw then 2 else if ds_pch_cpt hw \<and> \<not> ds_cpu_edp hw then 3 else 2)"

definition intel_dp_pre_emphasis_max :: "dp_source \<Rightarrow> u8 \<Rightarrow> u8" where
  "intel_dp_pre_emphasis_max hw v =
     (let s = v AND DP_TRAIN_VOLTAGE_SWING_MASK
      in if ds_haswell hw then (if s = 0 then 0x18 else if s = 1 then 0x10 else if s = 2 then 8 else 0)
         else if ds_gen hw = 7 \<and> ds_cpu_edp hw \<and> \<not> ds_valleyview hw
         then (if s = 0 then 0x10 else if s = 1 \<or> s = 2 then 8 else 0)
         else (if s = 0 \<or> s = 1 then 0x10 else if s = 2 then 8 else 0))"

text \<open>The state of a port.  \<open>id_reg\<close> is what was last written to its register.\<close>

record intel_dp =
  id_DP :: u32
  id_reg :: u32
  id_lane_count :: nat
  id_train_set :: "u8 list"

definition max_request :: "(nat \<Rightarrow> u8) \<Rightarrow> nat \<Rightarrow> u8" where
  "max_request f lanes = fold (\<lambda>l v. if f l > v then f l else v) [0..<lanes] 0"

definition intel_get_adjust_train :: "dp_source \<Rightarrow> u8 list \<Rightarrow> intel_dp \<Rightarrow> intel_dp" where
  "intel_get_adjust_train hw st dp =
     (let v = max_request (drm_dp_get_adjust_request_voltage st) (id_lane_count dp);
          p = max_request (drm_dp_get_adjust_request_pre_emphasis st) (id_lane_count dp);
          vmax = intel_dp_voltage_max hw;
          v = (if v \<ge> vmax then vmax OR DP_TRAIN_MAX_SWING_REACHED else v);
          pmax = intel_dp_pre_emphasis_max hw v;
          p = (if p \<ge> pmax then pmax OR DP_TRAIN_MAX_PRE_EMPHASIS_REACHED else p)
      in dp\<lparr>id_train_set := replicate 4 (v OR p)\<rparr>)"

text \<open>The levels in the register of the port, per generation.\<close>

definition intel_dp_signal_levels :: "u8 \<Rightarrow> u32" where
  "intel_dp_signal_levels ts =
     push_bit 25 (ucast (ts AND DP_TRAIN_VOLTAGE_SWING_MASK)) OR push_bit 22 (ucast (drop_bit 3 (ts AND DP_TRAIN_PRE_EMPHASIS_MASK)))"

definition intel_gen6_edp_signal_levels :: "u8 \<Rightarrow> u32" where
  "intel_gen6_edp_signal_levels ts =
     (let s = ts AND (DP_TRAIN_VOLTAGE_SWING_MASK OR DP_TRAIN_PRE_EMPHASIS_MASK)
      in push_bit 22 (if s = 8 then 1 else if s = 0x10 \<or> s = 0x11 then 0x3a else if s = 9 \<or> s = 0xa then 0x39
                      else if s = 2 \<or> s = 3 then 0x38 else 0))"

definition intel_gen7_edp_signal_levels :: "u8 \<Rightarrow> u32" where
  "intel_gen7_edp_signal_levels ts =
     (let s = ts AND (DP_TRAIN_VOLTAGE_SWING_MASK OR DP_TRAIN_PRE_EMPHASIS_MASK)
      in push_bit 22 (if s = 0 then 0x24 else if s = 8 then 0x2a else if s = 0x10 then 0x2f else if s = 1 then 0x30
                      else if s = 9 then 0x36 else if s = 2 then 0x38 else if s = 0xa then 0x33 else 0))"

definition intel_dp_signal_levels_hsw :: "u8 \<Rightarrow> u32" where
  "intel_dp_signal_levels_hsw ts =
     (let s = ts AND (DP_TRAIN_VOLTAGE_SWING_MASK OR DP_TRAIN_PRE_EMPHASIS_MASK)
      in push_bit 24 (if s = 8 then 1 else if s = 0x10 then 2 else if s = 0x18 then 3 else if s = 1 then 4
                      else if s = 9 then 5 else if s = 0x11 then 6 else if s = 2 then 7 else if s = 0xa then 8 else 0))"

definition DP_PORT_EN :: u32 where "DP_PORT_EN = push_bit 31 1"
definition DP_PIPEB_SELECT :: u32 where "DP_PIPEB_SELECT = push_bit 30 1"
definition DP_AUDIO_OUTPUT_ENABLE :: u32 where "DP_AUDIO_OUTPUT_ENABLE = push_bit 6 1"
definition DP_LINK_TRAIN_MASK :: u32 where "DP_LINK_TRAIN_MASK = push_bit 28 3"
definition DP_LINK_TRAIN_MASK_CPT :: u32 where "DP_LINK_TRAIN_MASK_CPT = push_bit 8 7"

definition set_levels :: "dp_source \<Rightarrow> u8 \<Rightarrow> u32 \<Rightarrow> u32" where
  "set_levels hw ts DP =
     (if ds_haswell hw then (DP AND NOT (push_bit 24 0xf)) OR intel_dp_signal_levels_hsw ts
      else if ds_gen hw = 7 \<and> ds_cpu_edp hw \<and> \<not> ds_valleyview hw then (DP AND NOT (push_bit 22 0x3f)) OR intel_gen7_edp_signal_levels ts
      else if ds_gen hw = 6 \<and> ds_cpu_edp hw then (DP AND NOT (push_bit 22 0x3f)) OR intel_gen6_edp_signal_levels ts
      else (DP AND NOT (push_bit 25 7 OR push_bit 22 7)) OR intel_dp_signal_levels ts)"

section \<open>Training\<close>

datatype train_pattern = PATTERN_DISABLE | PATTERN_1 | PATTERN_2

text \<open>What a round of the training gets from the sink: whether the levels could be written, and the status
  if it could be read.\<close>

record sink_answer =
  sa_written :: bool
  sa_status :: "u8 list option"

type_synonym sink = "nat \<Rightarrow> u8 list \<Rightarrow> sink_answer"

text \<open>Haswell writes the pattern to a register of its own.\<close>

definition train_reg :: "dp_source \<Rightarrow> u32 \<Rightarrow> train_pattern \<Rightarrow> u32" where
  "train_reg hw v pat =
     (if ds_haswell hw then v
      else if ds_pch_cpt hw \<and> (ds_gen hw = 7 \<or> \<not> ds_cpu_edp hw)
      then (v AND NOT DP_LINK_TRAIN_MASK_CPT) OR push_bit 8 (case pat of PATTERN_DISABLE \<Rightarrow> 3 | PATTERN_1 \<Rightarrow> 0 | PATTERN_2 \<Rightarrow> 1)
      else (v AND NOT DP_LINK_TRAIN_MASK) OR push_bit 28 (case pat of PATTERN_DISABLE \<Rightarrow> 3 | PATTERN_1 \<Rightarrow> 0 | PATTERN_2 \<Rightarrow> 1))"

text \<open>More lanes than levels: the levels are read past the end of their array.\<close>

definition intel_dp_set_link_train :: "dp_source \<Rightarrow> intel_dp \<Rightarrow> u32 \<Rightarrow> train_pattern \<Rightarrow> bool \<Rightarrow> (bool \<times> intel_dp) outcome" where
  "intel_dp_set_link_train hw dp v pat written =
     (let dp = dp\<lparr>id_reg := train_reg hw v pat\<rparr>
      in if pat = PATTERN_DISABLE then Ok (True, dp)
         else if id_lane_count dp > length (id_train_set dp) then Bug
         else Ok (written, dp))"

text \<open>The result of a training has the number of the next round, whether it succeeded, and the port.\<close>

partial_function (option) start_loop ::
    "dp_source \<Rightarrow> sink \<Rightarrow> nat \<Rightarrow> u8 \<Rightarrow> nat \<Rightarrow> nat \<Rightarrow> u32 \<Rightarrow> intel_dp \<Rightarrow> (nat \<times> bool \<times> intel_dp) outcome option" where
  "start_loop hw sink n voltage voltage_tries loop_tries DP dp =
     (let DP = set_levels hw (id_train_set dp ! 0) DP;
          ans = sink n (id_train_set dp);
          level = id_train_set dp ! 0 AND DP_TRAIN_VOLTAGE_SWING_MASK
      in case intel_dp_set_link_train hw dp DP PATTERN_1 (sa_written ans) of
           Err e \<Rightarrow> Some (Err e)
         | Bug \<Rightarrow> Some Bug
         | Ok (ok, dp) \<Rightarrow>
             if \<not> ok then Some (Ok (Suc n, False, dp\<lparr>id_DP := DP\<rparr>))
             else case sa_status ans of
                 None \<Rightarrow> Some (Ok (Suc n, False, dp\<lparr>id_DP := DP\<rparr>))
               | Some st \<Rightarrow>
                   if drm_dp_clock_recovery_ok st (id_lane_count dp) then Some (Ok (Suc n, True, dp\<lparr>id_DP := DP\<rparr>))
                   else if list_all (\<lambda>l. id_train_set dp ! l AND DP_TRAIN_MAX_SWING_REACHED \<noteq> 0) [0..<id_lane_count dp]
                   then if loop_tries + 1 = 5 then Some (Ok (Suc n, False, dp\<lparr>id_DP := DP\<rparr>))
                        else start_loop hw sink (Suc n) voltage 0 (loop_tries + 1) DP (dp\<lparr>id_train_set := replicate 4 0\<rparr>)
                   else if level = voltage \<and> voltage_tries + 1 = 5 then Some (Ok (Suc n, False, dp\<lparr>id_DP := DP\<rparr>))
                   else start_loop hw sink (Suc n) level (if level = voltage then voltage_tries + 1 else 0) loop_tries DP
                          (intel_get_adjust_train hw st dp))"

definition intel_dp_start_link_train :: "dp_source \<Rightarrow> sink \<Rightarrow> nat \<Rightarrow> intel_dp \<Rightarrow> (nat \<times> bool \<times> intel_dp) outcome option" where
  "intel_dp_start_link_train hw sink n dp =
     start_loop hw sink n 0xff 0 0 (id_DP dp OR DP_PORT_EN) (dp\<lparr>id_train_set := replicate 4 0\<rparr>)"

text \<open>The register is assumed to read back what was written.\<close>

definition intel_dp_link_down :: "dp_source \<Rightarrow> intel_dp \<Rightarrow> intel_dp" where
  "intel_dp_link_down hw dp =
     (if ds_haswell hw \<or> id_reg dp AND DP_PORT_EN = 0 then dp
      else let DP = id_DP dp;
               (DP, reg) = (if ds_pch_cpt hw \<and> (ds_gen hw = 7 \<or> \<not> ds_cpu_edp hw)
                            then (DP AND NOT DP_LINK_TRAIN_MASK_CPT, (DP AND NOT DP_LINK_TRAIN_MASK_CPT) OR push_bit 8 2)
                            else (DP AND NOT DP_LINK_TRAIN_MASK, (DP AND NOT DP_LINK_TRAIN_MASK) OR push_bit 28 2));
               DP = (if ds_pch_ibx hw \<and> reg AND DP_PIPEB_SELECT \<noteq> 0 then DP AND NOT DP_PIPEB_SELECT else DP);
               DP = DP AND NOT DP_AUDIO_OUTPUT_ENABLE
           in dp\<lparr>id_reg := DP AND NOT DP_PORT_EN\<rparr>)"

text \<open>The result has the next round, whether the channel was equalized, the value for the register, and
  the port.\<close>

partial_function (option) complete_loop ::
    "dp_source \<Rightarrow> sink \<Rightarrow> nat \<Rightarrow> nat \<Rightarrow> nat \<Rightarrow> u32 \<Rightarrow> intel_dp \<Rightarrow> (nat \<times> bool \<times> u32 \<times> intel_dp) outcome option" where
  "complete_loop hw sink n tries cr_tries DP dp =
     (if cr_tries > 5 then Some (Ok (n, False, DP, intel_dp_link_down hw dp))
      else let DP = set_levels hw (id_train_set dp ! 0) DP; ans = sink n (id_train_set dp)
           in case intel_dp_set_link_train hw dp DP PATTERN_2 (sa_written ans) of
                Err e \<Rightarrow> Some (Err e)
              | Bug \<Rightarrow> Some Bug
              | Ok (ok, dp) \<Rightarrow>
                  if \<not> ok then Some (Ok (Suc n, False, DP, dp))
                  else case sa_status ans of
                      None \<Rightarrow> Some (Ok (Suc n, False, DP, dp))
                    | Some st \<Rightarrow>
                        if \<not> drm_dp_clock_recovery_ok st (id_lane_count dp)
                        then Option.bind (intel_dp_start_link_train hw sink (Suc n) dp) (\<lambda>r. case r of
                               Err e \<Rightarrow> Some (Err e) | Bug \<Rightarrow> Some Bug
                             | Ok (n, _, dp) \<Rightarrow> complete_loop hw sink n tries (cr_tries + 1) DP dp)
                        else if drm_dp_channel_eq_ok st (id_lane_count dp) then Some (Ok (Suc n, True, DP, dp))
                        else if tries > 5
                        then Option.bind (intel_dp_start_link_train hw sink (Suc n) (intel_dp_link_down hw dp)) (\<lambda>r. case r of
                               Err e \<Rightarrow> Some (Err e) | Bug \<Rightarrow> Some Bug
                             | Ok (n, _, dp) \<Rightarrow> complete_loop hw sink n 0 (cr_tries + 1) DP dp)
                        else complete_loop hw sink (Suc n) (tries + 1) cr_tries DP (intel_get_adjust_train hw st dp))"

definition intel_dp_complete_link_train :: "dp_source \<Rightarrow> sink \<Rightarrow> nat \<Rightarrow> intel_dp \<Rightarrow> (nat \<times> bool \<times> intel_dp) outcome option" where
  "intel_dp_complete_link_train hw sink n dp =
     Option.bind (complete_loop hw sink n 0 0 (id_DP dp) dp) (\<lambda>r. case r of
         Err e \<Rightarrow> Some (Err e) | Bug \<Rightarrow> Some Bug
       | Ok (n, eq, DP, dp) \<Rightarrow>
           (case intel_dp_set_link_train hw dp DP PATTERN_DISABLE True of
              Ok (_, dp) \<Rightarrow> Some (Ok (n, eq, dp)) | Err e \<Rightarrow> Some (Err e) | Bug \<Rightarrow> Some Bug))"

text \<open>The check on a hot-plug interrupt of an active port: \<open>st\<close> and \<open>dpcd\<close> are the status and the
  capabilities if they could be read.\<close>

definition intel_dp_check_link_status ::
    "dp_source \<Rightarrow> sink \<Rightarrow> u8 list option \<Rightarrow> bool \<Rightarrow> intel_dp \<Rightarrow> intel_dp outcome option" where
  "intel_dp_check_link_status hw sink st dpcd dp =
     (case st of
        None \<Rightarrow> Some (Ok (intel_dp_link_down hw dp))
      | Some st \<Rightarrow>
          if \<not> dpcd then Some (Ok (intel_dp_link_down hw dp))
          else if drm_dp_channel_eq_ok st (id_lane_count dp) then Some (Ok dp)
          else Option.bind (intel_dp_start_link_train hw sink 0 dp) (\<lambda>r. case r of
                 Err e \<Rightarrow> Some (Err e) | Bug \<Rightarrow> Some Bug
               | Ok (n, _, dp) \<Rightarrow>
                   Option.bind (intel_dp_complete_link_train hw sink n dp) (\<lambda>r. case r of
                     Err e \<Rightarrow> Some (Err e) | Bug \<Rightarrow> Some Bug | Ok (_, _, dp) \<Rightarrow> Some (Ok dp))))"

end
