(* ===== verification/Intel_Dp_Proofs.thy ===== *)
theory Intel_Dp_Proofs
  imports Intel_Dp_Train
begin

text \<open>
  The loops of the link training: the levels a round leaves, a measure that falls as long as the sink
  never asks for less voltage than it was given, and what stays true of the port.
\<close>

section \<open>Levels\<close>

abbreviation lvl :: "u8 \<Rightarrow> nat" where "lvl x \<equiv> unat (x AND 3)"

lemma bit_5_of_8: "(x :: u8) AND 3 \<le> 3"
  by (rule word_and_le1)

lemma lvl_le: "lvl x \<le> 3"
  using word_and_le1 [of x 3] by (simp add: word_le_nat_alt)

definition requested :: "u8 list \<Rightarrow> nat \<Rightarrow> nat" where
  "requested st lanes = unat (max_request (drm_dp_get_adjust_request_voltage st) lanes)"

lemma max_request_Suc:
  "max_request f (Suc n) = (if f n > max_request f n then f n else max_request f n)"
  by (simp add: max_request_def)

lemma max_request_0 [simp]: "max_request f 0 = 0"
  by (simp add: max_request_def)

lemma max_request_P: "P 0 \<Longrightarrow> (\<And>l. P (f l)) \<Longrightarrow> P (max_request f n)"
  by (induction n) (simp_all add: max_request_Suc)

lemma volts_le: "max_request (drm_dp_get_adjust_request_voltage st) n \<le> 3"
  by (rule max_request_P) (simp_all add: drm_dp_get_adjust_request_voltage_def word_and_le1)

lemma requested_le: "requested st n \<le> 3"
  using volts_le [of st n] by (simp add: requested_def word_le_nat_alt)

lemma pre_and: "max_request (drm_dp_get_adjust_request_pre_emphasis st) n AND 7 = 0"
proof (rule max_request_P)
  fix l
  have m: "(7 :: u8) = mask 3" by (simp add: mask_eq_exp_minus_1)
  have "push_bit 3 (y :: u8) AND 7 = take_bit 3 (push_bit 3 y)" for y
    unfolding m by (simp only: take_bit_eq_mask)
  then have "push_bit 3 (y :: u8) AND 7 = 0" for y
    by (simp add: take_bit_push_bit)
  then show "drm_dp_get_adjust_request_pre_emphasis st l AND 7 = 0"
    unfolding drm_dp_get_adjust_request_pre_emphasis_def by this
qed simp

lemma and_le_3: "(v :: u8) \<le> 3 \<Longrightarrow> v AND 7 = v"
proof -
  assume "v \<le> 3"
  then have "v \<in> {0, 1, 2, 3}" by (auto simp: word_le_nat_alt unat_arith_simps)
  then show ?thesis by auto
qed

text \<open>The new level of the four lanes.\<close>

lemma adjust_train:
  obtains y where "id_train_set (intel_get_adjust_train hw st dp) = replicate 4 y"
    "lvl y = min (requested st (id_lane_count dp)) (unat (intel_dp_voltage_max hw))"
    "y AND 4 \<noteq> 0 \<longleftrightarrow> requested st (id_lane_count dp) \<ge> unat (intel_dp_voltage_max hw)"
    "id_lane_count (intel_get_adjust_train hw st dp) = id_lane_count dp" "id_reg (intel_get_adjust_train hw st dp) = id_reg dp"
    "id_DP (intel_get_adjust_train hw st dp) = id_DP dp"
proof -
  define v where "v = max_request (drm_dp_get_adjust_request_voltage st) (id_lane_count dp)"
  define p where "p = max_request (drm_dp_get_adjust_request_pre_emphasis st) (id_lane_count dp)"
  define vm where "vm = intel_dp_voltage_max hw"
  define v' where "v' = (if v \<ge> vm then vm OR 4 else v)"
  define pm where "pm = intel_dp_pre_emphasis_max hw v'"
  define p' where "p' = (if p \<ge> pm then pm OR 0x20 else p)"
  have vm: "vm = 2 \<or> vm = 3" by (auto simp: vm_def intel_dp_voltage_max_def)
  have "pm \<in> {0, 8, 0x10, 0x18}" by (auto simp: pm_def intel_dp_pre_emphasis_max_def Let_def)
  then have "(pm OR 0x20) AND 7 = 0" by auto
  then have p': "p' AND 7 = 0" using pre_and [of st "id_lane_count dp"] by (simp add: p'_def p_def)
  have "v \<le> 3" by (simp add: v_def volts_le)
  then have v: "v \<in> {0, 1, 2, 3}" by (auto simp: word_le_nat_alt unat_arith_simps)
  have "p' AND 3 = (p' AND 7) AND 3" "p' AND 4 = (p' AND 7) AND 4" by (simp_all add: and.assoc)
  then have "p' AND 3 = 0" "p' AND 4 = 0" by (simp_all add: p')
  then have y: "(v' OR p') AND 3 = v' AND 3" "(v' OR p') AND 4 = v' AND 4" by (simp_all add: word_ao_dist)
  have r: "requested st (id_lane_count dp) = unat v" by (simp add: requested_def v_def)
  have "lvl (v' OR p') = min (unat v) (unat vm) \<and> ((v' OR p') AND 4 \<noteq> 0 \<longleftrightarrow> unat v \<ge> unat vm)"
    unfolding y using v vm by (auto simp: v'_def word_le_nat_alt)
  moreover have "intel_get_adjust_train hw st dp = dp\<lparr>id_train_set := replicate 4 (v' OR p')\<rparr>"
    by (simp add: intel_get_adjust_train_def Let_def v'_def vm_def v_def p'_def p_def pm_def DP_TRAIN_MAX_SWING_REACHED_def
        DP_TRAIN_MAX_PRE_EMPHASIS_REACHED_def)
  ultimately show ?thesis using that [of "v' OR p'"] by (simp add: r vm_def)
qed

text \<open>The levels and the pattern leave the enable bit of the port alone.\<close>

lemma bit_set_levels: "bit (set_levels hw ts DP) 31 = bit DP 31"
proof -
  have "\<not> bit (intel_dp_signal_levels_hsw ts) 31" "\<not> bit (intel_gen7_edp_signal_levels ts) 31" "\<not> bit (intel_gen6_edp_signal_levels ts) 31"
    by (simp_all add: intel_dp_signal_levels_hsw_def intel_gen7_edp_signal_levels_def intel_gen6_edp_signal_levels_def Let_def)
  moreover have "\<not> bit (intel_dp_signal_levels ts) 31"
    by (simp add: intel_dp_signal_levels_def bit_simps DP_TRAIN_VOLTAGE_SWING_MASK_def DP_TRAIN_PRE_EMPHASIS_MASK_def)
  ultimately show ?thesis by (simp add: set_levels_def bit_simps)
qed

lemma bit_train_reg: "bit (train_reg hw v pat) 31 = bit v 31"
  by (cases pat) (simp_all add: train_reg_def bit_simps DP_LINK_TRAIN_MASK_CPT_def DP_LINK_TRAIN_MASK_def)

section \<open>The first loop\<close>

text \<open>A sink that never asks for less voltage than it was given.\<close>

definition steady_sink :: "sink \<Rightarrow> nat \<Rightarrow> bool" where
  "steady_sink sink lanes \<longleftrightarrow> (\<forall>n x st. sa_status (sink n (replicate 4 x)) = Some st \<longrightarrow> lvl x \<le> requested st lanes)"

definition dp_ok :: "dp_source \<Rightarrow> nat \<Rightarrow> intel_dp \<Rightarrow> bool" where
  "dp_ok hw lanes dp \<longleftrightarrow> id_lane_count dp = lanes \<and> lanes \<le> 4
     \<and> (\<exists>x. id_train_set dp = replicate 4 x \<and> lvl x \<le> unat (intel_dp_voltage_max hw))"

lemma dp_ok_upd [simp]:
  "dp_ok hw lanes (dp\<lparr>id_reg := r\<rparr>) = dp_ok hw lanes dp" "dp_ok hw lanes (dp\<lparr>id_DP := v\<rparr>) = dp_ok hw lanes dp"
  by (simp_all add: dp_ok_def)

lemma dp_ok_zero: "lanes \<le> 4 \<Longrightarrow> id_lane_count dp = lanes \<Longrightarrow> dp_ok hw lanes (dp\<lparr>id_train_set := replicate 4 0\<rparr>)"
  by (auto simp: dp_ok_def intro!: exI [of _ 0])

lemma dp_ok_adjust: "dp_ok hw lanes dp \<Longrightarrow> dp_ok hw lanes (intel_get_adjust_train hw st dp)"
  by (rule adjust_train [of hw st dp]) (auto simp: dp_ok_def)

lemma dp_ok_link_down: "dp_ok hw lanes dp \<Longrightarrow> dp_ok hw lanes (intel_dp_link_down hw dp)"
  by (simp add: intel_dp_link_down_def Let_def split: prod.splits)

lemma set_link_train_ok:
  "dp_ok hw lanes dp \<Longrightarrow> intel_dp_set_link_train hw dp v pat w =
     Ok (pat = PATTERN_DISABLE \<or> w, dp\<lparr>id_reg := train_reg hw v pat\<rparr>)"
  by (auto simp: intel_dp_set_link_train_def dp_ok_def Let_def)

text \<open>The measure of a round.\<close>

definition start_left :: "u8 \<Rightarrow> nat \<Rightarrow> nat \<Rightarrow> u8 \<Rightarrow> nat" where
  "start_left voltage vt lt x = ((4 - lt) * 4 + (3 - lvl x)) * 7 + (if x AND 3 = voltage then 5 - vt else 6)"

definition recovered :: "sink \<Rightarrow> nat \<Rightarrow> nat \<Rightarrow> bool" where
  "recovered sink n lanes \<longleftrightarrow> (\<exists>x st. sa_written (sink n (replicate 4 x)) \<and> sa_status (sink n (replicate 4 x)) = Some st
     \<and> drm_dp_clock_recovery_ok st lanes)"

lemma start_loop_returns:
  assumes s: "steady_sink sink lanes" and d: "dp_ok hw lanes dp" "id_train_set dp = replicate 4 x" and t: "vt < 5" "lt < 5"
  shows "\<exists>m ok dp'. start_loop hw sink n voltage vt lt DP dp = Some (Ok (m, ok, dp'))
    \<and> n < m \<and> m \<le> n + start_left voltage vt lt x + 1 \<and> dp_ok hw lanes dp' \<and> (ok \<longrightarrow> recovered sink (m - 1) lanes) \<and> bit (id_DP dp') 31 = bit DP 31"
  using d t
proof (induction "start_left voltage vt lt x" arbitrary: n voltage vt lt x DP dp rule: less_induct)
  case less
  let ?DP = "set_levels hw x DP" and ?ans = "sink n (replicate 4 x)"
  let ?dp = "dp\<lparr>id_reg := train_reg hw (set_levels hw x DP) PATTERN_1\<rparr>"
  have l: "lanes \<le> 4" "id_lane_count dp = lanes" "lvl x \<le> unat (intel_dp_voltage_max hw)" using less.prems by (auto simp: dp_ok_def)
  have x0: "id_train_set dp ! 0 = x" using less.prems by simp
  note run = start_loop.simps [of hw sink n voltage vt lt DP dp, unfolded Let_def x0 set_link_train_ok [OF less.prems(1)] outcome.case prod.case less.prems(2)]
  have all: "list_all (\<lambda>i. id_train_set dp ! i AND DP_TRAIN_MAX_SWING_REACHED \<noteq> 0) [0..<lanes] \<longleftrightarrow> lanes = 0 \<or> x AND 4 \<noteq> 0"
    using l(1) unfolding less.prems(2) by (auto simp: list_all_iff DP_TRAIN_MAX_SWING_REACHED_def)
  show ?case
  proof (cases "sa_written ?ans \<and> sa_status ?ans \<noteq> None")
    case False
    then show ?thesis using run less.prems(1) by (auto simp: bit_set_levels split: option.splits)
  next
    case True
    then obtain st where st: "sa_written ?ans" "sa_status ?ans = Some st" by auto
    show ?thesis
    proof (cases "drm_dp_clock_recovery_ok st lanes")
      case True
      then show ?thesis using run st less.prems(1) l by (auto simp: recovered_def bit_set_levels)
    next
      case nr: False
      then have pos: "lanes \<noteq> 0" by (cases lanes) (simp_all add: drm_dp_clock_recovery_ok_def)
      show ?thesis
      proof (cases "x AND 4 \<noteq> 0")
        case mx: True
        show ?thesis
        proof (cases "lt + 1 = 5")
          case True
          then show ?thesis using run st less.prems(1) l nr mx all by (auto simp: bit_set_levels)
        next
          case False
          have "start_left voltage 0 (lt + 1) 0 \<le> ((4 - (lt + 1)) * 4 + 3) * 7 + 6" by (simp add: start_left_def)
          also have "\<dots> < ((4 - lt) * 4) * 7" using False less.prems(4) by simp
          also have "\<dots> \<le> start_left voltage vt lt x" by (simp add: start_left_def)
          finally have lt: "start_left voltage 0 (lt + 1) 0 < start_left voltage vt lt x" .
          let ?d = "?dp\<lparr>id_train_set := replicate 4 0\<rparr>"
          have z: "dp_ok hw lanes ?d" using l by (intro dp_ok_zero) simp_all
          obtain m ok dp' where "start_loop hw sink (Suc n) voltage 0 (lt + 1) ?DP ?d = Some (Ok (m, ok, dp'))" "Suc n < m"
            "m \<le> Suc n + start_left voltage 0 (lt + 1) 0 + 1" "dp_ok hw lanes dp'" "ok \<longrightarrow> recovered sink (m - 1) lanes" "bit (id_DP dp') 31 = bit DP 31"
            using bit_set_levels [of hw x DP] less.hyps [OF lt z, of "Suc n" ?DP] False less.prems(4) by auto
          then show ?thesis using run st l nr mx all False lt by (intro exI [of _ m] exI [of _ ok] exI [of _ dp']) simp
        qed
      next
        case nm: False
        show ?thesis
        proof (cases "x AND 3 = voltage \<and> vt + 1 = 5")
          case True
          then show ?thesis using run st less.prems(1) l nr nm pos all by (auto simp: DP_TRAIN_VOLTAGE_SWING_MASK_def bit_set_levels)
        next
          case False
          let ?vt = "if x AND 3 = voltage then vt + 1 else 0"
          let ?d = "intel_get_adjust_train hw st ?dp"
          obtain y where y: "id_train_set ?d = replicate 4 y" "lvl y = min (requested st lanes) (unat (intel_dp_voltage_max hw))"
            using adjust_train [of hw st ?dp] l(2) by auto
          have "lvl x \<le> requested st lanes" using s st(2) by (simp add: steady_sink_def)
          then have xy: "lvl x \<le> lvl y" using y(2) l(3) by simp
          have lt: "start_left (x AND 3) ?vt lt y < start_left voltage vt lt x"
          proof (cases "lvl y = lvl x")
            case True
            then have "y AND 3 = x AND 3" by (simp add: word_unat_eq_iff)
            then show ?thesis using False less.prems(3) by (auto simp: start_left_def)
          next
            case ne: False
            then have "(3 - lvl y) + 1 \<le> 3 - lvl x" using xy lvl_le [of y] by simp
            then have "((4 - lt) * 4 + (3 - lvl y)) * 7 + 7 \<le> ((4 - lt) * 4 + (3 - lvl x)) * 7" by simp
            moreover have "start_left (x AND 3) ?vt lt y \<le> ((4 - lt) * 4 + (3 - lvl y)) * 7 + 6" by (auto simp: start_left_def)
            ultimately show ?thesis by (simp add: start_left_def)
          qed
          have z: "dp_ok hw lanes ?d" using less.prems(1) by (intro dp_ok_adjust) simp
          have "?vt < 5" using False less.prems(3) by auto
          then obtain m ok dp' where "start_loop hw sink (Suc n) (x AND 3) ?vt lt ?DP ?d = Some (Ok (m, ok, dp'))" "Suc n < m"
            "m \<le> Suc n + start_left (x AND 3) ?vt lt y + 1" "dp_ok hw lanes dp'" "ok \<longrightarrow> recovered sink (m - 1) lanes" "bit (id_DP dp') 31 = bit DP 31"
            using bit_set_levels [of hw x DP] less.hyps [OF lt z y(1), of "Suc n" ?DP] less.prems(4) by auto
          then show ?thesis using run st l nr nm pos all False lt
            by (intro exI [of _ m] exI [of _ ok] exI [of _ dp']) (simp add: DP_TRAIN_VOLTAGE_SWING_MASK_def)
        qed
      qed
    qed
  qed
qed

lemma start_link_train_returns:
  assumes s: "steady_sink sink lanes" and l: "lanes \<le> 4" "id_lane_count dp = lanes"
  shows "\<exists>m ok dp'. intel_dp_start_link_train hw sink n dp = Some (Ok (m, ok, dp')) \<and> n < m \<and> m \<le> n + 140
    \<and> dp_ok hw lanes dp' \<and> (ok \<longrightarrow> recovered sink (m - 1) lanes) \<and> bit (id_DP dp') 31"
proof -
  let ?d = "dp\<lparr>id_train_set := replicate 4 0\<rparr>"
  obtain m ok dp' where m: "start_loop hw sink n 0xff 0 0 (id_DP dp OR DP_PORT_EN) ?d = Some (Ok (m, ok, dp'))" "n < m"
    "m \<le> n + start_left 0xff 0 0 0 + 1" "dp_ok hw lanes dp'" "ok \<longrightarrow> recovered sink (m - 1) lanes"
    "bit (id_DP dp') 31 = bit (id_DP dp OR DP_PORT_EN) 31"
    using start_loop_returns [OF s dp_ok_zero [OF l], where x = 0 and vt = 0 and lt = 0 and n = n and voltage = "0xff" and DP = "id_DP dp OR DP_PORT_EN" and hw = hw] by auto
  moreover have "start_left 0xff 0 0 0 = 139" by (simp add: start_left_def)
  ultimately show ?thesis unfolding intel_dp_start_link_train_def by (auto simp: bit_simps DP_PORT_EN_def)
qed

section \<open>The second loop\<close>

definition equalized :: "sink \<Rightarrow> nat \<Rightarrow> nat \<Rightarrow> bool" where
  "equalized sink n lanes \<longleftrightarrow> (\<exists>x st. sa_written (sink n (replicate 4 x)) \<and> sa_status (sink n (replicate 4 x)) = Some st
     \<and> drm_dp_clock_recovery_ok st lanes \<and> drm_dp_channel_eq_ok st lanes)"

definition complete_left :: "nat \<Rightarrow> nat \<Rightarrow> nat" where
  "complete_left tries cr = (6 - cr) * 7 + (6 - tries)"

lemma complete_loop_returns:
  assumes s: "steady_sink sink lanes" and d: "dp_ok hw lanes dp" and t: "tries \<le> 6" "cr \<le> 6"
  shows "\<exists>m eq DP' dp'. complete_loop hw sink n tries cr DP dp = Some (Ok (m, eq, DP', dp'))
    \<and> m \<le> n + 141 * complete_left tries cr + 1 \<and> dp_ok hw lanes dp' \<and> (eq \<longrightarrow> equalized sink (m - 1) lanes) \<and> bit DP' 31 = bit DP 31"
  using d t
proof (induction "complete_left tries cr" arbitrary: n tries cr DP dp rule: less_induct)
  case less
  obtain x where x: "id_train_set dp = replicate 4 x" using less.prems by (auto simp: dp_ok_def)
  have l: "lanes \<le> 4" "id_lane_count dp = lanes" using less.prems by (auto simp: dp_ok_def)
  let ?DP = "set_levels hw x DP" and ?ans = "sink n (replicate 4 x)"
  let ?dp = "dp\<lparr>id_reg := train_reg hw (set_levels hw x DP) PATTERN_2\<rparr>"
  have x0: "id_train_set dp ! 0 = x" using x by simp
  note run = complete_loop.simps [of hw sink n tries cr DP dp, unfolded Let_def x0 set_link_train_ok [OF less.prems(1)] outcome.case prod.case x]
  show ?case
  proof (cases "cr > 5")
    case True
    then show ?thesis using run dp_ok_link_down [OF less.prems(1)] by auto
  next
    case cr: False
    show ?thesis
    proof (cases "sa_written ?ans \<and> sa_status ?ans \<noteq> None")
      case False
      then show ?thesis using run cr less.prems(1) by (auto simp: bit_set_levels split: option.splits)
    next
      case True
      then obtain st where st: "sa_written ?ans" "sa_status ?ans = Some st" by auto
      text \<open>A new clock recovery, on the port as it is or after it was taken down.\<close>
      have restart: ?thesis
        if d: "dp_ok hw lanes d" and t: "tr \<le> tries" "tries = 6 \<or> tr = tries"
          and e: "complete_loop hw sink n tries cr DP dp = Option.bind (intel_dp_start_link_train hw sink (Suc n) d) (\<lambda>r. case r of
            Err e \<Rightarrow> Some (Err e) | Bug \<Rightarrow> Some Bug | Ok (n, _, dp) \<Rightarrow> complete_loop hw sink n tr (Suc cr) ?DP dp)" for d tr
      proof -
        obtain m ok d2 where m: "intel_dp_start_link_train hw sink (Suc n) d = Some (Ok (m, ok, d2))" "m \<le> Suc n + 140" "dp_ok hw lanes d2"
          using start_link_train_returns [OF s l(1), of d hw "Suc n"] d by (auto simp: dp_ok_def)
        have lt: "complete_left tr (cr + 1) < complete_left tries cr"
          using cr t less.prems(2) by (auto simp: complete_left_def)
        obtain m2 eq DP' d3 where r: "complete_loop hw sink m tr (cr + 1) ?DP d2 = Some (Ok (m2, eq, DP', d3))"
          "m2 \<le> m + 141 * complete_left tr (cr + 1) + 1" "dp_ok hw lanes d3" "eq \<longrightarrow> equalized sink (m2 - 1) lanes" "bit DP' 31 = bit ?DP 31"
          using less.hyps [OF lt m(3), of m ?DP] t less.prems(2) cr by auto
        have "m2 \<le> n + 141 * complete_left tries cr + 1"
          using r(2) m(2) lt by linarith
        then show ?thesis using e m(1) r bit_set_levels [of hw x DP] by auto
      qed
      show ?thesis
      proof (cases "drm_dp_clock_recovery_ok st lanes")
        case False
        then show ?thesis using run st cr l by (intro restart [of ?dp tries]) (simp_all add: less.prems(1))
      next
        case rec: True
        show ?thesis
        proof (cases "drm_dp_channel_eq_ok st lanes")
          case True
          then show ?thesis using run st cr l rec less.prems(1) by (auto simp: equalized_def bit_set_levels)
        next
          case ne: False
          show ?thesis
          proof (cases "tries > 5")
            case True
            then show ?thesis using run st cr l rec ne less.prems
              by (intro restart [of "intel_dp_link_down hw ?dp" 0]) (simp_all add: dp_ok_link_down)
          next
            case False
            let ?d = "intel_get_adjust_train hw st ?dp"
            have z: "dp_ok hw lanes ?d" using less.prems(1) by (intro dp_ok_adjust) simp
            have lt: "complete_left (tries + 1) cr < complete_left tries cr" using False by (simp add: complete_left_def)
            obtain m2 eq DP' d3 where r: "complete_loop hw sink (Suc n) (tries + 1) cr ?DP ?d = Some (Ok (m2, eq, DP', d3))"
              "m2 \<le> Suc n + 141 * complete_left (tries + 1) cr + 1" "dp_ok hw lanes d3" "eq \<longrightarrow> equalized sink (m2 - 1) lanes" "bit DP' 31 = bit ?DP 31"
              using less.hyps [OF lt z, of "Suc n" ?DP] False less.prems(3) by auto
            have "m2 \<le> n + 141 * complete_left tries cr + 1" using r(2) lt by linarith
            moreover have "complete_loop hw sink n tries cr DP dp = Some (Ok (m2, eq, DP', d3))"
              using run st cr l rec ne False r(1) by simp
            ultimately show ?thesis using r bit_set_levels [of hw x DP] by auto
          qed
        qed
      qed
    qed
  qed
qed

lemma complete_link_train_returns:
  assumes s: "steady_sink sink lanes" and d: "dp_ok hw lanes dp"
  shows "\<exists>m eq dp'. intel_dp_complete_link_train hw sink n dp = Some (Ok (m, eq, dp')) \<and> m \<le> n + 6769
    \<and> dp_ok hw lanes dp' \<and> (eq \<longrightarrow> equalized sink (m - 1) lanes) \<and> bit (id_reg dp') 31 = bit (id_DP dp) 31"
proof -
  obtain m eq DP' dp' where m: "complete_loop hw sink n 0 0 (id_DP dp) dp = Some (Ok (m, eq, DP', dp'))"
    "m \<le> n + 141 * complete_left 0 0 + 1" "dp_ok hw lanes dp'" "eq \<longrightarrow> equalized sink (m - 1) lanes" "bit DP' 31 = bit (id_DP dp) 31"
    using complete_loop_returns [OF s d, of 0 0 n "id_DP dp"] by auto
  then show ?thesis
    by (auto simp: intel_dp_complete_link_train_def set_link_train_ok complete_left_def bit_train_reg)
qed

end
