(* ===== verification/Intel_Dp_Claims.thy ===== *)
theory Intel_Dp_Claims
  imports Intel_Dp_Proofs
begin

text \<open>
  DisplayPort: when the training ends and what it leaves, a sink against which it does not end, the choice
  of rate and lanes, and the packing of AUX messages.
\<close>

section \<open>A sink that changes its mind\<close>

definition moody_sink :: sink where
  "moody_sink n ts = \<lparr>sa_written = True, sa_status = Some [0, 0, 0, 0, if ts ! 0 AND 3 = 0 then 0x11 else 0, if ts ! 0 AND 3 = 0 then 0x11 else 0]\<rparr>"

lemma max_request_const: "0 < n \<Longrightarrow> \<forall>l < n. f l = c \<Longrightarrow> max_request f n = c"
proof (induction n)
  case (Suc n)
  then show ?case by (cases "n = 0") (auto simp: max_request_Suc word_gt_0)
qed simp

lemma moody_request:
  assumes "1 \<le> lanes" "lanes \<le> 4"
  shows "requested [0, 0, 0, 0, 0x11, 0x11] lanes = 1" "requested [0, 0, 0, 0, 0, 0] lanes = 0"
    "\<not> drm_dp_clock_recovery_ok [0, 0, 0, 0, a, b] lanes"
proof -
  have "drm_dp_get_adjust_request_voltage [0, 0, 0, 0, 0x11, 0x11] l = 1" "drm_dp_get_adjust_request_voltage [0, 0, 0, 0, 0, 0] l = 0"
    if "l < 4" for l
  proof -
    have "l = 0 \<or> l = 1 \<or> l = 2 \<or> l = 3" using that by auto
    then show "drm_dp_get_adjust_request_voltage [0, 0, 0, 0, 0x11, 0x11] l = 1" "drm_dp_get_adjust_request_voltage [0, 0, 0, 0, 0, 0] l = 0"
      by (auto simp: drm_dp_get_adjust_request_voltage_def)
  qed
  then have "max_request (drm_dp_get_adjust_request_voltage [0, 0, 0, 0, 0x11, 0x11]) lanes = 1"
    "max_request (drm_dp_get_adjust_request_voltage [0, 0, 0, 0, 0, 0]) lanes = 0"
    using assms by (auto intro!: max_request_const)
  then show "requested [0, 0, 0, 0, 0x11, 0x11] lanes = 1" "requested [0, 0, 0, 0, 0, 0] lanes = 0" by (simp_all add: requested_def)
  have "\<not> (dp_get_lane_status [0, 0, 0, 0, a, b] 0 AND DP_LANE_CR_DONE \<noteq> 0)" by (simp add: dp_get_lane_status_def)
  then show "\<not> drm_dp_clock_recovery_ok [0, 0, 0, 0, a, b] lanes" using assms by (auto simp: drm_dp_clock_recovery_ok_def list_all_iff)
qed

lemma moody_loop:
  assumes "start_loop hw sink n voltage vt lt DP dp = Some r"
  shows "sink = moody_sink \<Longrightarrow> dp_ok hw lanes dp \<Longrightarrow> 1 \<le> lanes \<Longrightarrow> id_train_set dp = replicate 4 x \<Longrightarrow> lvl x \<le> 1 \<Longrightarrow>
    x AND 4 = 0 \<Longrightarrow> x AND 3 \<noteq> voltage \<Longrightarrow> False"
proof (induction arbitrary: lanes x rule: start_loop.raw_induct [OF _ assms])
  case (1 start_loop hw sink n voltage vt lt DP dp r)
  note P = "1.prems"
  have sink: "sink = moody_sink" by (rule P(1))
  have l: "lanes \<le> 4" "id_lane_count dp = lanes" "lvl x \<le> unat (intel_dp_voltage_max hw)" using P(2,4) by (auto simp: dp_ok_def)
  let ?st = "[0, 0, 0, 0, if x AND 3 = 0 then 0x11 else 0, if x AND 3 = 0 then 0x11 else 0] :: u8 list"
  let ?dp = "dp\<lparr>id_reg := train_reg hw (set_levels hw x DP) PATTERN_1\<rparr>"
  have ans: "sa_written (moody_sink n (replicate 4 x))" "sa_status (moody_sink n (replicate 4 x)) = Some ?st"
    by (simp_all add: moody_sink_def)
  have nr: "\<not> drm_dp_clock_recovery_ok ?st lanes" by (rule moody_request(3) [OF P(3) l(1)])
  have all: "\<not> list_all (\<lambda>i. id_train_set dp ! i AND DP_TRAIN_MAX_SWING_REACHED \<noteq> 0) [0..<lanes]"
    using P(3,6) unfolding P(4) by (cases lanes) (simp_all add: upt_conv_Cons DP_TRAIN_MAX_SWING_REACHED_def del: upt_Suc)
  let ?d = "intel_get_adjust_train hw ?st ?dp"
  have run: "start_loop hw sink (Suc n) (x AND 3) 0 lt (set_levels hw x DP) ?d = Some r"
    using "1.hyps" P(7) ans nr all l(2) P(4)
    by (simp add: Let_def set_link_train_ok [OF P(2)] sink DP_TRAIN_VOLTAGE_SWING_MASK_def)
  obtain y where y: "id_train_set ?d = replicate 4 y" "lvl y = min (requested ?st lanes) (unat (intel_dp_voltage_max hw))"
      "y AND 4 \<noteq> 0 \<longleftrightarrow> requested ?st lanes \<ge> unat (intel_dp_voltage_max hw)"
    using adjust_train [of hw ?st ?dp] l(2) by auto
  have vm: "2 \<le> unat (intel_dp_voltage_max hw)" by (simp add: intel_dp_voltage_max_def)
  have rq: "requested ?st lanes = (if x AND 3 = 0 then 1 else 0)"
    using moody_request(1,2) [OF P(3) l(1)] by simp
  have ly: "lvl y = (if x AND 3 = 0 then 1 else 0)" using y(2) rq vm by simp
  have z: "dp_ok hw lanes ?d" using P(2) by (intro dp_ok_adjust) simp
  have "y AND 3 \<noteq> x AND 3" using ly by (auto simp: unat_eq_zero split: if_splits)
  moreover have "lvl y \<le> 1" "y AND 4 = 0" using ly y(3) rq vm by (auto split: if_splits)
  ultimately show ?case
    using "1.IH" [OF run sink z P(3) y(1)] by blast
qed

text \<open>C39: The clock recovery has no bound of its own: against a sink that asks for more voltage at the lowest
  level and for less above it, the loop never ends, for any source and number of lanes.\<close>

theorem start_link_train_endless:
  assumes "1 \<le> id_lane_count dp" "id_lane_count dp \<le> 4"
  shows "intel_dp_start_link_train hw moody_sink n dp = None"
proof (rule ccontr)
  assume "intel_dp_start_link_train hw moody_sink n dp \<noteq> None"
  then obtain r where "start_loop hw moody_sink n 0xff 0 0 (id_DP dp OR DP_PORT_EN) (dp\<lparr>id_train_set := replicate 4 0\<rparr>) = Some r"
    by (auto simp: intel_dp_start_link_train_def)
  from moody_loop [OF this refl dp_ok_zero [OF assms(2) refl] assms(1)] show False by simp
qed

text \<open>C38: Against a sink that never asks for less voltage than it was given the training ends within 140
  rounds of clock recovery and 6769 of equalization, and reports success only after a status that shows
  it.  Whatever the outcome, also after the link was taken down because the training failed, the last value
  written to the register of the port has the port enabled.\<close>

theorem link_training_ends:
  assumes "steady_sink sink (id_lane_count dp)" "id_lane_count dp \<le> 4"
  shows "\<exists>m ok d1 m' eq d2. intel_dp_start_link_train hw sink 0 dp = Some (Ok (m, ok, d1)) \<and> m \<le> 140
    \<and> (ok \<longrightarrow> recovered sink (m - 1) (id_lane_count dp))
    \<and> intel_dp_complete_link_train hw sink m d1 = Some (Ok (m', eq, d2)) \<and> m' \<le> m + 6769
    \<and> (eq \<longrightarrow> equalized sink (m' - 1) (id_lane_count dp)) \<and> bit (id_reg d2) 31"
proof -
  obtain m ok d1 where 1: "intel_dp_start_link_train hw sink 0 dp = Some (Ok (m, ok, d1))" "m \<le> 140"
    "dp_ok hw (id_lane_count dp) d1" "ok \<longrightarrow> recovered sink (m - 1) (id_lane_count dp)" "bit (id_DP d1) 31"
    using start_link_train_returns [OF assms(1,2) refl, of hw 0] by auto
  obtain m' eq d2 where "intel_dp_complete_link_train hw sink m d1 = Some (Ok (m', eq, d2))" "m' \<le> m + 6769"
    "eq \<longrightarrow> equalized sink (m' - 1) (id_lane_count dp)" "bit (id_reg d2) 31 = bit (id_DP d1) 31"
    using complete_link_train_returns [OF assms(1) 1(3), of m] by auto
  then show ?thesis using 1 by blast
qed

section \<open>Rates and lanes\<close>











section \<open>Capabilities outside the standard\<close>

text \<open>With three lanes a mode can be accepted that no choice carries; with eight lanes the training reads
  past the levels of the four lanes.\<close>

lemma three_lanes_rejected:
  "intel_dp_mode_valid [0x11, 6, 3] None (zero_mode\<lparr>dm_clock := 200000\<rparr>) = MODE_OK"
  "intel_dp_mode_fixup [0x11, 6, 3] (zero_mode\<lparr>dm_clock := 200000\<rparr>) False = None"
  by code_simp+

lemma eight_lanes_trap:
  assumes "id_lane_count dp = 8"
  shows "intel_dp_start_link_train hw sink n dp = Some Bug"
  using assms by (simp add: intel_dp_start_link_train_def start_loop.simps intel_dp_set_link_train_def Let_def)

section \<open>Messages and ratios\<close>

lemma unpack_pack_aux: "unpack_aux (pack_aux bs) (length bs) = take 4 bs"
proof -
  consider "bs = []" | a where "bs = [a]" | a b where "bs = [a, b]" | a b c where "bs = [a, b, c]" | a b c d r where "bs = a # b # c # d # r"
    by (metis list.exhaust)
  then show ?thesis
  proof cases
    case 1
    then show ?thesis by (simp add: unpack_aux_def)
  next
    case 2
    then show ?thesis by (simp add: unpack_aux_def pack_aux_def upt_rec)
      ((intro conjI)?; rule bit_word_eqI; auto simp: bit_simps dest: bit_imp_le_length)
  next
    case 3
    then show ?thesis by (simp add: unpack_aux_def pack_aux_def upt_rec)
      ((intro conjI)?; rule bit_word_eqI; auto simp: bit_simps dest: bit_imp_le_length)
  next
    case 4
    then show ?thesis by (simp add: unpack_aux_def pack_aux_def upt_rec)
      ((intro conjI)?; rule bit_word_eqI; auto simp: bit_simps dest: bit_imp_le_length)
  next
    case 5
    then show ?thesis by (simp add: unpack_aux_def pack_aux_def upt_rec)
      ((intro conjI)?; rule bit_word_eqI; auto simp: bit_simps dest: bit_imp_le_length)
  qed
qed

lemma unpack_pack_message: "unpack_message (pack_message bs) (length bs) = bs"
proof (induction bs rule: pack_message.induct)
  case (2 b bs)
  have "unpack_message (pack_message (drop 3 bs)) (length (b # bs) - 4) = drop 3 bs" using 2 by simp
  then show ?case using unpack_pack_aux [of "b # bs"] by simp
qed simp

lemma reduced_ratio:
  "intel_reduce_ratio a b = (c, d) \<Longrightarrow> c \<le> 0xffffff \<and> d \<le> 0xffffff"
proof (induction a b rule: intel_reduce_ratio.induct)
  case (1 a b)
  show ?case
  proof (cases "a > 0xffffff \<or> b > 0xffffff")
    case True
    then show ?thesis using 1 by (simp add: intel_reduce_ratio.simps [of a b])
  next
    case False
    then have "intel_reduce_ratio a b = (a, b)" by (subst intel_reduce_ratio.simps) (simp only: if_False)
    then show ?thesis using "1.prems" False by (simp add: not_less)
  qed
qed

section \<open>Witnesses\<close>

definition w_port :: intel_dp where
  "w_port = \<lparr>id_DP = 0, id_reg = 0, id_lane_count = 4, id_train_set = []\<rparr>"

definition w_source :: dp_source where
  "w_source = \<lparr>ds_haswell = False, ds_valleyview = False, ds_gen = 6, ds_pch_cpt = True, ds_pch_ibx = False, ds_cpu_edp = False\<rparr>"

definition w_sink :: sink where
  "w_sink n ts = \<lparr>sa_written = True, sa_status = Some [0x77, 0x77, 1, 0, 0x33, 0x33]\<rparr>"

theorem start_link_train_endless_witness: "intel_dp_start_link_train w_source moody_sink 0 w_port = None"
  by (rule start_link_train_endless) (simp_all add: w_port_def)

lemma w_sink_steady: "steady_sink w_sink (id_lane_count w_port)"
proof -
  have "drm_dp_get_adjust_request_voltage [0x77, 0x77, 1, 0, 0x33, 0x33] l = 3" if "l < 4" for l
  proof -
    have "l = 0 \<or> l = 1 \<or> l = 2 \<or> l = 3" using that by auto
    then show ?thesis by (auto simp: drm_dp_get_adjust_request_voltage_def)
  qed
  then have "max_request (drm_dp_get_adjust_request_voltage [0x77, 0x77, 1, 0, 0x33, 0x33]) 4 = 3" by (intro max_request_const) simp_all
  then show ?thesis using lvl_le by (simp add: steady_sink_def w_sink_def w_port_def requested_def)
qed

theorem link_training_ends_witness:
  "\<exists>m ok d1 m' eq d2. intel_dp_start_link_train w_source w_sink 0 w_port = Some (Ok (m, ok, d1)) \<and> m \<le> 140
    \<and> (ok \<longrightarrow> recovered w_sink (m - 1) (id_lane_count w_port))
    \<and> intel_dp_complete_link_train w_source w_sink m d1 = Some (Ok (m', eq, d2)) \<and> m' \<le> m + 6769
    \<and> (eq \<longrightarrow> equalized w_sink (m' - 1) (id_lane_count w_port)) \<and> bit (id_reg d2) 31"
  by (rule link_training_ends [OF w_sink_steady]) (simp add: w_port_def)



end
