(* ===== verification/Spec2Isabelle.thy ===== *)
theory Spec2Isabelle
  imports Drm_Mm_Claims I915_Evict_Claims Hash_Auth_Claims Drm_Mode_Claims Drm_Lock_Claims Ttm_Lock_Claims I915_Gem_Claims I915_Ring_Claims I915_Tiling_Claims I915_Fence_Claims Drm_Irq_Frames Drm_Vbltime
    Drm_Edid_Fetch Drm_Edid_Claims Intel_Pll_Claims Drm_Gem_Claims Intel_Modeset_Claims Intel_Dp_Claims
begin

text \<open>
  A verification development for the Linux DRM drivers ported to FreeBSD: the generic kernel part
  \<^verbatim>\<open>drm/\<close>, the memory manager \<^verbatim>\<open>drm/ttm/\<close> and the Intel driver \<^verbatim>\<open>drm/i915/\<close>.

  \<^bold>\<open>The program.\<close> A client opens the device and authenticates with a magic number, which the master keeps
  in a hash table; the old clients take a hardware lock in shared memory, those of TTM a lock of their
  own.  It creates GEM objects through handles, names and mmap offsets, and binds them to ranges of the
  graphics translation table, which the range allocator hands out and the eviction frees again; tiled
  objects need a fence register.  Batches that use objects become requests in a ring buffer, and the
  objects stay active until the sequence number of the request has been reported.  For the display, an
  EDID is fetched and turned into modes, a mode set links connectors, encoders and CRTCs, divisors are
  chosen for the pixel clock, and the vertical blanks of the running CRTC are counted and delivered as
  events.

  \<^bold>\<open>How the code is modelled.\<close> Structs are records, fixed-width integers words (\<open>u32\<close>, \<open>u64\<close>) with the
  wrap of the machine, \<^verbatim>\<open>int\<close> arithmetic either a word or an integer whose range is checked (\<open>C_Int\<close>),
  pointers are names in a map or list of the state.  A function returns an \<open>outcome\<close>: \<open>Ok\<close> with its
  result and the new state, \<open>Err\<close> with the error number, or \<open>Bug\<close> for a violated \<^verbatim>\<open>BUG_ON\<close>, a panic or a
  null pointer.  Answers of the hardware, of the kernel (allocation, identifiers, sleeps) and of other
  threads are arguments.  The only fuel is in the waits on the GPU and on locks, where the argument is the
  list of what the environment does during each sleep.

  \<^bold>\<open>Theories.\<close>
  \<^item> \<open>Drm_Prelude\<close>, \<open>C_Int\<close>: widths, errors, outcomes, lists and words; C division, shifts and overflow.
  \<^item> \<open>Drm_Mm\<close> (\<^verbatim>\<open>drm_mm.c\<close>): the ring of nodes, the hole stack, search, insertion, removal, replacement and
    the eviction scan.  \<open>Drm_Mm_Invariant\<close>, \<open>Drm_Mm_Insert\<close>, \<open>Drm_Mm_Remove\<close>, \<open>Drm_Mm_Scan\<close> prove that the
    ring is a chain of disjoint extents with exact holes, that a search is complete, that removal frees
    exactly a node and that a scan hit is sufficient.  \<open>Range_Manager\<close> states this as the locale
    \<open>range_manager\<close>, interpreted by the allocator.
  \<^item> \<open>I915_Evict\<close>, \<open>I915_Evict_Proofs\<close> (\<^verbatim>\<open>i915_gem_evict.c\<close>): eviction makes room, or reports an error and leaves
    the allocator as it was.
  \<^item> \<open>Drm_Hashtab\<close> (\<^verbatim>\<open>drm_hashtab.c\<close>), \<open>Keyed_Table\<close> (the locale \<open>keyed_table\<close>, interpreted by the table) and
    \<open>Drm_Auth\<close> (\<^verbatim>\<open>drm_auth.c\<close>), with their properties in \<open>Hash_Auth_Claims\<close>.
  \<^item> \<open>Drm_Modes\<close>, \<open>Drm_Mode_Lists\<close>, \<open>Drm_Mode_Cmdline\<close>, \<open>Drm_Mode_Timing\<close> (\<^verbatim>\<open>drm_modes.c\<close>): CVT and GTF timings and
    their bounds, mode lists, the command line and its round trip.
  \<^item> \<open>Drm_Lock\<close> (\<^verbatim>\<open>drm_lock.c\<close>) and \<open>Ttm_Lock\<close> (\<^verbatim>\<open>ttm_lock.c\<close>): step relations of the operations, exclusion as
    an invariant, hand-over, and what interference or early returns break.
  \<^item> \<open>I915_Gem\<close>, \<open>I915_Gem_Proofs\<close>, \<open>I915_Gem_Steps\<close> (\<^verbatim>\<open>i915_gem.c\<close>): active and inactive objects, requests,
    retirement and waits; sequence numbers wrap, and the invariant bounds the age of what is live by half
    their range.
  \<^item> \<open>I915_Ring\<close>, \<open>I915_Ring_Proofs\<close> (\<^verbatim>\<open>intel_ringbuffer.c\<close>): space, waiting and wrapping of a ring.
  \<^item> \<open>I915_Tiling\<close> (\<^verbatim>\<open>i915_gem_tiling.c\<close>), \<open>I915_Fence\<close>, \<open>I915_Fence_Proofs\<close> (\<^verbatim>\<open>i915_gem.c\<close>): sizes and strides, the
    values of fence registers, getting, stealing, losing and resetting fences.
  \<^item> \<open>Drm_Irq\<close>, \<open>Drm_Irq_Proofs\<close>, \<open>Drm_Irq_Frames\<close>, \<open>Drm_Vbltime\<close> (\<^verbatim>\<open>drm_irq.c\<close>, with the events of \<^verbatim>\<open>drm_fops.c\<close>):
    references, events and the counter of vertical blanks, which refines an abstract frame counter.
  \<^item> \<open>Drm_Edid_Tables\<close>, \<open>Drm_Edid\<close>, \<open>Drm_Edid_Walk\<close>, \<open>Drm_Edid_Modes\<close>, \<open>Drm_Edid_Cea\<close> (\<^verbatim>\<open>drm_edid.c\<close>, \<^verbatim>\<open>drm_edid_modes.h\<close>):
    fetching, validation, quirks and all modes of an EDID.  \<open>Drm_Edid_Safety\<close> has the locales
    \<open>timing_callback\<close>, \<open>timing_reader\<close> and \<open>cea_reader\<close> for what a callback of the walks owes, interpreted
    by the callbacks of the code; \<open>Drm_Edid_Fetch\<close> shows that a fetched EDID is valid.
  \<^item> \<open>Intel_Pll\<close> (\<^verbatim>\<open>intel_display.c\<close>): the limits and the searches for divisors, against exhaustive minimisation.
  \<^item> \<open>Drm_Gem\<close>, \<open>Drm_Gem_Proofs\<close>, \<open>Drm_Gem_Ops\<close> (\<^verbatim>\<open>drm_gem.c\<close>): objects, handles, names and mmap offsets, with a
    transition system over the references the callers hold.
  \<^item> \<open>Intel_Modeset\<close>, \<open>Intel_Modeset_Proofs\<close>, \<open>Intel_Modeset_Config\<close>, \<open>Intel_Modeset_Readout\<close> (\<^verbatim>\<open>intel_display.c\<close>):
    the tracked links of the display pipeline; \<^verbatim>\<open>intel_modeset_check_state\<close>, the driver's own check, is the
    invariant that requests, power management and the read-out at load keep or establish.
  \<^item> \<open>Intel_Dp\<close>, \<open>Intel_Dp_Train\<close>, \<open>Intel_Dp_Proofs\<close> (\<^verbatim>\<open>intel_dp.c\<close>, \<^verbatim>\<open>drm_dp_helper.c\<close>): AUX transfers, the choice of
    rate and lanes for a mode, and the training of the link, two nested loops that need not end.
  Each theory \<open>X_Claims\<close> has the properties of its component and their witnesses on concrete inputs.

  \<^bold>\<open>Bounds and fuel.\<close> Loops over lists are structural.  Loops that the code repeats until something
  happens are partial functions: the doubling loop of the GTT sizes, the just-insert loop of the hash
  table, the search for a fresh magic number, the reading of a vertical blank counter, the deferred AUX
  transfers and the two loops of the link training.  Termination is proved where it holds: up to 2 GiB,
  with a free key, and within 140 and 6769 rounds for a sink that never asks for less voltage; where it
  does not, that is a theorem too.  The waits run along the list of answers; the properties on them say
  which answers make them return.  The CVT bounds hold on the sizes and rates stated there; outside them
  the product for the pixel clock overflows.

  \<^bold>\<open>Divergences found.\<close> Among others: \<^verbatim>\<open>hash_64\<close> always yields 0; a failed swap of the hardware lock can count
  as taken; two calls of the TTM lock return with the mutex held; the GTT size loop does not end above
  2 GiB; a wrap of the hardware counter loses a frame; CEA extensions with a small offset are read as
  detailed timings; the last PLL search compares unsigned errors; a sink that alternates between two
  voltages is trained for ever; the creation of a GEM handle races with
  its close; a failed flip is reported as success.

  \<^bold>\<open>Not modelled.\<close> Register programming of the display (the rest of \<^verbatim>\<open>intel_display.c\<close>, \<^verbatim>\<open>intel_pm.c\<close>, the outputs
  \<^verbatim>\<open>intel_sdvo.c\<close>, \<^verbatim>\<open>intel_tv.c\<close> and others, sprites and overlay), because its effect is in the
  hardware; firmware tables and mailboxes; interrupts of i915; relocation, contexts and page tables; the
  legacy buffers and maps; the generic mode setting objects and helpers; the buffer objects and page
  pools of TTM, which no driver here uses; and the glue to the operating system.  Register headers are
  used only for the constants the models need.
\<close>

end
